(* ===== verification/Prelude.thy ===== *)
theory Prelude
  imports Complex_Main "HOL-Library.AList" "HOL-Library.Char_ord" "HOL-Library.List_Lexorder"
    "HOL-Library.Product_Lexorder" "HOL-Library.Multiset"
begin

text \<open>
  The vocabulary the component theories share.  Python floats are modelled by exact
  real numbers, Python ints by int, datetimes by integer microseconds since the epoch
  (the resolution of datetime), strings by ASCII char lists, dicts by association lists
  in insertion order (or by maps where the order is never observed) and exceptions by the
  left side of a sum.  The lemmas here are generic: errors, stable descending sort, first
  maximum, grouping, dictionary comprehensions, and guarded accumulation.
\<close>

named_theorems py_simps \<open>rewrite rules for the Python vocabulary\<close>

section \<open>Exceptions\<close>

text \<open>
  The exception classes that the modelled code raises or lets escape.  A message is kept
  only where another part of the program reads it.  \<open>ServiceError\<close> is any other exception of
  an awaited service, by the name of its class.
\<close>

datatype py_error =
    ValueError string
  | ValidationError string
  | RuntimeError string
  | ZeroDivisionError
  | AssertionError
  | InsufficientDepthError string
  | UnknownVenueFeeError string
  | BorrowCostUnavailableError string
  | IndexError
  | IntegrityError
  | TypeError
  | LookupError string
  | OverflowError
  | HTTPStatusError nat
  | ServiceError string

type_synonym 'a result = "py_error + 'a"

definition rbind :: "'a result \<Rightarrow> ('a \<Rightarrow> 'b result) \<Rightarrow> 'b result" where
  "rbind m f = (case m of Inl e \<Rightarrow> Inl e | Inr x \<Rightarrow> f x)"

lemma rbind_simps [simp, py_simps]:
  "rbind (Inl e) f = Inl e"
  "rbind (Inr x) f = f x"
  by (simp_all add: rbind_def)

lemma rbind_eq_Inr [simp]: "rbind m f = Inr y \<longleftrightarrow> (\<exists>x. m = Inr x \<and> f x = Inr y)"
  by (cases m) auto

lemma rbind_eq_Inl: "rbind m f = Inl e \<longleftrightarrow> m = Inl e \<or> (\<exists>x. m = Inr x \<and> f x = Inl e)"
  by (cases m) auto

text \<open>A list comprehension whose body may raise: left to right, the first error wins.\<close>

fun rmap :: "('a \<Rightarrow> 'b result) \<Rightarrow> 'a list \<Rightarrow> 'b list result" where
  "rmap f [] = Inr []"
| "rmap f (x # xs) = rbind (f x) (\<lambda>y. rbind (rmap f xs) (\<lambda>ys. Inr (y # ys)))"

lemma rmap_Inr_iff: "rmap f xs = Inr ys \<longleftrightarrow> list_all2 (\<lambda>x y. f x = Inr y) xs ys"
  by (induction xs arbitrary: ys) (auto simp: list_all2_Cons1)

lemma rmap_length: "rmap f xs = Inr ys \<Longrightarrow> length ys = length xs"
  by (auto simp: rmap_Inr_iff dest: list_all2_lengthD)

lemma rmap_set:
  assumes "rmap f xs = Inr ys" and "y \<in> set ys"
  obtains x where "x \<in> set xs" and "f x = Inr y"
proof -
  from assms obtain i where "i < length ys" "ys ! i = y" by (auto simp: in_set_conv_nth)
  with assms(1) have "xs ! i \<in> set xs" "f (xs ! i) = Inr y"
    by (auto simp: rmap_Inr_iff list_all2_conv_all_nth)
  then show ?thesis by (rule that)
qed

lemma rmap_member:
  assumes "rmap f xs = Inr ys" and "x \<in> set xs" and "f x = Inr y"
  shows "y \<in> set ys"
proof -
  obtain i where "i < length xs" "xs ! i = x" using assms(2) by (auto simp: in_set_conv_nth)
  then have "i < length ys" "ys ! i = y"
    using assms(1,3) by (auto simp: rmap_Inr_iff list_all2_conv_all_nth)
  then show ?thesis by (metis nth_mem)
qed

lemma rmap_defined: "rmap f xs = Inr ys \<Longrightarrow> x \<in> set xs \<Longrightarrow> \<exists>y. f x = Inr y"
  by (induction xs arbitrary: ys) auto

lemma rmap_exists: "(\<And>x. x \<in> set xs \<Longrightarrow> \<exists>y. f x = Inr y) \<Longrightarrow> \<exists>ys. rmap f xs = Inr ys"
  by (induction xs) fastforce+

lemma rmap_total: "\<forall>x \<in> set xs. f x = Inr (g x) \<Longrightarrow> rmap f xs = Inr (map g xs)"
  by (induction xs) auto

text \<open>A loop over a list whose body may raise.\<close>

fun rfold :: "('a \<Rightarrow> 's \<Rightarrow> 's result) \<Rightarrow> 'a list \<Rightarrow> 's \<Rightarrow> 's result" where
  "rfold f [] s = Inr s"
| "rfold f (x # xs) s = rbind (f x s) (rfold f xs)"

lemma rfold_invariant:
  assumes "rfold f xs s = Inr t" and "I s"
    and "\<And>x s s'. x \<in> set xs \<Longrightarrow> I s \<Longrightarrow> f x s = Inr s' \<Longrightarrow> I s'"
  shows "I t"
  using assms
proof (induction xs arbitrary: s)
  case (Cons x xs)
  from Cons.prems(1) obtain s' where s': "f x s = Inr s'" "rfold f xs s' = Inr t" by auto
  have "I s'" using Cons.prems(2,3) s'(1) by (metis list.set_intros(1))
  then show ?case using Cons.IH [OF s'(2)] Cons.prems(3) by (metis list.set_intros(2))
qed simp

lemma rfold_append: "rfold f (xs @ ys) s = rbind (rfold f xs s) (rfold f ys)"
proof (induction xs arbitrary: s)
  case (Cons x xs)
  then show ?case by (cases "f x s") auto
qed simp

text \<open>Python's true division raises on a zero divisor, HOL's does not.\<close>

definition py_div :: "real \<Rightarrow> real \<Rightarrow> real result" where
  "py_div a b = (if b = 0 then Inl ZeroDivisionError else Inr (a / b))"

lemma py_div_Inr [simp]: "py_div a b = Inr c \<longleftrightarrow> b \<noteq> 0 \<and> c = a / b"
  by (auto simp: py_div_def)

lemma py_div_nonzero [py_simps]: "b \<noteq> 0 \<Longrightarrow> py_div a b = Inr (a / b)"
  by simp

section \<open>Floats with minus infinity\<close>

text \<open>
  One field of the program, the net annualized return of a capital tier, can be
  \<open>float("-inf")\<close>.  Its type adds that value to the reals, ordered as Python orders it.
\<close>

datatype xreal = MInf | Fin real

instantiation xreal :: linorder
begin

fun less_eq_xreal :: "xreal \<Rightarrow> xreal \<Rightarrow> bool" where
  "less_eq_xreal MInf y = True"
| "less_eq_xreal (Fin a) MInf = False"
| "less_eq_xreal (Fin a) (Fin b) = (a \<le> b)"

definition less_xreal :: "xreal \<Rightarrow> xreal \<Rightarrow> bool" where
  "less_xreal x y = (x \<le> y \<and> \<not> y \<le> x)"

instance
proof
  fix x y z :: xreal
  show "(x < y) = (x \<le> y \<and> \<not> y \<le> x)" by (simp add: less_xreal_def)
  show "x \<le> x" by (cases x) auto
  show "x \<le> y \<Longrightarrow> y \<le> z \<Longrightarrow> x \<le> z" by (cases x; cases y; cases z) auto
  show "x \<le> y \<Longrightarrow> y \<le> x \<Longrightarrow> x = y" by (cases x; cases y) auto
  show "x \<le> y \<or> y \<le> x" by (cases x; cases y) auto
qed

end

lemma xreal_less_simps [simp]:
  "MInf < Fin b" "\<not> x < MInf" "(Fin a < Fin b) = (a < b)"
  by (auto simp: less_xreal_def elim: less_eq_xreal.elims)

text \<open>The two arithmetic uses of such a value: a sum, and a product with a positive float.\<close>

fun xplus :: "xreal \<Rightarrow> xreal \<Rightarrow> xreal" where
  "xplus (Fin a) (Fin b) = Fin (a + b)"
| "xplus _ _ = MInf"

fun xscale :: "real \<Rightarrow> xreal \<Rightarrow> xreal" where
  "xscale c (Fin a) = Fin (c * a)"
| "xscale c MInf = MInf"

section \<open>Sorting and selection\<close>

text \<open>
  \<open>sorted(xs, key=k, reverse=True)\<close>: Python reverses, sorts stably and reverses back, so
  equal keys keep their order.
\<close>

definition sort_desc :: "('a \<Rightarrow> 'k::linorder) \<Rightarrow> 'a list \<Rightarrow> 'a list" where
  "sort_desc k xs = rev (sort_key k (rev xs))"

lemma set_sort_desc [simp]: "set (sort_desc k xs) = set xs"
  by (simp add: sort_desc_def)

lemma mset_sort_desc [simp]: "mset (sort_desc k xs) = mset xs"
  by (simp add: sort_desc_def)

lemma length_sort_desc [simp]: "length (sort_desc k xs) = length xs"
  by (simp add: sort_desc_def)

lemma sort_desc_sorted: "sorted_wrt (\<lambda>a b. k b \<le> k a) (sort_desc k xs)"
proof -
  have "sorted (map k (sort_key k (rev xs)))" by simp
  then show ?thesis by (simp add: sort_desc_def sorted_wrt_rev sorted_wrt_map)
qed

lemma sort_desc_stable: "filter (\<lambda>x. k x = v) (sort_desc k xs) = filter (\<lambda>x. k x = v) xs"
  by (simp add: sort_desc_def rev_filter [symmetric] sort_key_stable)

lemma sort_desc_Nil [simp]: "sort_desc k [] = []"
  by (simp add: sort_desc_def)

text \<open>\<open>max(xs, key=k)\<close> on a non-empty list: the first element with the greatest key.\<close>

fun max_by :: "('a \<Rightarrow> 'k::linorder) \<Rightarrow> 'a \<Rightarrow> 'a list \<Rightarrow> 'a" where
  "max_by k x [] = x"
| "max_by k x (y # ys) = max_by k (if k x < k y then y else x) ys"

lemma max_by_in: "max_by k x xs \<in> insert x (set xs)"
proof (induction xs arbitrary: x)
  case (Cons y ys)
  from Cons [of "if k x < k y then y else x"] show ?case by (auto split: if_splits)
qed simp

lemma max_by_ge_start: "k x \<le> k (max_by k x xs)"
proof (induction xs arbitrary: x)
  case (Cons y ys)
  from Cons [of "if k x < k y then y else x"] show ?case by (auto split: if_splits)
qed simp

lemma max_by_ge: "y \<in> insert x (set xs) \<Longrightarrow> k y \<le> k (max_by k x xs)"
proof (induction xs arbitrary: x)
  case (Cons z zs)
  consider "y = x" | "y = z" | "y \<in> set zs" using Cons.prems by auto
  then show ?case
  proof cases
    case 1
    then show ?thesis by (simp only: max_by_ge_start)
  next
    case 2
    have "k z \<le> k (if k x < k z then z else x)" by auto
    also have "\<dots> \<le> k (max_by k (if k x < k z then z else x) zs)" by (rule max_by_ge_start)
    finally show ?thesis using 2 by simp
  next
    case 3
    then show ?thesis using Cons.IH by simp
  qed
qed simp

text \<open>\<open>sorted(set(xs))\<close>.\<close>

definition sorted_unique :: "'a::linorder list \<Rightarrow> 'a list" where
  "sorted_unique xs = sort (remdups xs)"

lemma sorted_unique_simps [simp]:
  "set (sorted_unique xs) = set xs" "distinct (sorted_unique xs)" "sorted (sorted_unique xs)"
  by (simp_all add: sorted_unique_def)

lemma sorted_unique_eq_Nil [simp]: "sorted_unique xs = [] \<longleftrightarrow> xs = []"
  by (metis set_empty sorted_unique_simps(1))

lemma sorted_unique_length: "length (sorted_unique xs) = card (set xs)"
  by (simp add: sorted_unique_def length_remdups_card_conv)

text \<open>The values that are not None, in order.\<close>

definition some_values :: "'a option list \<Rightarrow> 'a list" where
  "some_values xs = concat (map (\<lambda>x. case x of None \<Rightarrow> [] | Some v \<Rightarrow> [v]) xs)"

lemma set_some_values [simp]: "x \<in> set (some_values xs) \<longleftrightarrow> Some x \<in> set xs"
  by (induction xs) (auto simp: some_values_def split: option.splits)

section \<open>Dictionaries\<close>

text \<open>\<open>{k(x): x for x in xs}\<close>, only ever read with \<open>get\<close>: the last binding wins.\<close>

definition dict_by :: "('a \<Rightarrow> 'k) \<Rightarrow> 'a list \<Rightarrow> ('k \<rightharpoonup> 'a)" where
  "dict_by k xs = foldl (\<lambda>m x. m(k x \<mapsto> x)) (\<lambda>_. None) xs"

lemma dict_by_snoc: "dict_by k (xs @ [x]) = (dict_by k xs)(k x \<mapsto> x)"
  by (simp add: dict_by_def)

lemma dict_by_SomeD: "dict_by k xs i = Some x \<Longrightarrow> x \<in> set xs \<and> k x = i"
proof (induction xs rule: rev_induct)
  case Nil
  then show ?case by (simp add: dict_by_def)
qed (auto simp: dict_by_snoc split: if_splits)

lemma dict_by_NoneD: "dict_by k xs i = None \<Longrightarrow> x \<in> set xs \<Longrightarrow> k x \<noteq> i"
  by (induction xs rule: rev_induct) (auto simp: dict_by_snoc split: if_splits)

text \<open>\<open>groups[k(x)].append(x)\<close> over a \<open>defaultdict(list)\<close>: groups in order of first occurrence.\<close>

fun group_add :: "'k \<Rightarrow> 'a \<Rightarrow> ('k \<times> 'a list) list \<Rightarrow> ('k \<times> 'a list) list" where
  "group_add k x [] = [(k, [x])]"
| "group_add k x ((k', ys) # g) =
     (if k = k' then (k', ys @ [x]) # g else (k', ys) # group_add k x g)"

definition group_by :: "('a \<Rightarrow> 'k) \<Rightarrow> 'a list \<Rightarrow> ('k \<times> 'a list) list" where
  "group_by f xs = foldl (\<lambda>g x. group_add (f x) x g) [] xs"

lemma group_by_snoc: "group_by f (xs @ [x]) = group_add (f x) x (group_by f xs)"
  by (simp add: group_by_def)

lemma group_by_Nil [simp]: "group_by f [] = []"
  by (simp add: group_by_def)

lemma map_of_group_add:
  "map_of (group_add k x g) =
     (map_of g)(k \<mapsto> (case map_of g k of None \<Rightarrow> [x] | Some ys \<Rightarrow> ys @ [x]))"
  by (induction k x g rule: group_add.induct) (auto simp: fun_eq_iff)

lemma keys_group_add: "fst ` set (group_add k x g) = insert k (fst ` set g)"
  by (induction k x g rule: group_add.induct) auto

lemma distinct_group_add: "distinct (map fst g) \<Longrightarrow> distinct (map fst (group_add k x g))"
proof (induction k x g rule: group_add.induct)
  case (2 k x k' ys g)
  then show ?case using keys_group_add [of k x g] by (auto simp: image_iff split: if_splits)
qed simp

lemma distinct_group_by: "distinct (map fst (group_by f xs))"
  by (induction xs rule: rev_induct) (simp_all add: group_by_snoc distinct_group_add)

lemma map_of_group_by:
  "map_of (group_by f xs) k =
     (if \<exists>x \<in> set xs. f x = k then Some (filter (\<lambda>x. f x = k) xs) else None)"
proof (induction xs rule: rev_induct)
  case (snoc x xs)
  have "map_of (group_by f (xs @ [x])) k =
      ((map_of (group_by f xs))(f x \<mapsto> (case map_of (group_by f xs) (f x) of
         None \<Rightarrow> [x] | Some ys \<Rightarrow> ys @ [x]))) k"
    by (simp only: group_by_snoc map_of_group_add)
  then show ?case using snoc.IH by (cases "f x = k") (auto simp: filter_empty_conv)
qed simp

text \<open>Every group is the sublist of the elements with its key, and is not empty.\<close>

lemma group_by_member:
  assumes "(k, ys) \<in> set (group_by f xs)"
  shows "ys = filter (\<lambda>x. f x = k) xs" and "ys \<noteq> []"
proof -
  have "map_of (group_by f xs) k = Some ys"
    using assms distinct_group_by by (simp add: distinct_group_by)
  then show "ys = filter (\<lambda>x. f x = k) xs" and "ys \<noteq> []"
    by (auto simp: map_of_group_by filter_empty_conv split: if_splits)
qed

section \<open>Text\<close>

text \<open>ASCII case mapping: the program upper-cases asset and currency codes.\<close>

definition char_upper :: "char \<Rightarrow> char" where
  "char_upper c = (let n = of_char c :: nat in if 97 \<le> n \<and> n \<le> 122 then char_of (n - 32) else c)"

definition char_lower :: "char \<Rightarrow> char" where
  "char_lower c = (let n = of_char c :: nat in if 65 \<le> n \<and> n \<le> 90 then char_of (n + 32) else c)"

definition upper :: "string \<Rightarrow> string" where
  "upper s = map char_upper s"

definition lower :: "string \<Rightarrow> string" where
  "lower s = map char_lower s"

lemma char_upper_idem [simp]: "char_upper (char_upper c) = char_upper c"
  by (auto simp: char_upper_def Let_def of_char_of)

lemma upper_idem [simp]: "upper (upper s) = upper s"
  by (simp add: upper_def)

text \<open>\<open>sep.join(xs)\<close> and \<open>needle in hay\<close>.\<close>

fun join :: "string \<Rightarrow> string list \<Rightarrow> string" where
  "join sep [] = []"
| "join sep [x] = x"
| "join sep (x # y # ys) = x @ sep @ join sep (y # ys)"

fun starts_with :: "string \<Rightarrow> string \<Rightarrow> bool" where
  "starts_with [] s = True"
| "starts_with (c # cs) [] = False"
| "starts_with (c # cs) (d # ds) = (c = d \<and> starts_with cs ds)"

fun contains :: "string \<Rightarrow> string \<Rightarrow> bool" where
  "contains p [] = (p = [])"
| "contains p (c # cs) = (starts_with p (c # cs) \<or> contains p cs)"

lemma starts_with_append: "starts_with p s \<longleftrightarrow> (\<exists>t. s = p @ t)"
  by (induction p s rule: starts_with.induct) auto

lemma contains_iff: "contains p s \<longleftrightarrow> (\<exists>a b. s = a @ p @ b)"
proof (induction s)
  case (Cons c cs)
  have "contains p (c # cs) \<longleftrightarrow> (\<exists>t. c # cs = p @ t) \<or> (\<exists>a b. cs = a @ p @ b)"
    using Cons.IH by (simp add: starts_with_append)
  also have "\<dots> \<longleftrightarrow> (\<exists>a b. c # cs = a @ p @ b)"
    by (metis append_Cons append_Nil neq_Nil_conv list.inject)
  finally show ?case .
qed simp

text \<open>A separator that the first part does not contain.\<close>

lemma split_first:
  "c \<notin> set a \<Longrightarrow> c \<notin> set b \<Longrightarrow> a @ c # x = b @ c # y \<longleftrightarrow> a = b \<and> x = y"
  by (induction a arbitrary: b) (case_tac b; auto)+

text \<open>Optional strings are tested for truth: \<open>None\<close> and the empty string are false.\<close>

definition truthy :: "string option \<Rightarrow> bool" where
  "truthy s = (case s of None \<Rightarrow> False | Some t \<Rightarrow> t \<noteq> [])"

definition str_or :: "string option \<Rightarrow> string \<Rightarrow> string" where
  "str_or s d = (case s of None \<Rightarrow> d | Some t \<Rightarrow> if t = [] then d else t)"

definition opt_or :: "string option \<Rightarrow> string option \<Rightarrow> string option" where
  "opt_or s d = (if truthy s then s else d)"

section \<open>Times\<close>

text \<open>
  A datetime is the number of microseconds since the epoch; \<open>total_seconds\<close> divides a
  difference by a million; \<open>timedelta(seconds=x)\<close> rounds to microseconds, ties to even.
\<close>

type_synonym time = int

definition total_seconds :: "int \<Rightarrow> real" where
  "total_seconds d = of_int d / 1000000"

definition round_half_even :: "real \<Rightarrow> int" where
  "round_half_even x =
     (let f = \<lfloor>x\<rfloor>; r = x - of_int f
      in if r < 1 / 2 then f else if r > 1 / 2 then f + 1 else if even f then f else f + 1)"

definition timedelta_seconds :: "real \<Rightarrow> int" where
  "timedelta_seconds x = round_half_even (x * 1000000)"

text \<open>
  \<open>t + timedelta(hours=h)\<close> raises OverflowError when the span has more than 999999999 days, or when
  the sum lies outside the years 1 to 9999.
\<close>

definition timedelta_hours :: "real \<Rightarrow> int" where
  "timedelta_hours h = timedelta_seconds (h * 3600)"

definition span_fits :: "int \<Rightarrow> bool" where
  "span_fits d \<longleftrightarrow> \<bar>d div 86400000000\<bar> \<le> 999999999"

definition date_fits :: "time \<Rightarrow> bool" where
  "date_fits t \<longleftrightarrow> - 62135596800000000 \<le> t \<and> t \<le> 253402300799999999"

definition add_hours :: "time \<Rightarrow> real \<Rightarrow> time result" where
  "add_hours t h = (let d = timedelta_hours h in
     if span_fits d \<and> date_fits (t + d) then Inr (t + d) else Inl OverflowError)"

lemma add_hours_Inr:
  "add_hours t h = Inr u \<longleftrightarrow> u = t + timedelta_hours h \<and> span_fits (timedelta_hours h) \<and> date_fits u"
  by (auto simp: add_hours_def Let_def)

lemma round_half_even_ge: "of_int n \<le> x \<Longrightarrow> n \<le> round_half_even x"
  by (auto simp: round_half_even_def Let_def le_floor_iff intro: add_increasing2)

lemma timedelta_nonneg: "0 \<le> x \<Longrightarrow> 0 \<le> timedelta_seconds x"
  unfolding timedelta_seconds_def by (rule round_half_even_ge) simp

lemma total_seconds_mono: "a \<le> b \<Longrightarrow> total_seconds a \<le> total_seconds b"
  by (simp add: total_seconds_def divide_right_mono)

text \<open>Decimal digits, integers, and the fixed and general float formats of f-strings.\<close>

function digits :: "int \<Rightarrow> string" where
  "digits n = (if n < 10 then [char_of (48 + nat n)]
               else digits (n div 10) @ [char_of (48 + nat (n mod 10))])"
  by pat_completeness auto
termination
  by (relation "measure nat") auto

declare digits.simps [simp del]

definition str_int :: "int \<Rightarrow> string" where
  "str_int i = (if i < 0 then ''-'' @ digits (- i) else digits i)"

definition pad_zeros :: "nat \<Rightarrow> string \<Rightarrow> string" where
  "pad_zeros n s = replicate (n - length s) CHR ''0'' @ s"

text \<open>\<open>f"{x:.nf}"\<close>: round to \<open>n\<close> decimals, ties to even.\<close>

definition fmt_fixed :: "nat \<Rightarrow> real \<Rightarrow> string" where
  "fmt_fixed n x =
     (let m = round_half_even (\<bar>x\<bar> * 10 ^ n); q = m div 10 ^ n; r = m mod 10 ^ n
      in (if x < 0 then ''-'' else []) @ digits q
         @ (if n = 0 then [] else ''.'' @ pad_zeros n (digits r)))"

text \<open>The exponent of a positive number in scientific notation.\<close>

definition dec_exp :: "real \<Rightarrow> int" where
  "dec_exp x = (if 1 \<le> x then int (length (digits \<lfloor>x\<rfloor>)) - 1
                else - int (length (digits (\<lceil>1 / x\<rceil> - 1))))"

definition strip_zeros :: "string \<Rightarrow> string" where
  "strip_zeros s =
     (let t = rev (dropWhile (\<lambda>c. c = CHR ''0'') (rev s))
      in if t \<noteq> [] \<and> last t = CHR ''.'' then butlast t else t)"

definition scale10 :: "real \<Rightarrow> int \<Rightarrow> real" where
  "scale10 x e = (if 0 \<le> e then x * 10 ^ nat e else x / 10 ^ nat (- e))"

text \<open>\<open>f"{x:.pg}"\<close>: \<open>p\<close> significant digits, trailing zeros dropped, exponent form outside [-4, p).\<close>

definition fmt_g :: "nat \<Rightarrow> real \<Rightarrow> string" where
  "fmt_g p x =
     (if x = 0 then ''0''
      else let a = \<bar>x\<bar>; e0 = dec_exp a;
               m0 = round_half_even (scale10 a (int p - 1 - e0));
               e = (if m0 = 10 ^ p then e0 + 1 else e0);
               ds = digits (if m0 = 10 ^ p then m0 div 10 else m0);
               body = (if -4 \<le> e \<and> e < int p
                       then (if 0 \<le> e
                             then strip_zeros (take (nat e + 1) ds @ ''.'' @ drop (nat e + 1) ds)
                             else strip_zeros (''0.'' @ replicate (nat (- e) - 1) CHR ''0'' @ ds))
                       else strip_zeros (take 1 ds @ ''.'' @ drop 1 ds) @ ''e''
                            @ (if e < 0 then ''-'' else ''+'') @ pad_zeros 2 (digits \<bar>e\<bar>))
           in (if x < 0 then ''-'' else []) @ body)"

section \<open>The statistics module\<close>

text \<open>
  \<open>statistics.fmean\<close>, \<open>stdev\<close>, \<open>pstdev\<close> and \<open>median\<close>; the code calls them only on lists that
  are long enough.
\<close>

definition fmean :: "real list \<Rightarrow> real" where
  "fmean xs = sum_list xs / real (length xs)"

definition squared_deviations :: "real list \<Rightarrow> real" where
  "squared_deviations xs = (\<Sum>x\<leftarrow>xs. (x - fmean xs) * (x - fmean xs))"

definition stdev :: "real list \<Rightarrow> real" where
  "stdev xs = sqrt (squared_deviations xs / real (length xs - 1))"

definition pstdev :: "real list \<Rightarrow> real" where
  "pstdev xs = sqrt (squared_deviations xs / real (length xs))"

definition median :: "real list \<Rightarrow> real" where
  "median xs = (let ys = sort xs; n = length ys in
     if odd n then ys ! (n div 2) else (ys ! (n div 2 - 1) + ys ! (n div 2)) / 2)"

lemma squared_deviations_nonneg [simp]: "0 \<le> squared_deviations xs"
  unfolding squared_deviations_def by (rule sum_list_nonneg) auto

lemma stdev_nonneg [simp]: "0 \<le> stdev xs"
  by (simp add: stdev_def)

lemma pstdev_nonneg [simp]: "0 \<le> pstdev xs"
  by (simp add: pstdev_def)

lemma fmean_bound: "xs \<noteq> [] \<Longrightarrow> (\<And>x. x \<in> set xs \<Longrightarrow> c \<le> x) \<Longrightarrow> c \<le> fmean xs"
proof -
  assume ne: "xs \<noteq> []" and le: "\<And>x. x \<in> set xs \<Longrightarrow> c \<le> x"
  have "real (length xs) * c \<le> sum_list xs"
    using le by (induction xs) (auto simp: algebra_simps intro: add_mono)
  then show ?thesis using ne by (simp add: fmean_def pos_le_divide_eq mult.commute)
qed

section \<open>Guarded accumulation\<close>

text \<open>
  Several components keep the same promise: a loop offers items to an accumulating state,
  each item is either refused, which leaves what was spent unchanged, or accepted, which
  the guard allows only below a limit.  The locale proves once that the limit is kept by
  every such loop, whatever else the state records.
\<close>

locale guarded_loop =
  fixes step :: "'s \<Rightarrow> 'item \<Rightarrow> 's"
    and good :: "'item \<Rightarrow> bool"
    and inv :: "'s \<Rightarrow> bool"
  assumes step_keeps: "inv s \<Longrightarrow> good x \<Longrightarrow> inv (step s x)"
begin

lemma loop_keeps: "inv s \<Longrightarrow> (\<And>x. x \<in> set xs \<Longrightarrow> good x) \<Longrightarrow> inv (foldl step s xs)"
  by (induction xs arbitrary: s) (auto intro: step_keeps)

lemma loop_prefix_keeps:
  "inv s \<Longrightarrow> (\<And>x. x \<in> set xs \<Longrightarrow> good x) \<Longrightarrow> inv (foldl step s (take n xs))"
  by (rule loop_keeps) (auto dest: in_set_takeD)

end

end
