(* ===== verification/Models.thy ===== *)
theory Models
  imports Prelude
begin

text \<open>
  The data of the program, from models.py and instrument_identity.py: the enums with their
  wire values, the pydantic models as records (a field of class C keeps its Python name
  behind a two-letter prefix of C, since HOL record fields are global), their default
  values, and their validators as functions that accept a record or raise.  A real number
  is always finite, so the isfinite tests of the code are true here.
\<close>

section \<open>Enums\<close>

datatype market_kind = SPOT | PERPETUAL | FUTURE

fun market_kind_value :: "market_kind \<Rightarrow> string" where
  "market_kind_value SPOT = ''spot''"
| "market_kind_value PERPETUAL = ''perpetual''"
| "market_kind_value FUTURE = ''future''"

datatype side = LONG | SHORT

fun side_value :: "side \<Rightarrow> string" where
  "side_value LONG = ''long''"
| "side_value SHORT = ''short''"

datatype trade_side = BUY | SELL

datatype strategy = FUNDING_DISPERSION | SPOT_PERP_BASIS | FUTURES_BASIS | CEX_SPOT_DISLOCATION

fun strategy_value :: "strategy \<Rightarrow> string" where
  "strategy_value FUNDING_DISPERSION = ''funding_dispersion''"
| "strategy_value SPOT_PERP_BASIS = ''spot_perp_basis''"
| "strategy_value FUTURES_BASIS = ''futures_basis''"
| "strategy_value CEX_SPOT_DISLOCATION = ''cex_spot_dislocation''"

datatype shadow_outcome = SURVIVED | OUTCOME_SIGNAL_DISAPPEARED | EXECUTABILITY_FAILED

fun shadow_outcome_value :: "shadow_outcome \<Rightarrow> string" where
  "shadow_outcome_value SURVIVED = ''survived''"
| "shadow_outcome_value OUTCOME_SIGNAL_DISAPPEARED = ''signal_disappeared''"
| "shadow_outcome_value EXECUTABILITY_FAILED = ''executability_failed''"

datatype shadow_failure_cause =
    SIGNAL_DISAPPEARED
  | INSUFFICIENT_DEPTH
  | SLIPPAGE_EXPANSION
  | FEE_COST_HURDLE_FAILURE
  | STALE_DATA_PROVIDER_FAILURE
  | HEDGE_LEG_DIVERGENCE

fun shadow_failure_cause_value :: "shadow_failure_cause \<Rightarrow> string" where
  "shadow_failure_cause_value SIGNAL_DISAPPEARED = ''signal_disappeared''"
| "shadow_failure_cause_value INSUFFICIENT_DEPTH = ''insufficient_depth''"
| "shadow_failure_cause_value SLIPPAGE_EXPANSION = ''slippage_expansion''"
| "shadow_failure_cause_value FEE_COST_HURDLE_FAILURE = ''fee_cost_hurdle_failure''"
| "shadow_failure_cause_value STALE_DATA_PROVIDER_FAILURE = ''stale_data_provider_failure''"
| "shadow_failure_cause_value HEDGE_LEG_DIVERGENCE = ''hedge_leg_divergence''"

text \<open>The wire values identify the enum members: a stored value can be read back.\<close>

lemma strategy_value_inject [simp]: "strategy_value a = strategy_value b \<longleftrightarrow> a = b"
  by (cases a; cases b) auto

lemma market_kind_value_inject [simp]: "market_kind_value a = market_kind_value b \<longleftrightarrow> a = b"
  by (cases a; cases b) auto

lemma side_value_inject [simp]: "side_value a = side_value b \<longleftrightarrow> a = b"
  by (cases a; cases b) auto

lemma shadow_failure_cause_value_inject [simp]:
  "shadow_failure_cause_value a = shadow_failure_cause_value b \<longleftrightarrow> a = b"
  by (cases a; cases b) auto

section \<open>Evidence values\<close>

text \<open>
  The values the program stores in \<open>dict[str, object]\<close> fields: None, strings, floats
  (minus infinity among them), booleans and lists of strings.
\<close>

datatype pyobj = PNone | PStr string | PFloat real | PInt int | PMInf | PBool bool | PStrs "string list"

definition float_repr :: "real \<Rightarrow> string" where
  "float_repr x =
     (let s = fmt_g 17 x
      in if contains ''.'' s \<or> contains ''e'' s then s else s @ ''.0'')"

fun py_str :: "pyobj \<Rightarrow> string" where
  "py_str PNone = ''None''"
| "py_str (PStr s) = s"
| "py_str (PFloat x) = float_repr x"
| "py_str (PInt i) = str_int i"
| "py_str PMInf = ''-inf''"
| "py_str (PBool b) = (if b then ''True'' else ''False'')"
| "py_str (PStrs xs) = ''['' @ join '', '' (map (\<lambda>s. [CHR 39] @ s @ [CHR 39]) xs) @ '']''"

type_synonym evidence = "(string \<times> pyobj) list"

definition ev_get :: "evidence \<Rightarrow> string \<Rightarrow> pyobj" where
  "ev_get d k = (case map_of d k of None \<Rightarrow> PNone | Some v \<Rightarrow> v)"

text \<open>\<open>{**d, k: v}\<close>: an existing key keeps its place, a new one goes to the end.\<close>

definition ev_set :: "evidence \<Rightarrow> string \<Rightarrow> pyobj \<Rightarrow> evidence" where
  "ev_set d k v = AList.update k v d"

lemma ev_get_set [simp]: "ev_get (ev_set d k v) k' = (if k' = k then v else ev_get d k')"
  by (simp add: ev_get_def ev_set_def update_conv')

text \<open>
  \<open>evidence.get("canonical_instrument_ids", [])\<close>, replaced by the empty list when it is
  not a list; the ranking, the allocator and the unified allocator all read it so.
\<close>

definition instrument_ids_of :: "evidence \<Rightarrow> string list" where
  "instrument_ids_of d =
     (case map_of d ''canonical_instrument_ids'' of Some (PStrs xs) \<Rightarrow> xs | _ \<Rightarrow> [])"

section \<open>Quotes and order books\<close>

record market_quote =
  mq_venue :: string
  mq_asset :: string
  mq_market_kind :: market_kind
  mq_symbol :: string
  mq_quote_currency :: "string option"
  mq_contract_key :: "string option"
  mq_expires_at :: "time option"
  mq_bid :: "real option"
  mq_ask :: "real option"
  mq_mid :: real
  mq_observed_at :: time
  mq_source :: string

definition validate_prices :: "market_quote \<Rightarrow> market_quote result" where
  "validate_prices q =
     (let values = mq_mid q # concat (map (case_option [] (\<lambda>x. [x])) [mq_bid q, mq_ask q])
      in if \<exists>x \<in> set values. x \<le> 0
         then Inl (ValueError ''prices must be positive finite numbers'')
         else if (case (mq_bid q, mq_ask q) of (Some b, Some a) \<Rightarrow> b > a | _ \<Rightarrow> False)
         then Inl (ValueError ''bid cannot exceed ask'')
         else if mq_market_kind q = FUTURE \<and> mq_expires_at q = None
         then Inl (ValueError ''dated future quotes require expires_at'')
         else Inr q)"

record order_book_level =
  lv_price :: real
  lv_size :: real

definition valid_level :: "order_book_level \<Rightarrow> bool" where
  "valid_level l \<longleftrightarrow> 0 < lv_price l \<and> 0 < lv_size l"

record order_book_snapshot =
  ob_venue :: string
  ob_asset :: string
  ob_market_kind :: market_kind
  ob_symbol :: string
  ob_quote_currency :: "string option"
  ob_contract_key :: "string option"
  ob_expires_at :: "time option"
  ob_bids :: "order_book_level list"
  ob_asks :: "order_book_level list"
  ob_observed_at :: time
  ob_source :: string
  ob_request_latency_ms :: "real option"

definition validate_book :: "order_book_snapshot \<Rightarrow> order_book_snapshot result" where
  "validate_book b =
     (if ob_bids b = [] \<or> ob_asks b = []
      then Inl (ValueError ''order book must have both bids and asks'')
      else if Max (lv_price ` set (ob_bids b)) \<ge> Min (lv_price ` set (ob_asks b))
      then Inl (ValueError ''order book must have a positive spread'')
      else if ob_market_kind b = FUTURE \<and> ob_expires_at b = None
      then Inl (ValueError ''dated future books require expires_at'')
      else Inr b)"

text \<open>A book that pydantic accepts: valid levels on both sides, and the validator's conditions.\<close>

definition valid_book :: "order_book_snapshot \<Rightarrow> bool" where
  "valid_book b \<longleftrightarrow> list_all valid_level (ob_bids b) \<and> list_all valid_level (ob_asks b)
     \<and> validate_book b = Inr b"

record funding_quote =
  fq_venue :: string
  fq_asset :: string
  fq_rate :: real
  fq_interval_hours :: real
  fq_symbol :: "string option"
  fq_quote_currency :: "string option"
  fq_contract_key :: "string option"
  fq_next_funding_time :: "time option"
  fq_observed_at :: time
  fq_source :: string

definition valid_funding_quote :: "funding_quote \<Rightarrow> bool" where
  "valid_funding_quote q \<longleftrightarrow> 0 < fq_interval_hours q \<and> fq_interval_hours q \<le> 24"

definition hourly_rate :: "funding_quote \<Rightarrow> real result" where
  "hourly_rate q = py_div (fq_rate q) (fq_interval_hours q)"

definition annualized_simple :: "funding_quote \<Rightarrow> real result" where
  "annualized_simple q = rbind (hourly_rate q) (\<lambda>h. Inr (h * 24 * 365))"

section \<open>Opportunities\<close>

record opportunity_leg =
  lg_venue :: string
  lg_asset :: string
  lg_market_kind :: market_kind
  lg_side :: side
  lg_symbol :: "string option"
  lg_quote_currency :: "string option"
  lg_contract_key :: "string option"
  lg_expires_at :: "time option"
  lg_reference_price :: "real option"

record leg_execution_estimate =
  le_venue :: string
  le_asset :: string
  le_market_kind :: market_kind
  le_trade_side :: trade_side
  le_symbol :: "string option"
  le_contract_key :: "string option"
  le_requested_base_quantity :: real
  le_filled_base_quantity :: real
  le_filled_notional_usd :: real
  le_average_price :: real
  le_best_price :: real
  le_slippage_bps :: real
  le_levels_consumed :: nat

definition valid_leg_estimate :: "leg_execution_estimate \<Rightarrow> bool" where
  "valid_leg_estimate e \<longleftrightarrow> 0 < le_requested_base_quantity e \<and> 0 < le_filled_base_quantity e
     \<and> 0 < le_filled_notional_usd e \<and> 0 < le_average_price e \<and> 0 < le_best_price e
     \<and> 0 \<le> le_slippage_bps e \<and> 0 < le_levels_consumed e"

datatype confidence = LowConfidence | MediumConfidence | HighConfidence

record opportunity =
  op_id :: string
  op_strategy :: strategy
  op_asset :: string
  op_legs :: "opportunity_leg list"
  op_gross_edge_bps_per_hour :: real
  op_modeled_cost_bps :: real
  op_holding_hours :: real
  op_safety_buffer_bps_per_hour :: real
  op_net_edge_bps_per_hour :: real
  op_net_annualized_return :: real
  op_observed_at :: time
  op_expires_at :: time
  op_confidence :: confidence
  op_evidence :: evidence
  op_paper_only :: bool

section \<open>The empirical latency model\<close>

datatype data_latency_source = L2_request_roundtrip | Scan_duration_fallback | Unavailable
datatype interpolation_mode = Single_horizon | Linear_interval

record empirical_latency_model =
  lm_model_version :: string
  lm_model_scope :: string
  lm_scope_strategy :: "strategy option"
  lm_scope_venue_pair :: "string option"
  lm_scope_asset :: "string option"
  lm_scope_notional_usd_per_leg :: "real option"
  lm_scope_candidate_counts :: "(string \<times> nat) list"
  lm_scope_horizon_counts :: "(string \<times> (string \<times> nat) list) list"
  lm_scope_effective_counts :: "(string \<times> (string \<times> nat) list) list"
  lm_scope_fallbacks :: "string list"
  lm_latency_quantile :: real
  lm_scan_latency_sample_count :: nat
  lm_data_latency_sample_count :: nat
  lm_data_latency_source :: data_latency_source
  lm_cohort_sample_count :: nat
  lm_effective_sample_size :: nat
  lm_lower_horizon_sample_count :: nat
  lm_upper_horizon_sample_count :: nat
  lm_reference_latency_ms :: "real option"
  lm_collector_latency_reference_ms :: "real option"
  lm_assumed_order_ack_latency_ms :: real
  lm_assumed_second_leg_latency_ms :: real
  lm_effective_decision_to_hedge_latency_ms :: "real option"
  lm_execution_latency_empirical :: bool
  lm_execution_latency_note :: string
  lm_reference_horizon_seconds :: "real option"
  lm_reference_lower_horizon_seconds :: "real option"
  lm_reference_upper_horizon_seconds :: "real option"
  lm_interpolation_weight :: real
  lm_interpolation_mode :: interpolation_mode
  lm_scan_latency_p50_ms :: "real option"
  lm_scan_latency_p90_ms :: "real option"
  lm_scan_latency_p95_ms :: "real option"
  lm_data_latency_p50_ms :: "real option"
  lm_data_latency_p90_ms :: "real option"
  lm_data_latency_p95_ms :: "real option"
  lm_confidence_level :: real
  lm_probability_max_ci_width :: "real option"
  lm_confidence_gate_passed :: bool
  lm_pair_fill_probability :: "real option"
  lm_pair_fill_ci_lower :: "real option"
  lm_pair_fill_ci_upper :: "real option"
  lm_reserve_fill_probability :: "real option"
  lm_reserve_fill_ci_lower :: "real option"
  lm_reserve_fill_ci_upper :: "real option"
  lm_capture_probability :: "real option"
  lm_capture_ci_lower :: "real option"
  lm_capture_ci_upper :: "real option"
  lm_hedge_recovery_probability :: "real option"
  lm_hedge_recovery_ci_lower :: "real option"
  lm_hedge_recovery_ci_upper :: "real option"
  lm_partial_fill_probability :: "real option"
  lm_pair_fill_fraction_p10 :: "real option"
  lm_pair_fill_fraction_p50 :: "real option"
  lm_unhedged_fraction_p50 :: "real option"
  lm_unhedged_fraction_p90 :: "real option"
  lm_unhedged_fraction_p95 :: "real option"
  lm_hedge_recovery_loss_p50_bps :: "real option"
  lm_hedge_recovery_loss_p90_bps :: "real option"
  lm_hedge_recovery_loss_p95_bps :: "real option"
  lm_adverse_selection_p50_bps :: "real option"
  lm_adverse_selection_p90_bps :: "real option"
  lm_adverse_selection_p95_bps :: "real option"
  lm_empirical_latency_risk_bps :: "real option"
  lm_fill_model_kind :: string
  lm_queue_position_supported :: bool
  lm_maker_fill_probability :: "real option"
  lm_usable_for_qualification :: bool
  lm_reason :: "string option"
  lm_paper_only :: bool

section \<open>Capital tiers and executability\<close>

datatype latency_model_source = Fixed_latency | Empirical_shadow
datatype recovery_buffer_source = Fixed_buffer | Max_fixed_empirical

record capital_tier =
  ct_opportunity_id :: string
  ct_notional_usd_per_leg :: real
  ct_target_base_quantity :: "real option"
  ct_executable :: bool
  ct_passes_return_hurdle :: bool
  ct_gross_edge_bps_per_hour :: real
  ct_static_modeled_cost_bps :: real
  ct_venue_roundtrip_fee_bps :: real
  ct_financing_cost_bps :: real
  ct_collateral_opportunity_cost_bps :: real
  ct_latency_risk_bps :: real
  ct_latency_model_source :: latency_model_source
  ct_latency_model_scope :: string
  ct_latency_scope_fallbacks :: "string list"
  ct_latency_reference_ms :: "real option"
  ct_collector_latency_reference_ms :: "real option"
  ct_execution_latency_empirical :: bool
  ct_latency_sample_count :: nat
  ct_latency_effective_sample_size :: nat
  ct_latency_confidence_gate_passed :: bool
  ct_empirical_pair_fill_probability :: "real option"
  ct_empirical_pair_fill_ci_lower :: "real option"
  ct_empirical_reserve_fill_probability :: "real option"
  ct_empirical_capture_probability :: "real option"
  ct_empirical_capture_ci_lower :: "real option"
  ct_empirical_hedge_recovery_probability :: "real option"
  ct_empirical_partial_fill_probability :: "real option"
  ct_empirical_unhedged_fraction_p95 :: "real option"
  ct_empirical_hedge_recovery_loss_p95_bps :: "real option"
  ct_fill_model_kind :: string
  ct_queue_position_supported :: bool
  ct_hedge_recovery_buffer_bps :: real
  ct_hedge_recovery_buffer_source :: recovery_buffer_source
  ct_capital_required_usd :: real
  ct_capital_multiple :: real
  ct_observed_entry_slippage_bps :: real
  ct_assumed_exit_slippage_bps :: real
  ct_total_modeled_cost_bps :: real
  ct_net_edge_bps_per_hour :: real
  ct_net_annualized_return :: xreal
  ct_leg_notional_net_annualized_return :: real
  ct_leg_estimates :: "leg_execution_estimate list"
  ct_rejection_reason :: "string option"

text \<open>A tier the downstream consumers accept: executable and above the return hurdle.\<close>

definition tier_qualified :: "capital_tier \<Rightarrow> bool" where
  "tier_qualified t \<longleftrightarrow> ct_executable t \<and> ct_passes_return_hurdle t"

record opportunity_executability =
  ox_opportunity_id :: string
  ox_strategy :: strategy
  ox_asset :: string
  ox_observed_at :: time
  ox_tiers :: "capital_tier list"
  ox_max_qualified_notional_usd :: real
  ox_visible_depth_ceiling_usd :: real
  ox_estimated_capacity_notional_usd :: real
  ox_capacity_frontier_net_annualized_return :: "xreal option"
  ox_paper_only :: bool

section \<open>Shadow evidence\<close>

record shadow_leg_attribution =
  la_venue :: string
  la_asset :: string
  la_market_kind :: market_kind
  la_side :: side
  la_symbol :: "string option"
  la_contract_key :: "string option"
  la_initial_best_price :: "real option"
  la_verification_best_price :: "real option"
  la_adverse_selection_bps :: "real option"
  la_initial_spread_bps :: "real option"
  la_verification_spread_bps :: "real option"
  la_initial_available_depth_usd :: "real option"
  la_verification_available_depth_usd :: "real option"
  la_initial_available_base_quantity :: "real option"
  la_verification_available_base_quantity :: "real option"
  la_initial_depth_multiple :: "real option"
  la_verification_depth_multiple :: "real option"
  la_initial_slippage_bps :: "real option"
  la_verification_slippage_bps :: "real option"

record shadow_observation =
  so_shadow_id :: string
  so_initial_scan_id :: string
  so_verification_scan_id :: string
  so_opportunity_signature :: string
  so_opportunity_id :: string
  so_strategy :: strategy
  so_asset :: string
  so_notional_usd_per_leg :: real
  so_target_base_quantity :: "real option"
  so_started_at :: time
  so_verified_at :: time
  so_delay_seconds :: real
  so_initial_scan_latency_ms :: "real option"
  so_verification_scan_latency_ms :: "real option"
  so_initial_data_path_latency_ms :: "real option"
  so_verification_data_path_latency_ms :: "real option"
  so_initial_net_annualized_return :: real
  so_initial_capacity_notional_usd :: real
  so_survived :: bool
  so_pair_fillable :: "bool option"
  so_pair_fillable_with_reserve :: "bool option"
  so_hedge_recovery_required :: "bool option"
  so_pair_fill_fraction :: "real option"
  so_max_leg_fill_fraction :: "real option"
  so_unhedged_fraction :: "real option"
  so_partial_fill_state :: "bool option"
  so_hedge_recovery_loss_proxy_bps :: "real option"
  so_queue_position_supported :: bool
  so_verification_net_annualized_return :: "real option"
  so_outcome :: shadow_outcome
  so_reason :: "string option"
  so_venue_pair :: "string option"
  so_time_of_day_bucket :: "string option"
  so_initial_expected_return_bucket :: "string option"
  so_initial_gross_edge_bps_per_hour :: "real option"
  so_verification_gross_edge_bps_per_hour :: "real option"
  so_gross_edge_decay_bps_per_hour :: "real option"
  so_initial_total_modeled_cost_bps :: "real option"
  so_verification_total_modeled_cost_bps :: "real option"
  so_cost_expansion_bps :: "real option"
  so_initial_entry_slippage_bps :: "real option"
  so_verification_entry_slippage_bps :: "real option"
  so_slippage_expansion_bps :: "real option"
  so_verification_capacity_notional_usd :: "real option"
  so_capacity_deterioration_usd :: "real option"
  so_edge_decay_annualized :: "real option"
  so_hedge_leg_divergence_bps :: "real option"
  so_failure_cause :: "shadow_failure_cause option"
  so_leg_attribution :: "shadow_leg_attribution list"
  so_paper_only :: bool

record shadow_cycle =
  sc_cycle_id :: string
  sc_started_at :: time
  sc_completed_at :: time
  sc_delay_seconds :: real
  sc_initial_scan_id :: string
  sc_verification_scan_id :: string
  sc_verification_scan_ids :: "string list"
  sc_horizons_seconds :: "real list"
  sc_observations :: "shadow_observation list"
  sc_paper_only :: bool

section \<open>Instrument identity\<close>

fun default_contract_key :: "market_kind \<Rightarrow> string" where
  "default_contract_key SPOT = ''spot''"
| "default_contract_key PERPETUAL = ''continuous''"
| "default_contract_key FUTURE = ''unspecified''"

definition normalized_contract_key :: "market_kind \<Rightarrow> string option \<Rightarrow> string" where
  "normalized_contract_key kind key = str_or key (default_contract_key kind)"

definition book_identity ::
  "string \<Rightarrow> string \<Rightarrow> market_kind \<Rightarrow> string option \<Rightarrow> string \<times> string \<times> string \<times> string" where
  "book_identity venue asset kind key =
     (venue, upper asset, market_kind_value kind, normalized_contract_key kind key)"

text \<open>A book's best prices are those of a level, and the spread of a valid book is positive.\<close>

lemma valid_bookD:
  assumes "valid_book b"
  shows "ob_bids b \<noteq> []" "ob_asks b \<noteq> []"
    and "l \<in> set (ob_bids b) \<Longrightarrow> 0 < lv_price l \<and> 0 < lv_size l"
    and "l \<in> set (ob_asks b) \<Longrightarrow> 0 < lv_price l \<and> 0 < lv_size l"
    and "x \<in> set (ob_bids b) \<Longrightarrow> y \<in> set (ob_asks b) \<Longrightarrow> lv_price x < lv_price y"
proof -
  show "ob_bids b \<noteq> []" "ob_asks b \<noteq> []"
    using assms by (auto simp: valid_book_def validate_book_def)
  show "l \<in> set (ob_bids b) \<Longrightarrow> 0 < lv_price l \<and> 0 < lv_size l"
    and "l \<in> set (ob_asks b) \<Longrightarrow> 0 < lv_price l \<and> 0 < lv_size l"
    using assms by (auto simp: valid_book_def valid_level_def list_all_iff)
  assume x: "x \<in> set (ob_bids b)" and y: "y \<in> set (ob_asks b)"
  have "Max (lv_price ` set (ob_bids b)) < Min (lv_price ` set (ob_asks b))"
    using assms by (simp add: valid_book_def validate_book_def not_le split: if_splits)
  moreover have "lv_price x \<le> Max (lv_price ` set (ob_bids b))" using x by simp
  moreover have "Min (lv_price ` set (ob_asks b)) \<le> lv_price y" using y by simp
  ultimately show "lv_price x < lv_price y" by linarith
qed

end
