(* ===== verification/Settings.thy ===== *)
theory Settings
  imports Models
begin

text \<open>
  config.py: the settings record with the defaults of the dataclass, and
  \<open>Settings.from_env\<close>.  The environment is a function from names to optional strings;
  the parsers \<open>float\<close> and \<open>int\<close> of Python strings are the parameters \<open>pf\<close> and \<open>pint\<close>,
  since the binary64 value of a decimal text is below the level of the model.  Every setter
  of the keyword list is one step of a fold, in the order Python evaluates them.
\<close>

section \<open>Environment readers\<close>

definition is_space :: "char \<Rightarrow> bool" where
  "is_space c = (let n = of_char c :: nat in n = 32 \<or> (9 \<le> n \<and> n \<le> 13) \<or> (28 \<le> n \<and> n \<le> 31))"

definition strip :: "string \<Rightarrow> string" where
  "strip s = rev (dropWhile is_space (rev (dropWhile is_space s)))"

fun split_on :: "char \<Rightarrow> string \<Rightarrow> string list" where
  "split_on c [] = [[]]"
| "split_on c (d # ds) =
     (if d = c then [] # split_on c ds
      else case split_on c ds of [] \<Rightarrow> [[d]] | w # ws \<Rightarrow> (d # w) # ws)"

type_synonym environ = "string \<Rightarrow> string option"

definition env_bool :: "environ \<Rightarrow> string \<Rightarrow> bool \<Rightarrow> bool" where
  "env_bool env name d =
     (case env name of None \<Rightarrow> d
      | Some raw \<Rightarrow> lower (strip raw) \<in> set [''1'', ''true'', ''yes'', ''on''])"

definition env_float :: "environ \<Rightarrow> (string \<Rightarrow> real result) \<Rightarrow> string \<Rightarrow> real \<Rightarrow> real result" where
  "env_float env pf name d = (case env name of None \<Rightarrow> Inr d | Some raw \<Rightarrow> pf raw)"

definition env_optional_float ::
  "environ \<Rightarrow> (string \<Rightarrow> real result) \<Rightarrow> string \<Rightarrow> real option \<Rightarrow> real option result" where
  "env_optional_float env pf name d =
     (case env name of None \<Rightarrow> Inr d
      | Some raw \<Rightarrow> if strip raw = [] then Inr d else rbind (pf raw) (\<lambda>x. Inr (Some x)))"

definition env_int :: "environ \<Rightarrow> (string \<Rightarrow> int result) \<Rightarrow> string \<Rightarrow> int \<Rightarrow> int result" where
  "env_int env pint name d = (case env name of None \<Rightarrow> Inr d | Some raw \<Rightarrow> pint raw)"

definition env_float_tuple ::
  "environ \<Rightarrow> (string \<Rightarrow> real result) \<Rightarrow> string \<Rightarrow> real list \<Rightarrow> real list result" where
  "env_float_tuple env pf name d =
     (case env name of None \<Rightarrow> Inr d
      | Some raw \<Rightarrow>
          rbind (rmap pf (filter (\<lambda>w. w \<noteq> []) (map strip (split_on CHR 0x2C raw))))
            (\<lambda>values. if values = [] \<or> (\<exists>v \<in> set values. v \<le> 0)
               then Inl (ValueError (name @ '' must contain positive comma-separated numbers''))
               else Inr (sorted_unique values)))"

lemma env_float_tuple_positive:
  assumes "env_float_tuple env pf name d = Inr vs" and "\<forall>v \<in> set d. 0 < v" and "d \<noteq> []"
    and "sorted d" and "distinct d"
  shows "vs \<noteq> [] \<and> (\<forall>v \<in> set vs. 0 < v) \<and> sorted vs \<and> distinct vs"
proof (cases "env name")
  case None
  with assms show ?thesis by (auto simp: env_float_tuple_def)
next
  case (Some raw)
  with assms(1) obtain vals where v: "vals \<noteq> []" "\<not> (\<exists>v \<in> set vals. v \<le> 0)"
      "vs = sorted_unique vals"
    by (auto simp: env_float_tuple_def split: if_splits)
  then have "set vs = set vals" by simp
  with v show ?thesis by (auto simp: not_le)
qed

section \<open>The settings record\<close>

record settings =
  se_paper_only :: bool
  se_scan_interval_seconds :: real
  se_default_holding_hours :: real
  se_spot_dislocation_holding_hours :: real
  se_min_net_annualized_return :: real
  se_safety_buffer_bps_per_hour :: real
  se_pair_roundtrip_cost_bps :: real
  se_max_quote_age_seconds :: real
  se_max_order_book_age_seconds :: real
  se_max_order_book_skew_seconds :: real
  se_exit_slippage_multiplier :: real
  se_capacity_search_tolerance_usd :: real
  se_coinbase_spot_taker_fee_bps :: real
  se_hyperliquid_perp_taker_fee_bps :: real
  se_bybit_spot_taker_fee_bps :: real
  se_bybit_derivatives_taker_fee_bps :: real
  se_kraken_spot_taker_fee_bps :: real
  se_okx_spot_taker_fee_bps :: real
  se_okx_derivatives_taker_fee_bps :: real
  se_spot_collateral_fraction :: real
  se_perp_collateral_fraction :: real
  se_collateral_opportunity_cost_annual :: real
  se_spot_short_borrow_annual :: "real option"
  se_expected_order_ack_latency_ms :: real
  se_expected_hedge_latency_ms :: real
  se_latency_risk_bps_per_second :: real
  se_empirical_latency_enabled :: bool
  se_empirical_latency_min_samples :: int
  se_empirical_latency_min_scan_samples :: int
  se_empirical_latency_min_effective_samples :: int
  se_empirical_latency_quantile :: real
  se_empirical_probability_confidence_level :: real
  se_empirical_probability_max_ci_width :: real
  se_hedge_liquidity_reserve_ratio :: real
  se_hedge_recovery_buffer_bps :: real
  se_shadow_delay_seconds :: real
  se_shadow_horizons_seconds :: "real list"
  se_shadow_notional_usd :: real
  se_shadow_max_candidates :: int
  se_shadow_slippage_expansion_bps :: real
  se_shadow_hedge_divergence_bps :: real
  se_shadow_cycle_interval_seconds :: real
  se_worker_error_backoff_seconds :: real
  se_worker_heartbeat_stale_seconds :: real
  se_capital_tiers_usd :: "real list"
  se_stablecoin_depeg_risk_multiplier :: real
  se_stablecoin_conversion_risk_floor_bps :: real
  se_stablecoin_dislocation_min_edge_bps :: real
  se_dex_dislocation_min_edge_bps :: real
  se_dex_liquidity_risk_floor_bps :: real
  se_dex_route_evidence_notional_usd :: real
  se_dex_route_frontier_notionals_usd :: "real list"
  se_dex_route_frontier_max_deterioration_bps :: real
  se_dex_route_frontier_every_cycles :: int
  se_dex_route_tier_shadow_notionals_usd :: "real list"
  se_dex_route_tier_shadow_every_cycles :: int
  se_dex_route_tier_shadow_max_concurrency :: int
  se_dex_statistical_reference_horizon_seconds :: real
  se_dex_statistical_min_effective_samples :: int
  se_dex_statistical_min_tail_samples :: int
  se_dex_statistical_confidence_level :: real
  se_dex_statistical_max_ci_width :: real
  se_dex_statistical_min_survival_lower_bound :: real
  se_dex_statistical_min_frontier_acceptance_lower_bound :: real
  se_dex_statistical_max_p95_deterioration_bps :: real
  se_dex_statistical_notional_tolerance_fraction :: real
  se_dex_statistical_min_net_edge_bps :: real
  se_option_relative_value_min_iv_points :: real
  se_allocator_max_venue_fraction :: real
  se_allocator_max_asset_fraction :: real
  se_allocator_max_allocations :: int
  se_alpha_history_hours :: real
  se_alpha_min_history_points :: int
  se_alpha_momentum_lookback_hours :: real
  se_alpha_momentum_horizon_hours :: real
  se_alpha_momentum_min_abs_return :: real
  se_alpha_forecast_shrinkage :: real
  se_alpha_research_cost_floor_bps :: real
  se_alpha_execution_risk_floor_bps :: real
  se_alpha_research_capital_usd :: real
  se_alpha_candidate_capital_fraction :: real
  se_alpha_min_notional_usd :: real
  se_alpha_min_forward_samples :: int
  se_alpha_min_forward_mean_return :: real
  se_alpha_multiple_testing_penalty_return :: real
  se_alpha_min_hit_rate_lower_bound :: real
  se_alpha_min_regimes :: int
  se_alpha_min_regime_mean_return :: real
  se_alpha_min_current_net_return :: real
  se_alpha_evidence_every_cycles :: int
  se_evidence_db_path :: "string option"

definition default_settings :: settings where
  "default_settings = \<lparr>
     se_paper_only = True,
     se_scan_interval_seconds = 30,
     se_default_holding_hours = 24,
     se_spot_dislocation_holding_hours = 1,
     se_min_net_annualized_return = 2 / 25,
     se_safety_buffer_bps_per_hour = 1 / 50,
     se_pair_roundtrip_cost_bps = 20,
     se_max_quote_age_seconds = 120,
     se_max_order_book_age_seconds = 15,
     se_max_order_book_skew_seconds = 5,
     se_exit_slippage_multiplier = 1,
     se_capacity_search_tolerance_usd = 1,
     se_coinbase_spot_taker_fee_bps = 60,
     se_hyperliquid_perp_taker_fee_bps = 9 / 2,
     se_bybit_spot_taker_fee_bps = 10,
     se_bybit_derivatives_taker_fee_bps = 11 / 2,
     se_kraken_spot_taker_fee_bps = 80,
     se_okx_spot_taker_fee_bps = 10,
     se_okx_derivatives_taker_fee_bps = 5,
     se_spot_collateral_fraction = 1,
     se_perp_collateral_fraction = 1,
     se_collateral_opportunity_cost_annual = 1 / 25,
     se_spot_short_borrow_annual = None,
     se_expected_order_ack_latency_ms = 0,
     se_expected_hedge_latency_ms = 750,
     se_latency_risk_bps_per_second = 1 / 2,
     se_empirical_latency_enabled = True,
     se_empirical_latency_min_samples = 100,
     se_empirical_latency_min_scan_samples = 30,
     se_empirical_latency_min_effective_samples = 30,
     se_empirical_latency_quantile = 19 / 20,
     se_empirical_probability_confidence_level = 19 / 20,
     se_empirical_probability_max_ci_width = 1 / 4,
     se_hedge_liquidity_reserve_ratio = 5 / 4,
     se_hedge_recovery_buffer_bps = 2,
     se_shadow_delay_seconds = 5,
     se_shadow_horizons_seconds = [1, 5, 15, 30, 60],
     se_shadow_notional_usd = 1000,
     se_shadow_max_candidates = 0,
     se_shadow_slippage_expansion_bps = 1,
     se_shadow_hedge_divergence_bps = 5,
     se_shadow_cycle_interval_seconds = 30,
     se_worker_error_backoff_seconds = 15,
     se_worker_heartbeat_stale_seconds = 180,
     se_capital_tiers_usd = [1000, 10000, 25000, 50000, 100000],
     se_stablecoin_depeg_risk_multiplier = 3 / 2,
     se_stablecoin_conversion_risk_floor_bps = 2,
     se_stablecoin_dislocation_min_edge_bps = 8,
     se_dex_dislocation_min_edge_bps = 12,
     se_dex_liquidity_risk_floor_bps = 8,
     se_dex_route_evidence_notional_usd = 1000,
     se_dex_route_frontier_notionals_usd = [1000, 5000, 10000, 25000],
     se_dex_route_frontier_max_deterioration_bps = 25,
     se_dex_route_frontier_every_cycles = 10,
     se_dex_route_tier_shadow_notionals_usd = [5000, 10000, 25000],
     se_dex_route_tier_shadow_every_cycles = 10,
     se_dex_route_tier_shadow_max_concurrency = 2,
     se_dex_statistical_reference_horizon_seconds = 5,
     se_dex_statistical_min_effective_samples = 30,
     se_dex_statistical_min_tail_samples = 20,
     se_dex_statistical_confidence_level = 19 / 20,
     se_dex_statistical_max_ci_width = 1 / 4,
     se_dex_statistical_min_survival_lower_bound = 4 / 5,
     se_dex_statistical_min_frontier_acceptance_lower_bound = 4 / 5,
     se_dex_statistical_max_p95_deterioration_bps = 25,
     se_dex_statistical_notional_tolerance_fraction = 1 / 10,
     se_dex_statistical_min_net_edge_bps = 12,
     se_option_relative_value_min_iv_points = 8,
     se_allocator_max_venue_fraction = 1 / 2,
     se_allocator_max_asset_fraction = 1 / 2,
     se_allocator_max_allocations = 10,
     se_alpha_history_hours = 72,
     se_alpha_min_history_points = 12,
     se_alpha_momentum_lookback_hours = 24,
     se_alpha_momentum_horizon_hours = 6,
     se_alpha_momentum_min_abs_return = 1 / 100,
     se_alpha_forecast_shrinkage = 1 / 4,
     se_alpha_research_cost_floor_bps = 25,
     se_alpha_execution_risk_floor_bps = 5,
     se_alpha_research_capital_usd = 100000,
     se_alpha_candidate_capital_fraction = 1 / 10,
     se_alpha_min_notional_usd = 1000,
     se_alpha_min_forward_samples = 30,
     se_alpha_min_forward_mean_return = 1 / 2000,
     se_alpha_multiple_testing_penalty_return = 1 / 4000,
     se_alpha_min_hit_rate_lower_bound = 1 / 2,
     se_alpha_min_regimes = 2,
     se_alpha_min_regime_mean_return = 0,
     se_alpha_min_current_net_return = 1 / 2000,
     se_alpha_evidence_every_cycles = 10,
     se_evidence_db_path = None\<rparr>"

section \<open>Settings from the environment\<close>

definition settings_steps_core ::
  "environ \<Rightarrow> (string \<Rightarrow> real result) \<Rightarrow> (string \<Rightarrow> int result) \<Rightarrow> (settings \<Rightarrow> settings result) list" where
  "settings_steps_core env pf pint = [
     \<lambda>s. rbind (env_float env pf ''CIE_SCAN_INTERVAL_SECONDS'' 30) (\<lambda>v. Inr (s\<lparr>se_scan_interval_seconds := v\<rparr>)),
     \<lambda>s. rbind (env_float env pf ''CIE_DEFAULT_HOLDING_HOURS'' 24) (\<lambda>v. Inr (s\<lparr>se_default_holding_hours := v\<rparr>)),
     \<lambda>s. rbind (env_float env pf ''CIE_SPOT_DISLOCATION_HOLDING_HOURS'' 1) (\<lambda>v. Inr (s\<lparr>se_spot_dislocation_holding_hours := v\<rparr>)),
     \<lambda>s. rbind (env_float env pf ''CIE_MIN_NET_ANNUALIZED_RETURN'' (2 / 25)) (\<lambda>v. Inr (s\<lparr>se_min_net_annualized_return := v\<rparr>)),
     \<lambda>s. rbind (env_float env pf ''CIE_SAFETY_BUFFER_BPS_PER_HOUR'' (1 / 50)) (\<lambda>v. Inr (s\<lparr>se_safety_buffer_bps_per_hour := v\<rparr>)),
     \<lambda>s. rbind (env_float env pf ''CIE_PAIR_ROUNDTRIP_COST_BPS'' 20) (\<lambda>v. Inr (s\<lparr>se_pair_roundtrip_cost_bps := v\<rparr>)),
     \<lambda>s. rbind (env_float env pf ''CIE_MAX_QUOTE_AGE_SECONDS'' 120) (\<lambda>v. Inr (s\<lparr>se_max_quote_age_seconds := v\<rparr>)),
     \<lambda>s. rbind (env_float env pf ''CIE_MAX_ORDER_BOOK_AGE_SECONDS'' 15) (\<lambda>v. Inr (s\<lparr>se_max_order_book_age_seconds := v\<rparr>)),
     \<lambda>s. rbind (env_float env pf ''CIE_MAX_ORDER_BOOK_SKEW_SECONDS'' 5) (\<lambda>v. Inr (s\<lparr>se_max_order_book_skew_seconds := v\<rparr>)),
     \<lambda>s. rbind (env_float env pf ''CIE_EXIT_SLIPPAGE_MULTIPLIER'' 1) (\<lambda>v. Inr (s\<lparr>se_exit_slippage_multiplier := v\<rparr>)),
     \<lambda>s. rbind (env_float env pf ''CIE_CAPACITY_SEARCH_TOLERANCE_USD'' 1) (\<lambda>v. Inr (s\<lparr>se_capacity_search_tolerance_usd := v\<rparr>)),
     \<lambda>s. rbind (env_float env pf ''CIE_COINBASE_SPOT_TAKER_FEE_BPS'' 60) (\<lambda>v. Inr (s\<lparr>se_coinbase_spot_taker_fee_bps := v\<rparr>)),
     \<lambda>s. rbind (env_float env pf ''CIE_HYPERLIQUID_PERP_TAKER_FEE_BPS'' (9 / 2)) (\<lambda>v. Inr (s\<lparr>se_hyperliquid_perp_taker_fee_bps := v\<rparr>)),
     \<lambda>s. rbind (env_float env pf ''CIE_BYBIT_SPOT_TAKER_FEE_BPS'' 10) (\<lambda>v. Inr (s\<lparr>se_bybit_spot_taker_fee_bps := v\<rparr>)),
     \<lambda>s. rbind (env_float env pf ''CIE_BYBIT_DERIVATIVES_TAKER_FEE_BPS'' (11 / 2)) (\<lambda>v. Inr (s\<lparr>se_bybit_derivatives_taker_fee_bps := v\<rparr>)),
     \<lambda>s. rbind (env_float env pf ''CIE_KRAKEN_SPOT_TAKER_FEE_BPS'' 80) (\<lambda>v. Inr (s\<lparr>se_kraken_spot_taker_fee_bps := v\<rparr>)),
     \<lambda>s. rbind (env_float env pf ''CIE_OKX_SPOT_TAKER_FEE_BPS'' 10) (\<lambda>v. Inr (s\<lparr>se_okx_spot_taker_fee_bps := v\<rparr>)),
     \<lambda>s. rbind (env_float env pf ''CIE_OKX_DERIVATIVES_TAKER_FEE_BPS'' 5) (\<lambda>v. Inr (s\<lparr>se_okx_derivatives_taker_fee_bps := v\<rparr>)),
     \<lambda>s. rbind (env_float env pf ''CIE_SPOT_COLLATERAL_FRACTION'' 1) (\<lambda>v. Inr (s\<lparr>se_spot_collateral_fraction := v\<rparr>)),
     \<lambda>s. rbind (env_float env pf ''CIE_PERP_COLLATERAL_FRACTION'' 1) (\<lambda>v. Inr (s\<lparr>se_perp_collateral_fraction := v\<rparr>)),
     \<lambda>s. rbind (env_float env pf ''CIE_COLLATERAL_OPPORTUNITY_COST_ANNUAL'' (1 / 25)) (\<lambda>v. Inr (s\<lparr>se_collateral_opportunity_cost_annual := v\<rparr>)),
     \<lambda>s. rbind (env_optional_float env pf ''CIE_SPOT_SHORT_BORROW_ANNUAL'' None) (\<lambda>v. Inr (s\<lparr>se_spot_short_borrow_annual := v\<rparr>)),
     \<lambda>s. rbind (env_float env pf ''CIE_EXPECTED_ORDER_ACK_LATENCY_MS'' 0) (\<lambda>v. Inr (s\<lparr>se_expected_order_ack_latency_ms := v\<rparr>)),
     \<lambda>s. rbind (env_float env pf ''CIE_EXPECTED_HEDGE_LATENCY_MS'' 750) (\<lambda>v. Inr (s\<lparr>se_expected_hedge_latency_ms := v\<rparr>))]"

definition settings_steps_evidence ::
  "environ \<Rightarrow> (string \<Rightarrow> real result) \<Rightarrow> (string \<Rightarrow> int result) \<Rightarrow> (settings \<Rightarrow> settings result) list" where
  "settings_steps_evidence env pf pint = [
     \<lambda>s. rbind (env_float env pf ''CIE_LATENCY_RISK_BPS_PER_SECOND'' (1 / 2)) (\<lambda>v. Inr (s\<lparr>se_latency_risk_bps_per_second := v\<rparr>)),
     \<lambda>s. Inr (s\<lparr>se_empirical_latency_enabled := env_bool env ''CIE_EMPIRICAL_LATENCY_ENABLED'' True\<rparr>),
     \<lambda>s. rbind (env_int env pint ''CIE_EMPIRICAL_LATENCY_MIN_SAMPLES'' 100) (\<lambda>v. Inr (s\<lparr>se_empirical_latency_min_samples := v\<rparr>)),
     \<lambda>s. rbind (env_int env pint ''CIE_EMPIRICAL_LATENCY_MIN_SCAN_SAMPLES'' 30) (\<lambda>v. Inr (s\<lparr>se_empirical_latency_min_scan_samples := v\<rparr>)),
     \<lambda>s. rbind (env_int env pint ''CIE_EMPIRICAL_LATENCY_MIN_EFFECTIVE_SAMPLES'' 30) (\<lambda>v. Inr (s\<lparr>se_empirical_latency_min_effective_samples := v\<rparr>)),
     \<lambda>s. rbind (env_float env pf ''CIE_EMPIRICAL_LATENCY_QUANTILE'' (19 / 20)) (\<lambda>v. Inr (s\<lparr>se_empirical_latency_quantile := v\<rparr>)),
     \<lambda>s. rbind (env_float env pf ''CIE_EMPIRICAL_PROBABILITY_CONFIDENCE_LEVEL'' (19 / 20)) (\<lambda>v. Inr (s\<lparr>se_empirical_probability_confidence_level := v\<rparr>)),
     \<lambda>s. rbind (env_float env pf ''CIE_EMPIRICAL_PROBABILITY_MAX_CI_WIDTH'' (1 / 4)) (\<lambda>v. Inr (s\<lparr>se_empirical_probability_max_ci_width := v\<rparr>)),
     \<lambda>s. rbind (env_float env pf ''CIE_HEDGE_LIQUIDITY_RESERVE_RATIO'' (5 / 4)) (\<lambda>v. Inr (s\<lparr>se_hedge_liquidity_reserve_ratio := v\<rparr>)),
     \<lambda>s. rbind (env_float env pf ''CIE_HEDGE_RECOVERY_BUFFER_BPS'' 2) (\<lambda>v. Inr (s\<lparr>se_hedge_recovery_buffer_bps := v\<rparr>)),
     \<lambda>s. rbind (env_float env pf ''CIE_SHADOW_DELAY_SECONDS'' 5) (\<lambda>v. Inr (s\<lparr>se_shadow_delay_seconds := v\<rparr>)),
     \<lambda>s. rbind (env_float_tuple env pf ''CIE_SHADOW_HORIZONS_SECONDS'' [1, 5, 15, 30, 60]) (\<lambda>v. Inr (s\<lparr>se_shadow_horizons_seconds := v\<rparr>)),
     \<lambda>s. rbind (env_float env pf ''CIE_SHADOW_NOTIONAL_USD'' 1000) (\<lambda>v. Inr (s\<lparr>se_shadow_notional_usd := v\<rparr>)),
     \<lambda>s. rbind (env_int env pint ''CIE_SHADOW_MAX_CANDIDATES'' 0) (\<lambda>v. Inr (s\<lparr>se_shadow_max_candidates := v\<rparr>)),
     \<lambda>s. rbind (env_float env pf ''CIE_SHADOW_SLIPPAGE_EXPANSION_BPS'' 1) (\<lambda>v. Inr (s\<lparr>se_shadow_slippage_expansion_bps := v\<rparr>)),
     \<lambda>s. rbind (env_float env pf ''CIE_SHADOW_HEDGE_DIVERGENCE_BPS'' 5) (\<lambda>v. Inr (s\<lparr>se_shadow_hedge_divergence_bps := v\<rparr>)),
     \<lambda>s. rbind (env_float env pf ''CIE_SHADOW_CYCLE_INTERVAL_SECONDS'' 30) (\<lambda>v. Inr (s\<lparr>se_shadow_cycle_interval_seconds := v\<rparr>)),
     \<lambda>s. rbind (env_float env pf ''CIE_WORKER_ERROR_BACKOFF_SECONDS'' 15) (\<lambda>v. Inr (s\<lparr>se_worker_error_backoff_seconds := v\<rparr>)),
     \<lambda>s. rbind (env_float env pf ''CIE_WORKER_HEARTBEAT_STALE_SECONDS'' 180) (\<lambda>v. Inr (s\<lparr>se_worker_heartbeat_stale_seconds := v\<rparr>)),
     \<lambda>s. rbind (env_float_tuple env pf ''CIE_CAPITAL_TIERS_USD'' [1000, 10000, 25000, 50000, 100000]) (\<lambda>v. Inr (s\<lparr>se_capital_tiers_usd := v\<rparr>)),
     \<lambda>s. rbind (env_float env pf ''CIE_STABLECOIN_DEPEG_RISK_MULTIPLIER'' (3 / 2)) (\<lambda>v. Inr (s\<lparr>se_stablecoin_depeg_risk_multiplier := v\<rparr>)),
     \<lambda>s. rbind (env_float env pf ''CIE_STABLECOIN_CONVERSION_RISK_FLOOR_BPS'' 2) (\<lambda>v. Inr (s\<lparr>se_stablecoin_conversion_risk_floor_bps := v\<rparr>)),
     \<lambda>s. rbind (env_float env pf ''CIE_STABLECOIN_DISLOCATION_MIN_EDGE_BPS'' 8) (\<lambda>v. Inr (s\<lparr>se_stablecoin_dislocation_min_edge_bps := v\<rparr>)),
     \<lambda>s. rbind (env_float env pf ''CIE_DEX_DISLOCATION_MIN_EDGE_BPS'' 12) (\<lambda>v. Inr (s\<lparr>se_dex_dislocation_min_edge_bps := v\<rparr>))]"

definition settings_steps_research ::
  "environ \<Rightarrow> (string \<Rightarrow> real result) \<Rightarrow> (string \<Rightarrow> int result) \<Rightarrow> (settings \<Rightarrow> settings result) list" where
  "settings_steps_research env pf pint = [
     \<lambda>s. rbind (env_float env pf ''CIE_DEX_LIQUIDITY_RISK_FLOOR_BPS'' 8) (\<lambda>v. Inr (s\<lparr>se_dex_liquidity_risk_floor_bps := v\<rparr>)),
     \<lambda>s. rbind (env_float env pf ''CIE_DEX_ROUTE_EVIDENCE_NOTIONAL_USD'' 1000) (\<lambda>v. Inr (s\<lparr>se_dex_route_evidence_notional_usd := v\<rparr>)),
     \<lambda>s. rbind (env_float_tuple env pf ''CIE_DEX_ROUTE_FRONTIER_NOTIONALS_USD'' [1000, 5000, 10000, 25000]) (\<lambda>v. Inr (s\<lparr>se_dex_route_frontier_notionals_usd := v\<rparr>)),
     \<lambda>s. rbind (env_float env pf ''CIE_DEX_ROUTE_FRONTIER_MAX_DETERIORATION_BPS'' 25) (\<lambda>v. Inr (s\<lparr>se_dex_route_frontier_max_deterioration_bps := v\<rparr>)),
     \<lambda>s. rbind (env_int env pint ''CIE_DEX_ROUTE_FRONTIER_EVERY_CYCLES'' 10) (\<lambda>v. Inr (s\<lparr>se_dex_route_frontier_every_cycles := max 1 v\<rparr>)),
     \<lambda>s. rbind (env_float_tuple env pf ''CIE_DEX_ROUTE_TIER_SHADOW_NOTIONALS_USD'' [5000, 10000, 25000]) (\<lambda>v. Inr (s\<lparr>se_dex_route_tier_shadow_notionals_usd := v\<rparr>)),
     \<lambda>s. rbind (env_int env pint ''CIE_DEX_ROUTE_TIER_SHADOW_EVERY_CYCLES'' 10) (\<lambda>v. Inr (s\<lparr>se_dex_route_tier_shadow_every_cycles := max 1 v\<rparr>)),
     \<lambda>s. rbind (env_int env pint ''CIE_DEX_ROUTE_TIER_SHADOW_MAX_CONCURRENCY'' 2) (\<lambda>v. Inr (s\<lparr>se_dex_route_tier_shadow_max_concurrency := max 1 v\<rparr>)),
     \<lambda>s. rbind (env_float env pf ''CIE_DEX_STATISTICAL_REFERENCE_HORIZON_SECONDS'' 5) (\<lambda>v. Inr (s\<lparr>se_dex_statistical_reference_horizon_seconds := max 0 v\<rparr>)),
     \<lambda>s. rbind (env_int env pint ''CIE_DEX_STATISTICAL_MIN_EFFECTIVE_SAMPLES'' 30) (\<lambda>v. Inr (s\<lparr>se_dex_statistical_min_effective_samples := max 1 v\<rparr>)),
     \<lambda>s. rbind (env_int env pint ''CIE_DEX_STATISTICAL_MIN_TAIL_SAMPLES'' 20) (\<lambda>v. Inr (s\<lparr>se_dex_statistical_min_tail_samples := max 1 v\<rparr>)),
     \<lambda>s. rbind (env_float env pf ''CIE_DEX_STATISTICAL_CONFIDENCE_LEVEL'' (19 / 20)) (\<lambda>v. Inr (s\<lparr>se_dex_statistical_confidence_level := v\<rparr>)),
     \<lambda>s. rbind (env_float env pf ''CIE_DEX_STATISTICAL_MAX_CI_WIDTH'' (1 / 4)) (\<lambda>v. Inr (s\<lparr>se_dex_statistical_max_ci_width := v\<rparr>)),
     \<lambda>s. rbind (env_float env pf ''CIE_DEX_STATISTICAL_MIN_SURVIVAL_LOWER_BOUND'' (4 / 5)) (\<lambda>v. Inr (s\<lparr>se_dex_statistical_min_survival_lower_bound := v\<rparr>)),
     \<lambda>s. rbind (env_float env pf ''CIE_DEX_STATISTICAL_MIN_FRONTIER_ACCEPTANCE_LOWER_BOUND'' (4 / 5)) (\<lambda>v. Inr (s\<lparr>se_dex_statistical_min_frontier_acceptance_lower_bound := v\<rparr>)),
     \<lambda>s. rbind (env_float env pf ''CIE_DEX_STATISTICAL_MAX_P95_DETERIORATION_BPS'' 25) (\<lambda>v. Inr (s\<lparr>se_dex_statistical_max_p95_deterioration_bps := v\<rparr>)),
     \<lambda>s. rbind (env_float env pf ''CIE_DEX_STATISTICAL_NOTIONAL_TOLERANCE_FRACTION'' (1 / 10)) (\<lambda>v. Inr (s\<lparr>se_dex_statistical_notional_tolerance_fraction := v\<rparr>)),
     \<lambda>s. rbind (env_float env pf ''CIE_DEX_STATISTICAL_MIN_NET_EDGE_BPS'' 12) (\<lambda>v. Inr (s\<lparr>se_dex_statistical_min_net_edge_bps := v\<rparr>)),
     \<lambda>s. rbind (env_float env pf ''CIE_OPTION_RELATIVE_VALUE_MIN_IV_POINTS'' 8) (\<lambda>v. Inr (s\<lparr>se_option_relative_value_min_iv_points := v\<rparr>)),
     \<lambda>s. rbind (env_float env pf ''CIE_ALLOCATOR_MAX_VENUE_FRACTION'' (1 / 2)) (\<lambda>v. Inr (s\<lparr>se_allocator_max_venue_fraction := v\<rparr>)),
     \<lambda>s. rbind (env_float env pf ''CIE_ALLOCATOR_MAX_ASSET_FRACTION'' (1 / 2)) (\<lambda>v. Inr (s\<lparr>se_allocator_max_asset_fraction := v\<rparr>)),
     \<lambda>s. rbind (env_int env pint ''CIE_ALLOCATOR_MAX_ALLOCATIONS'' 10) (\<lambda>v. Inr (s\<lparr>se_allocator_max_allocations := v\<rparr>)),
     \<lambda>s. rbind (env_float env pf ''CIE_ALPHA_HISTORY_HOURS'' 72) (\<lambda>v. Inr (s\<lparr>se_alpha_history_hours := v\<rparr>)),
     \<lambda>s. rbind (env_int env pint ''CIE_ALPHA_MIN_HISTORY_POINTS'' 12) (\<lambda>v. Inr (s\<lparr>se_alpha_min_history_points := max 3 v\<rparr>)),
     \<lambda>s. rbind (env_float env pf ''CIE_ALPHA_MOMENTUM_LOOKBACK_HOURS'' 24) (\<lambda>v. Inr (s\<lparr>se_alpha_momentum_lookback_hours := v\<rparr>)),
     \<lambda>s. rbind (env_float env pf ''CIE_ALPHA_MOMENTUM_HORIZON_HOURS'' 6) (\<lambda>v. Inr (s\<lparr>se_alpha_momentum_horizon_hours := v\<rparr>)),
     \<lambda>s. rbind (env_float env pf ''CIE_ALPHA_MOMENTUM_MIN_ABS_RETURN'' (1 / 100)) (\<lambda>v. Inr (s\<lparr>se_alpha_momentum_min_abs_return := v\<rparr>)),
     \<lambda>s. rbind (env_float env pf ''CIE_ALPHA_FORECAST_SHRINKAGE'' (1 / 4)) (\<lambda>v. Inr (s\<lparr>se_alpha_forecast_shrinkage := v\<rparr>)),
     \<lambda>s. rbind (env_float env pf ''CIE_ALPHA_RESEARCH_COST_FLOOR_BPS'' 25) (\<lambda>v. Inr (s\<lparr>se_alpha_research_cost_floor_bps := v\<rparr>)),
     \<lambda>s. rbind (env_float env pf ''CIE_ALPHA_EXECUTION_RISK_FLOOR_BPS'' 5) (\<lambda>v. Inr (s\<lparr>se_alpha_execution_risk_floor_bps := v\<rparr>)),
     \<lambda>s. rbind (env_float env pf ''CIE_ALPHA_RESEARCH_CAPITAL_USD'' 100000) (\<lambda>v. Inr (s\<lparr>se_alpha_research_capital_usd := v\<rparr>)),
     \<lambda>s. rbind (env_float env pf ''CIE_ALPHA_CANDIDATE_CAPITAL_FRACTION'' (1 / 10)) (\<lambda>v. Inr (s\<lparr>se_alpha_candidate_capital_fraction := v\<rparr>)),
     \<lambda>s. rbind (env_float env pf ''CIE_ALPHA_MIN_NOTIONAL_USD'' 1000) (\<lambda>v. Inr (s\<lparr>se_alpha_min_notional_usd := v\<rparr>)),
     \<lambda>s. rbind (env_int env pint ''CIE_ALPHA_MIN_FORWARD_SAMPLES'' 30) (\<lambda>v. Inr (s\<lparr>se_alpha_min_forward_samples := max 1 v\<rparr>)),
     \<lambda>s. rbind (env_float env pf ''CIE_ALPHA_MIN_FORWARD_MEAN_RETURN'' (1 / 2000)) (\<lambda>v. Inr (s\<lparr>se_alpha_min_forward_mean_return := v\<rparr>)),
     \<lambda>s. rbind (env_float env pf ''CIE_ALPHA_MULTIPLE_TESTING_PENALTY_RETURN'' (1 / 4000)) (\<lambda>v. Inr (s\<lparr>se_alpha_multiple_testing_penalty_return := v\<rparr>)),
     \<lambda>s. rbind (env_float env pf ''CIE_ALPHA_MIN_HIT_RATE_LOWER_BOUND'' (1 / 2)) (\<lambda>v. Inr (s\<lparr>se_alpha_min_hit_rate_lower_bound := v\<rparr>)),
     \<lambda>s. rbind (env_int env pint ''CIE_ALPHA_MIN_REGIMES'' 2) (\<lambda>v. Inr (s\<lparr>se_alpha_min_regimes := max 1 v\<rparr>)),
     \<lambda>s. rbind (env_float env pf ''CIE_ALPHA_MIN_REGIME_MEAN_RETURN'' 0) (\<lambda>v. Inr (s\<lparr>se_alpha_min_regime_mean_return := v\<rparr>)),
     \<lambda>s. rbind (env_float env pf ''CIE_ALPHA_MIN_CURRENT_NET_RETURN'' (1 / 2000)) (\<lambda>v. Inr (s\<lparr>se_alpha_min_current_net_return := v\<rparr>)),
     \<lambda>s. rbind (env_int env pint ''CIE_ALPHA_EVIDENCE_EVERY_CYCLES'' 10) (\<lambda>v. Inr (s\<lparr>se_alpha_evidence_every_cycles := max 1 v\<rparr>))]"

definition from_env ::
  "environ \<Rightarrow> (string \<Rightarrow> real result) \<Rightarrow> (string \<Rightarrow> int result) \<Rightarrow> settings result" where
  "from_env env pf pint =
     (if \<not> env_bool env ''CIE_PAPER_ONLY'' True
      then Inl (RuntimeError ''V1 is paper-only; live execution cannot be enabled by configuration'')
      else rbind (rfold (\<lambda>f s. f s)
             (settings_steps_core env pf pint @ settings_steps_evidence env pf pint
              @ settings_steps_research env pf pint) (default_settings\<lparr>se_paper_only := True\<rparr>))
           (\<lambda>s. Inr (s\<lparr>se_evidence_db_path :=
              (if truthy (env ''CIE_EVIDENCE_DB_PATH'') then env ''CIE_EVIDENCE_DB_PATH'' else None)\<rparr>)))"
section \<open>What every environment gives\<close>

text \<open>
  The promise of the configuration: paper-only, with the capital tiers non-empty, positive
  and ascending, and the cycle counts that later divide or index kept at one or more.
\<close>

definition settings_ok :: "settings \<Rightarrow> bool" where
  "settings_ok s \<longleftrightarrow> se_paper_only s
     \<and> se_capital_tiers_usd s \<noteq> [] \<and> (\<forall>v \<in> set (se_capital_tiers_usd s). 0 < v)
     \<and> sorted (se_capital_tiers_usd s) \<and> distinct (se_capital_tiers_usd s)
     \<and> 1 \<le> se_dex_route_frontier_every_cycles s \<and> 1 \<le> se_dex_route_tier_shadow_every_cycles s
     \<and> 1 \<le> se_dex_route_tier_shadow_max_concurrency s
     \<and> 1 \<le> se_alpha_min_regimes s \<and> 1 \<le> se_alpha_evidence_every_cycles s"

definition step_ok :: "(settings \<Rightarrow> settings result) \<Rightarrow> bool" where
  "step_ok f \<longleftrightarrow> (\<forall>s s'. settings_ok s \<longrightarrow> f s = Inr s' \<longrightarrow> settings_ok s')"

lemma default_settings_ok: "settings_ok default_settings"
  by (simp add: settings_ok_def default_settings_def)

lemma tiers_step_ok:
  assumes "env_float_tuple env pf ''CIE_CAPITAL_TIERS_USD'' [1000, 10000, 25000, 50000, 100000] = Inr vs"
  shows "vs \<noteq> [] \<and> (\<forall>v \<in> set vs. 0 < v) \<and> sorted vs \<and> distinct vs"
  using assms by (rule env_float_tuple_positive) simp_all

lemma step_okI:
  assumes "\<And>s v. settings_ok s \<Longrightarrow> m = Inr v \<Longrightarrow> settings_ok (upd v s)"
  shows "step_ok (\<lambda>s. rbind m (\<lambda>v. Inr (upd v s)))"
  using assms by (auto simp: step_ok_def)

lemma step_ok_pureI:
  assumes "\<And>s. settings_ok s \<Longrightarrow> settings_ok (upd s)"
  shows "step_ok (\<lambda>s. Inr (upd s))"
  using assms by (auto simp: step_ok_def)

lemma steps_core_ok: "list_all step_ok (settings_steps_core env pf pint)"
  unfolding settings_steps_core_def list.pred_inject
  by (intro conjI step_okI step_ok_pureI TrueI; simp add: settings_ok_def)

lemma steps_evidence_ok: "list_all step_ok (settings_steps_evidence env pf pint)"
  unfolding settings_steps_evidence_def list.pred_inject
  by (intro conjI step_okI step_ok_pureI TrueI; use tiers_step_ok in \<open>simp add: settings_ok_def\<close>)

lemma steps_research_ok: "list_all step_ok (settings_steps_research env pf pint)"
  unfolding settings_steps_research_def list.pred_inject
  by (intro conjI step_okI step_ok_pureI TrueI; simp add: settings_ok_def)

lemma from_env_ok:
  assumes "from_env env pf pint = Inr s"
  shows "settings_ok s"
proof -
  let ?steps = "settings_steps_core env pf pint @ settings_steps_evidence env pf pint
    @ settings_steps_research env pf pint"
  from assms obtain t where t: "rfold (\<lambda>f s. f s) ?steps default_settings = Inr t"
      and s: "settings_ok s = settings_ok t"
    by (auto simp: from_env_def settings_ok_def default_settings_def split: if_splits)
  have "list_all step_ok ?steps"
    by (simp add: steps_core_ok steps_evidence_ok steps_research_ok)
  then have step: "\<And>f a a'. f \<in> set ?steps \<Longrightarrow> settings_ok a \<Longrightarrow> f a = Inr a' \<Longrightarrow> settings_ok a'"
    unfolding list_all_iff step_ok_def by blast
  show ?thesis
    using rfold_invariant [OF t, of settings_ok] default_settings_ok step s by blast
qed

end
