(* ===== verification/Costs.thy ===== *)
theory Costs
  imports Settings
begin

text \<open>
  costs.py: the explicit taker fee of every supported venue and market, the collateral a
  leg reserves, the borrow cost of a short spot leg, and the non-slippage cost of a
  two-legged trade.  Unknown fees and unknown borrow costs are errors, never zero.
\<close>

section \<open>Per-leg economics\<close>

definition taker_fee_bps :: "opportunity_leg \<Rightarrow> settings \<Rightarrow> real result" where
  "taker_fee_bps leg s =
     (let v = lg_venue leg; k = lg_market_kind leg in
      if v = ''Coinbase'' \<and> k = SPOT then Inr (se_coinbase_spot_taker_fee_bps s)
      else if v = ''HlPerp'' \<and> k = PERPETUAL then Inr (se_hyperliquid_perp_taker_fee_bps s)
      else if v = ''Bybit'' \<and> k = SPOT then Inr (se_bybit_spot_taker_fee_bps s)
      else if v = ''Bybit'' \<and> (k = PERPETUAL \<or> k = FUTURE)
      then Inr (se_bybit_derivatives_taker_fee_bps s)
      else if v = ''Kraken'' \<and> k = SPOT then Inr (se_kraken_spot_taker_fee_bps s)
      else if v = ''OKX'' \<and> k = SPOT then Inr (se_okx_spot_taker_fee_bps s)
      else if v = ''OKX'' \<and> (k = PERPETUAL \<or> k = FUTURE)
      then Inr (se_okx_derivatives_taker_fee_bps s)
      else Inl (UnknownVenueFeeError
             (''no explicit taker fee model for '' @ v @ '':'' @ market_kind_value k)))"

fun collateral_fraction_of :: "market_kind \<Rightarrow> settings \<Rightarrow> real" where
  "collateral_fraction_of SPOT s = se_spot_collateral_fraction s"
| "collateral_fraction_of PERPETUAL s = se_perp_collateral_fraction s"
| "collateral_fraction_of FUTURE s = se_perp_collateral_fraction s"

definition collateral_fraction :: "opportunity_leg \<Rightarrow> settings \<Rightarrow> real" where
  "collateral_fraction leg s = collateral_fraction_of (lg_market_kind leg) s"

definition financing_cost_bps :: "opportunity_leg \<Rightarrow> settings \<Rightarrow> real \<Rightarrow> real result" where
  "financing_cost_bps leg s holding_hours =
     (if lg_market_kind leg = SPOT \<and> lg_side leg = SHORT
      then (case se_spot_short_borrow_annual s of
              None \<Rightarrow> Inl (BorrowCostUnavailableError
                (''spot short borrow cost unavailable for '' @ lg_venue leg @ '':'' @ lg_asset leg))
            | Some annual \<Rightarrow> Inr (annual * (holding_hours / (24 * 365)) * 10000))
      else Inr 0)"

section \<open>The cost breakdown\<close>

record cost_breakdown =
  cb_screening_cost_floor_bps :: real
  cb_venue_roundtrip_fee_bps :: real
  cb_transaction_cost_bps :: real
  cb_financing_cost_bps :: real
  cb_collateral_opportunity_cost_bps :: real
  cb_latency_risk_bps :: real
  cb_latency_model_source :: latency_model_source
  cb_latency_model_scope :: string
  cb_latency_scope_fallbacks :: "string list"
  cb_latency_reference_ms :: "real option"
  cb_collector_latency_reference_ms :: "real option"
  cb_execution_latency_empirical :: bool
  cb_latency_reference_horizon_seconds :: "real option"
  cb_latency_reference_lower_horizon_seconds :: "real option"
  cb_latency_interpolation_weight :: real
  cb_latency_interpolation_mode :: "interpolation_mode option"
  cb_latency_sample_count :: nat
  cb_latency_effective_sample_size :: nat
  cb_latency_confidence_gate_passed :: bool
  cb_empirical_pair_fill_probability :: "real option"
  cb_empirical_pair_fill_ci_lower :: "real option"
  cb_empirical_reserve_fill_probability :: "real option"
  cb_empirical_capture_probability :: "real option"
  cb_empirical_capture_ci_lower :: "real option"
  cb_empirical_hedge_recovery_probability :: "real option"
  cb_empirical_partial_fill_probability :: "real option"
  cb_empirical_unhedged_fraction_p95 :: "real option"
  cb_empirical_hedge_recovery_loss_p95_bps :: "real option"
  cb_fill_model_kind :: string
  cb_queue_position_supported :: bool
  cb_hedge_recovery_buffer_bps :: real
  cb_hedge_recovery_buffer_source :: recovery_buffer_source
  cb_total_non_slippage_cost_bps :: real
  cb_capital_required_usd :: real
  cb_capital_multiple :: real

text \<open>
  The loop over the legs accumulates the round-trip fee, the financing cost and the
  reserved capital; the first leg without a price stops it.
\<close>

definition leg_costs ::
  "settings \<Rightarrow> real \<Rightarrow> real \<Rightarrow> opportunity_leg \<Rightarrow> real \<times> real \<times> real \<Rightarrow> (real \<times> real \<times> real) result" where
  "leg_costs s hours notional leg acc =
     (case acc of (fee, fin, cap) \<Rightarrow>
        rbind (taker_fee_bps leg s) (\<lambda>f.
        rbind (financing_cost_bps leg s hours) (\<lambda>b.
        Inr (fee + f * 2, fin + b, cap + notional * collateral_fraction leg s))))"

text \<open>Python's \<open>a or b\<close> on optional floats: None and zero are both false.\<close>

definition float_or :: "real option \<Rightarrow> real option \<Rightarrow> real option" where
  "float_or a b = (case a of None \<Rightarrow> b | Some x \<Rightarrow> if x = 0 then b else Some x)"

definition float_or_zero :: "real option \<Rightarrow> real" where
  "float_or_zero a = (case a of None \<Rightarrow> 0 | Some x \<Rightarrow> x)"

definition usable_model :: "empirical_latency_model option \<Rightarrow> empirical_latency_model option" where
  "usable_model lm = (case lm of None \<Rightarrow> None
     | Some m \<Rightarrow> if lm_usable_for_qualification m then Some m else None)"

definition fixed_execution_latency_ms :: "settings \<Rightarrow> real" where
  "fixed_execution_latency_ms s =
     max 0 (se_expected_order_ack_latency_ms s) + max 0 (se_expected_hedge_latency_ms s)"

definition hedge_latency_risk_bps :: "settings \<Rightarrow> empirical_latency_model option \<Rightarrow> real" where
  "hedge_latency_risk_bps s um =
     (case um of
        None \<Rightarrow> fixed_execution_latency_ms s / 1000 * se_latency_risk_bps_per_second s
      | Some m \<Rightarrow> max 0 (float_or_zero (lm_empirical_latency_risk_bps m)))"

definition recovery_buffer_bps :: "settings \<Rightarrow> empirical_latency_model option \<Rightarrow> real" where
  "recovery_buffer_bps s um =
     (let fixed = max 0 (se_hedge_recovery_buffer_bps s) in
      case um of None \<Rightarrow> fixed
      | Some m \<Rightarrow> (case lm_hedge_recovery_loss_p95_bps m of
                    None \<Rightarrow> fixed | Some loss \<Rightarrow> max fixed (max 0 loss)))"

definition recovery_source :: "empirical_latency_model option \<Rightarrow> recovery_buffer_source" where
  "recovery_source um =
     (case um of None \<Rightarrow> Fixed_buffer
      | Some m \<Rightarrow> (case lm_hedge_recovery_loss_p95_bps m of
                    None \<Rightarrow> Fixed_buffer | Some _ \<Rightarrow> Max_fixed_empirical))"

text \<open>A field of the usable model, or the value the fixed model reports.\<close>

definition from_model ::
  "empirical_latency_model option \<Rightarrow> 'a \<Rightarrow> (empirical_latency_model \<Rightarrow> 'a) \<Rightarrow> 'a" where
  "from_model um d f = (case um of None \<Rightarrow> d | Some m \<Rightarrow> f m)"

definition economic_costs ::
  "opportunity \<Rightarrow> real \<Rightarrow> settings \<Rightarrow> real \<Rightarrow> empirical_latency_model option \<Rightarrow> cost_breakdown result" where
  "economic_costs opp notional s worst_book_age latency_model =
     (if notional \<le> 0 then Inl (ValueError ''notional_usd_per_leg must be positive'') else
      rbind (rfold (leg_costs s (op_holding_hours opp) notional) (op_legs opp) (0, 0, 0))
        (\<lambda>(fee, fin, capital).
         let multiple = capital / notional;
             collateral = se_collateral_opportunity_cost_annual s
                          * (op_holding_hours opp / (24 * 365)) * 10000 * multiple;
             age_risk = max 0 worst_book_age * se_latency_risk_bps_per_second s;
             um = usable_model latency_model;
             latency_risk = age_risk + hedge_latency_risk_bps s um;
             buffer = recovery_buffer_bps s um;
             transaction = max (op_modeled_cost_bps opp) fee;
             total = transaction + fin + collateral + latency_risk + buffer
         in Inr \<lparr>
           cb_screening_cost_floor_bps = op_modeled_cost_bps opp,
           cb_venue_roundtrip_fee_bps = fee,
           cb_transaction_cost_bps = transaction,
           cb_financing_cost_bps = fin,
           cb_collateral_opportunity_cost_bps = collateral,
           cb_latency_risk_bps = latency_risk,
           cb_latency_model_source = from_model um Fixed_latency (\<lambda>_. Empirical_shadow),
           cb_latency_model_scope = from_model um ''fixed'' lm_model_scope,
           cb_latency_scope_fallbacks = from_model um [] lm_scope_fallbacks,
           cb_latency_reference_ms = from_model um (Some (fixed_execution_latency_ms s))
             (\<lambda>m. float_or (lm_effective_decision_to_hedge_latency_ms m) (lm_reference_latency_ms m)),
           cb_collector_latency_reference_ms = from_model um None lm_collector_latency_reference_ms,
           cb_execution_latency_empirical = from_model um False lm_execution_latency_empirical,
           cb_latency_reference_horizon_seconds =
             from_model um None lm_reference_upper_horizon_seconds,
           cb_latency_reference_lower_horizon_seconds =
             from_model um None lm_reference_lower_horizon_seconds,
           cb_latency_interpolation_weight = from_model um 0 lm_interpolation_weight,
           cb_latency_interpolation_mode =
             from_model um None (\<lambda>m. Some (lm_interpolation_mode m)),
           cb_latency_sample_count = from_model um 0 lm_cohort_sample_count,
           cb_latency_effective_sample_size = from_model um 0 lm_effective_sample_size,
           cb_latency_confidence_gate_passed = from_model um False lm_confidence_gate_passed,
           cb_empirical_pair_fill_probability = from_model um None lm_pair_fill_probability,
           cb_empirical_pair_fill_ci_lower = from_model um None lm_pair_fill_ci_lower,
           cb_empirical_reserve_fill_probability = from_model um None lm_reserve_fill_probability,
           cb_empirical_capture_probability = from_model um None lm_capture_probability,
           cb_empirical_capture_ci_lower = from_model um None lm_capture_ci_lower,
           cb_empirical_hedge_recovery_probability =
             from_model um None lm_hedge_recovery_probability,
           cb_empirical_partial_fill_probability = from_model um None lm_partial_fill_probability,
           cb_empirical_unhedged_fraction_p95 = from_model um None lm_unhedged_fraction_p95,
           cb_empirical_hedge_recovery_loss_p95_bps =
             from_model um None lm_hedge_recovery_loss_p95_bps,
           cb_fill_model_kind = from_model um ''visible_l2_taker_reconstruction'' lm_fill_model_kind,
           cb_queue_position_supported = from_model um False lm_queue_position_supported,
           cb_hedge_recovery_buffer_bps = buffer,
           cb_hedge_recovery_buffer_source = recovery_source um,
           cb_total_non_slippage_cost_bps = total,
           cb_capital_required_usd = capital,
           cb_capital_multiple = multiple\<rparr>))"

section \<open>The loop over the legs\<close>

text \<open>The specification of the loop: every leg is priced, and the sums are over the legs.\<close>

definition leg_priced :: "settings \<Rightarrow> opportunity_leg \<Rightarrow> bool" where
  "leg_priced s leg \<longleftrightarrow> (\<exists>f. taker_fee_bps leg s = Inr f)
     \<and> \<not> (lg_market_kind leg = SPOT \<and> lg_side leg = SHORT \<and> se_spot_short_borrow_annual s = None)"

definition collateral_sum :: "opportunity \<Rightarrow> settings \<Rightarrow> real" where
  "collateral_sum opp s = (\<Sum>leg\<leftarrow>op_legs opp. collateral_fraction leg s)"

lemma leg_costs_Inr:
  "leg_costs s h n leg (fee, fin, cap) = Inr r \<longleftrightarrow>
     (\<exists>f b. taker_fee_bps leg s = Inr f \<and> financing_cost_bps leg s h = Inr b
        \<and> r = (fee + f * 2, fin + b, cap + n * collateral_fraction leg s))"
  by (auto simp: leg_costs_def)

lemma leg_costs_capital:
  assumes "rfold (leg_costs s h n) legs (fee, fin, cap) = Inr (fee', fin', cap')"
  shows "cap' = cap + n * (\<Sum>leg\<leftarrow>legs. collateral_fraction leg s)"
  using assms
proof (induction legs arbitrary: fee fin cap)
  case (Cons leg legs)
  then obtain fee1 fin1 where
    "rfold (leg_costs s h n) legs (fee1, fin1, cap + n * collateral_fraction leg s)
       = Inr (fee', fin', cap')"
    by (auto simp: leg_costs_Inr)
  from Cons.IH [OF this] show ?case by (simp add: algebra_simps)
qed simp

text \<open>The fee and the borrow cost of a priced leg; nothing else is charged.\<close>

definition taker_fee :: "settings \<Rightarrow> opportunity_leg \<Rightarrow> real" where
  "taker_fee s leg = (case taker_fee_bps leg s of Inl e \<Rightarrow> 0 | Inr f \<Rightarrow> f)"

definition borrow_cost :: "settings \<Rightarrow> real \<Rightarrow> opportunity_leg \<Rightarrow> real" where
  "borrow_cost s hours leg = (case financing_cost_bps leg s hours of Inl e \<Rightarrow> 0 | Inr b \<Rightarrow> b)"

lemma leg_costs_sums:
  assumes "rfold (leg_costs s h n) legs (fee, fin, cap) = Inr (fee', fin', cap')"
  shows "fee' = fee + 2 * (\<Sum>leg\<leftarrow>legs. taker_fee s leg)" and "fin' = fin + (\<Sum>leg\<leftarrow>legs. borrow_cost s h leg)"
proof -
  have "fee' = fee + 2 * (\<Sum>leg\<leftarrow>legs. taker_fee s leg) \<and> fin' = fin + (\<Sum>leg\<leftarrow>legs. borrow_cost s h leg)"
    using assms
  proof (induction legs arbitrary: fee fin cap)
    case (Cons leg legs)
    then obtain f b where "taker_fee_bps leg s = Inr f" "financing_cost_bps leg s h = Inr b"
      "rfold (leg_costs s h n) legs (fee + f * 2, fin + b, cap + n * collateral_fraction leg s) = Inr (fee', fin', cap')"
      by (auto simp: leg_costs_Inr)
    with Cons.IH [OF this(3)] show ?case by (simp add: taker_fee_def borrow_cost_def)
  qed simp
  then show "fee' = fee + 2 * (\<Sum>leg\<leftarrow>legs. taker_fee s leg)" and "fin' = fin + (\<Sum>leg\<leftarrow>legs. borrow_cost s h leg)"
    by auto
qed

lemma leg_costs_scale_free:
  assumes "rfold (leg_costs s h n) legs (fee, fin, cap) = Inr (fee', fin', cap')"
  shows "\<exists>c. rfold (leg_costs s h m) legs (fee, fin, d) = Inr (fee', fin', c)"
  using assms
  by (induction legs arbitrary: fee fin cap d) (auto simp: leg_costs_Inr)

lemma leg_costs_total:
  "(\<exists>r. rfold (leg_costs s h n) legs acc = Inr r) \<longleftrightarrow> list_all (leg_priced s) legs"
proof (induction legs arbitrary: acc)
  case (Cons leg legs)
  obtain fee fin cap where acc: "acc = (fee, fin, cap)" by (cases acc)
  have "(\<exists>r. leg_costs s h n leg acc = Inr r) \<longleftrightarrow> leg_priced s leg"
    by (auto simp: acc leg_costs_def leg_priced_def financing_cost_bps_def
        simp del: times_divide_eq_left times_divide_eq_right split: option.splits)
  then show ?case using Cons.IH
    by (auto simp: acc leg_priced_def) metis+
qed auto

section \<open>What the breakdown promises\<close>

lemma economic_costs_fields:
  assumes "economic_costs opp n s age lm = Inr c"
  shows "0 < n"
    and "cb_capital_required_usd c = n * collateral_sum opp s"
    and "cb_capital_multiple c = collateral_sum opp s"
    and "cb_transaction_cost_bps c = max (op_modeled_cost_bps opp) (cb_venue_roundtrip_fee_bps c)"
    and "cb_latency_risk_bps c = max 0 age * se_latency_risk_bps_per_second s
           + hedge_latency_risk_bps s (usable_model lm)"
    and "cb_hedge_recovery_buffer_bps c = recovery_buffer_bps s (usable_model lm)"
    and "cb_total_non_slippage_cost_bps c = cb_transaction_cost_bps c + cb_financing_cost_bps c
           + cb_collateral_opportunity_cost_bps c + cb_latency_risk_bps c
           + cb_hedge_recovery_buffer_bps c"
proof -
  from assms show "0 < n" by (auto simp: economic_costs_def split: if_splits)
  with assms obtain fee fin cap
    where r: "rfold (leg_costs s (op_holding_hours opp) n) (op_legs opp) (0, 0, 0) = Inr (fee, fin, cap)"
    by (auto simp: economic_costs_def)
  have cap: "cap = n * collateral_sum opp s"
    using leg_costs_capital [OF r] by (simp add: collateral_sum_def)
  show "cb_capital_required_usd c = n * collateral_sum opp s"
    and "cb_capital_multiple c = collateral_sum opp s"
    and "cb_transaction_cost_bps c = max (op_modeled_cost_bps opp) (cb_venue_roundtrip_fee_bps c)"
    and "cb_latency_risk_bps c = max 0 age * se_latency_risk_bps_per_second s
           + hedge_latency_risk_bps s (usable_model lm)"
    and "cb_hedge_recovery_buffer_bps c = recovery_buffer_bps s (usable_model lm)"
    and "cb_total_non_slippage_cost_bps c = cb_transaction_cost_bps c + cb_financing_cost_bps c
           + cb_collateral_opportunity_cost_bps c + cb_latency_risk_bps c
           + cb_hedge_recovery_buffer_bps c"
    using assms r cap \<open>0 < n\<close> by (auto simp: economic_costs_def Let_def)
qed

text \<open>
  The total, spelled out: round-trip fees not below the screening floor, borrow and collateral
  cost over the holding time, the age of the books, and the charge of the latency model.
\<close>

definition model_charge_bps :: "settings \<Rightarrow> empirical_latency_model option \<Rightarrow> real" where
  "model_charge_bps s lm = hedge_latency_risk_bps s (usable_model lm) + recovery_buffer_bps s (usable_model lm)"

definition standing_cost_bps :: "opportunity \<Rightarrow> settings \<Rightarrow> real \<Rightarrow> real" where
  "standing_cost_bps opp s age = max (op_modeled_cost_bps opp) (2 * (\<Sum>leg\<leftarrow>op_legs opp. taker_fee s leg))
     + (\<Sum>leg\<leftarrow>op_legs opp. borrow_cost s (op_holding_hours opp) leg)
     + se_collateral_opportunity_cost_annual s * (op_holding_hours opp / (24 * 365)) * 10000 * collateral_sum opp s
     + max 0 age * se_latency_risk_bps_per_second s"

lemma economic_costs_total:
  assumes "economic_costs opp n s age lm = Inr c"
  shows "cb_total_non_slippage_cost_bps c = standing_cost_bps opp s age + model_charge_bps s lm"
proof -
  have n: "0 < n" using economic_costs_fields(1) [OF assms] .
  with assms obtain fee fin cap
    where r: "rfold (leg_costs s (op_holding_hours opp) n) (op_legs opp) (0, 0, 0) = Inr (fee, fin, cap)"
    by (auto simp: economic_costs_def)
  have cap: "cap = n * collateral_sum opp s"
    using leg_costs_capital [OF r] by (simp add: collateral_sum_def)
  show ?thesis
    using assms r cap n leg_costs_sums [OF r]
    by (auto simp: economic_costs_def Let_def standing_cost_bps_def model_charge_bps_def)
qed

text \<open>A positive notional is priced exactly when every leg has an explicit fee and a known borrow cost.\<close>

lemma economic_costs_defined_iff:
  assumes "0 < n"
  shows "(\<exists>c. economic_costs opp n s age lm = Inr c) \<longleftrightarrow> list_all (leg_priced s) (op_legs opp)"
proof -
  have "(\<exists>c. economic_costs opp n s age lm = Inr c) \<longleftrightarrow>
      (\<exists>r. rfold (leg_costs s (op_holding_hours opp) n) (op_legs opp) (0, 0, 0) = Inr r)"
    using assms by (auto simp: economic_costs_def Let_def)
  then show ?thesis by (simp only: leg_costs_total)
qed

text \<open>The costs in basis points do not depend on the size of the trade.\<close>

lemma economic_costs_scale_free:
  assumes "economic_costs opp n s age lm = Inr c" and "0 < m"
  obtains c' where "economic_costs opp m s age lm = Inr c'"
    and "cb_total_non_slippage_cost_bps c' = cb_total_non_slippage_cost_bps c"
    and "cb_capital_multiple c' = cb_capital_multiple c"
proof -
  have n: "0 < n" using economic_costs_fields(1) [OF assms(1)] .
  obtain fee fin cap
    where r: "rfold (leg_costs s (op_holding_hours opp) n) (op_legs opp) (0, 0, 0) = Inr (fee, fin, cap)"
    using assms(1) n by (auto simp: economic_costs_def)
  obtain cap' where r': "rfold (leg_costs s (op_holding_hours opp) m) (op_legs opp) (0, 0, 0)
      = Inr (fee, fin, cap')"
    using leg_costs_scale_free [OF r] by blast
  have "cap = n * collateral_sum opp s" "cap' = m * collateral_sum opp s"
    using leg_costs_capital [OF r] leg_costs_capital [OF r'] by (simp_all add: collateral_sum_def)
  then have mult: "cap' / m = cap / n" using n assms(2) by simp
  have "economic_costs opp m s age lm = Inr (c\<lparr>cb_capital_required_usd := cap'\<rparr>)"
  proof -
    have pos: "(n \<le> 0) = False" "(m \<le> 0) = False" using n assms(2) by simp_all
    have "Inr c = economic_costs opp n s age lm" using assms(1) by simp
    also have "\<dots> = rbind (Inr (fee, fin, cap)) (\<lambda>(fee, fin, capital). economic_costs opp n s age lm)"
      by simp
    finally show ?thesis
      using assms(1) unfolding economic_costs_def pos if_False r r' rbind_simps prod.case Let_def mult
      by (auto simp only: sum.inject cost_breakdown.update_convs cost_breakdown.simps)
  qed
  then show ?thesis by (rule that) simp_all
qed

text \<open>An empirical model can only raise the recovery buffer above the configured one.\<close>

lemma recovery_buffer_ge_fixed: "max 0 (se_hedge_recovery_buffer_bps s) \<le> recovery_buffer_bps s um"
  by (auto simp: recovery_buffer_bps_def Let_def split: option.splits)

lemma hedge_latency_risk_nonneg:
  "0 \<le> se_latency_risk_bps_per_second s \<Longrightarrow> 0 \<le> hedge_latency_risk_bps s um"
  by (auto simp: hedge_latency_risk_bps_def fixed_execution_latency_ms_def split: option.splits)

end
