(* ===== verification/Execution.thy ===== *)
theory Execution
  imports Costs
begin

text \<open>
  The order-book part of execution.py: visible depth on one side of a book, the ordering of
  the levels, and the two taker-fill estimates, by base quantity and by USD notional.
  Both walk the levels in price order until what remains is negligible.  The locale
  \<open>taker_loop\<close> states the laws of such a walk once: what is filled and what remains add up
  to the request, nothing is filled beyond the visible depth, and the average rate of a
  larger order is never better than that of a smaller one.
\<close>

section \<open>Visible depth\<close>

definition book_levels :: "order_book_snapshot \<Rightarrow> trade_side \<Rightarrow> order_book_level list" where
  "book_levels b side = (if side = BUY then ob_asks b else ob_bids b)"

definition max_executable_notional :: "order_book_snapshot \<Rightarrow> trade_side \<Rightarrow> real" where
  "max_executable_notional b side = (\<Sum>l\<leftarrow>book_levels b side. lv_price l * lv_size l)"

definition max_executable_quantity :: "order_book_snapshot \<Rightarrow> trade_side \<Rightarrow> real" where
  "max_executable_quantity b side = (\<Sum>l\<leftarrow>book_levels b side. lv_size l)"

definition price_ordered :: "trade_side \<Rightarrow> order_book_level list \<Rightarrow> order_book_level list" where
  "price_ordered side ls = (if side = SELL then sort_desc lv_price ls else sort_key lv_price ls)"

definition ordered_levels ::
  "order_book_snapshot \<Rightarrow> trade_side \<Rightarrow> order_book_level list result" where
  "ordered_levels b side =
     (let ls = book_levels b side in
      if ls = [] then Inl (InsufficientDepthError ''order book has no executable levels'')
      else Inr (price_ordered side ls))"

lemma set_price_ordered [simp]: "set (price_ordered side ls) = set ls"
  by (simp add: price_ordered_def)

lemma price_ordered_eq_Nil [simp]: "price_ordered side ls = [] \<longleftrightarrow> ls = []"
  by (metis set_empty set_price_ordered)

lemma length_price_ordered [simp]: "length (price_ordered side ls) = length ls"
  by (simp add: price_ordered_def)

lemma hd_price_ordered: "ls \<noteq> [] \<Longrightarrow> hd (price_ordered side ls) \<in> set ls"
  by (metis hd_in_set price_ordered_eq_Nil set_price_ordered)

lemma sum_list_price_ordered [simp]: "(\<Sum>l\<leftarrow>price_ordered side ls. f l) = (\<Sum>l\<leftarrow>ls. f l :: real)"
proof -
  have "mset (price_ordered side ls) = mset ls" by (simp add: price_ordered_def)
  then have "mset (map f (price_ordered side ls)) = mset (map f ls)" by simp
  then show ?thesis by (metis sum_mset_sum_list)
qed

section \<open>Walking the levels\<close>

text \<open>The loop of \<open>estimate_market_order_quantity\<close>: remaining, filled quantity, filled notional, levels.\<close>

fun quantity_loop ::
  "order_book_level list \<Rightarrow> real \<Rightarrow> real \<Rightarrow> real \<Rightarrow> nat \<Rightarrow> real \<times> real \<times> real \<times> nat" where
  "quantity_loop [] rem fq fn k = (rem, fq, fn, k)"
| "quantity_loop (l # ls) rem fq fn k =
     (if rem \<le> 1 / 10 ^ 12 then (rem, fq, fn, k)
      else let t = min rem (lv_size l)
           in quantity_loop ls (rem - t) (fq + t) (fn + t * lv_price l) (k + 1))"

text \<open>The loop of \<open>estimate_market_order\<close>: remaining, filled notional, base quantity, levels.\<close>

fun notional_loop ::
  "order_book_level list \<Rightarrow> real \<Rightarrow> real \<Rightarrow> real \<Rightarrow> nat \<Rightarrow> real \<times> real \<times> real \<times> nat" where
  "notional_loop [] rem fn bq k = (rem, fn, bq, k)"
| "notional_loop (l # ls) rem fn bq k =
     (if rem \<le> 1 / 10 ^ 9 then (rem, fn, bq, k)
      else let t = min rem (lv_price l * lv_size l)
           in notional_loop ls (rem - t) (fn + t) (bq + t / lv_price l) (k + 1))"

locale taker_loop =
  fixes loop :: "'l list \<Rightarrow> real \<Rightarrow> real \<Rightarrow> real \<Rightarrow> nat \<Rightarrow> real \<times> real \<times> real \<times> nat"
    and cap :: "'l \<Rightarrow> real"
    and rate :: "'l \<Rightarrow> real"
    and eps :: real
  assumes eps_pos: "0 < eps"
    and loop_Nil: "loop [] rem f v k = (rem, f, v, k)"
    and loop_Cons: "loop (l # ls) rem f v k =
      (if rem \<le> eps then (rem, f, v, k)
       else loop ls (rem - min rem (cap l)) (f + min rem (cap l)) (v + min rem (cap l) * rate l) (k + 1))"
begin

lemma loop_shift:
  "loop ls rem (f + f0) (v + v0) (k + k0) =
     (case loop ls rem f0 v0 k0 of (r, f', v', k') \<Rightarrow> (r, f + f', v + v', k + k'))"
proof (induction ls arbitrary: rem f0 v0 k0)
  case (Cons l ls)
  have "f + f0 + t = f + (f0 + t)" "v + v0 + t * c = v + (v0 + t * c)" "k + k0 + 1 = k + (k0 + 1)"
    for t c by simp_all
  then show ?case
    by (simp only: loop_Cons Cons.IH split: if_split) simp
qed (simp add: loop_Nil)

text \<open>What remains and what is filled add up to the request.\<close>

lemma loop_conserves: "loop ls rem f v k = (r, f', v', k') \<Longrightarrow> r + f' = rem + f"
proof (induction ls arbitrary: rem f v k)
  case (Cons l ls)
  show ?case
  proof (cases "rem \<le> eps")
    case True
    then show ?thesis using Cons.prems by (simp add: loop_Cons)
  next
    case False
    then have "loop ls (rem - min rem (cap l)) (f + min rem (cap l))
        (v + min rem (cap l) * rate l) (k + 1) = (r, f', v', k')"
      using Cons.prems by (simp add: loop_Cons)
    from Cons.IH [OF this] show ?thesis by simp
  qed
qed (simp add: loop_Nil)

text \<open>With non-negative capacities nothing is taken back, and at most the depth is filled.\<close>

lemma loop_bounds:
  assumes "loop ls rem f v k = (r, f', v', k')" and "\<forall>l \<in> set ls. 0 \<le> cap l" and "0 \<le> rem"
  shows "0 \<le> r" and "f \<le> f'" and "f' - f \<le> (\<Sum>l\<leftarrow>ls. cap l)"
    and "k \<le> k'" and "k' - k \<le> length ls"
proof -
  have "0 \<le> r \<and> f \<le> f' \<and> f' - f \<le> (\<Sum>l\<leftarrow>ls. cap l) \<and> k \<le> k' \<and> k' - k \<le> length ls"
    using assms
  proof (induction ls arbitrary: rem f v k)
    case (Cons l ls)
    have sum0: "0 \<le> (\<Sum>l\<leftarrow>ls. cap l)" using Cons.prems(2) by (intro sum_list_nonneg) auto
    show ?case
    proof (cases "rem \<le> eps")
      case True
      then show ?thesis using Cons.prems sum0 by (auto simp: loop_Cons)
    next
      case False
      let ?t = "min rem (cap l)"
      have t: "0 \<le> ?t" "?t \<le> rem" "?t \<le> cap l" using Cons.prems by auto
      have "loop ls (rem - ?t) (f + ?t) (v + ?t * rate l) (k + 1) = (r, f', v', k')"
        using False Cons.prems by (simp add: loop_Cons)
      from Cons.IH [OF this] Cons.prems(2) t show ?thesis by auto
    qed
  qed (simp add: loop_Nil)
  then show "0 \<le> r" and "f \<le> f'" and "f' - f \<le> (\<Sum>l\<leftarrow>ls. cap l)"
    and "k \<le> k'" and "k' - k \<le> length ls" by auto
qed

text \<open>The walk ends with a negligible remainder, or with the whole depth taken.\<close>

lemma loop_complete:
  assumes "loop ls rem f v k = (r, f', v', k')" and "\<forall>l \<in> set ls. 0 \<le> cap l"
  shows "r \<le> eps \<or> r = rem - (\<Sum>l\<leftarrow>ls. cap l)"
  using assms
proof (induction ls arbitrary: rem f v k)
  case (Cons l ls)
  show ?case
  proof (cases "rem \<le> eps")
    case True
    then show ?thesis using Cons.prems by (simp add: loop_Cons)
  next
    case False
    let ?t = "min rem (cap l)"
    have run: "loop ls (rem - ?t) (f + ?t) (v + ?t * rate l) (k + 1) = (r, f', v', k')"
      using False Cons.prems by (simp add: loop_Cons)
    show ?thesis
    proof (cases "rem \<le> cap l")
      case True
      then have "loop ls 0 (f + ?t) (v + ?t * rate l) (k + 1) = (r, f', v', k')"
        using run by (simp add: min_def)
      then have "r = 0" using eps_pos by (cases ls) (auto simp: loop_Nil loop_Cons)
      then show ?thesis using eps_pos by simp
    next
      case False
      then have "?t = cap l" by simp
      with Cons.IH [OF run] Cons.prems(2) show ?thesis by auto
    qed
  qed
qed (simp add: loop_Nil)

text \<open>The value taken is at least the worst rate on offer times the amount taken.\<close>

lemma loop_rate_bound:
  assumes "loop ls rem f v k = (r, f', v', k')"
    and "\<forall>l \<in> set ls. 0 \<le> cap l \<and> m \<le> s * rate l" and "0 \<le> rem"
  shows "m * (f' - f) \<le> s * (v' - v)"
  using assms
proof (induction ls arbitrary: rem f v k)
  case (Cons l ls)
  show ?case
  proof (cases "rem \<le> eps")
    case True
    then show ?thesis using Cons.prems by (simp add: loop_Cons)
  next
    case False
    let ?t = "min rem (cap l)"
    have t: "0 \<le> ?t" "?t \<le> rem" using Cons.prems by auto
    have run: "loop ls (rem - ?t) (f + ?t) (v + ?t * rate l) (k + 1) = (r, f', v', k')"
      using False Cons.prems by (simp add: loop_Cons)
    have "m * (f' - (f + ?t)) \<le> s * (v' - (v + ?t * rate l))"
      using Cons.IH [OF run] Cons.prems(2) t by auto
    moreover have "m * ?t \<le> s * rate l * ?t"
      using Cons.prems(2) t by (intro mult_right_mono) auto
    ultimately show ?thesis by (simp add: algebra_simps)
  qed
qed (simp add: loop_Nil)

text \<open>
  Two orders on the same levels: the larger one fills at least as much, and the extra
  amount is filled at a rate no better than some rate the smaller one never exceeded.
\<close>

lemma loop_two_orders:
  assumes "loop ls q1 0 0 0 = (r1, f1, v1, k1)" and "loop ls q2 0 0 0 = (r2, f2, v2, k2)"
    and "0 \<le> q1" and "q1 \<le> q2" and "\<forall>l \<in> set ls. 0 \<le> cap l \<and> m \<le> s * rate l"
    and "sorted (map (\<lambda>l. s * rate l) ls)"
  shows "f1 \<le> f2 \<and> (\<exists>p \<ge> m. s * v1 \<le> p * f1 \<and> p * (f2 - f1) \<le> s * (v2 - v1))"
  using assms
proof (induction ls arbitrary: q1 q2 r1 f1 v1 k1 r2 f2 v2 k2 m)
  case Nil
  then show ?case by (auto simp: loop_Nil)
next
  case (Cons l ls)
  have caps: "\<forall>x \<in> set (l # ls). 0 \<le> cap x" using Cons.prems(5) by auto
  show ?case
  proof (cases "q1 \<le> eps")
    case True
    then have z: "f1 = 0" "v1 = 0" using Cons.prems(1) by (auto simp: loop_Cons)
    have q2: "0 \<le> q2" using Cons.prems(3,4) by simp
    have "0 \<le> f2" using loop_bounds(2) [OF Cons.prems(2) caps q2] .
    moreover have "m * f2 \<le> s * v2"
      using loop_rate_bound [OF Cons.prems(2,5) q2] by simp
    ultimately show ?thesis using z by auto
  next
    case False
    let ?t1 = "min q1 (cap l)" and ?t2 = "min q2 (cap l)" and ?m = "s * rate l"
    obtain r1' g1 w1 j1 where run1: "loop ls (q1 - ?t1) 0 0 0 = (r1', g1, w1, j1)"
      by (metis prod_cases4)
    obtain r2' g2 w2 j2 where run2: "loop ls (q2 - ?t2) 0 0 0 = (r2', g2, w2, j2)"
      by (metis prod_cases4)
    have e1: "f1 = ?t1 + g1" "v1 = ?t1 * rate l + w1"
      using Cons.prems(1) False loop_shift [of ls "q1 - ?t1" ?t1 0 "?t1 * rate l" 0 1 0] run1
      by (auto simp: loop_Cons)
    have e2: "f2 = ?t2 + g2" "v2 = ?t2 * rate l + w2"
      using Cons.prems(2,4) False loop_shift [of ls "q2 - ?t2" ?t2 0 "?t2 * rate l" 0 1 0] run2
      by (auto simp: loop_Cons)
    have tail: "\<forall>x \<in> set ls. 0 \<le> cap x \<and> ?m \<le> s * rate x" and srt: "sorted (map (\<lambda>l. s * rate l) ls)"
      using Cons.prems(5,6) by auto
    have m: "m \<le> ?m" using Cons.prems(5) by simp
    have c: "0 \<le> cap l" using caps by simp
    show ?thesis
    proof (cases "cap l \<le> q1")
      case True
      then have t: "?t1 = cap l" "?t2 = cap l" using Cons.prems(4) by auto
      have "g1 \<le> g2 \<and> (\<exists>p \<ge> ?m. s * w1 \<le> p * g1 \<and> p * (g2 - g1) \<le> s * (w2 - w1))"
        using Cons.IH [OF run1 run2 _ _ tail srt] True Cons.prems(4) t by simp
      then obtain p where p: "g1 \<le> g2" "?m \<le> p" "s * w1 \<le> p * g1" "p * (g2 - g1) \<le> s * (w2 - w1)"
        by blast
      have "?m * cap l \<le> p * cap l" using p(2) c by (rule mult_right_mono)
      then have "s * v1 \<le> p * f1" using p(3) by (simp add: e1 t algebra_simps)
      then show ?thesis using p m by (intro conjI exI [of _ p]) (simp_all add: e1 e2 t)
    next
      case False
      then have t1: "?t1 = q1" by simp
      have z: "g1 = 0" "w1 = 0" using run1 eps_pos unfolding t1
        by (cases ls; auto simp: loop_Nil loop_Cons)+
      have t2: "q1 \<le> ?t2" using Cons.prems(4) False by simp
      have q2: "0 \<le> q2 - ?t2" by simp
      have g2: "0 \<le> g2" using loop_bounds(2) [OF run2] tail q2 by blast
      have w2: "?m * g2 \<le> s * w2" using loop_rate_bound [OF run2 tail q2] by simp
      have "?m * (f2 - f1) \<le> s * (v2 - v1)"
        using w2 by (simp add: e1 e2 t1 z algebra_simps)
      moreover have "f1 \<le> f2" using t2 g2 by (simp only: e1 e2 t1 z)
      ultimately show ?thesis
        using m by (intro conjI exI [of _ ?m]) (simp_all add: e1 t1 z algebra_simps)
    qed
  qed
qed

text \<open>
  The walk is greedy: it takes from the levels in their order, the whole of every level but the
  last that it reaches, and what it takes is valued at the rate of its own level.
\<close>

lemma loop_takes:
  assumes "loop ls rem f v k = (r, f', v', k')" and "\<forall>l \<in> set ls. 0 < cap l" and "0 \<le> rem"
  shows "\<exists>ts. length ts \<le> length ls \<and> k' = k + length ts \<and> f' = f + sum_list ts
    \<and> v' = v + (\<Sum>(t, l)\<leftarrow>zip ts ls. t * rate l)
    \<and> list_all (\<lambda>(t, l). 0 < t \<and> t \<le> cap l) (zip ts ls) \<and> butlast ts = map cap (take (length ts - 1) ls)"
  using assms
proof (induction ls arbitrary: rem f v k)
  case Nil
  then show ?case by (simp add: loop_Nil)
next
  case (Cons l ls)
  show ?case
  proof (cases "rem \<le> eps")
    case True
    then show ?thesis using Cons.prems by (intro exI [of _ "[]"]) (simp add: loop_Cons)
  next
    case False
    let ?t = "min rem (cap l)"
    have pos: "0 < ?t" using False eps_pos Cons.prems(2) by simp
    have run: "loop ls (rem - ?t) (f + ?t) (v + ?t * rate l) (k + 1) = (r, f', v', k')"
      using False Cons.prems by (simp add: loop_Cons)
    show ?thesis
    proof (cases "rem \<le> cap l")
      case True
      then have "loop ls 0 (f + ?t) (v + ?t * rate l) (k + 1) = (r, f', v', k')" using run by (simp add: min_def)
      then have "f' = f + ?t \<and> v' = v + ?t * rate l \<and> k' = k + 1"
        using eps_pos by (cases ls) (auto simp: loop_Nil loop_Cons)
      then show ?thesis using pos by (intro exI [of _ "[?t]"]) simp
    next
      case False
      then have t: "?t = cap l" by simp
      obtain ts where ts: "length ts \<le> length ls" "k' = k + 1 + length ts" "f' = f + ?t + sum_list ts"
          "v' = v + ?t * rate l + (\<Sum>(t, l)\<leftarrow>zip ts ls. t * rate l)"
          "list_all (\<lambda>(t, l). 0 < t \<and> t \<le> cap l) (zip ts ls)" "butlast ts = map cap (take (length ts - 1) ls)"
        using Cons.IH [OF run] Cons.prems(2) by auto
      have "butlast (?t # ts) = map cap (take (length (?t # ts) - 1) (l # ls))"
        using ts(6) t by (cases ts) simp_all
      then show ?thesis using ts pos by (intro exI [of _ "?t # ts"]) (simp add: add.assoc)
    qed
  qed
qed

text \<open>Something is filled only at a level.\<close>

lemma loop_levels_pos:
  assumes "loop ls rem f v k = (r, f', v', k')" and "f < f'" and "\<forall>l \<in> set ls. 0 \<le> cap l" and "0 \<le> rem"
  shows "k < k'"
proof (cases ls)
  case Nil
  then show ?thesis using assms by (simp add: loop_Nil)
next
  case (Cons l ls')
  show ?thesis
  proof (cases "rem \<le> eps")
    case True
    then show ?thesis using assms Cons by (simp add: loop_Cons)
  next
    case False
    then have run: "loop ls' (rem - min rem (cap l)) (f + min rem (cap l))
        (v + min rem (cap l) * rate l) (k + 1) = (r, f', v', k')"
      using assms(1) Cons by (simp add: loop_Cons)
    have "k + 1 \<le> k'"
      by (rule loop_bounds(4) [OF run]) (use assms(3) Cons in auto)
    then show ?thesis by simp
  qed
qed

text \<open>Hence the average rate is monotone in the size of the order.\<close>

lemma average_monotone:
  assumes "loop ls q1 0 0 0 = (r1, f1, v1, k1)" and "loop ls q2 0 0 0 = (r2, f2, v2, k2)"
    and "0 \<le> q1" and "q1 \<le> q2" and "\<forall>l \<in> set ls. 0 \<le> cap l"
    and "sorted (map (\<lambda>l. s * rate l) ls)" and "0 < f1"
  shows "s * (v1 / f1) \<le> s * (v2 / f2)" and "f1 \<le> f2"
proof -
  let ?m = "Min (insert 0 ((\<lambda>l. s * rate l) ` set ls))"
  have "?m \<le> s * rate l" if "l \<in> set ls" for l using that by (intro Min_le) auto
  then have "\<forall>l \<in> set ls. 0 \<le> cap l \<and> ?m \<le> s * rate l" using assms(5) by blast
  from loop_two_orders [OF assms(1-4) this assms(6)]
  obtain p where p: "f1 \<le> f2" "s * v1 \<le> p * f1" "p * (f2 - f1) \<le> s * (v2 - v1)" by blast
  have f2: "0 < f2" using p(1) assms(7) by simp
  have "s * v1 * (f2 - f1) \<le> p * f1 * (f2 - f1)"
    using p(1,2) by (intro mult_right_mono) simp_all
  moreover have "p * (f2 - f1) * f1 \<le> s * (v2 - v1) * f1"
    using p(3) assms(7) by (intro mult_right_mono) simp_all
  ultimately have "s * v1 * f2 \<le> s * v2 * f1" by (simp add: algebra_simps)
  then show "s * (v1 / f1) \<le> s * (v2 / f2)"
    using assms(7) f2 by (simp add: field_simps)
  show "f1 \<le> f2" by (rule p(1))
qed

end

interpretation ql: taker_loop quantity_loop lv_size lv_price "1 / 10 ^ 12"
  by unfold_locales (simp_all add: Let_def)

interpretation nl: taker_loop notional_loop "\<lambda>l. lv_price l * lv_size l" "\<lambda>l. 1 / lv_price l" "1 / 10 ^ 9"
  by unfold_locales (simp_all add: Let_def)

section \<open>Fill estimates\<close>

record quantity_estimate =
  qe_side :: trade_side
  qe_requested_base_quantity :: real
  qe_filled_base_quantity :: real
  qe_filled_notional_usd :: real
  qe_average_price :: real
  qe_best_price :: real
  qe_slippage_bps :: real
  qe_levels_consumed :: nat

record execution_estimate =
  ee_side :: trade_side
  ee_requested_notional_usd :: real
  ee_filled_notional_usd :: real
  ee_base_quantity :: real
  ee_average_price :: real
  ee_best_price :: real
  ee_slippage_bps :: real
  ee_levels_consumed :: nat

text \<open>The adverse move from the best to the average price, in basis points, before clamping.\<close>

definition raw_slippage :: "trade_side \<Rightarrow> real \<Rightarrow> real" where
  "raw_slippage side ratio = (if side = BUY then (ratio - 1) * 10000 else (1 - ratio) * 10000)"

definition estimate_market_order_quantity ::
  "order_book_snapshot \<Rightarrow> trade_side \<Rightarrow> real \<Rightarrow> bool \<Rightarrow> quantity_estimate result" where
  "estimate_market_order_quantity b side base_quantity require_full_fill =
     (if base_quantity \<le> 0 then Inl (ValueError ''base_quantity must be positive'') else
      rbind (ordered_levels b side) (\<lambda>ordered.
      let best = lv_price (hd ordered) in
      case quantity_loop ordered base_quantity 0 0 0 of (remaining, filled_q, filled_n, k) \<Rightarrow>
        if require_full_fill \<and> remaining > max (1 / 10 ^ 12) (base_quantity * (1 / 10 ^ 9))
        then Inl (InsufficientDepthError (''visible depth filled '' @ fmt_g 12 filled_q
               @ '' of requested '' @ fmt_g 12 base_quantity @ '' base units''))
        else if filled_q \<le> 0 then Inl (InsufficientDepthError ''no quantity could be filled'')
        else let average = filled_n / filled_q in
          rbind (py_div average best) (\<lambda>ratio. Inr \<lparr>
            qe_side = side,
            qe_requested_base_quantity = base_quantity,
            qe_filled_base_quantity = filled_q,
            qe_filled_notional_usd = filled_n,
            qe_average_price = average,
            qe_best_price = best,
            qe_slippage_bps = max 0 (raw_slippage side ratio),
            qe_levels_consumed = k\<rparr>)))"

definition estimate_market_order ::
  "order_book_snapshot \<Rightarrow> trade_side \<Rightarrow> real \<Rightarrow> bool \<Rightarrow> execution_estimate result" where
  "estimate_market_order b side notional require_full_fill =
     (if notional \<le> 0 then Inl (ValueError ''notional_usd must be positive'') else
      rbind (ordered_levels b side) (\<lambda>ordered.
      let best = lv_price (hd ordered) in
      case notional_loop ordered notional 0 0 0 of (remaining, filled_n, base_q, k) \<Rightarrow>
        if require_full_fill \<and> remaining > max (1 / 10 ^ 6) (notional * (1 / 10 ^ 9))
        then Inl (InsufficientDepthError (''visible depth filled $'' @ fmt_fixed 2 filled_n
               @ '' of requested $'' @ fmt_fixed 2 notional))
        else if base_q \<le> 0 then Inl (InsufficientDepthError ''no quantity could be filled'')
        else let average = filled_n / base_q in
          rbind (py_div average best) (\<lambda>ratio. Inr \<lparr>
            ee_side = side,
            ee_requested_notional_usd = notional,
            ee_filled_notional_usd = filled_n,
            ee_base_quantity = base_q,
            ee_average_price = average,
            ee_best_price = best,
            ee_slippage_bps = max 0 (raw_slippage side ratio),
            ee_levels_consumed = k\<rparr>)))"

lemma raw_slippage_mono:
  "(if side = BUY then 1 else -1) * a \<le> (if side = BUY then 1 else -1) * b
     \<Longrightarrow> raw_slippage side a \<le> raw_slippage side b"
  by (auto simp: raw_slippage_def split: if_splits)

lemma raw_slippage_nonneg:
  assumes "0 < best" and "(if side = BUY then 1 else -1) * best \<le> (if side = BUY then 1 else -1) * avg"
  shows "0 \<le> raw_slippage side (avg / best)"
  using assms by (auto simp: raw_slippage_def le_divide_eq divide_le_eq split: if_splits)

section \<open>Facts about a side of a book with valid levels\<close>

definition valid_side :: "order_book_level list \<Rightarrow> bool" where
  "valid_side ls \<longleftrightarrow> ls \<noteq> [] \<and> list_all valid_level ls"

lemma valid_book_side: "valid_book b \<Longrightarrow> valid_side (book_levels b side)"
  using valid_bookD(1,2) [of b]
  by (auto simp: valid_side_def book_levels_def valid_book_def)

lemma valid_sideD:
  assumes "valid_side ls" and "l \<in> set ls"
  shows "0 < lv_price l" and "0 < lv_size l"
  using assms by (auto simp: valid_side_def list_all_iff valid_level_def)

lemma sign_ordered:
  "sorted (map (\<lambda>l. (if side = BUY then 1 else -1) * lv_price l) (price_ordered side ls))"
proof (cases side)
  case BUY
  then show ?thesis by (simp add: price_ordered_def)
next
  case SELL
  have "sorted_wrt (\<lambda>a b. lv_price b \<le> lv_price a) (sort_desc lv_price ls)"
    by (rule sort_desc_sorted)
  then show ?thesis using SELL by (simp add: price_ordered_def sorted_map sorted_wrt_map)
qed

text \<open>The head of the ordered side is the best price: the least ask or the greatest bid.\<close>

lemma best_price_extremal:
  assumes "ls \<noteq> []" and "l \<in> set ls"
  shows "(if side = BUY then 1 else -1) * lv_price (hd (price_ordered side ls))
           \<le> (if side = BUY then 1 else -1) * lv_price l"
proof -
  have l: "l \<in> set (price_ordered side ls)" using assms(2) by simp
  then obtain x xs where x: "price_ordered side ls = x # xs" by (cases "price_ordered side ls") auto
  have "sorted (map (\<lambda>l. (if side = BUY then 1 else -1) * lv_price l) (x # xs))"
    using sign_ordered [of side ls] by (simp only: x)
  then show ?thesis using l unfolding x by auto
qed

lemma best_price_eq:
  assumes "ls \<noteq> []"
  shows "lv_price (hd (price_ordered BUY ls)) = Min (lv_price ` set ls)"
    and "lv_price (hd (price_ordered SELL ls)) = Max (lv_price ` set ls)"
proof -
  have hd: "hd (price_ordered side ls) \<in> set ls" for side
    using assms by (rule hd_price_ordered)
  show "lv_price (hd (price_ordered BUY ls)) = Min (lv_price ` set ls)"
    by (rule Min_eqI [symmetric]) (use best_price_extremal [OF assms, of _ BUY] hd in auto)
  show "lv_price (hd (price_ordered SELL ls)) = Max (lv_price ` set ls)"
    by (rule Max_eqI [symmetric]) (use best_price_extremal [OF assms, of _ SELL] hd in auto)
qed

section \<open>What a fill estimate promises\<close>

abbreviation ordered_side :: "order_book_snapshot \<Rightarrow> trade_side \<Rightarrow> order_book_level list" where
  "ordered_side b side \<equiv> price_ordered side (book_levels b side)"

lemma quantity_estimateE:
  assumes "estimate_market_order_quantity b side q full = Inr e"
  obtains r f v k where "quantity_loop (ordered_side b side) q 0 0 0 = (r, f, v, k)"
    and "0 < q" and "0 < f" and "full \<Longrightarrow> r \<le> max (1 / 10 ^ 12) (q * (1 / 10 ^ 9))"
    and "e = \<lparr>qe_side = side, qe_requested_base_quantity = q, qe_filled_base_quantity = f,
           qe_filled_notional_usd = v, qe_average_price = v / f,
           qe_best_price = lv_price (hd (ordered_side b side)),
           qe_slippage_bps = max 0 (raw_slippage side (v / f / lv_price (hd (ordered_side b side)))),
           qe_levels_consumed = k\<rparr>"
  using assms that
  by (auto simp: estimate_market_order_quantity_def ordered_levels_def Let_def
      split: if_splits prod.splits)

text \<open>A request inside the visible depth, above the walk's resolution, is filled.\<close>

lemma quantity_estimate_exists:
  assumes v: "valid_side (book_levels b side)" and q: "1 / 10 ^ 12 < q"
    and depth: "q \<le> max_executable_quantity b side + 1 / 10 ^ 12"
  shows "\<exists>e. estimate_market_order_quantity b side q True = Inr e"
proof -
  let ?ls = "ordered_side b side"
  obtain r f w k where run: "quantity_loop ?ls q 0 0 0 = (r, f, w, k)" by (metis prod_cases4)
  have caps: "\<forall>l \<in> set ?ls. 0 \<le> lv_size l"
    using valid_sideD [OF v] by (auto intro: less_imp_le)
  have sum: "(\<Sum>l\<leftarrow>?ls. lv_size l) = max_executable_quantity b side"
    by (simp add: max_executable_quantity_def)
  have r: "r \<le> 1 / 10 ^ 12"
    using ql.loop_complete [OF run caps] sum depth by auto
  have cons: "r + f = q" using ql.loop_conserves [OF run] by simp
  have f: "0 < f" using cons r q by linarith
  have ne: "book_levels b side \<noteq> []" using v by (simp add: valid_side_def)
  then have "hd ?ls \<in> set (book_levels b side)" by (rule hd_price_ordered)
  then have best: "lv_price (hd ?ls) \<noteq> 0" using valid_sideD(1) [OF v] by force
  have nr: "\<not> max (1 / 10 ^ 12) (q * (1 / 10 ^ 9)) < r" using r by (simp add: max_def)
  have q0: "0 < q" using q by (rule less_trans [rotated]) simp
  show ?thesis
    using run q0 f ne best nr
    by (simp add: estimate_market_order_quantity_def ordered_levels_def Let_def py_simps)
qed

text \<open>
  On valid levels the estimate fills the request up to the tolerance, consumes at least one
  level, and its slippage is the true adverse move: the average is never better than the best.
\<close>

lemma quantity_estimate_sound:
  assumes e: "estimate_market_order_quantity b side q full = Inr e"
    and v: "valid_side (book_levels b side)"
  shows "0 < qe_filled_base_quantity e" and "qe_filled_base_quantity e \<le> q"
    and "full \<Longrightarrow> q - qe_filled_base_quantity e \<le> max (1 / 10 ^ 12) (q * (1 / 10 ^ 9))"
    and "qe_filled_base_quantity e \<le> max_executable_quantity b side"
    and "qe_filled_notional_usd e = qe_average_price e * qe_filled_base_quantity e"
    and "0 < qe_best_price e" and "0 < qe_average_price e"
    and "(if side = BUY then 1 else -1) * qe_best_price e
           \<le> (if side = BUY then 1 else -1) * qe_average_price e"
    and "qe_slippage_bps e = raw_slippage side (qe_average_price e / qe_best_price e)"
    and "1 \<le> qe_levels_consumed e"
    and "qe_levels_consumed e \<le> length (book_levels b side)"
proof -
  let ?ls = "ordered_side b side" and ?s = "if side = BUY then 1 else - 1 :: real"
  let ?best = "lv_price (hd ?ls)"
  obtain r f w k where run: "quantity_loop ?ls q 0 0 0 = (r, f, w, k)" and q: "0 < q" and f: "0 < f"
    and full: "full \<Longrightarrow> r \<le> max (1 / 10 ^ 12) (q * (1 / 10 ^ 9))"
    and fields: "e = \<lparr>qe_side = side, qe_requested_base_quantity = q, qe_filled_base_quantity = f,
           qe_filled_notional_usd = w, qe_average_price = w / f, qe_best_price = ?best,
           qe_slippage_bps = max 0 (raw_slippage side (w / f / ?best)),
           qe_levels_consumed = k\<rparr>"
    using quantity_estimateE [OF e] by blast
  have ne: "book_levels b side \<noteq> []" using v by (simp add: valid_side_def)
  have pos: "0 < lv_price l \<and> 0 < lv_size l" if "l \<in> set ?ls" for l
    using valid_sideD [OF v] that by simp
  have caps: "\<forall>l \<in> set ?ls. 0 \<le> lv_size l" using pos by (auto intro: less_imp_le)
  have hd: "hd ?ls \<in> set ?ls" using hd_price_ordered [OF ne] by simp
  have best: "0 < ?best" using pos [OF hd] by simp
  have q0: "0 \<le> q" using q by simp
  note bounds = ql.loop_bounds [OF run caps q0]
  have cons: "r + f = q" using ql.loop_conserves [OF run] by simp
  have worst: "\<forall>l \<in> set ?ls. 0 \<le> lv_size l \<and> ?s * ?best \<le> ?s * lv_price l"
    using caps best_price_extremal [OF ne] by auto
  have adverse: "?s * ?best * f \<le> ?s * w"
    using ql.loop_rate_bound [OF run worst q0] by (simp add: mult.assoc)
  have "0 < Min (lv_price ` set ?ls)" using pos hd by (subst Min_gr_iff) auto
  moreover have "Min (lv_price ` set ?ls) * f \<le> 1 * w"
    using ql.loop_rate_bound [OF run, of "Min (lv_price ` set ?ls)" 1] caps q0 by simp
  ultimately have w: "0 < w" using f by (smt (verit) mult_pos_pos)
  show "0 < qe_filled_base_quantity e" using f fields by simp
  show "qe_filled_base_quantity e \<le> q" using cons bounds(1) fields by simp
  show "full \<Longrightarrow> q - qe_filled_base_quantity e \<le> max (1 / 10 ^ 12) (q * (1 / 10 ^ 9))"
    using cons full fields by simp
  show "qe_filled_base_quantity e \<le> max_executable_quantity b side"
    using bounds(3) fields by (simp add: max_executable_quantity_def)
  show "qe_filled_notional_usd e = qe_average_price e * qe_filled_base_quantity e"
    using f fields by simp
  show "0 < qe_best_price e" using best fields by simp
  show "0 < qe_average_price e" using f w fields by simp
  show adv: "?s * qe_best_price e \<le> ?s * qe_average_price e"
    using adverse f fields by (simp add: field_simps split: if_splits)
  show "qe_slippage_bps e = raw_slippage side (qe_average_price e / qe_best_price e)"
    using raw_slippage_nonneg [OF _ adv] best unfolding fields quantity_estimate.select_convs
    by (intro max_absorb2) blast
  show "qe_levels_consumed e \<le> length (book_levels b side)"
    using bounds(5) fields by simp
  have "0 < k" using ql.loop_levels_pos [OF run f caps q0] .
  then show "1 \<le> qe_levels_consumed e" using fields by simp
qed

text \<open>The filled quantity and its notional are those of the greedy walk over the sorted levels.\<close>

lemma quantity_estimate_takes:
  assumes e: "estimate_market_order_quantity b side q full = Inr e" and v: "valid_side (book_levels b side)"
  shows "\<exists>ts. length ts = qe_levels_consumed e \<and> length ts \<le> length (ordered_side b side)
    \<and> list_all (\<lambda>(t, l). 0 < t \<and> t \<le> lv_size l) (zip ts (ordered_side b side))
    \<and> butlast ts = map lv_size (take (length ts - 1) (ordered_side b side))
    \<and> qe_filled_base_quantity e = sum_list ts
    \<and> qe_average_price e * qe_filled_base_quantity e = (\<Sum>(t, l)\<leftarrow>zip ts (ordered_side b side). t * lv_price l)"
proof -
  obtain r f w k where run: "quantity_loop (ordered_side b side) q 0 0 0 = (r, f, w, k)" and q: "0 < q" and f: "0 < f"
    and fields: "e = \<lparr>qe_side = side, qe_requested_base_quantity = q, qe_filled_base_quantity = f,
           qe_filled_notional_usd = w, qe_average_price = w / f, qe_best_price = lv_price (hd (ordered_side b side)),
           qe_slippage_bps = max 0 (raw_slippage side (w / f / lv_price (hd (ordered_side b side)))),
           qe_levels_consumed = k\<rparr>"
    by (rule quantity_estimateE [OF e]) (rule that, assumption+)
  have "\<forall>l \<in> set (ordered_side b side). 0 < lv_size l" using valid_sideD(2) [OF v] by simp
  from ql.loop_takes [OF run this less_imp_le [OF q]] obtain ts where
    "length ts \<le> length (ordered_side b side)" "k = 0 + length ts" "f = 0 + sum_list ts"
    "w = 0 + (\<Sum>(t, l)\<leftarrow>zip ts (ordered_side b side). t * lv_price l)"
    "list_all (\<lambda>(t, l). 0 < t \<and> t \<le> lv_size l) (zip ts (ordered_side b side))"
    "butlast ts = map lv_size (take (length ts - 1) (ordered_side b side))" by blast
  moreover have "w / f * f = w" using f by simp
  ultimately show ?thesis unfolding fields quantity_estimate.select_convs
    by (intro exI [of _ ts] conjI) (simp_all only: add_0)
qed

lemma quantity_estimate_slippage:
  assumes "estimate_market_order_quantity b side q full = Inr e"
  obtains r f w k where "quantity_loop (ordered_side b side) q 0 0 0 = (r, f, w, k)"
    and "0 < q" and "0 < f"
    and "qe_slippage_bps e = max 0 (raw_slippage side (w / f / lv_price (hd (ordered_side b side))))"
  by (rule quantity_estimateE [OF assms]) (rule that, assumption+, simp only: quantity_estimate.select_convs)

text \<open>A larger order never has less slippage.\<close>

lemma slippage_monotone:
  assumes e1: "estimate_market_order_quantity b side q1 full1 = Inr e1"
    and e2: "estimate_market_order_quantity b side q2 full2 = Inr e2"
    and v: "valid_side (book_levels b side)" and le: "q1 \<le> q2"
  shows "qe_slippage_bps e1 \<le> qe_slippage_bps e2"
proof -
  let ?ls = "ordered_side b side" and ?s = "if side = BUY then 1 else - 1 :: real"
  let ?best = "lv_price (hd ?ls)"
  obtain r1 f1 w1 k1 where run1: "quantity_loop ?ls q1 0 0 0 = (r1, f1, w1, k1)" "0 < q1" "0 < f1"
    "qe_slippage_bps e1 = max 0 (raw_slippage side (w1 / f1 / ?best))"
    by (rule quantity_estimate_slippage [OF e1])
  obtain r2 f2 w2 k2 where run2: "quantity_loop ?ls q2 0 0 0 = (r2, f2, w2, k2)"
    "qe_slippage_bps e2 = max 0 (raw_slippage side (w2 / f2 / ?best))"
    by (rule quantity_estimate_slippage [OF e2])
  have caps: "\<forall>l \<in> set ?ls. 0 \<le> lv_size l"
    using valid_sideD [OF v] by (auto intro: less_imp_le)
  have best: "0 < ?best"
    using valid_sideD(1) [OF v] hd_price_ordered v by (simp add: valid_side_def)
  have avg: "?s * (w1 / f1) \<le> ?s * (w2 / f2)"
    using ql.average_monotone(1) [OF run1(1) run2(1) _ le caps sign_ordered run1(3)] run1(2) by simp
  have "?s * (w1 / f1) / ?best \<le> ?s * (w2 / f2) / ?best"
    using avg best by (intro divide_right_mono) simp_all
  then have "raw_slippage side (w1 / f1 / ?best) \<le> raw_slippage side (w2 / f2 / ?best)"
    by (intro raw_slippage_mono) (simp only: times_divide_eq_right)
  then show ?thesis using run1(4) run2(2) by (auto simp: max_def)
qed

end
