(* ===== verification/Qualification.thy ===== *)
theory Qualification
  imports Execution
begin

text \<open>
  \<open>qualify_opportunity\<close> of execution.py: the guards on a two-legged opportunity and its
  books, the evaluation of one capital size against fees, depth, slippage and the return
  hurdle, and the bisection for the largest size that still qualifies.  The closure
  \<open>evaluate\<close> of the code reads local variables of the caller; they are the fields of the
  record \<open>sizing\<close>.
\<close>

section \<open>Keys and rejections\<close>

definition trade_side_of :: "side \<Rightarrow> trade_side" where
  "trade_side_of s = (if s = LONG then BUY else SELL)"

type_synonym book_index = "string \<times> string \<times> string"

definition book_key :: "order_book_snapshot \<Rightarrow> book_index" where
  "book_key b = (ob_venue b, ob_asset b, market_kind_value (ob_market_kind b))"

definition leg_key :: "opportunity_leg \<Rightarrow> book_index" where
  "leg_key l = (lg_venue l, lg_asset l, market_kind_value (lg_market_kind l))"

text \<open>The defaults of the tier model, around the fields every construction site gives.\<close>

definition blank_tier :: "opportunity \<Rightarrow> real \<Rightarrow> capital_tier" where
  "blank_tier opp notional = \<lparr>
     ct_opportunity_id = op_id opp, ct_notional_usd_per_leg = notional,
     ct_target_base_quantity = None, ct_executable = False, ct_passes_return_hurdle = False,
     ct_gross_edge_bps_per_hour = op_gross_edge_bps_per_hour opp,
     ct_static_modeled_cost_bps = op_modeled_cost_bps opp,
     ct_venue_roundtrip_fee_bps = 0, ct_financing_cost_bps = 0,
     ct_collateral_opportunity_cost_bps = 0, ct_latency_risk_bps = 0,
     ct_latency_model_source = Fixed_latency, ct_latency_model_scope = ''fixed'',
     ct_latency_scope_fallbacks = [], ct_latency_reference_ms = None,
     ct_collector_latency_reference_ms = None, ct_execution_latency_empirical = False,
     ct_latency_sample_count = 0, ct_latency_effective_sample_size = 0,
     ct_latency_confidence_gate_passed = False, ct_empirical_pair_fill_probability = None,
     ct_empirical_pair_fill_ci_lower = None, ct_empirical_reserve_fill_probability = None,
     ct_empirical_capture_probability = None, ct_empirical_capture_ci_lower = None,
     ct_empirical_hedge_recovery_probability = None,
     ct_empirical_partial_fill_probability = None, ct_empirical_unhedged_fraction_p95 = None,
     ct_empirical_hedge_recovery_loss_p95_bps = None,
     ct_fill_model_kind = ''visible_l2_taker_reconstruction'',
     ct_queue_position_supported = False, ct_hedge_recovery_buffer_bps = 0,
     ct_hedge_recovery_buffer_source = Fixed_buffer, ct_capital_required_usd = 0,
     ct_capital_multiple = 0, ct_observed_entry_slippage_bps = 0,
     ct_assumed_exit_slippage_bps = 0, ct_total_modeled_cost_bps = op_modeled_cost_bps opp,
     ct_net_edge_bps_per_hour = 0, ct_net_annualized_return = Fin 0,
     ct_leg_notional_net_annualized_return = 0, ct_leg_estimates = [],
     ct_rejection_reason = None\<rparr>"

definition rejected_tier :: "opportunity \<Rightarrow> real \<Rightarrow> string \<Rightarrow> capital_tier result" where
  "rejected_tier opp notional reason =
     (if notional \<le> 0 then Inl (ValidationError ''CapitalTierQualification'')
      else Inr ((blank_tier opp notional)\<lparr>ct_rejection_reason := Some reason\<rparr>))"

section \<open>Evaluating one size\<close>

record sizing =
  sz_opportunity :: opportunity
  sz_settings :: settings
  sz_leg_books :: "order_book_snapshot list"
  sz_reference :: real
  sz_reserve_ratio :: real
  sz_worst_book_age :: real
  sz_latency_model :: "empirical_latency_model option"
  sz_resolver :: "(opportunity \<Rightarrow> real \<Rightarrow> empirical_latency_model) option"

definition sz_pairs :: "sizing \<Rightarrow> (opportunity_leg \<times> order_book_snapshot) list" where
  "sz_pairs z = zip (op_legs (sz_opportunity z)) (sz_leg_books z)"

definition pair_depth :: "opportunity_leg \<times> order_book_snapshot \<Rightarrow> real" where
  "pair_depth p = max_executable_quantity (snd p) (trade_side_of (lg_side (fst p)))"

definition effective_latency_model :: "sizing \<Rightarrow> real \<Rightarrow> empirical_latency_model option" where
  "effective_latency_model z notional =
     (case sz_resolver z of Some r \<Rightarrow> Some (r (sz_opportunity z) notional)
      | None \<Rightarrow> sz_latency_model z)"

definition leg_estimate_of ::
  "opportunity_leg \<Rightarrow> real \<Rightarrow> quantity_estimate \<Rightarrow> leg_execution_estimate" where
  "leg_estimate_of leg target e = \<lparr>
     le_venue = lg_venue leg, le_asset = lg_asset leg, le_market_kind = lg_market_kind leg,
     le_trade_side = trade_side_of (lg_side leg), le_symbol = None, le_contract_key = None,
     le_requested_base_quantity = target, le_filled_base_quantity = qe_filled_base_quantity e,
     le_filled_notional_usd = qe_filled_notional_usd e,
     le_average_price = qe_average_price e, le_best_price = qe_best_price e,
     le_slippage_bps = qe_slippage_bps e, le_levels_consumed = qe_levels_consumed e\<rparr>"

text \<open>The loop over the legs keeps the estimates made before an exception.\<close>

fun estimate_legs ::
  "(opportunity_leg \<times> order_book_snapshot) list \<Rightarrow> real \<Rightarrow> leg_execution_estimate list
     \<Rightarrow> leg_execution_estimate list \<times> py_error option" where
  "estimate_legs [] target acc = (acc, None)"
| "estimate_legs ((leg, book) # ps) target acc =
     (case estimate_market_order_quantity book (trade_side_of (lg_side leg)) target True of
        Inl e \<Rightarrow> (acc, Some e)
      | Inr q \<Rightarrow> let le = leg_estimate_of leg target q
                in if valid_leg_estimate le then estimate_legs ps target (acc @ [le])
                   else (acc, Some (ValidationError ''LegExecutionEstimate'')))"

definition priced_tier ::
  "sizing \<Rightarrow> real \<Rightarrow> real \<Rightarrow> cost_breakdown \<Rightarrow> leg_execution_estimate list \<Rightarrow> capital_tier result" where
  "priced_tier z notional target costs les =
     (let opp = sz_opportunity z; s = sz_settings z;
          entry = (\<Sum>e\<leftarrow>les. le_slippage_bps e);
          exit_slip = entry * se_exit_slippage_multiplier s;
          total_cost = cb_total_non_slippage_cost_bps costs + entry + exit_slip;
          total_gross = op_gross_edge_bps_per_hour opp * op_holding_hours opp;
          total_safety = op_safety_buffer_bps_per_hour opp * op_holding_hours opp;
          net_total = total_gross - total_cost - total_safety
      in rbind (py_div net_total (op_holding_hours opp)) (\<lambda>net_hourly.
         let leg_annual = (net_hourly / 10000) * 24 * 365;
             adjusted = (if cb_capital_multiple costs > 0
                         then Fin (leg_annual / cb_capital_multiple costs) else MInf);
             passes = (net_hourly > 0 \<and> adjusted \<ge> Fin (se_min_net_annualized_return s))
         in Inr ((blank_tier opp notional)\<lparr>
           ct_target_base_quantity := Some target,
           ct_executable := True,
           ct_passes_return_hurdle := passes,
           ct_venue_roundtrip_fee_bps := cb_venue_roundtrip_fee_bps costs,
           ct_financing_cost_bps := cb_financing_cost_bps costs,
           ct_collateral_opportunity_cost_bps := cb_collateral_opportunity_cost_bps costs,
           ct_latency_risk_bps := cb_latency_risk_bps costs,
           ct_latency_model_source := cb_latency_model_source costs,
           ct_latency_model_scope := cb_latency_model_scope costs,
           ct_latency_scope_fallbacks := cb_latency_scope_fallbacks costs,
           ct_latency_reference_ms := cb_latency_reference_ms costs,
           ct_collector_latency_reference_ms := cb_collector_latency_reference_ms costs,
           ct_execution_latency_empirical := cb_execution_latency_empirical costs,
           ct_latency_sample_count := cb_latency_sample_count costs,
           ct_latency_effective_sample_size := cb_latency_effective_sample_size costs,
           ct_latency_confidence_gate_passed := cb_latency_confidence_gate_passed costs,
           ct_empirical_pair_fill_probability := cb_empirical_pair_fill_probability costs,
           ct_empirical_pair_fill_ci_lower := cb_empirical_pair_fill_ci_lower costs,
           ct_empirical_reserve_fill_probability := cb_empirical_reserve_fill_probability costs,
           ct_empirical_capture_probability := cb_empirical_capture_probability costs,
           ct_empirical_capture_ci_lower := cb_empirical_capture_ci_lower costs,
           ct_empirical_hedge_recovery_probability :=
             cb_empirical_hedge_recovery_probability costs,
           ct_empirical_partial_fill_probability := cb_empirical_partial_fill_probability costs,
           ct_empirical_unhedged_fraction_p95 := cb_empirical_unhedged_fraction_p95 costs,
           ct_empirical_hedge_recovery_loss_p95_bps :=
             cb_empirical_hedge_recovery_loss_p95_bps costs,
           ct_fill_model_kind := cb_fill_model_kind costs,
           ct_queue_position_supported := cb_queue_position_supported costs,
           ct_hedge_recovery_buffer_bps := cb_hedge_recovery_buffer_bps costs,
           ct_hedge_recovery_buffer_source := cb_hedge_recovery_buffer_source costs,
           ct_capital_required_usd := cb_capital_required_usd costs,
           ct_capital_multiple := cb_capital_multiple costs,
           ct_observed_entry_slippage_bps := entry,
           ct_assumed_exit_slippage_bps := exit_slip,
           ct_total_modeled_cost_bps := total_cost,
           ct_net_edge_bps_per_hour := net_hourly,
           ct_net_annualized_return := adjusted,
           ct_leg_notional_net_annualized_return := leg_annual,
           ct_leg_estimates := les,
           ct_rejection_reason := (if passes then None else Some
             ''capital-adjusted net return falls below hurdle after fees, risk, and slippage'')\<rparr>)))"

definition evaluate :: "sizing \<Rightarrow> real \<Rightarrow> capital_tier result" where
  "evaluate z notional =
     rbind (py_div notional (sz_reference z)) (\<lambda>target.
     let opp = sz_opportunity z;
         reject = (\<lambda>reason les. rbind (rejected_tier opp notional reason)
           (\<lambda>t. Inr (t\<lparr>ct_target_base_quantity := Some target, ct_leg_estimates := les\<rparr>)))
     in if \<exists>p \<in> set (sz_pairs z). pair_depth p + 1 / 10 ^ 12 < target * sz_reserve_ratio z
        then reject (''visible depth does not preserve '' @ fmt_fixed 2 (sz_reserve_ratio z)
                     @ ''x hedge liquidity reserve'') []
        else case economic_costs opp notional (sz_settings z) (sz_worst_book_age z)
                    (effective_latency_model z notional) of
          Inl (UnknownVenueFeeError m) \<Rightarrow> reject m []
        | Inl (BorrowCostUnavailableError m) \<Rightarrow> reject m []
        | Inl e \<Rightarrow> Inl e
        | Inr costs \<Rightarrow>
            (case estimate_legs (sz_pairs z) target [] of
               (les, Some (InsufficientDepthError m)) \<Rightarrow> reject m les
             | (les, Some e) \<Rightarrow> Inl e
             | (les, None) \<Rightarrow> priced_tier z notional target costs les))"

section \<open>The capacity search\<close>

text \<open>The loop \<open>for _ in range(64)\<close>; the upper end is returned for the statements below.\<close>

fun bisect ::
  "(real \<Rightarrow> capital_tier result) \<Rightarrow> real \<Rightarrow> nat \<Rightarrow> real \<Rightarrow> real \<Rightarrow> capital_tier
     \<Rightarrow> (real \<times> real \<times> capital_tier) result" where
  "bisect ev tol 0 low high best = Inr (low, high, best)"
| "bisect ev tol (Suc n) low high best =
     (if high - low \<le> tol then Inr (low, high, best)
      else let mid = (low + high) / 2 in
        rbind (ev mid) (\<lambda>c. if tier_qualified c then bisect ev tol n mid high c
                            else bisect ev tol n low mid best))"

definition capacity_search ::
  "(real \<Rightarrow> capital_tier result) \<Rightarrow> real \<Rightarrow> real \<Rightarrow> (real \<times> xreal option) result" where
  "capacity_search ev tol ceil =
     (if ceil > 0
      then rbind (ev ceil) (\<lambda>u.
        if tier_qualified u then Inr (ceil, Some (ct_net_annualized_return u))
        else let probe = min tol ceil in
          rbind (ev probe) (\<lambda>p.
            if tier_qualified p
            then rbind (bisect ev tol 64 probe ceil p)
                   (\<lambda>(low, high, best). Inr (low, Some (ct_net_annualized_return best)))
            else Inr (0, None)))
      else Inr (0, None))"

section \<open>Qualifying an opportunity\<close>

definition executability_of ::
  "opportunity \<Rightarrow> time \<Rightarrow> capital_tier list \<Rightarrow> opportunity_executability" where
  "executability_of opp now tiers = \<lparr>
     ox_opportunity_id = op_id opp, ox_strategy = op_strategy opp, ox_asset = op_asset opp,
     ox_observed_at = now, ox_tiers = tiers, ox_max_qualified_notional_usd = 0,
     ox_visible_depth_ceiling_usd = 0, ox_estimated_capacity_notional_usd = 0,
     ox_capacity_frontier_net_annualized_return = None, ox_paper_only = True\<rparr>"

definition reject_all ::
  "opportunity \<Rightarrow> time \<Rightarrow> real list \<Rightarrow> string \<Rightarrow> opportunity_executability result" where
  "reject_all opp now notionals reason =
     rbind (rmap (\<lambda>n. rejected_tier opp n reason) notionals)
       (\<lambda>tiers. Inr (executability_of opp now tiers))"

text \<open>\<open>min\<close> or \<open>max\<close> of the prices on the side a leg trades against; both raise on no levels.\<close>

definition best_price :: "opportunity_leg \<times> order_book_snapshot \<Rightarrow> real result" where
  "best_price p =
     (let side = trade_side_of (lg_side (fst p)); ls = book_levels (snd p) side in
      if ls = [] then Inl (ValueError ''arg is an empty sequence'')
      else Inr (if side = BUY then Min (lv_price ` set ls) else Max (lv_price ` set ls)))"

definition max_qualified :: "capital_tier list \<Rightarrow> real" where
  "max_qualified tiers =
     (case map ct_notional_usd_per_leg (filter tier_qualified tiers) of
        [] \<Rightarrow> 0 | n # ns \<Rightarrow> foldl max n ns)"

definition missing_books ::
  "(book_index \<rightharpoonup> order_book_snapshot) \<Rightarrow> opportunity_leg list \<Rightarrow> string list" where
  "missing_books m legs =
     map (\<lambda>l. lg_venue l @ '':'' @ lg_asset l @ '':'' @ market_kind_value (lg_market_kind l))
       (filter (\<lambda>l. m (leg_key l) = None) legs)"

definition found_books ::
  "(book_index \<rightharpoonup> order_book_snapshot) \<Rightarrow> opportunity_leg list \<Rightarrow> order_book_snapshot list" where
  "found_books m legs = concat (map (\<lambda>l. case m (leg_key l) of None \<Rightarrow> [] | Some b \<Rightarrow> [b]) legs)"

definition book_age :: "time \<Rightarrow> order_book_snapshot \<Rightarrow> real" where
  "book_age now b = max 0 (total_seconds (now - ob_observed_at b))"

definition book_skew :: "order_book_snapshot list \<Rightarrow> real" where
  "book_skew bs = \<bar>total_seconds (ob_observed_at (bs ! 0) - ob_observed_at (bs ! 1))\<bar>"

definition sized_executability ::
  "sizing \<Rightarrow> time \<Rightarrow> real list \<Rightarrow> opportunity_executability result" where
  "sized_executability z now notionals =
     (let ceil = sz_reference z
            * foldl min (pair_depth (hd (sz_pairs z))) (map pair_depth (tl (sz_pairs z)))
            / sz_reserve_ratio z
      in rbind (rmap (evaluate z) notionals) (\<lambda>tiers.
         rbind (capacity_search (evaluate z)
                  (max (1 / 100) (se_capacity_search_tolerance_usd (sz_settings z))) ceil)
           (\<lambda>(capacity, capacity_return).
            Inr ((executability_of (sz_opportunity z) now tiers)\<lparr>
              ox_max_qualified_notional_usd := max_qualified tiers,
              ox_visible_depth_ceiling_usd := ceil,
              ox_estimated_capacity_notional_usd := capacity,
              ox_capacity_frontier_net_annualized_return := capacity_return\<rparr>))))"

text \<open>
  The guards, in the order of the code: the reason for which every size is rejected, or the
  sizing record that the sizes are evaluated with.
\<close>

definition prepare_sizing ::
  "opportunity \<Rightarrow> order_book_snapshot list \<Rightarrow> settings \<Rightarrow> time \<Rightarrow> empirical_latency_model option
     \<Rightarrow> (opportunity \<Rightarrow> real \<Rightarrow> empirical_latency_model) option \<Rightarrow> (string + sizing) result" where
  "prepare_sizing opp books s now lm resolver =
     (let book_map = dict_by book_key books
      in if length (op_legs opp) \<noteq> 2
         then Inr (Inl ''opportunity must have exactly two legs'')
         else if missing_books book_map (op_legs opp) \<noteq> []
         then Inr (Inl (''missing order book(s): '' @ join '', '' (missing_books book_map (op_legs opp))))
         else
           let leg_books = found_books book_map (op_legs opp);
               ages = map (book_age now) leg_books;
               stale = filter (\<lambda>age. age > se_max_order_book_age_seconds s) ages;
               skew = book_skew leg_books
           in if stale \<noteq> [] \<or> skew > se_max_order_book_skew_seconds s
              then Inr (Inl (if stale \<noteq> [] then ''stale order book''
                 else ''order-book time skew '' @ fmt_fixed 3 skew @ ''s exceeds limit''))
              else rbind (rmap best_price (zip (op_legs opp) leg_books)) (\<lambda>best_prices.
                Inr (Inr \<lparr>
                  sz_opportunity = opp, sz_settings = s, sz_leg_books = leg_books,
                  sz_reference = foldl max (hd best_prices) (tl best_prices),
                  sz_reserve_ratio = max 1 (se_hedge_liquidity_reserve_ratio s),
                  sz_worst_book_age = foldl max (hd ages) (tl ages),
                  sz_latency_model = lm, sz_resolver = resolver\<rparr>)))"

definition qualify_opportunity ::
  "opportunity \<Rightarrow> order_book_snapshot list \<Rightarrow> settings \<Rightarrow> real list \<Rightarrow> time
     \<Rightarrow> empirical_latency_model option \<Rightarrow> (opportunity \<Rightarrow> real \<Rightarrow> empirical_latency_model) option
     \<Rightarrow> opportunity_executability result" where
  "qualify_opportunity opp books s notionals_usd now lm resolver =
     (let notionals = (if notionals_usd = [] then se_capital_tiers_usd s else notionals_usd)
      in rbind (prepare_sizing opp books s now lm resolver) (\<lambda>r.
           case r of Inl reason \<Rightarrow> reject_all opp now notionals reason
                   | Inr z \<Rightarrow> sized_executability z now notionals))"

end
