(* ===== verification/Capacity.thy ===== *)
theory Capacity
  imports Qualification
begin

text \<open>
  What the qualification promises: rejections are not executable, the reported capacity
  qualifies and never exceeds the visible depth, and, when the latency model does not change
  with the size, qualifying is downward closed, so that the bisection ends within its
  tolerance of the true frontier.  The locale \<open>size_gate\<close> is the interface between the
  evaluation of one size and the search.
\<close>

section \<open>The bisection\<close>

lemma bisect_sound:
  assumes "bisect ev tol n low high best = Inr (l, h, b)"
    and "ev low = Inr best" and "tier_qualified best" and "low \<le> high"
  shows "ev l = Inr b" and "tier_qualified b" and "low \<le> l" and "l \<le> h" and "h \<le> high"
proof -
  have "ev l = Inr b \<and> tier_qualified b \<and> low \<le> l \<and> l \<le> h \<and> h \<le> high"
    using assms
  proof (induction n arbitrary: low high best)
    case (Suc n)
    let ?mid = "(low + high) / 2"
    have mid: "low \<le> ?mid" "?mid \<le> high" using Suc.prems(4) by simp_all
    show ?case
    proof (cases "high - low \<le> tol")
      case True
      then show ?thesis using Suc.prems by simp
    next
      case False
      then obtain c where c: "ev ?mid = Inr c"
        and rest: "(if tier_qualified c then bisect ev tol n ?mid high c
                    else bisect ev tol n low ?mid best) = Inr (l, h, b)"
        using Suc.prems(1) by (auto simp: Let_def)
      show ?thesis
      proof (cases "tier_qualified c")
        case True
        then have "bisect ev tol n ?mid high c = Inr (l, h, b)" using rest by simp
        from Suc.IH [OF this c True mid(2)] mid show ?thesis by linarith
      next
        case False
        then have "bisect ev tol n low ?mid best = Inr (l, h, b)" using rest by simp
        from Suc.IH [OF this Suc.prems(2,3) mid(1)] mid show ?thesis by linarith
      qed
    qed
  qed simp
  then show "ev l = Inr b" and "tier_qualified b" and "low \<le> l" and "l \<le> h" and "h \<le> high"
    by auto
qed

text \<open>The upper end always fails, and the interval ends below the tolerance or halved n times.\<close>

lemma bisect_tight:
  assumes "bisect ev tol n low high best = Inr (l, h, b)"
    and "ev high = Inr u" and "\<not> tier_qualified u"
  shows "\<exists>u. ev h = Inr u \<and> \<not> tier_qualified u" and "h - l \<le> max tol ((high - low) / 2 ^ n)"
proof -
  have "(\<exists>u. ev h = Inr u \<and> \<not> tier_qualified u) \<and> h - l \<le> max tol ((high - low) / 2 ^ n)"
    using assms
  proof (induction n arbitrary: low high best u)
    case (Suc n)
    let ?mid = "(low + high) / 2"
    have half: "(high - ?mid) / 2 ^ n = (high - low) / 2 ^ Suc n"
      "(?mid - low) / 2 ^ n = (high - low) / 2 ^ Suc n"
      by (simp_all add: field_simps)
    show ?case
    proof (cases "high - low \<le> tol")
      case True
      then show ?thesis using Suc.prems by (auto simp: max_def)
    next
      case False
      then obtain c where c: "ev ?mid = Inr c"
        and rest: "(if tier_qualified c then bisect ev tol n ?mid high c
                    else bisect ev tol n low ?mid best) = Inr (l, h, b)"
        using Suc.prems(1) by (auto simp: Let_def)
      show ?thesis
      proof (cases "tier_qualified c")
        case True
        then have "bisect ev tol n ?mid high c = Inr (l, h, b)" using rest by simp
        from Suc.IH [OF this Suc.prems(2,3)] show ?thesis unfolding half .
      next
        case False
        then have "bisect ev tol n low ?mid best = Inr (l, h, b)" using rest by simp
        from Suc.IH [OF this c False] show ?thesis unfolding half .
      qed
    qed
  qed auto
  then show "\<exists>u. ev h = Inr u \<and> \<not> tier_qualified u" and "h - l \<le> max tol ((high - low) / 2 ^ n)"
    by auto
qed

lemma bisect_total:
  assumes "\<And>n. lo \<le> n \<Longrightarrow> \<exists>t. ev n = Inr t" and "lo \<le> low" and "low \<le> high"
  shows "\<exists>r. bisect ev tol k low high best = Inr r"
  using assms(2,3)
proof (induction k arbitrary: low high best)
  case (Suc k)
  let ?mid = "(low + high) / 2"
  have mid: "low \<le> ?mid" "?mid \<le> high" using Suc.prems(2) by simp_all
  then obtain c where "ev ?mid = Inr c" using assms(1) Suc.prems(1) by (meson order_trans)
  then show ?case using Suc.IH [of ?mid high c] Suc.IH [of low ?mid best] Suc.prems mid
    by (auto simp: Let_def)
qed simp

text \<open>The search reports a size that qualifies, with its own return, or zero and no return.\<close>

lemma capacity_search_sound:
  assumes "capacity_search ev tol ceil = Inr (c, r)" and "0 < tol"
  shows "0 \<le> c" and "c \<le> max 0 ceil" and "c = 0 \<longleftrightarrow> r = None"
    and "0 < c \<Longrightarrow> \<exists>t. ev c = Inr t \<and> tier_qualified t \<and> r = Some (ct_net_annualized_return t)"
proof -
  have "(c = 0 \<and> r = None) \<or> (0 < c \<and> c \<le> ceil \<and>
      (\<exists>t. ev c = Inr t \<and> tier_qualified t \<and> r = Some (ct_net_annualized_return t)))"
  proof (cases "0 < ceil")
    case True
    with assms(1) obtain u where u: "ev ceil = Inr u" by (auto simp: capacity_search_def)
    show ?thesis
    proof (cases "tier_qualified u")
      case True
      then show ?thesis using assms(1) u \<open>0 < ceil\<close> by (auto simp: capacity_search_def)
    next
      case False
      let ?p = "min tol ceil"
      from False True u assms(1) obtain p where p: "ev ?p = Inr p"
        by (auto simp: capacity_search_def Let_def)
      show ?thesis
      proof (cases "tier_qualified p")
        case False
        then show ?thesis using assms(1) True u \<open>\<not> tier_qualified u\<close> p
          by (simp add: capacity_search_def Let_def)
      next
        case True
        then obtain h b where run: "bisect ev tol 64 ?p ceil p = Inr (c, h, b)"
          and r: "r = Some (ct_net_annualized_return b)"
          using assms(1) u \<open>0 < ceil\<close> \<open>\<not> tier_qualified u\<close> p
          by (auto simp: capacity_search_def Let_def)
        have "?p \<le> ceil" "0 < ?p" using assms(2) \<open>0 < ceil\<close> by simp_all
        with bisect_sound [OF run p True] r show ?thesis by auto
      qed
    qed
  next
    case False
    then show ?thesis using assms(1) by (simp add: capacity_search_def)
  qed
  then show "0 \<le> c" and "c \<le> max 0 ceil" and "c = 0 \<longleftrightarrow> r = None"
    and "0 < c \<Longrightarrow> \<exists>t. ev c = Inr t \<and> tier_qualified t \<and> r = Some (ct_net_annualized_return t)"
    by auto
qed

text \<open>
  Whatever the evaluation, the search ends at its ceiling or just below a size that fails: within
  the tolerance, or the ceiling halved 64 times.
\<close>

lemma capacity_search_frontier:
  assumes "capacity_search ev tol ceil = Inr (c, r)" and "0 < tol" and "0 < ceil"
  shows "c = ceil \<or> (\<exists>m t. c < m \<and> m \<le> ceil \<and> m \<le> c + max tol (ceil / 2 ^ 64)
    \<and> ev m = Inr t \<and> \<not> tier_qualified t)"
proof -
  obtain u where u: "ev ceil = Inr u" using assms(1,3) by (auto simp: capacity_search_def)
  let ?p = "min tol ceil"
  show ?thesis
  proof (cases "tier_qualified u")
    case True
    then show ?thesis using assms(1,3) u by (simp add: capacity_search_def)
  next
    case False
    then obtain p where p: "ev ?p = Inr p" using assms(1,3) u by (auto simp: capacity_search_def Let_def)
    show ?thesis
    proof (cases "tier_qualified p")
      case True
      then obtain h b where run: "bisect ev tol 64 ?p ceil p = Inr (c, h, b)"
        using assms(1,3) u False p by (auto simp: capacity_search_def Let_def)
      obtain v where v: "ev h = Inr v" "\<not> tier_qualified v" using bisect_tight(1) [OF run u False] by auto
      have "h - c \<le> max tol ((ceil - ?p) / 2 ^ 64)" using bisect_tight(2) [OF run u False] .
      also have "\<dots> \<le> max tol (ceil / 2 ^ 64)"
        using assms(2,3) by (intro max.mono order_refl divide_right_mono) simp_all
      finally have near: "h \<le> c + max tol (ceil / 2 ^ 64)" by simp
      have b: "ev c = Inr b" "tier_qualified b" "c \<le> h" "h \<le> ceil"
        using bisect_sound [OF run p True] by auto
      then have "c \<noteq> h" using v by auto
      then show ?thesis using v b near by (intro disjI2 exI [of _ h] exI [of _ v]) simp
    next
      case False
      then have "c = 0" using assms(1,3) u \<open>\<not> tier_qualified u\<close> p by (simp add: capacity_search_def Let_def)
      then show ?thesis using p False assms(2,3) by (intro disjI2 exI [of _ ?p] exI [of _ p]) simp
    qed
  qed
qed

section \<open>The interface of a size evaluation\<close>

locale size_gate =
  fixes ev :: "'c \<Rightarrow> real \<Rightarrow> capital_tier result"
    and good :: "'c \<Rightarrow> bool"
    and lo :: "'c \<Rightarrow> real"
  assumes returns: "good c \<Longrightarrow> lo c < n \<Longrightarrow> \<exists>t. ev c n = Inr t"
    and downward: "good c \<Longrightarrow> lo c < m \<Longrightarrow> m \<le> n \<Longrightarrow> ev c n = Inr t \<Longrightarrow> tier_qualified t
      \<Longrightarrow> ev c m = Inr u \<Longrightarrow> tier_qualified u"
begin

lemma search_returns:
  assumes "good c" and "lo c < min tol ceil"
  shows "\<exists>r. capacity_search (ev c) tol ceil = Inr r"
proof (cases "0 < ceil")
  case True
  obtain u where u: "ev c ceil = Inr u" using returns [OF assms(1), of ceil] assms(2) by auto
  obtain p where p: "ev c (min tol ceil) = Inr p" using returns [OF assms(1,2)] by auto
  have "\<exists>r. bisect (ev c) tol 64 (min tol ceil) ceil p = Inr r"
    by (rule bisect_total [of "min tol ceil"]) (use returns [OF assms(1)] assms(2) in auto)
  then show ?thesis using True u p by (auto simp: capacity_search_def Let_def)
qed (simp add: capacity_search_def)

text \<open>
  Beyond the reported capacity, up to the search's resolution, no size up to the ceiling
  qualifies.
\<close>

lemma search_tight:
  assumes "good c" and "capacity_search (ev c) tol ceil = Inr (cap, r)"
    and "0 < ceil" and "lo c < min tol ceil" and "0 < tol"
    and "cap + max tol (ceil / 2 ^ 64) < m" and "m \<le> ceil" and "ev c m = Inr t"
  shows "\<not> tier_qualified t"
proof
  assume q: "tier_qualified t"
  obtain u where u: "ev c ceil = Inr u" using assms(2,3) by (auto simp: capacity_search_def)
  let ?p = "min tol ceil"
  have cap: "0 \<le> cap" using capacity_search_sound(1) [OF assms(2,5)] .
  have m: "tol < m" using assms(6) cap by linarith
  show False
  proof (cases "tier_qualified u")
    case True
    then have "cap = ceil" using assms(2,3) u by (simp add: capacity_search_def)
    then show False using assms(5,6,7) by simp
  next
    case False
    then obtain p where p: "ev c ?p = Inr p"
      using assms(2,3) u by (auto simp: capacity_search_def Let_def)
    have "tier_qualified p"
      by (rule downward [OF assms(1,4) _ assms(8) q p]) (use m in simp)
    then obtain h b where run: "bisect (ev c) tol 64 ?p ceil p = Inr (cap, h, b)"
      using assms(2,3) u False p by (auto simp: capacity_search_def Let_def)
    obtain v where v: "ev c h = Inr v" "\<not> tier_qualified v"
      using bisect_tight(1) [OF run u False] by auto
    have "h - cap \<le> max tol ((ceil - ?p) / 2 ^ 64)" using bisect_tight(2) [OF run u False] .
    also have "\<dots> \<le> max tol (ceil / 2 ^ 64)"
      using assms(3,5) by (intro max.mono order_refl divide_right_mono) simp_all
    finally have "h \<le> m" using assms(6) by simp
    moreover have "?p \<le> h"
      using bisect_sound(3,4) [OF run p \<open>tier_qualified p\<close>] by simp
    ultimately show False
      using downward [OF assms(1) _ _ assms(8) q v(1)] v(2) assms(4) by simp
  qed
qed

end

section \<open>Evaluating a size on valid books\<close>

text \<open>
  A sizing whose books passed validation, with sane settings, under a latency model or a resolver
  whose charge does not fall when the size grows (one model for all sizes is the special case).
\<close>

definition charge_grows :: "sizing \<Rightarrow> bool" where
  "charge_grows z \<longleftrightarrow> (\<forall>m n. 0 < m \<longrightarrow> m \<le> n \<longrightarrow>
     model_charge_bps (sz_settings z) (effective_latency_model z m)
       \<le> model_charge_bps (sz_settings z) (effective_latency_model z n))"

lemma charge_grows_None: "sz_resolver z = None \<Longrightarrow> charge_grows z"
  by (simp add: charge_grows_def effective_latency_model_def)

definition good_sizing :: "sizing \<Rightarrow> bool" where
  "good_sizing z \<longleftrightarrow> list_all valid_book (sz_leg_books z) \<and> 0 < sz_reference z
     \<and> 1 \<le> sz_reserve_ratio z \<and> 0 < op_holding_hours (sz_opportunity z)
     \<and> 0 \<le> se_exit_slippage_multiplier (sz_settings z) \<and> charge_grows z"

definition pair_estimates ::
  "(opportunity_leg \<times> order_book_snapshot) list \<Rightarrow> real \<Rightarrow> leg_execution_estimate list \<Rightarrow> bool" where
  "pair_estimates ps q les \<longleftrightarrow> list_all2 (\<lambda>p le. \<exists>e.
     estimate_market_order_quantity (snd p) (trade_side_of (lg_side (fst p))) q True = Inr e
     \<and> le = leg_estimate_of (fst p) q e \<and> valid_leg_estimate le) ps les"

lemma estimate_legs_None:
  "estimate_legs ps q acc = (les, None) \<longleftrightarrow> (\<exists>les'. les = acc @ les' \<and> pair_estimates ps q les')"
proof (induction ps arbitrary: acc)
  case Nil
  then show ?case by (auto simp: pair_estimates_def)
next
  case (Cons p ps)
  obtain leg book where p: "p = (leg, book)" by (cases p)
  show ?case
    by (cases "estimate_market_order_quantity book (trade_side_of (lg_side leg)) q True")
      (auto simp: p Cons.IH pair_estimates_def list_all2_Cons1 Let_def)
qed

lemma valid_leg_estimate_of:
  assumes "estimate_market_order_quantity b (trade_side_of (lg_side leg)) q True = Inr e"
    and "valid_book b"
  shows "valid_leg_estimate (leg_estimate_of leg q e)"
proof -
  note v = valid_book_side [OF assms(2)]
  note snd = quantity_estimate_sound [OF assms(1) v]
  have "0 < q" by (rule quantity_estimate_slippage [OF assms(1)])
  moreover have "0 \<le> qe_slippage_bps e"
    by (rule quantity_estimate_slippage [OF assms(1)]) simp
  moreover have "0 < qe_filled_notional_usd e" using snd(1,5,7) by simp
  ultimately show ?thesis using snd(1,6,7,10) by (simp add: valid_leg_estimate_def leg_estimate_of_def)
qed

text \<open>With enough depth and a resolvable quantity every leg is estimated.\<close>

lemma pair_estimates_exist:
  assumes "\<forall>p \<in> set ps. valid_book (snd p) \<and> q \<le> pair_depth p + 1 / 10 ^ 12" and "1 / 10 ^ 12 < q"
  shows "\<exists>les. pair_estimates ps q les"
  using assms(1)
proof (induction ps)
  case Nil
  then show ?case by (auto simp: pair_estimates_def)
next
  case (Cons p ps)
  then obtain les where les: "pair_estimates ps q les" by auto
  have v: "valid_book (snd p)" and d: "q \<le> pair_depth p + 1 / 10 ^ 12" using Cons.prems by auto
  obtain e where e: "estimate_market_order_quantity (snd p) (trade_side_of (lg_side (fst p))) q True = Inr e"
    using quantity_estimate_exists [OF valid_book_side [OF v] assms(2)] d
    unfolding pair_depth_def by blast
  from valid_leg_estimate_of [OF e v] e les
  show ?case unfolding pair_estimates_def
    by (intro exI [of _ "leg_estimate_of (fst p) q e # les"]) auto
qed

lemma pair_estimates_slippage_mono:
  assumes "pair_estimates ps q1 les1" and "pair_estimates ps q2 les2" and "q1 \<le> q2"
    and "\<forall>p \<in> set ps. valid_book (snd p)"
  shows "(\<Sum>e\<leftarrow>les1. le_slippage_bps e) \<le> (\<Sum>e\<leftarrow>les2. le_slippage_bps e)"
  using assms(1,2,4)
proof (induction ps arbitrary: les1 les2)
  case Nil
  then show ?case by (simp add: pair_estimates_def)
next
  case (Cons p ps)
  let ?side = "trade_side_of (lg_side (fst p))"
  obtain e1 t1 where l1: "les1 = leg_estimate_of (fst p) q1 e1 # t1" "pair_estimates ps q1 t1"
      "estimate_market_order_quantity (snd p) ?side q1 True = Inr e1"
    using Cons.prems(1) by (auto simp: pair_estimates_def list_all2_Cons1)
  obtain e2 t2 where l2: "les2 = leg_estimate_of (fst p) q2 e2 # t2" "pair_estimates ps q2 t2"
      "estimate_market_order_quantity (snd p) ?side q2 True = Inr e2"
    using Cons.prems(2) by (auto simp: pair_estimates_def list_all2_Cons1)
  have "qe_slippage_bps e1 \<le> qe_slippage_bps e2"
    using slippage_monotone [OF l1(3) l2(3) valid_book_side assms(3)] Cons.prems(3) by simp
  moreover have "(\<Sum>e\<leftarrow>t1. le_slippage_bps e) \<le> (\<Sum>e\<leftarrow>t2. le_slippage_bps e)"
    using Cons.IH [OF l1(2) l2(2)] Cons.prems(3) by simp
  ultimately show ?case by (simp add: l1(1) l2(1) leg_estimate_of_def)
qed

section \<open>One size, all branches\<close>

definition depth_short :: "sizing \<Rightarrow> real \<Rightarrow> bool" where
  "depth_short z target \<longleftrightarrow>
     (\<exists>p \<in> set (sz_pairs z). pair_depth p + 1 / 10 ^ 12 < target * sz_reserve_ratio z)"

text \<open>A tier is executable only if it is the priced tier of complete estimates and known costs.\<close>

lemma rejected_not_executable:
  "rejected_tier opp n reason = Inr t \<Longrightarrow> \<not> ct_executable t \<and> \<not> ct_passes_return_hurdle t
     \<and> ct_notional_usd_per_leg t = n \<and> ct_rejection_reason t = Some reason"
  by (auto simp: rejected_tier_def blank_tier_def split: if_splits)

lemma rejected_not_qualified: "rejected_tier opp n reason = Inr t \<Longrightarrow> \<not> tier_qualified t"
  by (auto simp: tier_qualified_def dest: rejected_not_executable)

lemma evaluate_executableE:
  assumes "evaluate z n = Inr t" and "ct_executable t"
  obtains costs les where "sz_reference z \<noteq> 0"
    and "\<not> depth_short z (n / sz_reference z)"
    and "economic_costs (sz_opportunity z) n (sz_settings z) (sz_worst_book_age z)
           (effective_latency_model z n) = Inr costs"
    and "pair_estimates (sz_pairs z) (n / sz_reference z) les"
    and "priced_tier z n (n / sz_reference z) costs les = Inr t"
  using assms that
  by (auto simp: evaluate_def depth_short_def Let_def estimate_legs_None
      split: if_splits sum.splits py_error.splits prod.splits option.splits
      dest!: rejected_not_executable)

lemma evaluate_pricedI:
  assumes "sz_reference z \<noteq> 0" and "\<not> depth_short z (n / sz_reference z)"
    and "economic_costs (sz_opportunity z) n (sz_settings z) (sz_worst_book_age z)
           (effective_latency_model z n) = Inr costs"
    and "pair_estimates (sz_pairs z) (n / sz_reference z) les"
  shows "evaluate z n = priced_tier z n (n / sz_reference z) costs les"
proof -
  have "estimate_legs (sz_pairs z) (n / sz_reference z) [] = (les, None)"
    using assms(4) by (simp add: estimate_legs_None)
  then show ?thesis using assms(1-3) by (simp add: evaluate_def depth_short_def Let_def py_simps)
qed

text \<open>The economics of a priced tier.\<close>

definition net_hourly_bps :: "sizing \<Rightarrow> real \<Rightarrow> real \<Rightarrow> real" where
  "net_hourly_bps z total_cost entry =
     (op_gross_edge_bps_per_hour (sz_opportunity z) * op_holding_hours (sz_opportunity z)
      - (total_cost + entry + entry * se_exit_slippage_multiplier (sz_settings z))
      - op_safety_buffer_bps_per_hour (sz_opportunity z) * op_holding_hours (sz_opportunity z))
     / op_holding_hours (sz_opportunity z)"

lemma priced_tier_fields:
  assumes "priced_tier z n target costs les = Inr t"
  defines "h \<equiv> net_hourly_bps z (cb_total_non_slippage_cost_bps costs) (\<Sum>e\<leftarrow>les. le_slippage_bps e)"
  shows "op_holding_hours (sz_opportunity z) \<noteq> 0" and "ct_executable t"
    and "ct_notional_usd_per_leg t = n" and "ct_leg_estimates t = les"
    and "ct_target_base_quantity t = Some target"
    and "ct_net_edge_bps_per_hour t = h"
    and "ct_capital_required_usd t = cb_capital_required_usd costs"
    and "ct_net_annualized_return t = (if cb_capital_multiple costs > 0
           then Fin (h / 10000 * 24 * 365 / cb_capital_multiple costs) else MInf)"
    and "ct_passes_return_hurdle t \<longleftrightarrow> 0 < h \<and> 0 < cb_capital_multiple costs
           \<and> se_min_net_annualized_return (sz_settings z) \<le> h / 10000 * 24 * 365 / cb_capital_multiple costs"
proof -
  let ?o = "sz_opportunity z"
  show hh: "op_holding_hours ?o \<noteq> 0" using assms(1) by (auto simp: priced_tier_def Let_def)
  have eq: "py_div (op_gross_edge_bps_per_hour ?o * op_holding_hours ?o
      - (cb_total_non_slippage_cost_bps costs + (\<Sum>e\<leftarrow>les. le_slippage_bps e)
         + (\<Sum>e\<leftarrow>les. le_slippage_bps e) * se_exit_slippage_multiplier (sz_settings z))
      - op_safety_buffer_bps_per_hour ?o * op_holding_hours ?o) (op_holding_hours ?o) = Inr h"
    using hh by (simp add: py_div_def h_def net_hourly_bps_def)
  note t = assms(1) [unfolded priced_tier_def Let_def eq rbind_simps sum.inject, symmetric]
  show "ct_executable t"
    and "ct_notional_usd_per_leg t = n" and "ct_leg_estimates t = les"
    and "ct_target_base_quantity t = Some target"
    and "ct_net_edge_bps_per_hour t = h"
    and "ct_capital_required_usd t = cb_capital_required_usd costs"
    and "ct_net_annualized_return t = (if cb_capital_multiple costs > 0
           then Fin (h / 10000 * 24 * 365 / cb_capital_multiple costs) else MInf)"
    and "ct_passes_return_hurdle t \<longleftrightarrow> 0 < h \<and> 0 < cb_capital_multiple costs
           \<and> se_min_net_annualized_return (sz_settings z) \<le> h / 10000 * 24 * 365 / cb_capital_multiple costs"
    by (simp_all add: t blank_tier_def)
qed

lemma priced_tier_exists:
  "op_holding_hours (sz_opportunity z) \<noteq> 0 \<Longrightarrow> \<exists>t. priced_tier z n target costs les = Inr t"
  by (auto simp: priced_tier_def Let_def)

lemma net_hourly_antitone:
  assumes "0 < op_holding_hours (sz_opportunity z)" and "e1 \<le> e2"
    and "0 \<le> se_exit_slippage_multiplier (sz_settings z)" and "c1 \<le> c2"
  shows "net_hourly_bps z c2 e2 \<le> net_hourly_bps z c1 e1"
  unfolding net_hourly_bps_def
  using assms mult_right_mono [OF assms(2,3)] by (intro divide_right_mono) simp_all

lemma economic_costs_errors:
  assumes "0 < n" and "economic_costs opp n s age lm = Inl e"
  shows "(\<exists>m. e = UnknownVenueFeeError m) \<or> (\<exists>m. e = BorrowCostUnavailableError m)"
proof -
  have "(\<exists>m. e = UnknownVenueFeeError m) \<or> (\<exists>m. e = BorrowCostUnavailableError m)"
    if "rfold (leg_costs s h n) legs acc = Inl e" for h legs acc
    using that
  proof (induction legs arbitrary: acc)
    case (Cons leg legs)
    obtain fee fin cap where "acc = (fee, fin, cap)" by (cases acc)
    with Cons show ?case
      by (auto simp: rbind_eq_Inl leg_costs_def taker_fee_bps_def financing_cost_bps_def Let_def
          split: if_splits option.splits)
  qed simp
  then show ?thesis using assms
    by (auto simp: economic_costs_def rbind_eq_Inl Let_def split: prod.splits)
qed

definition size_resolution :: "sizing \<Rightarrow> real" where
  "size_resolution z = sz_reference z / 10 ^ 12"

lemma resolution_target:
  assumes "good_sizing z" and "size_resolution z < n"
  shows "1 / 10 ^ 12 < n / sz_reference z" and "0 < n"
proof -
  have r: "0 < sz_reference z" using assms(1) by (simp add: good_sizing_def)
  then have "0 < size_resolution z" by (simp add: size_resolution_def)
  then show "0 < n" using assms(2) by simp
  show "1 / 10 ^ 12 < n / sz_reference z"
    using assms(2) r by (simp add: size_resolution_def field_simps)
qed

lemma good_pairs:
  assumes "good_sizing z" and "\<not> depth_short z target" and "0 \<le> target"
  shows "\<forall>p \<in> set (sz_pairs z). valid_book (snd p) \<and> target \<le> pair_depth p + 1 / 10 ^ 12"
proof
  fix p assume p: "p \<in> set (sz_pairs z)"
  then have "(fst p, snd p) \<in> set (zip (op_legs (sz_opportunity z)) (sz_leg_books z))"
    by (simp add: sz_pairs_def)
  then have "snd p \<in> set (sz_leg_books z)" by (rule set_zip_rightD)
  then have "valid_book (snd p)" using assms(1) by (simp add: good_sizing_def list_all_iff)
  moreover have "target * 1 \<le> target * sz_reserve_ratio z"
    using assms(1,3) by (intro mult_left_mono) (simp_all add: good_sizing_def)
  then have "target \<le> pair_depth p + 1 / 10 ^ 12"
    using assms(2) p by (fastforce simp: depth_short_def)
  ultimately show "valid_book (snd p) \<and> target \<le> pair_depth p + 1 / 10 ^ 12" by blast
qed

lemma evaluate_returns:
  assumes "good_sizing z" and "size_resolution z < n"
  shows "\<exists>t. evaluate z n = Inr t"
proof -
  note n = resolution_target [OF assms]
  have r: "sz_reference z \<noteq> 0" and h: "op_holding_hours (sz_opportunity z) \<noteq> 0"
    using assms(1) by (auto simp: good_sizing_def)
  have rej: "\<exists>t. rejected_tier opp n reason = Inr t" for opp reason
    using n(2) by (simp add: rejected_tier_def)
  show ?thesis
  proof (cases "depth_short z (n / sz_reference z)")
    case True
    then show ?thesis using rej r by (auto simp: evaluate_def depth_short_def Let_def py_simps)
  next
    case False
    show ?thesis
    proof (cases "economic_costs (sz_opportunity z) n (sz_settings z) (sz_worst_book_age z)
        (effective_latency_model z n)")
      case (Inl e)
      then show ?thesis using economic_costs_errors [OF n(2) Inl] rej r False
        by (auto simp: evaluate_def depth_short_def Let_def py_simps)
    next
      case (Inr costs)
      have q0: "0 \<le> n / sz_reference z"
        using n(1) by (intro order_trans [OF _ less_imp_le [OF n(1)]]) simp
      obtain les where "pair_estimates (sz_pairs z) (n / sz_reference z) les"
        using pair_estimates_exist [OF good_pairs [OF assms(1) False q0] n(1)] by blast
      from evaluate_pricedI [OF r False Inr this] priced_tier_exists [OF h] show ?thesis by metis
    qed
  qed
qed

text \<open>If a size qualifies, so does every smaller resolvable size.\<close>

lemma evaluate_downward:
  assumes good: "good_sizing z" and lo: "size_resolution z < m" and le: "m \<le> n"
    and en: "evaluate z n = Inr t" and q: "tier_qualified t" and em: "evaluate z m = Inr u"
  shows "tier_qualified u"
proof -
  note g = good [unfolded good_sizing_def]
  note m = resolution_target [OF good lo]
  have r: "0 < sz_reference z" using g by simp
  have t: "m / sz_reference z \<le> n / sz_reference z" using le r by (simp add: divide_right_mono)
  have m0: "0 \<le> m / sz_reference z" using m(2) r by simp
  have ex: "ct_executable t" using q by (simp add: tier_qualified_def)
  obtain costs les where ev: "sz_reference z \<noteq> 0" "\<not> depth_short z (n / sz_reference z)"
      "economic_costs (sz_opportunity z) n (sz_settings z) (sz_worst_book_age z)
         (effective_latency_model z n) = Inr costs"
      "pair_estimates (sz_pairs z) (n / sz_reference z) les"
      "priced_tier z n (n / sz_reference z) costs les = Inr t"
    by (rule evaluate_executableE [OF en ex])
  have "m / sz_reference z * sz_reserve_ratio z \<le> n / sz_reference z * sz_reserve_ratio z"
    using t g by (intro mult_right_mono) simp_all
  then have deep: "\<not> depth_short z (m / sz_reference z)"
    using ev(2) by (force simp: depth_short_def)
  have n: "0 < n" using m(2) le by simp
  obtain costs' where c': "economic_costs (sz_opportunity z) m (sz_settings z) (sz_worst_book_age z)
      (effective_latency_model z m) = Inr costs'"
    using ev(3) economic_costs_defined_iff [OF m(2)] economic_costs_defined_iff [OF n] by blast
  have mult: "cb_capital_multiple costs' = cb_capital_multiple costs"
    using economic_costs_fields(3) [OF c'] economic_costs_fields(3) [OF ev(3)] by simp
  have cheaper: "cb_total_non_slippage_cost_bps costs' \<le> cb_total_non_slippage_cost_bps costs"
    using g m(2) le unfolding economic_costs_total [OF c'] economic_costs_total [OF ev(3)] charge_grows_def by simp
  note pairs = good_pairs [OF good deep m0]
  obtain les' where les': "pair_estimates (sz_pairs z) (m / sz_reference z) les'"
    using pair_estimates_exist [OF pairs m(1)] by blast
  have pm: "priced_tier z m (m / sz_reference z) costs' les' = Inr u"
    using evaluate_pricedI [OF _ deep c' les'] r em by simp
  have slip: "(\<Sum>e\<leftarrow>les'. le_slippage_bps e) \<le> (\<Sum>e\<leftarrow>les. le_slippage_bps e)"
    using pair_estimates_slippage_mono [OF les' ev(4) t] pairs by blast
  let ?hm = "net_hourly_bps z (cb_total_non_slippage_cost_bps costs') (\<Sum>e\<leftarrow>les'. le_slippage_bps e)"
  let ?hn = "net_hourly_bps z (cb_total_non_slippage_cost_bps costs) (\<Sum>e\<leftarrow>les. le_slippage_bps e)"
  have h: "?hn \<le> ?hm" using net_hourly_antitone [OF _ slip _ cheaper] g by simp
  have pn: "0 < ?hn" "0 < cb_capital_multiple costs"
    "se_min_net_annualized_return (sz_settings z) \<le> ?hn / 10000 * 24 * 365 / cb_capital_multiple costs"
    using q priced_tier_fields(9) [OF ev(5)] by (auto simp: tier_qualified_def)
  have "?hn / 10000 * 24 * 365 / cb_capital_multiple costs
      \<le> ?hm / 10000 * 24 * 365 / cb_capital_multiple costs"
    using h pn(2) by (intro divide_right_mono) simp_all
  then show ?thesis
    using pn h priced_tier_fields(2,9) [OF pm] mult by (auto simp: tier_qualified_def)
qed

interpretation gate: size_gate evaluate good_sizing size_resolution
  by unfold_locales (rule evaluate_returns, assumption+, rule evaluate_downward)

section \<open>The whole qualification\<close>

text \<open>The conditions under which the code evaluates sizes at all.\<close>

definition admissible ::
  "opportunity \<Rightarrow> order_book_snapshot list \<Rightarrow> settings \<Rightarrow> time \<Rightarrow> bool" where
  "admissible opp books s now \<longleftrightarrow>
     (let m = dict_by book_key books; bs = found_books m (op_legs opp) in
      length (op_legs opp) = 2 \<and> (\<forall>l \<in> set (op_legs opp). m (leg_key l) \<noteq> None)
      \<and> (\<forall>b \<in> set bs. book_age now b \<le> se_max_order_book_age_seconds s)
      \<and> book_skew bs \<le> se_max_order_book_skew_seconds s)"

lemma missing_books_Nil: "missing_books m legs = [] \<longleftrightarrow> (\<forall>l \<in> set legs. m (leg_key l) \<noteq> None)"
  by (auto simp: missing_books_def filter_empty_conv)

lemma found_books_all:
  "\<forall>l \<in> set legs. m (leg_key l) \<noteq> None \<Longrightarrow> map Some (found_books m legs) = map (\<lambda>l. m (leg_key l)) legs"
  by (induction legs) (auto simp: found_books_def)

lemma found_books_subset:
  "b \<in> set (found_books (dict_by book_key books) legs) \<Longrightarrow> b \<in> set books"
  by (auto simp: found_books_def split: option.splits) (metis dict_by_SomeD)

lemma prepare_rejects:
  assumes "\<not> admissible opp books s now"
  shows "\<exists>reason. prepare_sizing opp books s now lm resolver = Inr (Inl reason)"
  using assms
  by (auto simp: prepare_sizing_def admissible_def Let_def missing_books_Nil filter_empty_conv not_le)

lemma reject_all_fields:
  assumes "reject_all opp now ns reason = Inr ox"
  shows "\<forall>t \<in> set (ox_tiers ox). \<not> ct_executable t \<and> ct_rejection_reason t = Some reason"
    and "ox_estimated_capacity_notional_usd ox = 0" and "ox_max_qualified_notional_usd ox = 0"
    and "ox_visible_depth_ceiling_usd ox = 0"
  using assms
  by (auto simp: reject_all_def executability_of_def dest!: rejected_not_executable elim: rmap_set)

lemma not_admissible_rejects:
  assumes "\<not> admissible opp books s now"
    and "qualify_opportunity opp books s ns now lm resolver = Inr ox"
  shows "\<forall>t \<in> set (ox_tiers ox). \<not> ct_executable t"
    and "ox_estimated_capacity_notional_usd ox = 0" and "ox_max_qualified_notional_usd ox = 0"
proof -
  obtain reason where "prepare_sizing opp books s now lm resolver = Inr (Inl reason)"
    using prepare_rejects [OF assms(1)] by blast
  then obtain ms where "reject_all opp now ms reason = Inr ox"
    using assms(2) by (auto simp: qualify_opportunity_def Let_def)
  from reject_all_fields [OF this]
  show "\<forall>t \<in> set (ox_tiers ox). \<not> ct_executable t"
    and "ox_estimated_capacity_notional_usd ox = 0" and "ox_max_qualified_notional_usd ox = 0" by auto
qed

lemma foldl_max_ge: "(x::real) \<le> foldl max x xs" "y \<in> set xs \<Longrightarrow> y \<le> foldl max x xs"
  by (induction xs arbitrary: x y) (auto intro: order_trans [OF max.cobounded1] order_trans [OF max.cobounded2])

text \<open>On valid books the prepared sizing is a good one, whose reference is the dearer best price.\<close>

lemma prepare_good:
  assumes "prepare_sizing opp books s now lm resolver = Inr (Inr z)"
    and "\<forall>b \<in> set books. valid_book b" and "0 < op_holding_hours opp"
    and "0 \<le> se_exit_slippage_multiplier s" and "charge_grows z"
  shows "good_sizing z" and "sz_opportunity z = opp" and "sz_settings z = s"
proof -
  define bs where "bs = found_books (dict_by book_key books) (op_legs opp)"
  obtain prices where prices: "rmap best_price (zip (op_legs opp) bs) = Inr prices"
    and two: "length (op_legs opp) = 2"
    and found: "\<forall>l \<in> set (op_legs opp). dict_by book_key books (leg_key l) \<noteq> None"
    and z: "sz_opportunity z = opp" "sz_settings z = s" "sz_leg_books z = bs"
      "sz_reference z = foldl max (hd prices) (tl prices)" "1 \<le> sz_reserve_ratio z"
    using assms(1)
    by (auto simp: prepare_sizing_def bs_def Let_def missing_books_Nil split: if_splits)
  have vb: "valid_book b" if "b \<in> set bs" for b
    using that assms(2) found_books_subset by (auto simp: bs_def)
  have len: "length bs = 2"
    using found_books_all [OF found] two by (metis bs_def length_map)
  have "length prices = 2" using rmap_length [OF prices] two len by simp
  then obtain p ps where pr: "prices = p # ps" by (cases prices) auto
  then have "p \<in> set prices" by simp
  then obtain x where x: "x \<in> set (zip (op_legs opp) bs)" "best_price x = Inr p"
    using rmap_set [OF prices] by blast
  have "(fst x, snd x) \<in> set (zip (op_legs opp) bs)" using x(1) by simp
  then have "snd x \<in> set bs" by (rule set_zip_rightD)
  then have side: "valid_side (book_levels (snd x) sd)" for sd using vb valid_book_side by blast
  let ?ls = "book_levels (snd x) (trade_side_of (lg_side (fst x)))"
  have "p \<in> lv_price ` set ?ls"
    using x(2) Min_in [of "lv_price ` set ?ls"] Max_in [of "lv_price ` set ?ls"]
    by (auto simp: best_price_def Let_def split: if_splits)
  then have "0 < p" using valid_sideD(1) [OF side] by auto
  then have "0 < sz_reference z" using foldl_max_ge(1) [of p ps] by (simp add: z pr)
  then show "good_sizing z"
    using vb z assms(3-5) by (simp add: good_sizing_def list_all_iff)
  show "sz_opportunity z = opp" and "sz_settings z = s" using z by simp_all
qed

text \<open>A positive ceiling is reported only when sizes were evaluated.\<close>

lemma sized_when_ceiling:
  assumes "qualify_opportunity opp books s ns now lm resolver = Inr ox" and "ox_visible_depth_ceiling_usd ox \<noteq> 0"
  obtains z where "prepare_sizing opp books s now lm resolver = Inr (Inr z)"
proof -
  obtain r where r: "prepare_sizing opp books s now lm resolver = Inr r"
    using assms(1) by (auto simp: qualify_opportunity_def Let_def)
  show thesis
  proof (cases r)
    case (Inl reason)
    then have False using r assms reject_all_fields(4) by (auto simp: qualify_opportunity_def Let_def)
    then show thesis ..
  next
    case (Inr z)
    then show thesis using r that by simp
  qed
qed

abbreviation search_tolerance :: "settings \<Rightarrow> real" where
  "search_tolerance s \<equiv> max (1 / 100) (se_capacity_search_tolerance_usd s)"

lemma qualify_sized:
  assumes "qualify_opportunity opp books s ns now lm resolver = Inr ox"
    and "prepare_sizing opp books s now lm resolver = Inr (Inr z)"
  shows "capacity_search (evaluate z) (search_tolerance (sz_settings z)) (ox_visible_depth_ceiling_usd ox)
           = Inr (ox_estimated_capacity_notional_usd ox, ox_capacity_frontier_net_annualized_return ox)"
    and "rmap (evaluate z) (if ns = [] then se_capital_tiers_usd s else ns) = Inr (ox_tiers ox)"
    and "ox_max_qualified_notional_usd ox = max_qualified (ox_tiers ox)"
  using assms
  by (auto simp: qualify_opportunity_def sized_executability_def Let_def executability_of_def)

lemma prepare_fields:
  assumes "prepare_sizing opp books s now lm resolver = Inr (Inr z)"
  shows "sz_opportunity z = opp" and "sz_settings z = s" and "admissible opp books s now"
    and "sz_pairs z = zip (op_legs opp) (found_books (dict_by book_key books) (op_legs opp))"
  using assms
  by (auto simp: prepare_sizing_def admissible_def sz_pairs_def Let_def missing_books_Nil filter_empty_conv
      not_less split: if_splits)

lemma foldl_max_le_iff: "foldl max (x::real) xs \<le> c \<longleftrightarrow> x \<le> c \<and> (\<forall>y \<in> set xs. y \<le> c)"
  by (induction xs arbitrary: x) auto

text \<open>The reported maximum qualified tier is the largest notional among the qualified tiers.\<close>

lemma max_qualified_is_max:
  "t \<in> set tiers \<Longrightarrow> tier_qualified t \<Longrightarrow> ct_notional_usd_per_leg t \<le> max_qualified tiers"
proof -
  assume "t \<in> set tiers" "tier_qualified t"
  then have t: "ct_notional_usd_per_leg t \<in> set (map ct_notional_usd_per_leg (filter tier_qualified tiers))"
    by simp
  then show ?thesis
    using foldl_max_ge
    by (cases "map ct_notional_usd_per_leg (filter tier_qualified tiers)")
      (auto simp: max_qualified_def)
qed

end
