(* ===== verification/Fixtures.thy ===== *)
theory Fixtures
  imports Qualification
begin

text \<open>
  Concrete inputs for the witnesses: a spot book and a perpetual book two levels deep, and
  the cash-and-carry opportunity between them.
\<close>

definition fx_spot_book :: order_book_snapshot where
  "fx_spot_book = \<lparr>ob_venue = ''Coinbase'', ob_asset = ''BTC'', ob_market_kind = SPOT,
     ob_symbol = ''BTC-USD'', ob_quote_currency = Some ''USD'', ob_contract_key = None,
     ob_expires_at = None,
     ob_bids = [\<lparr>lv_price = 99, lv_size = 50\<rparr>],
     ob_asks = [\<lparr>lv_price = 101, lv_size = 50\<rparr>, \<lparr>lv_price = 100, lv_size = 50\<rparr>],
     ob_observed_at = 0, ob_source = ''fixture'', ob_request_latency_ms = None\<rparr>"

definition fx_perp_book :: order_book_snapshot where
  "fx_perp_book = \<lparr>ob_venue = ''HlPerp'', ob_asset = ''BTC'', ob_market_kind = PERPETUAL,
     ob_symbol = ''BTC'', ob_quote_currency = Some ''USD'', ob_contract_key = None,
     ob_expires_at = None,
     ob_bids = [\<lparr>lv_price = 102, lv_size = 60\<rparr>, \<lparr>lv_price = 203 / 2, lv_size = 60\<rparr>],
     ob_asks = [\<lparr>lv_price = 103, lv_size = 60\<rparr>],
     ob_observed_at = 1000000, ob_source = ''fixture'', ob_request_latency_ms = None\<rparr>"

definition fx_books :: "order_book_snapshot list" where
  "fx_books = [fx_spot_book, fx_perp_book]"

definition fx_leg :: "string \<Rightarrow> market_kind \<Rightarrow> side \<Rightarrow> string \<Rightarrow> opportunity_leg" where
  "fx_leg venue kind sd symbol = \<lparr>lg_venue = venue, lg_asset = ''BTC'', lg_market_kind = kind,
     lg_side = sd, lg_symbol = Some symbol, lg_quote_currency = Some ''USD'',
     lg_contract_key = None, lg_expires_at = None, lg_reference_price = None\<rparr>"

definition fx_opportunity :: opportunity where
  "fx_opportunity = \<lparr>op_id = ''op-1'', op_strategy = SPOT_PERP_BASIS, op_asset = ''BTC'',
     op_legs = [fx_leg ''Coinbase'' SPOT LONG ''BTC-USD'', fx_leg ''HlPerp'' PERPETUAL SHORT ''BTC''],
     op_gross_edge_bps_per_hour = 25 / 4, op_modeled_cost_bps = 20, op_holding_hours = 24,
     op_safety_buffer_bps_per_hour = 1 / 50, op_net_edge_bps_per_hour = 5,
     op_net_annualized_return = 1 / 2, op_observed_at = 0, op_expires_at = 120000000,
     op_confidence = LowConfidence, op_evidence = [], op_paper_only = True\<rparr>"

text \<open>The record that the guards of \<open>qualify_opportunity\<close> prepare for these inputs, two seconds on.\<close>

definition fx_sizing :: sizing where
  "fx_sizing = \<lparr>sz_opportunity = fx_opportunity, sz_settings = default_settings,
     sz_leg_books = fx_books, sz_reference = 102, sz_reserve_ratio = 5 / 4,
     sz_worst_book_age = 2, sz_latency_model = None, sz_resolver = None\<rparr>"

lemmas fx_book_defs = fx_spot_book_def fx_perp_book_def fx_books_def
lemmas fx_defs = fx_book_defs fx_leg_def fx_opportunity_def

lemma fx_books_valid: "\<forall>b \<in> set fx_books. valid_book b"
  by (simp add: fx_book_defs valid_book_def validate_book_def valid_level_def)

lemma fx_prepared: "prepare_sizing fx_opportunity fx_books default_settings 2000000 None None = Inr (Inr fx_sizing)"
  by (simp add: prepare_sizing_def fx_sizing_def fx_defs missing_books_def found_books_def
      dict_by_def book_key_def leg_key_def book_age_def book_skew_def total_seconds_def
      default_settings_def best_price_def book_levels_def trade_side_of_def Let_def)

lemma fx_tier_1000: "\<exists>t. evaluate fx_sizing 1000 = Inr t \<and> tier_qualified t"
proof -
  have "case evaluate fx_sizing 1000 of Inr t \<Rightarrow> tier_qualified t | Inl _ \<Rightarrow> False" by code_simp
  then show ?thesis by (auto split: sum.splits)
qed

lemma fx_tier_8000: "\<exists>t. evaluate fx_sizing 8000 = Inr t \<and> ct_executable t \<and> \<not> tier_qualified t"
proof -
  have "case evaluate fx_sizing 8000 of Inr t \<Rightarrow> ct_executable t \<and> \<not> tier_qualified t | Inl _ \<Rightarrow> False"
    by code_simp
  then show ?thesis by (auto split: sum.splits)
qed

text \<open>A resolver as production passes one: its model charges the larger sizes more.\<close>

definition fx_model :: empirical_latency_model where
  "fx_model = \<lparr>lm_model_version = ''fixture'', lm_model_scope = [], lm_scope_strategy = None,
     lm_scope_venue_pair = None, lm_scope_asset = None, lm_scope_notional_usd_per_leg = None,
     lm_scope_candidate_counts = [], lm_scope_horizon_counts = [], lm_scope_effective_counts = [],
     lm_scope_fallbacks = [], lm_latency_quantile = 0, lm_scan_latency_sample_count = 0,
     lm_data_latency_sample_count = 0, lm_data_latency_source = Unavailable, lm_cohort_sample_count = 0,
     lm_effective_sample_size = 0, lm_lower_horizon_sample_count = 0, lm_upper_horizon_sample_count = 0,
     lm_reference_latency_ms = None, lm_collector_latency_reference_ms = None,
     lm_assumed_order_ack_latency_ms = 0, lm_assumed_second_leg_latency_ms = 0,
     lm_effective_decision_to_hedge_latency_ms = None, lm_execution_latency_empirical = False,
     lm_execution_latency_note = [], lm_reference_horizon_seconds = None,
     lm_reference_lower_horizon_seconds = None, lm_reference_upper_horizon_seconds = None,
     lm_interpolation_weight = 0, lm_interpolation_mode = Single_horizon, lm_scan_latency_p50_ms = None,
     lm_scan_latency_p90_ms = None, lm_scan_latency_p95_ms = None, lm_data_latency_p50_ms = None,
     lm_data_latency_p90_ms = None, lm_data_latency_p95_ms = None, lm_confidence_level = 19 / 20,
     lm_probability_max_ci_width = None, lm_confidence_gate_passed = True,
     lm_pair_fill_probability = None, lm_pair_fill_ci_lower = None, lm_pair_fill_ci_upper = None,
     lm_reserve_fill_probability = None, lm_reserve_fill_ci_lower = None,
     lm_reserve_fill_ci_upper = None, lm_capture_probability = None, lm_capture_ci_lower = None,
     lm_capture_ci_upper = None, lm_hedge_recovery_probability = None,
     lm_hedge_recovery_ci_lower = None, lm_hedge_recovery_ci_upper = None,
     lm_partial_fill_probability = None, lm_pair_fill_fraction_p10 = None,
     lm_pair_fill_fraction_p50 = None, lm_unhedged_fraction_p50 = None, lm_unhedged_fraction_p90 = None,
     lm_unhedged_fraction_p95 = None, lm_hedge_recovery_loss_p50_bps = None,
     lm_hedge_recovery_loss_p90_bps = None, lm_hedge_recovery_loss_p95_bps = None,
     lm_adverse_selection_p50_bps = None, lm_adverse_selection_p90_bps = None,
     lm_adverse_selection_p95_bps = None, lm_empirical_latency_risk_bps = None, lm_fill_model_kind = [],
     lm_queue_position_supported = False, lm_maker_fill_probability = None,
     lm_usable_for_qualification = True, lm_reason = None, lm_paper_only = True\<rparr>"

definition fx_resolver :: "opportunity \<Rightarrow> real \<Rightarrow> empirical_latency_model" where
  "fx_resolver opp n = fx_model\<lparr>lm_empirical_latency_risk_bps := Some (if n < 5000 then 1 / 10 else 1 / 5)\<rparr>"

definition fx_resolved :: sizing where
  "fx_resolved = fx_sizing\<lparr>sz_resolver := Some fx_resolver\<rparr>"

lemma fx_resolved_prepared:
  "prepare_sizing fx_opportunity fx_books default_settings 2000000 None (Some fx_resolver) = Inr (Inr fx_resolved)"
  by (simp add: prepare_sizing_def fx_sizing_def fx_resolved_def fx_defs missing_books_def found_books_def
      dict_by_def book_key_def leg_key_def book_age_def book_skew_def total_seconds_def
      default_settings_def best_price_def book_levels_def trade_side_of_def Let_def)

lemma fx_resolved_1000: "\<exists>t. evaluate fx_resolved 1000 = Inr t \<and> tier_qualified t"
proof -
  have "case evaluate fx_resolved 1000 of Inr t \<Rightarrow> tier_qualified t | Inl _ \<Rightarrow> False" by code_simp
  then show ?thesis by (auto split: sum.splits)
qed

lemma fx_resolved_8000: "\<exists>t. evaluate fx_resolved 8000 = Inr t \<and> \<not> tier_qualified t"
proof -
  have "case evaluate fx_resolved 8000 of Inr t \<Rightarrow> \<not> tier_qualified t | Inl _ \<Rightarrow> False" by code_simp
  then show ?thesis by (auto split: sum.splits)
qed

text \<open>A qualified tier of the same opportunity, and the executability record around it.\<close>

definition fx_tier :: capital_tier where
  "fx_tier = (blank_tier fx_opportunity 1000)\<lparr>ct_executable := True, ct_passes_return_hurdle := True,
     ct_capital_required_usd := 2000, ct_capital_multiple := 2, ct_net_annualized_return := Fin (1 / 2)\<rparr>"

definition fx_executability :: opportunity_executability where
  "fx_executability = (executability_of fx_opportunity 2000000 [fx_tier])\<lparr>
     ox_max_qualified_notional_usd := 1000, ox_estimated_capacity_notional_usd := 5000\<rparr>"

end
