(* ===== verification/Props_Execution.thy ===== *)
theory Props_Execution
  imports Capacity Fixtures
begin

text \<open>
  The properties of the configuration, the cost model, the fill estimates and the capital
  qualification, each with a witness on the fixtures.
\<close>

section \<open>Configuration and costs\<close>

text \<open>Whatever the environment says, settings are paper-only, with positive ascending capital tiers.\<close>

theorem settings_from_env_safe:
  assumes "from_env env pf pint = Inr s"
  shows "se_paper_only s \<and> se_capital_tiers_usd s \<noteq> [] \<and> (\<forall>v \<in> set (se_capital_tiers_usd s). 0 < v)
    \<and> sorted (se_capital_tiers_usd s) \<and> distinct (se_capital_tiers_usd s)
    \<and> 1 \<le> se_dex_route_frontier_every_cycles s \<and> 1 \<le> se_dex_route_tier_shadow_every_cycles s
    \<and> 1 \<le> se_dex_route_tier_shadow_max_concurrency s
    \<and> 1 \<le> se_alpha_min_regimes s \<and> 1 \<le> se_alpha_evidence_every_cycles s"
  using from_env_ok [OF assms] by (simp add: settings_ok_def)

theorem settings_from_env_safe_witness:
  "\<exists>s. from_env (\<lambda>_. None) (\<lambda>_. Inl (ValueError [])) (\<lambda>_. Inl (ValueError [])) = Inr s
     \<and> se_paper_only s \<and> se_capital_tiers_usd s \<noteq> []"
proof -
  have "\<exists>s. from_env (\<lambda>_. None) (\<lambda>_. Inl (ValueError [])) (\<lambda>_. Inl (ValueError [])) = Inr s"
    by (simp add: from_env_def env_bool_def settings_steps_core_def settings_steps_evidence_def
        settings_steps_research_def env_float_def env_int_def env_optional_float_def env_float_tuple_def)
  then obtain s where
    s: "from_env (\<lambda>_. None) (\<lambda>_. Inl (ValueError [])) (\<lambda>_. Inl (ValueError [])) = Inr s" by blast
  show ?thesis using s settings_from_env_safe [OF s] by (intro exI [of _ s] conjI) simp_all
qed

text \<open>The markets that have a taker fee.\<close>

lemma taker_fee_supported:
  "(\<exists>f. taker_fee_bps leg s = Inr f) \<longleftrightarrow>
     (lg_venue leg, lg_market_kind leg) \<in> {(''Coinbase'', SPOT), (''HlPerp'', PERPETUAL), (''Kraken'', SPOT),
       (''Bybit'', SPOT), (''Bybit'', PERPETUAL), (''Bybit'', FUTURE), (''OKX'', SPOT), (''OKX'', PERPETUAL), (''OKX'', FUTURE)}"
  by (cases "lg_market_kind leg") (auto simp: taker_fee_bps_def Let_def)

text \<open>
  A positive notional is priced exactly when every leg is on one of the nine markets with an
  explicit fee, and no leg sells spot short without a known borrow cost.
\<close>

theorem costs_fail_closed:
  assumes "0 < n"
  shows "(\<exists>c. economic_costs opp n s age lm = Inr c) \<longleftrightarrow>
    (\<forall>leg \<in> set (op_legs opp). (lg_venue leg, lg_market_kind leg) \<in>
         {(''Coinbase'', SPOT), (''HlPerp'', PERPETUAL), (''Kraken'', SPOT), (''Bybit'', SPOT), (''Bybit'', PERPETUAL),
          (''Bybit'', FUTURE), (''OKX'', SPOT), (''OKX'', PERPETUAL), (''OKX'', FUTURE)}
       \<and> \<not> (lg_market_kind leg = SPOT \<and> lg_side leg = SHORT \<and> se_spot_short_borrow_annual s = None))"
  unfolding taker_fee_supported [symmetric, of _ s]
  using economic_costs_defined_iff [OF assms] by (simp add: list_all_iff leg_priced_def)

lemma fx_legs_priced: "list_all (\<lambda>leg. leg_priced default_settings leg) (op_legs fx_opportunity)"
  by (simp add: leg_priced_def fx_opportunity_def fx_leg_def default_settings_def taker_fee_bps_def,
    intro exI [of _ "9 / 2"], simp)

theorem costs_fail_closed_witness:
  "\<not> (\<exists>c. economic_costs (fx_opportunity\<lparr>op_legs := [fx_leg ''Coinbase'' SPOT SHORT ''BTC-USD'']\<rparr>) 1000
        default_settings 0 None = Inr c)
   \<and> (\<exists>c. economic_costs fx_opportunity 1000 default_settings 0 None = Inr c)"
proof
  show "\<not> (\<exists>c. economic_costs (fx_opportunity\<lparr>op_legs := [fx_leg ''Coinbase'' SPOT SHORT ''BTC-USD'']\<rparr>) 1000
        default_settings 0 None = Inr c)"
    by (subst costs_fail_closed) (simp_all add: fx_leg_def default_settings_def)
  show "\<exists>c. economic_costs fx_opportunity 1000 default_settings 0 None = Inr c"
    by (subst costs_fail_closed) (simp_all add: fx_opportunity_def fx_leg_def)
qed

text \<open>
  The non-slippage cost is the sum of its parts, the transaction part is never below the
  venue fees or the screening floor, the recovery buffer is never below the configured one
  even under an empirical model, and reserved capital is the notional times the collateral
  fractions of the legs.
\<close>

theorem costs_conservative:
  assumes "economic_costs opp n s age lm = Inr c"
  shows "cb_total_non_slippage_cost_bps c = cb_transaction_cost_bps c + cb_financing_cost_bps c
      + cb_collateral_opportunity_cost_bps c + cb_latency_risk_bps c + cb_hedge_recovery_buffer_bps c
    \<and> cb_venue_roundtrip_fee_bps c \<le> cb_transaction_cost_bps c
    \<and> op_modeled_cost_bps opp \<le> cb_transaction_cost_bps c
    \<and> max 0 (se_hedge_recovery_buffer_bps s) \<le> cb_hedge_recovery_buffer_bps c
    \<and> cb_capital_required_usd c = n * (\<Sum>leg\<leftarrow>op_legs opp. collateral_fraction leg s)
    \<and> cb_capital_multiple c = (\<Sum>leg\<leftarrow>op_legs opp. collateral_fraction leg s)"
  using economic_costs_fields [OF assms] recovery_buffer_ge_fixed
  by (simp add: collateral_sum_def)

theorem costs_conservative_witness:
  "\<exists>c. economic_costs fx_opportunity 1000 default_settings 0 None = Inr c
     \<and> cb_venue_roundtrip_fee_bps c \<le> cb_transaction_cost_bps c"
proof -
  have "\<exists>c. economic_costs fx_opportunity 1000 default_settings 0 None = Inr c"
    using fx_legs_priced by (simp add: economic_costs_defined_iff)
  then show ?thesis using costs_conservative by blast
qed

section \<open>Fill estimates\<close>

text \<open>
  C27: on a valid book, a taker order above the walk's resolution and inside the visible
  depth is filled up to the code's tolerance by a greedy walk: sorted by price, best first,
  every level but the last one reached is taken whole, and each take pays the price of its own
  level, which fixes the average price.  The best price is the least ask or the greatest bid,
  and the slippage is the adverse move from it to the average, never clamped from below.
\<close>

theorem quantity_fill_correct:
  assumes "valid_book b" and "1 / 10 ^ 12 < q" and "q \<le> max_executable_quantity b side"
  shows "\<exists>e ls takes. estimate_market_order_quantity b side q True = Inr e
    \<and> mset ls = mset (if side = BUY then ob_asks b else ob_bids b)
    \<and> sorted_wrt (\<lambda>x y. if side = BUY then lv_price x \<le> lv_price y else lv_price y \<le> lv_price x) ls
    \<and> length takes = qe_levels_consumed e \<and> 1 \<le> length takes \<and> length takes \<le> length ls
    \<and> list_all (\<lambda>(take, l). 0 < take \<and> take \<le> lv_size l) (zip takes ls)
    \<and> butlast takes = map lv_size (take (length takes - 1) ls)
    \<and> qe_filled_base_quantity e = sum_list takes
    \<and> 0 \<le> q - sum_list takes \<and> q - sum_list takes \<le> max (1 / 10 ^ 12) (q * (1 / 10 ^ 9))
    \<and> qe_average_price e * sum_list takes = (\<Sum>(take, l)\<leftarrow>zip takes ls. take * lv_price l)
    \<and> qe_filled_notional_usd e = (\<Sum>(take, l)\<leftarrow>zip takes ls. take * lv_price l)
    \<and> qe_best_price e = (if side = BUY then Min (lv_price ` set (ob_asks b))
                         else Max (lv_price ` set (ob_bids b)))
    \<and> qe_slippage_bps e = (if side = BUY then (qe_average_price e / qe_best_price e - 1) * 10000
                           else (1 - qe_average_price e / qe_best_price e) * 10000)
    \<and> 0 \<le> qe_slippage_bps e"
proof -
  note v = valid_book_side [OF assms(1), of side]
  have "q \<le> max_executable_quantity b side + 1 / 10 ^ 12" using assms(3) by (rule order_trans) simp
  from quantity_estimate_exists [OF v assms(2) this]
  obtain e where e: "estimate_market_order_quantity b side q True = Inr e" by blast
  let ?ls = "ordered_side b side"
  note snd = quantity_estimate_sound [OF e v]
  obtain ts where ts: "length ts = qe_levels_consumed e" "length ts \<le> length ?ls"
      "list_all (\<lambda>(t, l). 0 < t \<and> t \<le> lv_size l) (zip ts ?ls)" "butlast ts = map lv_size (take (length ts - 1) ?ls)"
      "qe_filled_base_quantity e = sum_list ts"
      "qe_average_price e * qe_filled_base_quantity e = (\<Sum>(t, l)\<leftarrow>zip ts ?ls. t * lv_price l)"
    using quantity_estimate_takes [OF e v] by blast
  have best: "qe_best_price e = lv_price (hd ?ls)" by (rule quantity_estimateE [OF e]) simp
  have "qe_best_price e = (if side = BUY then Min (lv_price ` set (ob_asks b))
      else Max (lv_price ` set (ob_bids b)))"
    using best_price_eq [of "book_levels b side"] v best
    by (cases side) (simp_all add: valid_side_def book_levels_def)
  moreover have "mset ?ls = mset (if side = BUY then ob_asks b else ob_bids b)"
    by (simp add: price_ordered_def book_levels_def)
  moreover have "sorted_wrt (\<lambda>x y. if side = BUY then lv_price x \<le> lv_price y else lv_price y \<le> lv_price x) ?ls"
    using sign_ordered [of side "book_levels b side"] by (cases side) (simp_all add: sorted_map)
  moreover have "0 \<le> qe_slippage_bps e" by (rule quantity_estimate_slippage [OF e]) simp
  moreover have "qe_slippage_bps e = (if side = BUY then (qe_average_price e / qe_best_price e - 1) * 10000
      else (1 - qe_average_price e / qe_best_price e) * 10000)"
    using snd(9) by (simp add: raw_slippage_def)
  moreover have "qe_filled_notional_usd e = (\<Sum>(t, l)\<leftarrow>zip ts ?ls. t * lv_price l)" using snd(5) ts(6) by simp
  moreover have "0 \<le> q - sum_list ts" "q - sum_list ts \<le> max (1 / 10 ^ 12) (q * (1 / 10 ^ 9))" "1 \<le> length ts"
    using snd(2,3,10) ts(1,5) by simp_all
  ultimately show ?thesis using e ts
    by (intro exI [of _ e] exI [of _ ?ls] exI [of _ ts] conjI) simp_all
qed

theorem quantity_fill_correct_witness:
  "valid_book fx_spot_book \<and> 1 / 10 ^ 12 < (60 :: real) \<and> 60 \<le> max_executable_quantity fx_spot_book BUY
   \<and> (\<exists>e takes. estimate_market_order_quantity fx_spot_book BUY 60 True = Inr e
        \<and> qe_filled_base_quantity e = sum_list takes \<and> sum_list takes \<le> 60)"
proof -
  have h: "valid_book fx_spot_book" using fx_books_valid by (simp add: fx_books_def)
  have d: "60 \<le> max_executable_quantity fx_spot_book BUY"
    by (simp add: max_executable_quantity_def book_levels_def fx_spot_book_def)
  obtain e ls takes where "estimate_market_order_quantity fx_spot_book BUY 60 True = Inr e"
    "qe_filled_base_quantity e = sum_list takes" "0 \<le> 60 - sum_list takes"
    using quantity_fill_correct [OF h _ d] by auto
  then show ?thesis using h d by auto
qed

text \<open>An order beyond the visible depth by more than the tolerance is refused, never partly priced.\<close>

theorem quantity_fill_refused:
  assumes "valid_book b" and "0 < q"
    and "q - max_executable_quantity b side > max (1 / 10 ^ 12) (q * (1 / 10 ^ 9))"
  shows "\<exists>m. estimate_market_order_quantity b side q True = Inl (InsufficientDepthError m)"
proof -
  note v = valid_book_side [OF assms(1), of side]
  let ?ls = "ordered_side b side"
  obtain r f w k where run: "quantity_loop ?ls q 0 0 0 = (r, f, w, k)" by (metis prod_cases4)
  have caps: "\<forall>l \<in> set ?ls. 0 \<le> lv_size l" using valid_sideD [OF v] by (auto intro: less_imp_le)
  have "f \<le> max_executable_quantity b side"
    using ql.loop_bounds(3) [OF run caps] assms(2) by (simp add: max_executable_quantity_def)
  then have "r > max (1 / 10 ^ 12) (q * (1 / 10 ^ 9))"
    using ql.loop_conserves [OF run] assms(3) by linarith
  then show ?thesis using v assms(2) run
    by (auto simp: estimate_market_order_quantity_def ordered_levels_def valid_side_def Let_def)
qed

theorem quantity_fill_refused_witness:
  "\<exists>m. estimate_market_order_quantity fx_spot_book BUY 101 True = Inl (InsufficientDepthError m)"
proof (rule quantity_fill_refused)
  show "valid_book fx_spot_book" using fx_books_valid by (simp add: fx_books_def)
qed (simp_all add: max_executable_quantity_def book_levels_def fx_spot_book_def)

text \<open>Slippage is monotone in the order size.\<close>

theorem slippage_never_improves:
  assumes "valid_book b" and "q1 \<le> q2"
    and "estimate_market_order_quantity b side q1 full1 = Inr e1"
    and "estimate_market_order_quantity b side q2 full2 = Inr e2"
  shows "qe_slippage_bps e1 \<le> qe_slippage_bps e2"
  by (rule slippage_monotone [OF assms(3,4) valid_book_side [OF assms(1)] assms(2)])

theorem slippage_never_improves_witness:
  "\<exists>e1 e2. estimate_market_order_quantity fx_spot_book BUY 10 True = Inr e1
     \<and> estimate_market_order_quantity fx_spot_book BUY 60 True = Inr e2
     \<and> qe_slippage_bps e1 \<le> qe_slippage_bps e2"
proof -
  have v: "valid_book fx_spot_book" using fx_books_valid by (simp add: fx_books_def)
  have "\<exists>e. estimate_market_order_quantity fx_spot_book BUY q True = Inr e" if "q = 10 \<or> q = 60" for q
    by (rule quantity_estimate_exists [OF valid_book_side [OF v]])
      (use that in \<open>auto simp: max_executable_quantity_def book_levels_def fx_spot_book_def\<close>)
  then obtain e1 e2 where e: "estimate_market_order_quantity fx_spot_book BUY 10 True = Inr e1"
    "estimate_market_order_quantity fx_spot_book BUY 60 True = Inr e2" by blast
  have "qe_slippage_bps e1 \<le> qe_slippage_bps e2"
    by (rule slippage_never_improves [OF v _ e]) simp
  with e show ?thesis by blast
qed

section \<open>Qualification and capacity\<close>

text \<open>An estimate that requires a full fill is full, on any book.\<close>

lemma full_fill_estimate:
  assumes "estimate_market_order_quantity b (trade_side_of sd) q True = Inr e"
  shows "q - qe_filled_base_quantity e \<le> max (1 / 10 ^ 12) (q * (1 / 10 ^ 9))"
    and "qe_slippage_bps e = max 0 (if sd = LONG then (qe_average_price e / qe_best_price e - 1) * 10000
      else (1 - qe_average_price e / qe_best_price e) * 10000)"
proof -
  obtain r f w k where run: "quantity_loop (ordered_side b (trade_side_of sd)) q 0 0 0 = (r, f, w, k)"
    and full: "r \<le> max (1 / 10 ^ 12) (q * (1 / 10 ^ 9))"
    and fields: "qe_filled_base_quantity e = f"
      "qe_slippage_bps e = max 0 (raw_slippage (trade_side_of sd) (qe_average_price e / qe_best_price e))"
    by (rule quantity_estimateE [OF assms]) (rule that, assumption+, simp_all)
  show "q - qe_filled_base_quantity e \<le> max (1 / 10 ^ 12) (q * (1 / 10 ^ 9))"
    using ql.loop_conserves [OF run] full by (simp add: fields)
  show "qe_slippage_bps e = max 0 (if sd = LONG then (qe_average_price e / qe_best_price e - 1) * 10000
      else (1 - qe_average_price e / qe_best_price e) * 10000)"
    by (simp add: fields raw_slippage_def trade_side_of_def)
qed

text \<open>
  C28: with the wrong number of legs, a missing book, a stale book or too much skew between
  the books, no size is executable and the capacity is zero.
\<close>

theorem qualification_fails_closed:
  assumes "\<not> (length (op_legs opp) = 2
      \<and> (\<forall>l \<in> set (op_legs opp). dict_by book_key books (leg_key l) \<noteq> None)
      \<and> (\<forall>b \<in> set (found_books (dict_by book_key books) (op_legs opp)).
            book_age now b \<le> se_max_order_book_age_seconds s)
      \<and> book_skew (found_books (dict_by book_key books) (op_legs opp)) \<le> se_max_order_book_skew_seconds s)"
    and "qualify_opportunity opp books s ns now lm resolver = Inr ox"
  shows "(\<forall>t \<in> set (ox_tiers ox). \<not> ct_executable t) \<and> ox_estimated_capacity_notional_usd ox = 0
    \<and> ox_max_qualified_notional_usd ox = 0"
proof -
  have "\<not> admissible opp books s now" using assms(1) by (simp add: admissible_def Let_def)
  from not_admissible_rejects [OF this assms(2)] show ?thesis by blast
qed

theorem qualification_fails_closed_witness:
  "\<exists>ox. qualify_opportunity fx_opportunity [fx_spot_book] default_settings [1000] 2000000 None None = Inr ox
     \<and> (\<exists>t. ox_tiers ox = [t] \<and> \<not> ct_executable t) \<and> ox_estimated_capacity_notional_usd ox = 0"
proof -
  have na: "\<not> (length (op_legs fx_opportunity) = 2
      \<and> (\<forall>l \<in> set (op_legs fx_opportunity). dict_by book_key [fx_spot_book] (leg_key l) \<noteq> None)
      \<and> (\<forall>b \<in> set (found_books (dict_by book_key [fx_spot_book]) (op_legs fx_opportunity)).
            book_age 2000000 b \<le> se_max_order_book_age_seconds default_settings)
      \<and> book_skew (found_books (dict_by book_key [fx_spot_book]) (op_legs fx_opportunity))
            \<le> se_max_order_book_skew_seconds default_settings)"
    by (simp add: fx_defs dict_by_def book_key_def leg_key_def)
  have "\<exists>ox t. qualify_opportunity fx_opportunity [fx_spot_book] default_settings [1000] 2000000 None None = Inr ox
      \<and> ox_tiers ox = [t]"
    by (simp add: qualify_opportunity_def prepare_sizing_def missing_books_def fx_defs dict_by_def
        book_key_def leg_key_def reject_all_def rejected_tier_def executability_of_def Let_def)
  then obtain ox t where ox: "qualify_opportunity fx_opportunity [fx_spot_book] default_settings [1000]
    2000000 None None = Inr ox" "ox_tiers ox = [t]" by blast
  show ?thesis using qualification_fails_closed [OF na ox(1)] ox by simp
qed

text \<open>
  C3: a qualified tier has an explicit fee on both legs and no unknown borrow cost, depth for
  the hedge reserve on both sides, and a full fill of the same quantity on both legs.  Its net
  edge per hour is, spelled out, the gross edge less round-trip fees (or the screening floor),
  borrow, collateral, latency, recovery buffer, entry and exit slippage and the safety buffer;
  it is positive, and its annual return on the reserved capital meets the hurdle.
\<close>

theorem qualified_tier_sound:
  assumes "evaluate z n = Inr t" and "ct_executable t" and "ct_passes_return_hurdle t"
  shows "let opp = sz_opportunity z; s = sz_settings z; legs = op_legs opp; h = op_holding_hours opp;
      q = n / sz_reference z; model = usable_model (effective_latency_model z n);
      multiple = (\<Sum>leg\<leftarrow>legs. collateral_fraction leg s);
      slippage = (\<Sum>le\<leftarrow>ct_leg_estimates t. le_slippage_bps le);
      cost = max (op_modeled_cost_bps opp) (2 * (\<Sum>leg\<leftarrow>legs. taker_fee s leg))
        + (\<Sum>leg\<leftarrow>legs. borrow_cost s h leg)
        + se_collateral_opportunity_cost_annual s * (h / (24 * 365)) * 10000 * multiple
        + max 0 (sz_worst_book_age z) * se_latency_risk_bps_per_second s
        + hedge_latency_risk_bps s model + recovery_buffer_bps s model
        + slippage + slippage * se_exit_slippage_multiplier s;
      net = (op_gross_edge_bps_per_hour opp * h - cost - op_safety_buffer_bps_per_hour opp * h) / h
    in list_all (leg_priced s) legs
    \<and> (\<forall>p \<in> set (sz_pairs z). q * sz_reserve_ratio z \<le> pair_depth p + 1 / 10 ^ 12)
    \<and> list_all2 (\<lambda>p le. le_requested_base_quantity le = q \<and> 0 < le_filled_base_quantity le
         \<and> q - le_filled_base_quantity le \<le> max (1 / 10 ^ 12) (q * (1 / 10 ^ 9))
         \<and> le_slippage_bps le = max 0 (if lg_side (fst p) = LONG
              then (le_average_price le / le_best_price le - 1) * 10000
              else (1 - le_average_price le / le_best_price le) * 10000))
        (sz_pairs z) (ct_leg_estimates t)
    \<and> ct_net_edge_bps_per_hour t = net \<and> 0 < net
    \<and> ct_net_annualized_return t = Fin (net / 10000 * 24 * 365 / multiple)
    \<and> se_min_net_annualized_return s \<le> net / 10000 * 24 * 365 / multiple
    \<and> ct_capital_required_usd t = n * multiple \<and> 0 < ct_capital_required_usd t"
proof -
  obtain costs les where ev: "sz_reference z \<noteq> 0" "\<not> depth_short z (n / sz_reference z)"
      "economic_costs (sz_opportunity z) n (sz_settings z) (sz_worst_book_age z)
         (effective_latency_model z n) = Inr costs"
      "pair_estimates (sz_pairs z) (n / sz_reference z) les"
      "priced_tier z n (n / sz_reference z) costs les = Inr t"
    by (rule evaluate_executableE [OF assms(1,2)])
  note f = priced_tier_fields [OF ev(5)] and c = economic_costs_fields [OF ev(3)]
  have "list_all (leg_priced (sz_settings z)) (op_legs (sz_opportunity z))"
    using economic_costs_defined_iff [OF c(1)] ev(3) by blast
  moreover have "list_all2 (\<lambda>p le. le_requested_base_quantity le = n / sz_reference z \<and> 0 < le_filled_base_quantity le
      \<and> n / sz_reference z - le_filled_base_quantity le \<le> max (1 / 10 ^ 12) (n / sz_reference z * (1 / 10 ^ 9))
      \<and> le_slippage_bps le = max 0 (if lg_side (fst p) = LONG
           then (le_average_price le / le_best_price le - 1) * 10000
           else (1 - le_average_price le / le_best_price le) * 10000)) (sz_pairs z) (ct_leg_estimates t)"
    using ev(4) unfolding pair_estimates_def f(4)
  proof (rule list_all2_mono, elim exE conjE)
    fix p le e
    assume e: "estimate_market_order_quantity (snd p) (trade_side_of (lg_side (fst p))) (n / sz_reference z) True = Inr e"
      and le: "le = leg_estimate_of (fst p) (n / sz_reference z) e" "valid_leg_estimate le"
    show "le_requested_base_quantity le = n / sz_reference z \<and> 0 < le_filled_base_quantity le
      \<and> n / sz_reference z - le_filled_base_quantity le \<le> max (1 / 10 ^ 12) (n / sz_reference z * (1 / 10 ^ 9))
      \<and> le_slippage_bps le = max 0 (if lg_side (fst p) = LONG
           then (le_average_price le / le_best_price le - 1) * 10000
           else (1 - le_average_price le / le_best_price le) * 10000)"
      using full_fill_estimate [OF e] le by (simp add: leg_estimate_of_def valid_leg_estimate_def)
  qed
  moreover have "0 < ct_capital_required_usd t" using f(7,9) c(1-3) assms(3) by simp
  moreover have "\<forall>p \<in> set (sz_pairs z). n / sz_reference z * sz_reserve_ratio z \<le> pair_depth p + 1 / 10 ^ 12"
    using ev(2) by (simp add: depth_short_def not_less)
  moreover have "ct_capital_required_usd t = n * (\<Sum>leg\<leftarrow>op_legs (sz_opportunity z). collateral_fraction leg (sz_settings z))"
    using f(7) c(2) by (simp add: collateral_sum_def)
  moreover note priced_net = f(6,8,9) [unfolded net_hourly_bps_def economic_costs_total [OF ev(3)] c(3)
      standing_cost_bps_def model_charge_bps_def collateral_sum_def f(4) [symmetric]]
  ultimately show ?thesis
    using assms(3) unfolding Let_def by (simp only: priced_net add.assoc if_True)
qed

theorem qualified_tier_sound_witness:
  "\<exists>t. evaluate fx_sizing 1000 = Inr t \<and> ct_executable t \<and> 0 < ct_net_edge_bps_per_hour t"
proof -
  obtain t where t: "evaluate fx_sizing 1000 = Inr t" "ct_executable t" "ct_passes_return_hurdle t"
    using fx_tier_1000 by (auto simp: tier_qualified_def)
  show ?thesis using qualified_tier_sound [OF t] t by (auto simp: Let_def)
qed

text \<open>
  On valid books, under a latency charge that does not fall with the size, a size below one that
  qualifies qualifies too: the other costs in basis points are free of scale and slippage only grows.
\<close>

theorem qualification_downward_closed:
  assumes "prepare_sizing opp books s now lm resolver = Inr (Inr z)" and "\<forall>b \<in> set books. valid_book b"
    and "0 < op_holding_hours opp" and "0 \<le> se_exit_slippage_multiplier s" and "charge_grows z"
    and "sz_reference z / 10 ^ 12 < m" and "m \<le> n" and "evaluate z n = Inr t" and "tier_qualified t"
  shows "\<exists>u. evaluate z m = Inr u \<and> tier_qualified u"
proof -
  have good: "good_sizing z" using prepare_good(1) [OF assms(1-5)] .
  have lo: "size_resolution z < m" using assms(6) by (simp add: size_resolution_def)
  obtain u where "evaluate z m = Inr u" using gate.returns [OF good lo] by blast
  with gate.downward [OF good lo assms(7,8,9)] show ?thesis by blast
qed

theorem qualification_downward_closed_witness:
  "\<exists>u. evaluate fx_sizing 500 = Inr u \<and> tier_qualified u"
proof -
  obtain t where t: "evaluate fx_sizing 1000 = Inr t" "tier_qualified t" using fx_tier_1000 by blast
  show ?thesis
    by (rule qualification_downward_closed [OF fx_prepared fx_books_valid _ _ _ _ _ t])
      (simp_all add: fx_opportunity_def fx_sizing_def default_settings_def charge_grows_None)
qed

text \<open>
  C29: the reported capacity never exceeds the visible depth ceiling, and qualifying the
  opportunity again at exactly that size gives a qualified tier with the reported return.
\<close>

theorem capacity_sound:
  assumes "qualify_opportunity opp books s ns now lm resolver = Inr ox"
    and "0 < ox_estimated_capacity_notional_usd ox"
  shows "ox_estimated_capacity_notional_usd ox \<le> ox_visible_depth_ceiling_usd ox
    \<and> (\<exists>ox' t. qualify_opportunity opp books s [ox_estimated_capacity_notional_usd ox] now lm resolver = Inr ox'
         \<and> ox_tiers ox' = [t] \<and> tier_qualified t
         \<and> ox_capacity_frontier_net_annualized_return ox = Some (ct_net_annualized_return t))"
proof -
  let ?c = "ox_estimated_capacity_notional_usd ox"
  have "admissible opp books s now" using not_admissible_rejects(2) [OF _ assms(1)] assms(2) by force
  have "\<nexists>reason. prepare_sizing opp books s now lm resolver = Inr (Inl reason)"
    using reject_all_fields(2) assms by (auto simp: qualify_opportunity_def Let_def)
  moreover obtain r where "prepare_sizing opp books s now lm resolver = Inr r"
    using assms(1) by (auto simp: qualify_opportunity_def Let_def)
  ultimately obtain z where z: "prepare_sizing opp books s now lm resolver = Inr (Inr z)"
    by (cases r) auto
  note q = qualify_sized [OF assms(1) z]
  have pos: "0 < search_tolerance (sz_settings z)" by (simp add: less_max_iff_disj)
  note snd = capacity_search_sound [OF q(1) pos]
  obtain t where t: "evaluate z ?c = Inr t" "tier_qualified t"
    "ox_capacity_frontier_net_annualized_return ox = Some (ct_net_annualized_return t)"
    using snd(4) [OF assms(2)] by blast
  have "\<exists>ox'. qualify_opportunity opp books s [?c] now lm resolver = Inr ox' \<and> ox_tiers ox' = [t]"
    using assms(1) z t(1)
    by (auto simp: qualify_opportunity_def sized_executability_def Let_def executability_of_def)
  then show ?thesis using snd(2) t assms(2) by auto
qed

text \<open>
  The fixture qualified in full, with one latency model or with a resolver: its ceiling, and a
  capacity strictly between the two tiers.
\<close>

lemma fx_charge: "charge_grows fx_sizing" "charge_grows fx_resolved"
  by (simp_all add: charge_grows_def fx_sizing_def fx_resolved_def effective_latency_model_def fx_resolver_def
      model_charge_bps_def usable_model_def fx_model_def hedge_latency_risk_bps_def recovery_buffer_bps_def
      float_or_zero_def)

lemma fx_good: "good_sizing fx_sizing" "good_sizing fx_resolved" "search_tolerance (sz_settings fx_sizing) = 1"
    "size_resolution fx_sizing < 1"
  using fx_books_valid fx_charge by (simp_all add: good_sizing_def fx_sizing_def fx_resolved_def fx_opportunity_def
      default_settings_def list_all_iff size_resolution_def)

lemma fx_ceiling: "sz_reference fx_sizing * foldl min (pair_depth (hd (sz_pairs fx_sizing)))
    (map pair_depth (tl (sz_pairs fx_sizing))) / sz_reserve_ratio fx_sizing = 8160"
  by (simp add: fx_sizing_def fx_defs sz_pairs_def pair_depth_def max_executable_quantity_def
      book_levels_def trade_side_of_def)

lemma fx_resolved_fields: "sz_reference fx_resolved = sz_reference fx_sizing" "sz_pairs fx_resolved = sz_pairs fx_sizing"
    "sz_reserve_ratio fx_resolved = sz_reserve_ratio fx_sizing" "sz_settings fx_resolved = sz_settings fx_sizing"
    "size_resolution fx_resolved = size_resolution fx_sizing"
  by (simp_all add: fx_resolved_def sz_pairs_def size_resolution_def)

lemma fx_qualified_at:
  assumes z: "z = fx_sizing \<or> z = fx_resolved"
    and prepared: "prepare_sizing fx_opportunity fx_books default_settings 2000000 None resolver = Inr (Inr z)"
    and t: "evaluate z 1000 = Inr t" "tier_qualified t" and u: "evaluate z 8000 = Inr u" "\<not> tier_qualified u"
  obtains ox where "qualify_opportunity fx_opportunity fx_books default_settings [1000] 2000000 None resolver = Inr ox"
    and "ox_visible_depth_ceiling_usd ox = 8160"
    and "0 < ox_estimated_capacity_notional_usd ox" and "ox_estimated_capacity_notional_usd ox < 8000"
proof -
  have good: "good_sizing z" "search_tolerance (sz_settings z) = 1" "size_resolution z < 1"
    using z fx_good fx_resolved_fields by auto
  have ceiling: "sz_reference z * foldl min (pair_depth (hd (sz_pairs z))) (map pair_depth (tl (sz_pairs z)))
      / sz_reserve_ratio z = 8160"
    using z fx_ceiling fx_resolved_fields by auto
  obtain r where r: "capacity_search (evaluate z) 1 8160 = Inr r"
    using gate.search_returns [OF good(1), of 1 8160] good(3) by auto
  obtain ox where ox: "qualify_opportunity fx_opportunity fx_books default_settings [1000] 2000000 None resolver = Inr ox"
    and vis: "ox_visible_depth_ceiling_usd ox = 8160"
    using r t by (cases r) (simp add: qualify_opportunity_def prepared sized_executability_def
        ceiling good(2) Let_def executability_of_def)
  note q = qualify_sized [OF ox prepared]
  have pos: "0 < ox_estimated_capacity_notional_usd ox"
  proof (rule ccontr)
    assume "\<not> ?thesis"
    then have "ox_estimated_capacity_notional_usd ox = 0"
      using capacity_search_sound(1) [OF q(1)] good(2) by simp
    then have "\<not> tier_qualified t"
      using gate.search_tight [OF good(1) q(1), of 1000 t] good t(1) vis by simp
    then show False using t(2) by blast
  qed
  have "ox_estimated_capacity_notional_usd ox < 8000"
  proof (rule ccontr)
    assume "\<not> ?thesis"
    moreover obtain w where "evaluate z (ox_estimated_capacity_notional_usd ox) = Inr w" "tier_qualified w"
      using capacity_search_sound(4) [OF q(1) _ pos] good(2) by auto
    ultimately have "tier_qualified u"
      using gate.downward [OF good(1), of 8000 "ox_estimated_capacity_notional_usd ox" w u]
        good(3) u(1) by (simp add: not_less)
    then show False using u(2) by blast
  qed
  with that ox vis pos show thesis by blast
qed

lemma fx_qualified:
  obtains ox where "qualify_opportunity fx_opportunity fx_books default_settings [1000] 2000000 None None = Inr ox"
    and "ox_visible_depth_ceiling_usd ox = 8160"
    and "0 < ox_estimated_capacity_notional_usd ox" and "ox_estimated_capacity_notional_usd ox < 8000"
  using fx_tier_1000 fx_tier_8000 fx_qualified_at [OF disjI1 [OF refl] fx_prepared] by metis


theorem capacity_sound_witness:
  "\<exists>ox. qualify_opportunity fx_opportunity fx_books default_settings [1000] 2000000 None None = Inr ox
     \<and> 0 < ox_estimated_capacity_notional_usd ox
     \<and> ox_estimated_capacity_notional_usd ox \<le> ox_visible_depth_ceiling_usd ox"
  by (rule fx_qualified) (use capacity_sound in blast)



end
