(* ===== verification/Portfolio_Risk.thy ===== *)
theory Portfolio_Risk
  imports Prelude
begin

text \<open>
  portfolio_risk.py: the cross-strategy paper risk budget.  The overlay object is a record
  passed through its methods; \<open>strategy_used\<close> is a defaultdict, so that reading a strategy
  inserts it, which a later snapshot shows.
\<close>

section \<open>The overlay\<close>

datatype exposure_kind = Market_neutral | Directional_long | Directional_short

record risk_candidate =
  rc_candidate_id :: string
  rc_family :: string
  rc_strategy :: string
  rc_capital_required_usd :: real
  rc_exposure_kind :: exposure_kind

record risk_budget =
  rb_total_capital_usd :: real
  rb_alpha_capital_usd :: real
  rb_market_neutral_capital_usd :: real
  rb_directional_capital_usd :: real
  rb_directional_long_capital_usd :: real
  rb_directional_short_capital_usd :: real
  rb_directional_net_capital_usd :: real
  rb_strategy_capital_usd :: "(string \<times> real) list"
  rb_paper_only :: bool

record risk_decision =
  rd_candidate_id :: string
  rd_accepted :: bool
  rd_reason :: "string option"
  rd_paper_only :: bool

record overlay =
  ov_total :: real
  ov_max_alpha_fraction :: real
  ov_max_directional_fraction :: real
  ov_max_same_direction_fraction :: real
  ov_max_alpha_strategy_fraction :: real
  ov_alpha_used :: real
  ov_market_neutral_used :: real
  ov_directional_used :: real
  ov_long_used :: real
  ov_short_used :: real
  ov_strategy_used :: "(string \<times> real) list"

text \<open>
  The fractions are read with \<open>getattr(settings, name, default)\<close>: the parameter is that
  lookup, which gives None for every attribute the settings object does not have.
\<close>

definition attr_or :: "(string \<Rightarrow> real option) \<Rightarrow> string \<Rightarrow> real \<Rightarrow> real" where
  "attr_or attr name dflt = (case attr name of None \<Rightarrow> dflt | Some x \<Rightarrow> x)"

definition fraction_ok :: "string \<Rightarrow> real \<Rightarrow> unit result" where
  "fraction_ok name value =
     (if 0 < value \<and> value \<le> 1 then Inr () else Inl (ValueError (name @ '' must be in (0, 1]'')))"

definition new_overlay :: "(string \<Rightarrow> real option) \<Rightarrow> real \<Rightarrow> overlay result" where
  "new_overlay attr capital_total =
     (if capital_total \<le> 0 then Inl (ValueError ''total_capital_usd must be positive'')
      else let a = attr_or attr ''allocator_max_alpha_fraction'' (40 / 100);
               d = attr_or attr ''allocator_max_directional_fraction'' (35 / 100);
               sd = attr_or attr ''allocator_max_same_direction_fraction'' (25 / 100);
               st = attr_or attr ''allocator_max_alpha_strategy_fraction'' (20 / 100)
           in rbind (fraction_ok ''allocator_max_alpha_fraction'' a) (\<lambda>_.
              rbind (fraction_ok ''allocator_max_directional_fraction'' d) (\<lambda>_.
              rbind (fraction_ok ''allocator_max_same_direction_fraction'' sd) (\<lambda>_.
              rbind (fraction_ok ''allocator_max_alpha_strategy_fraction'' st) (\<lambda>_.
              Inr \<lparr>ov_total = capital_total, ov_max_alpha_fraction = a, ov_max_directional_fraction = d,
                   ov_max_same_direction_fraction = sd, ov_max_alpha_strategy_fraction = st,
                   ov_alpha_used = 0, ov_market_neutral_used = 0, ov_directional_used = 0,
                   ov_long_used = 0, ov_short_used = 0, ov_strategy_used = []\<rparr>)))))"

definition used_by :: "string \<Rightarrow> overlay \<Rightarrow> real" where
  "used_by strategy ov = (case map_of (ov_strategy_used ov) strategy of None \<Rightarrow> 0 | Some x \<Rightarrow> x)"

text \<open>Reading \<open>strategy_used[strategy]\<close> leaves a zero entry behind.\<close>

definition touch_strategy :: "string \<Rightarrow> overlay \<Rightarrow> overlay" where
  "touch_strategy strategy ov =
     (case map_of (ov_strategy_used ov) strategy of
        None \<Rightarrow> ov\<lparr>ov_strategy_used := ov_strategy_used ov @ [(strategy, 0)]\<rparr>
      | Some _ \<Rightarrow> ov)"

definition refuse :: "risk_candidate \<Rightarrow> string \<Rightarrow> risk_decision" where
  "refuse cand reason = \<lparr>rd_candidate_id = rc_candidate_id cand, rd_accepted = False,
     rd_reason = Some reason, rd_paper_only = True\<rparr>"

definition accepted_decision :: "risk_candidate \<Rightarrow> risk_decision" where
  "accepted_decision cand = \<lparr>rd_candidate_id = rc_candidate_id cand, rd_accepted = True,
     rd_reason = None, rd_paper_only = True\<rparr>"

definition over_fraction :: "overlay \<Rightarrow> real \<Rightarrow> real \<Rightarrow> real \<Rightarrow> bool" where
  "over_fraction ov used capital fraction \<longleftrightarrow> used + capital > ov_total ov * fraction + 1 / 10 ^ 9"

text \<open>The checks on the exposure, after those on the family.\<close>

definition exposure_decision :: "overlay \<Rightarrow> risk_candidate \<Rightarrow> risk_decision" where
  "exposure_decision ov cand =
     (let capital = rc_capital_required_usd cand in
      if rc_exposure_kind cand \<noteq> Market_neutral
      then if over_fraction ov (ov_directional_used ov) capital (ov_max_directional_fraction ov)
             then refuse cand ''total directional risk budget''
           else if rc_exposure_kind cand = Directional_long
             then if over_fraction ov (ov_long_used ov) capital (ov_max_same_direction_fraction ov)
                  then refuse cand ''long directional risk budget'' else accepted_decision cand
           else if rc_exposure_kind cand = Directional_short
             then if over_fraction ov (ov_short_used ov) capital (ov_max_same_direction_fraction ov)
                  then refuse cand ''short directional risk budget'' else accepted_decision cand
           else accepted_decision cand
      else accepted_decision cand)"

definition risk_decide :: "overlay \<Rightarrow> risk_candidate \<Rightarrow> risk_decision \<times> overlay" where
  "risk_decide ov cand =
     (let capital = rc_capital_required_usd cand in
      if capital \<le> 0 then (refuse cand ''non-positive capital requirement'', ov)
      else if rc_family cand = ''alpha''
      then if over_fraction ov (ov_alpha_used ov) capital (ov_max_alpha_fraction ov)
             then (refuse cand ''predictive alpha portfolio risk budget'', ov)
           else let ov' = touch_strategy (rc_strategy cand) ov in
             if over_fraction ov (used_by (rc_strategy cand) ov) capital (ov_max_alpha_strategy_fraction ov)
             then (refuse cand ''predictive alpha strategy concentration budget'', ov')
             else (exposure_decision ov' cand, ov')
      else (exposure_decision ov cand, ov))"

text \<open>\<open>self.strategy_used[strategy] += capital\<close> and the other counters.\<close>

definition spend :: "overlay \<Rightarrow> risk_candidate \<Rightarrow> overlay" where
  "spend ov cand =
     (let capital = rc_capital_required_usd cand;
          ov1 = ov\<lparr>ov_strategy_used := AList.update (rc_strategy cand)
                    (used_by (rc_strategy cand) ov + capital) (ov_strategy_used ov)\<rparr>;
          ov2 = (if rc_family cand = ''alpha'' then ov1\<lparr>ov_alpha_used := ov_alpha_used ov1 + capital\<rparr> else ov1)
      in if rc_exposure_kind cand = Market_neutral
         then ov2\<lparr>ov_market_neutral_used := ov_market_neutral_used ov2 + capital\<rparr>
         else let ov3 = ov2\<lparr>ov_directional_used := ov_directional_used ov2 + capital\<rparr>
              in if rc_exposure_kind cand = Directional_long
                 then ov3\<lparr>ov_long_used := ov_long_used ov3 + capital\<rparr>
                 else ov3\<lparr>ov_short_used := ov_short_used ov3 + capital\<rparr>)"

definition risk_register :: "overlay \<Rightarrow> risk_candidate \<Rightarrow> overlay result" where
  "risk_register ov cand =
     (case risk_decide ov cand of (d, ov') \<Rightarrow>
        if \<not> rd_accepted d
        then Inl (ValueError (str_or (rd_reason d) ''candidate violates portfolio risk budget''))
        else Inr (spend ov' cand))"

definition budget_ok :: "risk_budget \<Rightarrow> bool" where
  "budget_ok b \<longleftrightarrow> 0 < rb_total_capital_usd b \<and> 0 \<le> rb_alpha_capital_usd b
     \<and> 0 \<le> rb_market_neutral_capital_usd b \<and> 0 \<le> rb_directional_capital_usd b
     \<and> 0 \<le> rb_directional_long_capital_usd b \<and> 0 \<le> rb_directional_short_capital_usd b"

definition risk_snapshot :: "overlay \<Rightarrow> risk_budget result" where
  "risk_snapshot ov =
     (let b = \<lparr>rb_total_capital_usd = ov_total ov, rb_alpha_capital_usd = ov_alpha_used ov,
          rb_market_neutral_capital_usd = ov_market_neutral_used ov,
          rb_directional_capital_usd = ov_directional_used ov,
          rb_directional_long_capital_usd = ov_long_used ov,
          rb_directional_short_capital_usd = ov_short_used ov,
          rb_directional_net_capital_usd = ov_long_used ov - ov_short_used ov,
          rb_strategy_capital_usd = sort_key fst (ov_strategy_used ov), rb_paper_only = True\<rparr>
      in if budget_ok b then Inr b else Inl (ValidationError ''PortfolioRiskBudget''))"

section \<open>What every sequence of registrations keeps\<close>

text \<open>The capital of the registered candidates that satisfy a predicate.\<close>

definition spent :: "(risk_candidate \<Rightarrow> bool) \<Rightarrow> risk_candidate list \<Rightarrow> real" where
  "spent P cs = (\<Sum>c\<leftarrow>filter P cs. rc_capital_required_usd c)"

lemma spent_simps [simp]:
  "spent P [] = 0"
  "spent P (cs @ [c]) = spent P cs + (if P c then rc_capital_required_usd c else 0)"
  by (simp_all add: spent_def)

abbreviation is_alpha :: "risk_candidate \<Rightarrow> bool" where
  "is_alpha c \<equiv> rc_family c = ''alpha''"

abbreviation has_exposure :: "exposure_kind \<Rightarrow> risk_candidate \<Rightarrow> bool" where
  "has_exposure k c \<equiv> rc_exposure_kind c = k"

text \<open>The counters are the sums over the registered candidates, and each is within its budget.\<close>

definition counters_ok :: "overlay \<Rightarrow> risk_candidate list \<Rightarrow> bool" where
  "counters_ok ov cs \<longleftrightarrow>
     ov_alpha_used ov = spent is_alpha cs
     \<and> ov_market_neutral_used ov = spent (has_exposure Market_neutral) cs
     \<and> ov_long_used ov = spent (has_exposure Directional_long) cs
     \<and> ov_short_used ov = spent (has_exposure Directional_short) cs
     \<and> ov_directional_used ov = ov_long_used ov + ov_short_used ov
     \<and> (\<forall>st. used_by st ov = spent (\<lambda>c. rc_strategy c = st) cs)
     \<and> (\<forall>c \<in> set cs. 0 < rc_capital_required_usd c)"

definition budgets_kept :: "overlay \<Rightarrow> risk_candidate list \<Rightarrow> bool" where
  "budgets_kept ov cs \<longleftrightarrow>
     spent is_alpha cs \<le> ov_total ov * ov_max_alpha_fraction ov + 1 / 10 ^ 9
     \<and> (\<forall>st. spent (\<lambda>c. is_alpha c \<and> rc_strategy c = st) cs
           \<le> ov_total ov * ov_max_alpha_strategy_fraction ov + 1 / 10 ^ 9)
     \<and> spent (\<lambda>c. \<not> has_exposure Market_neutral c) cs
         \<le> ov_total ov * ov_max_directional_fraction ov + 1 / 10 ^ 9
     \<and> spent (has_exposure Directional_long) cs
         \<le> ov_total ov * ov_max_same_direction_fraction ov + 1 / 10 ^ 9
     \<and> spent (has_exposure Directional_short) cs
         \<le> ov_total ov * ov_max_same_direction_fraction ov + 1 / 10 ^ 9"

lemma spent_nonneg: "\<forall>c \<in> set cs. 0 < rc_capital_required_usd c \<Longrightarrow> 0 \<le> spent P cs"
  unfolding spent_def by (rule sum_list_nonneg) (auto intro: less_imp_le)

lemma spent_mono:
  assumes "\<forall>c \<in> set cs. 0 < rc_capital_required_usd c" and "\<And>c. P c \<Longrightarrow> Q c"
  shows "spent P cs \<le> spent Q cs"
  using assms(1)
proof (induction cs rule: rev_induct)
  case (snoc c cs)
  then have "0 < rc_capital_required_usd c" "spent P cs \<le> spent Q cs" by auto
  then show ?case using assms(2) [of c] by auto
qed simp

lemma spent_directional:
  "spent (\<lambda>c. \<not> has_exposure Market_neutral c) cs
     = spent (has_exposure Directional_long) cs + spent (has_exposure Directional_short) cs"
proof (induction cs rule: rev_induct)
  case (snoc c cs)
  then show ?case by (cases "rc_exposure_kind c") auto
qed simp

lemma used_by_touch [simp]: "used_by st (touch_strategy st' ov) = used_by st ov"
  by (auto simp: used_by_def touch_strategy_def split: option.splits if_splits)

lemma touch_fields [simp]:
  "ov_total (touch_strategy st ov) = ov_total ov"
  "ov_max_alpha_fraction (touch_strategy st ov) = ov_max_alpha_fraction ov"
  "ov_max_directional_fraction (touch_strategy st ov) = ov_max_directional_fraction ov"
  "ov_max_same_direction_fraction (touch_strategy st ov) = ov_max_same_direction_fraction ov"
  "ov_max_alpha_strategy_fraction (touch_strategy st ov) = ov_max_alpha_strategy_fraction ov"
  "ov_alpha_used (touch_strategy st ov) = ov_alpha_used ov"
  "ov_market_neutral_used (touch_strategy st ov) = ov_market_neutral_used ov"
  "ov_directional_used (touch_strategy st ov) = ov_directional_used ov"
  "ov_long_used (touch_strategy st ov) = ov_long_used ov"
  "ov_short_used (touch_strategy st ov) = ov_short_used ov"
  by (simp_all add: touch_strategy_def split: option.split)

text \<open>The limits an overlay is built with, which no operation changes.\<close>

definition same_limits :: "overlay \<Rightarrow> overlay \<Rightarrow> bool" where
  "same_limits a b \<longleftrightarrow> ov_total a = ov_total b \<and> ov_max_alpha_fraction a = ov_max_alpha_fraction b
     \<and> ov_max_directional_fraction a = ov_max_directional_fraction b
     \<and> ov_max_same_direction_fraction a = ov_max_same_direction_fraction b
     \<and> ov_max_alpha_strategy_fraction a = ov_max_alpha_strategy_fraction b"

lemma spend_fields:
  "same_limits (spend ov c) ov"
  "ov_alpha_used (spend ov c) = ov_alpha_used ov + (if is_alpha c then rc_capital_required_usd c else 0)"
  "ov_market_neutral_used (spend ov c) = ov_market_neutral_used ov
     + (if has_exposure Market_neutral c then rc_capital_required_usd c else 0)"
  "ov_long_used (spend ov c) = ov_long_used ov
     + (if has_exposure Directional_long c then rc_capital_required_usd c else 0)"
  "ov_short_used (spend ov c) = ov_short_used ov
     + (if has_exposure Directional_short c then rc_capital_required_usd c else 0)"
  "ov_directional_used (spend ov c) = ov_directional_used ov
     + (if has_exposure Market_neutral c then 0 else rc_capital_required_usd c)"
  "used_by st (spend ov c) = used_by st ov + (if rc_strategy c = st then rc_capital_required_usd c else 0)"
  by (cases "rc_exposure_kind c"; auto simp: spend_def same_limits_def used_by_def Let_def update_conv')+

text \<open>The conditions of an accepted decision, read off the nested tests.\<close>

definition within_budgets :: "overlay \<Rightarrow> risk_candidate \<Rightarrow> bool" where
  "within_budgets ov c \<longleftrightarrow>
     (let cap = rc_capital_required_usd c in 0 < cap
      \<and> (is_alpha c \<longrightarrow> \<not> over_fraction ov (ov_alpha_used ov) cap (ov_max_alpha_fraction ov)
           \<and> \<not> over_fraction ov (used_by (rc_strategy c) ov) cap (ov_max_alpha_strategy_fraction ov))
      \<and> (\<not> has_exposure Market_neutral c \<longrightarrow>
           \<not> over_fraction ov (ov_directional_used ov) cap (ov_max_directional_fraction ov))
      \<and> (has_exposure Directional_long c \<longrightarrow>
           \<not> over_fraction ov (ov_long_used ov) cap (ov_max_same_direction_fraction ov))
      \<and> (has_exposure Directional_short c \<longrightarrow>
           \<not> over_fraction ov (ov_short_used ov) cap (ov_max_same_direction_fraction ov)))"

lemma over_fraction_touch [simp]: "over_fraction (touch_strategy st ov) = over_fraction ov"
  by (simp add: over_fraction_def fun_eq_iff)

lemma exposure_decision_iff:
  "rd_accepted (exposure_decision ov c) \<longleftrightarrow>
     (\<not> has_exposure Market_neutral c \<longrightarrow>
        \<not> over_fraction ov (ov_directional_used ov) (rc_capital_required_usd c) (ov_max_directional_fraction ov))
     \<and> (has_exposure Directional_long c \<longrightarrow>
        \<not> over_fraction ov (ov_long_used ov) (rc_capital_required_usd c) (ov_max_same_direction_fraction ov))
     \<and> (has_exposure Directional_short c \<longrightarrow>
        \<not> over_fraction ov (ov_short_used ov) (rc_capital_required_usd c) (ov_max_same_direction_fraction ov))"
  by (cases "rc_exposure_kind c") (auto simp: exposure_decision_def refuse_def accepted_decision_def Let_def)

lemma decide_iff: "rd_accepted (fst (risk_decide ov c)) \<longleftrightarrow> within_budgets ov c"
proof (cases "rc_capital_required_usd c \<le> 0")
  case True
  then show ?thesis by (simp add: risk_decide_def within_budgets_def refuse_def Let_def)
next
  case False
  then show ?thesis
    by (auto simp: risk_decide_def within_budgets_def Let_def exposure_decision_iff refuse_def)
qed

lemma decide_overlay: "snd (risk_decide ov c) = ov \<or> snd (risk_decide ov c) = touch_strategy (rc_strategy c) ov"
  by (auto simp: risk_decide_def Let_def)

text \<open>An accepted decision is always followed by a successful registration.\<close>

lemma register_iff: "(\<exists>ov'. risk_register ov c = Inr ov') \<longleftrightarrow> within_budgets ov c"
  by (simp add: risk_register_def decide_iff [symmetric] split: prod.split)

lemma touch_same_limits: "same_limits (touch_strategy st ov) ov"
  by (simp add: same_limits_def)

lemma register_ok:
  assumes "risk_register ov c = Inr ov'" and "counters_ok ov cs" and "budgets_kept ov cs"
  shows "counters_ok ov' (cs @ [c]) \<and> budgets_kept ov' (cs @ [c]) \<and> same_limits ov' ov"
proof -
  let ?cap = "rc_capital_required_usd c"
  define m where "m = snd (risk_decide ov c)"
  have ov': "ov' = spend m c" and in_b: "within_budgets ov c"
    using assms(1) register_iff [of ov c]
    by (auto simp: risk_register_def m_def split: prod.splits if_splits)
  have m: "same_limits m ov" "ov_alpha_used m = ov_alpha_used ov"
      "ov_market_neutral_used m = ov_market_neutral_used ov" "ov_directional_used m = ov_directional_used ov"
      "ov_long_used m = ov_long_used ov" "ov_short_used m = ov_short_used ov"
      "\<And>st. used_by st m = used_by st ov"
    using decide_overlay [of ov c] by (auto simp: m_def same_limits_def)
  note C = assms(2) [unfolded counters_ok_def]
  have pos: "0 < ?cap" using in_b by (simp add: within_budgets_def Let_def)
  have limits: "same_limits ov' ov"
    using spend_fields(1) [of m c] m(1) by (simp add: ov' same_limits_def)
  have counters: "counters_ok ov' (cs @ [c])"
    using C pos unfolding ov' counters_ok_def
    by (cases "rc_exposure_kind c") (simp_all add: spend_fields m)
  have alpha_part: "spent (\<lambda>d. is_alpha d \<and> rc_strategy d = st) cs \<le> used_by st ov" for st
    using C spent_mono [of cs "\<lambda>d. is_alpha d \<and> rc_strategy d = st" "\<lambda>d. rc_strategy d = st"] by simp
  have st: "spent (\<lambda>d. is_alpha d \<and> rc_strategy d = st) (cs @ [c])
      \<le> ov_total ov * ov_max_alpha_strategy_fraction ov + 1 / 10 ^ 9" for st
  proof (cases "is_alpha c \<and> rc_strategy c = st")
    case True
    then have "used_by st ov + ?cap \<le> ov_total ov * ov_max_alpha_strategy_fraction ov + 1 / 10 ^ 9"
      using in_b by (auto simp: within_budgets_def over_fraction_def Let_def)
    then show ?thesis using alpha_part [of st] True by simp
  next
    case False
    then show ?thesis using assms(3) by (auto simp: budgets_kept_def)
  qed
  have "budgets_kept ov (cs @ [c])"
    using assms(3) in_b C st
    by (cases "rc_exposure_kind c")
      (simp_all add: budgets_kept_def within_budgets_def over_fraction_def spent_directional Let_def not_less)
  then have "budgets_kept ov' (cs @ [c])"
    using limits by (simp add: budgets_kept_def same_limits_def)
  then show ?thesis using counters limits by blast
qed

text \<open>A sequence of registrations, as the allocator makes them: a refused one changes nothing that counts.\<close>

fun register_all :: "risk_candidate list \<Rightarrow> overlay \<times> risk_candidate list \<Rightarrow> overlay \<times> risk_candidate list" where
  "register_all [] s = s"
| "register_all (c # cs) (ov, taken) =
     (case risk_register ov c of Inl _ \<Rightarrow> register_all cs (snd (risk_decide ov c), taken)
      | Inr ov' \<Rightarrow> register_all cs (ov', taken @ [c]))"

lemma decide_keeps:
  assumes "counters_ok ov cs" and "budgets_kept ov cs"
  shows "counters_ok (snd (risk_decide ov c)) cs" and "budgets_kept (snd (risk_decide ov c)) cs"
    and "same_limits (snd (risk_decide ov c)) ov"
  using decide_overlay [of ov c] assms by (auto simp: counters_ok_def budgets_kept_def same_limits_def)

lemma register_all_keeps:
  assumes "register_all cs (ov, taken) = (ov', taken')" and "counters_ok ov taken" and "budgets_kept ov taken"
  shows "counters_ok ov' taken' \<and> budgets_kept ov' taken' \<and> same_limits ov' ov"
  using assms
proof (induction cs arbitrary: ov taken)
  case Nil
  then show ?case by (simp add: same_limits_def)
next
  case (Cons c cs)
  show ?case
  proof (cases "risk_register ov c")
    case (Inl e)
    then show ?thesis
      using Cons decide_keeps [OF Cons.prems(2,3), of c] by (fastforce simp: same_limits_def)
  next
    case (Inr ov1)
    then show ?thesis
      using Cons register_ok [OF Inr Cons.prems(2,3)] by (fastforce simp: same_limits_def)
  qed
qed

lemma new_overlay_ok:
  assumes "new_overlay attr capital_total = Inr ov"
  shows "counters_ok ov []" and "budgets_kept ov []" and "ov_total ov = capital_total" and "0 < capital_total"
proof -
  have *: "0 < capital_total \<and> ov_total ov = capital_total \<and> 0 < ov_max_alpha_fraction ov \<and> 0 < ov_max_directional_fraction ov
      \<and> 0 < ov_max_same_direction_fraction ov \<and> 0 < ov_max_alpha_strategy_fraction ov
      \<and> ov_alpha_used ov = 0 \<and> ov_market_neutral_used ov = 0 \<and> ov_directional_used ov = 0
      \<and> ov_long_used ov = 0 \<and> ov_short_used ov = 0 \<and> ov_strategy_used ov = []"
    using assms unfolding new_overlay_def Let_def
    by (auto simp: fraction_ok_def split: if_splits)
  then show "counters_ok ov []" and "ov_total ov = capital_total" and "0 < capital_total"
    by (simp_all add: counters_ok_def used_by_def)
  have "0 \<le> capital_total * f + 1 / 10 ^ 9" if "0 < f" for f :: real
    using * that by (intro add_nonneg_nonneg mult_nonneg_nonneg) simp_all
  then show "budgets_kept ov []" using * by (simp add: budgets_kept_def)
qed

text \<open>A snapshot of an overlay whose counters are right is always a valid budget.\<close>

lemma snapshot_ok:
  assumes "counters_ok ov cs" and "0 < ov_total ov"
  shows "\<exists>b. risk_snapshot ov = Inr b \<and> rb_directional_net_capital_usd b
      = spent (has_exposure Directional_long) cs - spent (has_exposure Directional_short) cs
      \<and> rb_alpha_capital_usd b = spent is_alpha cs \<and> rb_total_capital_usd b = ov_total ov"
proof -
  have "\<forall>c \<in> set cs. 0 < rc_capital_required_usd c" using assms(1) by (simp add: counters_ok_def)
  note nn = spent_nonneg [OF this]
  show ?thesis
    using assms nn by (simp add: risk_snapshot_def budget_ok_def counters_ok_def Let_def)
qed

end
