(* ===== verification/Selection.thy ===== *)
theory Selection
  imports Models Settings
begin

text \<open>
  The three small stages around qualification: ranking.py orders the qualified
  opportunities, risk.py filters the detected ones, paper.py records paper fills and is
  unable to do anything else.
\<close>

section \<open>Ranking\<close>

record ranked_opportunity =
  rk_rank :: nat
  rk_opportunity_id :: string
  rk_strategy :: strategy
  rk_asset :: string
  rk_rank_basis :: string
  rk_rank_score :: xreal
  rk_selected_notional_usd_per_leg :: real
  rk_selected_capital_required_usd :: real
  rk_selected_net_annualized_return :: xreal
  rk_selected_total_modeled_cost_bps :: real
  rk_estimated_capacity_notional_usd :: real
  rk_max_qualified_notional_usd :: real
  rk_detector_module :: "string option"
  rk_canonical_asset_id :: "string option"
  rk_canonical_instrument_ids :: "string list"
  rk_paper_only :: bool

definition tier_key :: "capital_tier \<Rightarrow> xreal \<times> real" where
  "tier_key t = (ct_net_annualized_return t, ct_notional_usd_per_leg t)"

text \<open>\<open>max(qualified, key=...)\<close>, or nothing when no tier is qualified.\<close>

definition best_tier :: "capital_tier list \<Rightarrow> capital_tier option" where
  "best_tier ts = (case ts of [] \<Rightarrow> None | t # us \<Rightarrow> Some (max_by tier_key t us))"

definition opt_str :: "pyobj \<Rightarrow> string option" where
  "opt_str v = (if v = PNone then None else Some (py_str v))"

definition ranked_row ::
  "opportunity \<Rightarrow> opportunity_executability \<Rightarrow> capital_tier \<Rightarrow> ranked_opportunity" where
  "ranked_row opp ex t = \<lparr>
     rk_rank = 0, rk_opportunity_id = op_id opp, rk_strategy = op_strategy opp,
     rk_asset = op_asset opp, rk_rank_basis = ''capital_adjusted_net_annualized_return'',
     rk_rank_score = ct_net_annualized_return t,
     rk_selected_notional_usd_per_leg = ct_notional_usd_per_leg t,
     rk_selected_capital_required_usd = ct_capital_required_usd t,
     rk_selected_net_annualized_return = ct_net_annualized_return t,
     rk_selected_total_modeled_cost_bps = ct_total_modeled_cost_bps t,
     rk_estimated_capacity_notional_usd = ox_estimated_capacity_notional_usd ex,
     rk_max_qualified_notional_usd = ox_max_qualified_notional_usd ex,
     rk_detector_module = opt_str (ev_get (op_evidence opp) ''detector_module''),
     rk_canonical_asset_id = opt_str (ev_get (op_evidence opp) ''canonical_asset_id''),
     rk_canonical_instrument_ids = instrument_ids_of (op_evidence opp),
     rk_paper_only = True\<rparr>"

text \<open>The body of the loop: no row, or the row of the best qualified tier.\<close>

definition rank_rows ::
  "(string \<rightharpoonup> opportunity) \<Rightarrow> opportunity_executability \<Rightarrow> ranked_opportunity list" where
  "rank_rows by_id ex =
     (case by_id (ox_opportunity_id ex) of None \<Rightarrow> []
      | Some opp \<Rightarrow> (case best_tier (filter tier_qualified (ox_tiers ex)) of
            None \<Rightarrow> [] | Some t \<Rightarrow> [ranked_row opp ex t]))"

definition rank_key :: "ranked_opportunity \<Rightarrow> xreal \<times> real" where
  "rank_key r = (rk_rank_score r, rk_estimated_capacity_notional_usd r)"

fun number_from :: "nat \<Rightarrow> ranked_opportunity list \<Rightarrow> ranked_opportunity list" where
  "number_from i [] = []"
| "number_from i (r # rs) = r\<lparr>rk_rank := i\<rparr> # number_from (Suc i) rs"

definition rank_qualified_opportunities ::
  "opportunity list \<Rightarrow> opportunity_executability list \<Rightarrow> ranked_opportunity list" where
  "rank_qualified_opportunities opps exs =
     number_from 1 (sort_desc rank_key (concat (map (rank_rows (dict_by op_id opps)) exs)))"

lemma number_from_ranks: "map rk_rank (number_from i rs) = [i ..< i + length rs]"
proof (induction rs arbitrary: i)
  case (Cons r rs)
  have "[i ..< i + length (r # rs)] = i # [Suc i ..< Suc i + length rs]" by (simp add: upt_rec)
  moreover have "map rk_rank (number_from i (r # rs)) = i # map rk_rank (number_from (Suc i) rs)" by simp
  ultimately show ?case using Cons [of "Suc i"] by (simp only:)
qed simp

lemma number_from_map: "(\<And>r i. f (r\<lparr>rk_rank := i\<rparr>) = f r) \<Longrightarrow> map f (number_from i rs) = map f rs"
  by (induction rs arbitrary: i) auto

lemma number_from_length [simp]: "length (number_from i rs) = length rs"
  by (induction rs arbitrary: i) auto

lemma best_tier_Some:
  assumes "best_tier ts = Some t"
  shows "t \<in> set ts" and "u \<in> set ts \<Longrightarrow> tier_key u \<le> tier_key t"
proof -
  obtain x xs where ts: "ts = x # xs" "t = max_by tier_key x xs"
    using assms by (auto simp: best_tier_def split: list.splits)
  show "t \<in> set ts" using max_by_in [of tier_key x xs] ts by simp
  show "u \<in> set ts \<Longrightarrow> tier_key u \<le> tier_key t" using max_by_ge [of u x xs tier_key] ts by simp
qed

lemma best_tier_None: "best_tier ts = None \<longleftrightarrow> ts = []"
  by (simp add: best_tier_def split: list.splits)

text \<open>What the ranking says of an executability record: its opportunity is known and a tier qualifies.\<close>

definition rankable :: "opportunity list \<Rightarrow> opportunity_executability \<Rightarrow> bool" where
  "rankable opps ex \<longleftrightarrow> dict_by op_id opps (ox_opportunity_id ex) \<noteq> None
     \<and> (\<exists>t \<in> set (ox_tiers ex). tier_qualified t)"

lemma rank_rows_ids:
  "map rk_opportunity_id (rank_rows (dict_by op_id opps) ex)
     = (if rankable opps ex then [ox_opportunity_id ex] else [])"
proof (cases "dict_by op_id opps (ox_opportunity_id ex)")
  case None
  then show ?thesis by (simp add: rank_rows_def rankable_def)
next
  case (Some opp)
  then have id: "op_id opp = ox_opportunity_id ex" using dict_by_SomeD by metis
  show ?thesis
  proof (cases "best_tier (filter tier_qualified (ox_tiers ex))")
    case None
    then have "\<not> rankable opps ex" by (auto simp: rankable_def best_tier_None filter_empty_conv)
    then show ?thesis using Some None by (simp add: rank_rows_def)
  next
    case (Some t)
    have "t \<in> set (filter tier_qualified (ox_tiers ex))" using best_tier_Some(1) [OF Some] .
    then have "rankable opps ex"
      using \<open>dict_by op_id opps (ox_opportunity_id ex) = Some opp\<close> by (auto simp: rankable_def)
    then show ?thesis
      using \<open>dict_by op_id opps (ox_opportunity_id ex) = Some opp\<close> Some id
      by (simp add: rank_rows_def ranked_row_def)
  qed
qed

lemma rank_rows_best:
  assumes "r \<in> set (rank_rows m ex)"
  shows "\<exists>t \<in> set (ox_tiers ex). tier_qualified t \<and> rk_rank_score r = ct_net_annualized_return t
    \<and> rk_selected_notional_usd_per_leg r = ct_notional_usd_per_leg t
    \<and> (\<forall>u \<in> set (ox_tiers ex). tier_qualified u \<longrightarrow> ct_net_annualized_return u \<le> rk_rank_score r)"
proof -
  obtain opp t where t: "best_tier (filter tier_qualified (ox_tiers ex)) = Some t" "r = ranked_row opp ex t"
    using assms
    by (cases "m (ox_opportunity_id ex)"; cases "best_tier (filter tier_qualified (ox_tiers ex))")
      (auto simp: rank_rows_def)
  have "ct_net_annualized_return u \<le> ct_net_annualized_return t"
    if "u \<in> set (ox_tiers ex)" "tier_qualified u" for u
    using best_tier_Some(2) [OF t(1), of u] that by (auto simp: tier_key_def less_eq_prod_def)
  then show ?thesis using best_tier_Some(1) [OF t(1)] t(2) by (auto simp: ranked_row_def)
qed

section \<open>The risk gate\<close>

definition risk_accepts :: "settings \<Rightarrow> time \<Rightarrow> opportunity \<Rightarrow> bool" where
  "risk_accepts s now opp \<longleftrightarrow>
     \<not> (\<not> op_paper_only opp) \<and> \<not> op_expires_at opp < now
     \<and> \<not> op_net_annualized_return opp < se_min_net_annualized_return s
     \<and> \<not> op_net_edge_bps_per_hour opp \<le> 0 \<and> length (op_legs opp) = 2"

definition risk_filter :: "settings \<Rightarrow> opportunity list \<Rightarrow> time \<Rightarrow> opportunity list" where
  "risk_filter s opps now = sort_desc op_net_annualized_return (filter (risk_accepts s now) opps)"

section \<open>Paper fills\<close>

record paper_fill =
  pf_opportunity_id :: string
  pf_accepted_at :: time
  pf_notional_usd_per_leg :: real
  pf_status :: string

text \<open>The executor's only state is its list of fills; a refused request leaves it unchanged.\<close>

definition paper_execute ::
  "paper_fill list \<Rightarrow> time \<Rightarrow> opportunity \<Rightarrow> real \<Rightarrow> (paper_fill \<times> paper_fill list) result" where
  "paper_execute fills now opp notional =
     (if \<not> op_paper_only opp then Inl (RuntimeError ''live opportunities are forbidden in V1'')
      else if notional \<le> 0 then Inl (ValueError ''notional must be positive'')
      else let fill = \<lparr>pf_opportunity_id = op_id opp, pf_accepted_at = now,
                       pf_notional_usd_per_leg = notional, pf_status = ''paper_open''\<rparr>
           in Inr (fill, fills @ [fill]))"

definition paper_step :: "paper_fill list \<Rightarrow> time \<times> opportunity \<times> real \<Rightarrow> paper_fill list" where
  "paper_step fills req = (case req of (now, opp, n) \<Rightarrow>
     (case paper_execute fills now opp n of Inl _ \<Rightarrow> fills | Inr (_, fills') \<Rightarrow> fills'))"

definition backed_fill :: "(time \<times> opportunity \<times> real) set \<Rightarrow> paper_fill \<Rightarrow> bool" where
  "backed_fill reqs f \<longleftrightarrow> (\<exists>(now, opp, n) \<in> reqs. op_paper_only opp \<and> 0 < n
     \<and> f = \<lparr>pf_opportunity_id = op_id opp, pf_accepted_at = now,
            pf_notional_usd_per_leg = n, pf_status = ''paper_open''\<rparr>)"

text \<open>Every fill is backed by a request for a paper-only opportunity at a positive notional.\<close>

interpretation paper: guarded_loop paper_step "\<lambda>req. req \<in> reqs" "\<lambda>fills. \<forall>f \<in> set fills. backed_fill reqs f"
  for reqs
proof (unfold_locales, rule ballI)
  fix fills req f
  assume inv: "\<forall>f \<in> set fills. backed_fill reqs f" and req: "req \<in> reqs"
    and f: "f \<in> set (paper_step fills req)"
  obtain now opp n where r: "req = (now, opp, n)" by (cases req)
  show "backed_fill reqs f"
  proof (cases "f \<in> set fills")
    case False
    then have "op_paper_only opp" "0 < n" "f = \<lparr>pf_opportunity_id = op_id opp, pf_accepted_at = now,
        pf_notional_usd_per_leg = n, pf_status = ''paper_open''\<rparr>"
      using f by (auto simp: r paper_step_def paper_execute_def Let_def split: if_splits)
    then show ?thesis using req by (auto simp: backed_fill_def r intro!: bexI [of _ "(now, opp, n)"])
  qed (use inv in blast)
qed

end
