(* ===== verification/Allocation.thy ===== *)
theory Allocation
  imports Selection
begin

text \<open>
  allocation.py: the greedy paper allocator over qualified tiers, under caps on the total,
  on each venue and on each asset, with disjoint instruments and one tier per opportunity.
\<close>

section \<open>Constraints, candidates and the plan\<close>

record alloc_constraints =
  ac_total_capital_usd :: real
  ac_max_venue_fraction :: real
  ac_max_asset_fraction :: real
  ac_max_allocations :: nat

text \<open>The field constraints of the model class.\<close>

definition valid_constraints :: "alloc_constraints \<Rightarrow> bool" where
  "valid_constraints c \<longleftrightarrow> 0 < ac_total_capital_usd c
     \<and> 0 < ac_max_venue_fraction c \<and> ac_max_venue_fraction c \<le> 1
     \<and> 0 < ac_max_asset_fraction c \<and> ac_max_asset_fraction c \<le> 1 \<and> 0 < ac_max_allocations c"

record paper_allocation =
  pa_opportunity_id :: string
  pa_strategy :: string
  pa_asset :: string
  pa_venues :: "string list"
  pa_notional_usd_per_leg :: real
  pa_capital_required_usd :: real
  pa_net_annualized_return :: xreal
  pa_estimated_capacity_notional_usd :: real
  pa_canonical_instrument_ids :: "string list"

record allocation_plan =
  ap_total_capital_usd :: real
  ap_allocated_capital_usd :: real
  ap_unused_cash_usd :: real
  ap_weighted_expected_net_annualized_return :: xreal
  ap_allocations :: "paper_allocation list"
  ap_skipped :: "(string \<times> string) list"
  ap_authorizes_execution :: bool
  ap_paper_only :: bool

text \<open>A candidate is a qualified tier with its opportunity and its executability record.\<close>

type_synonym alloc_candidate = "capital_tier \<times> opportunity \<times> opportunity_executability"

definition allocatable :: "capital_tier \<Rightarrow> bool" where
  "allocatable t \<longleftrightarrow> ct_executable t \<and> ct_passes_return_hurdle t \<and> ct_capital_required_usd t > 0"

definition candidate_key :: "alloc_candidate \<Rightarrow> xreal \<times> real" where
  "candidate_key c = (case c of (t, _, _) \<Rightarrow> (ct_net_annualized_return t, - ct_capital_required_usd t))"

definition candidates_of ::
  "(string \<rightharpoonup> opportunity) \<Rightarrow> opportunity_executability \<Rightarrow> alloc_candidate list" where
  "candidates_of by_id ex =
     (case by_id (ox_opportunity_id ex) of None \<Rightarrow> []
      | Some opp \<Rightarrow> map (\<lambda>t. (t, opp, ex)) (filter allocatable (ox_tiers ex)))"

definition alloc_candidates ::
  "opportunity list \<Rightarrow> opportunity_executability list \<Rightarrow> alloc_candidate list" where
  "alloc_candidates opps exs =
     sort_desc candidate_key (concat (map (candidates_of (dict_by op_id opps)) exs))"

section \<open>The greedy loop\<close>

record alloc_state =
  as_allocations :: "paper_allocation list"
  as_skipped :: "(string \<times> string) list"
  as_venue_used :: "string \<Rightarrow> real"
  as_asset_used :: "string \<Rightarrow> real"
  as_used_instruments :: "string set"
  as_allocated :: real
  as_considered :: "string set"

definition empty_alloc :: alloc_state where
  "empty_alloc = \<lparr>as_allocations = [], as_skipped = [], as_venue_used = (\<lambda>_. 0),
     as_asset_used = (\<lambda>_. 0), as_used_instruments = {}, as_allocated = 0, as_considered = {}\<rparr>"

definition venues_of :: "opportunity \<Rightarrow> string list" where
  "venues_of opp = sorted_unique (map lg_venue (op_legs opp))"

definition skip_opportunity :: "string \<Rightarrow> string \<Rightarrow> alloc_state \<Rightarrow> alloc_state" where
  "skip_opportunity i reason s = s\<lparr>as_skipped := as_skipped s @ [(i, reason)],
     as_considered := insert i (as_considered s)\<rparr>"

text \<open>\<open>for venue in venues: venue_used[venue] += share\<close>.\<close>

definition add_shares :: "string list \<Rightarrow> real \<Rightarrow> (string \<Rightarrow> real) \<Rightarrow> string \<Rightarrow> real" where
  "add_shares venues share used = foldl (\<lambda>m v. m(v := m v + share)) used venues"

definition accept_tier ::
  "capital_tier \<Rightarrow> opportunity \<Rightarrow> opportunity_executability \<Rightarrow> alloc_state \<Rightarrow> alloc_state" where
  "accept_tier t opp ex s =
     (let capital = ct_capital_required_usd t; venues = venues_of opp;
          share = capital / real (max 1 (length venues));
          ids = instrument_ids_of (op_evidence opp)
      in s\<lparr>as_allocations := as_allocations s @ [\<lparr>
             pa_opportunity_id = op_id opp, pa_strategy = strategy_value (op_strategy opp),
             pa_asset = op_asset opp, pa_venues = venues,
             pa_notional_usd_per_leg = ct_notional_usd_per_leg t,
             pa_capital_required_usd = capital,
             pa_net_annualized_return = ct_net_annualized_return t,
             pa_estimated_capacity_notional_usd = ox_estimated_capacity_notional_usd ex,
             pa_canonical_instrument_ids = ids\<rparr>],
           as_allocated := as_allocated s + capital,
           as_asset_used := (as_asset_used s)(op_asset opp := as_asset_used s (op_asset opp) + capital),
           as_venue_used := add_shares venues share (as_venue_used s),
           as_used_instruments := as_used_instruments s \<union> set ids,
           as_considered := insert (op_id opp) (as_considered s)\<rparr>)"

text \<open>The tests of the loop, each against the spending so far.\<close>

definition over_total :: "alloc_constraints \<Rightarrow> real \<Rightarrow> alloc_state \<Rightarrow> bool" where
  "over_total c capital s \<longleftrightarrow> as_allocated s + capital > ac_total_capital_usd c + 1 / 10 ^ 9"

definition over_venue :: "alloc_constraints \<Rightarrow> string list \<Rightarrow> real \<Rightarrow> alloc_state \<Rightarrow> bool" where
  "over_venue c venues capital s \<longleftrightarrow>
     (\<exists>v \<in> set venues. as_venue_used s v + capital / real (max 1 (length venues))
        > ac_total_capital_usd c * ac_max_venue_fraction c + 1 / 10 ^ 9)"

definition over_asset :: "alloc_constraints \<Rightarrow> string \<Rightarrow> real \<Rightarrow> alloc_state \<Rightarrow> bool" where
  "over_asset c asset capital s \<longleftrightarrow>
     as_asset_used s asset + capital > ac_total_capital_usd c * ac_max_asset_fraction c + 1 / 10 ^ 9"

definition over_capacity :: "capital_tier \<Rightarrow> opportunity_executability \<Rightarrow> bool" where
  "over_capacity t ex \<longleftrightarrow> ct_notional_usd_per_leg t > ox_estimated_capacity_notional_usd ex + 1 / 10 ^ 9"

definition consider_candidate :: "alloc_constraints \<Rightarrow> alloc_candidate \<Rightarrow> alloc_state \<Rightarrow> alloc_state" where
  "consider_candidate c cand s = (case cand of (t, opp, ex) \<Rightarrow>
     (let capital = ct_capital_required_usd t in
      if op_id opp \<in> as_considered s then s
      else if as_used_instruments s \<inter> set (instrument_ids_of (op_evidence opp)) \<noteq> {}
        then skip_opportunity (op_id opp) ''shared instrument conflict'' s
      else if over_total c capital s then s
      else if over_venue c (venues_of opp) capital s
        then skip_opportunity (op_id opp) ''venue concentration cap'' s
      else if over_asset c (op_asset opp) capital s
        then skip_opportunity (op_id opp) ''asset concentration cap'' s
      else if over_capacity t ex then skip_opportunity (op_id opp) ''capacity exceeded'' s
      else accept_tier t opp ex s))"

fun allocation_loop :: "alloc_constraints \<Rightarrow> alloc_candidate list \<Rightarrow> alloc_state \<Rightarrow> alloc_state" where
  "allocation_loop c [] s = s"
| "allocation_loop c (cand # cs) s =
     (if length (as_allocations s) \<ge> ac_max_allocations c then s
      else allocation_loop c cs (consider_candidate c cand s))"

definition xsum :: "xreal list \<Rightarrow> xreal" where
  "xsum xs = foldl xplus (Fin 0) xs"

definition allocate_qualified_opportunities ::
  "opportunity list \<Rightarrow> opportunity_executability list \<Rightarrow> alloc_constraints \<Rightarrow> allocation_plan" where
  "allocate_qualified_opportunities opps exs c =
     (let s = allocation_loop c (alloc_candidates opps exs) empty_alloc;
          weighted = xscale (1 / ac_total_capital_usd c)
            (xsum (map (\<lambda>a. xscale (pa_capital_required_usd a) (pa_net_annualized_return a)) (as_allocations s)))
      in \<lparr>ap_total_capital_usd = ac_total_capital_usd c, ap_allocated_capital_usd = as_allocated s,
          ap_unused_cash_usd = max 0 (ac_total_capital_usd c - as_allocated s),
          ap_weighted_expected_net_annualized_return = weighted,
          ap_allocations = as_allocations s, ap_skipped = as_skipped s,
          ap_authorizes_execution = False, ap_paper_only = True\<rparr>)"

section \<open>What a plan may contain\<close>

definition venue_total :: "string \<Rightarrow> paper_allocation list \<Rightarrow> real" where
  "venue_total v as = (\<Sum>a\<leftarrow>as. if v \<in> set (pa_venues a)
     then pa_capital_required_usd a / real (max 1 (length (pa_venues a))) else 0)"

definition asset_total :: "string \<Rightarrow> paper_allocation list \<Rightarrow> real" where
  "asset_total x as = (\<Sum>a\<leftarrow>as. if pa_asset a = x then pa_capital_required_usd a else 0)"

definition share_nothing :: "paper_allocation \<Rightarrow> paper_allocation \<Rightarrow> bool" where
  "share_nothing a b \<longleftrightarrow> pa_opportunity_id a \<noteq> pa_opportunity_id b
     \<and> set (pa_canonical_instrument_ids a) \<inter> set (pa_canonical_instrument_ids b) = {}"

definition backs :: "alloc_candidate \<Rightarrow> paper_allocation \<Rightarrow> bool" where
  "backs cand a \<longleftrightarrow> (case cand of (t, opp, ex) \<Rightarrow>
     pa_opportunity_id a = op_id opp \<and> pa_asset a = op_asset opp \<and> pa_venues a = venues_of opp
     \<and> pa_capital_required_usd a = ct_capital_required_usd t
     \<and> pa_notional_usd_per_leg a = ct_notional_usd_per_leg t
     \<and> ct_notional_usd_per_leg t \<le> ox_estimated_capacity_notional_usd ex + 1 / 10 ^ 9
     \<and> pa_canonical_instrument_ids a = instrument_ids_of (op_evidence opp))"

text \<open>The invariant of the loop: what the counters mean and the limits they are under.\<close>

definition alloc_inv :: "alloc_constraints \<Rightarrow> alloc_candidate set \<Rightarrow> alloc_state \<Rightarrow> bool" where
  "alloc_inv c cands s \<longleftrightarrow>
     as_allocated s = (\<Sum>a\<leftarrow>as_allocations s. pa_capital_required_usd a)
     \<and> as_allocated s \<le> ac_total_capital_usd c + 1 / 10 ^ 9
     \<and> (\<forall>v. as_venue_used s v = venue_total v (as_allocations s)
          \<and> venue_total v (as_allocations s) \<le> ac_total_capital_usd c * ac_max_venue_fraction c + 1 / 10 ^ 9)
     \<and> (\<forall>x. as_asset_used s x = asset_total x (as_allocations s)
          \<and> asset_total x (as_allocations s) \<le> ac_total_capital_usd c * ac_max_asset_fraction c + 1 / 10 ^ 9)
     \<and> as_used_instruments s = (\<Union>a \<in> set (as_allocations s). set (pa_canonical_instrument_ids a))
     \<and> as_considered s = pa_opportunity_id ` set (as_allocations s) \<union> fst ` set (as_skipped s)
     \<and> sorted_wrt share_nothing (as_allocations s)
     \<and> length (as_allocations s) \<le> ac_max_allocations c
     \<and> (\<forall>a \<in> set (as_allocations s). \<exists>cand \<in> cands. backs cand a)"

lemma add_shares_eq:
  "distinct venues \<Longrightarrow> add_shares venues share used v = used v + (if v \<in> set venues then share else 0)"
proof (induction venues arbitrary: used)
  case (Cons w ws)
  have "add_shares (w # ws) share used = add_shares ws share (used(w := used w + share))"
    by (simp add: add_shares_def)
  then show ?case using Cons by auto
qed (simp add: add_shares_def)

lemma venues_distinct [simp]: "distinct (venues_of opp)"
  by (simp add: venues_of_def)

lemma total_snoc [simp]:
  "venue_total v (as @ [a]) = venue_total v as + (if v \<in> set (pa_venues a)
     then pa_capital_required_usd a / real (max 1 (length (pa_venues a))) else 0)"
  "asset_total x (as @ [a]) = asset_total x as + (if pa_asset a = x then pa_capital_required_usd a else 0)"
  by (simp_all add: venue_total_def asset_total_def)

lemma skip_inv: "alloc_inv c cands s \<Longrightarrow> alloc_inv c cands (skip_opportunity i r s)"
  by (auto simp: alloc_inv_def skip_opportunity_def)

text \<open>The step of the loop with its early exit, as an operation on every candidate.\<close>

definition allocation_step :: "alloc_constraints \<Rightarrow> alloc_state \<Rightarrow> alloc_candidate \<Rightarrow> alloc_state" where
  "allocation_step c s cand =
     (if length (as_allocations s) \<ge> ac_max_allocations c then s else consider_candidate c cand s)"

lemma full_stays: "length (as_allocations s) \<ge> ac_max_allocations c \<Longrightarrow> foldl (allocation_step c) s cs = s"
  by (induction cs) (auto simp: allocation_step_def)

lemma allocation_loop_eq: "allocation_loop c cs s = foldl (allocation_step c) s cs"
proof (induction cs arbitrary: s)
  case (Cons cand cs)
  show ?case
  proof (cases "length (as_allocations s) \<ge> ac_max_allocations c")
    case True
    then show ?thesis using full_stays [OF True, of "cand # cs"] by simp
  next
    case False
    then show ?thesis using Cons by (simp add: allocation_step_def)
  qed
qed simp

text \<open>The guards that let a candidate through, gathered from the tests of the loop.\<close>

definition admits :: "alloc_constraints \<Rightarrow> alloc_candidate \<Rightarrow> alloc_state \<Rightarrow> bool" where
  "admits c cand s \<longleftrightarrow> (case cand of (t, opp, ex) \<Rightarrow>
     op_id opp \<notin> as_considered s
     \<and> as_used_instruments s \<inter> set (instrument_ids_of (op_evidence opp)) = {}
     \<and> \<not> over_total c (ct_capital_required_usd t) s
     \<and> \<not> over_venue c (venues_of opp) (ct_capital_required_usd t) s
     \<and> \<not> over_asset c (op_asset opp) (ct_capital_required_usd t) s \<and> \<not> over_capacity t ex)"

lemma consider_cases:
  obtains (same) "consider_candidate c (t, opp, ex) s = s"
      "op_id opp \<in> as_considered s \<or> over_total c (ct_capital_required_usd t) s"
  | (skip) r where "consider_candidate c (t, opp, ex) s = skip_opportunity (op_id opp) r s"
  | (accept) "consider_candidate c (t, opp, ex) s = accept_tier t opp ex s" "admits c (t, opp, ex) s"
proof -
  let ?r = "consider_candidate c (t, opp, ex) s"
  have "(?r = s \<and> (op_id opp \<in> as_considered s \<or> over_total c (ct_capital_required_usd t) s))
      \<or> (\<exists>r. ?r = skip_opportunity (op_id opp) r s) \<or> (?r = accept_tier t opp ex s \<and> admits c (t, opp, ex) s)"
    unfolding consider_candidate_def admits_def Let_def prod.case
    by (cases "op_id opp \<in> as_considered s";
        cases "as_used_instruments s \<inter> set (instrument_ids_of (op_evidence opp)) = {}";
        cases "over_total c (ct_capital_required_usd t) s";
        cases "over_venue c (venues_of opp) (ct_capital_required_usd t) s";
        cases "over_asset c (op_asset opp) (ct_capital_required_usd t) s"; cases "over_capacity t ex")
      (simp_all only: if_True if_False simp_thms, blast+)
  then show ?thesis using same skip accept by blast
qed

lemma alloc_invD:
  assumes "alloc_inv c cands s"
  shows "as_allocated s = (\<Sum>a\<leftarrow>as_allocations s. pa_capital_required_usd a)"
    and "as_allocated s \<le> ac_total_capital_usd c + 1 / 10 ^ 9"
    and "as_venue_used s v = venue_total v (as_allocations s)"
    and "venue_total v (as_allocations s) \<le> ac_total_capital_usd c * ac_max_venue_fraction c + 1 / 10 ^ 9"
    and "as_asset_used s x = asset_total x (as_allocations s)"
    and "asset_total x (as_allocations s) \<le> ac_total_capital_usd c * ac_max_asset_fraction c + 1 / 10 ^ 9"
    and "as_used_instruments s = (\<Union>a \<in> set (as_allocations s). set (pa_canonical_instrument_ids a))"
    and "as_considered s = pa_opportunity_id ` set (as_allocations s) \<union> fst ` set (as_skipped s)"
    and "sorted_wrt share_nothing (as_allocations s)"
    and "length (as_allocations s) \<le> ac_max_allocations c"
    and "\<forall>a \<in> set (as_allocations s). \<exists>cand \<in> cands. backs cand a"
  using assms unfolding alloc_inv_def by blast+

lemma accept_inv:
  assumes inv: "alloc_inv c cands s" and ad: "admits c (t, opp, ex) s"
    and mem: "(t, opp, ex) \<in> cands" and room: "length (as_allocations s) < ac_max_allocations c"
  shows "alloc_inv c cands (accept_tier t opp ex s)"
proof -
  define venues where "venues = venues_of opp"
  define ids where "ids = instrument_ids_of (op_evidence opp)"
  define a where "a = \<lparr>pa_opportunity_id = op_id opp, pa_strategy = strategy_value (op_strategy opp),
     pa_asset = op_asset opp, pa_venues = venues,
     pa_notional_usd_per_leg = ct_notional_usd_per_leg t,
     pa_capital_required_usd = ct_capital_required_usd t,
     pa_net_annualized_return = ct_net_annualized_return t,
     pa_estimated_capacity_notional_usd = ox_estimated_capacity_notional_usd ex,
     pa_canonical_instrument_ids = ids\<rparr>"
  note I = alloc_invD [OF inv]
  have A: "op_id opp \<notin> as_considered s" "as_used_instruments s \<inter> set ids = {}"
      "as_allocated s + ct_capital_required_usd t \<le> ac_total_capital_usd c + 1 / 10 ^ 9"
      "\<And>v. v \<in> set venues \<Longrightarrow> as_venue_used s v + ct_capital_required_usd t / real (max 1 (length venues))
          \<le> ac_total_capital_usd c * ac_max_venue_fraction c + 1 / 10 ^ 9"
      "as_asset_used s (op_asset opp) + ct_capital_required_usd t
          \<le> ac_total_capital_usd c * ac_max_asset_fraction c + 1 / 10 ^ 9"
      "ct_notional_usd_per_leg t \<le> ox_estimated_capacity_notional_usd ex + 1 / 10 ^ 9"
    using ad [unfolded admits_def prod.case over_total_def over_venue_def over_asset_def over_capacity_def]
    unfolding venues_def ids_def not_less by (blast intro: leI)+
  have new: "as_allocations (accept_tier t opp ex s) = as_allocations s @ [a]"
      "as_allocated (accept_tier t opp ex s) = as_allocated s + ct_capital_required_usd t"
      "as_asset_used (accept_tier t opp ex s)
         = (as_asset_used s)(op_asset opp := as_asset_used s (op_asset opp) + ct_capital_required_usd t)"
      "as_venue_used (accept_tier t opp ex s) = add_shares venues
         (ct_capital_required_usd t / real (max 1 (length venues))) (as_venue_used s)"
      "as_used_instruments (accept_tier t opp ex s) = as_used_instruments s \<union> set ids"
      "as_considered (accept_tier t opp ex s) = insert (op_id opp) (as_considered s)"
      "as_skipped (accept_tier t opp ex s) = as_skipped s"
    by (simp_all add: accept_tier_def Let_def a_def venues_def ids_def)
  have a: "pa_opportunity_id a = op_id opp" "pa_asset a = op_asset opp" "pa_venues a = venues"
      "pa_capital_required_usd a = ct_capital_required_usd t" "pa_canonical_instrument_ids a = ids"
      "backs (t, opp, ex) a"
    using A by (simp_all add: a_def backs_def venues_def ids_def)
  have dist: "distinct venues" by (simp add: venues_def)
  have fresh: "share_nothing b a" if "b \<in> set (as_allocations s)" for b
  proof -
    have "pa_opportunity_id b \<noteq> op_id opp" using A(1) I(8) that by (metis UnCI image_eqI)
    moreover have "set (pa_canonical_instrument_ids b) \<inter> set ids = {}" using A(2) I(7) that by auto
    ultimately show ?thesis by (simp add: share_nothing_def a)
  qed
  show ?thesis
    unfolding alloc_inv_def new
  proof (intro conjI allI)
    show "as_allocated s + ct_capital_required_usd t
        = (\<Sum>a\<leftarrow>as_allocations s @ [a]. pa_capital_required_usd a)" using I(1) a(4) by simp
    show "as_allocated s + ct_capital_required_usd t \<le> ac_total_capital_usd c + 1 / 10 ^ 9"
      using A(3) .
    show "add_shares venues (ct_capital_required_usd t / real (max 1 (length venues))) (as_venue_used s) v
        = venue_total v (as_allocations s @ [a])" for v
      by (simp only: add_shares_eq [OF dist] total_snoc I(3) a)
    show "venue_total v (as_allocations s @ [a])
        \<le> ac_total_capital_usd c * ac_max_venue_fraction c + 1 / 10 ^ 9" for v
      using I(4) [of v] A(4) [of v]
      by (cases "v \<in> set venues") (simp_all only: total_snoc a I(3) if_True if_False add_0_right)
    show "((as_asset_used s)(op_asset opp := as_asset_used s (op_asset opp) + ct_capital_required_usd t)) x
        = asset_total x (as_allocations s @ [a])" for x
      using I(5) a(2,4) by simp
    show "asset_total x (as_allocations s @ [a])
        \<le> ac_total_capital_usd c * ac_max_asset_fraction c + 1 / 10 ^ 9" for x
      using I(6) [of x] A(5)
      by (cases "op_asset opp = x") (simp_all only: total_snoc a I(5) refl if_True if_False add_0_right)
    show "as_used_instruments s \<union> set ids
        = (\<Union>a \<in> set (as_allocations s @ [a]). set (pa_canonical_instrument_ids a))"
      using I(7) a(5) by auto
    show "insert (op_id opp) (as_considered s)
        = pa_opportunity_id ` set (as_allocations s @ [a]) \<union> fst ` set (as_skipped s)"
      using I(8) a(1) by auto
    show "sorted_wrt share_nothing (as_allocations s @ [a])"
      using I(9) fresh by (simp add: sorted_wrt_append)
    show "length (as_allocations s @ [a]) \<le> ac_max_allocations c" using room by simp
    show "\<forall>b \<in> set (as_allocations s @ [a]). \<exists>cand \<in> cands. backs cand b"
      using I(11) a(6) mem by auto
  qed
qed

lemma consider_inv:
  assumes "alloc_inv c cands s" and "cand \<in> cands" and "length (as_allocations s) < ac_max_allocations c"
  shows "alloc_inv c cands (consider_candidate c cand s)"
proof -
  obtain t opp ex where cand: "cand = (t, opp, ex)" by (cases cand)
  show ?thesis
    unfolding cand
    by (rule consider_cases [of c t opp ex s])
      (use assms accept_inv skip_inv in \<open>auto simp: cand\<close>)
qed

interpretation greedy: guarded_loop "allocation_step c" "\<lambda>cand. cand \<in> cands" "alloc_inv c cands" for c cands
  by unfold_locales (auto simp: allocation_step_def intro: consider_inv)

lemma empty_alloc_inv: "valid_constraints c \<Longrightarrow> alloc_inv c cands empty_alloc"
  by (auto simp: alloc_inv_def empty_alloc_def valid_constraints_def venue_total_def asset_total_def
      intro!: add_nonneg_nonneg mult_nonneg_nonneg)

lemma loop_inv:
  "valid_constraints c \<Longrightarrow> alloc_inv c (set cs) (allocation_loop c cs empty_alloc)"
  unfolding allocation_loop_eq by (rule greedy.loop_keeps) (simp_all add: empty_alloc_inv)

section \<open>The plan leaves nothing that fits\<close>

text \<open>A candidate that was looked at is settled: its opportunity is decided, or the cash was short.\<close>

definition settled :: "alloc_constraints \<Rightarrow> alloc_candidate \<Rightarrow> alloc_state \<Rightarrow> bool" where
  "settled c cand s \<longleftrightarrow> (case cand of (t, opp, ex) \<Rightarrow>
     op_id opp \<in> as_considered s \<or> ac_max_allocations c \<le> length (as_allocations s)
     \<or> over_total c (ct_capital_required_usd t) s)"

lemma consider_grows:
  assumes "0 \<le> ct_capital_required_usd (fst cand)"
  shows "as_considered s \<subseteq> as_considered (consider_candidate c cand s)"
    and "length (as_allocations s) \<le> length (as_allocations (consider_candidate c cand s))"
    and "as_allocated s \<le> as_allocated (consider_candidate c cand s)"
proof -
  obtain t opp ex where cand: "cand = (t, opp, ex)" by (cases cand)
  have "as_considered s \<subseteq> as_considered (consider_candidate c cand s)
      \<and> length (as_allocations s) \<le> length (as_allocations (consider_candidate c cand s))
      \<and> as_allocated s \<le> as_allocated (consider_candidate c cand s)"
    unfolding cand
    by (rule consider_cases [of c t opp ex s])
      (use assms in \<open>auto simp: cand skip_opportunity_def accept_tier_def Let_def\<close>)
  then show "as_considered s \<subseteq> as_considered (consider_candidate c cand s)"
    and "length (as_allocations s) \<le> length (as_allocations (consider_candidate c cand s))"
    and "as_allocated s \<le> as_allocated (consider_candidate c cand s)" by blast+
qed

lemma settled_stays:
  assumes "settled c x s" and "0 \<le> ct_capital_required_usd (fst cand)"
  shows "settled c x (consider_candidate c cand s)"
  using assms(1) consider_grows [OF assms(2), of s c] by (auto simp: settled_def over_total_def split: prod.splits)

lemma consider_settles: "settled c cand (consider_candidate c cand s)"
proof -
  obtain t opp ex where cand: "cand = (t, opp, ex)" by (cases cand)
  show ?thesis
    unfolding cand
    by (rule consider_cases [of c t opp ex s])
      (auto simp: settled_def skip_opportunity_def accept_tier_def Let_def)
qed

lemma loop_settles:
  assumes "\<forall>x \<in> set cs. 0 \<le> ct_capital_required_usd (fst x)"
  shows "(\<forall>x \<in> seen. settled c x s) \<Longrightarrow> x \<in> set cs \<union> seen \<Longrightarrow> settled c x (allocation_loop c cs s)"
  using assms
proof (induction cs arbitrary: s \<open>seen\<close>)
  case (Cons cand cs)
  show ?case
  proof (cases "length (as_allocations s) \<ge> ac_max_allocations c")
    case True
    then show ?thesis by (auto simp: settled_def)
  next
    case False
    have "\<forall>y \<in> insert cand seen. settled c y (consider_candidate c cand s)"
      using Cons.prems settled_stays consider_settles by auto
    from Cons.IH [OF this] Cons.prems False show ?thesis by auto
  qed
qed simp

end
