(* ===== verification/Unified_Allocation.thy ===== *)
theory Unified_Allocation
  imports Portfolio_Risk Allocation
begin

text \<open>
  unified_allocation.py: candidates of three families (core CEX pairs, CEX-DEX composites,
  predictive alpha) under one paper allocation plan.  The three services that deliver the
  upstream rows await the network; their answers are parameters, a list of rows or an
  exception, and everything the allocator does with them is modelled.
\<close>

section \<open>Candidates and the plan\<close>

record settlement_leg =
  sl_venue :: string
  sl_asset :: string
  sl_market_kind :: string
  sl_side :: side
  sl_symbol :: string
  sl_base_quantity :: real
  sl_entry_price :: real
  sl_entry_notional_usd :: real
  sl_quote_currency :: "string option"
  sl_contract_key :: "string option"

definition settlement_leg_ok :: "settlement_leg \<Rightarrow> bool" where
  "settlement_leg_ok l \<longleftrightarrow> 0 < sl_base_quantity l \<and> 0 < sl_entry_price l \<and> 0 < sl_entry_notional_usd l"

datatype family = Core_cex | Cex_dex | Alpha

fun family_value :: "family \<Rightarrow> string" where
  "family_value Core_cex = ''core_cex''"
| "family_value Cex_dex = ''cex_dex''"
| "family_value Alpha = ''alpha''"

record unified_candidate =
  uc_candidate_id :: string
  uc_family :: family
  uc_strategy :: string
  uc_asset :: string
  uc_venues :: "string list"
  uc_capital_required_usd :: real
  uc_notional_usd_per_leg :: real
  uc_expected_profit_usd_per_deployment :: real
  uc_expected_return_on_reserved_capital :: real
  uc_modeled_holding_hours :: "real option"
  uc_source_return_metric :: string
  uc_source_return_value :: xreal
  uc_exposure_kind :: exposure_kind
  uc_source_observed_at :: "time option"
  uc_instrument_symbol :: "string option"
  uc_instrument_market_kind :: "string option"
  uc_entry_reference_price :: "real option"
  uc_modeled_roundtrip_cost_return :: "real option"
  uc_settlement_legs :: "settlement_leg list"
  uc_modeled_non_slippage_cost_bps :: "real option"
  uc_modeled_safety_buffer_bps :: "real option"
  uc_capital_multiple :: "real option"
  uc_conflict_keys :: "string list"
  uc_evidence_id :: "string option"
  uc_opportunity_id :: "string option"
  uc_capacity_reference_usd :: "real option"
  uc_capacity_claimed :: bool
  uc_allocation_eligible :: bool
  uc_executable_eligible :: bool
  uc_paper_only :: bool

text \<open>The field constraints of the model class: \<open>gt=0\<close> and \<open>ge=0\<close>, skipped on None.\<close>

definition opt_pos :: "real option \<Rightarrow> bool" where
  "opt_pos x = (case x of None \<Rightarrow> True | Some v \<Rightarrow> 0 < v)"

definition opt_nonneg :: "real option \<Rightarrow> bool" where
  "opt_nonneg x = (case x of None \<Rightarrow> True | Some v \<Rightarrow> 0 \<le> v)"

definition candidate_ok :: "unified_candidate \<Rightarrow> bool" where
  "candidate_ok c \<longleftrightarrow> 0 < uc_capital_required_usd c \<and> 0 < uc_notional_usd_per_leg c
     \<and> 0 \<le> uc_expected_profit_usd_per_deployment c \<and> 0 \<le> uc_expected_return_on_reserved_capital c
     \<and> opt_pos (uc_modeled_holding_hours c) \<and> opt_pos (uc_entry_reference_price c)
     \<and> opt_nonneg (uc_modeled_roundtrip_cost_return c)
     \<and> opt_nonneg (uc_modeled_non_slippage_cost_bps c) \<and> opt_nonneg (uc_modeled_safety_buffer_bps c)
     \<and> opt_pos (uc_capital_multiple c) \<and> opt_nonneg (uc_capacity_reference_usd c)"

definition checked_candidate :: "unified_candidate \<Rightarrow> unified_candidate result" where
  "checked_candidate c =
     (if candidate_ok c then Inr c else Inl (ValidationError ''UnifiedPaperCandidate''))"

record unified_allocation =
  ua_candidate_id :: string
  ua_family :: string
  ua_strategy :: string
  ua_asset :: string
  ua_venues :: "string list"
  ua_capital_required_usd :: real
  ua_notional_usd_per_leg :: real
  ua_expected_profit_usd_per_deployment :: real
  ua_expected_return_on_reserved_capital :: real
  ua_modeled_holding_hours :: "real option"
  ua_source_return_metric :: string
  ua_source_return_value :: xreal
  ua_exposure_kind :: exposure_kind
  ua_source_observed_at :: "time option"
  ua_instrument_symbol :: "string option"
  ua_instrument_market_kind :: "string option"
  ua_entry_reference_price :: "real option"
  ua_modeled_roundtrip_cost_return :: "real option"
  ua_settlement_legs :: "settlement_leg list"
  ua_modeled_non_slippage_cost_bps :: "real option"
  ua_modeled_safety_buffer_bps :: "real option"
  ua_capital_multiple :: "real option"
  ua_evidence_id :: "string option"
  ua_opportunity_id :: "string option"
  ua_capacity_claimed :: bool
  ua_authorizes_execution :: bool
  ua_paper_only :: bool

type_synonym family_failure = "string \<times> string \<times> string"

record unified_plan =
  up_observed_at :: time
  up_total_capital_usd :: real
  up_allocated_capital_usd :: real
  up_unused_cash_usd :: real
  up_expected_profit_usd_current_deployments :: real
  up_weighted_expected_return_on_reserved_capital :: real
  up_candidate_count :: nat
  up_allocations :: "unified_allocation list"
  up_skipped :: "(string \<times> string) list"
  up_family_failures :: "family_failure list"
  up_portfolio_risk_budget :: risk_budget
  up_authorizes_execution :: bool
  up_live_execution_eligible :: bool
  up_paper_only :: bool

section \<open>Core candidates\<close>

definition settlement_leg_of :: "opportunity_leg \<Rightarrow> leg_execution_estimate \<Rightarrow> string \<Rightarrow> settlement_leg" where
  "settlement_leg_of l e symbol = \<lparr>sl_venue = lg_venue l, sl_asset = upper (lg_asset l),
     sl_market_kind = market_kind_value (lg_market_kind l), sl_side = lg_side l, sl_symbol = symbol,
     sl_base_quantity = le_filled_base_quantity e, sl_entry_price = le_average_price e,
     sl_entry_notional_usd = le_filled_notional_usd e,
     sl_quote_currency = lg_quote_currency l, sl_contract_key = lg_contract_key l\<rparr>"

text \<open>The loop returns the empty list at the first leg without a symbol or a matching estimate.\<close>

fun settlement_rows ::
  "(opportunity_leg \<times> leg_execution_estimate) list \<Rightarrow> settlement_leg list \<Rightarrow> settlement_leg list result" where
  "settlement_rows [] rows = Inr rows"
| "settlement_rows ((l, e) # ps) rows =
     (let symbol = opt_or (lg_symbol l) (le_symbol e) in
      if \<not> truthy symbol then Inr []
      else if le_venue e \<noteq> lg_venue l \<or> upper (le_asset e) \<noteq> upper (lg_asset l)
           \<or> le_market_kind e \<noteq> lg_market_kind l then Inr []
      else let row = settlement_leg_of l e (the symbol)
           in if settlement_leg_ok row then settlement_rows ps (rows @ [row])
              else Inl (ValidationError ''PaperSettlementLeg''))"

definition core_settlement_legs :: "opportunity \<Rightarrow> capital_tier \<Rightarrow> settlement_leg list result" where
  "core_settlement_legs opp t =
     (if length (op_legs opp) \<noteq> length (ct_leg_estimates t) then Inr []
      else settlement_rows (zip (op_legs opp) (ct_leg_estimates t)) [])"

definition deployment_return :: "opportunity \<Rightarrow> capital_tier \<Rightarrow> real" where
  "deployment_return opp t =
     (case ct_net_annualized_return t of MInf \<Rightarrow> 0
      | Fin r \<Rightarrow> max 0 (r * op_holding_hours opp / (24 * 365)))"

definition core_conflict_keys :: "opportunity \<Rightarrow> string list" where
  "core_conflict_keys opp =
     (let keys = map (\<lambda>v. ''instrument:'' @ v) (instrument_ids_of (op_evidence opp))
                 @ map (\<lambda>l. ''venue-symbol:'' @ lg_venue l @ '':'' @ str_or (lg_symbol l) (lg_asset l)) (op_legs opp)
      in if keys = []
         then map (\<lambda>l. ''leg:'' @ lg_venue l @ '':'' @ str_or (lg_symbol l) (lg_asset l) @ '':''
                    @ market_kind_value (lg_market_kind l) @ '':'' @ side_value (lg_side l)) (op_legs opp)
         else keys)"

definition core_candidate ::
  "opportunity \<Rightarrow> opportunity_executability \<Rightarrow> capital_tier \<Rightarrow> unified_candidate result" where
  "core_candidate opp ex t =
     (let ret = deployment_return opp t in
      rbind (core_settlement_legs opp t) (\<lambda>legs. checked_candidate \<lparr>
        uc_candidate_id = ''core:'' @ op_id opp, uc_family = Core_cex,
        uc_strategy = strategy_value (op_strategy opp), uc_asset = op_asset opp,
        uc_venues = sorted_unique (map lg_venue (op_legs opp)),
        uc_capital_required_usd = ct_capital_required_usd t,
        uc_notional_usd_per_leg = ct_notional_usd_per_leg t,
        uc_expected_profit_usd_per_deployment = ct_capital_required_usd t * ret,
        uc_expected_return_on_reserved_capital = ret,
        uc_modeled_holding_hours = Some (op_holding_hours opp),
        uc_source_return_metric = ''net_annualized_return'',
        uc_source_return_value = ct_net_annualized_return t,
        uc_exposure_kind = Market_neutral, uc_source_observed_at = Some (op_observed_at opp),
        uc_instrument_symbol = None, uc_instrument_market_kind = None,
        uc_entry_reference_price = None, uc_modeled_roundtrip_cost_return = None,
        uc_settlement_legs = legs,
        uc_modeled_non_slippage_cost_bps = Some (max 0 (ct_total_modeled_cost_bps t
           - ct_observed_entry_slippage_bps t - ct_assumed_exit_slippage_bps t)),
        uc_modeled_safety_buffer_bps =
          Some (max 0 (op_safety_buffer_bps_per_hour opp * op_holding_hours opp)),
        uc_capital_multiple = (if ct_capital_multiple t > 0 then Some (ct_capital_multiple t) else None),
        uc_conflict_keys = sorted_unique (core_conflict_keys opp),
        uc_evidence_id = None, uc_opportunity_id = Some (op_id opp),
        uc_capacity_reference_usd = Some (ox_estimated_capacity_notional_usd ex),
        uc_capacity_claimed = False, uc_allocation_eligible = True,
        uc_executable_eligible = False, uc_paper_only = True\<rparr>))"

text \<open>The body of the loop over the executability records.\<close>

definition core_rows_of ::
  "(string \<rightharpoonup> opportunity) \<Rightarrow> opportunity_executability \<Rightarrow> unified_candidate list result" where
  "core_rows_of by_id ex =
     (case by_id (ox_opportunity_id ex) of None \<Rightarrow> Inr []
      | Some opp \<Rightarrow>
          if op_holding_hours opp \<le> 0 then Inr []
          else (case best_tier (filter (\<lambda>t. ct_executable t \<and> ct_passes_return_hurdle t
                                         \<and> ct_capital_required_usd t > 0) (ox_tiers ex)) of
                  None \<Rightarrow> Inr []
                | Some t \<Rightarrow> rbind (core_candidate opp ex t) (\<lambda>c. Inr [c])))"

definition core_candidates ::
  "opportunity list \<Rightarrow> opportunity_executability list \<Rightarrow> unified_candidate list result" where
  "core_candidates opps exs = rbind (rmap (core_rows_of (dict_by op_id opps)) exs) (\<lambda>rs. Inr (concat rs))"

section \<open>The other two families\<close>

record live_snapshot =
  ls_opportunities :: "opportunity list"
  ls_executability :: "opportunity_executability list"

text \<open>The fields the allocator reads of a CEX-DEX qualification and of a promoted alpha candidate.\<close>

record cex_dex_row =
  xr_evidence_id :: string
  xr_composite_key :: string
  xr_asset :: string
  xr_route_direction :: string
  xr_target_notional_usd :: real
  xr_cex_venue :: string
  xr_cex_symbol :: string
  xr_dex_venue :: string
  xr_conservative_capture_edge_bps :: real
  xr_paper_capital_required_usd :: real
  xr_paper_allocation_eligible :: bool

datatype alpha_direction = Alpha_long | Alpha_short | Alpha_market_neutral

record alpha_row =
  al_candidate_id :: string
  al_strategy_id :: string
  al_asset :: string
  al_direction :: alpha_direction
  al_venue :: string
  al_market_kind :: market_kind
  al_symbol :: string
  al_observed_at :: time
  al_horizon_hours :: real
  al_entry_reference_price :: real
  al_estimated_cost_return :: real
  al_expected_net_return :: real
  al_expected_profit_usd :: real
  al_notional_usd :: real
  al_capital_required_usd :: real
  al_conflict_keys :: "string list"

definition cex_dex_candidate :: "cex_dex_row \<Rightarrow> unified_candidate result" where
  "cex_dex_candidate r =
     (let capital = xr_paper_capital_required_usd r;
          profit = xr_target_notional_usd r * xr_conservative_capture_edge_bps r / 10000
      in rbind (py_div profit capital) (\<lambda>ret. checked_candidate \<lparr>
        uc_candidate_id = ''cex-dex:'' @ xr_composite_key r, uc_family = Cex_dex,
        uc_strategy = ''cex_dex'', uc_asset = xr_asset r, uc_venues = [xr_cex_venue r, xr_dex_venue r],
        uc_capital_required_usd = capital, uc_notional_usd_per_leg = xr_target_notional_usd r,
        uc_expected_profit_usd_per_deployment = profit,
        uc_expected_return_on_reserved_capital = ret, uc_modeled_holding_hours = None,
        uc_source_return_metric = ''conservative_capture_edge_bps'',
        uc_source_return_value = Fin (xr_conservative_capture_edge_bps r),
        uc_exposure_kind = Market_neutral, uc_source_observed_at = None,
        uc_instrument_symbol = None, uc_instrument_market_kind = None,
        uc_entry_reference_price = None, uc_modeled_roundtrip_cost_return = None,
        uc_settlement_legs = [], uc_modeled_non_slippage_cost_bps = None,
        uc_modeled_safety_buffer_bps = None, uc_capital_multiple = None,
        uc_conflict_keys = [
          ''cex:'' @ xr_cex_venue r @ '':'' @ xr_cex_symbol r,
          ''venue-symbol:'' @ xr_cex_venue r @ '':'' @ xr_cex_symbol r,
          ''dex:ethereum:'' @ xr_asset r @ '':'' @ xr_route_direction r],
        uc_evidence_id = Some (xr_evidence_id r), uc_opportunity_id = None,
        uc_capacity_reference_usd = None, uc_capacity_claimed = False,
        uc_allocation_eligible = True, uc_executable_eligible = False, uc_paper_only = True\<rparr>))"

definition cex_dex_candidates :: "cex_dex_row list \<Rightarrow> unified_candidate list result" where
  "cex_dex_candidates rs = rmap cex_dex_candidate (filter xr_paper_allocation_eligible rs)"

definition alpha_exposure :: "alpha_direction \<Rightarrow> exposure_kind" where
  "alpha_exposure d = (if d = Alpha_long then Directional_long
     else if d = Alpha_short then Directional_short else Market_neutral)"

definition alpha_candidate :: "alpha_row \<Rightarrow> unified_candidate result" where
  "alpha_candidate r =
     rbind (py_div (al_expected_profit_usd r) (al_capital_required_usd r)) (\<lambda>ret. checked_candidate \<lparr>
       uc_candidate_id = al_candidate_id r, uc_family = Alpha, uc_strategy = al_strategy_id r,
       uc_asset = al_asset r, uc_venues = [al_venue r],
       uc_capital_required_usd = al_capital_required_usd r,
       uc_notional_usd_per_leg = al_notional_usd r,
       uc_expected_profit_usd_per_deployment = al_expected_profit_usd r,
       uc_expected_return_on_reserved_capital = max 0 ret,
       uc_modeled_holding_hours = Some (al_horizon_hours r),
       uc_source_return_metric = ''forward_ci_health_haircut_net_return'',
       uc_source_return_value = Fin (al_expected_net_return r),
       uc_exposure_kind = alpha_exposure (al_direction r),
       uc_source_observed_at = Some (al_observed_at r),
       uc_instrument_symbol = Some (al_symbol r),
       uc_instrument_market_kind = Some (market_kind_value (al_market_kind r)),
       uc_entry_reference_price = Some (al_entry_reference_price r),
       uc_modeled_roundtrip_cost_return = Some (al_estimated_cost_return r),
       uc_settlement_legs = [], uc_modeled_non_slippage_cost_bps = None,
       uc_modeled_safety_buffer_bps = None, uc_capital_multiple = None,
       uc_conflict_keys = al_conflict_keys r @ [''venue-symbol:'' @ al_venue r @ '':'' @ al_symbol r],
       uc_evidence_id = None, uc_opportunity_id = None, uc_capacity_reference_usd = None,
       uc_capacity_claimed = False, uc_allocation_eligible = True,
       uc_executable_eligible = False, uc_paper_only = True\<rparr>)"

definition alpha_candidates :: "alpha_row list \<Rightarrow> unified_candidate list result" where
  "alpha_candidates rs = rmap alpha_candidate rs"

section \<open>Collecting the families\<close>

text \<open>What the three services answer: the second may depend on the inventory, the third on the snapshot.\<close>

record upstream =
  us_core :: "live_snapshot result"
  us_cex_dex :: "real \<Rightarrow> cex_dex_row list result"
  us_alpha :: "(live_snapshot \<Rightarrow> real \<Rightarrow> alpha_row list result) option"

text \<open>\<open>type(exc).__name__\<close>.\<close>

fun error_type :: "py_error \<Rightarrow> string" where
  "error_type (ValueError _) = ''ValueError''"
| "error_type (ValidationError _) = ''ValidationError''"
| "error_type (RuntimeError _) = ''RuntimeError''"
| "error_type ZeroDivisionError = ''ZeroDivisionError''"
| "error_type AssertionError = ''AssertionError''"
| "error_type (InsufficientDepthError _) = ''InsufficientDepthError''"
| "error_type (UnknownVenueFeeError _) = ''UnknownVenueFeeError''"
| "error_type (BorrowCostUnavailableError _) = ''BorrowCostUnavailableError''"
| "error_type OverflowError = ''OverflowError''"
| "error_type IndexError = ''IndexError''"
| "error_type IntegrityError = ''IntegrityError''"
| "error_type TypeError = ''TypeError''"
| "error_type (LookupError _) = ''LookupError''"
| "error_type (HTTPStatusError _) = ''HTTPStatusError''"
| "error_type (ServiceError name) = name"

definition core_family :: "upstream \<Rightarrow> (live_snapshot \<times> unified_candidate list) result" where
  "core_family u = rbind (us_core u) (\<lambda>snap.
     rbind (core_candidates (ls_opportunities snap) (ls_executability snap)) (\<lambda>rows. Inr (snap, rows)))"

definition cex_dex_family :: "upstream \<Rightarrow> real \<Rightarrow> unified_candidate list result" where
  "cex_dex_family u capital = rbind (us_cex_dex u (capital / 2)) cex_dex_candidates"

text \<open>The alpha family: absent, without a snapshot, or asked.\<close>

definition alpha_family ::
  "upstream \<Rightarrow> real \<Rightarrow> live_snapshot option \<Rightarrow> unified_candidate list \<times> family_failure list" where
  "alpha_family u capital snap =
     (case us_alpha u of None \<Rightarrow> ([], [])
      | Some promoted \<Rightarrow> (case snap of
          None \<Rightarrow> ([], [(''alpha'', ''UpstreamSnapshotUnavailable'',
            ''alpha candidate family requires a valid point-in-time executable market snapshot'')])
        | Some sn \<Rightarrow> (case rbind (promoted sn capital) alpha_candidates of
              Inr rows \<Rightarrow> (rows, [])
            | Inl e \<Rightarrow> ([], [(''alpha'', error_type e, ''alpha candidate family failed closed'')]))))"

definition unified_key :: "unified_candidate \<Rightarrow> real \<times> real \<times> real" where
  "unified_key c = (uc_expected_return_on_reserved_capital c,
     uc_expected_profit_usd_per_deployment c, - uc_capital_required_usd c)"

text \<open>The second failure message has a double arrow between CEX and DEX, written here in ASCII.\<close>

definition candidates_with_failures ::
  "upstream \<Rightarrow> real \<Rightarrow> (unified_candidate list \<times> family_failure list) result" where
  "candidates_with_failures u capital =
     (if capital \<le> 0 then Inl (ValueError ''total_capital_usd must be positive'')
      else let (snap, rows1, f1) = (case core_family u of
                 Inr (sn, rows) \<Rightarrow> (Some sn, rows, [])
               | Inl e \<Rightarrow> (None, [], [(''core_cex'', error_type e, ''core CEX candidate family failed closed'')]));
               (rows2, f2) = (case cex_dex_family u capital of
                 Inr rows \<Rightarrow> (rows, [])
               | Inl e \<Rightarrow> ([], [(''cex_dex'', error_type e, ''CEX<->DEX candidate family failed closed'')]));
               (rows3, f3) = alpha_family u capital snap
           in Inr (sort_desc unified_key (rows1 @ rows2 @ rows3), f1 @ f2 @ f3))"

section \<open>The allocation loop\<close>

record unified_state =
  un_allocations :: "unified_allocation list"
  un_skipped :: "(string \<times> string) list"
  un_venue_used :: "string \<Rightarrow> real"
  un_asset_used :: "string \<Rightarrow> real"
  un_used_conflicts :: "string set"
  un_overlay :: overlay
  un_allocated :: real

definition risk_view :: "unified_candidate \<Rightarrow> risk_candidate" where
  "risk_view c = \<lparr>rc_candidate_id = uc_candidate_id c, rc_family = family_value (uc_family c),
     rc_strategy = uc_strategy c, rc_capital_required_usd = uc_capital_required_usd c,
     rc_exposure_kind = uc_exposure_kind c\<rparr>"

definition allocation_of :: "unified_candidate \<Rightarrow> unified_allocation" where
  "allocation_of c = \<lparr>
     ua_candidate_id = uc_candidate_id c, ua_family = family_value (uc_family c),
     ua_strategy = uc_strategy c, ua_asset = uc_asset c, ua_venues = uc_venues c,
     ua_capital_required_usd = uc_capital_required_usd c,
     ua_notional_usd_per_leg = uc_notional_usd_per_leg c,
     ua_expected_profit_usd_per_deployment = uc_expected_profit_usd_per_deployment c,
     ua_expected_return_on_reserved_capital = uc_expected_return_on_reserved_capital c,
     ua_modeled_holding_hours = uc_modeled_holding_hours c,
     ua_source_return_metric = uc_source_return_metric c,
     ua_source_return_value = uc_source_return_value c, ua_exposure_kind = uc_exposure_kind c,
     ua_source_observed_at = uc_source_observed_at c,
     ua_instrument_symbol = uc_instrument_symbol c,
     ua_instrument_market_kind = uc_instrument_market_kind c,
     ua_entry_reference_price = uc_entry_reference_price c,
     ua_modeled_roundtrip_cost_return = uc_modeled_roundtrip_cost_return c,
     ua_settlement_legs = uc_settlement_legs c,
     ua_modeled_non_slippage_cost_bps = uc_modeled_non_slippage_cost_bps c,
     ua_modeled_safety_buffer_bps = uc_modeled_safety_buffer_bps c,
     ua_capital_multiple = uc_capital_multiple c, ua_evidence_id = uc_evidence_id c,
     ua_opportunity_id = uc_opportunity_id c, ua_capacity_claimed = False,
     ua_authorizes_execution = False, ua_paper_only = True\<rparr>"

record unified_limits =
  ul_total :: real
  ul_venue_fraction :: real
  ul_asset_fraction :: real
  ul_count :: nat

definition skip_candidate :: "unified_candidate \<Rightarrow> string \<Rightarrow> unified_state \<Rightarrow> unified_state" where
  "skip_candidate c reason s = s\<lparr>un_skipped := un_skipped s @ [(uc_candidate_id c, reason)]\<rparr>"

definition venue_share :: "unified_candidate \<Rightarrow> real" where
  "venue_share c = uc_capital_required_usd c / real (max 1 (length (uc_venues c)))"

definition total_short :: "unified_limits \<Rightarrow> unified_candidate \<Rightarrow> unified_state \<Rightarrow> bool" where
  "total_short l c s \<longleftrightarrow> un_allocated s + uc_capital_required_usd c > ul_total l + 1 / 10 ^ 9"

definition venue_full :: "unified_limits \<Rightarrow> unified_candidate \<Rightarrow> unified_state \<Rightarrow> bool" where
  "venue_full l c s \<longleftrightarrow> (\<exists>v \<in> set (uc_venues c).
     un_venue_used s v + venue_share c > ul_total l * ul_venue_fraction l + 1 / 10 ^ 9)"

definition asset_full :: "unified_limits \<Rightarrow> unified_candidate \<Rightarrow> unified_state \<Rightarrow> bool" where
  "asset_full l c s \<longleftrightarrow>
     un_asset_used s (uc_asset c) + uc_capital_required_usd c > ul_total l * ul_asset_fraction l + 1 / 10 ^ 9"

definition take_candidate :: "unified_candidate \<Rightarrow> overlay \<Rightarrow> unified_state \<Rightarrow> unified_state" where
  "take_candidate c ov s = s\<lparr>
     un_allocations := un_allocations s @ [allocation_of c],
     un_overlay := ov,
     un_allocated := un_allocated s + uc_capital_required_usd c,
     un_asset_used := (un_asset_used s)(uc_asset c := un_asset_used s (uc_asset c) + uc_capital_required_usd c),
     un_venue_used := add_shares (uc_venues c) (venue_share c) (un_venue_used s),
     un_used_conflicts := un_used_conflicts s \<union> set (uc_conflict_keys c)\<rparr>"

definition unified_step :: "unified_limits \<Rightarrow> unified_candidate \<Rightarrow> unified_state \<Rightarrow> unified_state result" where
  "unified_step l c s =
     (if length (un_allocations s) \<ge> ul_count l then Inr (skip_candidate c ''allocation count limit'' s)
      else if un_used_conflicts s \<inter> set (uc_conflict_keys c) \<noteq> {}
        then Inr (skip_candidate c ''shared instrument or route conflict'' s)
      else if total_short l c s then Inr (skip_candidate c ''total capital constraint'' s)
      else if venue_full l c s then Inr (skip_candidate c ''venue concentration cap'' s)
      else if asset_full l c s then Inr (skip_candidate c ''asset concentration cap'' s)
      else case risk_decide (un_overlay s) (risk_view c) of (d, ov) \<Rightarrow>
        if \<not> rd_accepted d
        then Inr (skip_candidate c (str_or (rd_reason d) ''portfolio risk budget'') (s\<lparr>un_overlay := ov\<rparr>))
        else rbind (risk_register ov (risk_view c)) (\<lambda>ov'. Inr (take_candidate c ov' s)))"

definition or_default :: "real option \<Rightarrow> real \<Rightarrow> real" where
  "or_default x d = (case x of None \<Rightarrow> d | Some v \<Rightarrow> if v = 0 then d else v)"

definition int_or_default :: "int option \<Rightarrow> int \<Rightarrow> int" where
  "int_or_default x d = (case x of None \<Rightarrow> d | Some v \<Rightarrow> if v = 0 then d else v)"

definition unified_limits_of ::
  "settings \<Rightarrow> real \<Rightarrow> real option \<Rightarrow> real option \<Rightarrow> int option \<Rightarrow> unified_limits result" where
  "unified_limits_of st capital venue_opt asset_opt count_opt =
     (let v = or_default venue_opt (se_allocator_max_venue_fraction st);
          a = or_default asset_opt (se_allocator_max_asset_fraction st);
          n = int_or_default count_opt (se_allocator_max_allocations st)
      in if capital \<le> 0 then Inl (ValueError ''total_capital_usd must be positive'')
         else if \<not> (0 < v \<and> v \<le> 1) \<or> \<not> (0 < a \<and> a \<le> 1) \<or> n \<le> 0
         then Inl (ValueError ''invalid allocation constraints'')
         else Inr \<lparr>ul_total = capital, ul_venue_fraction = v, ul_asset_fraction = a, ul_count = nat n\<rparr>)"

definition unified_plan_of ::
  "time \<Rightarrow> unified_limits \<Rightarrow> nat \<Rightarrow> family_failure list \<Rightarrow> unified_state \<Rightarrow> unified_plan result" where
  "unified_plan_of now l n failures s =
     (let profit = (\<Sum>a\<leftarrow>un_allocations s. ua_expected_profit_usd_per_deployment a);
          weighted = (\<Sum>a\<leftarrow>un_allocations s. ua_capital_required_usd a
                        * ua_expected_return_on_reserved_capital a) / ul_total l
      in rbind (risk_snapshot (un_overlay s)) (\<lambda>budget.
         if \<not> 0 < ul_total l \<or> un_allocated s < 0 \<or> profit < 0 \<or> weighted < 0
         then Inl (ValidationError ''UnifiedPaperAllocationPlan'')
         else Inr \<lparr>up_observed_at = now, up_total_capital_usd = ul_total l,
           up_allocated_capital_usd = un_allocated s,
           up_unused_cash_usd = max 0 (ul_total l - un_allocated s),
           up_expected_profit_usd_current_deployments = profit,
           up_weighted_expected_return_on_reserved_capital = weighted,
           up_candidate_count = n, up_allocations = un_allocations s, up_skipped = un_skipped s,
           up_family_failures = failures, up_portfolio_risk_budget = budget,
           up_authorizes_execution = False, up_live_execution_eligible = False,
           up_paper_only = True\<rparr>))"

text \<open>
  \<open>PortfolioRiskOverlay(self.settings, ...)\<close>: the Settings class declares none of the four
  overlay fractions, so every lookup falls back to its default.
\<close>

definition settings_overlay :: "real \<Rightarrow> overlay result" where
  "settings_overlay capital = new_overlay (\<lambda>_. None) capital"

definition unified_allocate ::
  "upstream \<Rightarrow> settings \<Rightarrow> time \<Rightarrow> real \<Rightarrow> real option \<Rightarrow> real option \<Rightarrow> int option \<Rightarrow> unified_plan result" where
  "unified_allocate u st now capital venue_opt asset_opt count_opt =
     rbind (unified_limits_of st capital venue_opt asset_opt count_opt) (\<lambda>l.
     rbind (candidates_with_failures u capital) (\<lambda>(cands, failures).
     rbind (settings_overlay capital) (\<lambda>ov.
     rbind (rfold (unified_step l) cands
              \<lparr>un_allocations = [], un_skipped = [], un_venue_used = (\<lambda>_. 0), un_asset_used = (\<lambda>_. 0),
               un_used_conflicts = {}, un_overlay = ov, un_allocated = 0\<rparr>) (\<lambda>s.
     unified_plan_of now l (length cands) failures s))))"

end
