(* ===== verification/Unified_Correct.thy ===== *)
theory Unified_Correct
  imports Unified_Allocation
begin

text \<open>
  The invariant of the unified allocation loop and its consequences: the loop never raises,
  and the state it ends in is under every cap and every portfolio risk budget.
\<close>

section \<open>The invariant\<close>

definition venue_sum :: "string \<Rightarrow> unified_candidate list \<Rightarrow> real" where
  "venue_sum v cs = (\<Sum>c\<leftarrow>cs. if v \<in> set (uc_venues c) then venue_share c else 0)"

definition asset_sum :: "string \<Rightarrow> unified_candidate list \<Rightarrow> real" where
  "asset_sum x cs = (\<Sum>c\<leftarrow>cs. if uc_asset c = x then uc_capital_required_usd c else 0)"

definition conflict_free :: "unified_candidate \<Rightarrow> unified_candidate \<Rightarrow> bool" where
  "conflict_free a b \<longleftrightarrow> set (uc_conflict_keys a) \<inter> set (uc_conflict_keys b) = {}"

text \<open>What the candidates taken so far satisfy, whatever the counters say.\<close>

definition within_limits :: "unified_limits \<Rightarrow> unified_candidate list \<Rightarrow> bool" where
  "within_limits l cs \<longleftrightarrow>
     (\<Sum>c\<leftarrow>cs. uc_capital_required_usd c) \<le> ul_total l + 1 / 10 ^ 9
     \<and> (\<forall>v. venue_sum v cs \<le> ul_total l * ul_venue_fraction l + 1 / 10 ^ 9)
     \<and> (\<forall>x. asset_sum x cs \<le> ul_total l * ul_asset_fraction l + 1 / 10 ^ 9)
     \<and> sorted_wrt conflict_free cs \<and> length cs \<le> ul_count l"

definition counts :: "unified_state \<Rightarrow> unified_candidate list \<Rightarrow> bool" where
  "counts s cs \<longleftrightarrow>
     un_allocations s = map allocation_of cs
     \<and> un_allocated s = (\<Sum>c\<leftarrow>cs. uc_capital_required_usd c)
     \<and> (\<forall>v. un_venue_used s v = venue_sum v cs)
     \<and> (\<forall>x. un_asset_used s x = asset_sum x cs)
     \<and> un_used_conflicts s = (\<Union>c \<in> set cs. set (uc_conflict_keys c))"

definition overlay_ok :: "overlay \<Rightarrow> overlay \<Rightarrow> unified_candidate list \<Rightarrow> bool" where
  "overlay_ok ov0 ov cs \<longleftrightarrow> counters_ok ov (map risk_view cs) \<and> budgets_kept ov (map risk_view cs)
     \<and> same_limits ov ov0"

definition unified_inv ::
  "unified_limits \<Rightarrow> overlay \<Rightarrow> unified_candidate set \<Rightarrow> unified_state \<Rightarrow> bool" where
  "unified_inv l ov0 C s \<longleftrightarrow> (\<exists>cs. set cs \<subseteq> C \<and> counts s cs \<and> within_limits l cs
     \<and> overlay_ok ov0 (un_overlay s) cs)"

lemma sums_snoc [simp]:
  "venue_sum v (cs @ [c]) = venue_sum v cs + (if v \<in> set (uc_venues c) then venue_share c else 0)"
  "asset_sum x (cs @ [c]) = asset_sum x cs + (if uc_asset c = x then uc_capital_required_usd c else 0)"
  by (simp_all add: venue_sum_def asset_sum_def)

section \<open>One step\<close>

lemma decide_cases:
  assumes "risk_decide ov c = (d, ov1)" and "overlay_ok ov0 ov cs"
  shows "overlay_ok ov0 ov1 cs"
  using assms decide_keeps [of ov "map risk_view cs" c]
  by (auto simp: overlay_ok_def same_limits_def)

lemma within_touch [simp]: "within_budgets (touch_strategy st ov) c = within_budgets ov c"
  by (simp add: within_budgets_def)

text \<open>An accepted decision leaves an overlay on which the registration succeeds.\<close>

lemma decide_then_register:
  assumes "risk_decide ov (risk_view c) = (d, ov1)" and "rd_accepted d" and "overlay_ok ov0 ov cs"
  shows "\<exists>ov2. risk_register ov1 (risk_view c) = Inr ov2 \<and> overlay_ok ov0 ov2 (cs @ [c])"
proof -
  have "within_budgets ov (risk_view c)" using assms(1,2) decide_iff [of ov "risk_view c"] by simp
  then have "within_budgets ov1 (risk_view c)"
    using decide_overlay [of ov "risk_view c"] assms(1) by auto
  then obtain ov2 where r: "risk_register ov1 (risk_view c) = Inr ov2" using register_iff by blast
  have "overlay_ok ov0 ov1 cs" using decide_cases [OF assms(1,3)] .
  then have "overlay_ok ov0 ov2 (cs @ [c])"
    using register_ok [OF r, of "map risk_view cs"] by (auto simp: overlay_ok_def same_limits_def)
  with r show ?thesis by blast
qed

lemma take_keeps:
  assumes ct: "counts s cs" and lim: "within_limits l cs" and dist: "distinct (uc_venues c)"
    and room: "length (un_allocations s) < ul_count l"
    and conf: "un_used_conflicts s \<inter> set (uc_conflict_keys c) = {}"
    and "\<not> total_short l c s" and "\<not> venue_full l c s" and "\<not> asset_full l c s"
  shows "counts (take_candidate c ov s) (cs @ [c])" and "within_limits l (cs @ [c])"
proof -
  have C: "un_allocations s = map allocation_of cs"
      "un_allocated s = (\<Sum>c\<leftarrow>cs. uc_capital_required_usd c)"
      "\<And>v. un_venue_used s v = venue_sum v cs" "\<And>x. un_asset_used s x = asset_sum x cs"
      "un_used_conflicts s = (\<Union>c \<in> set cs. set (uc_conflict_keys c))"
    using ct by (simp_all add: counts_def)
  show "counts (take_candidate c ov s) (cs @ [c])"
    unfolding counts_def
  proof (intro conjI allI)
    show "un_venue_used (take_candidate c ov s) v = venue_sum v (cs @ [c])" for v
      using C(3) by (simp add: take_candidate_def add_shares_eq [OF dist])
  qed (use C in \<open>auto simp: take_candidate_def\<close>)
  show "within_limits l (cs @ [c])"
    unfolding within_limits_def
  proof (intro conjI allI)
    show "(\<Sum>c\<leftarrow>cs @ [c]. uc_capital_required_usd c) \<le> ul_total l + 1 / 10 ^ 9"
      using assms(6) C(2) by (simp add: total_short_def not_less)
    show "venue_sum v (cs @ [c]) \<le> ul_total l * ul_venue_fraction l + 1 / 10 ^ 9" for v
      using assms(7) C(3) lim
      by (cases "v \<in> set (uc_venues c)") (auto simp: venue_full_def within_limits_def not_less)
    show "asset_sum x (cs @ [c]) \<le> ul_total l * ul_asset_fraction l + 1 / 10 ^ 9" for x
      using assms(8) C(4) lim
      by (cases "uc_asset c = x") (auto simp: asset_full_def within_limits_def not_less)
    show "sorted_wrt conflict_free (cs @ [c])"
      using lim conf C(5) by (auto simp: within_limits_def sorted_wrt_append conflict_free_def)
    show "length (cs @ [c]) \<le> ul_count l" using room C(1) by simp
  qed
qed

lemma skip_keeps: "counts (skip_candidate c r s) cs = counts s cs"
    "un_overlay (skip_candidate c r s) = un_overlay s"
    "counts (s\<lparr>un_overlay := ov\<rparr>) cs = counts s cs"
  by (simp_all add: counts_def skip_candidate_def)

lemma unified_step_keeps:
  assumes "unified_inv l ov0 C s" and "c \<in> C" and "distinct (uc_venues c)"
  shows "\<exists>s'. unified_step l c s = Inr s' \<and> unified_inv l ov0 C s'"
proof -
  obtain cs where cs: "set cs \<subseteq> C" "counts s cs" "within_limits l cs" "overlay_ok ov0 (un_overlay s) cs"
    using assms(1) by (auto simp: unified_inv_def)
  have skip: "unified_inv l ov0 C (skip_candidate c r s)" for r
    using cs by (auto simp: unified_inv_def skip_keeps)
  obtain d ov where d: "risk_decide (un_overlay s) (risk_view c) = (d, ov)" by fastforce
  have refused: "unified_inv l ov0 C (skip_candidate c r (s\<lparr>un_overlay := ov\<rparr>))" for r
    using cs decide_cases [OF d cs(4)] by (auto simp: unified_inv_def skip_keeps)
  show ?thesis
  proof (cases "length (un_allocations s) \<ge> ul_count l \<or> un_used_conflicts s \<inter> set (uc_conflict_keys c) \<noteq> {}
      \<or> total_short l c s \<or> venue_full l c s \<or> asset_full l c s \<or> \<not> rd_accepted d")
    case True
    then show ?thesis unfolding unified_step_def d prod.case by (auto simp: skip refused)
  next
    case False
    then obtain ov2 where r: "risk_register ov (risk_view c) = Inr ov2" "overlay_ok ov0 ov2 (cs @ [c])"
      using decide_then_register [OF d _ cs(4)] by blast
    have "counts (take_candidate c ov2 s) (cs @ [c])" "within_limits l (cs @ [c])"
      using take_keeps [OF cs(2,3) assms(3)] False by (auto simp: not_le)
    moreover have "un_overlay (take_candidate c ov2 s) = ov2" by (simp add: take_candidate_def)
    ultimately have "unified_inv l ov0 C (take_candidate c ov2 s)"
      using cs(1) assms(2) r(2) by (auto simp: unified_inv_def intro!: exI [of _ "cs @ [c]"])
    moreover have "unified_step l c s = Inr (take_candidate c ov2 s)"
      using False by (simp add: unified_step_def d r(1))
    ultimately show ?thesis by blast
  qed
qed

text \<open>The step as a total operation, under which the loop is the guarded loop of the prelude.\<close>

definition unified_next :: "unified_limits \<Rightarrow> unified_state \<Rightarrow> unified_candidate \<Rightarrow> unified_state" where
  "unified_next l s c = (case unified_step l c s of Inl _ \<Rightarrow> s | Inr s' \<Rightarrow> s')"

interpretation unified: guarded_loop "unified_next l" "\<lambda>c. c \<in> C \<and> distinct (uc_venues c)"
    "unified_inv l ov0 C" for l ov0 C
  by unfold_locales (use unified_step_keeps in \<open>fastforce simp: unified_next_def split: sum.split\<close>)

lemma rfold_unified:
  assumes "unified_inv l ov0 C s" and "\<forall>c \<in> set cs. c \<in> C \<and> distinct (uc_venues c)"
  shows "rfold (unified_step l) cs s = Inr (foldl (unified_next l) s cs)"
  using assms
proof (induction cs arbitrary: s)
  case (Cons c cs)
  obtain s' where s': "unified_step l c s = Inr s'" "unified_inv l ov0 C s'"
    using unified_step_keeps [OF Cons.prems(1)] Cons.prems(2) by auto
  then show ?case using Cons by (simp add: unified_next_def)
qed simp

section \<open>The whole allocation\<close>

lemma limits_of_fields:
  assumes "unified_limits_of st capital v a n = Inr l"
  shows "ul_total l = capital" and "0 < capital" and "0 < ul_venue_fraction l" and "ul_venue_fraction l \<le> 1"
    and "0 < ul_asset_fraction l" and "ul_asset_fraction l \<le> 1" and "0 < ul_count l"
  using assms by (auto simp: unified_limits_of_def Let_def split: if_splits)

lemma settings_overlay_eq:
  "0 < capital \<Longrightarrow> settings_overlay capital = Inr \<lparr>ov_total = capital, ov_max_alpha_fraction = 2 / 5,
     ov_max_directional_fraction = 7 / 20, ov_max_same_direction_fraction = 1 / 4,
     ov_max_alpha_strategy_fraction = 1 / 5, ov_alpha_used = 0, ov_market_neutral_used = 0,
     ov_directional_used = 0, ov_long_used = 0, ov_short_used = 0, ov_strategy_used = []\<rparr>"
  by (simp add: settings_overlay_def new_overlay_def attr_or_def fraction_ok_def Let_def)

text \<open>Every collected candidate passed its validation, and its venues are distinct when those of the composites are.\<close>

lemma core_candidate_ok:
  "core_candidate opp ex t = Inr c \<Longrightarrow> candidate_ok c \<and> distinct (uc_venues c) \<and> uc_family c = Core_cex"
  by (auto simp: core_candidate_def checked_candidate_def Let_def split: if_splits)

lemma core_candidates_ok:
  assumes "core_candidates opps exs = Inr cs" and "c \<in> set cs"
  shows "candidate_ok c \<and> distinct (uc_venues c) \<and> uc_family c = Core_cex"
proof -
  obtain rs where rs: "rmap (core_rows_of (dict_by op_id opps)) exs = Inr rs" "cs = concat rs"
    using assms(1) by (auto simp: core_candidates_def)
  then obtain row where "row \<in> set rs" "c \<in> set row" using assms(2) by auto
  then obtain ex where ex: "core_rows_of (dict_by op_id opps) ex = Inr row" "c \<in> set row"
    using rs(1) by (metis rmap_set)
  then obtain opp t where "core_candidate opp ex t = Inr c"
    by (auto simp: core_rows_of_def split: option.splits if_splits)
  then show ?thesis by (rule core_candidate_ok)
qed

lemma cex_dex_candidates_ok:
  assumes "cex_dex_candidates rs = Inr cs" and "c \<in> set cs"
  shows "candidate_ok c \<and> uc_family c = Cex_dex
    \<and> (\<exists>r \<in> set rs. xr_paper_allocation_eligible r \<and> uc_venues c = [xr_cex_venue r, xr_dex_venue r])"
proof -
  obtain r where r: "r \<in> set (filter xr_paper_allocation_eligible rs)" "cex_dex_candidate r = Inr c"
    using assms unfolding cex_dex_candidates_def by (metis rmap_set)
  then have "candidate_ok c \<and> uc_family c = Cex_dex \<and> uc_venues c = [xr_cex_venue r, xr_dex_venue r]"
    by (auto simp: cex_dex_candidate_def checked_candidate_def Let_def split: if_splits)
  with r(1) show ?thesis by auto
qed

lemma alpha_candidates_ok:
  assumes "alpha_candidates rs = Inr cs" and "c \<in> set cs"
  shows "candidate_ok c \<and> uc_family c = Alpha \<and> distinct (uc_venues c)"
proof -
  obtain r where "alpha_candidate r = Inr c"
    using assms unfolding alpha_candidates_def by (metis rmap_set)
  then show ?thesis
    by (auto simp: alpha_candidate_def checked_candidate_def Let_def split: if_splits)
qed

text \<open>The composites of an upstream never trade a venue against itself.\<close>

definition two_venues :: "upstream \<Rightarrow> bool" where
  "two_venues u \<longleftrightarrow> (\<forall>inv rs. us_cex_dex u inv = Inr rs \<longrightarrow> (\<forall>r \<in> set rs. xr_cex_venue r \<noteq> xr_dex_venue r))"

lemma collected_ok:
  assumes "candidates_with_failures u capital = Inr (cs, fs)" and "c \<in> set cs"
  shows "candidate_ok c" and "two_venues u \<Longrightarrow> distinct (uc_venues c)"
proof -
  define core where "core = (case core_family u of
      Inr (sn, rows) \<Rightarrow> (Some sn, rows, [])
    | Inl e \<Rightarrow> (None, [], [(''core_cex'', error_type e, ''core CEX candidate family failed closed'')]))"
  define dex where "dex = (case cex_dex_family u capital of Inr rows \<Rightarrow> (rows, [])
    | Inl e \<Rightarrow> ([], [(''cex_dex'', error_type e, ''CEX<->DEX candidate family failed closed'')]))"
  have "set cs = set (fst (snd core)) \<union> set (fst dex) \<union> set (fst (alpha_family u capital (fst core)))"
    using assms(1) unfolding candidates_with_failures_def core_def [symmetric] dex_def [symmetric]
    by (auto simp: Let_def split: if_splits prod.splits)
  moreover have "candidate_ok c \<and> (two_venues u \<longrightarrow> distinct (uc_venues c))" if "c \<in> set (fst (snd core))"
    using that core_candidates_ok by (auto simp: core_def core_family_def split: sum.splits)
  moreover have "candidate_ok c \<and> (two_venues u \<longrightarrow> distinct (uc_venues c))" if c: "c \<in> set (fst dex)"
  proof -
    obtain rs where "us_cex_dex u (capital / 2) = Inr rs" "cex_dex_candidates rs = Inr (fst dex)"
      using c by (auto simp: dex_def cex_dex_family_def split: sum.splits)
    then show ?thesis using cex_dex_candidates_ok [OF _ c] by (fastforce simp: two_venues_def)
  qed
  moreover have "candidate_ok c \<and> (two_venues u \<longrightarrow> distinct (uc_venues c))"
    if "c \<in> set (fst (alpha_family u capital (fst core)))"
    using that alpha_candidates_ok by (auto simp: alpha_family_def split: option.splits sum.splits)
  ultimately have "candidate_ok c \<and> (two_venues u \<longrightarrow> distinct (uc_venues c))" using assms(2) by blast
  then show "candidate_ok c" and "two_venues u \<Longrightarrow> distinct (uc_venues c)" by blast+
qed

lemma start_inv:
  assumes "unified_limits_of st capital v a n = Inr l" and "settings_overlay capital = Inr ov"
  shows "unified_inv l ov C \<lparr>un_allocations = [], un_skipped = [], un_venue_used = (\<lambda>_. 0),
      un_asset_used = (\<lambda>_. 0), un_used_conflicts = {}, un_overlay = ov, un_allocated = 0\<rparr>"
proof -
  note l = limits_of_fields [OF assms(1)]
  have "0 \<le> ul_total l * f + 1 / 10 ^ 9" if "0 < f" for f :: real
    using l that by (intro add_nonneg_nonneg mult_nonneg_nonneg) simp_all
  then have "within_limits l []" using l by (simp add: within_limits_def venue_sum_def asset_sum_def)
  moreover have "overlay_ok ov ov []"
    using new_overlay_ok [OF assms(2) [unfolded settings_overlay_def]]
    by (simp add: overlay_ok_def same_limits_def)
  ultimately show ?thesis
    by (auto simp: unified_inv_def counts_def venue_sum_def asset_sum_def intro!: exI [of _ "[]"])
qed

text \<open>The plan built from a state under the invariant always passes its own validation.\<close>

lemma plan_of_ok:
  assumes "unified_inv l ov0 C s" and "\<forall>c \<in> C. candidate_ok c" and "0 < ul_total l" and "ov_total ov0 = ul_total l"
  shows "\<exists>plan. unified_plan_of now l n fs s = Inr plan"
proof -
  obtain cs where cs: "set cs \<subseteq> C" "counts s cs" "overlay_ok ov0 (un_overlay s) cs"
    using assms(1) by (auto simp: unified_inv_def)
  have ok: "\<forall>c \<in> set cs. 0 < uc_capital_required_usd c \<and> 0 \<le> uc_expected_profit_usd_per_deployment c
      \<and> 0 \<le> uc_expected_return_on_reserved_capital c"
    using cs(1) assms(2) by (auto simp: candidate_ok_def)
  have 1: "un_allocations s = map allocation_of cs" "un_allocated s = (\<Sum>c\<leftarrow>cs. uc_capital_required_usd c)"
    using cs(2) by (simp_all add: counts_def)
  have "0 \<le> un_allocated s" unfolding 1 by (rule sum_list_nonneg) (use ok in \<open>auto intro: less_imp_le\<close>)
  moreover have "0 \<le> (\<Sum>a\<leftarrow>un_allocations s. ua_expected_profit_usd_per_deployment a)"
    unfolding 1 by (rule sum_list_nonneg) (use ok in \<open>auto simp: allocation_of_def\<close>)
  moreover have "0 \<le> (\<Sum>a\<leftarrow>un_allocations s. ua_capital_required_usd a * ua_expected_return_on_reserved_capital a)"
    unfolding 1 by (rule sum_list_nonneg) (use ok in \<open>auto simp: allocation_of_def\<close>)
  moreover have "ov_total (un_overlay s) = ul_total l"
    using cs(3) assms(4) by (simp add: overlay_ok_def same_limits_def)
  then obtain b where "risk_snapshot (un_overlay s) = Inr b"
    using snapshot_ok [of "un_overlay s" "map risk_view cs"] cs(3) assms(3) by (auto simp: overlay_ok_def)
  ultimately show ?thesis using assms(3) by (simp add: unified_plan_of_def Let_def not_less)
qed

lemma collects: "0 < capital \<Longrightarrow> \<exists>cs fs. candidates_with_failures u capital = Inr (cs, fs)"
  by (simp add: candidates_with_failures_def Let_def case_prod_beta)

text \<open>The run of the allocator, taken apart.\<close>

lemma unified_run:
  assumes "unified_limits_of st capital v a n = Inr l" and "two_venues u"
  obtains cs fs ov s where "candidates_with_failures u capital = Inr (cs, fs)"
    and "settings_overlay capital = Inr ov" and "unified_inv l ov (set cs) s"
    and "\<forall>c \<in> set cs. candidate_ok c"
    and "unified_allocate u st now capital v a n = unified_plan_of now l (length cs) fs s"
proof -
  note l = limits_of_fields [OF assms(1)]
  obtain cs fs where cs: "candidates_with_failures u capital = Inr (cs, fs)"
    using collects [OF l(2)] by blast
  obtain ov where ov: "settings_overlay capital = Inr ov" using settings_overlay_eq [OF l(2)] by blast
  let ?s0 = "\<lparr>un_allocations = [], un_skipped = [], un_venue_used = (\<lambda>_. 0),
      un_asset_used = (\<lambda>_. 0), un_used_conflicts = {}, un_overlay = ov, un_allocated = 0\<rparr>"
  have inv: "unified_inv l ov (set cs) ?s0" by (rule start_inv [OF assms(1) ov])
  have good: "\<forall>c \<in> set cs. c \<in> set cs \<and> distinct (uc_venues c)" using collected_ok(2) [OF cs _ assms(2)] by blast
  have "unified_inv l ov (set cs) (foldl (unified_next l) ?s0 cs)"
    by (rule unified.loop_keeps [OF inv]) (use good in auto)
  moreover have "unified_allocate u st now capital v a n
      = unified_plan_of now l (length cs) fs (foldl (unified_next l) ?s0 cs)"
    using rfold_unified [OF inv good] by (simp add: unified_allocate_def assms(1) cs ov)
  moreover have "\<forall>c \<in> set cs. candidate_ok c" using collected_ok(1) [OF cs] by blast
  ultimately show thesis using that [OF cs ov] by blast
qed

end
