(* ===== verification/Props_Allocation.thy ===== *)
theory Props_Allocation
  imports Unified_Correct Fixtures
begin

text \<open>
  The properties of ranking, the risk gate, the paper executor and the two allocators, each
  with a witness on the fixtures.
\<close>

section \<open>Ranking, risk gate, paper fills\<close>

text \<open>
  The ranking numbers its rows 1 to n in order of return, ties by capacity; it has
  exactly one row for each executability record of a known opportunity with a qualified tier,
  and the score of a row is the best return among the qualified tiers of such a record.
\<close>

theorem ranking_correct:
  "map rk_rank (rank_qualified_opportunities opps exs)
     = [1 ..< Suc (length (rank_qualified_opportunities opps exs))]
   \<and> sorted_wrt (\<lambda>a b. rank_key b \<le> rank_key a) (rank_qualified_opportunities opps exs)
   \<and> mset (map rk_opportunity_id (rank_qualified_opportunities opps exs))
       = mset (map ox_opportunity_id (filter (rankable opps) exs))
   \<and> (\<forall>r \<in> set (rank_qualified_opportunities opps exs). \<exists>ex \<in> set exs. \<exists>t \<in> set (ox_tiers ex).
        tier_qualified t \<and> rk_rank_score r = ct_net_annualized_return t
        \<and> (\<forall>u \<in> set (ox_tiers ex). tier_qualified u \<longrightarrow> ct_net_annualized_return u \<le> rk_rank_score r))"
proof -
  define rows where "rows = concat (map (rank_rows (dict_by op_id opps)) exs)"
  let ?rs = "number_from 1 (sort_desc rank_key rows)"
  have eq: "rank_qualified_opportunities opps exs = ?rs"
    by (simp add: rank_qualified_opportunities_def rows_def)
  have keys: "map rank_key ?rs = map rank_key (sort_desc rank_key rows)"
    by (rule number_from_map) (simp add: rank_key_def)
  have "sorted_wrt (\<lambda>a b. b \<le> a) (map rank_key (sort_desc rank_key rows))"
    using sort_desc_sorted [of rank_key rows] by (simp add: sorted_wrt_map)
  then have order: "sorted_wrt (\<lambda>a b. rank_key b \<le> rank_key a) ?rs"
    by (simp only: keys [symmetric] sorted_wrt_map)
  have "map rk_opportunity_id ?rs = map rk_opportunity_id (sort_desc rank_key rows)"
    by (rule number_from_map) simp
  then have "mset (map rk_opportunity_id ?rs) = mset (map rk_opportunity_id rows)" by simp
  also have "map rk_opportunity_id rows = map ox_opportunity_id (filter (rankable opps) exs)"
    unfolding rows_def by (induction exs) (simp_all add: rank_rows_ids)
  finally have ids: "mset (map rk_opportunity_id ?rs) = mset (map ox_opportunity_id (filter (rankable opps) exs))" .
  have score: "\<exists>ex \<in> set exs. \<exists>t \<in> set (ox_tiers ex). tier_qualified t \<and> rk_rank_score r = ct_net_annualized_return t
        \<and> (\<forall>u \<in> set (ox_tiers ex). tier_qualified u \<longrightarrow> ct_net_annualized_return u \<le> rk_rank_score r)"
    if r: "r \<in> set ?rs" for r
  proof -
    have "map rk_rank_score ?rs = map rk_rank_score (sort_desc rank_key rows)"
      by (rule number_from_map) simp
    then have "rk_rank_score ` set ?rs = rk_rank_score ` set rows" by (metis set_map set_sort_desc)
    then obtain q where q: "q \<in> set rows" "rk_rank_score r = rk_rank_score q"
      using r by (metis image_iff)
    then obtain ex where "ex \<in> set exs" "q \<in> set (rank_rows (dict_by op_id opps) ex)" by (auto simp: rows_def)
    with rank_rows_best [OF this(2)] q(2) show ?thesis by metis
  qed
  show ?thesis
    using number_from_ranks [of 1 "sort_desc rank_key rows"] order ids score unfolding eq by simp
qed

theorem ranking_correct_witness:
  "\<exists>r. rank_qualified_opportunities [fx_opportunity] [fx_executability] = [r]
     \<and> rk_rank r = 1 \<and> rk_rank_score r = Fin (1 / 2)"
proof -
  let ?rs = "rank_qualified_opportunities [fx_opportunity] [fx_executability]"
  have "rankable [fx_opportunity] fx_executability"
    by (simp add: rankable_def fx_executability_def executability_of_def fx_tier_def tier_qualified_def
        blank_tier_def dict_by_def)
  then have "mset (map rk_opportunity_id ?rs) = {#ox_opportunity_id fx_executability#}"
    using ranking_correct [of "[fx_opportunity]" "[fx_executability]"] by simp
  then have "length ?rs = 1" by (metis length_map size_mset size_single)
  then obtain r where r: "?rs = [r]" by (metis One_nat_def length_0_conv length_Suc_conv)
  moreover have "rk_rank r = 1"
    using ranking_correct [of "[fx_opportunity]" "[fx_executability]"] r by simp
  moreover have "\<forall>r \<in> set ?rs. rk_rank_score r = Fin (1 / 2)"
    using ranking_correct [of "[fx_opportunity]" "[fx_executability]"]
    by (auto simp: fx_executability_def executability_of_def fx_tier_def blank_tier_def)
  ultimately show ?thesis by simp
qed

text \<open>
  The risk gate passes exactly the paper-only, unexpired, two-legged opportunities with
  a positive edge and a return at or above the hurdle, each as often as it came, best return first.
\<close>

theorem risk_gate_exact:
  "mset (risk_filter s opps now) = {#opp \<in># mset opps. op_paper_only opp \<and> now \<le> op_expires_at opp
       \<and> se_min_net_annualized_return s \<le> op_net_annualized_return opp
       \<and> 0 < op_net_edge_bps_per_hour opp \<and> length (op_legs opp) = 2#}
   \<and> sorted_wrt (\<lambda>a b. op_net_annualized_return b \<le> op_net_annualized_return a) (risk_filter s opps now)"
proof -
  have "risk_accepts s now = (\<lambda>opp. op_paper_only opp \<and> now \<le> op_expires_at opp
       \<and> se_min_net_annualized_return s \<le> op_net_annualized_return opp
       \<and> 0 < op_net_edge_bps_per_hour opp \<and> length (op_legs opp) = 2)"
    by (auto simp: risk_accepts_def fun_eq_iff not_less not_le)
  then show ?thesis by (simp add: risk_filter_def sort_desc_sorted)
qed

text \<open>
  Whatever is asked of the paper executor, every fill it holds is an open paper fill
  at a positive notional of a paper-only opportunity that was asked for.
\<close>

theorem paper_fills_backed:
  "\<forall>f \<in> set (foldl paper_step [] reqs). \<exists>(now, opp, n) \<in> set reqs. op_paper_only opp \<and> 0 < n
     \<and> f = \<lparr>pf_opportunity_id = op_id opp, pf_accepted_at = now,
            pf_notional_usd_per_leg = n, pf_status = ''paper_open''\<rparr>"
  using paper.loop_keeps [of "[]" "set reqs" reqs] by (simp add: backed_fill_def)

theorem paper_fills_backed_witness:
  "\<exists>f. foldl paper_step [] [(0, fx_opportunity, 1000), (1, fx_opportunity\<lparr>op_paper_only := False\<rparr>, 1000)] = [f]
     \<and> pf_accepted_at f = 0 \<and> pf_notional_usd_per_leg f = 1000"
proof -
  let ?reqs = "[(0, fx_opportunity, 1000), (1, fx_opportunity\<lparr>op_paper_only := False\<rparr>, 1000)]"
  have p: "op_paper_only fx_opportunity" by (simp add: fx_opportunity_def)
  then obtain f where f: "foldl paper_step [] ?reqs = [f]"
    by (simp add: paper_step_def paper_execute_def Let_def)
  show ?thesis using paper_fills_backed [of ?reqs] f by auto
qed

section \<open>The greedy allocator\<close>

text \<open>
  C23: a plan spends what its allocations say and never more than the total, its venues and
  assets stay under their caps (all up to the code's 1e-9), no two allocations share an
  opportunity or an instrument, and each is a qualified tier within its capacity.
\<close>

theorem plan_within_limits:
  assumes "valid_constraints c" and "allocate_qualified_opportunities opps exs c = plan"
  shows "ap_allocated_capital_usd plan = (\<Sum>a\<leftarrow>ap_allocations plan. pa_capital_required_usd a)
    \<and> ap_allocated_capital_usd plan \<le> ac_total_capital_usd c + 1 / 10 ^ 9
    \<and> ap_unused_cash_usd plan = max 0 (ac_total_capital_usd c - ap_allocated_capital_usd plan)
    \<and> (\<forall>v. venue_total v (ap_allocations plan) \<le> ac_total_capital_usd c * ac_max_venue_fraction c + 1 / 10 ^ 9)
    \<and> (\<forall>x. asset_total x (ap_allocations plan) \<le> ac_total_capital_usd c * ac_max_asset_fraction c + 1 / 10 ^ 9)
    \<and> sorted_wrt share_nothing (ap_allocations plan)
    \<and> length (ap_allocations plan) \<le> ac_max_allocations c
    \<and> (\<forall>a \<in> set (ap_allocations plan). \<exists>cand \<in> set (alloc_candidates opps exs).
          backs cand a \<and> allocatable (fst cand))
    \<and> \<not> ap_authorizes_execution plan \<and> ap_paper_only plan"
proof -
  have inv: "alloc_inv c (set (alloc_candidates opps exs))
      (allocation_loop c (alloc_candidates opps exs) empty_alloc)" by (rule loop_inv [OF assms(1)])
  have ok: "allocatable (fst cand)" if "cand \<in> set (alloc_candidates opps exs)" for cand
    using that by (auto simp: alloc_candidates_def candidates_of_def split: option.splits)
  have plan: "ap_allocations plan = as_allocations (allocation_loop c (alloc_candidates opps exs) empty_alloc)"
      "ap_allocated_capital_usd plan = as_allocated (allocation_loop c (alloc_candidates opps exs) empty_alloc)"
      "ap_unused_cash_usd plan = max 0 (ac_total_capital_usd c - ap_allocated_capital_usd plan)"
      "\<not> ap_authorizes_execution plan" "ap_paper_only plan"
    using assms(2) by (auto simp: allocate_qualified_opportunities_def Let_def)
  show ?thesis using alloc_invD [OF inv] ok plan by metis
qed

theorem plan_within_limits_witness:
  "valid_constraints \<lparr>ac_total_capital_usd = 10000, ac_max_venue_fraction = 1 / 2, ac_max_asset_fraction = 1 / 2,
     ac_max_allocations = 10\<rparr>
   \<and> ap_allocated_capital_usd (allocate_qualified_opportunities [fx_opportunity] [fx_executability]
       \<lparr>ac_total_capital_usd = 10000, ac_max_venue_fraction = 1 / 2, ac_max_asset_fraction = 1 / 2,
        ac_max_allocations = 10\<rparr>) \<le> 10000 + 1 / 10 ^ 9"
proof -
  let ?c = "\<lparr>ac_total_capital_usd = 10000, ac_max_venue_fraction = 1 / 2, ac_max_asset_fraction = 1 / 2,
        ac_max_allocations = 10\<rparr>"
  have v: "valid_constraints ?c" by (simp add: valid_constraints_def)
  show ?thesis using plan_within_limits [OF v refl, of "[fx_opportunity]" "[fx_executability]"] v by simp
qed

text \<open>
  A plan below its allocation count leaves nothing that fits: every candidate whose
  opportunity it neither took nor reported as skipped would exceed the total capital.
\<close>

theorem plan_leaves_nothing_that_fits:
  assumes "valid_constraints c" and "allocate_qualified_opportunities opps exs c = plan"
    and "length (ap_allocations plan) < ac_max_allocations c"
    and "(t, opp, ex) \<in> set (alloc_candidates opps exs)"
    and "op_id opp \<notin> pa_opportunity_id ` set (ap_allocations plan)"
    and "op_id opp \<notin> fst ` set (ap_skipped plan)"
  shows "ap_allocated_capital_usd plan + ct_capital_required_usd t > ac_total_capital_usd c + 1 / 10 ^ 9"
proof -
  let ?cs = "alloc_candidates opps exs"
  let ?s = "allocation_loop c ?cs empty_alloc"
  have nn: "\<forall>x \<in> set ?cs. 0 \<le> ct_capital_required_usd (fst x)"
    by (auto simp: alloc_candidates_def candidates_of_def allocatable_def split: option.splits)
  have "settled c (t, opp, ex) ?s" by (rule loop_settles [OF nn, of "{}"]) (use assms(4) in auto)
  moreover have plan: "ap_allocations plan = as_allocations ?s" "ap_skipped plan = as_skipped ?s"
      "ap_allocated_capital_usd plan = as_allocated ?s"
    using assms(2) by (auto simp: allocate_qualified_opportunities_def Let_def)
  moreover have "op_id opp \<notin> as_considered ?s"
    using alloc_invD(8) [OF loop_inv [OF assms(1)], of ?cs] assms(5,6) plan by simp
  ultimately show ?thesis using assms(3) by (auto simp: settled_def over_total_def not_le)
qed

theorem plan_leaves_nothing_that_fits_witness:
  "ap_allocated_capital_usd (allocate_qualified_opportunities [fx_opportunity] [fx_executability]
     \<lparr>ac_total_capital_usd = 100, ac_max_venue_fraction = 1, ac_max_asset_fraction = 1, ac_max_allocations = 10\<rparr>)
     + 2000 > 100 + 1 / 10 ^ 9"
proof -
  let ?c = "\<lparr>ac_total_capital_usd = 100, ac_max_venue_fraction = 1, ac_max_asset_fraction = 1, ac_max_allocations = 10\<rparr>"
  let ?p = "allocate_qualified_opportunities [fx_opportunity] [fx_executability] ?c"
  have c: "alloc_candidates [fx_opportunity] [fx_executability] = [(fx_tier, fx_opportunity, fx_executability)]"
    by (simp add: alloc_candidates_def candidates_of_def dict_by_def fx_executability_def executability_of_def
        allocatable_def fx_tier_def sort_desc_def)
  have p: "ap_allocations ?p = []" "ap_skipped ?p = []"
    by (simp_all add: allocate_qualified_opportunities_def c consider_candidate_def empty_alloc_def
        over_total_def fx_tier_def Let_def)
  have "ap_allocated_capital_usd ?p + ct_capital_required_usd fx_tier > ac_total_capital_usd ?c + 1 / 10 ^ 9"
    by (rule plan_leaves_nothing_that_fits [OF _ refl, of _ _ _ fx_tier fx_opportunity fx_executability])
      (simp_all add: p c valid_constraints_def)
  then show ?thesis by (simp add: fx_tier_def)
qed

section \<open>The portfolio risk overlay and the unified allocator\<close>

text \<open>
  C10: whatever candidates are offered to the overlay in whatever order, the registered ones
  stay within every budget (alpha in all, alpha per strategy, directional in all, long, short),
  and the net direction in the snapshot is the long minus the short capital.
\<close>

theorem portfolio_budgets_kept:
  assumes "new_overlay attr capital = Inr ov" and "register_all cs (ov, []) = (ov', taken)"
  shows "spent is_alpha taken \<le> capital * ov_max_alpha_fraction ov + 1 / 10 ^ 9
    \<and> (\<forall>st. spent (\<lambda>c. is_alpha c \<and> rc_strategy c = st) taken
          \<le> capital * ov_max_alpha_strategy_fraction ov + 1 / 10 ^ 9)
    \<and> spent (\<lambda>c. rc_exposure_kind c \<noteq> Market_neutral) taken
          \<le> capital * ov_max_directional_fraction ov + 1 / 10 ^ 9
    \<and> spent (has_exposure Directional_long) taken \<le> capital * ov_max_same_direction_fraction ov + 1 / 10 ^ 9
    \<and> spent (has_exposure Directional_short) taken \<le> capital * ov_max_same_direction_fraction ov + 1 / 10 ^ 9
    \<and> (\<exists>b. risk_snapshot ov' = Inr b \<and> rb_directional_net_capital_usd b
          = spent (has_exposure Directional_long) taken - spent (has_exposure Directional_short) taken)"
proof -
  note new = new_overlay_ok [OF assms(1)]
  have k: "counters_ok ov' taken" "budgets_kept ov' taken" "same_limits ov' ov"
    using register_all_keeps [OF assms(2) new(1,2)] by blast+
  have "0 < ov_total ov'" using k(3) new(3,4) by (simp add: same_limits_def)
  from snapshot_ok [OF k(1) this] k(2,3) new(3) show ?thesis
    by (auto simp: budgets_kept_def same_limits_def)
qed

theorem portfolio_budgets_kept_witness:
  "\<exists>ov ov' taken. new_overlay (\<lambda>_. None) 1000 = Inr ov
     \<and> register_all [\<lparr>rc_candidate_id = ''a'', rc_family = ''alpha'', rc_strategy = ''m'',
          rc_capital_required_usd = 150, rc_exposure_kind = Directional_long\<rparr>,
        \<lparr>rc_candidate_id = ''b'', rc_family = ''alpha'', rc_strategy = ''n'',
          rc_capital_required_usd = 150, rc_exposure_kind = Directional_long\<rparr>] (ov, []) = (ov', taken)
     \<and> spent (has_exposure Directional_long) taken \<le> 250 + 1 / 10 ^ 9"
proof -
  let ?cs = "[\<lparr>rc_candidate_id = ''a'', rc_family = ''alpha'', rc_strategy = ''m'',
          rc_capital_required_usd = 150, rc_exposure_kind = Directional_long\<rparr>,
        \<lparr>rc_candidate_id = ''b'', rc_family = ''alpha'', rc_strategy = ''n'',
          rc_capital_required_usd = 150, rc_exposure_kind = Directional_long\<rparr>]"
  obtain ov where ov: "new_overlay (\<lambda>_. None) 1000 = Inr ov" "ov_max_same_direction_fraction ov = 1 / 4"
    using settings_overlay_eq [of 1000] by (auto simp: settings_overlay_def)
  obtain ov' taken where r: "register_all ?cs (ov, []) = (ov', taken)" by fastforce
  show ?thesis using portfolio_budgets_kept [OF ov(1) r] ov r by (auto simp del: register_all.simps)
qed

text \<open>
  C30: under valid constraints the unified allocator always delivers a plan, whatever the
  three families answer: no exception of a family, no registration and no model validation
  escapes.
\<close>

theorem unified_always_plans:
  assumes "0 < capital" and "two_venues u"
    and "0 < or_default v (se_allocator_max_venue_fraction st)" "or_default v (se_allocator_max_venue_fraction st) \<le> 1"
    and "0 < or_default a (se_allocator_max_asset_fraction st)" "or_default a (se_allocator_max_asset_fraction st) \<le> 1"
    and "0 < int_or_default n (se_allocator_max_allocations st)"
  shows "\<exists>plan. unified_allocate u st now capital v a n = Inr plan"
proof -
  obtain l where l: "unified_limits_of st capital v a n = Inr l"
    using assms by (simp add: unified_limits_of_def Let_def)
  obtain cs fs ov s where run: "settings_overlay capital = Inr ov" "unified_inv l ov (set cs) s"
      "\<forall>c \<in> set cs. candidate_ok c"
      "unified_allocate u st now capital v a n = unified_plan_of now l (length cs) fs s"
    by (rule unified_run [OF l assms(2)])
  have "ov_total ov = ul_total l"
    using new_overlay_ok(3) [OF run(1) [unfolded settings_overlay_def]] limits_of_fields(1) [OF l] by simp
  from plan_of_ok [OF run(2,3) _ this] limits_of_fields(1,2) [OF l] run(4) show ?thesis by simp
qed

text \<open>An upstream whose first service fails and whose second offers one composite.\<close>

definition fx_composite :: cex_dex_row where
  "fx_composite = \<lparr>xr_evidence_id = ''e1'', xr_composite_key = ''k1'', xr_asset = ''ETH'',
     xr_route_direction = ''buy'', xr_target_notional_usd = 1000, xr_cex_venue = ''Kraken'',
     xr_cex_symbol = ''ETH/USD'', xr_dex_venue = ''DEX:ethereum'',
     xr_conservative_capture_edge_bps = 20, xr_paper_capital_required_usd = 2000,
     xr_paper_allocation_eligible = True\<rparr>"

definition fx_upstream :: upstream where
  "fx_upstream = \<lparr>us_core = Inl (RuntimeError ''network''), us_cex_dex = (\<lambda>_. Inr [fx_composite]),
     us_alpha = Some (\<lambda>_ _. Inr [])\<rparr>"

lemma fx_two_venues: "two_venues fx_upstream"
  by (simp add: two_venues_def fx_upstream_def fx_composite_def)

theorem unified_always_plans_witness:
  "\<exists>plan. unified_allocate fx_upstream default_settings 0 10000 None None None = Inr plan"
  by (rule unified_always_plans [OF _ fx_two_venues])
    (simp_all add: or_default_def int_or_default_def default_settings_def)

text \<open>
  C2: a unified plan takes collected candidates only, within the total, the venue and asset
  caps and the allocation count, with pairwise disjoint conflict keys, and within every portfolio
  risk budget: 40% alpha, 20% for each alpha strategy, 35% directional, 25% long and 25% short.
  No composite of the upstream may trade a venue against itself.
\<close>

theorem unified_plan_within_limits:
  assumes "unified_allocate u st now capital v a n = Inr plan" and "two_venues u"
  shows "\<exists>l cs fs taken. unified_limits_of st capital v a n = Inr l
    \<and> candidates_with_failures u capital = Inr (cs, fs) \<and> set taken \<subseteq> set cs
    \<and> up_allocations plan = map allocation_of taken \<and> up_family_failures plan = fs
    \<and> up_allocated_capital_usd plan = (\<Sum>c\<leftarrow>taken. uc_capital_required_usd c)
    \<and> up_allocated_capital_usd plan \<le> capital + 1 / 10 ^ 9
    \<and> (\<forall>x. venue_sum x taken \<le> capital * ul_venue_fraction l + 1 / 10 ^ 9)
    \<and> (\<forall>x. asset_sum x taken \<le> capital * ul_asset_fraction l + 1 / 10 ^ 9)
    \<and> length taken \<le> ul_count l \<and> sorted_wrt conflict_free taken
    \<and> (\<Sum>c\<leftarrow>filter (\<lambda>c. uc_family c = Alpha) taken. uc_capital_required_usd c) \<le> capital * (2 / 5) + 1 / 10 ^ 9
    \<and> (\<Sum>c\<leftarrow>filter (\<lambda>c. uc_exposure_kind c \<noteq> Market_neutral) taken. uc_capital_required_usd c)
         \<le> capital * (7 / 20) + 1 / 10 ^ 9
    \<and> (\<forall>name. (\<Sum>c\<leftarrow>filter (\<lambda>c. uc_family c = Alpha \<and> uc_strategy c = name) taken. uc_capital_required_usd c)
         \<le> capital * (1 / 5) + 1 / 10 ^ 9)
    \<and> (\<Sum>c\<leftarrow>filter (\<lambda>c. uc_exposure_kind c = Directional_long) taken. uc_capital_required_usd c)
         \<le> capital * (1 / 4) + 1 / 10 ^ 9
    \<and> (\<Sum>c\<leftarrow>filter (\<lambda>c. uc_exposure_kind c = Directional_short) taken. uc_capital_required_usd c)
         \<le> capital * (1 / 4) + 1 / 10 ^ 9
    \<and> \<not> up_authorizes_execution plan \<and> \<not> up_live_execution_eligible plan \<and> up_paper_only plan"
proof -
  obtain l where l: "unified_limits_of st capital v a n = Inr l"
    using assms(1) by (auto simp: unified_allocate_def)
  obtain cs fs ov s where run: "candidates_with_failures u capital = Inr (cs, fs)"
      "settings_overlay capital = Inr ov" "unified_inv l ov (set cs) s" "\<forall>c \<in> set cs. candidate_ok c"
      "unified_allocate u st now capital v a n = unified_plan_of now l (length cs) fs s"
    by (rule unified_run [OF l assms(2)])
  obtain taken where t: "set taken \<subseteq> set cs" "counts s taken" "within_limits l taken"
      "overlay_ok ov (un_overlay s) taken"
    using run(3) by (auto simp: unified_inv_def)
  have plan: "up_allocations plan = un_allocations s" "up_family_failures plan = fs"
      "up_allocated_capital_usd plan = un_allocated s" "\<not> up_authorizes_execution plan"
      "\<not> up_live_execution_eligible plan" "up_paper_only plan"
    using assms(1) run(5) by (auto simp: unified_plan_of_def Let_def split: if_splits)
  have cap: "ul_total l = capital" "0 < capital" using limits_of_fields [OF l] by simp_all
  have lim: "ov_total (un_overlay s) = capital" "ov_max_alpha_fraction (un_overlay s) = 2 / 5"
      "ov_max_directional_fraction (un_overlay s) = 7 / 20"
      "ov_max_same_direction_fraction (un_overlay s) = 1 / 4" "ov_max_alpha_strategy_fraction (un_overlay s) = 1 / 5"
    using t(4) run(2) settings_overlay_eq [OF cap(2)] by (auto simp: overlay_ok_def same_limits_def)
  have sp: "spent P (map risk_view taken)
      = (\<Sum>c\<leftarrow>filter (\<lambda>c. P (risk_view c)) taken. uc_capital_required_usd c)" for P
    by (simp add: spent_def filter_map comp_def risk_view_def)
  have fam: "is_alpha (risk_view c) = (uc_family c = Alpha)" for c
    by (cases "uc_family c") (simp_all add: risk_view_def)
  have exp: "rc_exposure_kind (risk_view c) = uc_exposure_kind c" "rc_strategy (risk_view c) = uc_strategy c" for c
    by (simp_all add: risk_view_def)
  have b: "(\<Sum>c\<leftarrow>filter (\<lambda>c. uc_family c = Alpha) taken. uc_capital_required_usd c) \<le> capital * (2 / 5) + 1 / 10 ^ 9"
      "(\<Sum>c\<leftarrow>filter (\<lambda>c. uc_exposure_kind c \<noteq> Market_neutral) taken. uc_capital_required_usd c)
         \<le> capital * (7 / 20) + 1 / 10 ^ 9"
      "\<forall>name. (\<Sum>c\<leftarrow>filter (\<lambda>c. uc_family c = Alpha \<and> uc_strategy c = name) taken. uc_capital_required_usd c)
         \<le> capital * (1 / 5) + 1 / 10 ^ 9"
      "(\<Sum>c\<leftarrow>filter (\<lambda>c. uc_exposure_kind c = Directional_long) taken. uc_capital_required_usd c)
         \<le> capital * (1 / 4) + 1 / 10 ^ 9"
      "(\<Sum>c\<leftarrow>filter (\<lambda>c. uc_exposure_kind c = Directional_short) taken. uc_capital_required_usd c)
         \<le> capital * (1 / 4) + 1 / 10 ^ 9"
    using t(4) unfolding overlay_ok_def budgets_kept_def lim sp fam exp by blast+
  have w: "(\<Sum>c\<leftarrow>taken. uc_capital_required_usd c) \<le> capital + 1 / 10 ^ 9"
      "\<forall>x. venue_sum x taken \<le> capital * ul_venue_fraction l + 1 / 10 ^ 9"
      "\<forall>x. asset_sum x taken \<le> capital * ul_asset_fraction l + 1 / 10 ^ 9"
      "length taken \<le> ul_count l" "sorted_wrt conflict_free taken"
    using t(3) unfolding within_limits_def cap(1) by blast+
  have c: "up_allocations plan = map allocation_of taken"
      "up_allocated_capital_usd plan = (\<Sum>c\<leftarrow>taken. uc_capital_required_usd c)"
    using t(2) plan by (simp_all add: counts_def)
  show ?thesis
    unfolding c(2)
    by (rule exI [of _ l], rule exI [of _ cs], rule exI [of _ fs], rule exI [of _ taken], intro conjI)
      (fact l run(1) t(1) c(1) plan b w refl)+
qed

theorem unified_plan_within_limits_witness:
  "\<exists>plan. unified_allocate fx_upstream default_settings 0 10000 None None None = Inr plan
     \<and> up_allocated_capital_usd plan \<le> 10000 + 1 / 10 ^ 9"
proof -
  have "unified_limits_of default_settings 10000 None None None = Inr \<lparr>ul_total = 10000,
      ul_venue_fraction = 1 / 2, ul_asset_fraction = 1 / 2, ul_count = 10\<rparr>" (is "_ = Inr ?l")
    by (simp add: unified_limits_of_def or_default_def int_or_default_def default_settings_def Let_def)
  then obtain cs fs ov s where run: "settings_overlay 10000 = Inr ov" "unified_inv ?l ov (set cs) s"
      "\<forall>c \<in> set cs. candidate_ok c"
      "unified_allocate fx_upstream default_settings 0 10000 None None None = unified_plan_of 0 ?l (length cs) fs s"
    by (rule unified_run [OF _ fx_two_venues])
  have "ov_total ov = ul_total ?l" using new_overlay_ok(3) [OF run(1) [unfolded settings_overlay_def]] by simp
  then have "\<exists>plan. unified_plan_of 0 ?l (length cs) fs s = Inr plan"
    by (intro plan_of_ok [OF run(2,3)]) simp_all
  then obtain plan where plan: "unified_allocate fx_upstream default_settings 0 10000 None None None = Inr plan"
    using run(4) by auto
  from unified_plan_within_limits [OF plan fx_two_venues] plan show ?thesis by blast
qed

text \<open>
  Families fail closed and alone.  Without a core snapshot neither core nor alpha
  candidates appear, and without an answer of the composite service no composite; each failure
  is reported, and every candidate of a family that answered is still there.
\<close>

theorem families_fail_closed:
  assumes "candidates_with_failures u capital = Inr (cs, fs)"
  shows "(\<forall>e. core_family u = Inl e \<longrightarrow> ''core_cex'' \<in> fst ` set fs \<and> (\<forall>c \<in> set cs. uc_family c = Cex_dex))
    \<and> (\<forall>e. cex_dex_family u capital = Inl e \<longrightarrow> ''cex_dex'' \<in> fst ` set fs
          \<and> (\<forall>c \<in> set cs. uc_family c \<noteq> Cex_dex))
    \<and> (\<forall>sn rows. core_family u = Inr (sn, rows) \<longrightarrow> set rows \<subseteq> set cs)
    \<and> (\<forall>rows. cex_dex_family u capital = Inr rows \<longrightarrow> set rows \<subseteq> set cs)
    \<and> sorted_wrt (\<lambda>a b. unified_key b \<le> unified_key a) cs"
proof -
  have core: "uc_family c = Core_cex" if "core_family u = Inr (sn, rows)" "c \<in> set rows" for sn rows c
    using that core_candidates_ok by (auto simp: core_family_def)
  have dex: "uc_family c = Cex_dex" if "cex_dex_family u capital = Inr rows" "c \<in> set rows" for rows c
    using that cex_dex_candidates_ok by (auto simp: cex_dex_family_def)
  have alpha: "uc_family c = Alpha" if "c \<in> set (fst (alpha_family u capital sn))" for sn c
    using that alpha_candidates_ok by (auto simp: alpha_family_def split: option.splits sum.splits)
  have none: "fst (alpha_family u capital None) = []" by (simp add: alpha_family_def split: option.split)
  have srt: "sorted_wrt (\<lambda>a b. unified_key b \<le> unified_key a) cs"
    using assms unfolding candidates_with_failures_def Let_def
    by (auto simp: sort_desc_sorted split: if_splits prod.splits)
  show ?thesis
  proof (cases "core_family u")
    case (Inl e)
    obtain r3 f3 where a: "alpha_family u capital None = (r3, f3)" by fastforce
    show ?thesis
      using assms Inl a none srt dex
      by (cases "cex_dex_family u capital") (auto simp: candidates_with_failures_def Let_def split: if_splits)
  next
    case (Inr p)
    obtain sn rows where p: "p = (sn, rows)" by fastforce
    obtain r3 f3 where a: "alpha_family u capital (Some sn) = (r3, f3)" by fastforce
    then have "\<forall>c \<in> set r3. uc_family c = Alpha" using alpha [of _ "Some sn"] by simp
    then show ?thesis
      using assms Inr p a srt dex core
      by (cases "cex_dex_family u capital") (auto simp: candidates_with_failures_def Let_def split: if_splits)
  qed
qed

theorem families_fail_closed_witness:
  "\<exists>cs fs. candidates_with_failures fx_upstream 10000 = Inr (cs, fs)
     \<and> ''core_cex'' \<in> fst ` set fs \<and> cs \<noteq> [] \<and> uc_family (hd cs) = Cex_dex"
proof -
  have dex: "\<exists>rows. cex_dex_family fx_upstream 10000 = Inr rows \<and> rows \<noteq> []"
    by (simp add: cex_dex_family_def fx_upstream_def fx_composite_def cex_dex_candidates_def
        cex_dex_candidate_def checked_candidate_def candidate_ok_def opt_pos_def opt_nonneg_def Let_def
        py_div_nonzero del: rbind_eq_Inr py_div_Inr)
  have core: "core_family fx_upstream = Inl (RuntimeError ''network'')"
    by (simp add: core_family_def fx_upstream_def)
  obtain cs fs where c: "candidates_with_failures fx_upstream 10000 = Inr (cs, fs)"
    using collects [of 10000 fx_upstream] by auto
  have "cs \<noteq> []" "\<forall>c \<in> set cs. uc_family c = Cex_dex" "''core_cex'' \<in> fst ` set fs"
    using families_fail_closed [OF c] core dex by fastforce+
  then show ?thesis using c by (intro exI conjI) auto
qed

end
