(* ===== verification/Quantiles.thy ===== *)
theory Quantiles
  imports Models
begin

text \<open>
  The statistics of latency.py: interpolated quantiles, the inverse normal distribution of
  Python's statistics module (Wichura's rational approximation AS241, as the standard
  library writes it), and the Wilson interval, whose bounds always bracket the frequency.
\<close>

section \<open>Interpolated quantiles\<close>

definition quantile :: "real list \<Rightarrow> real \<Rightarrow> real option" where
  "quantile xs q0 =
     (if xs = [] then None
      else let ordered = sort xs in
        if length ordered = 1 then Some (ordered ! 0)
        else let q = min 1 (max 0 q0);
                 position = real (length ordered - 1) * q;
                 lower = nat \<lfloor>position\<rfloor>;
                 upper = min (lower + 1) (length ordered - 1);
                 fraction = position - real lower
             in Some (ordered ! lower + (ordered ! upper - ordered ! lower) * fraction))"

lemma quantile_Some: "quantile xs q = Some v \<Longrightarrow> xs \<noteq> []"
  by (auto simp: quantile_def)

lemma quantile_None [simp]: "quantile xs q = None \<longleftrightarrow> xs = []"
  by (simp add: quantile_def Let_def)

text \<open>A quantile lies between the least and the greatest sample.\<close>

lemma quantile_between:
  assumes "quantile xs q = Some v"
  shows "Min (set xs) \<le> v \<and> v \<le> Max (set xs)"
proof -
  have ne: "xs \<noteq> []" using assms by (rule quantile_Some)
  have el: "Min (set xs) \<le> sort xs ! i \<and> sort xs ! i \<le> Max (set xs)" if "i < length xs" for i
  proof -
    have "sort xs ! i \<in> set (sort xs)" using that by (intro nth_mem) simp
    then show ?thesis by simp
  qed
  show ?thesis
  proof (cases "length xs = 1")
    case True
    then have "v = sort xs ! 0" using assms ne by (simp add: quantile_def)
    then show ?thesis using el [of 0] True by simp
  next
    case False
    define p where "p = real (length xs - 1) * min 1 (max 0 q)"
    define i where "i = nat \<lfloor>p\<rfloor>"
    define j where "j = min (i + 1) (length xs - 1)"
    define f where "f = p - real i"
    have v: "v = sort xs ! i + (sort xs ! j - sort xs ! i) * f"
      using assms ne False by (simp add: quantile_def Let_def p_def i_def j_def f_def)
    have "0 \<le> p" by (simp add: p_def)
    have "p \<le> real (length xs - 1) * 1" unfolding p_def by (intro mult_left_mono) simp_all
    have f: "0 \<le> f" "f \<le> 1"
      using \<open>0 \<le> p\<close> by (simp_all add: f_def i_def, linarith)
    have "real i \<le> p" using \<open>0 \<le> p\<close> by (simp add: i_def)
    with \<open>p \<le> _\<close> have "i \<le> length xs - 1" by simp
    moreover have "0 < length xs" using ne by simp
    ultimately have ij: "i < length xs" "j < length xs" unfolding j_def by linarith+
    let ?a = "sort xs ! i" and ?b = "sort xs ! j"
    have conv: "v = (1 - f) * ?a + f * ?b" by (simp add: v algebra_simps)
    have lo: "Min (set xs) \<le> (1 - f) * ?a + f * ?b"
    proof -
      have "(1 - f) * Min (set xs) + f * Min (set xs) \<le> (1 - f) * ?a + f * ?b"
        using el ij f by (intro add_mono mult_left_mono) auto
      then show ?thesis by (simp add: algebra_simps)
    qed
    have hi: "(1 - f) * ?a + f * ?b \<le> Max (set xs)"
    proof -
      have "(1 - f) * ?a + f * ?b \<le> (1 - f) * Max (set xs) + f * Max (set xs)"
        using el ij f by (intro add_mono mult_left_mono) auto
      then show ?thesis by (simp add: algebra_simps)
    qed
    show ?thesis using lo hi conv by simp
  qed
qed

section \<open>The inverse normal distribution\<close>

text \<open>A polynomial in Horner form, highest coefficient first.\<close>

definition horner :: "real list \<Rightarrow> real \<Rightarrow> real" where
  "horner cs r = foldl (\<lambda>acc c. acc * r + c) 0 cs"

lemma horner_step_nonneg:
  "0 \<le> acc \<Longrightarrow> 0 \<le> r \<Longrightarrow> list_all (\<lambda>c. 0 \<le> c) cs \<Longrightarrow> 0 \<le> foldl (\<lambda>acc c. acc * r + c) acc cs" for acc r :: real
  by (induction cs arbitrary: acc) auto

lemma horner_pos:
  assumes "0 \<le> r" and "list_all (\<lambda>c. 0 \<le> c) cs" and "0 < c"
  shows "0 < horner (cs @ [c]) r"
proof -
  have "0 \<le> foldl (\<lambda>acc c. acc * r + c) 0 cs" by (rule horner_step_nonneg) (use assms in simp_all)
  then show ?thesis using assms(1,3) by (simp add: horner_def add_nonneg_pos)
qed

definition central_num :: "real list" where
  "central_num = [2509.0809287301226727, 33430.575583588128105, 67265.770927008700853,
     45921.953931549871457, 13731.693765509461125, 1971.5909503065514427,
     133.14166789178437745, 3.3871328727963666080]"

definition central_den :: "real list" where
  "central_den = [5226.4952788528545610, 28729.085735721942674, 39307.895800092710610,
     21213.794301586595867, 5394.1960214247511077, 687.18700749205790830,
     42.313330701600911252, 1]"

definition near_num :: "real list" where
  "near_num = [0.000774545014278341407640, 0.0227238449892691845833, 0.241780725177450611770,
     1.27045825245236838258, 3.64784832476320460504, 5.76949722146069140550,
     4.63033784615654529590, 1.42343711074968357734]"

definition near_den :: "real list" where
  "near_den = [0.00000000105075007164441684324, 0.000547593808495344946 , 0.0151986665636164571966,
     0.148103976427480074590, 0.689767334985100004550, 1.67638483018380384940,
     2.05319162663775882187, 1]"

definition far_num :: "real list" where
  "far_num = [0.000000201033439929228813265, 0.0000271155556874348757815, 0.00124266094738807843860,
     0.0265321895265761230930, 0.296560571828504891230, 1.78482653991729133580,
     5.46378491116411436990, 6.65790464350110377720]"

definition far_den :: "real list" where
  "far_den = [0.00000000000000204426310338993978564, 0.000000142151175831644588870, 0.0000184631831751005468180,
     0.000786869131145613259100, 0.0148753612908506148525, 0.136929880922735805310,
     0.599832206555887937690, 1]"

definition inv_cdf :: "real \<Rightarrow> real" where
  "inv_cdf p =
     (let q = p - 1 / 2 in
      if \<bar>q\<bar> \<le> 0.425
      then let r = 0.180625 - q * q in horner central_num r * q / horner central_den r
      else let r = sqrt (- ln (if q \<le> 0 then p else 1 - p));
               x = (if r \<le> 5 then horner near_num (r - 1.6) / horner near_den (r - 1.6)
                    else horner far_num (r - 5) / horner far_den (r - 5))
           in if q < 0 then - x else x)"

lemma coefficients_nonneg:
  "list_all (\<lambda>c. 0 \<le> c) (butlast central_num)" "list_all (\<lambda>c. 0 \<le> c) (butlast central_den)"
  "list_all (\<lambda>c. 0 \<le> c) (butlast near_num)" "list_all (\<lambda>c. 0 \<le> c) (butlast near_den)"
  "list_all (\<lambda>c. 0 \<le> c) (butlast far_num)" "list_all (\<lambda>c. 0 \<le> c) (butlast far_den)"
  "0 < last central_num" "0 < last central_den" "0 < last near_num" "0 < last near_den"
  "0 < last far_num" "0 < last far_den"
  by (simp_all add: central_num_def central_den_def near_num_def near_den_def far_num_def far_den_def)

lemma coefficients_ne:
  "central_num \<noteq> []" "central_den \<noteq> []" "near_num \<noteq> []" "near_den \<noteq> []" "far_num \<noteq> []" "far_den \<noteq> []"
  by (simp_all add: central_num_def central_den_def near_num_def near_den_def far_num_def far_den_def)

lemma horner_positive:
  assumes "0 \<le> r" and "cs \<noteq> []" and "list_all (\<lambda>c. 0 \<le> c) (butlast cs)" and "0 < last cs"
  shows "0 < horner cs r"
  using horner_pos [OF assms(1,3,4)] assms(2) by simp

text \<open>The tail starts where \<open>sqrt (- ln r)\<close> is past 1.6.\<close>

lemma tail_root: "0 < r \<Longrightarrow> r < 0.075 \<Longrightarrow> 1.6 \<le> sqrt (- ln r)"
proof -
  assume r: "0 < r" "r < 0.075"
  have "exp (2.56 :: real) = exp (0.02 * 128)" by simp
  also have "\<dots> = exp (0.02 :: real) ^ 128" by (simp add: exp_of_nat_mult [symmetric] mult.commute)
  also have "exp (0.02 :: real) \<le> 1 + 0.02 + 0.02\<^sup>2" by (rule exp_bound) simp_all
  then have "exp (0.02 :: real) ^ 128 \<le> (1.0204 :: real) ^ 128"
    by (intro power_mono) (simp_all add: power2_eq_square)
  also have "(1.0204 :: real) ^ 128 \<le> 13.3" by (simp add: power_divide divide_le_eq)
  finally have "exp (2.56 :: real) \<le> 13.3" .
  also have "13.3 \<le> 1 / r" using r by (simp add: pos_le_divide_eq)
  finally have "exp 2.56 \<le> inverse r" by (simp add: inverse_eq_divide)
  then have "2.56 \<le> ln (inverse r)" using r(1) by (simp only: ln_ge_iff positive_imp_inverse_positive)
  then have "2.56 \<le> - ln r" using r(1) by (simp add: ln_inverse)
  then have "sqrt 2.56 \<le> sqrt (- ln r)" by (rule real_sqrt_le_mono)
  also have "sqrt (2.56 :: real) = 1.6" by (rule real_sqrt_unique) (simp_all add: power2_eq_square)
  finally show ?thesis .
qed

lemma inv_cdf_pos:
  assumes "1 / 2 < p" and "p < 1"
  shows "0 < inv_cdf p"
proof (cases "\<bar>p - 1 / 2\<bar> \<le> 0.425")
  case True
  then have "(p - 1 / 2) * (p - 1 / 2) \<le> 0.425 * 0.425" using assms by (intro mult_mono) simp_all
  then have "0 \<le> 0.180625 - (p - 1 / 2) * (p - 1 / 2)" by simp
  then show ?thesis
    using True assms horner_positive coefficients_nonneg coefficients_ne
    by (simp add: inv_cdf_def Let_def)
next
  case False
  then have "0 < 1 - p" "1 - p < 0.075" using assms by auto
  from tail_root [OF this] have "0 \<le> sqrt (- ln (1 - p)) - 1.6" by simp
  then show ?thesis
    using False assms horner_positive coefficients_nonneg coefficients_ne
    by (simp add: inv_cdf_def Let_def)
qed

section \<open>The Wilson interval\<close>

definition wilson :: "nat \<Rightarrow> nat \<Rightarrow> real \<Rightarrow> real option \<times> real option" where
  "wilson successes n confidence0 =
     (if n = 0 then (None, None)
      else let confidence = min 0.999999 (max 0.500001 confidence0);
               z = inv_cdf ((1 + confidence) / 2);
               phat = real successes / real n;
               z2 = z * z;
               denominator = 1 + z2 / real n;
               center = (phat + z2 / (2 * real n)) / denominator;
               margin = z * sqrt (phat * (1 - phat) / real n + z2 / (4 * real n * real n)) / denominator
           in (Some (max 0 (center - margin)), Some (min 1 (center + margin))))"

lemma wilson_core:
  fixes p z n :: real
  assumes "0 \<le> p" "p \<le> 1" "0 < n" "0 \<le> z"
  defines "d \<equiv> 1 + z * z / n"
  defines "m \<equiv> z * sqrt (p * (1 - p) / n + z * z / (4 * n * n)) / d"
  defines "c \<equiv> (p + z * z / (2 * n)) / d"
  shows "c - m \<le> p" and "p \<le> c + m"
proof -
  have d: "0 < d" using assms(3,4) by (simp add: d_def add_pos_nonneg)
  let ?s = "sqrt (p * (1 - p) / n + z * z / (4 * n * n))"
  have "(z / (2 * n))\<^sup>2 \<le> p * (1 - p) / n + z * z / (4 * n * n)"
    using assms(1-3) by (simp add: power2_eq_square mult.assoc)
  then have "sqrt ((z / (2 * n))\<^sup>2) \<le> ?s" by (rule real_sqrt_le_mono)
  then have s: "z / (2 * n) \<le> ?s" using assms(3,4) by simp
  then have zs: "z * (z / (2 * n)) \<le> z * ?s" using assms(4) by (rule mult_left_mono)
  define K where "K = z * z / (2 * n)"
  define S where "S = z * ?s"
  have k: "0 \<le> K" using assms(3,4) by (simp add: K_def)
  have ks: "K \<le> S" using zs by (simp add: K_def S_def)
  have half: "z * z / n = 2 * K" by (simp add: K_def)
  have pd: "p * d = p + p * (2 * K)" by (simp add: d_def half distrib_left)
  have "p * (2 * K) \<le> 1 * (2 * K)" using assms(2) k by (intro mult_right_mono) simp_all
  then have up: "p * d \<le> p + K + S" using ks pd by linarith
  have "0 \<le> p * (2 * K)" using assms(1) k by (intro mult_nonneg_nonneg) simp_all
  then have lo: "p + K - S \<le> p * d" using ks pd by linarith
  have "c - m = (p + K - S) / d" unfolding c_def m_def K_def S_def by (rule diff_divide_distrib [symmetric])
  then show "c - m \<le> p" using d lo by (simp add: pos_divide_le_eq)
  have "c + m = (p + K + S) / d" unfolding c_def m_def K_def S_def by (rule add_divide_distrib [symmetric])
  then show "p \<le> c + m" using d up by (simp add: pos_le_divide_eq)
qed

lemma wilson_brackets:
  assumes "wilson k n conf = (Some lo, Some hi)" and "k \<le> n"
  shows "0 \<le> lo" and "lo \<le> real k / real n" and "real k / real n \<le> hi" and "hi \<le> 1"
proof -
  have n: "0 < n" using assms(1) by (simp add: wilson_def split: if_splits)
  define z where "z = inv_cdf ((1 + min 0.999999 (max 0.500001 conf)) / 2)"
  have z: "0 \<le> z" unfolding z_def by (intro less_imp_le inv_cdf_pos) (simp_all add: min_def max_def)
  let ?p = "real k / real n"
  have p: "0 \<le> ?p" "?p \<le> 1" using assms(2) n by simp_all
  let ?c = "(?p + z * z / (2 * real n)) / (1 + z * z / real n)"
  let ?m = "z * sqrt (?p * (1 - ?p) / real n + z * z / (4 * real n * real n)) / (1 + z * z / real n)"
  have "wilson k n conf = (Some (max 0 (?c - ?m)), Some (min 1 (?c + ?m)))"
    unfolding wilson_def Let_def z_def [symmetric] by (rule if_not_P) (use n in simp)
  then have eq: "lo = max 0 (?c - ?m)" "hi = min 1 (?c + ?m)"
    using assms(1) by (simp_all only: prod.inject option.inject)
  have core: "?c - ?m \<le> ?p" "?p \<le> ?c + ?m"
    by (rule wilson_core [OF p _ z, of "real n"], use n in simp)+
  show "0 \<le> lo" and "hi \<le> 1" unfolding eq by simp_all
  show "lo \<le> ?p" unfolding eq by (rule max.boundedI [OF p(1) core(1)])
  show "?p \<le> hi" unfolding eq by (rule min.boundedI [OF p(2) core(2)])
qed

lemma wilson_exists: "0 < n \<Longrightarrow> \<exists>lo hi. wilson k n conf = (Some lo, Some hi)"
  by (simp add: wilson_def Let_def)

end
