(* ===== verification/Shadow.thy ===== *)
theory Shadow
  imports Execution
begin

text \<open>
  fill_model.py and the observation half of shadow.py: what the public books say, before and
  after the shadow delay, about the fill of a detected pair, and the attribution of a failed
  observation to a cause.
\<close>

section \<open>Signatures and buckets\<close>

definition opportunity_signature :: "opportunity \<Rightarrow> string" where
  "opportunity_signature opp = strategy_value (op_strategy opp) @ '':'' @ op_asset opp @ '':''
     @ join ''|'' (map (\<lambda>l. lg_venue l @ '':'' @ lg_asset l @ '':''
         @ market_kind_value (lg_market_kind l) @ '':'' @ side_value (lg_side l)) (op_legs opp))"

definition venue_pair :: "opportunity \<Rightarrow> string" where
  "venue_pair opp = join ''|'' (map lg_venue (op_legs opp))"

text \<open>The hour of a UTC datetime, two digits.\<close>

definition time_of_day_bucket :: "time \<Rightarrow> string" where
  "time_of_day_bucket t = pad_zeros 2 (digits (t div 3600000000 mod 24)) @ '':00Z''"

definition expected_return_bucket :: "real \<Rightarrow> string" where
  "expected_return_bucket v =
     (if v < 1 / 10 then ''<10%'' else if v < 1 / 5 then ''10-20%''
      else if v < 1 / 2 then ''20-50%'' else if v < 1 then ''50-100%'' else ''>=100%'')"

section \<open>Book metrics\<close>

record book_metrics =
  bm_best_price :: real
  bm_spread_bps :: "real option"
  bm_available_depth_usd :: real
  bm_available_base_quantity :: real
  bm_depth_multiple :: "real option"
  bm_slippage_bps :: "real option"

text \<open>\<open>levels[0]\<close>; the sides are not empty there, their extreme prices were taken before.\<close>

definition first_price :: "order_book_level list \<Rightarrow> real result" where
  "first_price ls = (case ls of [] \<Rightarrow> Inl (ValueError ''list index out of range'') | l # _ \<Rightarrow> Inr (lv_price l))"

text \<open>\<open>max\<close> and \<open>min\<close> of a side's prices raise on an empty side.\<close>

definition extreme_price :: "(real set \<Rightarrow> real) \<Rightarrow> order_book_level list \<Rightarrow> real result" where
  "extreme_price pick ls =
     (if ls = [] then Inl (ValueError ''arg is an empty sequence'') else Inr (pick (lv_price ` set ls)))"

definition metrics_slippage :: "side \<Rightarrow> real \<Rightarrow> real \<Rightarrow> real \<Rightarrow> real option result" where
  "metrics_slippage sd filled notional best =
     (if filled \<le> 0 then Inr None
      else rbind (py_div (notional / filled) best) (\<lambda>ratio.
        Inr (Some (max 0 ((if sd = LONG then ratio - 1 else 1 - ratio) * 10000)))))"

definition book_metrics_of :: "order_book_snapshot \<Rightarrow> side \<Rightarrow> real option \<Rightarrow> book_metrics result" where
  "book_metrics_of b sd target =
     rbind (extreme_price Max (ob_bids b)) (\<lambda>best_bid.
     rbind (extreme_price Min (ob_asks b)) (\<lambda>best_ask.
     let mid = (best_bid + best_ask) / 2;
         spread = (if mid > 0 then Some ((best_ask - best_bid) / mid * 10000) else None);
         levels = price_ordered (if sd = SHORT then SELL else BUY) (if sd = LONG then ob_asks b else ob_bids b)
     in rbind (first_price levels) (\<lambda>best.
        let quantity = (\<Sum>l\<leftarrow>levels. lv_size l);
            depth = (\<Sum>l\<leftarrow>levels. lv_price l * lv_size l);
            multiple = (case target of None \<Rightarrow> None | Some q \<Rightarrow> if q > 0 then Some (quantity / q) else None);
            blank = \<lparr>bm_best_price = best, bm_spread_bps = spread, bm_available_depth_usd = depth,
                     bm_available_base_quantity = quantity, bm_depth_multiple = multiple,
                     bm_slippage_bps = None\<rparr>
        in case target of None \<Rightarrow> Inr blank
           | Some q \<Rightarrow> if q \<le> 0 then Inr blank
               else (case quantity_loop levels q 0 0 0 of (_, filled, notional, _) \<Rightarrow>
                 rbind (metrics_slippage sd filled notional best) (\<lambda>slip.
                   Inr (blank\<lparr>bm_slippage_bps := slip\<rparr>))))))"

section \<open>Leg attribution\<close>

definition sbook_key :: "order_book_snapshot \<Rightarrow> string \<times> string \<times> string" where
  "sbook_key b = (ob_venue b, ob_asset b, market_kind_value (ob_market_kind b))"

definition leg_metrics ::
  "order_book_snapshot list \<Rightarrow> opportunity_leg \<Rightarrow> real option \<Rightarrow> book_metrics option result" where
  "leg_metrics books leg target =
     (case dict_by sbook_key books (lg_venue leg, lg_asset leg, market_kind_value (lg_market_kind leg)) of
        None \<Rightarrow> Inr None
      | Some b \<Rightarrow> rbind (book_metrics_of b (lg_side leg) target) (\<lambda>m. Inr (Some m)))"

definition adverse_move :: "side \<Rightarrow> real \<Rightarrow> real \<Rightarrow> real result" where
  "adverse_move sd initial verification =
     (if sd = LONG then rbind (py_div verification initial) (\<lambda>r. Inr ((r - 1) * 10000))
      else rbind (py_div initial verification) (\<lambda>r. Inr ((r - 1) * 10000)))"

definition leg_adverse ::
  "opportunity_leg \<Rightarrow> book_metrics option \<Rightarrow> book_metrics option \<Rightarrow> real option result" where
  "leg_adverse leg mi mv =
     (case (mi, mv) of
        (Some i, Some v) \<Rightarrow> rbind (adverse_move (lg_side leg) (bm_best_price i) (bm_best_price v)) (\<lambda>a. Inr (Some a))
      | _ \<Rightarrow> Inr None)"

definition leg_row ::
  "opportunity_leg \<Rightarrow> book_metrics option \<Rightarrow> book_metrics option \<Rightarrow> real option \<Rightarrow> shadow_leg_attribution" where
  "leg_row leg mi mv adverse = \<lparr>
     la_venue = lg_venue leg, la_asset = lg_asset leg, la_market_kind = lg_market_kind leg,
     la_side = lg_side leg, la_symbol = None, la_contract_key = None,
     la_initial_best_price = map_option bm_best_price mi,
     la_verification_best_price = map_option bm_best_price mv,
     la_adverse_selection_bps = adverse,
     la_initial_spread_bps = Option.bind mi bm_spread_bps,
     la_verification_spread_bps = Option.bind mv bm_spread_bps,
     la_initial_available_depth_usd = map_option bm_available_depth_usd mi,
     la_verification_available_depth_usd = map_option bm_available_depth_usd mv,
     la_initial_available_base_quantity = map_option bm_available_base_quantity mi,
     la_verification_available_base_quantity = map_option bm_available_base_quantity mv,
     la_initial_depth_multiple = Option.bind mi bm_depth_multiple,
     la_verification_depth_multiple = Option.bind mv bm_depth_multiple,
     la_initial_slippage_bps = Option.bind mi bm_slippage_bps,
     la_verification_slippage_bps = Option.bind mv bm_slippage_bps\<rparr>"

definition attribute_leg ::
  "order_book_snapshot list \<Rightarrow> order_book_snapshot list \<Rightarrow> real option \<Rightarrow> opportunity_leg
     \<Rightarrow> shadow_leg_attribution result" where
  "attribute_leg initial verification target leg =
     rbind (leg_metrics initial leg target) (\<lambda>mi.
     rbind (leg_metrics verification leg target) (\<lambda>mv.
     rbind (leg_adverse leg mi mv) (\<lambda>a. Inr (leg_row leg mi mv a))))"

definition spread_of :: "real list \<Rightarrow> real option" where
  "spread_of xs = (if 2 \<le> length xs then Some (Max (set xs) - Min (set xs)) else None)"

definition build_leg_attribution ::
  "opportunity \<Rightarrow> order_book_snapshot list \<Rightarrow> order_book_snapshot list \<Rightarrow> real option
     \<Rightarrow> (shadow_leg_attribution list \<times> real option) result" where
  "build_leg_attribution opp initial verification target =
     rbind (rmap (attribute_leg initial verification target) (op_legs opp)) (\<lambda>rows.
       Inr (rows, spread_of (some_values (map la_adverse_selection_bps rows))))"

section \<open>Fill reconstruction\<close>

definition at_least :: "real \<Rightarrow> real option \<Rightarrow> bool" where
  "at_least bound x = (case x of None \<Rightarrow> False | Some v \<Rightarrow> v \<ge> bound)"

definition reconstruct_pair_fill_state ::
  "shadow_leg_attribution list \<Rightarrow> real \<Rightarrow> bool \<times> bool \<times> bool" where
  "reconstruct_pair_fill_state legs reserve =
     (let multiples = map la_verification_depth_multiple legs in
      if multiples = [] \<or> None \<in> set multiples then (False, False, False)
      else let full = map (at_least 1) multiples; res = map (at_least (max 1 reserve)) multiples
           in (list_all id full, list_all id res, list_ex id full \<and> \<not> list_all id full))"

record partial_fill =
  fs_pair_fillable :: bool
  fs_pair_fillable_with_reserve :: bool
  fs_hedge_recovery_required :: bool
  fs_pair_fill_fraction :: real
  fs_max_leg_fill_fraction :: real
  fs_unhedged_fraction :: real
  fs_partial_fill_state :: bool
  fs_recovery_loss_proxy_bps :: real

definition fill_fraction :: "shadow_leg_attribution \<Rightarrow> real" where
  "fill_fraction leg =
     (case la_verification_depth_multiple leg of None \<Rightarrow> 0 | Some m \<Rightarrow> min 1 (max 0 m))"

definition float_zero :: "real option \<Rightarrow> real" where
  "float_zero x = (case x of None \<Rightarrow> 0 | Some v \<Rightarrow> v)"

definition reconstruct_partial_fill_state :: "shadow_leg_attribution list \<Rightarrow> real \<Rightarrow> partial_fill" where
  "reconstruct_partial_fill_state legs reserve =
     (if legs = []
      then \<lparr>fs_pair_fillable = False, fs_pair_fillable_with_reserve = False,
            fs_hedge_recovery_required = False, fs_pair_fill_fraction = 0,
            fs_max_leg_fill_fraction = 0, fs_unhedged_fraction = 0,
            fs_partial_fill_state = True, fs_recovery_loss_proxy_bps = 0\<rparr>
      else let fractions = map fill_fraction legs;
               minimum = Min (set fractions); maximum = Max (set fractions);
               unhedged = max 0 (maximum - minimum);
               fillable = (minimum \<ge> 1 - 1 / 10 ^ 12);
               recovery = (unhedged > 1 / 10 ^ 12);
               adverse = (\<Sum>l\<leftarrow>legs. max 0 (float_zero (la_adverse_selection_bps l)));
               expansion = (\<Sum>l\<leftarrow>legs. max 0 (float_zero (la_verification_slippage_bps l)
                                               - float_zero (la_initial_slippage_bps l)))
           in \<lparr>fs_pair_fillable = fillable,
               fs_pair_fillable_with_reserve =
                 list_all (\<lambda>l. at_least (max 1 reserve) (la_verification_depth_multiple l)) legs,
               fs_hedge_recovery_required = recovery,
               fs_pair_fill_fraction = minimum, fs_max_leg_fill_fraction = maximum,
               fs_unhedged_fraction = unhedged,
               fs_partial_fill_state = (\<not> fillable \<or> recovery),
               fs_recovery_loss_proxy_bps = max 0 (unhedged * (adverse + expansion))\<rparr>)"

section \<open>The cause of a failure\<close>

definition reason_text :: "capital_tier option \<Rightarrow> string" where
  "reason_text t = (case t of None \<Rightarrow> []
     | Some tier \<Rightarrow> lower (str_or (ct_rejection_reason tier) []))"

definition data_failure :: "string \<Rightarrow> bool" where
  "data_failure r \<longleftrightarrow> contains ''stale'' r \<or> contains ''time skew'' r \<or> contains ''missing order book'' r"

definition depth_failure :: "string \<Rightarrow> bool" where
  "depth_failure r \<longleftrightarrow> contains ''depth'' r \<or> contains ''fill'' r \<or> contains ''liquidity reserve'' r"

definition classify_shadow_failure ::
  "bool \<Rightarrow> bool \<Rightarrow> capital_tier option \<Rightarrow> capital_tier \<Rightarrow> real option \<Rightarrow> real \<Rightarrow> real \<Rightarrow> shadow_failure_cause" where
  "classify_shadow_failure present provider_failed vtier itier divergence slip_limit div_limit =
     (let reason = reason_text vtier in
      if provider_failed \<or> data_failure reason then STALE_DATA_PROVIDER_FAILURE
      else if \<not> present then SIGNAL_DISAPPEARED
      else if depth_failure reason then INSUFFICIENT_DEPTH
      else case vtier of None \<Rightarrow> FEE_COST_HURDLE_FAILURE
        | Some v \<Rightarrow>
            let expansion = ct_observed_entry_slippage_bps v - ct_observed_entry_slippage_bps itier in
            if (case divergence of None \<Rightarrow> False | Some d \<Rightarrow> d \<ge> div_limit) then HEDGE_LEG_DIVERGENCE
            else if expansion \<ge> slip_limit then SLIPPAGE_EXPANSION
            else FEE_COST_HURDLE_FAILURE)"

section \<open>Lemmas\<close>

text \<open>The shadow metrics and the execution estimate walk the same levels to the same slippage.\<close>

lemma metrics_agree:
  assumes "estimate_market_order_quantity b side q full = Inr e" and "side = (if sd = LONG then BUY else SELL)"
    and "book_metrics_of b sd (Some q) = Inr m"
  shows "bm_slippage_bps m = Some (qe_slippage_bps e)" and "bm_best_price m = qe_best_price e"
    and "bm_available_base_quantity m = max_executable_quantity b side"
proof -
  have side: "side = (if sd = SHORT then SELL else BUY)" using assms(2) by (cases sd) simp_all
  have lv: "(if sd = LONG then ob_asks b else ob_bids b) = book_levels b side"
    using assms(2) by (simp add: book_levels_def)
  obtain r f w k where run: "quantity_loop (price_ordered side (book_levels b side)) q 0 0 0 = (r, f, w, k)"
    by (metis prod_cases4)
  have e: "book_levels b side \<noteq> []" "0 < q" "0 < f"
      "qe_best_price e = lv_price (hd (price_ordered side (book_levels b side)))"
      "qe_slippage_bps e = max 0 (raw_slippage side ((w / f) / qe_best_price e))"
      "qe_best_price e \<noteq> 0"
    using assms(1) run
    by (auto simp: estimate_market_order_quantity_def ordered_levels_def Let_def split: if_splits)
  have ne: "price_ordered side (book_levels b side) \<noteq> []" using e(1) by (metis set_empty set_price_ordered)
  then obtain l ls where ls: "price_ordered side (book_levels b side) = l # ls" by (meson neq_Nil_conv)
  have best: "lv_price l = qe_best_price e" using e(4) ls by simp
  have m: "bm_best_price m = lv_price l"
      "metrics_slippage sd f w (lv_price l) = Inr (bm_slippage_bps m)"
      "bm_available_base_quantity m = (\<Sum>l\<leftarrow>price_ordered side (book_levels b side). lv_size l)"
    using assms(3) e(2) run
    unfolding book_metrics_of_def side [symmetric] lv first_price_def ls
    by (auto simp: Let_def)
  show "bm_best_price m = qe_best_price e" using m(1) best by simp
  show "bm_slippage_bps m = Some (qe_slippage_bps e)"
    using m(2) e(3,5,6) best assms(2)
    by (auto simp: metrics_slippage_def raw_slippage_def split: if_splits)
  have "mset (price_ordered side (book_levels b side)) = mset (book_levels b side)"
    by (simp add: price_ordered_def)
  then have "mset (map lv_size (price_ordered side (book_levels b side))) = mset (map lv_size (book_levels b side))"
    by simp
  then show "bm_available_base_quantity m = max_executable_quantity b side"
    unfolding m(3) max_executable_quantity_def by (metis sum_mset_sum_list)
qed

lemma metrics_exist:
  assumes "valid_book b"
  shows "\<exists>m. book_metrics_of b sd target = Inr m"
proof -
  note v = valid_bookD [OF assms]
  let ?ls = "price_ordered (if sd = SHORT then SELL else BUY) (if sd = LONG then ob_asks b else ob_bids b)"
  have set: "set ?ls = set (if sd = LONG then ob_asks b else ob_bids b)" by simp
  then have "?ls \<noteq> []" using v(1,2) by (metis set_empty)
  then obtain l ls where ls: "?ls = l # ls" by (meson neq_Nil_conv)
  then have "0 < lv_price l" using set v(3,4) by (metis list.set_intros(1))
  then have "\<exists>s. metrics_slippage sd f w (lv_price l) = Inr s" for f w
    by (simp add: metrics_slippage_def)
  then show ?thesis using v(1,2) ls
    by (auto simp: book_metrics_of_def extreme_price_def first_price_def Let_def
        split: option.splits prod.splits)
qed

lemma fill_fraction_bounds: "0 \<le> fill_fraction l \<and> fill_fraction l \<le> 1"
  by (auto simp: fill_fraction_def split: option.split)

lemma Min_map_ge: "xs \<noteq> [] \<Longrightarrow> c \<le> Min (set (map f xs)) \<longleftrightarrow> (\<forall>x \<in> set xs. c \<le> (f x :: real))"
  by simp

text \<open>What the fill state promises, on every list of legs.\<close>

lemma fill_state_bounds:
  assumes "reconstruct_partial_fill_state legs reserve = fs"
  shows "0 \<le> fs_pair_fill_fraction fs" and "fs_pair_fill_fraction fs \<le> fs_max_leg_fill_fraction fs"
    and "fs_max_leg_fill_fraction fs \<le> 1"
    and "fs_unhedged_fraction fs = fs_max_leg_fill_fraction fs - fs_pair_fill_fraction fs"
    and "0 \<le> fs_recovery_loss_proxy_bps fs"
    and "fs_unhedged_fraction fs = 0 \<Longrightarrow> fs_recovery_loss_proxy_bps fs = 0"
    and "fs_partial_fill_state fs \<longleftrightarrow> \<not> fs_pair_fillable fs \<or> fs_hedge_recovery_required fs"
proof -
  have "legs \<noteq> [] \<Longrightarrow> 0 \<le> Min (set (map fill_fraction legs)) \<and> Max (set (map fill_fraction legs)) \<le> 1
      \<and> Min (set (map fill_fraction legs)) \<le> Max (set (map fill_fraction legs))"
    using fill_fraction_bounds by (simp add: Min_le_iff)
  with assms show "0 \<le> fs_pair_fill_fraction fs" and "fs_pair_fill_fraction fs \<le> fs_max_leg_fill_fraction fs"
    and "fs_max_leg_fill_fraction fs \<le> 1"
    and "fs_unhedged_fraction fs = fs_max_leg_fill_fraction fs - fs_pair_fill_fraction fs"
    and "0 \<le> fs_recovery_loss_proxy_bps fs"
    and "fs_unhedged_fraction fs = 0 \<Longrightarrow> fs_recovery_loss_proxy_bps fs = 0"
    and "fs_partial_fill_state fs \<longleftrightarrow> \<not> fs_pair_fillable fs \<or> fs_hedge_recovery_required fs"
    by (auto simp: reconstruct_partial_fill_state_def Let_def split: if_splits)
qed

text \<open>The boolean reconstruction as two conjunctions over the legs.\<close>

lemma pair_state_eq:
  assumes "legs \<noteq> []" and "reconstruct_pair_fill_state legs reserve = (full, with_reserve, recovery)"
  shows "full = list_all (\<lambda>l. at_least 1 (la_verification_depth_multiple l)) legs"
    and "with_reserve = list_all (\<lambda>l. at_least (max 1 reserve) (la_verification_depth_multiple l)) legs"
proof -
  have "full = list_all (\<lambda>l. at_least 1 (la_verification_depth_multiple l)) legs
      \<and> with_reserve = list_all (\<lambda>l. at_least (max 1 reserve) (la_verification_depth_multiple l)) legs"
  proof (cases "None \<in> set (map la_verification_depth_multiple legs)")
    case True
    then obtain l where l: "l \<in> set legs" "la_verification_depth_multiple l = None" by auto
    then have "\<not> list_all (\<lambda>l. at_least c (la_verification_depth_multiple l)) legs" for c
      by (auto simp: list_all_iff at_least_def intro!: bexI [of _ l])
    then show ?thesis using assms True by (simp add: reconstruct_pair_fill_state_def Let_def)
  next
    case False
    have "list_all id (map f (map g xs)) = list_all (\<lambda>x. f (g x)) xs" for f g and xs :: "shadow_leg_attribution list"
      by (simp add: list_all_iff)
    then show ?thesis using assms False by (simp add: reconstruct_pair_fill_state_def Let_def list_all_iff)
  qed
  then show "full = list_all (\<lambda>l. at_least 1 (la_verification_depth_multiple l)) legs"
    and "with_reserve = list_all (\<lambda>l. at_least (max 1 reserve) (la_verification_depth_multiple l)) legs" by simp_all
qed

lemma at_least_mono: "at_least b x \<Longrightarrow> a \<le> b \<Longrightarrow> at_least a x"
  by (auto simp: at_least_def split: option.splits)

lemma contains_append: "contains p a \<Longrightarrow> contains p (a @ b)" "contains p b \<Longrightarrow> contains p (a @ b)"
  by (auto simp: contains_iff) (metis append.assoc)+

lemma lower_append [simp]: "lower (a @ b) = lower a @ lower b"
  by (simp add: lower_def)

end
