(* ===== verification/Latency.thy ===== *)
theory Latency
  imports Quantiles Settings Shadow
begin

text \<open>
  latency.py: the empirical execution-risk model that qualification may use instead of the
  fixed latency buffers.  The stored shadow cycles are a parameter (their decoding from the
  database is not modelled); everything computed from them is.
\<close>

section \<open>Observations\<close>

definition pair_adverse_selection_bps :: "shadow_observation \<Rightarrow> real option" where
  "pair_adverse_selection_bps row =
     (let vs = map (max 0) (some_values (map la_adverse_selection_bps (so_leg_attribution row)))
      in if vs = [] then None else Some (sum_list vs))"

definition same_capital :: "real \<Rightarrow> real \<Rightarrow> bool" where
  "same_capital observed requested \<longleftrightarrow> \<bar>observed - requested\<bar> \<le> max (1 / 10 ^ 6) (\<bar>requested\<bar> * (1 / 10 ^ 9))"

definition linear_opt :: "real option \<Rightarrow> real option \<Rightarrow> real \<Rightarrow> real option" where
  "linear_opt l u w = (case (l, u) of (Some a, Some b) \<Rightarrow> Some (a + (b - a) * w) | _ \<Rightarrow> None)"

definition conservative_quality :: "real option \<Rightarrow> real option \<Rightarrow> real \<Rightarrow> real option" where
  "conservative_quality l u w =
     (case (linear_opt l u w, l) of (Some v, Some a) \<Rightarrow> Some (min a v) | _ \<Rightarrow> None)"

definition conservative_risk :: "real option \<Rightarrow> real option \<Rightarrow> real \<Rightarrow> real option" where
  "conservative_risk l u w =
     (case (linear_opt l u w, l) of (Some v, Some a) \<Rightarrow> Some (max a v) | _ \<Rightarrow> None)"

lemma blend_None [simp]:
  "conservative_quality None u w = None" "conservative_quality l None w = None"
  "conservative_risk None u w = None" "conservative_risk l None w = None"
  by (simp_all add: conservative_quality_def conservative_risk_def linear_opt_def split: option.split)

definition horizon_key :: "real \<Rightarrow> string" where
  "horizon_key v = (if v = of_int \<lfloor>v\<rfloor> then str_int \<lfloor>v\<rfloor> else fmt_g 6 v)"

definition cluster_key :: "shadow_observation \<Rightarrow> string \<times> string" where
  "cluster_key row = (so_initial_scan_id row, so_opportunity_signature row)"

definition clusters :: "shadow_observation list \<Rightarrow> shadow_observation list list" where
  "clusters rows = map snd (group_by cluster_key rows)"

section \<open>Cluster statistics\<close>

record cluster_estimate =
  cp_probability :: "real option"
  cp_lower :: "real option"
  cp_upper :: "real option"
  cp_count :: nat

definition cluster_outcomes ::
  "shadow_observation list \<Rightarrow> (shadow_observation \<Rightarrow> bool) \<Rightarrow> bool \<Rightarrow> bool list" where
  "cluster_outcomes rows pred risk =
     map (\<lambda>rs. if risk then list_ex pred rs else list_all pred rs) (clusters rows)"

definition cluster_probability ::
  "shadow_observation list \<Rightarrow> (shadow_observation \<Rightarrow> bool) \<Rightarrow> bool \<Rightarrow> real \<Rightarrow> cluster_estimate" where
  "cluster_probability rows pred risk confidence =
     (let outcomes = cluster_outcomes rows pred risk in
      if outcomes = [] then \<lparr>cp_probability = None, cp_lower = None, cp_upper = None, cp_count = 0\<rparr>
      else let successes = length (filter id outcomes); n = length outcomes
           in case wilson successes n confidence of (lo, hi) \<Rightarrow>
              \<lparr>cp_probability = Some (real successes / real n), cp_lower = lo, cp_upper = hi, cp_count = n\<rparr>)"

definition cluster_numeric ::
  "shadow_observation list \<Rightarrow> (shadow_observation \<Rightarrow> real option) \<Rightarrow> bool \<Rightarrow> real list" where
  "cluster_numeric rows extract risk =
     concat (map (\<lambda>rs. let vs = some_values (map extract rs)
       in if vs = [] then [] else [if risk then Max (set vs) else Min (set vs)]) (clusters rows))"

record lat_metrics =
  mt_count :: nat
  mt_effective_count :: nat
  mt_adverse_count :: nat
  mt_recovery_loss_count :: nat
  mt_max_ci_width :: "real option"
  mt_pair_fill :: "real option"
  mt_pair_fill_low :: "real option"
  mt_pair_fill_high :: "real option"
  mt_reserve_fill :: "real option"
  mt_reserve_fill_low :: "real option"
  mt_reserve_fill_high :: "real option"
  mt_capture :: "real option"
  mt_capture_low :: "real option"
  mt_capture_high :: "real option"
  mt_hedge_recovery :: "real option"
  mt_hedge_recovery_low :: "real option"
  mt_hedge_recovery_high :: "real option"
  mt_partial_fill :: "real option"
  mt_pair_fraction_p10 :: "real option"
  mt_pair_fraction_p50 :: "real option"
  mt_unhedged_p50 :: "real option"
  mt_unhedged_p90 :: "real option"
  mt_unhedged_p95 :: "real option"
  mt_recovery_loss_p50 :: "real option"
  mt_recovery_loss_p90 :: "real option"
  mt_recovery_loss_p95 :: "real option"
  mt_adverse_p50 :: "real option"
  mt_adverse_p90 :: "real option"
  mt_adverse_p95 :: "real option"

definition truth :: "bool option \<Rightarrow> bool" where
  "truth b = (case b of None \<Rightarrow> False | Some x \<Rightarrow> x)"

definition is_capture :: "shadow_observation \<Rightarrow> bool" where
  "is_capture row \<longleftrightarrow> truth (so_pair_fillable_with_reserve row) \<and> so_survived row"

definition is_partial :: "shadow_observation \<Rightarrow> bool" where
  "is_partial row = (case so_partial_fill_state row of Some b \<Rightarrow> b
     | None \<Rightarrow> \<not> truth (so_pair_fillable row))"

definition fraction_of :: "shadow_observation \<Rightarrow> real option" where
  "fraction_of row = (case so_pair_fill_fraction row of Some f \<Rightarrow> Some f
     | None \<Rightarrow> Some (if truth (so_pair_fillable row) then 1 else 0))"

definition width :: "real option \<Rightarrow> real option \<Rightarrow> real list" where
  "width low high = (case (low, high) of (Some a, Some b) \<Rightarrow> [b - a] | _ \<Rightarrow> [])"

definition greatest :: "real list \<Rightarrow> real option" where
  "greatest xs = (if xs = [] then None else Some (Max (set xs)))"

definition metrics :: "shadow_observation list \<Rightarrow> real \<Rightarrow> lat_metrics" where
  "metrics rows confidence =
     (let pair = cluster_probability rows (\<lambda>r. truth (so_pair_fillable r)) False confidence;
          reserve = cluster_probability rows (\<lambda>r. truth (so_pair_fillable_with_reserve r)) False confidence;
          capture = cluster_probability rows is_capture False confidence;
          recovery = cluster_probability rows (\<lambda>r. truth (so_hedge_recovery_required r)) True confidence;
          partial = cluster_probability rows is_partial True confidence;
          adverse = cluster_numeric rows pair_adverse_selection_bps True;
          fraction = cluster_numeric rows fraction_of False;
          unhedged = cluster_numeric rows so_unhedged_fraction True;
          loss = cluster_numeric rows so_hedge_recovery_loss_proxy_bps True
      in \<lparr>mt_count = length rows, mt_effective_count = cp_count pair,
          mt_adverse_count = length adverse, mt_recovery_loss_count = length loss,
          mt_max_ci_width = greatest (width (cp_lower pair) (cp_upper pair)
             @ width (cp_lower reserve) (cp_upper reserve) @ width (cp_lower capture) (cp_upper capture)),
          mt_pair_fill = cp_probability pair, mt_pair_fill_low = cp_lower pair,
          mt_pair_fill_high = cp_upper pair,
          mt_reserve_fill = cp_probability reserve, mt_reserve_fill_low = cp_lower reserve,
          mt_reserve_fill_high = cp_upper reserve,
          mt_capture = cp_probability capture, mt_capture_low = cp_lower capture,
          mt_capture_high = cp_upper capture,
          mt_hedge_recovery = cp_probability recovery, mt_hedge_recovery_low = cp_lower recovery,
          mt_hedge_recovery_high = cp_upper recovery, mt_partial_fill = cp_probability partial,
          mt_pair_fraction_p10 = quantile fraction (1 / 10), mt_pair_fraction_p50 = quantile fraction (1 / 2),
          mt_unhedged_p50 = quantile unhedged (1 / 2), mt_unhedged_p90 = quantile unhedged (9 / 10),
          mt_unhedged_p95 = quantile unhedged (95 / 100),
          mt_recovery_loss_p50 = quantile loss (1 / 2), mt_recovery_loss_p90 = quantile loss (9 / 10),
          mt_recovery_loss_p95 = quantile loss (95 / 100),
          mt_adverse_p50 = quantile adverse (1 / 2), mt_adverse_p90 = quantile adverse (9 / 10),
          mt_adverse_p95 = quantile adverse (95 / 100)\<rparr>)"

section \<open>The resolver\<close>

record lat_resolver =
  lr_settings :: settings
  lr_quantile :: real
  lr_confidence :: real
  lr_observations :: "shadow_observation list"
  lr_scan_latency_samples :: "real list"
  lr_data_latency_samples :: "real list"
  lr_data_latency_source :: data_latency_source
  lr_collector_latency_reference_ms :: "real option"
  lr_effective_reference_ms :: "real option"
  lr_available_horizons :: "real list"
  lr_reference_lower_horizon_seconds :: "real option"
  lr_reference_upper_horizon_seconds :: "real option"
  lr_interpolation_weight :: real

text \<open>\<open>{scan_id: value}\<close> over the observations that have a value: the last value of a scan stands in the first's place.\<close>

definition latest_by_scan ::
  "(shadow_observation \<Rightarrow> real option) \<Rightarrow> shadow_observation list \<Rightarrow> (string \<times> real) list" where
  "latest_by_scan f rows = foldl (\<lambda>d row. case f row of None \<Rightarrow> d
     | Some v \<Rightarrow> AList.update (so_verification_scan_id row) v d) [] rows"

definition data_samples ::
  "settings \<Rightarrow> shadow_observation list \<Rightarrow> real list \<Rightarrow> real list \<times> data_latency_source" where
  "data_samples s obs scan_samples =
     (let l2 = latest_by_scan so_verification_data_path_latency_ms obs in
      if int (length l2) \<ge> max 1 (se_empirical_latency_min_scan_samples s)
      then (map snd l2, L2_request_roundtrip)
      else if scan_samples \<noteq> [] then (scan_samples, Scan_duration_fallback)
      else ([], Unavailable))"

definition horizons_of :: "shadow_observation list \<Rightarrow> real list" where
  "horizons_of obs = sorted_unique (map so_delay_seconds
     (filter (\<lambda>r. so_delay_seconds r > 0 \<and> so_pair_fillable r \<noteq> None) obs))"

text \<open>The shadow horizons around the effective latency, and the weight of the upper one.\<close>

definition reference_horizons ::
  "real option \<Rightarrow> real list \<Rightarrow> real option \<times> real option \<times> real" where
  "reference_horizons effective horizons =
     (case effective of None \<Rightarrow> (None, None, 0)
      | Some ms \<Rightarrow>
         if horizons = [] then (None, None, 0)
         else let latency = ms / 1000; first = hd horizons; last_h = last horizons in
           if latency \<le> first then (Some first, Some first, 0)
           else if latency \<le> last_h
           then (case find (\<lambda>h. \<bar>h - latency\<bar> < 1 / 10 ^ 12) horizons of
                   Some h \<Rightarrow> (Some h, Some h, 0)
                 | None \<Rightarrow> let lo = Max (set (filter (\<lambda>h. h < latency) horizons));
                               up = Min (set (filter (\<lambda>h. h > latency) horizons))
                           in (Some lo, Some up, (latency - lo) / (up - lo)))
           else (None, None, 0))"

definition effective_latency_ms :: "settings \<Rightarrow> real option \<Rightarrow> real option" where
  "effective_latency_ms s collector = map_option (\<lambda>c. c + max 0 (se_expected_order_ack_latency_ms s)
     + max 0 (se_expected_hedge_latency_ms s)) collector"

definition new_resolver :: "shadow_cycle list \<Rightarrow> settings \<Rightarrow> lat_resolver" where
  "new_resolver cycles s =
     (let obs = concat (map sc_observations cycles);
          q = min 1 (max 0 (se_empirical_latency_quantile s));
          scans = map snd (latest_by_scan so_verification_scan_latency_ms obs);
          horizons = horizons_of obs
      in case data_samples s obs scans of (samples, source) \<Rightarrow>
         let collector = quantile samples q; effective = effective_latency_ms s collector
         in case reference_horizons effective horizons of (lo, up, weight) \<Rightarrow>
            \<lparr>lr_settings = s, lr_quantile = q,
             lr_confidence = min 0.999999 (max 0.500001 (se_empirical_probability_confidence_level s)),
             lr_observations = obs, lr_scan_latency_samples = scans, lr_data_latency_samples = samples,
             lr_data_latency_source = source, lr_collector_latency_reference_ms = collector,
             lr_effective_reference_ms = effective, lr_available_horizons = horizons,
             lr_reference_lower_horizon_seconds = lo, lr_reference_upper_horizon_seconds = up,
             lr_interpolation_weight = weight\<rparr>)"

text \<open>A scope: its name, and the dimensions on which a row must match the request.\<close>

record lat_scope =
  ls_name :: string
  ls_by_strategy :: bool
  ls_by_venue_pair :: bool
  ls_by_asset :: bool
  ls_by_capital :: bool

record lat_request =
  rq_strategy :: "string option"
  rq_venue_pair :: "string option"
  rq_asset :: "string option"
  rq_notional :: "real option"

definition global_scope :: lat_scope where
  "global_scope = \<lparr>ls_name = ''global'', ls_by_strategy = False, ls_by_venue_pair = False,
     ls_by_asset = False, ls_by_capital = False\<rparr>"

definition scopes_of :: "lat_request \<Rightarrow> lat_scope list" where
  "scopes_of rq =
     (let s = truthy (rq_strategy rq); v = truthy (rq_venue_pair rq); a = truthy (rq_asset rq) in
      (if s \<and> v \<and> a \<and> rq_notional rq \<noteq> None
       then [\<lparr>ls_name = ''strategy+venue_pair+asset+capital'', ls_by_strategy = True,
              ls_by_venue_pair = True, ls_by_asset = True, ls_by_capital = True\<rparr>] else [])
      @ (if s \<and> v \<and> a
         then [\<lparr>ls_name = ''strategy+venue_pair+asset'', ls_by_strategy = True,
                ls_by_venue_pair = True, ls_by_asset = True, ls_by_capital = False\<rparr>] else [])
      @ (if s \<and> v
         then [\<lparr>ls_name = ''strategy+venue_pair'', ls_by_strategy = True,
                ls_by_venue_pair = True, ls_by_asset = False, ls_by_capital = False\<rparr>] else [])
      @ (if s
         then [\<lparr>ls_name = ''strategy'', ls_by_strategy = True,
                ls_by_venue_pair = False, ls_by_asset = False, ls_by_capital = False\<rparr>] else [])
      @ [global_scope])"

definition scope_matches :: "lat_request \<Rightarrow> lat_scope \<Rightarrow> shadow_observation \<Rightarrow> bool" where
  "scope_matches rq sc row \<longleftrightarrow>
     (ls_by_strategy sc \<longrightarrow> Some (strategy_value (so_strategy row)) = rq_strategy rq)
     \<and> (ls_by_venue_pair sc \<longrightarrow> so_venue_pair row = rq_venue_pair rq)
     \<and> (ls_by_asset sc \<longrightarrow> Some (so_asset row) = rq_asset rq)
     \<and> (ls_by_capital sc \<longrightarrow> (case rq_notional rq of None \<Rightarrow> False
           | Some n \<Rightarrow> same_capital (so_notional_usd_per_leg row) n))"

definition rows_at :: "lat_resolver \<Rightarrow> lat_request \<Rightarrow> real \<Rightarrow> lat_scope \<Rightarrow> shadow_observation list" where
  "rows_at r rq h sc = filter (\<lambda>row. \<bar>so_delay_seconds row - h\<bar> < 1 / 10 ^ 9
     \<and> so_pair_fillable row \<noteq> None \<and> scope_matches rq sc row) (lr_observations r)"

definition required_horizons :: "lat_resolver \<Rightarrow> real list" where
  "required_horizons r =
     (case lr_reference_lower_horizon_seconds r of None \<Rightarrow> [] | Some l \<Rightarrow> [l])
     @ (case lr_reference_upper_horizon_seconds r of None \<Rightarrow> []
        | Some u \<Rightarrow> if lr_reference_upper_horizon_seconds r \<noteq> lr_reference_lower_horizon_seconds r then [u] else [])"

definition scope_metrics :: "lat_resolver \<Rightarrow> lat_request \<Rightarrow> lat_scope \<Rightarrow> (real \<times> lat_metrics) list" where
  "scope_metrics r rq sc = map (\<lambda>h. (h, metrics (rows_at r rq h sc) (lr_confidence r))) (required_horizons r)"

definition least_count :: "nat list \<Rightarrow> nat" where
  "least_count xs = (if xs = [] then 0 else Min (set xs))"

text \<open>\<open>{_horizon_key(h): count}\<close>: horizons that print alike share a key, and the last count stands.\<close>

definition keyed_counts :: "(lat_metrics \<Rightarrow> nat) \<Rightarrow> (real \<times> lat_metrics) list \<Rightarrow> (string \<times> nat) list" where
  "keyed_counts f ms = foldl (\<lambda>d (h, m). AList.update (horizon_key h) (f m) d) [] ms"

definition widest :: "(real \<times> lat_metrics) list \<Rightarrow> real" where
  "widest ms = (if ms = [] then 1 else Max (set (map (\<lambda>(_, m).
     case mt_max_ci_width m of None \<Rightarrow> 1 | Some w \<Rightarrow> if w = 0 then 1 else w) ms)))"

definition scope_valid :: "lat_resolver \<Rightarrow> (real \<times> lat_metrics) list \<Rightarrow> bool" where
  "scope_valid r ms \<longleftrightarrow>
     (let s = lr_settings r; eff = max 1 (se_empirical_latency_min_effective_samples s) in
      required_horizons r \<noteq> []
      \<and> int (least_count (map snd (keyed_counts mt_count ms))) \<ge> max 1 (se_empirical_latency_min_samples s)
      \<and> int (least_count (map snd (keyed_counts mt_effective_count ms))) \<ge> eff
      \<and> int (least_count (map (mt_adverse_count \<circ> snd) ms)) \<ge> eff
      \<and> int (least_count (map (mt_recovery_loss_count \<circ> snd) ms)) \<ge> eff
      \<and> widest ms \<le> max 0 (se_empirical_probability_max_ci_width s))"

definition skip_note :: "lat_scope \<Rightarrow> (real \<times> lat_metrics) list \<Rightarrow> string" where
  "skip_note sc ms = ls_name sc @ '':raw='' @ str_int (int (least_count (map snd (keyed_counts mt_count ms))))
     @ '',effective='' @ str_int (int (least_count (map snd (keyed_counts mt_effective_count ms))))
     @ '',adverse='' @ str_int (int (least_count (map (mt_adverse_count \<circ> snd) ms)))
     @ '',recovery='' @ str_int (int (least_count (map (mt_recovery_loss_count \<circ> snd) ms)))
     @ '',ci_width='' @ fmt_fixed 4 (widest ms)"

record lat_selection =
  sn_scope :: lat_scope
  sn_metrics :: "(real \<times> lat_metrics) list"
  sn_valid :: bool
  sn_skipped :: "string list"
  sn_candidate_counts :: "(string \<times> nat) list"
  sn_horizon_counts :: "(string \<times> (string \<times> nat) list) list"
  sn_effective_counts :: "(string \<times> (string \<times> nat) list) list"

text \<open>The loop over the scopes, from the narrowest; without a valid one, the global rows are taken.\<close>

fun select_scope :: "lat_resolver \<Rightarrow> lat_request \<Rightarrow> lat_scope list \<Rightarrow> lat_selection \<Rightarrow> lat_selection" where
  "select_scope r rq [] acc = acc\<lparr>sn_scope := global_scope, sn_metrics := scope_metrics r rq global_scope\<rparr>"
| "select_scope r rq (sc # scs) acc =
     (let ms = scope_metrics r rq sc; raw = keyed_counts mt_count ms;
          acc1 = acc\<lparr>
            sn_horizon_counts := sn_horizon_counts acc @ [(ls_name sc, raw)],
            sn_effective_counts := sn_effective_counts acc @ [(ls_name sc, keyed_counts mt_effective_count ms)],
            sn_candidate_counts := sn_candidate_counts acc @ [(ls_name sc, least_count (map snd raw))]\<rparr>
      in if scope_valid r ms then acc1\<lparr>sn_scope := sc, sn_metrics := ms, sn_valid := True\<rparr>
         else select_scope r rq scs (if ls_name sc \<noteq> ''global''
           then acc1\<lparr>sn_skipped := sn_skipped acc1 @ [skip_note sc ms]\<rparr> else acc1))"

definition empty_selection :: lat_selection where
  "empty_selection = \<lparr>sn_scope = global_scope, sn_metrics = [], sn_valid = False, sn_skipped = [],
     sn_candidate_counts = [], sn_horizon_counts = [], sn_effective_counts = []\<rparr>"

text \<open>\<open>selected_metrics.get(horizon, {})\<close>; no metrics stand for the empty dictionary.\<close>

definition metrics_for :: "lat_selection \<Rightarrow> real option \<Rightarrow> lat_metrics option" where
  "metrics_for sel h = Option.bind h (map_of (sn_metrics sel))"

definition blended ::
  "(real option \<Rightarrow> real option \<Rightarrow> real \<Rightarrow> real option) \<Rightarrow> bool \<Rightarrow> lat_metrics option \<Rightarrow> lat_metrics option
     \<Rightarrow> real \<Rightarrow> (lat_metrics \<Rightarrow> real option) \<Rightarrow> real option" where
  "blended mix same l u w f =
     (if same then Option.bind l f else mix (Option.bind l f) (Option.bind u f) w)"

definition count_of :: "(lat_metrics \<Rightarrow> nat) \<Rightarrow> lat_metrics option \<Rightarrow> nat" where
  "count_of f m = (case m of None \<Rightarrow> 0 | Some x \<Rightarrow> f x)"

definition refusal_reasons :: "lat_resolver \<Rightarrow> lat_selection \<Rightarrow> string list" where
  "refusal_reasons r sel =
     (let s = lr_settings r in
      (if \<not> se_empirical_latency_enabled s then [''empirical latency model disabled by configuration''] else [])
      @ (if int (length (lr_data_latency_samples r)) < max 1 (se_empirical_latency_min_scan_samples s)
         then [''need '' @ str_int (se_empirical_latency_min_scan_samples s) @ '' data-latency samples; have ''
               @ str_int (int (length (lr_data_latency_samples r)))] else [])
      @ (if lr_reference_lower_horizon_seconds r = None \<or> lr_reference_upper_horizon_seconds r = None
         then [''effective decision-to-hedge latency exceeds available shadow horizons or fill reconstruction is unavailable'']
         else [])
      @ (if \<not> sn_valid sel
         then [''no hierarchical cohort passes raw/effective sample, tail-sample, and confidence-width gates at every reference horizon'']
         else []))"

definition strategy_of_value :: "string option \<Rightarrow> strategy option" where
  "strategy_of_value v = find (\<lambda>s. Some (strategy_value s) = v)
     [FUNDING_DISPERSION, SPOT_PERP_BASIS, FUTURES_BASIS, CEX_SPOT_DISLOCATION]"

text \<open>The field constraints of the model class that depend on the inputs.\<close>

definition latency_model_ok :: "empirical_latency_model \<Rightarrow> bool" where
  "latency_model_ok m \<longleftrightarrow>
     (case lm_scope_notional_usd_per_leg m of None \<Rightarrow> True | Some n \<Rightarrow> 0 < n)
     \<and> 0 \<le> lm_assumed_order_ack_latency_ms m \<and> 0 \<le> lm_assumed_second_leg_latency_ms m
     \<and> (case lm_effective_decision_to_hedge_latency_ms m of None \<Rightarrow> True | Some x \<Rightarrow> 0 \<le> x)
     \<and> 0 \<le> lm_interpolation_weight m \<and> lm_interpolation_weight m \<le> 1
     \<and> 0 < lm_confidence_level m \<and> lm_confidence_level m < 1"

definition resolved_model :: "lat_resolver \<Rightarrow> lat_request \<Rightarrow> lat_selection \<Rightarrow> empirical_latency_model" where
  "resolved_model r rq sel =
     (let s = lr_settings r;
          lh = lr_reference_lower_horizon_seconds r; uh = lr_reference_upper_horizon_seconds r;
          same = (lh = uh);
          lo = metrics_for sel lh;
          up = (if same then lo else metrics_for sel uh);
          weight = (if same then 0 else lr_interpolation_weight r);
          quality = blended conservative_quality same lo up weight;
          risk = blended conservative_risk same lo up weight;
          required = required_horizons r;
          reasons = refusal_reasons r sel;
          sc = sn_scope sel
      in \<lparr>lm_model_version = ''v0.8.3'', lm_model_scope = ls_name sc,
          lm_scope_strategy = (if ls_by_strategy sc then strategy_of_value (rq_strategy rq) else None),
          lm_scope_venue_pair = (if ls_by_venue_pair sc then rq_venue_pair rq else None),
          lm_scope_asset = (if ls_by_asset sc then rq_asset rq else None),
          lm_scope_notional_usd_per_leg = (if ls_by_capital sc then rq_notional rq else None),
          lm_scope_candidate_counts = sn_candidate_counts sel,
          lm_scope_horizon_counts = sn_horizon_counts sel,
          lm_scope_effective_counts = sn_effective_counts sel,
          lm_scope_fallbacks = sn_skipped sel,
          lm_latency_quantile = lr_quantile r,
          lm_scan_latency_sample_count = length (lr_scan_latency_samples r),
          lm_data_latency_sample_count = length (lr_data_latency_samples r),
          lm_data_latency_source = lr_data_latency_source r,
          lm_cohort_sample_count =
            (if required = [] then 0 else min (count_of mt_count lo) (count_of mt_count up)),
          lm_effective_sample_size =
            (if required = [] then 0 else min (count_of mt_effective_count lo) (count_of mt_effective_count up)),
          lm_lower_horizon_sample_count = count_of mt_count lo,
          lm_upper_horizon_sample_count = count_of mt_count up,
          lm_reference_latency_ms = lr_effective_reference_ms r,
          lm_collector_latency_reference_ms = lr_collector_latency_reference_ms r,
          lm_assumed_order_ack_latency_ms = max 0 (se_expected_order_ack_latency_ms s),
          lm_assumed_second_leg_latency_ms = max 0 (se_expected_hedge_latency_ms s),
          lm_effective_decision_to_hedge_latency_ms = lr_effective_reference_ms r,
          lm_execution_latency_empirical = False,
          lm_execution_latency_note = ''no live order/ack path; execution timing remains an explicit assumption'',
          lm_reference_horizon_seconds = uh,
          lm_reference_lower_horizon_seconds = lh, lm_reference_upper_horizon_seconds = uh,
          lm_interpolation_weight = weight,
          lm_interpolation_mode = (if same then Single_horizon else Linear_interval),
          lm_scan_latency_p50_ms = quantile (lr_scan_latency_samples r) (1 / 2),
          lm_scan_latency_p90_ms = quantile (lr_scan_latency_samples r) (9 / 10),
          lm_scan_latency_p95_ms = quantile (lr_scan_latency_samples r) (95 / 100),
          lm_data_latency_p50_ms = quantile (lr_data_latency_samples r) (1 / 2),
          lm_data_latency_p90_ms = quantile (lr_data_latency_samples r) (9 / 10),
          lm_data_latency_p95_ms = quantile (lr_data_latency_samples r) (95 / 100),
          lm_confidence_level = lr_confidence r,
          lm_probability_max_ci_width = greatest (
            width (quality mt_pair_fill_low) (quality mt_pair_fill_high)
            @ width (quality mt_reserve_fill_low) (quality mt_reserve_fill_high)
            @ width (quality mt_capture_low) (quality mt_capture_high)),
          lm_confidence_gate_passed = sn_valid sel,
          lm_pair_fill_probability = quality mt_pair_fill,
          lm_pair_fill_ci_lower = quality mt_pair_fill_low,
          lm_pair_fill_ci_upper = quality mt_pair_fill_high,
          lm_reserve_fill_probability = quality mt_reserve_fill,
          lm_reserve_fill_ci_lower = quality mt_reserve_fill_low,
          lm_reserve_fill_ci_upper = quality mt_reserve_fill_high,
          lm_capture_probability = quality mt_capture,
          lm_capture_ci_lower = quality mt_capture_low,
          lm_capture_ci_upper = quality mt_capture_high,
          lm_hedge_recovery_probability = risk mt_hedge_recovery,
          lm_hedge_recovery_ci_lower = risk mt_hedge_recovery_low,
          lm_hedge_recovery_ci_upper = risk mt_hedge_recovery_high,
          lm_partial_fill_probability = risk mt_partial_fill,
          lm_pair_fill_fraction_p10 = quality mt_pair_fraction_p10,
          lm_pair_fill_fraction_p50 = quality mt_pair_fraction_p50,
          lm_unhedged_fraction_p50 = risk mt_unhedged_p50,
          lm_unhedged_fraction_p90 = risk mt_unhedged_p90,
          lm_unhedged_fraction_p95 = risk mt_unhedged_p95,
          lm_hedge_recovery_loss_p50_bps = risk mt_recovery_loss_p50,
          lm_hedge_recovery_loss_p90_bps = risk mt_recovery_loss_p90,
          lm_hedge_recovery_loss_p95_bps = risk mt_recovery_loss_p95,
          lm_adverse_selection_p50_bps = risk mt_adverse_p50,
          lm_adverse_selection_p90_bps = risk mt_adverse_p90,
          lm_adverse_selection_p95_bps = risk mt_adverse_p95,
          lm_empirical_latency_risk_bps = risk mt_adverse_p95,
          lm_fill_model_kind = ''visible_l2_taker_reconstruction'',
          lm_queue_position_supported = False, lm_maker_fill_probability = None,
          lm_usable_for_qualification = (reasons = []),
          lm_reason = (if reasons = [] then None else Some (join ''; '' reasons)),
          lm_paper_only = True\<rparr>)"

definition resolve_request :: "lat_resolver \<Rightarrow> lat_request \<Rightarrow> empirical_latency_model result" where
  "resolve_request r rq =
     (let m = resolved_model r rq (select_scope r rq (scopes_of rq) empty_selection)
      in if latency_model_ok m then Inr m else Inl (ValidationError ''EmpiricalLatencyModel''))"

text \<open>An opportunity, when given, overrides the three named dimensions.\<close>

definition resolve ::
  "lat_resolver \<Rightarrow> opportunity option \<Rightarrow> real option \<Rightarrow> string option \<Rightarrow> string option \<Rightarrow> string option
     \<Rightarrow> empirical_latency_model result" where
  "resolve r opp notional strategy pair asset =
     resolve_request r (case opp of
        None \<Rightarrow> \<lparr>rq_strategy = strategy, rq_venue_pair = pair, rq_asset = asset, rq_notional = notional\<rparr>
      | Some op \<Rightarrow> \<lparr>rq_strategy = Some (strategy_value (op_strategy op)),
          rq_venue_pair = Some (venue_pair op), rq_asset = Some (op_asset op), rq_notional = notional\<rparr>)"

definition build_empirical_latency_model ::
  "shadow_cycle list \<Rightarrow> settings \<Rightarrow> opportunity option \<Rightarrow> real option \<Rightarrow> empirical_latency_model result" where
  "build_empirical_latency_model cycles s opp notional =
     resolve (new_resolver cycles s) opp notional None None None"

section \<open>The reference horizons\<close>

lemma horizons_sorted: "sorted (horizons_of obs)" "distinct (horizons_of obs)"
    "h \<in> set (horizons_of obs) \<Longrightarrow> 0 < h"
  by (auto simp: horizons_of_def)

text \<open>Reference horizons are measured horizons around the latency, and the weight is a convex one.\<close>

lemma reference_horizons_sound:
  assumes "reference_horizons eff hs = (Some l, Some u, w)" and "sorted hs"
  shows "l \<in> set hs" and "u \<in> set hs" and "l \<le> u" and "0 \<le> w" and "w \<le> 1"
    and "\<exists>ms. eff = Some ms \<and> ms / 1000 \<le> u + 1 / 10 ^ 12"
    and "l \<noteq> u \<Longrightarrow> \<exists>ms. eff = Some ms \<and> l + w * (u - l) = ms / 1000"
proof -
  obtain ms where ms: "eff = Some ms" using assms(1) by (auto simp: reference_horizons_def split: option.splits)
  define lat where "lat = ms / 1000"
  have ne: "hs \<noteq> []" using assms(1) by (auto simp: reference_horizons_def ms)
  have run: "(Some l, Some u, w) = (if lat \<le> hd hs then (Some (hd hs), Some (hd hs), 0)
      else if lat \<le> last hs
        then (case find (\<lambda>h. \<bar>h - lat\<bar> < 1 / 10 ^ 12) hs of Some h \<Rightarrow> (Some h, Some h, 0)
              | None \<Rightarrow> (Some (Max (set (filter (\<lambda>h. h < lat) hs))), Some (Min (set (filter (\<lambda>h. h > lat) hs))),
                  (lat - Max (set (filter (\<lambda>h. h < lat) hs)))
                    / (Min (set (filter (\<lambda>h. h > lat) hs)) - Max (set (filter (\<lambda>h. h < lat) hs)))))
      else (None, None, 0))"
    unfolding assms(1) [symmetric] by (simp only: reference_horizons_def ms lat_def ne Let_def if_False option.case)
  have "l \<in> set hs \<and> u \<in> set hs \<and> l \<le> u \<and> 0 \<le> w \<and> w \<le> 1 \<and> lat \<le> u + 1 / 10 ^ 12
      \<and> (l \<noteq> u \<longrightarrow> l + w * (u - l) = lat)"
  proof (cases "lat \<le> hd hs")
    case True
    then have "l = hd hs" "u = hd hs" "w = 0" using run by simp_all
    moreover have "lat \<le> hd hs + 1 / 10 ^ 12" using True by (rule order_trans) simp
    ultimately show ?thesis using ne by simp
  next
    case first: False
    then have last: "lat \<le> last hs"
      using run by (simp split: if_splits)
    show ?thesis
    proof (cases "find (\<lambda>h. \<bar>h - lat\<bar> < 1 / 10 ^ 12) hs")
      case (Some h)
      then have "l = h" "u = h" "w = 0" using run first last by simp_all
      moreover have "h \<in> set hs" "\<bar>h - lat\<bar> < 1 / 10 ^ 12"
        using Some by (auto simp: find_Some_iff)
      moreover from this(2) have "lat \<le> h + 1 / 10 ^ 12" by linarith
      ultimately show ?thesis by simp
    next
      case None
      let ?L = "set (filter (\<lambda>h. h < lat) hs)" and ?U = "set (filter (\<lambda>h. h > lat) hs)"
      have luw: "l = Max ?L" "u = Min ?U" "w = (lat - l) / (u - l)"
        using run first last None by simp_all
      have "last hs \<in> set hs" using ne by simp
      then have "\<not> \<bar>last hs - lat\<bar> < 1 / 10 ^ 12" using None by (simp add: find_None_iff)
      then have "lat < last hs" using last by (cases "lat = last hs") auto
      then have U: "?U \<noteq> {}" using \<open>last hs \<in> set hs\<close> by auto
      have "hd hs \<in> ?L" using first hd_in_set [OF ne] by simp
      then have L: "?L \<noteq> {}" by (metis empty_iff)
      have "l \<in> ?L" "u \<in> ?U" unfolding luw by (rule Max_in, simp, rule L, rule Min_in, simp, rule U)
      then have in_hs: "l \<in> set hs" "u \<in> set hs" and lt: "l < lat" "lat < u" by auto
      have w: "w * (u - l) = lat - l" using luw(3) lt by simp
      have "0 \<le> w" "w \<le> 1" using luw(3) lt by (simp_all add: divide_le_eq)
      moreover have "lat \<le> u + 1 / 10 ^ 12" using lt(2) by (intro order_trans [OF less_imp_le [OF lt(2)]]) simp
      ultimately show ?thesis using in_hs lt w by simp
    qed
  qed
  note all = this
  show "l \<in> set hs" and "u \<in> set hs" and "l \<le> u" and "0 \<le> w" and "w \<le> 1" using all by blast+
  have "eff = Some ms \<and> ms / 1000 \<le> u + 1 / 10 ^ 12" using all ms unfolding lat_def by blast
  then show "\<exists>ms. eff = Some ms \<and> ms / 1000 \<le> u + 1 / 10 ^ 12" by (rule exI)
  assume "l \<noteq> u"
  then have "eff = Some ms \<and> l + w * (u - l) = ms / 1000" using all ms unfolding lat_def by blast
  then show "\<exists>ms. eff = Some ms \<and> l + w * (u - l) = ms / 1000" by (rule exI)
qed

section \<open>Confidence intervals through the interpolation\<close>

text \<open>A probability with its interval: all three absent, or ordered inside the unit interval.\<close>

definition bracket :: "real option \<Rightarrow> real option \<Rightarrow> real option \<Rightarrow> bool" where
  "bracket lo p hi \<longleftrightarrow> (lo = None \<and> p = None \<and> hi = None)
     \<or> (\<exists>a b c. lo = Some a \<and> p = Some b \<and> hi = Some c \<and> 0 \<le> a \<and> a \<le> b \<and> b \<le> c \<and> c \<le> 1)"

lemma cluster_bracket:
  "bracket (cp_lower (cluster_probability rows P risk conf)) (cp_probability (cluster_probability rows P risk conf))
     (cp_upper (cluster_probability rows P risk conf))"
proof (cases "cluster_outcomes rows P risk")
  case Nil
  then show ?thesis by (simp add: cluster_probability_def bracket_def Let_def)
next
  case (Cons x xs)
  let ?o = "cluster_outcomes rows P risk"
  let ?k = "length (filter id ?o)" and ?n = "length ?o"
  have "0 < ?n" using Cons by simp
  then obtain lo hi where w: "wilson ?k ?n conf = (Some lo, Some hi)" using wilson_exists by blast
  have "?k \<le> ?n" by simp
  note b = wilson_brackets [OF w this]
  have "cluster_probability rows P risk conf = \<lparr>cp_probability = Some (real ?k / real ?n),
      cp_lower = Some lo, cp_upper = Some hi, cp_count = ?n\<rparr>"
    unfolding cluster_probability_def Let_def w prod.case by (rule if_not_P) (use Cons in simp)
  then show ?thesis using b by (simp add: bracket_def)
qed

lemma metrics_brackets:
  "bracket (mt_pair_fill_low (metrics rows c)) (mt_pair_fill (metrics rows c)) (mt_pair_fill_high (metrics rows c))"
  "bracket (mt_reserve_fill_low (metrics rows c)) (mt_reserve_fill (metrics rows c)) (mt_reserve_fill_high (metrics rows c))"
  "bracket (mt_capture_low (metrics rows c)) (mt_capture (metrics rows c)) (mt_capture_high (metrics rows c))"
  "bracket (mt_hedge_recovery_low (metrics rows c)) (mt_hedge_recovery (metrics rows c))
     (mt_hedge_recovery_high (metrics rows c))"
  by (simp_all only: metrics_def Let_def lat_metrics.select_convs cluster_bracket)

lemma convex_form: "a + (b - a) * w = (1 - w) * a + w * (b :: real)"
  by (simp add: algebra_simps)

lemma convex_mono:
  fixes a b c d w :: real
  assumes "0 \<le> w" "w \<le> 1" "a \<le> c" "b \<le> d"
  shows "a + (b - a) * w \<le> c + (d - c) * w"
  unfolding convex_form using assms by (intro add_mono mult_left_mono) simp_all

lemma convex_bounds:
  fixes a b w :: real
  assumes "0 \<le> w" "w \<le> 1" "0 \<le> a" "a \<le> 1" "0 \<le> b" "b \<le> 1"
  shows "0 \<le> a + (b - a) * w" and "a + (b - a) * w \<le> 1"
  using convex_mono [of w 0 a 0 b] convex_mono [of w a 1 b 1] assms by simp_all

lemma mixed_bracket:
  assumes "bracket l1 p1 h1" and "bracket l2 p2 h2" and w: "0 \<le> w" "w \<le> 1"
    and mix: "mix = conservative_quality \<or> mix = conservative_risk"
  shows "bracket (mix l1 l2 w) (mix p1 p2 w) (mix h1 h2 w)"
proof (cases "p1 = None \<or> p2 = None")
  case True
  then have "(l1 = None \<and> p1 = None \<and> h1 = None) \<or> (l2 = None \<and> p2 = None \<and> h2 = None)"
    using assms(1,2) by (auto simp: bracket_def)
  then show ?thesis using mix by (auto simp: bracket_def)
next
  case False
  then obtain a b c d e f where v: "l1 = Some a" "p1 = Some b" "h1 = Some c" "l2 = Some d" "p2 = Some e" "h2 = Some f"
    and o: "0 \<le> a" "a \<le> b" "b \<le> c" "c \<le> 1" "0 \<le> d" "d \<le> e" "e \<le> f" "f \<le> 1"
    using assms(1,2) by (auto simp: bracket_def)
  define A where "A = a + (d - a) * w"
  define B where "B = b + (e - b) * w"
  define C where "C = c + (f - c) * w"
  have m: "A \<le> B" "B \<le> C" using convex_mono [OF w] o by (simp_all add: A_def B_def C_def)
  have "0 \<le> A" "C \<le> 1"
    using convex_bounds(1) [OF w, of a d] convex_bounds(2) [OF w, of c f] o by (simp_all add: A_def C_def)
  moreover have lin: "linear_opt (Some a) (Some d) w = Some A" "linear_opt (Some b) (Some e) w = Some B"
      "linear_opt (Some c) (Some f) w = Some C"
    by (simp_all add: linear_opt_def A_def B_def C_def)
  then have "conservative_quality (Some a) (Some d) w = Some (min a A)"
      "conservative_quality (Some b) (Some e) w = Some (min b B)"
      "conservative_quality (Some c) (Some f) w = Some (min c C)"
      "conservative_risk (Some a) (Some d) w = Some (max a A)"
      "conservative_risk (Some b) (Some e) w = Some (max b B)"
      "conservative_risk (Some c) (Some f) w = Some (max c C)"
    by (simp_all add: conservative_quality_def conservative_risk_def)
  ultimately show ?thesis using mix m o unfolding v bracket_def by (auto simp: min_def max_def)
qed

lemma selection_from_metrics:
  assumes "(h, m) \<in> set (sn_metrics (select_scope r rq scs acc))"
  shows "\<exists>rows. m = metrics rows (lr_confidence r)"
  using assms
proof (induction scs arbitrary: acc)
  case Nil
  then show ?case by (auto simp: scope_metrics_def)
next
  case (Cons sc scs)
  show ?case
  proof (cases "scope_valid r (scope_metrics r rq sc)")
    case True
    then show ?thesis using Cons.prems by (auto simp: Let_def scope_metrics_def)
  next
    case False
    then show ?thesis using Cons by (auto simp: Let_def)
  qed
qed

lemma metrics_for_brackets:
  assumes "sel = select_scope r rq scs acc" and "metrics_for sel h = Some m"
  shows "\<exists>rows. m = metrics rows (lr_confidence r)"
  using assms selection_from_metrics
  by (auto simp: metrics_for_def bind_eq_Some_conv dest!: map_of_SomeD)

text \<open>A blend of intervals of stored metrics is an interval, whichever of the two blends is used.\<close>

lemma blended_bracket:
  assumes l: "\<And>m. l = Some m \<Longrightarrow> \<exists>rows. m = metrics rows c" and u: "\<And>m. u = Some m \<Longrightarrow> \<exists>rows. m = metrics rows c"
    and br: "\<And>rows. bracket (fl (metrics rows c)) (f (metrics rows c)) (fh (metrics rows c))"
    and w: "0 \<le> w" "w \<le> 1" and mix: "mix = conservative_quality \<or> mix = conservative_risk"
  shows "bracket (blended mix same l u w fl) (blended mix same l u w f) (blended mix same l u w fh)"
proof -
  have one: "bracket (Option.bind x fl) (Option.bind x f) (Option.bind x fh)"
    if "\<And>m. x = Some m \<Longrightarrow> \<exists>rows. m = metrics rows c" for x
    using that br by (cases x) (auto simp: bracket_def)
  show ?thesis
    using one [OF l] mixed_bracket [OF one [OF l] one [OF u] w mix] by (simp add: blended_def)
qed

section \<open>What a usable model has passed\<close>

lemma select_valid:
  assumes "sn_valid (select_scope r rq scs acc)" and "\<not> sn_valid acc"
  shows "\<exists>sc \<in> set scs. sn_scope (select_scope r rq scs acc) = sc
    \<and> sn_metrics (select_scope r rq scs acc) = scope_metrics r rq sc \<and> scope_valid r (scope_metrics r rq sc)"
  using assms
proof (induction scs arbitrary: acc)
  case (Cons sc scs)
  show ?case
  proof (cases "scope_valid r (scope_metrics r rq sc)")
    case False
    let ?acc = "let ms = scope_metrics r rq sc; raw = keyed_counts mt_count ms;
          acc1 = acc\<lparr>
            sn_horizon_counts := sn_horizon_counts acc @ [(ls_name sc, raw)],
            sn_effective_counts := sn_effective_counts acc @ [(ls_name sc, keyed_counts mt_effective_count ms)],
            sn_candidate_counts := sn_candidate_counts acc @ [(ls_name sc, least_count (map snd raw))]\<rparr>
          in (if ls_name sc \<noteq> ''global'' then acc1\<lparr>sn_skipped := sn_skipped acc1 @ [skip_note sc ms]\<rparr> else acc1)"
    have step: "select_scope r rq (sc # scs) acc = select_scope r rq scs ?acc"
      using False by (simp add: Let_def)
    have "\<not> sn_valid ?acc" using Cons.prems(2) by (simp add: Let_def)
    from Cons.IH [OF Cons.prems(1) [unfolded step] this] show ?thesis
      unfolding step by (meson list.set_intros(2))
  qed (simp add: Let_def)
qed simp

lemma new_resolver_fields:
  "lr_settings (new_resolver cycles s) = s"
  "(lr_reference_lower_horizon_seconds (new_resolver cycles s), lr_reference_upper_horizon_seconds (new_resolver cycles s),
    lr_interpolation_weight (new_resolver cycles s))
     = reference_horizons (lr_effective_reference_ms (new_resolver cycles s))
         (lr_available_horizons (new_resolver cycles s))"
  "lr_available_horizons (new_resolver cycles s) = horizons_of (concat (map sc_observations cycles))"
  "lr_confidence (new_resolver cycles s) = min 0.999999 (max 0.500001 (se_empirical_probability_confidence_level s))"
  by (simp_all add: new_resolver_def Let_def split: prod.split)

lemma reference_both: "reference_horizons eff hs = (lo, up, w) \<Longrightarrow> lo = None \<longleftrightarrow> up = None"
  by (auto simp: reference_horizons_def Let_def split: option.splits if_splits)

text \<open>The weight of every resolver is a convex one, whether or not its horizons are there.\<close>

lemma resolver_weight:
  "0 \<le> lr_interpolation_weight (new_resolver cycles s)" "lr_interpolation_weight (new_resolver cycles s) \<le> 1"
proof -
  let ?r = "new_resolver cycles s"
  obtain lo up w where r: "reference_horizons (lr_effective_reference_ms ?r) (lr_available_horizons ?r) = (lo, up, w)"
    by (metis prod_cases3)
  have w: "lr_interpolation_weight ?r = w" using new_resolver_fields(2) [of cycles s] r by simp
  have "0 \<le> w \<and> w \<le> 1"
  proof (cases lo)
    case None
    then show ?thesis using r
      by (auto simp: reference_horizons_def Let_def split: option.splits if_splits)
  next
    case (Some l)
    then obtain u where "up = Some u" using reference_both [OF r] by auto
    then show ?thesis
      using reference_horizons_sound(4,5) [of "lr_effective_reference_ms ?r" "lr_available_horizons ?r" l u w] r Some
      by (simp add: new_resolver_fields(3) horizons_sorted(1))
  qed
  then show "0 \<le> lr_interpolation_weight ?r" "lr_interpolation_weight ?r \<le> 1" using w by simp_all
qed

lemma keyed_one: "keyed_counts f [(h, m)] = [(horizon_key h, f m)]"
  by (simp add: keyed_counts_def)

lemma keyed_two:
  "horizon_key h \<noteq> horizon_key k \<Longrightarrow> keyed_counts f [(h, m), (k, n)] = [(horizon_key h, f m), (horizon_key k, f n)]"
  by (simp add: keyed_counts_def)

lemma keyed_two_last: "(k, c) \<in> set (keyed_counts f [(h, m), (u, n)]) \<Longrightarrow> k = horizon_key u \<Longrightarrow> c = f n"
  by (auto simp: keyed_counts_def split: if_splits)

lemma keyed_two_has: "(horizon_key u, f n) \<in> set (keyed_counts f [(h, m), (u, n)])"
  by (auto simp: keyed_counts_def)

lemma least_count_le: "x \<in> set xs \<Longrightarrow> least_count xs \<le> x"
  by (auto simp: least_count_def)

text \<open>The keyed minimum bounds the count of the upper horizon, and of a lower one that prints differently.\<close>

lemma keyed_bounds:
  assumes "required_horizons r = (if l = u then [l] else [l, u])" and "h \<in> {l, u}" and "h = u \<or> horizon_key h \<noteq> horizon_key u"
  shows "least_count (map snd (keyed_counts f (scope_metrics r rq sc))) \<le> f (metrics (rows_at r rq h sc) (lr_confidence r))"
proof (cases "l = u")
  case True
  then show ?thesis using assms by (simp add: scope_metrics_def keyed_one least_count_def)
next
  case False
  have "f (metrics (rows_at r rq h sc) (lr_confidence r)) \<in> snd ` set (keyed_counts f (scope_metrics r rq sc))"
  proof (cases "h = u")
    case True
    then show ?thesis using False assms(1) keyed_two_has [of u f "metrics (rows_at r rq u sc) (lr_confidence r)" l]
      by (force simp: scope_metrics_def)
  next
    case h: False
    then show ?thesis using False assms keyed_two [of l u f] by (auto simp: scope_metrics_def)
  qed
  then show ?thesis by (intro least_count_le) simp
qed

lemma keyed_metrics: "h \<in> set (required_horizons r) \<Longrightarrow>
    (h, metrics (rows_at r rq h sc) (lr_confidence r)) \<in> set (scope_metrics r rq sc)"
  by (auto simp: scope_metrics_def)

text \<open>Each interval of a scope that passes is at most as wide as the configured maximum.\<close>

lemma widest_bounds:
  assumes "(h, m) \<in> set ms" and "widest ms \<le> max 0 w"
    and "(lo, hi) \<in> {(mt_pair_fill_low m, mt_pair_fill_high m), (mt_reserve_fill_low m, mt_reserve_fill_high m),
      (mt_capture_low m, mt_capture_high m)}"
    and "m = metrics rows conf" and "lo = Some a" and "hi = Some b"
  shows "b - a \<le> max 0 w"
proof -
  define xs where "xs = width (mt_pair_fill_low m) (mt_pair_fill_high m)
    @ width (mt_reserve_fill_low m) (mt_reserve_fill_high m) @ width (mt_capture_low m) (mt_capture_high m)"
  have m: "mt_max_ci_width m = greatest xs" unfolding xs_def assms(4) by (simp add: metrics_def Let_def)
  have x: "b - a \<in> set xs" using assms(3,5,6) by (auto simp: xs_def width_def)
  then have g: "greatest xs = Some (Max (set xs))" "b - a \<le> Max (set xs)" by (auto simp: greatest_def)
  have "ms \<noteq> []" using assms(1) by auto
  moreover have "(if Max (set xs) = 0 then 1 else Max (set xs))
      \<in> set (map (\<lambda>(_, m). case mt_max_ci_width m of None \<Rightarrow> 1 | Some w \<Rightarrow> if w = 0 then 1 else w) ms)"
    using assms(1) m g(1) by force
  ultimately have "(if Max (set xs) = 0 then 1 else Max (set xs)) \<le> widest ms"
    by (auto simp: widest_def intro: Max_ge)
  then show ?thesis using g(2) assms(2) by (auto split: if_splits)
qed

lemma new_resolver_observations: "lr_observations (new_resolver cycles s) = concat (map sc_observations cycles)"
  by (simp add: new_resolver_def Let_def split: prod.split)

lemma required_two:
  "lr_reference_lower_horizon_seconds r = Some l \<Longrightarrow> lr_reference_upper_horizon_seconds r = Some u \<Longrightarrow>
     required_horizons r = (if l = u then [l] else [l, u])"
  by (simp add: required_horizons_def)

text \<open>What a valid scope has passed, in terms of its rows at the two reference horizons.\<close>

lemma scope_passes:
  assumes l: "lr_reference_lower_horizon_seconds r = Some l" and u: "lr_reference_upper_horizon_seconds r = Some u"
    and v: "scope_valid r (scope_metrics r rq sc)"
  defines "eff \<equiv> max 1 (se_empirical_latency_min_effective_samples (lr_settings r))"
  shows "\<forall>h \<in> {l, u}. eff \<le> int (length (cluster_numeric (rows_at r rq h sc) pair_adverse_selection_bps True))
      \<and> eff \<le> int (length (cluster_numeric (rows_at r rq h sc) so_hedge_recovery_loss_proxy_bps True))"
    and "\<forall>h \<in> {l, u}. \<forall>P \<in> {\<lambda>r. truth (so_pair_fillable r), \<lambda>r. truth (so_pair_fillable_with_reserve r), is_capture}. \<forall>a b.
      cp_lower (cluster_probability (rows_at r rq h sc) P False (lr_confidence r)) = Some a \<longrightarrow>
      cp_upper (cluster_probability (rows_at r rq h sc) P False (lr_confidence r)) = Some b \<longrightarrow>
      b - a \<le> max 0 (se_empirical_probability_max_ci_width (lr_settings r))"
    and "\<forall>h \<in> {l, u}. h = u \<or> horizon_key h \<noteq> horizon_key u \<longrightarrow>
      max 1 (se_empirical_latency_min_samples (lr_settings r)) \<le> int (length (rows_at r rq h sc))
      \<and> eff \<le> int (cp_count (cluster_probability (rows_at r rq h sc) (\<lambda>r. truth (so_pair_fillable r)) False (lr_confidence r)))"
proof -
  let ?ms = "scope_metrics r rq sc" and ?m = "\<lambda>h. metrics (rows_at r rq h sc) (lr_confidence r)"
  note req = required_two [OF l u]
  have in_ms: "(h, ?m h) \<in> set ?ms" if "h \<in> {l, u}" for h
    using that by (intro keyed_metrics) (auto simp: req)
  have fields: "mt_adverse_count (?m h) = length (cluster_numeric (rows_at r rq h sc) pair_adverse_selection_bps True)"
      "mt_recovery_loss_count (?m h) = length (cluster_numeric (rows_at r rq h sc) so_hedge_recovery_loss_proxy_bps True)"
      "mt_count (?m h) = length (rows_at r rq h sc)"
      "mt_effective_count (?m h) = cp_count (cluster_probability (rows_at r rq h sc) (\<lambda>r. truth (so_pair_fillable r)) False (lr_confidence r))"
      for h by (simp_all add: metrics_def Let_def)
  have tails: "eff \<le> int (mt_adverse_count (?m h)) \<and> eff \<le> int (mt_recovery_loss_count (?m h))" if h: "h \<in> {l, u}" for h
  proof -
    have "least_count (map (mt_adverse_count \<circ> snd) ?ms) \<le> mt_adverse_count (?m h)"
        "least_count (map (mt_recovery_loss_count \<circ> snd) ?ms) \<le> mt_recovery_loss_count (?m h)"
      using in_ms [OF h] by (force intro: least_count_le)+
    then show ?thesis using v by (auto simp: scope_valid_def Let_def eff_def)
  qed
  then show "\<forall>h \<in> {l, u}. eff \<le> int (length (cluster_numeric (rows_at r rq h sc) pair_adverse_selection_bps True))
      \<and> eff \<le> int (length (cluster_numeric (rows_at r rq h sc) so_hedge_recovery_loss_proxy_bps True))"
    unfolding fields by blast
  have narrow: "widest ?ms \<le> max 0 (se_empirical_probability_max_ci_width (lr_settings r))"
    using v by (simp add: scope_valid_def Let_def)
  show "\<forall>h \<in> {l, u}. \<forall>P \<in> {\<lambda>r. truth (so_pair_fillable r), \<lambda>r. truth (so_pair_fillable_with_reserve r), is_capture}. \<forall>a b.
      cp_lower (cluster_probability (rows_at r rq h sc) P False (lr_confidence r)) = Some a \<longrightarrow>
      cp_upper (cluster_probability (rows_at r rq h sc) P False (lr_confidence r)) = Some b \<longrightarrow>
      b - a \<le> max 0 (se_empirical_probability_max_ci_width (lr_settings r))"
  proof (intro ballI allI impI)
    fix h P a b
    assume h: "h \<in> {l, u}" and P: "P \<in> {\<lambda>r. truth (so_pair_fillable r), \<lambda>r. truth (so_pair_fillable_with_reserve r), is_capture}"
      and ab: "cp_lower (cluster_probability (rows_at r rq h sc) P False (lr_confidence r)) = Some a"
        "cp_upper (cluster_probability (rows_at r rq h sc) P False (lr_confidence r)) = Some b"
    show "b - a \<le> max 0 (se_empirical_probability_max_ci_width (lr_settings r))"
      by (rule widest_bounds [OF in_ms [OF h] narrow _ refl ab])
        (use P in \<open>auto simp: metrics_def Let_def\<close>)
  qed
  have "max 1 (se_empirical_latency_min_samples (lr_settings r)) \<le> int (mt_count (?m h)) \<and> eff \<le> int (mt_effective_count (?m h))"
    if h: "h \<in> {l, u}" "h = u \<or> horizon_key h \<noteq> horizon_key u" for h
    using v keyed_bounds [OF req h, of mt_count rq sc] keyed_bounds [OF req h, of mt_effective_count rq sc]
    by (auto simp: scope_valid_def Let_def eff_def)
  then show "\<forall>h \<in> {l, u}. h = u \<or> horizon_key h \<noteq> horizon_key u \<longrightarrow>
      max 1 (se_empirical_latency_min_samples (lr_settings r)) \<le> int (length (rows_at r rq h sc))
      \<and> eff \<le> int (cp_count (cluster_probability (rows_at r rq h sc) (\<lambda>r. truth (so_pair_fillable r)) False (lr_confidence r)))"
    unfolding fields by blast
qed

lemma horizon_counts:
  assumes l: "lr_reference_lower_horizon_seconds r = Some l" and u: "lr_reference_upper_horizon_seconds r = Some u"
    and "sn_metrics sel = scope_metrics r rq sc"
  shows "lm_lower_horizon_sample_count (resolved_model r rq sel) = length (rows_at r rq l sc)"
    and "lm_upper_horizon_sample_count (resolved_model r rq sel) = length (rows_at r rq u sc)"
proof -
  have "metrics_for sel (Some l) = Some (metrics (rows_at r rq l sc) (lr_confidence r))"
      "metrics_for sel (Some u) = Some (metrics (rows_at r rq u sc) (lr_confidence r))"
    using l u by (auto simp: metrics_for_def assms(3) scope_metrics_def required_horizons_def)
  then show "lm_lower_horizon_sample_count (resolved_model r rq sel) = length (rows_at r rq l sc)"
    and "lm_upper_horizon_sample_count (resolved_model r rq sel) = length (rows_at r rq u sc)"
    using l u by (auto simp: resolved_model_def Let_def count_of_def metrics_def)
qed

end
