(* ===== verification/Props_Latency.thy ===== *)
theory Props_Latency
  imports Latency Capacity Fixtures
begin

text \<open>
  The properties of the shadow evidence and of the empirical latency model, with witnesses.
\<close>

section \<open>Shadow evidence\<close>

text \<open>
  The shadow attribution measures a book as the executor does: for any order the executor
  can price, the shadow metrics exist and report the same best price, the same slippage and
  the same visible quantity.
\<close>

theorem shadow_metrics_agree:
  assumes "valid_book b" and "estimate_market_order_quantity b (if sd = LONG then BUY else SELL) q full = Inr e"
  shows "\<exists>m. book_metrics_of b sd (Some q) = Inr m \<and> bm_slippage_bps m = Some (qe_slippage_bps e)
    \<and> bm_best_price m = qe_best_price e
    \<and> bm_available_base_quantity m = max_executable_quantity b (if sd = LONG then BUY else SELL)"
proof -
  obtain m where m: "book_metrics_of b sd (Some q) = Inr m" using metrics_exist [OF assms(1)] by blast
  then show ?thesis using metrics_agree [OF assms(2) refl m] by blast
qed

theorem shadow_metrics_agree_witness:
  "\<exists>m. book_metrics_of fx_spot_book LONG (Some 60) = Inr m \<and> bm_available_base_quantity m = 100"
proof -
  have v: "valid_book fx_spot_book" using fx_books_valid by (simp add: fx_books_def)
  have "\<exists>e. estimate_market_order_quantity fx_spot_book BUY 60 True = Inr e"
    by (rule quantity_estimate_exists [OF valid_book_side [OF v]])
      (simp_all add: max_executable_quantity_def book_levels_def fx_spot_book_def)
  then obtain e where "estimate_market_order_quantity fx_spot_book (if LONG = LONG then BUY else SELL) 60 True = Inr e"
    by auto
  from shadow_metrics_agree [OF v this] show ?thesis
    by (auto simp: max_executable_quantity_def book_levels_def fx_spot_book_def)
qed

text \<open>
  The reconstructed fill state is consistent: fractions ordered in the unit interval, the
  unhedged part their difference, a loss only on an unhedged part; and it agrees with the
  boolean reconstruction on the reserve and wherever that calls the pair fillable.
\<close>

theorem fill_state_sound:
  assumes "legs \<noteq> []" and "reconstruct_partial_fill_state legs reserve = fs"
    and "reconstruct_pair_fill_state legs reserve = (full, with_reserve, recovery)"
  shows "0 \<le> fs_pair_fill_fraction fs \<and> fs_pair_fill_fraction fs \<le> fs_max_leg_fill_fraction fs
    \<and> fs_max_leg_fill_fraction fs \<le> 1
    \<and> fs_unhedged_fraction fs = fs_max_leg_fill_fraction fs - fs_pair_fill_fraction fs
    \<and> 0 \<le> fs_recovery_loss_proxy_bps fs
    \<and> (fs_unhedged_fraction fs = 0 \<longrightarrow> fs_recovery_loss_proxy_bps fs = 0)
    \<and> (fs_partial_fill_state fs \<longleftrightarrow> \<not> fs_pair_fillable fs \<or> fs_hedge_recovery_required fs)
    \<and> (full \<longrightarrow> fs_pair_fillable fs \<and> \<not> fs_partial_fill_state fs)
    \<and> fs_pair_fillable_with_reserve fs = with_reserve \<and> (with_reserve \<longrightarrow> full)"
proof -
  note b = fill_state_bounds [OF assms(2)]
  have one: "Min (set (map fill_fraction legs)) = 1" "Max (set (map fill_fraction legs)) = 1"
    if "\<forall>l \<in> set legs. fill_fraction l = 1"
  proof -
    have "set (map fill_fraction legs) = {1}" using that assms(1) by (auto simp: image_iff ex_in_conv)
    then show "Min (set (map fill_fraction legs)) = 1" "Max (set (map fill_fraction legs)) = 1" by simp_all
  qed
  note eq = pair_state_eq [OF assms(1,3)]
  have full: "\<forall>l \<in> set legs. fill_fraction l = 1" if full
    using that eq(1) by (auto simp: list_all_iff at_least_def fill_fraction_def split: option.splits)
  have "full \<longrightarrow> fs_pair_fillable fs \<and> \<not> fs_partial_fill_state fs"
  proof
    assume full
    then show "fs_pair_fillable fs \<and> \<not> fs_partial_fill_state fs"
      using assms(2) one [OF full] assms(1)
      by (auto simp: reconstruct_partial_fill_state_def Let_def simp del: set_map)
  qed
  moreover have "fs_pair_fillable_with_reserve fs = with_reserve"
    using assms(1,2) eq(2) by (auto simp: reconstruct_partial_fill_state_def Let_def)
  moreover have "with_reserve \<longrightarrow> full"
    using eq at_least_mono [of "max 1 reserve" _ 1] by (auto simp: list_all_iff)
  ultimately show ?thesis using b by blast
qed

definition fx_shadow_leg :: "side \<Rightarrow> real \<Rightarrow> shadow_leg_attribution" where
  "fx_shadow_leg sd multiple = \<lparr>la_venue = ''Coinbase'', la_asset = ''BTC'', la_market_kind = SPOT,
     la_side = sd, la_symbol = None, la_contract_key = None, la_initial_best_price = Some 100,
     la_verification_best_price = Some 101, la_adverse_selection_bps = Some 100,
     la_initial_spread_bps = None, la_verification_spread_bps = None,
     la_initial_available_depth_usd = None, la_verification_available_depth_usd = None,
     la_initial_available_base_quantity = None, la_verification_available_base_quantity = None,
     la_initial_depth_multiple = Some 2, la_verification_depth_multiple = Some multiple,
     la_initial_slippage_bps = Some 1, la_verification_slippage_bps = Some 3\<rparr>"

theorem fill_state_sound_witness:
  "fs_unhedged_fraction (reconstruct_partial_fill_state [fx_shadow_leg LONG 2, fx_shadow_leg SHORT (1 / 2)] 1)
     = fs_max_leg_fill_fraction (reconstruct_partial_fill_state [fx_shadow_leg LONG 2, fx_shadow_leg SHORT (1 / 2)] 1)
       - fs_pair_fill_fraction (reconstruct_partial_fill_state [fx_shadow_leg LONG 2, fx_shadow_leg SHORT (1 / 2)] 1)
   \<and> \<not> fs_pair_fillable_with_reserve (reconstruct_partial_fill_state [fx_shadow_leg LONG 2, fx_shadow_leg SHORT (1 / 2)] 1)"
proof -
  let ?legs = "[fx_shadow_leg LONG 2, fx_shadow_leg SHORT (1 / 2)]"
  have "reconstruct_pair_fill_state ?legs 1 = (False, False, True)"
    by (simp add: reconstruct_pair_fill_state_def fx_shadow_leg_def at_least_def Let_def)
  from fill_state_sound [OF _ refl this] show ?thesis by simp
qed

text \<open>
  A rejection for its books is classified as a data failure: whenever a two-legged
  opportunity is rejected for a missing, stale or skewed book, the failure of every one of its
  sizes is attributed to the provider, whatever else the observation says.
\<close>

theorem book_rejections_are_data_failures:
  assumes "length (op_legs opp) = 2" and "\<not> admissible opp books s now"
    and "qualify_opportunity opp books s ns now lm resolver = Inr ox" and "t \<in> set (ox_tiers ox)"
  shows "classify_shadow_failure present failed (Some t) itier divergence slip_limit div_limit
    = STALE_DATA_PROVIDER_FAILURE"
proof -
  obtain reason where reason: "prepare_sizing opp books s now lm resolver = Inr (Inl reason)"
    using prepare_rejects [OF assms(2)] by blast
  then obtain ms where "reject_all opp now ms reason = Inr ox"
    using assms(3) by (auto simp: qualify_opportunity_def Let_def)
  from reject_all_fields(1) [OF this] have t: "ct_rejection_reason t = Some reason" using assms(4) by blast
  have parts: "contains ''missing order book'' (lower ''missing order book(s): '')"
      "contains ''stale'' (lower ''stale order book'')" "contains ''time skew'' (lower ''order-book time skew '')"
    by code_simp+
  have ne: "reason \<noteq> []" using reason assms(1) by (auto simp: prepare_sizing_def Let_def split: if_splits)
  have "(\<exists>x. reason = ''missing order book(s): '' @ x) \<or> reason = ''stale order book''
      \<or> (\<exists>x. reason = ''order-book time skew '' @ x)"
    using reason assms(1) by (auto simp: prepare_sizing_def Let_def split: if_splits)
  then have "data_failure (lower reason)"
  proof (elim disjE exE)
    fix x assume "reason = ''missing order book(s): '' @ x"
    then show ?thesis
      using contains_append(1) [OF parts(1), of "lower x"] by (simp only: data_failure_def lower_append simp_thms)
  next
    assume "reason = ''stale order book''"
    then show ?thesis using parts(2) by (simp only: data_failure_def simp_thms)
  next
    fix x assume "reason = ''order-book time skew '' @ x"
    then show ?thesis
      using contains_append(1) [OF parts(3), of "lower x"] by (simp only: data_failure_def lower_append simp_thms)
  qed
  then show ?thesis using ne by (simp add: classify_shadow_failure_def reason_text_def t str_or_def Let_def)
qed

theorem book_rejections_are_data_failures_witness:
  "\<exists>ox t. qualify_opportunity fx_opportunity [fx_spot_book] default_settings [1000] 2000000 None None = Inr ox
     \<and> ox_tiers ox = [t]
     \<and> classify_shadow_failure True False (Some t) fx_tier None 1 5 = STALE_DATA_PROVIDER_FAILURE"
proof -
  have "\<exists>ox t. qualify_opportunity fx_opportunity [fx_spot_book] default_settings [1000] 2000000 None None = Inr ox
      \<and> ox_tiers ox = [t]"
    by (simp add: qualify_opportunity_def prepare_sizing_def missing_books_def fx_defs dict_by_def
        book_key_def leg_key_def reject_all_def rejected_tier_def executability_of_def Let_def)
  then obtain ox t where ox: "qualify_opportunity fx_opportunity [fx_spot_book] default_settings [1000]
    2000000 None None = Inr ox" "ox_tiers ox = [t]" by blast
  have na: "\<not> admissible fx_opportunity [fx_spot_book] default_settings 2000000"
    by (simp add: admissible_def fx_defs dict_by_def book_key_def leg_key_def Let_def)
  have "classify_shadow_failure True False (Some t) fx_tier None 1 5 = STALE_DATA_PROVIDER_FAILURE"
    by (rule book_rejections_are_data_failures [OF _ na ox(1)]) (simp_all add: ox(2) fx_opportunity_def)
  then show ?thesis using ox by blast
qed

section \<open>The empirical latency model\<close>

text \<open>
  A measured cycle for the witnesses: one opportunity re-scanned after one second, with its
  latencies and both legs attributed, and settings that one such measurement satisfies.
\<close>

definition fx_observation :: shadow_observation where
  "fx_observation = \<lparr>so_shadow_id = ''shadow-1'', so_initial_scan_id = ''scan-1'',
     so_verification_scan_id = ''scan-2'', so_opportunity_signature = ''sig-1'',
     so_opportunity_id = ''op-1'', so_strategy = SPOT_PERP_BASIS, so_asset = ''BTC'',
     so_notional_usd_per_leg = 1000, so_target_base_quantity = Some 10, so_started_at = 0,
     so_verified_at = 1000000, so_delay_seconds = 1, so_initial_scan_latency_ms = Some 100,
     so_verification_scan_latency_ms = Some 100, so_initial_data_path_latency_ms = Some 100,
     so_verification_data_path_latency_ms = Some 100, so_initial_net_annualized_return = 1 / 2,
     so_initial_capacity_notional_usd = 5000, so_survived = True, so_pair_fillable = Some True,
     so_pair_fillable_with_reserve = Some True, so_hedge_recovery_required = Some False,
     so_pair_fill_fraction = Some 1, so_max_leg_fill_fraction = Some 1, so_unhedged_fraction = Some 0,
     so_partial_fill_state = Some False, so_hedge_recovery_loss_proxy_bps = Some 0,
     so_queue_position_supported = False, so_verification_net_annualized_return = Some (1 / 2),
     so_outcome = SURVIVED, so_reason = None, so_venue_pair = Some ''Coinbase|HlPerp'',
     so_time_of_day_bucket = None, so_initial_expected_return_bucket = None,
     so_initial_gross_edge_bps_per_hour = None, so_verification_gross_edge_bps_per_hour = None,
     so_gross_edge_decay_bps_per_hour = None, so_initial_total_modeled_cost_bps = None,
     so_verification_total_modeled_cost_bps = None, so_cost_expansion_bps = None,
     so_initial_entry_slippage_bps = None, so_verification_entry_slippage_bps = None,
     so_slippage_expansion_bps = None, so_verification_capacity_notional_usd = None,
     so_capacity_deterioration_usd = None, so_edge_decay_annualized = None,
     so_hedge_leg_divergence_bps = None, so_failure_cause = None,
     so_leg_attribution = [fx_shadow_leg LONG 2, fx_shadow_leg SHORT 2], so_paper_only = True\<rparr>"

definition fx_cycle :: shadow_cycle where
  "fx_cycle = \<lparr>sc_cycle_id = ''cycle-1'', sc_started_at = 0, sc_completed_at = 1000000,
     sc_delay_seconds = 1, sc_initial_scan_id = ''scan-1'', sc_verification_scan_id = ''scan-2'',
     sc_verification_scan_ids = [''scan-2''], sc_horizons_seconds = [1],
     sc_observations = [fx_observation], sc_paper_only = True\<rparr>"

definition fx_latency_settings :: settings where
  "fx_latency_settings = default_settings\<lparr>se_empirical_latency_min_samples := 1,
     se_empirical_latency_min_scan_samples := 1, se_empirical_latency_min_effective_samples := 1,
     se_empirical_probability_max_ci_width := 1\<rparr>"

lemma fx_clusters: "clusters [fx_observation] = [[fx_observation]]"
  by (simp add: clusters_def group_by_def cluster_key_def)

lemma fx_outcomes: "cluster_outcomes [fx_observation] P risk = [P fx_observation]"
  by (simp add: cluster_outcomes_def fx_clusters)

lemma fx_numeric: "cluster_numeric [fx_observation] f risk = (case f fx_observation of None \<Rightarrow> [] | Some v \<Rightarrow> [v])"
  by (simp add: cluster_numeric_def fx_clusters some_values_def Let_def split: option.split)

lemma fx_widths:
  "mt_max_ci_width (metrics [fx_observation] c) = Some w \<Longrightarrow> w \<le> 1"
  using metrics_brackets(1-3) [of "[fx_observation]" c]
  by (auto simp: metrics_def Let_def greatest_def bracket_def width_def split: if_splits)

lemma fx_counts:
  "mt_count (metrics [fx_observation] c) = 1" "mt_effective_count (metrics [fx_observation] c) = 1"
  "mt_adverse_count (metrics [fx_observation] c) = 1" "mt_recovery_loss_count (metrics [fx_observation] c) = 1"
proof -
  have "pair_adverse_selection_bps fx_observation \<noteq> None" "so_hedge_recovery_loss_proxy_bps fx_observation \<noteq> None"
    by (simp_all add: pair_adverse_selection_bps_def some_values_def fx_observation_def fx_shadow_leg_def)
  then show "mt_count (metrics [fx_observation] c) = 1" "mt_effective_count (metrics [fx_observation] c) = 1"
    "mt_adverse_count (metrics [fx_observation] c) = 1" "mt_recovery_loss_count (metrics [fx_observation] c) = 1"
    unfolding metrics_def Let_def lat_metrics.select_convs fx_numeric cluster_probability_def fx_outcomes
    by (simp_all add: wilson_def Let_def option.split_sel split: option.split)
qed

lemma fx_settings:
  "se_empirical_latency_enabled fx_latency_settings" "se_empirical_latency_min_samples fx_latency_settings = 1"
  "se_empirical_latency_min_scan_samples fx_latency_settings = 1"
  "se_empirical_latency_min_effective_samples fx_latency_settings = 1"
  "se_empirical_probability_max_ci_width fx_latency_settings = 1"
  "se_empirical_latency_quantile fx_latency_settings = 19 / 20"
  "se_expected_order_ack_latency_ms fx_latency_settings = 0"
  "se_expected_hedge_latency_ms fx_latency_settings = 750"
  by (simp_all add: fx_latency_settings_def default_settings_def)

lemma fx_observed:
  "sc_observations fx_cycle = [fx_observation]" "so_delay_seconds fx_observation = 1"
  "so_verification_data_path_latency_ms fx_observation = Some 100"
  "so_verification_scan_latency_ms fx_observation = Some 100" "so_pair_fillable fx_observation = Some True"
  by (simp_all add: fx_cycle_def fx_observation_def)

lemma fx_resolver:
  "lr_data_latency_samples (new_resolver [fx_cycle] fx_latency_settings) = [100]"
  "lr_effective_reference_ms (new_resolver [fx_cycle] fx_latency_settings) = Some 850"
  "lr_available_horizons (new_resolver [fx_cycle] fx_latency_settings) = [1]"
  "lr_reference_lower_horizon_seconds (new_resolver [fx_cycle] fx_latency_settings) = Some 1"
  "lr_reference_upper_horizon_seconds (new_resolver [fx_cycle] fx_latency_settings) = Some 1"
  "lr_observations (new_resolver [fx_cycle] fx_latency_settings) = [fx_observation]"
  by (simp_all add: new_resolver_def data_samples_def latest_by_scan_def fx_observed fx_settings
      effective_latency_ms_def quantile_def horizons_of_def sorted_unique_def reference_horizons_def Let_def ex_bool_eq)

abbreviation fx_request :: lat_request where
  "fx_request \<equiv> \<lparr>rq_strategy = None, rq_venue_pair = None, rq_asset = None, rq_notional = None\<rparr>"

lemma fx_scope:
  "scope_metrics (new_resolver [fx_cycle] fx_latency_settings) fx_request global_scope
     = [(1, metrics [fx_observation] (lr_confidence (new_resolver [fx_cycle] fx_latency_settings)))]"
  by (simp add: scope_metrics_def required_horizons_def fx_resolver rows_at_def scope_matches_def
      global_scope_def fx_observed all_bool_eq ex_bool_eq)

lemma fx_scope_valid:
  "scope_valid (new_resolver [fx_cycle] fx_latency_settings)
     (scope_metrics (new_resolver [fx_cycle] fx_latency_settings) fx_request global_scope)"
  unfolding scope_valid_def fx_scope Let_def new_resolver_fields(1)
  by (simp add: keyed_one least_count_def fx_counts required_horizons_def fx_resolver fx_settings widest_def
      fx_widths split: option.split)

lemma fx_model:
  "\<exists>m. resolve (new_resolver [fx_cycle] fx_latency_settings) None None None None None = Inr m
     \<and> lm_usable_for_qualification m"
proof -
  let ?r = "new_resolver [fx_cycle] fx_latency_settings"
  have sc: "scopes_of fx_request = [global_scope]" by (simp add: scopes_of_def truthy_def)
  have v: "sn_valid (select_scope ?r fx_request (scopes_of fx_request) empty_selection)"
    by (simp add: sc fx_scope_valid Let_def)
  define sel where "sel = select_scope ?r fx_request (scopes_of fx_request) empty_selection"
  have g: "sn_scope sel = global_scope" by (simp add: sel_def sc fx_scope_valid Let_def)
  have "refusal_reasons ?r sel = []"
    using v unfolding sel_def [symmetric]
    by (simp add: refusal_reasons_def fx_resolver new_resolver_fields(1) fx_settings)
  then have u: "lm_usable_for_qualification (resolved_model ?r fx_request sel)"
    by (simp add: resolved_model_def Let_def)
  have "latency_model_ok (resolved_model ?r fx_request sel)"
    using resolver_weight [of "[fx_cycle]" fx_latency_settings]
    by (simp add: latency_model_ok_def resolved_model_def Let_def g global_scope_def fx_resolver
        new_resolver_fields(1,4) min_def max_def)
  then show ?thesis using u by (simp add: resolve_def resolve_request_def sel_def Let_def)
qed

text \<open>
  In every model the resolver returns, each probability lies inside its confidence
  interval and both inside the unit interval, through clustering, the Wilson bounds and the
  interpolation between two horizons; without evidence all three are absent.
\<close>

theorem model_probabilities_bracketed:
  assumes "resolve (new_resolver cycles s) opp notional strategy pair asset = Inr m"
  shows "bracket (lm_pair_fill_ci_lower m) (lm_pair_fill_probability m) (lm_pair_fill_ci_upper m)
    \<and> bracket (lm_reserve_fill_ci_lower m) (lm_reserve_fill_probability m) (lm_reserve_fill_ci_upper m)
    \<and> bracket (lm_capture_ci_lower m) (lm_capture_probability m) (lm_capture_ci_upper m)
    \<and> bracket (lm_hedge_recovery_ci_lower m) (lm_hedge_recovery_probability m) (lm_hedge_recovery_ci_upper m)"
proof -
  let ?r = "new_resolver cycles s"
  obtain rq where m: "m = resolved_model ?r rq (select_scope ?r rq (scopes_of rq) empty_selection)"
    using assms by (auto simp: resolve_def resolve_request_def Let_def split: if_splits)
  define sel where "sel = select_scope ?r rq (scopes_of rq) empty_selection"
  have any: "\<exists>rows. x = metrics rows (lr_confidence ?r)" if "metrics_for sel h = Some x" for h x
    using metrics_for_brackets [OF sel_def that] .
  define w where "w = (if lr_reference_lower_horizon_seconds ?r = lr_reference_upper_horizon_seconds ?r then 0
    else lr_interpolation_weight ?r)"
  have w: "0 \<le> w" "w \<le> 1" using resolver_weight [of cycles s] by (simp_all add: w_def)
  define same where "same = (lr_reference_lower_horizon_seconds ?r = lr_reference_upper_horizon_seconds ?r)"
  define lo where "lo = metrics_for sel (lr_reference_lower_horizon_seconds ?r)"
  define up where "up = (if same then lo else metrics_for sel (lr_reference_upper_horizon_seconds ?r))"
  have up: "\<exists>rows. x = metrics rows (lr_confidence ?r)" if "up = Some x" for x
    using any that by (auto simp: up_def lo_def split: if_splits)
  have lo: "\<exists>rows. x = metrics rows (lr_confidence ?r)" if "lo = Some x" for x
    using any that by (simp add: lo_def)
  note br = blended_bracket [OF lo up _ w]
  have q: "conservative_quality = conservative_quality \<or> conservative_quality = conservative_risk"
    and k: "conservative_risk = conservative_quality \<or> conservative_risk = conservative_risk" by simp_all
  show ?thesis
    unfolding m resolved_model_def Let_def empirical_latency_model.select_convs sel_def [symmetric]
      same_def [symmetric] lo_def [symmetric] up_def [symmetric] w_def [folded same_def, symmetric]
    by (intro conjI br metrics_brackets q k)
qed

theorem model_probabilities_bracketed_witness:
  "\<exists>m. resolve (new_resolver [fx_cycle] fx_latency_settings) None None None None None = Inr m
     \<and> bracket (lm_capture_ci_lower m) (lm_capture_probability m) (lm_capture_ci_upper m)"
proof -
  obtain m where m: "resolve (new_resolver [fx_cycle] fx_latency_settings) None None None None None = Inr m"
    using fx_model by blast
  from model_probabilities_bracketed [OF this] show ?thesis using m by blast
qed

text \<open>
  C31: a model is offered to qualification only behind every gate.  When it is usable, the model
  is enabled, its effective latency is measured and reached by two measured horizons, and the
  weight interpolates between them.  At both horizons the rows are fillable observations, the
  clusters with an adverse-selection value and those with a recovery loss reach the effective
  minimum, and the confidence intervals of the pair-fill, reserve-fill and capture probabilities
  are no wider than the maximum.  Raw and effective samples reach their minima at the upper
  horizon, and at the lower one unless the two print alike: such horizons share one counter.
\<close>

theorem usable_model_gated:
  assumes run: "resolve (new_resolver cycles s) opp notional strategy pair asset = Inr m"
    and use: "lm_usable_for_qualification m"
  shows "\<exists>l u ms rows. se_empirical_latency_enabled s
    \<and> max 1 (se_empirical_latency_min_scan_samples s) \<le> int (lm_data_latency_sample_count m)
    \<and> lm_reference_lower_horizon_seconds m = Some l \<and> lm_reference_upper_horizon_seconds m = Some u
    \<and> lm_effective_decision_to_hedge_latency_ms m = Some ms
    \<and> {l, u} \<subseteq> set (horizons_of (concat (map sc_observations cycles)))
    \<and> 0 < l \<and> l \<le> u \<and> ms / 1000 \<le> u + 1 / 10 ^ 12
    \<and> 0 \<le> lm_interpolation_weight m \<and> lm_interpolation_weight m \<le> 1
    \<and> (l = u \<or> l + lm_interpolation_weight m * (u - l) = ms / 1000)
    \<and> (\<forall>h \<in> {l, u}. set (rows h) \<subseteq> {x \<in> set (concat (map sc_observations cycles)).
          \<bar>so_delay_seconds x - h\<bar> < 1 / 10 ^ 9 \<and> so_pair_fillable x \<noteq> None})
    \<and> lm_lower_horizon_sample_count m = length (rows l) \<and> lm_upper_horizon_sample_count m = length (rows u)
    \<and> (\<forall>h \<in> {l, u}. max 1 (se_empirical_latency_min_effective_samples s)
            \<le> int (length (cluster_numeric (rows h) pair_adverse_selection_bps True))
          \<and> max 1 (se_empirical_latency_min_effective_samples s)
            \<le> int (length (cluster_numeric (rows h) so_hedge_recovery_loss_proxy_bps True)))
    \<and> (\<forall>h \<in> {l, u}. \<forall>P \<in> {\<lambda>r. truth (so_pair_fillable r), \<lambda>r. truth (so_pair_fillable_with_reserve r), is_capture}. \<forall>a b.
          cp_lower (cluster_probability (rows h) P False (lm_confidence_level m)) = Some a \<longrightarrow>
          cp_upper (cluster_probability (rows h) P False (lm_confidence_level m)) = Some b \<longrightarrow>
          b - a \<le> max 0 (se_empirical_probability_max_ci_width s))
    \<and> (\<forall>h \<in> {l, u}. h = u \<or> horizon_key h \<noteq> horizon_key u \<longrightarrow>
          max 1 (se_empirical_latency_min_samples s) \<le> int (length (rows h))
          \<and> max 1 (se_empirical_latency_min_effective_samples s)
            \<le> int (cp_count (cluster_probability (rows h) (\<lambda>r. truth (so_pair_fillable r)) False (lm_confidence_level m))))"
proof -
  let ?r = "new_resolver cycles s"
  obtain rq where m: "m = resolved_model ?r rq (select_scope ?r rq (scopes_of rq) empty_selection)"
    using run by (auto simp: resolve_def resolve_request_def Let_def split: if_splits)
  define sel where "sel = select_scope ?r rq (scopes_of rq) empty_selection"
  have m: "m = resolved_model ?r rq sel" using m by (simp add: sel_def)
  have "refusal_reasons ?r sel = []" using use by (simp add: m resolved_model_def Let_def)
  then have gates: "se_empirical_latency_enabled s"
      "max 1 (se_empirical_latency_min_scan_samples s) \<le> int (length (lr_data_latency_samples ?r))"
      "lr_reference_lower_horizon_seconds ?r \<noteq> None" "lr_reference_upper_horizon_seconds ?r \<noteq> None" "sn_valid sel"
    by (auto simp: refusal_reasons_def new_resolver_fields(1) Let_def split: if_splits)
  obtain l u where lu: "lr_reference_lower_horizon_seconds ?r = Some l" "lr_reference_upper_horizon_seconds ?r = Some u"
    using gates(3,4) by blast
  define w where "w = lr_interpolation_weight ?r"
  have ref: "reference_horizons (lr_effective_reference_ms ?r) (lr_available_horizons ?r) = (Some l, Some u, w)"
    using new_resolver_fields(2) [of cycles s] lu by (simp add: w_def)
  have srt: "sorted (lr_available_horizons ?r)" by (simp add: new_resolver_fields(3) horizons_sorted(1))
  note snd = reference_horizons_sound [OF ref srt]
  obtain sc where sc: "sn_metrics sel = scope_metrics ?r rq sc" "scope_valid ?r (scope_metrics ?r rq sc)"
    using select_valid [OF gates(5) [unfolded sel_def]] by (auto simp: sel_def empty_selection_def)
  define rows where "rows = (\<lambda>h. rows_at ?r rq h sc)"
  have conf: "lm_confidence_level m = lr_confidence ?r" by (simp add: m resolved_model_def Let_def)
  have at_rows: "rows_at ?r rq h sc = rows h" for h by (simp add: rows_def)
  note passed = scope_passes [OF lu sc(2), unfolded at_rows conf [symmetric] new_resolver_fields(1)]
  have counted: "lm_lower_horizon_sample_count m = length (rows l)" "lm_upper_horizon_sample_count m = length (rows u)"
    unfolding m rows_def by (rule horizon_counts [OF lu sc(1)])+
  have fields: "lm_reference_lower_horizon_seconds m = Some l" "lm_reference_upper_horizon_seconds m = Some u"
      "lm_effective_decision_to_hedge_latency_ms m = lr_effective_reference_ms ?r"
      "lm_data_latency_sample_count m = length (lr_data_latency_samples ?r)"
      "lm_interpolation_weight m = (if l = u then 0 else w)"
    by (simp_all add: m resolved_model_def Let_def lu w_def)
  obtain ms where ms: "lr_effective_reference_ms ?r = Some ms" "ms / 1000 \<le> u + 1 / 10 ^ 12" using snd(6) by blast
  have weight: "0 \<le> lm_interpolation_weight m" "lm_interpolation_weight m \<le> 1"
      "l = u \<or> l + lm_interpolation_weight m * (u - l) = ms / 1000"
    using fields(5) snd(4,5,7) ms(1) by auto
  have hs: "0 < l" "{l, u} \<subseteq> set (horizons_of (concat (map sc_observations cycles)))"
    using horizons_sorted(3) snd(1,2) unfolding new_resolver_fields(3) by auto
  have sub: "\<forall>h \<in> {l, u}. set (rows h) \<subseteq> {x \<in> set (concat (map sc_observations cycles)).
      \<bar>so_delay_seconds x - h\<bar> < 1 / 10 ^ 9 \<and> so_pair_fillable x \<noteq> None}"
    by (auto simp: rows_def rows_at_def new_resolver_observations)
  have lo: "lm_effective_decision_to_hedge_latency_ms m = Some ms" using fields(3) ms(1) by simp
  have scans: "max 1 (se_empirical_latency_min_scan_samples s) \<le> int (lm_data_latency_sample_count m)"
    using gates(2) fields(4) by simp
  show ?thesis
    by (rule exI [of _ l], rule exI [of _ u], rule exI [of _ ms], rule exI [of _ rows], intro conjI)
      (fact gates(1) scans fields(1,2) lo hs snd(3) ms(2) weight sub counted passed)+
qed

theorem usable_model_gated_witness:
  "\<exists>m. resolve (new_resolver [fx_cycle] fx_latency_settings) None None None None None = Inr m
     \<and> lm_usable_for_qualification m \<and> 1 \<le> lm_upper_horizon_sample_count m"
proof -
  obtain m where m: "resolve (new_resolver [fx_cycle] fx_latency_settings) None None None None None = Inr m"
      "lm_usable_for_qualification m"
    using fx_model by blast
  from usable_model_gated [OF m] have "1 \<le> lm_upper_horizon_sample_count m" by fastforce
  then show ?thesis using m by blast
qed

end
