(* ===== verification/Market_Graph.thy ===== *)
theory Market_Graph
  imports Models Settings
begin

text \<open>
  market_graph.py: the canonical graph of assets, venues and instruments behind the raw
  quotes.  The dictionaries of the builder are association lists in insertion order; an
  instrument that the code mutates in place is the entry under its id.  The clock read when
  there is no quote at all is a parameter.
\<close>

section \<open>Nodes and edges\<close>

datatype graph_relationship = LISTS | REPRESENTS | ECONOMIC_EQUIVALENCE

fun graph_relationship_value :: "graph_relationship \<Rightarrow> string" where
  "graph_relationship_value LISTS = ''lists''"
| "graph_relationship_value REPRESENTS = ''represents''"
| "graph_relationship_value ECONOMIC_EQUIVALENCE = ''economic_equivalence''"

record canonical_asset =
  as_asset_id :: string
  as_symbol :: string

record canonical_venue =
  vn_venue_id :: string
  vn_name :: string

record canonical_instrument =
  ci_instrument_id :: string
  ci_asset_id :: string
  ci_venue_id :: string
  ci_venue :: string
  ci_asset :: string
  ci_market_kind :: market_kind
  ci_contract_key :: string
  ci_quote_currency :: "string option"
  ci_expires_at :: "time option"
  ci_provider_symbols :: "(string \<times> string) list"
  ci_sources :: "string list"
  ci_observed_at :: "time option"
  ci_latest_bid :: "real option"
  ci_latest_ask :: "real option"
  ci_latest_mid :: "real option"
  ci_latest_funding_rate :: "real option"
  ci_funding_interval_hours :: "real option"

record market_graph_edge =
  ge_edge_id :: string
  ge_source_id :: string
  ge_target_id :: string
  ge_relationship :: graph_relationship
  ge_metadata :: evidence

record market_graph_snapshot =
  mg_graph_version :: string
  mg_observed_at :: time
  mg_assets :: "canonical_asset list"
  mg_venues :: "canonical_venue list"
  mg_instruments :: "canonical_instrument list"
  mg_edges :: "market_graph_edge list"
  mg_price_observation_count :: nat
  mg_funding_observation_count :: nat

section \<open>Canonical identifiers\<close>

definition slug_char :: "char \<Rightarrow> bool" where
  "slug_char c = (let n = of_char c :: nat in (97 \<le> n \<and> n \<le> 122) \<or> (48 \<le> n \<and> n \<le> 57))"

text \<open>\<open>re.sub("[^a-z0-9]+", "-", s)\<close>; the flag says whether the last character was replaced.\<close>

fun dash_runs :: "bool \<Rightarrow> string \<Rightarrow> string" where
  "dash_runs inside [] = []"
| "dash_runs inside (c # cs) =
     (if slug_char c then c # dash_runs False cs
      else if inside then dash_runs True cs else CHR ''-'' # dash_runs True cs)"

definition strip_dashes :: "string \<Rightarrow> string" where
  "strip_dashes s = rev (dropWhile (\<lambda>c. c = CHR ''-'') (rev (dropWhile (\<lambda>c. c = CHR ''-'') s)))"

definition slug :: "string \<Rightarrow> string" where
  "slug v = (let normalized = strip_dashes (dash_runs False (lower (strip v)))
             in if normalized = [] then ''unknown'' else normalized)"

definition canonical_asset_id :: "string \<Rightarrow> string" where
  "canonical_asset_id asset = ''crypto:asset:'' @ upper (strip asset)"

definition canonical_venue_id :: "string \<Rightarrow> string" where
  "canonical_venue_id venue = ''crypto:venue:'' @ slug venue"

definition canonical_instrument_id :: "string \<Rightarrow> string \<Rightarrow> market_kind \<Rightarrow> string option \<Rightarrow> string" where
  "canonical_instrument_id venue asset kind contract =
     ''crypto:instrument:'' @ slug venue @ '':'' @ market_kind_value kind @ '':''
       @ upper (strip asset) @ '':'' @ slug (normalized_contract_key kind contract)"

definition edge_id :: "string \<Rightarrow> string \<Rightarrow> graph_relationship \<Rightarrow> string" where
  "edge_id source target rel = graph_relationship_value rel @ '':'' @ source @ ''->'' @ target"

definition instrument_id_for ::
  "market_graph_snapshot \<Rightarrow> string \<Rightarrow> string \<Rightarrow> market_kind \<Rightarrow> string option \<Rightarrow> string option" where
  "instrument_id_for g venue asset kind contract =
     (let expected = canonical_instrument_id venue asset kind contract
      in if list_ex (\<lambda>i. ci_instrument_id i = expected) (mg_instruments g) then Some expected else None)"

record graph_summary =
  gm_graph_version :: string
  gm_asset_count :: nat
  gm_venue_count :: nat
  gm_instrument_count :: nat
  gm_edge_count :: nat
  gm_price_observation_count :: nat
  gm_funding_observation_count :: nat
  gm_market_kinds :: "string list"

definition graph_summary_of :: "market_graph_snapshot \<Rightarrow> graph_summary" where
  "graph_summary_of g = \<lparr>gm_graph_version = mg_graph_version g, gm_asset_count = length (mg_assets g),
     gm_venue_count = length (mg_venues g), gm_instrument_count = length (mg_instruments g),
     gm_edge_count = length (mg_edges g), gm_price_observation_count = mg_price_observation_count g,
     gm_funding_observation_count = mg_funding_observation_count g,
     gm_market_kinds = sorted_unique (map (market_kind_value \<circ> ci_market_kind) (mg_instruments g))\<rparr>"

section \<open>The builder\<close>

record graph_state =
  gs_assets :: "(string \<times> canonical_asset) list"
  gs_venues :: "(string \<times> canonical_venue) list"
  gs_instruments :: "(string \<times> canonical_instrument) list"
  gs_edges :: "(string \<times> market_graph_edge) list"
  gs_observed_times :: "time list"

text \<open>\<open>d.setdefault(k, v)\<close>.\<close>

definition set_default :: "'k \<Rightarrow> 'v \<Rightarrow> ('k \<times> 'v) list \<Rightarrow> ('k \<times> 'v) list" where
  "set_default k v d = (if map_of d k = None then d @ [(k, v)] else d)"

text \<open>The keyword arguments of \<open>ensure_instrument\<close>.\<close>

record instrument_args =
  ia_venue :: string
  ia_asset :: string
  ia_market_kind :: market_kind
  ia_observed_at :: time
  ia_contract_key :: "string option"
  ia_quote_currency :: "string option"
  ia_expires_at :: "time option"

definition args_id :: "instrument_args \<Rightarrow> string" where
  "args_id a = canonical_instrument_id (ia_venue a) (ia_asset a) (ia_market_kind a)
     (Some (normalized_contract_key (ia_market_kind a) (ia_contract_key a)))"

definition upper_opt :: "string option \<Rightarrow> string option" where
  "upper_opt s = (if truthy s then map_option upper s else None)"

definition new_instrument :: "instrument_args \<Rightarrow> canonical_instrument" where
  "new_instrument a = \<lparr>ci_instrument_id = args_id a, ci_asset_id = canonical_asset_id (ia_asset a),
     ci_venue_id = canonical_venue_id (ia_venue a), ci_venue = ia_venue a, ci_asset = upper (ia_asset a),
     ci_market_kind = ia_market_kind a,
     ci_contract_key = normalized_contract_key (ia_market_kind a) (ia_contract_key a),
     ci_quote_currency = upper_opt (ia_quote_currency a), ci_expires_at = ia_expires_at a,
     ci_provider_symbols = [], ci_sources = [], ci_observed_at = Some (ia_observed_at a),
     ci_latest_bid = None, ci_latest_ask = None, ci_latest_mid = None,
     ci_latest_funding_rate = None, ci_funding_interval_hours = None\<rparr>"

definition refresh_instrument :: "instrument_args \<Rightarrow> canonical_instrument \<Rightarrow> canonical_instrument" where
  "refresh_instrument a i =
     (if (case ci_observed_at i of None \<Rightarrow> True | Some t \<Rightarrow> ia_observed_at a \<ge> t)
      then i\<lparr>ci_observed_at := Some (ia_observed_at a),
             ci_quote_currency := (if truthy (ia_quote_currency a) then upper_opt (ia_quote_currency a)
                                   else ci_quote_currency i),
             ci_expires_at := (if ia_expires_at a \<noteq> None then ia_expires_at a else ci_expires_at i)\<rparr>
      else i)"

definition plain_edge :: "string \<Rightarrow> string \<Rightarrow> graph_relationship \<Rightarrow> market_graph_edge" where
  "plain_edge source target rel = \<lparr>ge_edge_id = edge_id source target rel, ge_source_id = source,
     ge_target_id = target, ge_relationship = rel, ge_metadata = []\<rparr>"

definition add_edge :: "market_graph_edge \<Rightarrow> (string \<times> market_graph_edge) list \<Rightarrow> (string \<times> market_graph_edge) list" where
  "add_edge e d = set_default (ge_edge_id e) e d"

definition ensure_instrument :: "instrument_args \<Rightarrow> graph_state \<Rightarrow> graph_state" where
  "ensure_instrument a st =
     (let aid = canonical_asset_id (ia_asset a); vid = canonical_venue_id (ia_venue a); iid = args_id a
      in st\<lparr>
        gs_assets := set_default aid \<lparr>as_asset_id = aid, as_symbol = upper (ia_asset a)\<rparr> (gs_assets st),
        gs_venues := set_default vid \<lparr>vn_venue_id = vid, vn_name = ia_venue a\<rparr> (gs_venues st),
        gs_instruments := AList.map_entry iid (refresh_instrument a)
          (set_default iid (new_instrument a) (gs_instruments st)),
        gs_edges := add_edge (plain_edge iid aid REPRESENTS)
          (add_edge (plain_edge vid iid LISTS) (gs_edges st))\<rparr>)"

definition market_args :: "market_quote \<Rightarrow> instrument_args" where
  "market_args q = \<lparr>ia_venue = mq_venue q, ia_asset = mq_asset q, ia_market_kind = mq_market_kind q,
     ia_observed_at = mq_observed_at q, ia_contract_key = mq_contract_key q,
     ia_quote_currency = mq_quote_currency q, ia_expires_at = mq_expires_at q\<rparr>"

definition funding_args :: "funding_quote \<Rightarrow> instrument_args" where
  "funding_args q = \<lparr>ia_venue = fq_venue q, ia_asset = fq_asset q, ia_market_kind = PERPETUAL,
     ia_observed_at = fq_observed_at q, ia_contract_key = fq_contract_key q,
     ia_quote_currency = fq_quote_currency q, ia_expires_at = None\<rparr>"

definition add_source :: "string \<Rightarrow> string list \<Rightarrow> string list" where
  "add_source s xs = (if s \<notin> set xs then xs @ [s] else xs)"

definition market_details :: "market_quote \<Rightarrow> canonical_instrument \<Rightarrow> canonical_instrument" where
  "market_details q i =
     (let j = i\<lparr>ci_provider_symbols := AList.update (mq_source q) (mq_symbol q) (ci_provider_symbols i),
                ci_sources := add_source (mq_source q) (ci_sources i)\<rparr>
      in if ci_observed_at j = Some (mq_observed_at q)
         then j\<lparr>ci_latest_bid := mq_bid q, ci_latest_ask := mq_ask q, ci_latest_mid := Some (mq_mid q)\<rparr>
         else j)"

definition funding_details :: "funding_quote \<Rightarrow> canonical_instrument \<Rightarrow> canonical_instrument" where
  "funding_details q i =
     (let j = i\<lparr>ci_provider_symbols := set_default (fq_source q) (str_or (fq_symbol q) (upper (fq_asset q)))
                  (ci_provider_symbols i),
                ci_sources := add_source (fq_source q) (ci_sources i)\<rparr>
      in if ci_observed_at j = Some (fq_observed_at q)
         then j\<lparr>ci_latest_funding_rate := Some (fq_rate q), ci_funding_interval_hours := Some (fq_interval_hours q)\<rparr>
         else j)"

text \<open>The body of both loops: the time is noted, the instrument ensured, then detailed.\<close>

definition absorb ::
  "graph_state \<Rightarrow> instrument_args \<times> (canonical_instrument \<Rightarrow> canonical_instrument) \<Rightarrow> graph_state" where
  "absorb st q = (case q of (a, details) \<Rightarrow>
     let st1 = ensure_instrument a (st\<lparr>gs_observed_times := gs_observed_times st @ [ia_observed_at a]\<rparr>)
     in st1\<lparr>gs_instruments := AList.map_entry (args_id a) details (gs_instruments st1)\<rparr>)"

definition add_market_quote :: "graph_state \<Rightarrow> market_quote \<Rightarrow> graph_state" where
  "add_market_quote st q = absorb st (market_args q, market_details q)"

definition add_funding_quote :: "graph_state \<Rightarrow> funding_quote \<Rightarrow> graph_state" where
  "add_funding_quote st q = absorb st (funding_args q, funding_details q)"

definition empty_graph :: graph_state where
  "empty_graph = \<lparr>gs_assets = [], gs_venues = [], gs_instruments = [], gs_edges = [], gs_observed_times = []\<rparr>"

definition collected_graph :: "funding_quote list \<Rightarrow> market_quote list \<Rightarrow> graph_state" where
  "collected_graph fqs mqs = foldl add_funding_quote (foldl add_market_quote empty_graph mqs) fqs"

text \<open>All pairs of a list, the earlier element first.\<close>

fun later_pairs :: "'a list \<Rightarrow> ('a \<times> 'a) list" where
  "later_pairs [] = []"
| "later_pairs (x # xs) = map (Pair x) xs @ later_pairs xs"

definition opt_obj :: "string option \<Rightarrow> pyobj" where
  "opt_obj s = (case s of None \<Rightarrow> PNone | Some t \<Rightarrow> PStr t)"

definition equivalence_edge :: "string \<Rightarrow> canonical_instrument \<times> canonical_instrument \<Rightarrow> market_graph_edge" where
  "equivalence_edge aid p = (case p of (l, r) \<Rightarrow>
     (plain_edge (ci_instrument_id l) (ci_instrument_id r) ECONOMIC_EQUIVALENCE)\<lparr>ge_metadata := [
       (''asset_id'', PStr aid),
       (''left_quote_currency'', opt_obj (ci_quote_currency l)),
       (''right_quote_currency'', opt_obj (ci_quote_currency r)),
       (''quote_currency_match'', PBool (ci_quote_currency l = None \<or> ci_quote_currency r = None
          \<or> ci_quote_currency l = ci_quote_currency r))]\<rparr>)"

definition equivalence_edges :: "canonical_instrument list \<Rightarrow> market_graph_edge list" where
  "equivalence_edges is = concat (map (\<lambda>(aid, group).
     map (equivalence_edge aid) (later_pairs (sort_key ci_instrument_id group))) (group_by ci_asset_id is))"

definition linked_edges :: "graph_state \<Rightarrow> (string \<times> market_graph_edge) list" where
  "linked_edges st = foldl (\<lambda>d e. AList.update (ge_edge_id e) e d) (gs_edges st)
     (equivalence_edges (map snd (gs_instruments st)))"

definition build_market_graph :: "time \<Rightarrow> funding_quote list \<Rightarrow> market_quote list \<Rightarrow> market_graph_snapshot" where
  "build_market_graph now fqs mqs =
     (let st = collected_graph fqs mqs
      in \<lparr>mg_graph_version = ''v0.9.1'',
          mg_observed_at = (if gs_observed_times st = [] then now else Max (set (gs_observed_times st))),
          mg_assets = sort_key as_asset_id (map snd (gs_assets st)),
          mg_venues = sort_key vn_venue_id (map snd (gs_venues st)),
          mg_instruments = sort_key ci_instrument_id (map snd (gs_instruments st)),
          mg_edges = sort_key ge_edge_id (map snd (linked_edges st)),
          mg_price_observation_count = length mqs,
          mg_funding_observation_count = length fqs\<rparr>)"

section \<open>Identifiers identify\<close>

lemma split_last:
  assumes "c \<notin> set a" and "c \<notin> set b"
  shows "x @ c # a = y @ c # b \<longleftrightarrow> x = y \<and> a = b"
proof -
  have "x @ c # a = y @ c # b \<longleftrightarrow> rev (x @ c # a) = rev (y @ c # b)" by (simp only: rev_is_rev_conv)
  also have "\<dots> \<longleftrightarrow> rev a @ c # rev x = rev b @ c # rev y" by simp
  also have "\<dots> \<longleftrightarrow> x = y \<and> a = b" using assms by (subst split_first) auto
  finally show ?thesis .
qed

lemma dash_runs_chars: "c \<in> set (dash_runs b s) \<Longrightarrow> slug_char c \<or> c = CHR ''-''"
  by (induction b s rule: dash_runs.induct) (auto split: if_splits)

lemma strip_dashes_chars: "c \<in> set (strip_dashes s) \<Longrightarrow> c \<in> set s"
  by (auto simp: strip_dashes_def dest!: set_dropWhileD)

lemma slug_no_colon: "CHR '':'' \<notin> set (slug v)"
proof
  assume c: "CHR '':'' \<in> set (slug v)"
  have "CHR '':'' \<notin> set (dash_runs False (lower (strip v)))"
    using dash_runs_chars by (fastforce simp: slug_char_def)
  then have "CHR '':'' \<notin> set (strip_dashes (dash_runs False (lower (strip v))))"
    using strip_dashes_chars by blast
  then show False using c by (auto simp: slug_def Let_def split: if_splits)
qed

lemma kind_no_colon: "CHR '':'' \<notin> set (market_kind_value k)"
  by (cases k) auto

lemma instrument_id_eq:
  "canonical_instrument_id v a k c = canonical_instrument_id v' a' k' c'
    \<longleftrightarrow> slug v = slug v' \<and> k = k' \<and> upper (strip a) = upper (strip a')
        \<and> slug (normalized_contract_key k c) = slug (normalized_contract_key k' c')"
  unfolding canonical_instrument_id_def
  by (simp add: split_first split_last slug_no_colon kind_no_colon)

lemma normalized_contract_key_idem [simp]:
  "normalized_contract_key k (Some (normalized_contract_key k c)) = normalized_contract_key k c"
  by (cases k) (auto simp: normalized_contract_key_def str_or_def split: option.splits)

lemma args_id_canonical:
  "args_id a = canonical_instrument_id (ia_venue a) (ia_asset a) (ia_market_kind a) (ia_contract_key a)"
  by (simp add: args_id_def canonical_instrument_id_def)

lemma args_id_links:
  assumes "args_id a = args_id b"
  shows "canonical_venue_id (ia_venue a) = canonical_venue_id (ia_venue b)"
    and "canonical_asset_id (ia_asset a) = canonical_asset_id (ia_asset b)"
    and "ia_market_kind a = ia_market_kind b"
  using assms by (simp_all add: args_id_canonical instrument_id_eq canonical_venue_id_def canonical_asset_id_def)

section \<open>What the builder keeps\<close>

lemma set_default_keys [simp]: "fst ` set (set_default k v d) = insert k (fst ` set d)"
  by (auto simp: set_default_def map_of_eq_None_iff image_iff)

lemma set_default_distinct [simp]: "distinct (map fst d) \<Longrightarrow> distinct (map fst (set_default k v d))"
  by (auto simp: set_default_def map_of_eq_None_iff)

lemma set_default_set: "set d \<subseteq> set (set_default k v d)" "set (set_default k v d) \<subseteq> insert (k, v) (set d)"
  by (auto simp: set_default_def)

lemma map_entry_keys [simp]: "map fst (AList.map_entry k f d) = map fst d"
  by (induction d) auto

lemma map_entry_key_set [simp]: "fst ` set (AList.map_entry k f d) = fst ` set d"
  by (metis map_entry_keys set_map)

lemma map_entry_in:
  "distinct (map fst d) \<Longrightarrow> (k', w) \<in> set (AList.map_entry k f d)
    \<longleftrightarrow> (\<exists>v. (k', v) \<in> set d \<and> w = (if k' = k then f v else v))"
  by (induction d) (auto simp: image_iff)

text \<open>The time of the latest observation of an instrument.\<close>

definition latest_at :: "instrument_args list \<Rightarrow> string \<Rightarrow> time" where
  "latest_at qs k = Max (ia_observed_at ` {a \<in> set qs. args_id a = k})"

lemma latest_at_snoc:
  "latest_at (qs @ [a]) k =
     (if args_id a \<noteq> k then latest_at qs k
      else if k \<in> args_id ` set qs then max (latest_at qs k) (ia_observed_at a) else ia_observed_at a)"
proof -
  have fin: "finite {b \<in> set qs. args_id b = k}" by simp
  consider "args_id a \<noteq> k" | "args_id a = k" "k \<in> args_id ` set qs" | "args_id a = k" "k \<notin> args_id ` set qs" by blast
  then show ?thesis
  proof cases
    case 1
    then have "{b \<in> set (qs @ [a]). args_id b = k} = {b \<in> set qs. args_id b = k}" by auto
    then show ?thesis using 1 by (simp add: latest_at_def)
  next
    case 2
    then have "{b \<in> set (qs @ [a]). args_id b = k} = insert a {b \<in> set qs. args_id b = k}" by auto
    moreover have "{b \<in> set qs. args_id b = k} \<noteq> {}" using 2 by auto
    ultimately show ?thesis using 2 by (simp add: latest_at_def max.commute)
  next
    case 3
    then have "args_id b \<noteq> k" if "b \<in> set qs" for b using that by blast
    then have "{b \<in> set (qs @ [a]). args_id b = k} = {a}" using 3(1) by auto
    then show ?thesis using 3 by (simp add: latest_at_def)
  qed
qed

text \<open>A details function touches neither the identity nor the observation time.\<close>

definition keeps_identity :: "(canonical_instrument \<Rightarrow> canonical_instrument) \<Rightarrow> bool" where
  "keeps_identity f \<longleftrightarrow> (\<forall>i. ci_instrument_id (f i) = ci_instrument_id i \<and> ci_asset_id (f i) = ci_asset_id i
     \<and> ci_venue_id (f i) = ci_venue_id i \<and> ci_observed_at (f i) = ci_observed_at i
     \<and> ci_market_kind (f i) = ci_market_kind i)"

lemma details_keep_identity: "keeps_identity (market_details q)" "keeps_identity (funding_details f)"
  by (simp_all add: keeps_identity_def market_details_def funding_details_def Let_def)

text \<open>What holds of the entry of an instrument after the quotes \<open>qs\<close>.\<close>

definition sound_entry :: "instrument_args list \<Rightarrow> string \<times> canonical_instrument \<Rightarrow> bool" where
  "sound_entry qs e \<longleftrightarrow> ci_instrument_id (snd e) = fst e \<and> ci_observed_at (snd e) = Some (latest_at qs (fst e))
     \<and> (\<exists>a \<in> set qs. args_id a = fst e \<and> ci_asset_id (snd e) = canonical_asset_id (ia_asset a)
          \<and> ci_venue_id (snd e) = canonical_venue_id (ia_venue a) \<and> ci_market_kind (snd e) = ia_market_kind a)"

text \<open>The edges of the instruments seen: their ids, and that each is one of the two plain edges.\<close>

definition edge_keys :: "instrument_args list \<Rightarrow> string set" where
  "edge_keys qs = (\<lambda>a. edge_id (canonical_venue_id (ia_venue a)) (args_id a) LISTS) ` set qs
     \<union> (\<lambda>a. edge_id (args_id a) (canonical_asset_id (ia_asset a)) REPRESENTS) ` set qs"

definition linked_edge :: "instrument_args list \<Rightarrow> string \<times> market_graph_edge \<Rightarrow> bool" where
  "linked_edge qs x \<longleftrightarrow> (case x of (k, e) \<Rightarrow> ge_edge_id e = k \<and> (\<exists>a \<in> set qs.
     e = plain_edge (canonical_venue_id (ia_venue a)) (args_id a) LISTS
     \<or> e = plain_edge (args_id a) (canonical_asset_id (ia_asset a)) REPRESENTS))"

definition graph_inv :: "instrument_args list \<Rightarrow> graph_state \<Rightarrow> bool" where
  "graph_inv qs st \<longleftrightarrow>
     distinct (map fst (gs_instruments st)) \<and> fst ` set (gs_instruments st) = args_id ` set qs
     \<and> list_all (sound_entry qs) (gs_instruments st)
     \<and> distinct (map fst (gs_assets st)) \<and> fst ` set (gs_assets st) = (canonical_asset_id \<circ> ia_asset) ` set qs
     \<and> list_all (\<lambda>(k, x). as_asset_id x = k) (gs_assets st)
     \<and> distinct (map fst (gs_venues st)) \<and> fst ` set (gs_venues st) = (canonical_venue_id \<circ> ia_venue) ` set qs
     \<and> list_all (\<lambda>(k, x). vn_venue_id x = k) (gs_venues st)
     \<and> distinct (map fst (gs_edges st))
     \<and> fst ` set (gs_edges st) = edge_keys qs
     \<and> list_all (linked_edge qs) (gs_edges st)
     \<and> gs_observed_times st = map ia_observed_at qs"

lemma graph_inv_empty: "graph_inv [] empty_graph"
  by (simp add: graph_inv_def empty_graph_def edge_keys_def)

lemma refresh_fields [simp]:
  "ci_instrument_id (refresh_instrument a i) = ci_instrument_id i"
  "ci_asset_id (refresh_instrument a i) = ci_asset_id i"
  "ci_venue_id (refresh_instrument a i) = ci_venue_id i"
  "ci_market_kind (refresh_instrument a i) = ci_market_kind i"
  "ci_observed_at i = Some t \<Longrightarrow> ci_observed_at (refresh_instrument a i) = Some (max t (ia_observed_at a))"
  by (auto simp: refresh_instrument_def max_def split: option.splits)

lemma sound_entry_other:
  "sound_entry qs (k, i) \<Longrightarrow> args_id a \<noteq> k \<Longrightarrow> sound_entry (qs @ [a]) (k, i)"
  by (auto simp: sound_entry_def latest_at_snoc)

lemma sound_entry_refreshed:
  assumes "sound_entry qs (args_id a, i)"
  shows "sound_entry (qs @ [a]) (args_id a, refresh_instrument a i)"
proof -
  have "args_id a \<in> args_id ` set qs" using assms by (auto simp: sound_entry_def) (metis imageI)
  then show ?thesis using assms by (auto simp: sound_entry_def latest_at_snoc)
qed

lemma sound_entry_new:
  "args_id a \<notin> args_id ` set qs \<Longrightarrow> sound_entry (qs @ [a]) (args_id a, refresh_instrument a (new_instrument a))"
  by (auto simp: sound_entry_def latest_at_snoc new_instrument_def)

lemma sound_entry_details:
  "keeps_identity f \<Longrightarrow> sound_entry qs (k, i) \<Longrightarrow> sound_entry qs (k, f i)"
  by (simp add: sound_entry_def keeps_identity_def)

lemma map_of_None_keys: "map_of d k = None \<longleftrightarrow> k \<notin> fst ` set d"
  by (simp add: map_of_eq_None_iff)

lemma absorbed_instruments:
  assumes d: "distinct (map fst d)" and keys: "fst ` set d = args_id ` set qs"
    and ok: "list_all (sound_entry qs) d" and f: "keeps_identity f"
  shows "list_all (sound_entry (qs @ [a]))
    (AList.map_entry (args_id a) f (AList.map_entry (args_id a) (refresh_instrument a)
       (set_default (args_id a) (new_instrument a) d)))"
proof -
  let ?d = "set_default (args_id a) (new_instrument a) d"
  let ?e = "AList.map_entry (args_id a) (refresh_instrument a) ?d"
  have dd: "distinct (map fst ?d)" "distinct (map fst ?e)" using d by simp_all
  have "sound_entry (qs @ [a]) (k, w)" if "(k, w) \<in> set (AList.map_entry (args_id a) f ?e)" for k w
  proof -
    note kw = that
    obtain u where u: "(k, u) \<in> set ?e" "w = (if k = args_id a then f u else u)"
      using map_entry_in [OF dd(2), THEN iffD1, OF kw] by (elim exE conjE) (rule that)
    obtain v where v: "(k, v) \<in> set ?d" "u = (if k = args_id a then refresh_instrument a v else v)"
      using map_entry_in [OF dd(1), THEN iffD1, OF u(1)] by (elim exE conjE) (rule that)
    have w: "w = (if k = args_id a then f (refresh_instrument a v) else v)" using u(2) v(2) by simp
    show ?thesis
    proof (cases "k = args_id a")
      case False
      then have "(k, v) \<in> set d" using v(1) set_default_set(2) by fastforce
      then show ?thesis using ok False w by (auto simp: list_all_iff intro: sound_entry_other)
    next
      case True
      have "sound_entry (qs @ [a]) (args_id a, refresh_instrument a v)"
      proof (cases "args_id a \<in> args_id ` set qs")
        case old: True
        then have "?d = d" using keys by (auto simp: set_default_def map_of_None_keys)
        then have "sound_entry qs (args_id a, v)" using v(1) ok True by (auto simp: list_all_iff)
        then show ?thesis by (rule sound_entry_refreshed)
      next
        case new: False
        then have nd: "args_id a \<notin> fst ` set d" using keys by simp
        have "(k, v) \<in> insert (args_id a, new_instrument a) (set d)" using v(1) set_default_set(2) by fastforce
        then have "v = new_instrument a" using nd True by (force simp: image_iff)
        then show ?thesis using sound_entry_new [OF new] by simp
      qed
      then show ?thesis using w True f by (simp add: sound_entry_details)
    qed
  qed
  then show ?thesis by (auto simp: list_all_iff)
qed

lemma list_all_set_default:
  "list_all P d \<Longrightarrow> P (k, v) \<Longrightarrow> list_all P (set_default k v d)"
  by (auto simp: set_default_def)

lemma add_edge_keys [simp]: "fst ` set (add_edge e d) = insert (ge_edge_id e) (fst ` set d)"
  by (simp add: add_edge_def)

lemma add_edge_distinct [simp]: "distinct (map fst d) \<Longrightarrow> distinct (map fst (add_edge e d))"
  by (simp add: add_edge_def)

lemma list_all_weaken: "list_all P d \<Longrightarrow> (\<And>x. P x \<Longrightarrow> Q x) \<Longrightarrow> list_all Q d"
  by (auto simp: list_all_iff)

lemma plain_edge_fields [simp]:
  "ge_edge_id (plain_edge s t r) = edge_id s t r" "ge_source_id (plain_edge s t r) = s"
  "ge_target_id (plain_edge s t r) = t" "ge_relationship (plain_edge s t r) = r"
  by (simp_all add: plain_edge_def)

lemma absorb_fields:
  "gs_assets (absorb st (a, f)) = set_default (canonical_asset_id (ia_asset a))
     \<lparr>as_asset_id = canonical_asset_id (ia_asset a), as_symbol = upper (ia_asset a)\<rparr> (gs_assets st)"
  "gs_venues (absorb st (a, f)) = set_default (canonical_venue_id (ia_venue a))
     \<lparr>vn_venue_id = canonical_venue_id (ia_venue a), vn_name = ia_venue a\<rparr> (gs_venues st)"
  "gs_instruments (absorb st (a, f)) = AList.map_entry (args_id a) f (AList.map_entry (args_id a)
     (refresh_instrument a) (set_default (args_id a) (new_instrument a) (gs_instruments st)))"
  "gs_edges (absorb st (a, f)) =
     add_edge (plain_edge (args_id a) (canonical_asset_id (ia_asset a)) REPRESENTS)
       (add_edge (plain_edge (canonical_venue_id (ia_venue a)) (args_id a) LISTS) (gs_edges st))"
  "gs_observed_times (absorb st (a, f)) = gs_observed_times st @ [ia_observed_at a]"
  by (simp_all add: absorb_def ensure_instrument_def Let_def)

lemma linked_grows: "linked_edge qs x \<Longrightarrow> linked_edge (qs @ [a]) x"
  by (auto simp: linked_edge_def split: prod.splits)

lemma absorb_keeps:
  assumes inv: "graph_inv qs st" and f: "keeps_identity f"
  shows "graph_inv (qs @ [a]) (absorb st (a, f))"
proof -
  note i = inv [unfolded graph_inv_def]
  have ins: "list_all (sound_entry (qs @ [a])) (gs_instruments (absorb st (a, f)))"
    unfolding absorb_fields by (rule absorbed_instruments) (use i f in simp_all)
  have "list_all (linked_edge (qs @ [a])) (gs_edges st)"
    by (rule list_all_weaken [OF _ linked_grows]) (use i in \<open>elim conjE\<close>)
  then have edges: "list_all (linked_edge (qs @ [a])) (gs_edges (absorb st (a, f)))"
    unfolding absorb_fields add_edge_def
    by (intro list_all_set_default) (auto simp: linked_edge_def)
  have nodes: "list_all (\<lambda>(k, x). as_asset_id x = k) (gs_assets (absorb st (a, f)))"
      "list_all (\<lambda>(k, x). vn_venue_id x = k) (gs_venues (absorb st (a, f)))"
    unfolding absorb_fields using i by (auto intro!: list_all_set_default)
  have keys: "fst ` set (gs_edges (absorb st (a, f))) = edge_keys (qs @ [a])"
    using i by (simp add: absorb_fields edge_keys_def insert_commute)
  show ?thesis
    unfolding graph_inv_def
    by (intro conjI ins edges nodes keys) (use i in \<open>simp_all add: absorb_fields\<close>)
qed

text \<open>Both loops together absorb the quotes one by one.\<close>

definition head_args :: "funding_quote list \<Rightarrow> market_quote list \<Rightarrow> instrument_args list" where
  "head_args fqs mqs = map market_args mqs @ map funding_args fqs"

lemma head_ids:
  "args_id ` set (head_args fqs mqs)
     = (\<lambda>q. canonical_instrument_id (mq_venue q) (mq_asset q) (mq_market_kind q) (mq_contract_key q)) ` set mqs
       \<union> (\<lambda>q. canonical_instrument_id (fq_venue q) (fq_asset q) PERPETUAL (fq_contract_key q)) ` set fqs"
  by (simp add: head_args_def image_Un image_image args_id_canonical market_args_def funding_args_def)

lemma absorb_all:
  "graph_inv qs st \<Longrightarrow> (\<And>x. x \<in> set xs \<Longrightarrow> keeps_identity (snd x))
    \<Longrightarrow> graph_inv (qs @ map fst xs) (foldl absorb st xs)"
proof (induction xs arbitrary: qs st)
  case (Cons x xs)
  obtain a f where x: "x = (a, f)" by (cases x)
  have "graph_inv (qs @ [a]) (absorb st x)"
    using absorb_keeps [OF Cons.prems(1)] Cons.prems(2) x by force
  from Cons.IH [OF this] Cons.prems(2) show ?case by (simp add: x)
qed simp

lemma collected_inv: "graph_inv (head_args fqs mqs) (collected_graph fqs mqs)"
proof -
  have eq: "collected_graph fqs mqs = foldl absorb empty_graph
      (map (\<lambda>q. (market_args q, market_details q)) mqs @ map (\<lambda>q. (funding_args q, funding_details q)) fqs)"
    by (simp add: collected_graph_def foldl_map add_market_quote_def [abs_def] add_funding_quote_def [abs_def])
  have "graph_inv ([] @ map fst (map (\<lambda>q. (market_args q, market_details q)) mqs
      @ map (\<lambda>q. (funding_args q, funding_details q)) fqs)) (collected_graph fqs mqs)"
    unfolding eq by (rule absorb_all [OF graph_inv_empty]) (auto simp: details_keep_identity)
  then show ?thesis by (simp add: head_args_def o_def)
qed

section \<open>The finished graph\<close>

lemma sorted_dict_values:
  fixes f :: "'v \<Rightarrow> 'k::linorder"
  assumes "distinct (map fst d)" and "list_all (\<lambda>(k, v). f v = k) d"
  shows "map f (sort_key f (map snd d)) = sorted_list_of_set (fst ` set d)"
proof -
  have eq: "map f (map snd d) = map fst d" using assms(2) by (induction d) auto
  have "sorted (map f (sort_key f (map snd d)))" by simp
  moreover have "mset (map f (sort_key f (map snd d))) = mset (map fst d)"
    unfolding eq [symmetric] by (simp add: image_mset.compositionality)
  then have "distinct (map f (sort_key f (map snd d)))"
    using assms(1) mset_eq_imp_distinct_iff by blast
  moreover have "set (map f (sort_key f (map snd d))) = fst ` set d"
    using eq by (metis list.set_map set_sort)
  ultimately show ?thesis
    by (metis sorted_list_of_set.idem_if_sorted_distinct)
qed

lemma later_pairs_sorted: "(x, y) \<in> set (later_pairs xs) \<Longrightarrow> sorted_wrt R xs \<Longrightarrow> R x y"
  by (induction xs) auto

lemma later_pairs_in: "(x, y) \<in> set (later_pairs xs) \<Longrightarrow> x \<in> set xs \<and> y \<in> set xs"
  by (induction xs) auto

lemma later_pairs_complete:
  "x \<in> set xs \<Longrightarrow> y \<in> set xs \<Longrightarrow> x \<noteq> y \<Longrightarrow> (x, y) \<in> set (later_pairs xs) \<or> (y, x) \<in> set (later_pairs xs)"
  by (induction xs) auto

lemma equivalence_edges_sound:
  assumes "e \<in> set (equivalence_edges is)" and "distinct (map ci_instrument_id is)"
  shows "\<exists>l \<in> set is. \<exists>r \<in> set is. ci_asset_id l = ci_asset_id r \<and> ci_instrument_id l < ci_instrument_id r
    \<and> e = equivalence_edge (ci_asset_id l) (l, r)"
proof -
  obtain aid grp l r where g: "(aid, grp) \<in> set (group_by ci_asset_id is)"
      "(l, r) \<in> set (later_pairs (sort_key ci_instrument_id grp))" "e = equivalence_edge aid (l, r)"
    using assms(1) by (auto simp: equivalence_edges_def)
  have grp: "grp = filter (\<lambda>x. ci_asset_id x = aid) is" using group_by_member(1) [OF g(1)] .
  then have in_is: "l \<in> set is" "r \<in> set is" "ci_asset_id l = aid" "ci_asset_id r = aid"
    using later_pairs_in [OF g(2)] by auto
  have "distinct (map ci_instrument_id grp)" using assms(2) grp by (simp add: distinct_map_filter)
  then have "distinct (map ci_instrument_id (sort_key ci_instrument_id grp))"
    by (metis mset_eq_imp_distinct_iff mset_map mset_sort)
  then have "sorted_wrt (<) (map ci_instrument_id (sort_key ci_instrument_id grp))"
    by (simp add: strict_sorted_iff)
  then have "sorted_wrt (\<lambda>a b. ci_instrument_id a < ci_instrument_id b) (sort_key ci_instrument_id grp)"
    by (simp add: sorted_wrt_map)
  from later_pairs_sorted [OF g(2) this] show ?thesis using in_is g(3) by (intro bexI [of _ l] bexI [of _ r]) simp_all
qed

lemma equivalence_edges_complete:
  assumes "l \<in> set is" and "r \<in> set is" and "ci_asset_id l = ci_asset_id r"
    and "ci_instrument_id l < ci_instrument_id r"
  shows "equivalence_edge (ci_asset_id l) (l, r) \<in> set (equivalence_edges is)"
proof -
  let ?grp = "filter (\<lambda>x. ci_asset_id x = ci_asset_id l) is"
  have "map_of (group_by ci_asset_id is) (ci_asset_id l) = Some ?grp"
    using assms(1) by (auto simp: map_of_group_by)
  then have g: "(ci_asset_id l, ?grp) \<in> set (group_by ci_asset_id is)" by (rule map_of_SomeD)
  have "l \<noteq> r" using assms(4) by auto
  then have "(l, r) \<in> set (later_pairs (sort_key ci_instrument_id ?grp))
      \<or> (r, l) \<in> set (later_pairs (sort_key ci_instrument_id ?grp))"
    using assms(1-3) by (intro later_pairs_complete) auto
  moreover have "sorted_wrt (\<lambda>a b. ci_instrument_id a \<le> ci_instrument_id b) (sort_key ci_instrument_id ?grp)"
    by (metis sorted_map sorted_sort_key)
  then have "(r, l) \<notin> set (later_pairs (sort_key ci_instrument_id ?grp))"
    using later_pairs_sorted [of r l] assms(4) by fastforce
  ultimately have "(l, r) \<in> set (later_pairs (sort_key ci_instrument_id ?grp))" by blast
  then show ?thesis using g by (force simp: equivalence_edges_def)
qed

lemma equivalence_edge_fields [simp]:
  "ge_edge_id (equivalence_edge aid (l, r)) = edge_id (ci_instrument_id l) (ci_instrument_id r) ECONOMIC_EQUIVALENCE"
  "ge_source_id (equivalence_edge aid (l, r)) = ci_instrument_id l"
  "ge_target_id (equivalence_edge aid (l, r)) = ci_instrument_id r"
  "ge_relationship (equivalence_edge aid (l, r)) = ECONOMIC_EQUIVALENCE"
  by (simp_all add: equivalence_edge_def)

text \<open>Storing edges under their ids: nothing but them and what was there, and each id is there.\<close>

definition keyed :: "(string \<times> market_graph_edge) list \<Rightarrow> bool" where
  "keyed d \<longleftrightarrow> distinct (map fst d) \<and> list_all (\<lambda>(k, e). ge_edge_id e = k) d"

definition store_edge :: "(string \<times> market_graph_edge) list \<Rightarrow> market_graph_edge \<Rightarrow> (string \<times> market_graph_edge) list" where
  "store_edge d e = AList.update (ge_edge_id e) e d"

lemma store_edge_keyed: "keyed d \<Longrightarrow> keyed (store_edge d e)"
proof -
  have up: "set (store_edge d e) \<subseteq> insert (ge_edge_id e, e) (set d)"
    unfolding store_edge_def by (induction d) auto
  assume "keyed d"
  then show "keyed (store_edge d e)"
    using up by (fastforce simp: keyed_def store_edge_def list_all_iff intro: distinct_update)
qed

lemma store_edge_sets:
  "fst ` set (store_edge d e) = insert (ge_edge_id e) (fst ` set d)"
  "snd ` set (store_edge d e) \<subseteq> insert e (snd ` set d)"
  unfolding store_edge_def by (induction d) auto

lemma stored_ids: "fst ` set (foldl store_edge d es) = fst ` set d \<union> ge_edge_id ` set es"
  by (induction es arbitrary: d) (simp_all add: store_edge_sets(1) insert_commute)

lemma stored_values: "e \<in> snd ` set (foldl store_edge d es) \<Longrightarrow> e \<in> snd ` set d \<union> set es"
proof (induction es arbitrary: d)
  case (Cons x es)
  have "e \<in> snd ` set (store_edge d x) \<union> set es" by (rule Cons.IH) (use Cons.prems in simp)
  then show ?case using subsetD [OF store_edge_sets(2) [of d x]] by auto
qed simp

lemma stored_keyed: "keyed d \<Longrightarrow> keyed (foldl store_edge d es)"
  by (induction es arbitrary: d) (simp_all add: store_edge_keyed)

lemma linked_edges_stored: "linked_edges st = foldl store_edge (gs_edges st)
    (equivalence_edges (map snd (gs_instruments st)))"
  by (simp add: linked_edges_def store_edge_def [abs_def])

lemma graph_parts:
  "mg_assets (build_market_graph now fqs mqs) = sort_key as_asset_id (map snd (gs_assets (collected_graph fqs mqs)))"
  "mg_venues (build_market_graph now fqs mqs) = sort_key vn_venue_id (map snd (gs_venues (collected_graph fqs mqs)))"
  "mg_instruments (build_market_graph now fqs mqs)
     = sort_key ci_instrument_id (map snd (gs_instruments (collected_graph fqs mqs)))"
  "mg_edges (build_market_graph now fqs mqs) = sort_key ge_edge_id (map snd (linked_edges (collected_graph fqs mqs)))"
  by (simp_all add: build_market_graph_def Let_def)

lemma graph_entry:
  assumes "i \<in> set (mg_instruments (build_market_graph now fqs mqs))"
  shows "sound_entry (head_args fqs mqs) (ci_instrument_id i, i)"
proof -
  obtain k where k: "(k, i) \<in> set (gs_instruments (collected_graph fqs mqs))"
    using assms by (auto simp: graph_parts)
  have "list_all (sound_entry (head_args fqs mqs)) (gs_instruments (collected_graph fqs mqs))"
    using collected_inv [of fqs mqs] by (simp add: graph_inv_def)
  then have "sound_entry (head_args fqs mqs) (k, i)" using k by (auto simp: list_all_iff)
  moreover from this have "k = ci_instrument_id i" by (simp add: sound_entry_def)
  ultimately show ?thesis by simp
qed

lemma graph_node_ids:
  "map ci_instrument_id (mg_instruments (build_market_graph now fqs mqs))
     = sorted_list_of_set (args_id ` set (head_args fqs mqs))"
  "map as_asset_id (mg_assets (build_market_graph now fqs mqs))
     = sorted_list_of_set ((canonical_asset_id \<circ> ia_asset) ` set (head_args fqs mqs))"
  "map vn_venue_id (mg_venues (build_market_graph now fqs mqs))
     = sorted_list_of_set ((canonical_venue_id \<circ> ia_venue) ` set (head_args fqs mqs))"
proof -
  note inv = collected_inv [of fqs mqs, unfolded graph_inv_def]
  have "list_all (\<lambda>(k, i). ci_instrument_id i = k) (gs_instruments (collected_graph fqs mqs))"
    using inv by (auto simp: list_all_iff sound_entry_def)
  from sorted_dict_values [OF _ this] inv
  show "map ci_instrument_id (mg_instruments (build_market_graph now fqs mqs))
     = sorted_list_of_set (args_id ` set (head_args fqs mqs))" by (simp add: graph_parts)
  show "map as_asset_id (mg_assets (build_market_graph now fqs mqs))
     = sorted_list_of_set ((canonical_asset_id \<circ> ia_asset) ` set (head_args fqs mqs))"
    using sorted_dict_values [of "gs_assets (collected_graph fqs mqs)" as_asset_id] inv by (simp add: graph_parts)
  show "map vn_venue_id (mg_venues (build_market_graph now fqs mqs))
     = sorted_list_of_set ((canonical_venue_id \<circ> ia_venue) ` set (head_args fqs mqs))"
    using sorted_dict_values [of "gs_venues (collected_graph fqs mqs)" vn_venue_id] inv by (simp add: graph_parts)
qed

lemma graph_node_sets:
  "ci_instrument_id ` set (mg_instruments (build_market_graph now fqs mqs)) = args_id ` set (head_args fqs mqs)"
  "as_asset_id ` set (mg_assets (build_market_graph now fqs mqs))
     = canonical_asset_id ` ia_asset ` set (head_args fqs mqs)"
  "vn_venue_id ` set (mg_venues (build_market_graph now fqs mqs))
     = canonical_venue_id ` ia_venue ` set (head_args fqs mqs)"
  using arg_cong [OF graph_node_ids(1) [of now fqs mqs], of set]
    arg_cong [OF graph_node_ids(2) [of now fqs mqs], of set]
    arg_cong [OF graph_node_ids(3) [of now fqs mqs], of set]
  by (simp_all add: image_comp o_def)

lemma graph_distinct: "distinct (map ci_instrument_id (mg_instruments (build_market_graph now fqs mqs)))"
  by (simp add: graph_node_ids)

lemma instrument_lookup:
  "instrument_id_for (build_market_graph now fqs mqs) venue asset kind key =
     (if canonical_instrument_id venue asset kind key \<in> args_id ` set (head_args fqs mqs)
      then Some (canonical_instrument_id venue asset kind key) else None)"
  unfolding graph_node_sets(1) [of now fqs mqs, symmetric] instrument_id_for_def Let_def
  by (auto simp: list_ex_iff image_iff) (metis)

lemma linked_keyed: "keyed (linked_edges (collected_graph fqs mqs))"
proof -
  have "keyed (gs_edges (collected_graph fqs mqs))"
    using collected_inv [of fqs mqs] by (auto simp: graph_inv_def keyed_def list_all_iff linked_edge_def)
  then show ?thesis unfolding linked_edges_stored by (rule stored_keyed)
qed

lemma graph_edge_cases:
  assumes "e \<in> set (mg_edges (build_market_graph now fqs mqs))"
  shows "(\<exists>a \<in> set (head_args fqs mqs).
      e = plain_edge (canonical_venue_id (ia_venue a)) (args_id a) LISTS
      \<or> e = plain_edge (args_id a) (canonical_asset_id (ia_asset a)) REPRESENTS)
    \<or> e \<in> set (equivalence_edges (map snd (gs_instruments (collected_graph fqs mqs))))"
proof -
  have "e \<in> snd ` set (linked_edges (collected_graph fqs mqs))" using assms by (simp add: graph_parts)
  then have "e \<in> snd ` set (gs_edges (collected_graph fqs mqs))
      \<union> set (equivalence_edges (map snd (gs_instruments (collected_graph fqs mqs))))"
    unfolding linked_edges_stored by (rule stored_values)
  moreover have "\<exists>a \<in> set (head_args fqs mqs).
      x = plain_edge (canonical_venue_id (ia_venue a)) (args_id a) LISTS
      \<or> x = plain_edge (args_id a) (canonical_asset_id (ia_asset a)) REPRESENTS"
    if "x \<in> snd ` set (gs_edges (collected_graph fqs mqs))" for x
    using that collected_inv [of fqs mqs] by (auto simp: graph_inv_def list_all_iff linked_edge_def)
  ultimately show ?thesis by blast
qed

lemma graph_edge_ids:
  "ge_edge_id ` set (mg_edges (build_market_graph now fqs mqs)) = edge_keys (head_args fqs mqs)
     \<union> ge_edge_id ` set (equivalence_edges (map snd (gs_instruments (collected_graph fqs mqs))))"
proof -
  have "ge_edge_id ` snd ` set (linked_edges (collected_graph fqs mqs)) = fst ` set (linked_edges (collected_graph fqs mqs))"
    using linked_keyed [of fqs mqs] by (force simp: keyed_def list_all_iff image_iff)
  then show ?thesis
    using collected_inv [of fqs mqs] by (simp add: graph_parts linked_edges_stored stored_ids graph_inv_def)
qed

lemma graph_instrument_ids_distinct:
  "distinct (map ci_instrument_id (map snd (gs_instruments (collected_graph fqs mqs))))"
proof -
  have "map ci_instrument_id (map snd (gs_instruments (collected_graph fqs mqs)))
      = map fst (gs_instruments (collected_graph fqs mqs))"
    using collected_inv [of fqs mqs] by (auto simp: graph_inv_def list_all_iff sound_entry_def)
  moreover have "distinct (map fst (gs_instruments (collected_graph fqs mqs)))"
    using collected_inv [of fqs mqs] by (simp add: graph_inv_def)
  ultimately show ?thesis by (simp only:)
qed

end
