(* ===== verification/Detectors.thy ===== *)
theory Detectors
  imports Market_Graph Selection
begin

text \<open>
  The detectors package: four screens that turn quotes into candidate opportunities, the
  module contract they share and the registry that runs them and ties each leg to the market
  graph.  The SHA-256 digest behind an opportunity's id is a parameter; quote times are in
  UTC, as the collectors record them.
\<close>

section \<open>Dates\<close>

text \<open>
  \<open>datetime.isoformat()\<close> of the standard library for a UTC time: the civil date of a day number
  (days since 1970-01-01, in the proleptic Gregorian calendar), then the time of day.
\<close>

definition civil_of_days :: "int \<Rightarrow> int \<times> int \<times> int" where
  "civil_of_days d =
     (let z = d + 719468; era = z div 146097; doe = z mod 146097;
          yoe = (doe - doe div 1460 + doe div 36524 - doe div 146096) div 365;
          doy = doe - (365 * yoe + yoe div 4 - yoe div 100);
          mp = (5 * doy + 2) div 153;
          day = doy - (153 * mp + 2) div 5 + 1;
          month = (if mp < 10 then mp + 3 else mp - 9)
      in (yoe + era * 400 + (if month \<le> 2 then 1 else 0), month, day))"

definition isoformat :: "time \<Rightarrow> string" where
  "isoformat t =
     (let micros = t mod 1000000; secs = t div 1000000; sod = secs mod 86400;
          two = \<lambda>n. pad_zeros 2 (digits n)
      in case civil_of_days (secs div 86400) of (y, m, d) \<Rightarrow>
         pad_zeros 4 (digits y) @ ''-'' @ two m @ ''-'' @ two d @ ''T''
           @ two (sod div 3600) @ '':'' @ two (sod div 60 mod 60) @ '':'' @ two (sod mod 60)
           @ (if micros = 0 then [] else ''.'' @ pad_zeros 6 (digits micros)) @ ''+00:00'')"

section \<open>What the screens share\<close>

text \<open>Currencies that are both known and differ, up to case.\<close>

definition quote_mismatch :: "string option \<Rightarrow> string option \<Rightarrow> bool" where
  "quote_mismatch a b = (case (a, b) of (Some x, Some y) \<Rightarrow> upper x \<noteq> upper y | _ \<Rightarrow> False)"

definition annualize :: "real \<Rightarrow> real" where
  "annualize net_bps_hour = (net_bps_hour / 10000) * 24 * 365"

definition detected_id :: "(string \<Rightarrow> string) \<Rightarrow> string \<Rightarrow> string" where
  "detected_id sha256_hex raw = take 20 (sha256_hex raw)"

text \<open>Two nested loops whose body appends a result, goes on to the next pair, or raises.\<close>

definition screen_pairs :: "('a \<Rightarrow> 'b \<Rightarrow> 'c option result) \<Rightarrow> 'a list \<Rightarrow> 'b list \<Rightarrow> 'c list result" where
  "screen_pairs f xs ys = rbind (rmap (\<lambda>(x, y). f x y) (List.product xs ys)) (\<lambda>os. Inr (some_values os))"

text \<open>The loop over the groups, then the sort by return.\<close>

definition screen_groups ::
  "('k \<Rightarrow> 'a list \<Rightarrow> opportunity list result) \<Rightarrow> ('k \<times> 'a list) list \<Rightarrow> opportunity list result" where
  "screen_groups f gs = rbind (rmap (\<lambda>(k, g). f k g) gs)
     (\<lambda>rs. Inr (sort_desc op_net_annualized_return (concat rs)))"

definition market_leg :: "string \<Rightarrow> market_kind \<Rightarrow> side \<Rightarrow> market_quote \<Rightarrow> string option \<Rightarrow> real \<Rightarrow> opportunity_leg" where
  "market_leg asset kind sd q currency price = \<lparr>lg_venue = mq_venue q, lg_asset = asset, lg_market_kind = kind,
     lg_side = sd, lg_symbol = Some (mq_symbol q), lg_quote_currency = currency,
     lg_contract_key = mq_contract_key q, lg_expires_at = None, lg_reference_price = Some price\<rparr>"

section \<open>Funding dispersion\<close>

definition funding_leg :: "string \<Rightarrow> side \<Rightarrow> funding_quote \<Rightarrow> opportunity_leg" where
  "funding_leg asset sd q = \<lparr>lg_venue = fq_venue q, lg_asset = asset, lg_market_kind = PERPETUAL,
     lg_side = sd, lg_symbol = Some (str_or (fq_symbol q) asset), lg_quote_currency = fq_quote_currency q,
     lg_contract_key = fq_contract_key q, lg_expires_at = None, lg_reference_price = None\<rparr>"

definition funding_pair ::
  "(string \<Rightarrow> string) \<Rightarrow> settings \<Rightarrow> string \<Rightarrow> funding_quote \<Rightarrow> funding_quote \<Rightarrow> opportunity option result" where
  "funding_pair sha s asset long short =
     (if fq_venue long = fq_venue short then Inr None
      else if quote_mismatch (fq_quote_currency long) (fq_quote_currency short) then Inr None
      else rbind (hourly_rate short) (\<lambda>sr. rbind (hourly_rate long) (\<lambda>lr.
        let gross_hourly = sr - lr in
        if gross_hourly \<le> 0 then Inr None
        else rbind (py_div (se_pair_roundtrip_cost_bps s) (se_default_holding_hours s)) (\<lambda>cost.
          let gross = gross_hourly * 10000; net = gross - cost - se_safety_buffer_bps_per_hour s;
              annualized = annualize net in
          if annualized < se_min_net_annualized_return s then Inr None
          else let observed = min (fq_observed_at long) (fq_observed_at short) in
            Inr (Some \<lparr>op_id = detected_id sha (''funding:'' @ asset @ '':'' @ fq_venue long @ '':''
                   @ fq_venue short @ '':'' @ isoformat observed),
                 op_strategy = FUNDING_DISPERSION, op_asset = asset,
                 op_legs = [funding_leg asset LONG long, funding_leg asset SHORT short],
                 op_gross_edge_bps_per_hour = gross, op_modeled_cost_bps = se_pair_roundtrip_cost_bps s,
                 op_holding_hours = se_default_holding_hours s,
                 op_safety_buffer_bps_per_hour = se_safety_buffer_bps_per_hour s,
                 op_net_edge_bps_per_hour = net, op_net_annualized_return = annualized,
                 op_observed_at = observed,
                 op_expires_at = observed + timedelta_seconds (se_max_quote_age_seconds s),
                 op_confidence = MediumConfidence,
                 op_evidence = [(''long_funding_rate'', PFloat (fq_rate long)),
                   (''long_interval_hours'', PFloat (fq_interval_hours long)),
                   (''short_funding_rate'', PFloat (fq_rate short)),
                   (''short_interval_hours'', PFloat (fq_interval_hours short)),
                   (''quote_currency'', opt_obj (opt_or (fq_quote_currency long) (fq_quote_currency short))),
                   (''source'', PStr ''normalized predicted funding dispersion'')],
                 op_paper_only = True\<rparr>)))))"

definition detect_funding ::
  "(string \<Rightarrow> string) \<Rightarrow> settings \<Rightarrow> funding_quote list \<Rightarrow> opportunity list result" where
  "detect_funding sha s quotes = screen_groups (\<lambda>asset qs.
     if length qs < 2 then Inr [] else screen_pairs (funding_pair sha s asset) qs qs)
     (group_by fq_asset quotes)"

section \<open>Spot-perpetual basis\<close>

definition basis_pair ::
  "(string \<Rightarrow> string) \<Rightarrow> settings \<Rightarrow> string \<Rightarrow> market_quote \<Rightarrow> market_quote \<Rightarrow> opportunity option result" where
  "basis_pair sha s asset spot perp =
     (if quote_mismatch (mq_quote_currency spot) (mq_quote_currency perp) then Inr None
      else if mq_mid perp \<le> mq_mid spot then Inr None
      else rbind (py_div (mq_mid perp) (mq_mid spot)) (\<lambda>ratio.
        let basis = ratio - 1 in
        rbind (py_div (basis * 10000) (se_default_holding_hours s)) (\<lambda>gross.
        rbind (py_div (se_pair_roundtrip_cost_bps s) (se_default_holding_hours s)) (\<lambda>cost.
          let net = gross - cost - se_safety_buffer_bps_per_hour s; annualized = annualize net in
          if annualized < se_min_net_annualized_return s then Inr None
          else let observed = min (mq_observed_at spot) (mq_observed_at perp) in
            Inr (Some \<lparr>op_id = detected_id sha (''basis:'' @ asset @ '':'' @ mq_venue spot @ '':''
                   @ mq_venue perp @ '':'' @ isoformat observed),
                 op_strategy = SPOT_PERP_BASIS, op_asset = asset,
                 op_legs = [market_leg asset SPOT LONG spot (mq_quote_currency spot) (mq_mid spot),
                            market_leg asset PERPETUAL SHORT perp (mq_quote_currency perp) (mq_mid perp)],
                 op_gross_edge_bps_per_hour = gross, op_modeled_cost_bps = se_pair_roundtrip_cost_bps s,
                 op_holding_hours = se_default_holding_hours s,
                 op_safety_buffer_bps_per_hour = se_safety_buffer_bps_per_hour s,
                 op_net_edge_bps_per_hour = net, op_net_annualized_return = annualized,
                 op_observed_at = observed,
                 op_expires_at = observed + timedelta_seconds (se_max_quote_age_seconds s),
                 op_confidence = LowConfidence,
                 op_evidence = [(''spot_mid'', PFloat (mq_mid spot)), (''perp_mid'', PFloat (mq_mid perp)),
                   (''raw_basis'', PFloat basis),
                   (''quote_currency'', opt_obj (opt_or (mq_quote_currency spot) (mq_quote_currency perp)))],
                 op_paper_only = True\<rparr>)))))"

definition detect_basis ::
  "(string \<Rightarrow> string) \<Rightarrow> settings \<Rightarrow> market_quote list \<Rightarrow> opportunity list result" where
  "detect_basis sha s quotes = screen_groups (\<lambda>asset qs.
     screen_pairs (basis_pair sha s asset) (filter (\<lambda>q. mq_market_kind q = SPOT) qs)
       (filter (\<lambda>q. mq_market_kind q = PERPETUAL) qs))
     (group_by mq_asset quotes)"

section \<open>Dated futures basis\<close>

definition currency_group :: "market_quote \<Rightarrow> string \<times> string" where
  "currency_group q = (mq_asset q, upper (str_or (mq_quote_currency q) []))"

definition futures_pair ::
  "(string \<Rightarrow> string) \<Rightarrow> settings \<Rightarrow> string \<times> string \<Rightarrow> market_quote \<Rightarrow> market_quote \<Rightarrow> opportunity option result" where
  "futures_pair sha s key spot future =
     (let asset = fst key; currency = snd key; observed = min (mq_observed_at spot) (mq_observed_at future)
      in case mq_expires_at future of None \<Rightarrow> Inr None
       | Some expiry \<Rightarrow>
         if expiry \<le> observed then Inr None
         else if mq_mid future \<le> mq_mid spot then Inr None
         else let holding = total_seconds (expiry - observed) / 3600 in
           if holding \<le> 0 then Inr None
           else rbind (py_div (mq_mid future) (mq_mid spot)) (\<lambda>ratio.
             let basis = ratio - 1 in
             rbind (py_div (basis * 10000) holding) (\<lambda>gross.
             rbind (py_div (se_pair_roundtrip_cost_bps s) holding) (\<lambda>cost.
               let net = gross - cost - se_safety_buffer_bps_per_hour s; annualized = annualize net in
               if annualized < se_min_net_annualized_return s then Inr None
               else Inr (Some \<lparr>op_id = detected_id sha (''future-basis:'' @ asset @ '':'' @ currency @ '':''
                      @ mq_venue spot @ '':'' @ mq_venue future @ '':''
                      @ str_or (mq_contract_key future) (mq_symbol future) @ '':'' @ isoformat observed),
                    op_strategy = FUTURES_BASIS, op_asset = asset,
                    op_legs = [market_leg asset SPOT LONG spot (Some currency) (mq_mid spot),
                               (market_leg asset FUTURE SHORT future (Some currency) (mq_mid future))
                                 \<lparr>lg_expires_at := Some expiry\<rparr>],
                    op_gross_edge_bps_per_hour = gross, op_modeled_cost_bps = se_pair_roundtrip_cost_bps s,
                    op_holding_hours = holding,
                    op_safety_buffer_bps_per_hour = se_safety_buffer_bps_per_hour s,
                    op_net_edge_bps_per_hour = net, op_net_annualized_return = annualized,
                    op_observed_at = observed,
                    op_expires_at = observed + timedelta_seconds (se_max_quote_age_seconds s),
                    op_confidence = LowConfidence,
                    op_evidence = [(''quote_currency'', PStr currency), (''spot_mid'', PFloat (mq_mid spot)),
                      (''future_mid'', PFloat (mq_mid future)), (''raw_basis'', PFloat basis),
                      (''future_expiry'', PStr (isoformat expiry)),
                      (''contract_key'', opt_obj (mq_contract_key future))],
                    op_paper_only = True\<rparr>)))))"

definition detect_futures ::
  "(string \<Rightarrow> string) \<Rightarrow> settings \<Rightarrow> market_quote list \<Rightarrow> opportunity list result" where
  "detect_futures sha s quotes = screen_groups (\<lambda>key qs.
     screen_pairs (futures_pair sha s key) (filter (\<lambda>q. mq_market_kind q = SPOT) qs)
       (filter (\<lambda>q. mq_market_kind q = FUTURE \<and> mq_expires_at q \<noteq> None) qs))
     (group_by currency_group (filter (\<lambda>q. truthy (mq_quote_currency q)) quotes))"

section \<open>Cross-venue spot dislocation\<close>

definition dislocation_hours :: "settings \<Rightarrow> real" where
  "dislocation_hours s = max (1 / 10 ^ 6) (se_spot_dislocation_holding_hours s)"

text \<open>The holding time is at least a millionth of an hour: its divisions cannot fail.\<close>

definition dislocation_pair ::
  "(string \<Rightarrow> string) \<Rightarrow> settings \<Rightarrow> string \<times> string \<Rightarrow> market_quote \<Rightarrow> market_quote \<Rightarrow> opportunity option result" where
  "dislocation_pair sha s key buy sell =
     (let asset = fst key; currency = snd key; holding = dislocation_hours s
      in if mq_venue buy = mq_venue sell then Inr None
         else case (mq_ask buy, mq_bid sell) of (Some ask, Some bid) \<Rightarrow>
           if bid \<le> ask then Inr None
           else rbind (py_div bid ask) (\<lambda>ratio.
             let gross_fraction = ratio - 1; gross = gross_fraction * 10000 / holding;
                 cost = se_pair_roundtrip_cost_bps s / holding;
                 net = gross - cost - se_safety_buffer_bps_per_hour s; annualized = annualize net in
             if annualized < se_min_net_annualized_return s then Inr None
             else let observed = min (mq_observed_at buy) (mq_observed_at sell) in
               Inr (Some \<lparr>op_id = detected_id sha (''cex-spot:'' @ asset @ '':'' @ currency @ '':''
                      @ mq_venue buy @ '':'' @ mq_venue sell @ '':'' @ isoformat observed),
                    op_strategy = CEX_SPOT_DISLOCATION, op_asset = asset,
                    op_legs = [market_leg asset SPOT LONG buy (Some currency) ask,
                               market_leg asset SPOT SHORT sell (Some currency) bid],
                    op_gross_edge_bps_per_hour = gross, op_modeled_cost_bps = se_pair_roundtrip_cost_bps s,
                    op_holding_hours = holding,
                    op_safety_buffer_bps_per_hour = se_safety_buffer_bps_per_hour s,
                    op_net_edge_bps_per_hour = net, op_net_annualized_return = annualized,
                    op_observed_at = observed,
                    op_expires_at = observed + timedelta_seconds (se_max_quote_age_seconds s),
                    op_confidence = LowConfidence,
                    op_evidence = [(''quote_currency'', PStr currency), (''buy_ask'', PFloat ask),
                      (''sell_bid'', PFloat bid), (''raw_cross_venue_spread'', PFloat gross_fraction),
                      (''inventory_model'', PStr ''borrow_required_until_inventory_allocator_exists'')],
                    op_paper_only = True\<rparr>))
         | _ \<Rightarrow> Inr None)"

definition dislocation_quote :: "market_quote \<Rightarrow> bool" where
  "dislocation_quote q \<longleftrightarrow> mq_market_kind q = SPOT \<and> truthy (mq_quote_currency q)
     \<and> mq_bid q \<noteq> None \<and> mq_ask q \<noteq> None"

definition detect_dislocation ::
  "(string \<Rightarrow> string) \<Rightarrow> settings \<Rightarrow> market_quote list \<Rightarrow> opportunity list result" where
  "detect_dislocation sha s quotes = screen_groups (\<lambda>key qs. screen_pairs (dislocation_pair sha s key) qs qs)
     (group_by currency_group (filter dislocation_quote quotes))"

section \<open>Modules and the registry\<close>

record detector_context =
  dc_funding_quotes :: "funding_quote list"
  dc_market_quotes :: "market_quote list"
  dc_graph :: market_graph_snapshot

record detector_manifest =
  dm_name :: string
  dm_strategies :: "strategy list"
  dm_required_inputs :: "string list"
  dm_graph_native :: bool

record detector_module =
  md_manifest :: detector_manifest
  md_detect :: "detector_context \<Rightarrow> opportunity list result"

definition funding_module :: "(string \<Rightarrow> string) \<Rightarrow> settings \<Rightarrow> detector_module" where
  "funding_module sha s = \<lparr>md_manifest = \<lparr>dm_name = ''funding_dispersion'', dm_strategies = [FUNDING_DISPERSION],
       dm_required_inputs = [''funding_quotes''], dm_graph_native = False\<rparr>,
     md_detect = (\<lambda>ctx. detect_funding sha s (dc_funding_quotes ctx))\<rparr>"

definition basis_module :: "(string \<Rightarrow> string) \<Rightarrow> settings \<Rightarrow> detector_module" where
  "basis_module sha s = \<lparr>md_manifest = \<lparr>dm_name = ''spot_perp_basis'', dm_strategies = [SPOT_PERP_BASIS],
       dm_required_inputs = [''market_quotes''], dm_graph_native = False\<rparr>,
     md_detect = (\<lambda>ctx. detect_basis sha s (dc_market_quotes ctx))\<rparr>"

definition futures_module :: "(string \<Rightarrow> string) \<Rightarrow> settings \<Rightarrow> detector_module" where
  "futures_module sha s = \<lparr>md_manifest = \<lparr>dm_name = ''futures_basis'', dm_strategies = [FUTURES_BASIS],
       dm_required_inputs = [''market_quotes'', ''dated_future_expiry''], dm_graph_native = True\<rparr>,
     md_detect = (\<lambda>ctx. detect_futures sha s (dc_market_quotes ctx))\<rparr>"

definition dislocation_module :: "(string \<Rightarrow> string) \<Rightarrow> settings \<Rightarrow> detector_module" where
  "dislocation_module sha s = \<lparr>md_manifest = \<lparr>dm_name = ''cex_spot_dislocation'',
       dm_strategies = [CEX_SPOT_DISLOCATION],
       dm_required_inputs = [''market_quotes'', ''same_quote_currency''], dm_graph_native = True\<rparr>,
     md_detect = (\<lambda>ctx. detect_dislocation sha s (dc_market_quotes ctx))\<rparr>"

definition default_registry :: "(string \<Rightarrow> string) \<Rightarrow> settings \<Rightarrow> detector_module list" where
  "default_registry sha s = [funding_module sha s, basis_module sha s, futures_module sha s, dislocation_module sha s]"

definition manifests :: "detector_module list \<Rightarrow> detector_manifest list" where
  "manifests modules = map md_manifest modules"

definition leg_instrument_ids :: "market_graph_snapshot \<Rightarrow> opportunity_leg list \<Rightarrow> string list" where
  "leg_instrument_ids g legs = some_values (map (\<lambda>leg. instrument_id_for g (lg_venue leg) (lg_asset leg)
     (lg_market_kind leg) (lg_contract_key leg)) legs)"

definition enrich :: "market_graph_snapshot \<Rightarrow> string \<Rightarrow> opportunity \<Rightarrow> opportunity" where
  "enrich g name raw = raw\<lparr>op_evidence :=
     ev_set (ev_set (ev_set (ev_set (op_evidence raw)
       ''detector_module'' (PStr name))
       ''graph_version'' (PStr (mg_graph_version g)))
       ''canonical_asset_id'' (PStr (canonical_asset_id (op_asset raw))))
       ''canonical_instrument_ids'' (PStrs (leg_instrument_ids g (op_legs raw)))\<rparr>"

definition discover :: "detector_module list \<Rightarrow> detector_context \<Rightarrow> opportunity list result" where
  "discover modules ctx =
     rbind (rmap (\<lambda>m. rbind (md_detect m ctx) (\<lambda>ops.
       Inr (map (enrich (dc_graph ctx) (dm_name (md_manifest m))) ops))) modules)
     (\<lambda>rs. Inr (sort_desc op_net_annualized_return (concat rs)))"

section \<open>Loops that collect\<close>

lemma screen_pairs_iff:
  assumes "screen_pairs f xs ys = Inr os"
  shows "z \<in> set os \<longleftrightarrow> (\<exists>x \<in> set xs. \<exists>y \<in> set ys. f x y = Inr (Some z))"
proof -
  obtain rs where rs: "rmap (\<lambda>(x, y). f x y) (List.product xs ys) = Inr rs" "os = some_values rs"
    using assms by (auto simp: screen_pairs_def)
  have "Some z \<in> set rs \<longleftrightarrow> (\<exists>p \<in> set (List.product xs ys). (case p of (x, y) \<Rightarrow> f x y) = Inr (Some z))"
  proof
    assume "Some z \<in> set rs"
    then show "\<exists>p \<in> set (List.product xs ys). (case p of (x, y) \<Rightarrow> f x y) = Inr (Some z)"
      using rmap_set [OF rs(1)] by metis
  next
    assume "\<exists>p \<in> set (List.product xs ys). (case p of (x, y) \<Rightarrow> f x y) = Inr (Some z)"
    then show "Some z \<in> set rs" using rmap_member [OF rs(1)] by blast
  qed
  then show ?thesis by (auto simp: rs(2))
qed

lemma screen_pairs_total:
  "(\<And>x y. x \<in> set xs \<Longrightarrow> y \<in> set ys \<Longrightarrow> \<exists>z. f x y = Inr z) \<Longrightarrow> \<exists>os. screen_pairs f xs ys = Inr os"
proof -
  assume tot: "\<And>x y. x \<in> set xs \<Longrightarrow> y \<in> set ys \<Longrightarrow> \<exists>z. f x y = Inr z"
  have "\<exists>rs. rmap (\<lambda>(x, y). f x y) (List.product xs ys) = Inr rs"
    by (rule rmap_exists) (use tot in auto)
  then show ?thesis by (auto simp: screen_pairs_def)
qed

lemma screen_groups_in:
  assumes "screen_groups f gs = Inr ops"
  shows "z \<in> set ops \<longleftrightarrow> (\<exists>k g os. (k, g) \<in> set gs \<and> f k g = Inr os \<and> z \<in> set os)"
proof -
  obtain rs where rs: "rmap (\<lambda>(k, g). f k g) gs = Inr rs" "ops = sort_desc op_net_annualized_return (concat rs)"
    using assms by (auto simp: screen_groups_def)
  have "(\<exists>os \<in> set rs. z \<in> set os) \<longleftrightarrow> (\<exists>k g os. (k, g) \<in> set gs \<and> f k g = Inr os \<and> z \<in> set os)"
  proof
    assume "\<exists>os \<in> set rs. z \<in> set os"
    then obtain os where "os \<in> set rs" "z \<in> set os" by blast
    from rmap_set [OF rs(1) this(1)] obtain x where "x \<in> set gs" "(case x of (k, g) \<Rightarrow> f k g) = Inr os" by metis
    moreover obtain k g where "x = (k, g)" by (cases x)
    ultimately show "\<exists>k g os. (k, g) \<in> set gs \<and> f k g = Inr os \<and> z \<in> set os"
      using \<open>z \<in> set os\<close> by (intro exI [of _ k] exI [of _ g] exI [of _ os]) simp
  next
    assume "\<exists>k g os. (k, g) \<in> set gs \<and> f k g = Inr os \<and> z \<in> set os"
    then obtain k g os where "(k, g) \<in> set gs" "f k g = Inr os" "z \<in> set os" by blast
    then show "\<exists>os \<in> set rs. z \<in> set os" using rmap_member [OF rs(1), of "(k, g)" os] by auto
  qed
  then show ?thesis by (simp add: rs(2))
qed

lemma screen_groups_sorted:
  "screen_groups f gs = Inr ops
    \<Longrightarrow> sorted_wrt (\<lambda>a b. op_net_annualized_return b \<le> op_net_annualized_return a) ops"
  by (auto simp: screen_groups_def sort_desc_sorted)

lemma screen_groups_total:
  "(\<And>k g. (k, g) \<in> set gs \<Longrightarrow> \<exists>os. f k g = Inr os) \<Longrightarrow> \<exists>ops. screen_groups f gs = Inr ops"
proof -
  assume tot: "\<And>k g. (k, g) \<in> set gs \<Longrightarrow> \<exists>os. f k g = Inr os"
  have "\<exists>rs. rmap (\<lambda>(k, g). f k g) gs = Inr rs" by (rule rmap_exists) (use tot in auto)
  then show ?thesis by (auto simp: screen_groups_def)
qed

lemma group_by_elem: "(k, g) \<in> set (group_by f xs) \<Longrightarrow> x \<in> set g \<longleftrightarrow> x \<in> set xs \<and> f x = k"
  using group_by_member(1) [of k g f xs] by simp

lemma group_by_sub: "(k, g) \<in> set (group_by f xs) \<Longrightarrow> x \<in> set g \<Longrightarrow> x \<in> set xs"
  using group_by_elem [of k g f xs x] by blast

lemma group_by_own: "x \<in> set xs \<Longrightarrow> \<exists>g. (f x, g) \<in> set (group_by f xs) \<and> x \<in> set g"
proof -
  assume x: "x \<in> set xs"
  then have "map_of (group_by f xs) (f x) = Some (filter (\<lambda>y. f y = f x) xs)" by (auto simp: map_of_group_by)
  then have "(f x, filter (\<lambda>y. f y = f x) xs) \<in> set (group_by f xs)" by (rule map_of_SomeD)
  then show ?thesis using x by force
qed

section \<open>The contract of a detector\<close>

text \<open>The leg stands for an instrument that one of the quotes of the context names.\<close>

definition leg_quoted :: "detector_context \<Rightarrow> opportunity_leg \<Rightarrow> bool" where
  "leg_quoted ctx leg \<longleftrightarrow>
     (\<exists>q \<in> set (dc_market_quotes ctx). lg_venue leg = mq_venue q \<and> lg_asset leg = mq_asset q
        \<and> lg_market_kind leg = mq_market_kind q \<and> lg_contract_key leg = mq_contract_key q)
     \<or> (\<exists>q \<in> set (dc_funding_quotes ctx). lg_venue leg = fq_venue q \<and> lg_asset leg = fq_asset q
        \<and> lg_market_kind leg = PERPETUAL \<and> lg_contract_key leg = fq_contract_key q)"

text \<open>A hedged pair: long one leg, short the other, of one asset, in compatible currencies.\<close>

definition hedged_pair :: "detector_context \<Rightarrow> opportunity \<Rightarrow> bool" where
  "hedged_pair ctx opp \<longleftrightarrow> (\<exists>l r. op_legs opp = [l, r] \<and> lg_side l = LONG \<and> lg_side r = SHORT
     \<and> lg_asset l = op_asset opp \<and> lg_asset r = op_asset opp
     \<and> (lg_venue l \<noteq> lg_venue r \<or> lg_market_kind l \<noteq> lg_market_kind r)
     \<and> \<not> quote_mismatch (lg_quote_currency l) (lg_quote_currency r)
     \<and> leg_quoted ctx l \<and> leg_quoted ctx r)"

text \<open>The economics: costs and buffer taken off the gross edge, the net above the hurdle, a paper trade with an expiry.\<close>

definition priced_pair :: "settings \<Rightarrow> opportunity \<Rightarrow> bool" where
  "priced_pair s opp \<longleftrightarrow>
     op_holding_hours opp \<noteq> 0
     \<and> op_net_edge_bps_per_hour opp = op_gross_edge_bps_per_hour opp
         - op_modeled_cost_bps opp / op_holding_hours opp - op_safety_buffer_bps_per_hour opp
     \<and> op_modeled_cost_bps opp = se_pair_roundtrip_cost_bps s
     \<and> op_safety_buffer_bps_per_hour opp = se_safety_buffer_bps_per_hour s
     \<and> op_net_annualized_return opp = annualize (op_net_edge_bps_per_hour opp)
     \<and> se_min_net_annualized_return s \<le> op_net_annualized_return opp
     \<and> op_expires_at opp = op_observed_at opp + timedelta_seconds (se_max_quote_age_seconds s)
     \<and> op_paper_only opp"

locale detector =
  fixes detect :: "detector_context \<Rightarrow> opportunity list result" and s :: settings
  assumes hedged: "detect ctx = Inr ops \<Longrightarrow> opp \<in> set ops \<Longrightarrow> hedged_pair ctx opp"
    and priced: "detect ctx = Inr ops \<Longrightarrow> opp \<in> set ops \<Longrightarrow> priced_pair s opp"
begin

lemma two_legs: "detect ctx = Inr ops \<Longrightarrow> opp \<in> set ops \<Longrightarrow> length (op_legs opp) = 2"
  using hedged by (fastforce simp: hedged_pair_def)

lemma passes_gate:
  assumes "detect ctx = Inr ops" and "opp \<in> set ops" and "0 < se_min_net_annualized_return s"
    and "now \<le> op_expires_at opp"
  shows "risk_accepts s now opp"
proof -
  have p: "op_net_annualized_return opp = annualize (op_net_edge_bps_per_hour opp)"
      "se_min_net_annualized_return s \<le> op_net_annualized_return opp" "op_paper_only opp"
    using priced [OF assms(1,2)] unfolding priced_pair_def by blast+
  then have "0 < annualize (op_net_edge_bps_per_hour opp)" using assms(3) by linarith
  then have "0 < op_net_edge_bps_per_hour opp" by (simp add: annualize_def)
  then show ?thesis
    using p(2,3) two_legs [OF assms(1,2)] assms(4) by (simp add: risk_accepts_def)
qed

end

section \<open>The four screens keep the contract\<close>

lemma funding_pair_Some:
  assumes "funding_pair sha s asset l r = Inr (Some opp)"
  shows "priced_pair s opp" and "op_asset opp = asset"
    and "op_legs opp = [funding_leg asset LONG l, funding_leg asset SHORT r]"
    and "fq_venue l \<noteq> fq_venue r" and "\<not> quote_mismatch (fq_quote_currency l) (fq_quote_currency r)"
  using assms by (auto simp: funding_pair_def priced_pair_def Let_def split: if_splits)

lemma basis_pair_Some:
  assumes "basis_pair sha s asset l r = Inr (Some opp)"
  shows "priced_pair s opp" and "op_asset opp = asset"
    and "op_legs opp = [market_leg asset SPOT LONG l (mq_quote_currency l) (mq_mid l),
           market_leg asset PERPETUAL SHORT r (mq_quote_currency r) (mq_mid r)]"
    and "\<not> quote_mismatch (mq_quote_currency l) (mq_quote_currency r)"
  using assms by (auto simp: basis_pair_def priced_pair_def Let_def split: if_splits)

lemma futures_pair_Some:
  assumes "futures_pair sha s key l r = Inr (Some opp)"
  shows "priced_pair s opp" and "op_asset opp = fst key"
    and "\<exists>expiry. op_legs opp = [market_leg (fst key) SPOT LONG l (Some (snd key)) (mq_mid l),
           (market_leg (fst key) FUTURE SHORT r (Some (snd key)) (mq_mid r))\<lparr>lg_expires_at := Some expiry\<rparr>]"
  using assms by (auto simp: futures_pair_def priced_pair_def Let_def split: option.splits if_splits)

lemma dislocation_hours_pos: "0 < dislocation_hours s"
  by (simp add: dislocation_hours_def less_max_iff_disj)

lemma dislocation_pair_Some:
  assumes "dislocation_pair sha s key l r = Inr (Some opp)"
  shows "priced_pair s opp" and "op_asset opp = fst key" and "mq_venue l \<noteq> mq_venue r"
    and "\<exists>ask bid. op_legs opp = [market_leg (fst key) SPOT LONG l (Some (snd key)) ask,
           market_leg (fst key) SPOT SHORT r (Some (snd key)) bid]"
  using assms dislocation_hours_pos [of s]
  by (auto simp: dislocation_pair_def priced_pair_def Let_def split: option.splits if_splits)

lemma same_currency [simp]: "\<not> quote_mismatch (Some c) (Some c)"
  by (simp add: quote_mismatch_def)

text \<open>When the basis of a pair pays for its costs.\<close>

lemma annualize_ge: "m \<le> annualize x \<longleftrightarrow> m * 10000 / 8760 \<le> x"
  unfolding annualize_def by linarith

lemma basis_pair_pays:
  assumes "0 < mq_mid l" and h: "0 < se_default_holding_hours s"
  shows "(\<exists>opp. basis_pair sha s a l r = Inr (Some opp))
    \<longleftrightarrow> \<not> quote_mismatch (mq_quote_currency l) (mq_quote_currency r) \<and> mq_mid l < mq_mid r
      \<and> se_pair_roundtrip_cost_bps s + se_default_holding_hours s
          * (se_safety_buffer_bps_per_hour s + se_min_net_annualized_return s * 10000 / 8760)
        \<le> (mq_mid r / mq_mid l - 1) * 10000"
proof -
  let ?h = "se_default_holding_hours s" and ?e = "(mq_mid r / mq_mid l - 1) * 10000"
    and ?c = "se_pair_roundtrip_cost_bps s" and ?b = "se_safety_buffer_bps_per_hour s"
    and ?m = "se_min_net_annualized_return s"
  have "?m \<le> annualize (?e / ?h - ?c / ?h - ?b) \<longleftrightarrow> ?m * 10000 / 8760 \<le> ?e / ?h - ?c / ?h - ?b"
    by (rule annualize_ge)
  also have "\<dots> \<longleftrightarrow> ?b + ?m * 10000 / 8760 \<le> (?e - ?c) / ?h"
    unfolding diff_divide_distrib [of ?e ?c ?h] by linarith
  also have "\<dots> \<longleftrightarrow> (?b + ?m * 10000 / 8760) * ?h \<le> ?e - ?c" using h by (rule pos_le_divide_eq)
  also have "\<dots> \<longleftrightarrow> ?c + ?h * (?b + ?m * 10000 / 8760) \<le> ?e" unfolding mult.commute [of ?h] by linarith
  finally show ?thesis using assms by (auto simp: basis_pair_def py_div_def Let_def not_less)
qed

text \<open>Where the pairs of a screen come from.\<close>

lemma detect_funding_in:
  assumes "detect_funding sha s quotes = Inr ops" and "opp \<in> set ops"
  shows "\<exists>l \<in> set quotes. \<exists>r \<in> set quotes. fq_asset r = fq_asset l \<and> funding_pair sha s (fq_asset l) l r = Inr (Some opp)"
proof -
  obtain k g os where g: "(k, g) \<in> set (group_by fq_asset quotes)" "opp \<in> set os"
      "(if length g < 2 then Inr [] else screen_pairs (funding_pair sha s k) g g) = Inr os"
    using screen_groups_in [OF assms(1) [unfolded detect_funding_def]] assms(2) by blast
  then have "screen_pairs (funding_pair sha s k) g g = Inr os" by (auto split: if_splits)
  from screen_pairs_iff [OF this] g(2) obtain l r where "l \<in> set g" "r \<in> set g" "funding_pair sha s k l r = Inr (Some opp)"
    by blast
  then show ?thesis using group_by_elem [OF g(1)] by (intro bexI [of _ l] bexI [of _ r]) simp_all
qed

lemma detect_basis_iff:
  assumes "detect_basis sha s quotes = Inr ops"
  shows "opp \<in> set ops \<longleftrightarrow> (\<exists>l \<in> set quotes. \<exists>r \<in> set quotes. mq_asset r = mq_asset l
    \<and> mq_market_kind l = SPOT \<and> mq_market_kind r = PERPETUAL \<and> basis_pair sha s (mq_asset l) l r = Inr (Some opp))"
    (is "_ \<longleftrightarrow> ?rhs")
proof
  assume "opp \<in> set ops"
  then obtain k g os where g: "(k, g) \<in> set (group_by mq_asset quotes)" "opp \<in> set os"
      "screen_pairs (basis_pair sha s k) (filter (\<lambda>q. mq_market_kind q = SPOT) g)
        (filter (\<lambda>q. mq_market_kind q = PERPETUAL) g) = Inr os"
    using screen_groups_in [OF assms [unfolded detect_basis_def]] by blast
  from screen_pairs_iff [OF g(3)] g(2) obtain l r where "l \<in> set g" "r \<in> set g" "mq_market_kind l = SPOT"
      "mq_market_kind r = PERPETUAL" "basis_pair sha s k l r = Inr (Some opp)"
    by auto
  then show ?rhs using group_by_elem [OF g(1)] by (intro bexI [of _ l] bexI [of _ r]) simp_all
next
  assume ?rhs
  then obtain l r where lr: "l \<in> set quotes" "r \<in> set quotes" "mq_asset r = mq_asset l" "mq_market_kind l = SPOT"
      "mq_market_kind r = PERPETUAL" "basis_pair sha s (mq_asset l) l r = Inr (Some opp)" by blast
  obtain g where g: "(mq_asset l, g) \<in> set (group_by mq_asset quotes)" "l \<in> set g"
    using group_by_own [OF lr(1), of mq_asset] by blast
  have "r \<in> set g" using group_by_elem [OF g(1)] lr(2,3) by simp
  let ?f = "\<lambda>asset qs. screen_pairs (basis_pair sha s asset) (filter (\<lambda>q. mq_market_kind q = SPOT) qs)
       (filter (\<lambda>q. mq_market_kind q = PERPETUAL) qs)"
  obtain rs where rs: "rmap (\<lambda>(k, g). ?f k g) (group_by mq_asset quotes) = Inr rs"
    using assms by (auto simp: detect_basis_def screen_groups_def)
  obtain os where os: "?f (mq_asset l) g = Inr os"
    using rmap_defined [OF rs g(1)] by auto
  then have "opp \<in> set os" using screen_pairs_iff [OF os] lr g(2) \<open>r \<in> set g\<close> by auto
  then show "opp \<in> set ops" using screen_groups_in [OF assms [unfolded detect_basis_def]] g(1) os by blast
qed

lemma detect_futures_in:
  assumes "detect_futures sha s quotes = Inr ops" and "opp \<in> set ops"
  shows "\<exists>l \<in> set quotes. \<exists>r \<in> set quotes. currency_group r = currency_group l \<and> mq_market_kind l = SPOT
    \<and> mq_market_kind r = FUTURE \<and> futures_pair sha s (currency_group l) l r = Inr (Some opp)"
proof -
  obtain k g os where g: "(k, g) \<in> set (group_by currency_group (filter (\<lambda>q. truthy (mq_quote_currency q)) quotes))"
      "opp \<in> set os" "screen_pairs (futures_pair sha s k) (filter (\<lambda>q. mq_market_kind q = SPOT) g)
        (filter (\<lambda>q. mq_market_kind q = FUTURE \<and> mq_expires_at q \<noteq> None) g) = Inr os"
    using screen_groups_in [OF assms(1) [unfolded detect_futures_def]] assms(2) by blast
  from screen_pairs_iff [OF g(3)] g(2) obtain l r where "l \<in> set g" "r \<in> set g" "mq_market_kind l = SPOT"
      "mq_market_kind r = FUTURE" "futures_pair sha s k l r = Inr (Some opp)"
    by auto
  then show ?thesis using group_by_elem [OF g(1)] by (intro bexI [of _ l] bexI [of _ r]) simp_all
qed

lemma detect_dislocation_in:
  assumes "detect_dislocation sha s quotes = Inr ops" and "opp \<in> set ops"
  shows "\<exists>l \<in> set quotes. \<exists>r \<in> set quotes. currency_group r = currency_group l \<and> mq_market_kind l = SPOT
    \<and> mq_market_kind r = SPOT \<and> dislocation_pair sha s (currency_group l) l r = Inr (Some opp)"
proof -
  obtain k g os where g: "(k, g) \<in> set (group_by currency_group (filter dislocation_quote quotes))"
      "opp \<in> set os" "screen_pairs (dislocation_pair sha s k) g g = Inr os"
    using screen_groups_in [OF assms(1) [unfolded detect_dislocation_def]] assms(2) by blast
  from screen_pairs_iff [OF g(3)] g(2) obtain l r where "l \<in> set g" "r \<in> set g"
      "dislocation_pair sha s k l r = Inr (Some opp)" by auto
  then show ?thesis using group_by_elem [OF g(1)]
    by (intro bexI [of _ l] bexI [of _ r]) (simp_all add: dislocation_quote_def)
qed

lemma market_leg_fields [simp]:
  "lg_venue (market_leg a k sd q c p) = mq_venue q" "lg_asset (market_leg a k sd q c p) = a"
  "lg_market_kind (market_leg a k sd q c p) = k" "lg_side (market_leg a k sd q c p) = sd"
  "lg_quote_currency (market_leg a k sd q c p) = c" "lg_contract_key (market_leg a k sd q c p) = mq_contract_key q"
  "lg_reference_price (market_leg a k sd q c p) = Some p"
  by (simp_all add: market_leg_def)

lemma funding_leg_fields [simp]:
  "lg_venue (funding_leg a sd q) = fq_venue q" "lg_asset (funding_leg a sd q) = a"
  "lg_market_kind (funding_leg a sd q) = PERPETUAL" "lg_side (funding_leg a sd q) = sd"
  "lg_quote_currency (funding_leg a sd q) = fq_quote_currency q"
  "lg_contract_key (funding_leg a sd q) = fq_contract_key q"
  by (simp_all add: funding_leg_def)

lemma legs_quoted:
  "q \<in> set (dc_market_quotes ctx) \<Longrightarrow> leg_quoted ctx (market_leg (mq_asset q) (mq_market_kind q) sd q c p)"
  "q \<in> set (dc_market_quotes ctx) \<Longrightarrow>
     leg_quoted ctx ((market_leg (mq_asset q) (mq_market_kind q) sd q c p)\<lparr>lg_expires_at := e\<rparr>)"
  "f \<in> set (dc_funding_quotes ctx) \<Longrightarrow> leg_quoted ctx (funding_leg (fq_asset f) sd f)"
  by (auto simp: leg_quoted_def)

lemma group_asset: "currency_group r = currency_group l \<Longrightarrow> mq_asset r = mq_asset l"
  by (simp add: currency_group_def)

interpretation funding: detector "md_detect (funding_module sha s)" s for sha s
proof (unfold_locales, goal_cases)
  case (1 ctx ops opp)
  obtain l r where q: "l \<in> set (dc_funding_quotes ctx)" "r \<in> set (dc_funding_quotes ctx)" "fq_asset r = fq_asset l"
    and p: "funding_pair sha s (fq_asset l) l r = Inr (Some opp)"
    using detect_funding_in 1 by (fastforce simp: funding_module_def)
  show ?case using funding_pair_Some [OF p] legs_quoted(3) [OF q(1)] legs_quoted(3) [OF q(2)] q(3)
    by (simp add: hedged_pair_def)
next
  case (2 ctx ops opp)
  then show ?case using detect_funding_in funding_pair_Some(1) by (fastforce simp: funding_module_def)
qed

interpretation basis: detector "md_detect (basis_module sha s)" s for sha s
proof (unfold_locales, goal_cases)
  case (1 ctx ops opp)
  obtain l r where q: "l \<in> set (dc_market_quotes ctx)" "r \<in> set (dc_market_quotes ctx)" "mq_asset r = mq_asset l"
      "mq_market_kind l = SPOT" "mq_market_kind r = PERPETUAL" and p: "basis_pair sha s (mq_asset l) l r = Inr (Some opp)"
    using detect_basis_iff 1 by (fastforce simp: basis_module_def)
  show ?case using basis_pair_Some [OF p] legs_quoted(1) [OF q(1)] legs_quoted(1) [OF q(2)] q(3-5)
    by (simp add: hedged_pair_def)
next
  case (2 ctx ops opp)
  then show ?case using detect_basis_iff basis_pair_Some(1) by (fastforce simp: basis_module_def)
qed

interpretation futures: detector "md_detect (futures_module sha s)" s for sha s
proof (unfold_locales, goal_cases)
  case (1 ctx ops opp)
  obtain l r where q: "l \<in> set (dc_market_quotes ctx)" "r \<in> set (dc_market_quotes ctx)"
      "currency_group r = currency_group l" "mq_market_kind l = SPOT" "mq_market_kind r = FUTURE"
    and p: "futures_pair sha s (currency_group l) l r = Inr (Some opp)"
    using detect_futures_in 1 by (fastforce simp: futures_module_def)
  have a: "fst (currency_group l) = mq_asset l" by (simp add: currency_group_def)
  show ?case
    using futures_pair_Some [OF p] legs_quoted(1) [OF q(1)] legs_quoted(2) [OF q(2)] q(4,5) group_asset [OF q(3)]
    unfolding a by (auto simp: hedged_pair_def)
next
  case (2 ctx ops opp)
  then show ?case using detect_futures_in futures_pair_Some(1) by (fastforce simp: futures_module_def)
qed

interpretation dislocation: detector "md_detect (dislocation_module sha s)" s for sha s
proof (unfold_locales, goal_cases)
  case (1 ctx ops opp)
  obtain l r where q: "l \<in> set (dc_market_quotes ctx)" "r \<in> set (dc_market_quotes ctx)"
      "currency_group r = currency_group l" "mq_market_kind l = SPOT" "mq_market_kind r = SPOT"
    and p: "dislocation_pair sha s (currency_group l) l r = Inr (Some opp)"
    using detect_dislocation_in 1 by (fastforce simp: dislocation_module_def)
  have a: "fst (currency_group l) = mq_asset l" by (simp add: currency_group_def)
  show ?case
    using dislocation_pair_Some [OF p] legs_quoted(1) [OF q(1)] legs_quoted(1) [OF q(2)] q(4,5) group_asset [OF q(3)]
    unfolding a by (auto simp: hedged_pair_def)
next
  case (2 ctx ops opp)
  then show ?case using detect_dislocation_in dislocation_pair_Some(1) by (fastforce simp: dislocation_module_def)
qed

section \<open>The registry\<close>

lemma enrich_keeps [simp]:
  "hedged_pair ctx (enrich g name opp) = hedged_pair ctx opp" "priced_pair s (enrich g name opp) = priced_pair s opp"
  "risk_accepts s now (enrich g name opp) = risk_accepts s now opp"
  "op_legs (enrich g name opp) = op_legs opp" "op_expires_at (enrich g name opp) = op_expires_at opp"
  "op_net_annualized_return (enrich g name opp) = op_net_annualized_return opp"
  by (simp_all add: enrich_def hedged_pair_def priced_pair_def risk_accepts_def)

lemma enrich_ids: "instrument_ids_of (op_evidence (enrich g name opp)) = leg_instrument_ids g (op_legs opp)"
  by (simp add: enrich_def instrument_ids_of_def ev_set_def update_conv')

lemma discover_in:
  assumes "discover modules ctx = Inr ops"
  shows "opp \<in> set ops \<longleftrightarrow> (\<exists>m \<in> set modules. \<exists>raws raw. md_detect m ctx = Inr raws \<and> raw \<in> set raws
    \<and> opp = enrich (dc_graph ctx) (dm_name (md_manifest m)) raw)"
proof -
  define f :: "detector_module \<Rightarrow> opportunity list result" where "f m = rbind (md_detect m ctx) (\<lambda>os. Inr (map (enrich (dc_graph ctx) (dm_name (md_manifest m))) os))" for m
  obtain rs where rs: "rmap f modules = Inr rs" "ops = sort_desc op_net_annualized_return (concat rs)"
    using assms by (auto simp: discover_def f_def [symmetric])
  have "(\<exists>os \<in> set rs. opp \<in> set os) \<longleftrightarrow> (\<exists>m \<in> set modules. \<exists>os. f m = Inr os \<and> opp \<in> set os)"
  proof
    assume "\<exists>os \<in> set rs. opp \<in> set os"
    then obtain os where os: "os \<in> set rs" "opp \<in> set os" by blast
    from rmap_set [OF rs(1) os(1)] obtain m where "m \<in> set modules" "f m = Inr os" .
    then show "\<exists>m \<in> set modules. \<exists>os. f m = Inr os \<and> opp \<in> set os" using os(2) by blast
  next
    assume "\<exists>m \<in> set modules. \<exists>os. f m = Inr os \<and> opp \<in> set os"
    then show "\<exists>os \<in> set rs. opp \<in> set os" using rmap_member [OF rs(1)] by blast
  qed
  moreover have "(\<exists>os. f m = Inr os \<and> opp \<in> set os) \<longleftrightarrow> (\<exists>raws raw. md_detect m ctx = Inr raws \<and> raw \<in> set raws
      \<and> opp = enrich (dc_graph ctx) (dm_name (md_manifest m)) raw)" for m
    by (auto simp: f_def)
  ultimately show ?thesis by (simp add: rs(2))
qed

lemma discover_sorted:
  "discover modules ctx = Inr ops
    \<Longrightarrow> sorted_wrt (\<lambda>a b. op_net_annualized_return b \<le> op_net_annualized_return a) ops"
  by (auto simp: discover_def sort_desc_sorted)

text \<open>A raw opportunity of the default registry is one of a screen that keeps the contract.\<close>

lemma default_raw:
  assumes "discover (default_registry sha s) ctx = Inr ops" and "opp \<in> set ops"
  shows "\<exists>name raw. opp = enrich (dc_graph ctx) name raw \<and> hedged_pair ctx raw \<and> priced_pair s raw
    \<and> (\<forall>now. 0 < se_min_net_annualized_return s \<longrightarrow> now \<le> op_expires_at raw \<longrightarrow> risk_accepts s now raw)"
proof -
  obtain m raws raw where m: "m \<in> set (default_registry sha s)" "md_detect m ctx = Inr raws" "raw \<in> set raws"
      "opp = enrich (dc_graph ctx) (dm_name (md_manifest m)) raw"
    using discover_in [OF assms(1)] assms(2) by blast
  have "detector (md_detect m) s"
    using m(1) funding.detector_axioms basis.detector_axioms futures.detector_axioms dislocation.detector_axioms
    by (auto simp: default_registry_def)
  then have "hedged_pair ctx raw" "priced_pair s raw"
      "\<forall>now. 0 < se_min_net_annualized_return s \<longrightarrow> now \<le> op_expires_at raw \<longrightarrow> risk_accepts s now raw"
    using m(2,3) detector.hedged detector.priced detector.passes_gate by blast+
  then show ?thesis using m(4) by blast
qed

text \<open>On the graph of the same quotes, every quoted leg is an instrument of the graph.\<close>

lemma quoted_leg_found:
  assumes "dc_graph ctx = build_market_graph now (dc_funding_quotes ctx) (dc_market_quotes ctx)"
    and "leg_quoted ctx leg"
  shows "instrument_id_for (dc_graph ctx) (lg_venue leg) (lg_asset leg) (lg_market_kind leg) (lg_contract_key leg)
    = Some (canonical_instrument_id (lg_venue leg) (lg_asset leg) (lg_market_kind leg) (lg_contract_key leg))"
proof -
  have "canonical_instrument_id (lg_venue leg) (lg_asset leg) (lg_market_kind leg) (lg_contract_key leg)
      \<in> args_id ` set (head_args (dc_funding_quotes ctx) (dc_market_quotes ctx))"
    using assms(2) unfolding head_ids by (auto simp: leg_quoted_def)
  then show ?thesis by (simp add: assms(1) instrument_lookup)
qed

section \<open>The screens do not raise\<close>

lemma funding_pair_total:
  assumes "se_default_holding_hours s \<noteq> 0" "fq_interval_hours l \<noteq> 0" "fq_interval_hours r \<noteq> 0"
  shows "\<exists>z. funding_pair sha s asset l r = Inr z"
  using assms by (simp add: funding_pair_def hourly_rate_def py_div_def Let_def)

lemma basis_pair_total:
  assumes "se_default_holding_hours s \<noteq> 0" "mq_mid l \<noteq> 0"
  shows "\<exists>z. basis_pair sha s asset l r = Inr z"
  using assms by (simp add: basis_pair_def py_div_def Let_def)

lemma futures_pair_total:
  assumes "mq_mid l \<noteq> 0"
  shows "\<exists>z. futures_pair sha s key l r = Inr z"
  using assms by (auto simp: futures_pair_def py_div_def Let_def split: option.split)

lemma dislocation_pair_total:
  assumes "mq_ask l \<noteq> Some 0"
  shows "\<exists>z. dislocation_pair sha s key l r = Inr z"
  using assms by (auto simp: dislocation_pair_def py_div_def Let_def split: option.split)

lemma valid_prices:
  assumes "validate_prices q = Inr q"
  shows "0 < mq_mid q" and "mq_ask q = Some a \<Longrightarrow> 0 < a" and "mq_bid q = Some b \<Longrightarrow> 0 < b"
  using assms by (auto simp: validate_prices_def not_le Let_def split: if_splits)

lemma modules_total:
  assumes "se_default_holding_hours s \<noteq> 0" and "\<forall>q \<in> set (dc_market_quotes ctx). validate_prices q = Inr q"
    and "\<forall>q \<in> set (dc_funding_quotes ctx). valid_funding_quote q" and "m \<in> set (default_registry sha s)"
  shows "\<exists>ops. md_detect m ctx = Inr ops"
proof -
  have mid: "mq_mid q \<noteq> 0" "mq_ask q \<noteq> Some 0" if "q \<in> set (dc_market_quotes ctx)" for q
    using valid_prices [of q] assms(2) that by force+
  have hours: "fq_interval_hours q \<noteq> 0" if "q \<in> set (dc_funding_quotes ctx)" for q
    using assms(3) that by (auto simp: valid_funding_quote_def)
  have f: "\<exists>ops. detect_funding sha s (dc_funding_quotes ctx) = Inr ops"
    unfolding detect_funding_def
  proof (rule screen_groups_total)
    fix k g assume g: "(k, g) \<in> set (group_by fq_asset (dc_funding_quotes ctx))"
    have "\<exists>os. screen_pairs (funding_pair sha s k) g g = Inr os"
      by (rule screen_pairs_total, rule funding_pair_total)
        (use assms(1) hours group_by_elem [OF g] in auto)
    then show "\<exists>os. (if length g < 2 then Inr [] else screen_pairs (funding_pair sha s k) g g) = Inr os" by simp
  qed
  have b: "\<exists>ops. detect_basis sha s (dc_market_quotes ctx) = Inr ops"
    unfolding detect_basis_def
    by (rule screen_groups_total, rule screen_pairs_total, rule basis_pair_total)
      (use assms(1) mid in \<open>auto dest: group_by_sub\<close>)
  have u: "\<exists>ops. detect_futures sha s (dc_market_quotes ctx) = Inr ops"
    unfolding detect_futures_def
    by (rule screen_groups_total, rule screen_pairs_total, rule futures_pair_total)
      (use mid in \<open>auto dest: group_by_sub\<close>)
  have d: "\<exists>ops. detect_dislocation sha s (dc_market_quotes ctx) = Inr ops"
    unfolding detect_dislocation_def
    by (rule screen_groups_total, rule screen_pairs_total, rule dislocation_pair_total)
      (use mid in \<open>auto dest: group_by_sub\<close>)
  show ?thesis using assms(4) f b u d
    by (auto simp: default_registry_def funding_module_def basis_module_def futures_module_def dislocation_module_def)
qed

lemma discover_total:
  "(\<And>m. m \<in> set modules \<Longrightarrow> \<exists>os. md_detect m ctx = Inr os) \<Longrightarrow> \<exists>ops. discover modules ctx = Inr ops"
proof -
  assume tot: "\<And>m. m \<in> set modules \<Longrightarrow> \<exists>os. md_detect m ctx = Inr os"
  have "\<exists>rs. rmap (\<lambda>m. rbind (md_detect m ctx) (\<lambda>ops.
      Inr (map (enrich (dc_graph ctx) (dm_name (md_manifest m))) ops))) modules = Inr rs"
    by (rule rmap_exists) (use tot in force)
  then show ?thesis by (auto simp: discover_def)
qed

end
