(* ===== verification/Props_Discovery.thy ===== *)
theory Props_Discovery
  imports Detectors
begin

text \<open>
  The properties of the market graph and of detection, with witnesses on a small set of
  quotes.
\<close>

section \<open>Concrete quotes\<close>

definition fx_quote :: "string \<Rightarrow> market_kind \<Rightarrow> real \<Rightarrow> market_quote" where
  "fx_quote venue kind mid = \<lparr>mq_venue = venue, mq_asset = ''BTC'', mq_market_kind = kind,
     mq_symbol = ''BTCUSD'', mq_quote_currency = Some ''usd'', mq_contract_key = None, mq_expires_at = None,
     mq_bid = Some mid, mq_ask = Some mid, mq_mid = mid, mq_observed_at = 0, mq_source = ''fixture''\<rparr>"

definition fx_spot_quote :: market_quote where
  "fx_spot_quote = fx_quote ''Coinbase'' SPOT 100"

definition fx_perp_quote :: market_quote where
  "fx_perp_quote = fx_quote ''HlPerp'' PERPETUAL 110"

lemmas fx_quote_defs = fx_spot_quote_def fx_perp_quote_def fx_quote_def

definition fx_graph :: market_graph_snapshot where
  "fx_graph = build_market_graph 0 [] [fx_spot_quote, fx_perp_quote]"

definition fx_context :: detector_context where
  "fx_context = \<lparr>dc_funding_quotes = [], dc_market_quotes = [fx_spot_quote, fx_perp_quote], dc_graph = fx_graph\<rparr>"

lemma fx_context_fields [simp]:
  "dc_funding_quotes fx_context = []" "dc_market_quotes fx_context = [fx_spot_quote, fx_perp_quote]"
  "dc_graph fx_context = fx_graph"
  by (simp_all add: fx_context_def)

section \<open>The market graph\<close>

text \<open>
  C32: an instrument id says exactly which instrument it names: two ids are equal if and only
  if venue slug, market kind, asset code and contract slug are.
\<close>

theorem instrument_id_identifies:
  "canonical_instrument_id v a k c = canonical_instrument_id v' a' k' c'
    \<longleftrightarrow> slug v = slug v' \<and> k = k' \<and> upper (strip a) = upper (strip a')
        \<and> slug (normalized_contract_key k c) = slug (normalized_contract_key k' c')"
  by (rule instrument_id_eq)

text \<open>
  The graph built from quotes contains an instrument exactly when a quote names it: a
  lookup answers the canonical id of its arguments if some market quote, or some funding quote
  of a perpetual, has that id, and nothing otherwise.
\<close>

theorem graph_indexes_quotes:
  "instrument_id_for (build_market_graph now fqs mqs) venue asset kind key = Some iid
    \<longleftrightarrow> iid = canonical_instrument_id venue asset kind key
      \<and> (iid \<in> (\<lambda>q. canonical_instrument_id (mq_venue q) (mq_asset q) (mq_market_kind q) (mq_contract_key q)) ` set mqs
         \<or> iid \<in> (\<lambda>q. canonical_instrument_id (fq_venue q) (fq_asset q) PERPETUAL (fq_contract_key q)) ` set fqs)"
  by (auto simp: instrument_lookup head_ids)

text \<open>
  Every edge of the graph joins nodes of the graph: a listing leads from a venue to an
  instrument, a representation from an instrument to an asset, and an equivalence from an
  instrument to a later one of the same asset.
\<close>

theorem graph_edges_sound:
  assumes "g = build_market_graph now fqs mqs" and "e \<in> set (mg_edges g)"
  shows "ge_edge_id e = edge_id (ge_source_id e) (ge_target_id e) (ge_relationship e)
    \<and> (case ge_relationship e of
         LISTS \<Rightarrow> ge_source_id e \<in> vn_venue_id ` set (mg_venues g)
           \<and> ge_target_id e \<in> ci_instrument_id ` set (mg_instruments g)
       | REPRESENTS \<Rightarrow> ge_source_id e \<in> ci_instrument_id ` set (mg_instruments g)
           \<and> ge_target_id e \<in> as_asset_id ` set (mg_assets g)
       | ECONOMIC_EQUIVALENCE \<Rightarrow> (\<exists>l \<in> set (mg_instruments g). \<exists>r \<in> set (mg_instruments g).
           ge_source_id e = ci_instrument_id l \<and> ge_target_id e = ci_instrument_id r
           \<and> ci_instrument_id l < ci_instrument_id r \<and> ci_asset_id l = ci_asset_id r))"
proof -
  let ?is = "map snd (gs_instruments (collected_graph fqs mqs))"
  have nodes: "set ?is = set (mg_instruments g)" by (simp add: assms(1) graph_parts)
  from graph_edge_cases [OF assms(2) [unfolded assms(1)]] show ?thesis
  proof
    assume "e \<in> set (equivalence_edges ?is)"
    then obtain l r where lr: "l \<in> set ?is" "r \<in> set ?is" "ci_asset_id l = ci_asset_id r"
        "ci_instrument_id l < ci_instrument_id r" "e = equivalence_edge (ci_asset_id l) (l, r)"
      using equivalence_edges_sound [OF _ graph_instrument_ids_distinct] by blast
    then show ?thesis unfolding nodes by auto
  next
    assume "\<exists>a \<in> set (head_args fqs mqs). e = plain_edge (canonical_venue_id (ia_venue a)) (args_id a) LISTS
      \<or> e = plain_edge (args_id a) (canonical_asset_id (ia_asset a)) REPRESENTS"
    then show ?thesis unfolding assms(1) graph_node_sets by auto
  qed
qed

theorem graph_edges_sound_witness:
  "\<exists>e \<in> set (mg_edges fx_graph). ge_edge_id e = edge_id (ge_source_id e) (ge_target_id e) (ge_relationship e)"
proof -
  have "mg_edges fx_graph \<noteq> []"
    using graph_edge_ids [of 0 "[]" "[fx_spot_quote, fx_perp_quote]"]
    by (auto simp: fx_graph_def edge_keys_def head_args_def)
  then have "hd (mg_edges fx_graph) \<in> set (mg_edges fx_graph)" by (rule hd_in_set)
  then show ?thesis using graph_edges_sound [OF fx_graph_def] by blast
qed

text \<open>
  No link is missing: every instrument is listed by its venue and represents its asset,
  and any two instruments of one asset are joined by an equivalence edge.
\<close>

theorem graph_edges_complete:
  assumes "g = build_market_graph now fqs mqs" and "i \<in> set (mg_instruments g)"
    and "j \<in> set (mg_instruments g)" and "ci_asset_id i = ci_asset_id j" and "ci_instrument_id i < ci_instrument_id j"
  shows "{edge_id (ci_venue_id i) (ci_instrument_id i) LISTS,
      edge_id (ci_instrument_id i) (ci_asset_id i) REPRESENTS,
      edge_id (ci_venue_id j) (ci_instrument_id j) LISTS,
      edge_id (ci_instrument_id j) (ci_asset_id j) REPRESENTS,
      edge_id (ci_instrument_id i) (ci_instrument_id j) ECONOMIC_EQUIVALENCE} \<subseteq> ge_edge_id ` set (mg_edges g)"
proof -
  have plain: "edge_id (ci_venue_id x) (ci_instrument_id x) LISTS \<in> edge_keys (head_args fqs mqs)"
      "edge_id (ci_instrument_id x) (ci_asset_id x) REPRESENTS \<in> edge_keys (head_args fqs mqs)"
    if x: "x \<in> set (mg_instruments g)" for x
  proof -
    obtain a where "a \<in> set (head_args fqs mqs)" "args_id a = ci_instrument_id x"
        "ci_asset_id x = canonical_asset_id (ia_asset a)" "ci_venue_id x = canonical_venue_id (ia_venue a)"
      using graph_entry [OF x [unfolded assms(1)]] by (auto simp: sound_entry_def)
    then show "edge_id (ci_venue_id x) (ci_instrument_id x) LISTS \<in> edge_keys (head_args fqs mqs)"
      "edge_id (ci_instrument_id x) (ci_asset_id x) REPRESENTS \<in> edge_keys (head_args fqs mqs)"
      unfolding edge_keys_def by (metis (mono_tags, lifting) UnI1 image_eqI, metis (mono_tags, lifting) UnI2 image_eqI)
  qed
  have "i \<in> set (map snd (gs_instruments (collected_graph fqs mqs)))"
      "j \<in> set (map snd (gs_instruments (collected_graph fqs mqs)))"
    using assms(2,3) by (simp_all add: assms(1) graph_parts)
  from equivalence_edges_complete [OF this assms(4,5)]
  have "edge_id (ci_instrument_id i) (ci_instrument_id j) ECONOMIC_EQUIVALENCE
      \<in> ge_edge_id ` set (equivalence_edges (map snd (gs_instruments (collected_graph fqs mqs))))"
    by (rule rev_image_eqI) simp
  then show ?thesis
    using plain [OF assms(2)] plain [OF assms(3)] unfolding assms(1) graph_edge_ids by blast
qed

theorem graph_edges_complete_witness:
  "\<exists>(i :: canonical_instrument) (j :: canonical_instrument).
     edge_id (ci_instrument_id i) (ci_instrument_id j) ECONOMIC_EQUIVALENCE \<in> ge_edge_id ` set (mg_edges fx_graph)"
proof -
  let ?sid = "canonical_instrument_id ''Coinbase'' ''BTC'' SPOT None"
  let ?pid = "canonical_instrument_id ''HlPerp'' ''BTC'' PERPETUAL None"
  have lt: "?sid < ?pid" by code_simp
  have "{?sid, ?pid} \<subseteq> ci_instrument_id ` set (mg_instruments fx_graph)"
    unfolding fx_graph_def graph_node_sets head_ids by (simp add: fx_quote_defs)
  then obtain i j where ij: "i \<in> set (mg_instruments fx_graph)" "j \<in> set (mg_instruments fx_graph)"
      "ci_instrument_id i = ?sid" "ci_instrument_id j = ?pid" by force
  have asset: "ci_asset_id x = canonical_asset_id ''BTC''" if "x \<in> set (mg_instruments fx_graph)" for x
    using graph_entry [OF that [unfolded fx_graph_def]]
    by (auto simp: sound_entry_def head_args_def market_args_def fx_quote_defs)
  have "ci_instrument_id i < ci_instrument_id j" using lt ij(3,4) by simp
  from graph_edges_complete [OF fx_graph_def ij(1,2) _ this] asset [OF ij(1)] asset [OF ij(2)]
  have "edge_id (ci_instrument_id i) (ci_instrument_id j) ECONOMIC_EQUIVALENCE \<in> ge_edge_id ` set (mg_edges fx_graph)"
    by simp
  then show ?thesis by blast
qed

text \<open>
  An instrument's observation time is that of its latest quote: the greatest time of the
  market and funding quotes that name it, in whatever order they came.
\<close>

theorem graph_times_latest:
  assumes "i \<in> set (mg_instruments (build_market_graph now fqs mqs))"
  shows "ci_observed_at i = Some (Max (
      mq_observed_at ` {q \<in> set mqs. canonical_instrument_id (mq_venue q) (mq_asset q) (mq_market_kind q) (mq_contract_key q)
        = ci_instrument_id i}
      \<union> fq_observed_at ` {q \<in> set fqs. canonical_instrument_id (fq_venue q) (fq_asset q) PERPETUAL (fq_contract_key q)
        = ci_instrument_id i}))"
proof -
  have "ia_observed_at ` {a \<in> set (head_args fqs mqs). args_id a = ci_instrument_id i}
      = mq_observed_at ` {q \<in> set mqs. canonical_instrument_id (mq_venue q) (mq_asset q) (mq_market_kind q) (mq_contract_key q)
        = ci_instrument_id i}
      \<union> fq_observed_at ` {q \<in> set fqs. canonical_instrument_id (fq_venue q) (fq_asset q) PERPETUAL (fq_contract_key q)
        = ci_instrument_id i}"
    by (force simp: head_args_def args_id_canonical market_args_def funding_args_def image_iff)
  then show ?thesis using graph_entry [OF assms] by (simp add: sound_entry_def latest_at_def)
qed

theorem graph_times_latest_witness: "\<exists>i \<in> set (mg_instruments fx_graph). ci_observed_at i \<noteq> None"
proof -
  have "ci_instrument_id ` set (mg_instruments fx_graph) \<noteq> {}"
    unfolding fx_graph_def graph_node_sets head_ids by simp
  then obtain i where "i \<in> set (mg_instruments (build_market_graph 0 [] [fx_spot_quote, fx_perp_quote]))"
    unfolding fx_graph_def by (metis equals0I image_empty)
  from graph_times_latest [OF this] this show ?thesis by (auto simp: fx_graph_def)
qed

section \<open>Detection\<close>

text \<open>
  C22: whatever the registry discovers is a hedged pair on quoted instruments with consistent
  economics: one long and one short leg of the same asset in compatible currencies, costs and
  buffer deducted, the return at or above the hurdle, paper only; and the list is in order of
  return.
\<close>

theorem discoveries_keep_contract:
  assumes "discover (default_registry sha s) ctx = Inr ops" and "opp \<in> set ops"
  shows "hedged_pair ctx opp \<and> priced_pair s opp
    \<and> sorted_wrt (\<lambda>a b. op_net_annualized_return b \<le> op_net_annualized_return a) ops"
  using default_raw [OF assms] discover_sorted [OF assms(1)] by auto

text \<open>
  Detection and the risk gate agree: under a positive return hurdle the gate accepts
  every discovered opportunity that has not expired.
\<close>

theorem discoveries_pass_risk_gate:
  assumes "discover (default_registry sha s) ctx = Inr ops" and "opp \<in> set ops"
    and "0 < se_min_net_annualized_return s" and "now \<le> op_expires_at opp"
  shows "opp \<in> set (risk_filter s ops now)"
  using default_raw [OF assms(1,2)] assms(2-4) by (auto simp: risk_filter_def)

text \<open>
  On the graph of the same quotes every discovered opportunity carries the instrument ids
  of both its legs, the evidence on which the allocators keep instruments apart.
\<close>

theorem discoveries_identified:
  assumes "discover (default_registry sha s) ctx = Inr ops" and "opp \<in> set ops"
    and "dc_graph ctx = build_market_graph now (dc_funding_quotes ctx) (dc_market_quotes ctx)"
  shows "instrument_ids_of (op_evidence opp) = map (\<lambda>leg. canonical_instrument_id (lg_venue leg) (lg_asset leg)
      (lg_market_kind leg) (lg_contract_key leg)) (op_legs opp) \<and> length (op_legs opp) = 2"
proof -
  obtain name raw where raw: "opp = enrich (dc_graph ctx) name raw" "hedged_pair ctx raw"
    using default_raw [OF assms(1,2)] by blast
  obtain l r where lr: "op_legs raw = [l, r]" "leg_quoted ctx l" "leg_quoted ctx r"
    using raw(2) by (auto simp: hedged_pair_def)
  show ?thesis
    using quoted_leg_found [OF assms(3) lr(2)] quoted_leg_found [OF assms(3) lr(3)]
    by (simp add: raw(1) enrich_ids leg_instrument_ids_def lr(1) some_values_def)
qed

text \<open>
  The basis screen finds exactly the pairs that pay: a spot and a perpetual quote of one
  asset yield an opportunity between them if and only if their currencies are compatible, the
  perpetual trades above spot, and the basis covers round-trip cost, buffer and hurdle over
  the holding time.
\<close>

theorem basis_found_exactly:
  assumes "detect_basis sha s quotes = Inr ops" and "spot \<in> set quotes" and "perp \<in> set quotes"
    and "mq_market_kind spot = SPOT" and "mq_market_kind perp = PERPETUAL" and "mq_asset perp = mq_asset spot"
    and "0 < mq_mid spot" and "0 < se_default_holding_hours s"
  shows "(\<exists>opp \<in> set ops. op_legs opp =
        [market_leg (mq_asset spot) SPOT LONG spot (mq_quote_currency spot) (mq_mid spot),
         market_leg (mq_asset spot) PERPETUAL SHORT perp (mq_quote_currency perp) (mq_mid perp)])
    \<longleftrightarrow> \<not> quote_mismatch (mq_quote_currency spot) (mq_quote_currency perp) \<and> mq_mid spot < mq_mid perp
      \<and> se_pair_roundtrip_cost_bps s + se_default_holding_hours s
          * (se_safety_buffer_bps_per_hour s + se_min_net_annualized_return s * 10000 / 8760)
        \<le> (mq_mid perp / mq_mid spot - 1) * 10000"
    (is "?found \<longleftrightarrow> ?pays spot perp")
proof -
  have pays: "(\<exists>opp. basis_pair sha s a l r = Inr (Some opp)) \<longleftrightarrow> ?pays l r" if "0 < mq_mid l" for a l r
    by (rule basis_pair_pays [OF that assms(8)])
  show ?thesis
  proof
    assume "?pays spot perp"
    then obtain opp where opp: "basis_pair sha s (mq_asset spot) spot perp = Inr (Some opp)"
      using pays [OF assms(7)] by blast
    then have "opp \<in> set ops" using detect_basis_iff [OF assms(1)] assms(2-6) by blast
    then show ?found using basis_pair_Some(3) [OF opp] by blast
  next
    assume ?found
    then obtain opp where opp: "opp \<in> set ops" "op_legs opp =
        [market_leg (mq_asset spot) SPOT LONG spot (mq_quote_currency spot) (mq_mid spot),
         market_leg (mq_asset spot) PERPETUAL SHORT perp (mq_quote_currency perp) (mq_mid perp)]" by blast
    then obtain l r where lr: "basis_pair sha s (mq_asset l) l r = Inr (Some opp)"
      using detect_basis_iff [OF assms(1)] by blast
    have same: "mq_mid l = mq_mid spot" "mq_mid r = mq_mid perp" "mq_quote_currency l = mq_quote_currency spot"
        "mq_quote_currency r = mq_quote_currency perp"
      using basis_pair_Some(3) [OF lr] opp(2) by (simp_all add: market_leg_def)
    then show "?pays spot perp" using pays [of l "mq_asset l" r] lr assms(7) by auto
  qed
qed

text \<open>
  On validated quotes detection never fails: with a holding time that is not zero no
  division of a screen has a zero divisor, and the registry always answers a list.
\<close>

theorem discovery_total:
  assumes "se_default_holding_hours s \<noteq> 0" and "\<forall>q \<in> set (dc_market_quotes ctx). validate_prices q = Inr q"
    and "\<forall>q \<in> set (dc_funding_quotes ctx). valid_funding_quote q"
  shows "\<exists>ops. discover (default_registry sha s) ctx = Inr ops"
  by (rule discover_total) (rule modules_total [OF assms])

section \<open>Witnesses\<close>

lemma fx_quotes_valid: "validate_prices fx_spot_quote = Inr fx_spot_quote" "validate_prices fx_perp_quote = Inr fx_perp_quote"
  by (simp_all add: validate_prices_def fx_quote_defs)

lemma fx_holding: "se_default_holding_hours default_settings = 24" "0 < se_min_net_annualized_return default_settings"
  by (simp_all add: default_settings_def)

theorem discovery_total_witness: "\<exists>ops. discover (default_registry (\<lambda>x. x) default_settings) fx_context = Inr ops"
  by (rule discovery_total) (simp_all add: fx_holding fx_quotes_valid)

lemma fx_basis_exists:
  assumes "detect_basis sha default_settings [fx_spot_quote, fx_perp_quote] = Inr ops"
  shows "\<exists>opp. opp \<in> set ops"
proof -
  have "\<exists>opp. basis_pair sha default_settings ''BTC'' fx_spot_quote fx_perp_quote = Inr (Some opp)"
    by (subst basis_pair_pays) (simp_all add: fx_quote_defs default_settings_def quote_mismatch_def)
  then obtain opp where "basis_pair sha default_settings (mq_asset fx_spot_quote) fx_spot_quote fx_perp_quote = Inr (Some opp)"
    by (auto simp: fx_quote_defs)
  then show ?thesis using detect_basis_iff [OF assms]
    by (intro exI [of _ opp]) (auto simp: fx_quote_defs)
qed

lemma fx_discovered:
  "\<exists>ops opp. discover (default_registry (\<lambda>x. x) default_settings) fx_context = Inr ops \<and> opp \<in> set ops"
proof -
  let ?reg = "default_registry (\<lambda>x. x) default_settings"
  have tot: "\<exists>os. md_detect m fx_context = Inr os" if "m \<in> set ?reg" for m
    by (rule modules_total [OF _ _ _ that]) (simp_all add: fx_holding fx_quotes_valid)
  obtain ops where ops: "discover ?reg fx_context = Inr ops" using discover_total [OF tot] by blast
  have m: "basis_module (\<lambda>x. x) default_settings \<in> set ?reg" by (simp add: default_registry_def)
  obtain bs where bs: "detect_basis (\<lambda>x. x) default_settings [fx_spot_quote, fx_perp_quote] = Inr bs"
    using tot [OF m] by (auto simp: basis_module_def)
  then obtain raw where "raw \<in> set bs" using fx_basis_exists by blast
  then have "\<exists>opp. opp \<in> set ops"
    using discover_in [OF ops] m bs by (fastforce simp: basis_module_def)
  then show ?thesis using ops by blast
qed

theorem discoveries_keep_contract_witness:
  "\<exists>ops opp. discover (default_registry (\<lambda>x. x) default_settings) fx_context = Inr ops \<and> opp \<in> set ops
    \<and> hedged_pair fx_context opp \<and> priced_pair default_settings opp"
proof -
  obtain ops opp where o: "discover (default_registry (\<lambda>x. x) default_settings) fx_context = Inr ops" "opp \<in> set ops"
    using fx_discovered by blast
  from discoveries_keep_contract [OF o] show ?thesis using o by blast
qed

theorem discoveries_pass_risk_gate_witness:
  "\<exists>ops opp. discover (default_registry (\<lambda>x. x) default_settings) fx_context = Inr ops
    \<and> opp \<in> set (risk_filter default_settings ops (op_expires_at opp))"
proof -
  obtain ops opp where o: "discover (default_registry (\<lambda>x. x) default_settings) fx_context = Inr ops" "opp \<in> set ops"
    using fx_discovered by blast
  from discoveries_pass_risk_gate [OF o fx_holding(2) order_refl] show ?thesis using o by blast
qed

theorem discoveries_identified_witness:
  "\<exists>ops opp. discover (default_registry (\<lambda>x. x) default_settings) fx_context = Inr ops \<and> opp \<in> set ops
    \<and> length (instrument_ids_of (op_evidence opp)) = 2"
proof -
  obtain ops opp where o: "discover (default_registry (\<lambda>x. x) default_settings) fx_context = Inr ops" "opp \<in> set ops"
    using fx_discovered by blast
  have "dc_graph fx_context = build_market_graph 0 (dc_funding_quotes fx_context) (dc_market_quotes fx_context)"
    by (simp add: fx_graph_def)
  from discoveries_identified [OF o this] show ?thesis using o by auto
qed

theorem basis_found_exactly_witness:
  "\<exists>ops opp. detect_basis (\<lambda>x. x) default_settings [fx_spot_quote, fx_perp_quote] = Inr ops \<and> opp \<in> set ops
    \<and> length (op_legs opp) = 2"
proof -
  have "\<exists>os. md_detect (basis_module (\<lambda>x. x) default_settings) fx_context = Inr os"
    by (rule modules_total [where s = default_settings and sha = "\<lambda>x. x"])
      (simp_all add: fx_holding fx_quotes_valid default_registry_def)
  then obtain ops where ops: "detect_basis (\<lambda>x. x) default_settings [fx_spot_quote, fx_perp_quote] = Inr ops"
    by (auto simp: basis_module_def)
  have "\<exists>opp \<in> set ops. op_legs opp =
        [market_leg (mq_asset fx_spot_quote) SPOT LONG fx_spot_quote (mq_quote_currency fx_spot_quote) (mq_mid fx_spot_quote),
         market_leg (mq_asset fx_spot_quote) PERPETUAL SHORT fx_perp_quote (mq_quote_currency fx_perp_quote) (mq_mid fx_perp_quote)]"
    by (subst basis_found_exactly [OF ops])
      (simp_all add: fx_quote_defs default_settings_def quote_mismatch_def)
  then show ?thesis using ops by force
qed

end
