(* ===== verification/Actions.thy ===== *)
theory Actions
  imports Prelude
begin

text \<open>
  Code that reads and writes a store: a function from the store to a result and the store
  after it, so that an exception leaves the writes made before it.  A triple bounds what an
  action does by a precondition, a postcondition for its result and one for its exceptions.
\<close>

section \<open>Actions\<close>

type_synonym ('s, 'a) action = "'s \<Rightarrow> 'a result \<times> 's"

definition abind :: "('s, 'a) action \<Rightarrow> ('a \<Rightarrow> ('s, 'b) action) \<Rightarrow> ('s, 'b) action" where
  "abind m f = (\<lambda>s. case m s of (Inl e, t) \<Rightarrow> (Inl e, t) | (Inr x, t) \<Rightarrow> f x t)"

definition alift :: "'a result \<Rightarrow> ('s, 'a) action" where
  "alift r = (\<lambda>s. (r, s))"

text \<open>A for loop over a list, with loop variables.\<close>

fun afold :: "('a \<Rightarrow> 'c \<Rightarrow> ('s, 'c) action) \<Rightarrow> 'a list \<Rightarrow> 'c \<Rightarrow> ('s, 'c) action" where
  "afold f [] c = alift (Inr c)"
| "afold f (x # xs) c = abind (f x c) (afold f xs)"

section \<open>Triples\<close>

definition triple :: "('s \<Rightarrow> bool) \<Rightarrow> ('s, 'a) action \<Rightarrow> ('a \<Rightarrow> 's \<Rightarrow> bool) \<Rightarrow> ('s \<Rightarrow> bool) \<Rightarrow> bool" where
  "triple P m Q E \<longleftrightarrow> (\<forall>s. P s \<longrightarrow> (case m s of (Inr x, t) \<Rightarrow> Q x t | (Inl e, t) \<Rightarrow> E t))"

lemma tripleI: "(\<And>s. P s \<Longrightarrow> case m s of (Inr x, t) \<Rightarrow> Q x t | (Inl e, t) \<Rightarrow> E t) \<Longrightarrow> triple P m Q E"
  by (simp add: triple_def)

lemma triple_bind:
  assumes "triple P m Q E" and "\<And>x. triple (Q x) (f x) R E"
  shows "triple P (abind m f) R E"
proof (rule tripleI)
  fix s assume "P s"
  then show "case abind m f s of (Inr x, t) \<Rightarrow> R x t | (Inl e, t) \<Rightarrow> E t"
    using assms by (cases "m s"; cases "fst (m s)") (force simp: abind_def triple_def)+
qed

lemma triple_lift:
  "(\<And>s x. P s \<Longrightarrow> r = Inr x \<Longrightarrow> Q x s) \<Longrightarrow> (\<And>s. P s \<Longrightarrow> E s) \<Longrightarrow> triple P (alift r) Q E"
  by (cases r) (simp_all add: triple_def alift_def)

lemma triple_weaken:
  "triple P m Q E \<Longrightarrow> (\<And>s. P' s \<Longrightarrow> P s) \<Longrightarrow> (\<And>x s. Q x s \<Longrightarrow> Q' x s) \<Longrightarrow> triple P' m Q' E"
  by (fastforce simp: triple_def split: prod.splits sum.splits)

lemma triple_raise: "triple P m Q E \<Longrightarrow> (\<And>s. E s \<Longrightarrow> E' s) \<Longrightarrow> triple P m Q E'"
  by (fastforce simp: triple_def split: prod.splits sum.splits)

lemma triple_at: "(\<And>s. P s \<Longrightarrow> triple (\<lambda>t. t = s) m Q E) \<Longrightarrow> triple P m Q E"
  by (simp add: triple_def)

lemma triple_fold:
  assumes "\<And>x xs c. triple (I (x # xs) c) (f x c) (\<lambda>c'. I xs c') E"
  shows "triple (I xs c) (afold f xs c) (\<lambda>c'. I [] c') E"
proof (induction xs arbitrary: c)
  case Nil
  then show ?case by (simp add: triple_def alift_def)
next
  case (Cons x xs)
  show ?case by (simp only: afold.simps, rule triple_bind [OF assms Cons.IH])
qed

lemma afold_cong: "(\<And>x. x \<in> set xs \<Longrightarrow> f x = g x) \<Longrightarrow> afold f xs c = afold g xs c"
proof (induction xs arbitrary: c)
  case (Cons x xs)
  have "f x c = g x c" using Cons.prems by simp
  moreover have "afold f xs = afold g xs" using Cons by (intro ext) simp
  ultimately show ?case by simp
qed simp

text \<open>A loop that only collects: what it delivers satisfies what each step delivers.\<close>

lemma afold_collect:
  assumes "afold f xs acc s = (Inr out, t)"
    and "\<And>x a s b t. x \<in> set xs \<Longrightarrow> f x a s = (Inr b, t) \<Longrightarrow> set b \<subseteq> set a \<union> {y. P x y}"
  shows "\<forall>y \<in> set out. y \<in> set acc \<or> (\<exists>x \<in> set xs. P x y)"
  using assms
proof (induction xs arbitrary: acc s)
  case Nil
  then show ?case by (simp add: alift_def)
next
  case (Cons x xs)
  obtain b u where b: "f x acc s = (Inr b, u)" "afold f xs b u = (Inr out, t)"
    using Cons.prems(1) by (auto simp: abind_def split: prod.splits sum.splits)
  have "\<forall>y \<in> set out. y \<in> set b \<or> (\<exists>x \<in> set xs. P x y)"
    by (rule Cons.IH [OF b(2)]) (use Cons.prems(2) in auto)
  moreover have "set b \<subseteq> set acc \<union> {y. P x y}" by (rule Cons.prems(2) [OF _ b(1)]) simp
  ultimately show ?case by auto
qed

text \<open>A loop over groups that appends at most one row for each: its rows have distinct keys.\<close>

lemma afold_groups:
  assumes "afold f groups rows s = (Inr out, t)"
    and "\<And>g rows s out t. g \<in> set groups \<Longrightarrow> f g rows s = (Inr out, t) \<Longrightarrow>
      out = rows \<or> (\<exists>c. out = rows @ [c] \<and> key c = fst g \<and> P g c)"
    and "distinct (map fst groups)" and "distinct (map key rows)" and "\<forall>c \<in> set rows. key c \<notin> fst ` set groups"
  shows "distinct (map key out) \<and> (\<forall>c \<in> set out. c \<in> set rows \<or> (\<exists>g \<in> set groups. P g c))"
  using assms
proof (induction groups arbitrary: rows s)
  case Nil
  then show ?case by (simp add: alift_def)
next
  case (Cons g groups)
  obtain rows' u where step: "f g rows s = (Inr rows', u)" "afold f groups rows' u = (Inr out, t)"
    using Cons.prems(1) by (auto simp: abind_def split: prod.splits sum.splits)
  have IH: "distinct (map key out) \<and> (\<forall>c \<in> set out. c \<in> set rows' \<or> (\<exists>g \<in> set groups. P g c))"
    if "distinct (map key rows')" "\<forall>c \<in> set rows'. key c \<notin> fst ` set groups"
    by (rule Cons.IH [OF step(2) _ _ that]) (use Cons.prems(2,3) in auto)
  consider "rows' = rows" | c where "rows' = rows @ [c]" "key c = fst g" "P g c"
    using Cons.prems(2) [OF _ step(1)] by auto
  then show ?case
  proof cases
    case 1
    then show ?thesis using IH Cons.prems(3-5) by auto
  next
    case 2
    have "fst g \<notin> key ` set rows" using Cons.prems(5) by auto
    then show ?thesis using IH Cons.prems(3-5) 2 by auto
  qed
qed

text \<open>A loop whose steps never raise.\<close>

lemma afold_defined:
  assumes "\<And>x a s. x \<in> set xs \<Longrightarrow> \<exists>b t. f x a s = (Inr b, t)"
  shows "\<exists>b t. afold f xs a s = (Inr b, t)"
  using assms
proof (induction xs arbitrary: a s)
  case (Cons x xs)
  obtain b t where "f x a s = (Inr b, t)" using Cons.prems [of x a s] by auto
  moreover obtain c u where "afold f xs b t = (Inr c, u)" using Cons.IH [of b t] Cons.prems by auto
  ultimately show ?case by (simp add: abind_def)
qed (simp add: alift_def)

lemma abind_Inr: "abind m f s = (Inr y, t) \<longleftrightarrow> (\<exists>x u. m s = (Inr x, u) \<and> f x u = (Inr y, t))"
  by (auto simp: abind_def split: prod.splits sum.splits)

lemma alift_Inr: "alift r s = (Inr y, t) \<longleftrightarrow> r = Inr y \<and> t = s"
  by (auto simp: alift_def)

lemma triple_run: "triple P m Q E \<Longrightarrow> P s \<Longrightarrow> m s = (Inr x, t) \<Longrightarrow> Q x t"
  by (force simp: triple_def)

end
