(* ===== verification/Ledger.thy ===== *)
theory Ledger
  imports Unified_Allocation Actions
begin

text \<open>
  canonical_paper_portfolio.py: the append-only, hash-chained paper account and the service
  that opens, marks and closes positions in it.  The two tables of the database are lists in
  insertion order.  What reads and writes them is a function from the ledger to a result and
  the ledger after it: an exception leaves the writes made before it.  Parameters, gathered in
  the record \<open>ledger_env\<close>: the clock, the stream of uuid4 values, SHA-256, the JSON encodings
  and \<open>float()\<close> of a string; reading a payload back gives the object that was written.
\<close>

section \<open>Events, positions, snapshots\<close>

datatype event_type = Genesis | Open | Mark | Close | Skip

record portfolio_event =
  pe_event_id :: string
  pe_portfolio_id :: string
  pe_event_type :: event_type
  pe_observed_at :: time
  pe_position_id :: "string option"
  pe_candidate_id :: "string option"
  pe_family :: "string option"
  pe_strategy :: "string option"
  pe_asset :: "string option"
  pe_venue :: "string option"
  pe_symbol :: "string option"
  pe_market_kind :: "string option"
  pe_exposure_kind :: "string option"
  pe_cash_delta_usd :: real
  pe_realized_pnl_delta_usd :: real
  pe_modeled_cost_usd :: real
  pe_capital_reserved_usd :: real
  pe_notional_usd :: real
  pe_entry_reference_price :: "real option"
  pe_reference_price :: "real option"
  pe_due_at :: "time option"
  pe_modeled_roundtrip_cost_return :: "real option"
  pe_unrealized_pnl_usd :: real
  pe_reason :: "string option"
  pe_details :: evidence
  pe_paper_only :: bool
  pe_live_execution_authority :: bool

record paper_position =
  pp_position_id :: string
  pp_candidate_id :: string
  pp_family :: string
  pp_strategy :: string
  pp_asset :: string
  pp_venue :: string
  pp_symbol :: string
  pp_market_kind :: string
  pp_exposure_kind :: string
  pp_opened_at :: time
  pp_due_at :: time
  pp_capital_reserved_usd :: real
  pp_notional_usd :: real
  pp_entry_reference_price :: real
  pp_current_reference_price :: real
  pp_modeled_roundtrip_cost_return :: real
  pp_unrealized_pnl_usd :: real
  pp_paper_only :: bool

record portfolio_snapshot =
  ps_portfolio_id :: string
  ps_observed_at :: time
  ps_initial_capital_usd :: real
  ps_cash_usd :: real
  ps_reserved_capital_usd :: real
  ps_unrealized_pnl_usd :: real
  ps_realized_pnl_usd :: real
  ps_cumulative_modeled_cost_usd :: real
  ps_nav_usd :: real
  ps_total_return :: real
  ps_peak_nav_usd :: real
  ps_drawdown_fraction :: real
  ps_max_drawdown_fraction :: real
  ps_open_position_count :: nat
  ps_closed_trade_count :: nat
  ps_skipped_allocation_count :: nat
  ps_positions :: "paper_position list"
  ps_pnl_by_mechanism_usd :: "(string \<times> real) list"
  ps_pnl_by_strategy_usd :: "(string \<times> real) list"
  ps_paper_only :: bool
  ps_live_execution_authority :: bool

record portfolio_cycle =
  cy_cycle_id :: string
  cy_observed_at :: time
  cy_opened_position_count :: nat
  cy_closed_position_count :: nat
  cy_marked_position_count :: nat
  cy_skipped_allocation_count :: nat
  cy_nav_usd :: real
  cy_cash_usd :: real
  cy_paper_only :: bool

definition portfolio_id :: string where
  "portfolio_id = ''crypto-opportunity-engine-paper-portfolio''"

definition initial_capital :: real where
  "initial_capital = 250000"

text \<open>The field constraints of the pydantic classes.\<close>

definition opt_gt0 :: "real option \<Rightarrow> bool" where
  "opt_gt0 x = (case x of None \<Rightarrow> True | Some v \<Rightarrow> 0 < v)"

definition event_ok :: "portfolio_event \<Rightarrow> bool" where
  "event_ok e \<longleftrightarrow> opt_gt0 (pe_entry_reference_price e) \<and> opt_gt0 (pe_reference_price e)
     \<and> (case pe_modeled_roundtrip_cost_return e of None \<Rightarrow> True | Some v \<Rightarrow> 0 \<le> v)"

definition position_ok :: "paper_position \<Rightarrow> bool" where
  "position_ok p \<longleftrightarrow> 0 < pp_capital_reserved_usd p \<and> 0 < pp_notional_usd p
     \<and> 0 < pp_entry_reference_price p \<and> 0 < pp_current_reference_price p
     \<and> 0 \<le> pp_modeled_roundtrip_cost_return p"

definition snapshot_ok :: "portfolio_snapshot \<Rightarrow> bool" where
  "snapshot_ok s \<longleftrightarrow> 0 \<le> ps_reserved_capital_usd s \<and> 0 \<le> ps_cumulative_modeled_cost_usd s
     \<and> 0 \<le> ps_drawdown_fraction s \<and> 0 \<le> ps_max_drawdown_fraction s"

section \<open>The store\<close>

record event_row =
  er_event :: portfolio_event
  er_previous_lineage_hash :: "string option"
  er_lineage_hash :: string

record snapshot_row =
  sr_snapshot :: portfolio_snapshot
  sr_lineage_hash :: string

text \<open>The tables, and how many values of the uuid stream have been drawn.\<close>

record ledger =
  ld_events :: "event_row list"
  ld_snapshots :: "snapshot_row list"
  ld_drawn :: nat

record ledger_env =
  en_now :: time
  en_uuid :: "nat \<Rightarrow> string"
  en_sha256_hex :: "string \<Rightarrow> string"
  en_event_json :: "portfolio_event \<Rightarrow> string"
  en_snapshot_json :: "portfolio_snapshot \<Rightarrow> string"
  en_float :: "string \<Rightarrow> real result"

type_synonym 'a act = "(ledger, 'a) action"

definition draw_uuid :: "ledger_env \<Rightarrow> string act" where
  "draw_uuid env = (\<lambda>s. (Inr (en_uuid env (ld_drawn s)), s\<lparr>ld_drawn := Suc (ld_drawn s)\<rparr>))"

text \<open>A new event: its default id is drawn, then the fields are validated.\<close>

definition blank_event :: portfolio_event where
  "blank_event = \<lparr>pe_event_id = [], pe_portfolio_id = portfolio_id, pe_event_type = Skip, pe_observed_at = 0,
     pe_position_id = None, pe_candidate_id = None, pe_family = None, pe_strategy = None, pe_asset = None,
     pe_venue = None, pe_symbol = None, pe_market_kind = None, pe_exposure_kind = None,
     pe_cash_delta_usd = 0, pe_realized_pnl_delta_usd = 0, pe_modeled_cost_usd = 0,
     pe_capital_reserved_usd = 0, pe_notional_usd = 0, pe_entry_reference_price = None,
     pe_reference_price = None, pe_due_at = None, pe_modeled_roundtrip_cost_return = None,
     pe_unrealized_pnl_usd = 0, pe_reason = None, pe_details = [], pe_paper_only = True,
     pe_live_execution_authority = False\<rparr>"

definition new_event :: "ledger_env \<Rightarrow> portfolio_event \<Rightarrow> portfolio_event act" where
  "new_event env e = abind (draw_uuid env) (\<lambda>i.
     alift (if event_ok e then Inr (e\<lparr>pe_event_id := i\<rparr>) else Inl (ValidationError ''CanonicalPortfolioEvent'')))"

section \<open>The ledger\<close>

definition portfolio_rows :: "ledger \<Rightarrow> event_row list" where
  "portfolio_rows s = filter (\<lambda>r. pe_portfolio_id (er_event r) = portfolio_id) (ld_events s)"

definition last_event_hash :: "ledger \<Rightarrow> string option" where
  "last_event_hash s = (case rev (portfolio_rows s) of [] \<Rightarrow> None | r # _ \<Rightarrow> Some (er_lineage_hash r))"

definition lineage :: "ledger_env \<Rightarrow> string option \<Rightarrow> portfolio_event \<Rightarrow> string" where
  "lineage env previous e = en_sha256_hex env (str_or previous [] @ ''|'' @ en_event_json env e)"

definition record_event :: "ledger_env \<Rightarrow> portfolio_event \<Rightarrow> string act" where
  "record_event env e = (\<lambda>s.
     if pe_portfolio_id e \<noteq> portfolio_id
     then (Inl (ValueError ''only the canonical paper portfolio is supported''), s)
     else let previous = last_event_hash s in
       (Inr (pe_event_id e),
        if pe_event_id e \<in> pe_event_id ` er_event ` set (ld_events s) then s
        else s\<lparr>ld_events := ld_events s @ [\<lparr>er_event = e, er_previous_lineage_hash = previous,
               er_lineage_hash = lineage env previous e\<rparr>]\<rparr>))"

definition events_all :: "ledger \<Rightarrow> portfolio_event list" where
  "events_all s = map er_event (portfolio_rows s)"

text \<open>\<open>float(details.get("initial_capital_usd", 0.0))\<close>; a value that is not a number raises.\<close>

definition genesis_capital :: "ledger_env \<Rightarrow> portfolio_event \<Rightarrow> real result" where
  "genesis_capital env e =
     (case map_of (pe_details e) ''initial_capital_usd'' of
        None \<Rightarrow> Inr 0
      | Some (PFloat x) \<Rightarrow> Inr x
      | Some (PInt i) \<Rightarrow> Inr (of_int i)
      | Some (PStr s) \<Rightarrow> en_float env s
      | Some (PBool b) \<Rightarrow> Inr (if b then 1 else 0)
      | Some PMInf \<Rightarrow> Inl (RuntimeError ''canonical paper portfolio genesis capital does not match $250,000 invariant'')
      | _ \<Rightarrow> Inl (ValueError ''float() argument''))"

definition genesis_event :: "time \<Rightarrow> portfolio_event" where
  "genesis_event t = blank_event\<lparr>pe_event_type := Genesis, pe_observed_at := t,
     pe_cash_delta_usd := initial_capital, pe_reason := Some ''canonical paper portfolio genesis'',
     pe_details := [(''initial_capital_usd'', PFloat initial_capital)]\<rparr>"

definition ensure_genesis :: "ledger_env \<Rightarrow> time option \<Rightarrow> portfolio_event act" where
  "ensure_genesis env observed_at = (\<lambda>s.
     case events_all s of
       first # _ \<Rightarrow>
         (if pe_event_type first \<noteq> Genesis
          then (Inl (RuntimeError ''canonical paper portfolio exists without a genesis event''), s)
          else (rbind (genesis_capital env first) (\<lambda>initial.
             if \<bar>initial - initial_capital\<bar> > 1 / 10 ^ 9
             then Inl (RuntimeError ''canonical paper portfolio genesis capital does not match $250,000 invariant'')
             else Inr first), s))
     | [] \<Rightarrow> abind (new_event env (genesis_event (case observed_at of Some t \<Rightarrow> t | None \<Rightarrow> en_now env)))
         (\<lambda>e. abind (record_event env e) (\<lambda>_. alift (Inr e))) s)"

definition record_snapshot :: "ledger_env \<Rightarrow> portfolio_snapshot \<Rightarrow> unit act" where
  "record_snapshot env p = (\<lambda>s. (Inr (), s\<lparr>ld_snapshots := ld_snapshots s @
     [\<lparr>sr_snapshot = p, sr_lineage_hash = en_sha256_hex env (en_snapshot_json env p)\<rparr>]\<rparr>))"

definition portfolio_snapshots :: "ledger \<Rightarrow> portfolio_snapshot list" where
  "portfolio_snapshots s = filter (\<lambda>p. ps_portfolio_id p = portfolio_id) (map sr_snapshot (ld_snapshots s))"

definition latest_snapshot :: "ledger \<Rightarrow> portfolio_snapshot option" where
  "latest_snapshot s = (case rev (portfolio_snapshots s) of [] \<Rightarrow> None | p # _ \<Rightarrow> Some p)"

definition clamp_limit :: "int \<Rightarrow> nat" where
  "clamp_limit n = nat (max 1 (min 1000 n))"

definition snapshot_history :: "int \<Rightarrow> ledger \<Rightarrow> portfolio_snapshot list" where
  "snapshot_history n s = take (clamp_limit n) (rev (portfolio_snapshots s))"

definition trade_history :: "int \<Rightarrow> ledger \<Rightarrow> portfolio_event list" where
  "trade_history n s = take (clamp_limit n) (rev (filter (\<lambda>e. pe_event_type e = Close) (events_all s)))"

definition historical_peak_and_drawdown :: "ledger \<Rightarrow> real \<times> real" where
  "historical_peak_and_drawdown s =
     (Max (set (initial_capital # map ps_peak_nav_usd (portfolio_snapshots s))),
      Max (set (0 # map ps_max_drawdown_fraction (portfolio_snapshots s))))"

section \<open>The current state\<close>

text \<open>The variables of the loop over the events.\<close>

record tally =
  ta_opened :: "(string \<times> portfolio_event) list"
  ta_closed :: "(string \<times> portfolio_event) list"
  ta_latest_mark :: "(string \<times> portfolio_event) list"
  ta_cash :: real
  ta_realized :: real
  ta_costs :: real
  ta_skipped :: nat
  ta_pnl_mechanism :: "(string \<times> real) list"
  ta_pnl_strategy :: "(string \<times> real) list"

definition empty_tally :: tally where
  "empty_tally = \<lparr>ta_opened = [], ta_closed = [], ta_latest_mark = [], ta_cash = 0, ta_realized = 0,
     ta_costs = 0, ta_skipped = 0, ta_pnl_mechanism = [], ta_pnl_strategy = []\<rparr>"

text \<open>\<open>d[k] += v\<close> on a \<open>defaultdict(float)\<close>.\<close>

definition add_to :: "string \<Rightarrow> real \<Rightarrow> (string \<times> real) list \<Rightarrow> (string \<times> real) list" where
  "add_to k v d = AList.update k ((case map_of d k of None \<Rightarrow> 0 | Some x \<Rightarrow> x) + v) d"

definition add_named :: "string option \<Rightarrow> real \<Rightarrow> (string \<times> real) list \<Rightarrow> (string \<times> real) list" where
  "add_named k v d = (if truthy k then add_to (str_or k []) v d else d)"

definition tally_event :: "tally \<Rightarrow> portfolio_event \<Rightarrow> tally" where
  "tally_event t0 e =
     (let t = t0\<lparr>ta_cash := ta_cash t0 + pe_cash_delta_usd e,
                 ta_realized := ta_realized t0 + pe_realized_pnl_delta_usd e,
                 ta_costs := ta_costs t0 + max 0 (pe_modeled_cost_usd e)\<rparr>;
          pid = str_or (pe_position_id e) []
      in case pe_event_type e of
           Open \<Rightarrow> if truthy (pe_position_id e) then t\<lparr>ta_opened := AList.update pid e (ta_opened t)\<rparr> else t
         | Mark \<Rightarrow> if truthy (pe_position_id e) then t\<lparr>ta_latest_mark := AList.update pid e (ta_latest_mark t)\<rparr> else t
         | Close \<Rightarrow> if truthy (pe_position_id e)
             then t\<lparr>ta_closed := AList.update pid e (ta_closed t),
                    ta_pnl_mechanism := add_named (pe_family e) (pe_realized_pnl_delta_usd e) (ta_pnl_mechanism t),
                    ta_pnl_strategy := add_named (pe_strategy e) (pe_realized_pnl_delta_usd e) (ta_pnl_strategy t)\<rparr>
             else t
         | Skip \<Rightarrow> t\<lparr>ta_skipped := Suc (ta_skipped t)\<rparr>
         | Genesis \<Rightarrow> t)"

definition tally_of :: "portfolio_event list \<Rightarrow> tally" where
  "tally_of es = foldl tally_event empty_tally es"

text \<open>The open events that the code turns into positions: the others are passed over.\<close>

definition complete_open :: "portfolio_event \<Rightarrow> bool" where
  "complete_open e \<longleftrightarrow> truthy (pe_candidate_id e) \<and> truthy (pe_family e) \<and> truthy (pe_strategy e)
     \<and> truthy (pe_asset e) \<and> truthy (pe_venue e) \<and> truthy (pe_symbol e) \<and> truthy (pe_market_kind e)
     \<and> truthy (pe_exposure_kind e) \<and> pe_entry_reference_price e \<noteq> None \<and> pe_due_at e \<noteq> None
     \<and> pe_modeled_roundtrip_cost_return e \<noteq> None"

definition opt_the :: "'a \<Rightarrow> 'a option \<Rightarrow> 'a" where
  "opt_the d x = (case x of None \<Rightarrow> d | Some v \<Rightarrow> v)"

definition position_of :: "tally \<Rightarrow> string \<Rightarrow> portfolio_event \<Rightarrow> paper_position" where
  "position_of t pid e =
     (let mark = opt_the e (map_of (ta_latest_mark t) pid); entry = opt_the 0 (pe_entry_reference_price e)
      in \<lparr>pp_position_id = pid, pp_candidate_id = str_or (pe_candidate_id e) [],
          pp_family = str_or (pe_family e) [], pp_strategy = str_or (pe_strategy e) [],
          pp_asset = str_or (pe_asset e) [], pp_venue = str_or (pe_venue e) [],
          pp_symbol = str_or (pe_symbol e) [], pp_market_kind = str_or (pe_market_kind e) [],
          pp_exposure_kind = str_or (pe_exposure_kind e) [], pp_opened_at = pe_observed_at e,
          pp_due_at = opt_the 0 (pe_due_at e), pp_capital_reserved_usd = pe_capital_reserved_usd e,
          pp_notional_usd = pe_notional_usd e, pp_entry_reference_price = entry,
          pp_current_reference_price = opt_the entry (pe_reference_price mark),
          pp_modeled_roundtrip_cost_return = opt_the 0 (pe_modeled_roundtrip_cost_return e),
          pp_unrealized_pnl_usd = pe_unrealized_pnl_usd mark, pp_paper_only = True\<rparr>)"

definition checked_position :: "tally \<Rightarrow> string \<Rightarrow> portfolio_event \<Rightarrow> paper_position result" where
  "checked_position t pid e = (let p = position_of t pid e in
     if position_ok p then Inr p else Inl (ValidationError ''CanonicalPaperPosition''))"

definition live_opens :: "tally \<Rightarrow> (string \<times> portfolio_event) list" where
  "live_opens t = filter (\<lambda>(pid, e). pid \<notin> fst ` set (ta_closed t) \<and> complete_open e) (ta_opened t)"

definition portfolio_state :: "real \<times> real \<Rightarrow> time \<Rightarrow> portfolio_event list \<Rightarrow> portfolio_snapshot result" where
  "portfolio_state hist observed es =
     (let t = tally_of es in
      rbind (rmap (\<lambda>(pid, e). checked_position t pid e) (live_opens t)) (\<lambda>positions.
      let unrealized = (\<Sum>p\<leftarrow>positions. pp_unrealized_pnl_usd p);
          reserved = (\<Sum>p\<leftarrow>positions. pp_capital_reserved_usd p);
          mechanism = foldl (\<lambda>d p. add_to (pp_family p) (pp_unrealized_pnl_usd p) d) (ta_pnl_mechanism t) positions;
          strategy = foldl (\<lambda>d p. add_to (pp_strategy p) (pp_unrealized_pnl_usd p) d) (ta_pnl_strategy t) positions;
          nav = ta_cash t + reserved + unrealized;
          peak = max (fst hist) nav;
          drawdown = (if peak > 0 then max 0 ((peak - nav) / peak) else 0);
          snap = \<lparr>ps_portfolio_id = portfolio_id, ps_observed_at = observed,
            ps_initial_capital_usd = initial_capital, ps_cash_usd = ta_cash t,
            ps_reserved_capital_usd = reserved, ps_unrealized_pnl_usd = unrealized,
            ps_realized_pnl_usd = ta_realized t, ps_cumulative_modeled_cost_usd = ta_costs t,
            ps_nav_usd = nav, ps_total_return = nav / initial_capital - 1, ps_peak_nav_usd = peak,
            ps_drawdown_fraction = drawdown, ps_max_drawdown_fraction = max (snd hist) drawdown,
            ps_open_position_count = length positions, ps_closed_trade_count = length (ta_closed t),
            ps_skipped_allocation_count = ta_skipped t,
            ps_positions = sort_key (\<lambda>p. (pp_due_at p, pp_position_id p)) positions,
            ps_pnl_by_mechanism_usd = sort_key fst mechanism, ps_pnl_by_strategy_usd = sort_key fst strategy,
            ps_paper_only = True, ps_live_execution_authority = False\<rparr>
      in if snapshot_ok snap then Inr snap
         else Inl (ValidationError ''CanonicalPaperPortfolioSnapshot'')))"

definition current_state :: "ledger_env \<Rightarrow> time option \<Rightarrow> portfolio_snapshot act" where
  "current_state env observed_at = abind (ensure_genesis env observed_at) (\<lambda>_. \<lambda>s.
     (portfolio_state (historical_peak_and_drawdown s)
        (case observed_at of Some t \<Rightarrow> t | None \<Rightarrow> en_now env) (events_all s), s))"

end
