(* ===== verification/Portfolio_Service.thy ===== *)
theory Portfolio_Service
  imports Ledger
begin

text \<open>
  The service of canonical_paper_portfolio.py: one cycle marks and closes the open positions
  against the collected quotes, then opens those decisions of the allocator it can settle.
  The awaited collection and the awaited allocator are parameters of the cycle.
\<close>

section \<open>Quotes and support\<close>

type_synonym quote_key = "string \<times> string \<times> string \<times> string"

definition quote_key_of :: "market_quote \<Rightarrow> quote_key" where
  "quote_key_of q = (mq_venue q, upper (mq_asset q), market_kind_value (mq_market_kind q), mq_symbol q)"

definition index_quote :: "(quote_key \<rightharpoonup> market_quote) \<Rightarrow> market_quote \<Rightarrow> (quote_key \<rightharpoonup> market_quote)" where
  "index_quote m q =
     (case m (quote_key_of q) of
        None \<Rightarrow> m(quote_key_of q \<mapsto> q)
      | Some previous \<Rightarrow> if mq_observed_at q > mq_observed_at previous then m(quote_key_of q \<mapsto> q) else m)"

definition quote_index :: "market_quote list \<Rightarrow> (quote_key \<rightharpoonup> market_quote)" where
  "quote_index quotes = foldl index_quote (\<lambda>_. None) quotes"

definition quote_for :: "(quote_key \<rightharpoonup> market_quote) \<Rightarrow> paper_position \<Rightarrow> market_quote option" where
  "quote_for index p = index (pp_venue p, upper (pp_asset p), pp_market_kind p, pp_symbol p)"

definition support_reason :: "unified_allocation \<Rightarrow> bool \<times> string option" where
  "support_reason a =
     (if ua_family a = ''alpha'' \<and> ua_exposure_kind a = Directional_long
         \<and> ua_instrument_market_kind a = Some (market_kind_value SPOT) \<and> length (ua_venues a) = 1
         \<and> truthy (ua_instrument_symbol a) \<and> ua_entry_reference_price a \<noteq> None
         \<and> ua_modeled_roundtrip_cost_return a \<noteq> None \<and> ua_modeled_holding_hours a \<noteq> None
      then (True, None)
      else if ua_family a \<noteq> ''alpha''
      then (False, Some ''multi-leg structural portfolio settlement is not yet supported'')
      else if ua_exposure_kind a = Directional_short
      then (False, Some ''perpetual short portfolio settlement requires realized funding accrual'')
      else (False, Some ''allocation lacks complete spot directional settlement metadata''))"

definition position_key :: "paper_position \<Rightarrow> string \<times> string" where
  "position_key p = (pp_venue p, pp_symbol p)"

section \<open>Marks and closes\<close>

text \<open>The entry price of a position is positive, so the return is defined.\<close>

definition gross_return :: "paper_position \<Rightarrow> market_quote \<Rightarrow> real" where
  "gross_return p q = mq_mid q / pp_entry_reference_price p - 1"

definition net_return :: "paper_position \<Rightarrow> market_quote \<Rightarrow> real" where
  "net_return p q = gross_return p q - pp_modeled_roundtrip_cost_return p"

definition return_details :: "paper_position \<Rightarrow> market_quote \<Rightarrow> evidence" where
  "return_details p q = [(''gross_return'', PFloat (gross_return p q)),
     (''net_return_after_modeled_roundtrip_cost'', PFloat (net_return p q))]"

definition position_event :: "paper_position \<Rightarrow> market_quote \<Rightarrow> time \<Rightarrow> portfolio_event" where
  "position_event p q t = blank_event\<lparr>pe_observed_at := t, pe_position_id := Some (pp_position_id p),
     pe_candidate_id := Some (pp_candidate_id p), pe_family := Some (pp_family p),
     pe_strategy := Some (pp_strategy p), pe_asset := Some (pp_asset p), pe_venue := Some (pp_venue p),
     pe_symbol := Some (pp_symbol p), pe_market_kind := Some (pp_market_kind p),
     pe_exposure_kind := Some (pp_exposure_kind p),
     pe_entry_reference_price := Some (pp_entry_reference_price p), pe_reference_price := Some (mq_mid q),
     pe_due_at := Some (pp_due_at p),
     pe_modeled_roundtrip_cost_return := Some (pp_modeled_roundtrip_cost_return p),
     pe_details := return_details p q\<rparr>"

definition mark_event :: "paper_position \<Rightarrow> market_quote \<Rightarrow> time \<Rightarrow> portfolio_event" where
  "mark_event p q t = (position_event p q t)\<lparr>pe_event_type := Mark,
     pe_unrealized_pnl_usd := pp_notional_usd p * net_return p q\<rparr>"

definition close_event :: "paper_position \<Rightarrow> market_quote \<Rightarrow> time \<Rightarrow> portfolio_event" where
  "close_event p q t =
     (let pnl = pp_notional_usd p * net_return p q
      in (position_event p q t)\<lparr>pe_event_type := Close, pe_cash_delta_usd := pp_capital_reserved_usd p + pnl,
        pe_realized_pnl_delta_usd := pnl,
        pe_modeled_cost_usd := pp_notional_usd p * pp_modeled_roundtrip_cost_return p,
        pe_capital_reserved_usd := pp_capital_reserved_usd p, pe_notional_usd := pp_notional_usd p,
        pe_reason := Some ''paper holding horizon matured''\<rparr>)"

definition write_event :: "ledger_env \<Rightarrow> portfolio_event \<Rightarrow> unit act" where
  "write_event env e = abind (new_event env e) (\<lambda>e'. abind (record_event env e') (\<lambda>_. alift (Inr ())))"

record cycle_counts =
  cc_closed :: nat
  cc_marked :: nat
  cc_opened :: nat
  cc_skipped :: nat

definition settle_position ::
  "ledger_env \<Rightarrow> (quote_key \<rightharpoonup> market_quote) \<Rightarrow> time \<Rightarrow> paper_position \<Rightarrow> cycle_counts \<Rightarrow> cycle_counts act" where
  "settle_position env index completed p c =
     (case quote_for index p of
        None \<Rightarrow> alift (Inr c)
      | Some q \<Rightarrow>
          if pp_due_at p \<le> completed
          then abind (write_event env (close_event p q completed)) (\<lambda>_. alift (Inr (c\<lparr>cc_closed := Suc (cc_closed c)\<rparr>)))
          else abind (write_event env (mark_event p q completed)) (\<lambda>_. alift (Inr (c\<lparr>cc_marked := Suc (cc_marked c)\<rparr>))))"

section \<open>Opens and skips\<close>

fun exposure_value :: "exposure_kind \<Rightarrow> string" where
  "exposure_value Market_neutral = ''market_neutral''"
| "exposure_value Directional_long = ''directional_long''"
| "exposure_value Directional_short = ''directional_short''"

definition first_venue :: "unified_allocation \<Rightarrow> string option" where
  "first_venue a = (case ua_venues a of [] \<Rightarrow> None | v # _ \<Rightarrow> Some v)"

definition allocation_event :: "unified_allocation \<Rightarrow> time \<Rightarrow> portfolio_event" where
  "allocation_event a t = blank_event\<lparr>pe_observed_at := t, pe_candidate_id := Some (ua_candidate_id a),
     pe_family := Some (ua_family a), pe_strategy := Some (ua_strategy a), pe_asset := Some (ua_asset a),
     pe_venue := first_venue a, pe_symbol := ua_instrument_symbol a\<rparr>"

definition skip_event :: "unified_allocation \<Rightarrow> time \<Rightarrow> string option \<Rightarrow> portfolio_event" where
  "skip_event a t reason = (allocation_event a t)\<lparr>pe_market_kind := ua_instrument_market_kind a,
     pe_exposure_kind := Some (exposure_value (ua_exposure_kind a)), pe_reason := reason\<rparr>"

definition cash_skip_event :: "unified_allocation \<Rightarrow> time \<Rightarrow> portfolio_event" where
  "cash_skip_event a t = (allocation_event a t)\<lparr>
     pe_reason := Some ''insufficient canonical paper cash after existing open positions''\<rparr>"

definition xobj :: "xreal \<Rightarrow> pyobj" where
  "xobj x = (case x of Fin v \<Rightarrow> PFloat v | MInf \<Rightarrow> PMInf)"

text \<open>The time at which the position is due: the addition may leave the range of dates.\<close>

definition allocation_due :: "time \<Rightarrow> unified_allocation \<Rightarrow> time result" where
  "allocation_due t a = add_hours (opt_the t (ua_source_observed_at a)) (opt_the 0 (ua_modeled_holding_hours a))"

definition opened_event :: "unified_allocation \<Rightarrow> time \<Rightarrow> string \<Rightarrow> time \<Rightarrow> portfolio_event" where
  "opened_event a t pid due =
     (let cost = opt_the 0 (ua_modeled_roundtrip_cost_return a)
      in (allocation_event a t)\<lparr>pe_event_type := Open, pe_position_id := Some pid,
        pe_market_kind := ua_instrument_market_kind a,
        pe_exposure_kind := Some (exposure_value (ua_exposure_kind a)),
        pe_cash_delta_usd := - ua_capital_required_usd a, pe_capital_reserved_usd := ua_capital_required_usd a,
        pe_notional_usd := ua_notional_usd_per_leg a,
        pe_entry_reference_price := ua_entry_reference_price a,
        pe_reference_price := ua_entry_reference_price a, pe_due_at := Some due,
        pe_modeled_roundtrip_cost_return := ua_modeled_roundtrip_cost_return a,
        pe_unrealized_pnl_usd := - ua_notional_usd_per_leg a * cost,
        pe_reason := Some ''qualified allocator decision opened in canonical paper portfolio'',
        pe_details := [(''expected_profit_usd'', PFloat (ua_expected_profit_usd_per_deployment a)),
          (''expected_return_on_reserved_capital'', PFloat (ua_expected_return_on_reserved_capital a)),
          (''source_return_metric'', PStr (ua_source_return_metric a)),
          (''source_return_value'', xobj (ua_source_return_value a))]\<rparr>)"

definition open_event :: "unified_allocation \<Rightarrow> time \<Rightarrow> string \<Rightarrow> portfolio_event result" where
  "open_event a t pid = rbind (allocation_due t a) (\<lambda>due. Inr (opened_event a t pid due))"

record open_vars =
  ow_remaining_cash :: real
  ow_open_keys :: "(string \<times> string) set"
  ow_counts :: cycle_counts

definition count_skip :: "open_vars \<Rightarrow> open_vars" where
  "count_skip v = v\<lparr>ow_counts := (ow_counts v)\<lparr>cc_skipped := Suc (cc_skipped (ow_counts v))\<rparr>\<rparr>"

text \<open>The body of the loop; the assertions it makes follow from the support test.\<close>

definition open_allocation :: "ledger_env \<Rightarrow> time \<Rightarrow> unified_allocation \<Rightarrow> open_vars \<Rightarrow> open_vars act" where
  "open_allocation env t a v =
     (case support_reason a of (supported, reason) \<Rightarrow>
      if \<not> supported
      then abind (write_event env (skip_event a t reason)) (\<lambda>_. alift (Inr (count_skip v)))
      else case (first_venue a, ua_instrument_symbol a) of
        (Some venue, Some symbol) \<Rightarrow>
          if (venue, symbol) \<in> ow_open_keys v
          then abind (write_event env (skip_event a t
                 (Some ''canonical portfolio already has an open position in this venue/symbol'')))
                 (\<lambda>_. alift (Inr (count_skip v)))
          else let capital = ua_capital_required_usd a in
            if capital > ow_remaining_cash v + 1 / 10 ^ 9
            then abind (write_event env (cash_skip_event a t)) (\<lambda>_. alift (Inr (count_skip v)))
            else abind (draw_uuid env) (\<lambda>pid.
                 abind (alift (open_event a t pid)) (\<lambda>e.
                 abind (write_event env e) (\<lambda>_.
                 alift (Inr (v\<lparr>ow_remaining_cash := ow_remaining_cash v - capital,
                   ow_open_keys := insert (venue, symbol) (ow_open_keys v),
                   ow_counts := (ow_counts v)\<lparr>cc_opened := Suc (cc_opened (ow_counts v))\<rparr>\<rparr>)))))
      | _ \<Rightarrow> alift (Inl AssertionError))"

section \<open>The cycle\<close>

record collected_scan =
  cs_market_quotes :: "market_quote list"
  cs_completed_at :: time

definition finish_cycle :: "ledger_env \<Rightarrow> time \<Rightarrow> cycle_counts \<Rightarrow> portfolio_cycle act" where
  "finish_cycle env completed c =
     abind (current_state env (Some completed)) (\<lambda>final.
     abind (record_snapshot env final) (\<lambda>_.
     abind (draw_uuid env) (\<lambda>i.
     alift (Inr \<lparr>cy_cycle_id = i, cy_observed_at = completed, cy_opened_position_count = cc_opened c,
       cy_closed_position_count = cc_closed c, cy_marked_position_count = cc_marked c,
       cy_skipped_allocation_count = cc_skipped c, cy_nav_usd = ps_nav_usd final,
       cy_cash_usd = ps_cash_usd final, cy_paper_only = True\<rparr>))))"

definition open_positions ::
  "ledger_env \<Rightarrow> (real \<Rightarrow> unified_plan result) \<Rightarrow> portfolio_snapshot \<Rightarrow> cycle_counts \<Rightarrow> cycle_counts act" where
  "open_positions env allocate after_close c =
     (let cash = max 0 (ps_cash_usd after_close) in
      if cash > 0
      then abind (alift (allocate cash)) (\<lambda>plan.
           abind (afold (open_allocation env (up_observed_at plan)) (up_allocations plan)
             \<lparr>ow_remaining_cash = cash, ow_open_keys = set (map position_key (ps_positions after_close)),
              ow_counts = c\<rparr>) (\<lambda>v. alift (Inr (ow_counts v))))
      else alift (Inr c))"

definition run_cycle ::
  "ledger_env \<Rightarrow> collected_scan result \<Rightarrow> (real \<Rightarrow> unified_plan result) \<Rightarrow> portfolio_cycle act" where
  "run_cycle env collected allocate =
     abind (ensure_genesis env None) (\<lambda>_.
     abind (alift collected) (\<lambda>scan.
     abind (current_state env (Some (cs_completed_at scan))) (\<lambda>state.
     abind (afold (settle_position env (quote_index (cs_market_quotes scan)) (cs_completed_at scan))
       (ps_positions state) \<lparr>cc_closed = 0, cc_marked = 0, cc_opened = 0, cc_skipped = 0\<rparr>) (\<lambda>c.
     abind (current_state env (Some (cs_completed_at scan))) (\<lambda>after_close.
     abind (open_positions env allocate after_close c) (\<lambda>c'.
     finish_cycle env (cs_completed_at scan) c'))))))"

section \<open>The performance summary\<close>

record performance =
  pm_available :: bool
  pm_current_nav_usd :: "real option"
  pm_cash_usd :: "real option"
  pm_reserved_capital_usd :: "real option"
  pm_realized_pnl_usd :: "real option"
  pm_unrealized_pnl_usd :: "real option"
  pm_total_return :: "real option"
  pm_max_drawdown_fraction :: "real option"
  pm_open_position_count :: "nat option"
  pm_closed_trade_count :: "nat option"
  pm_mean_snapshot_return :: "real option"
  pm_positive_snapshot_rate :: "real option"

text \<open>\<open>zip(history, history[1:])\<close>, where the earlier value is positive.\<close>

definition snapshot_returns :: "portfolio_snapshot list \<Rightarrow> real list" where
  "snapshot_returns history = concat (map (\<lambda>(previous, current).
     if ps_nav_usd previous > 0 then [ps_nav_usd current / ps_nav_usd previous - 1] else [])
     (zip history (tl history)))"

definition performance_summary :: "ledger \<Rightarrow> performance" where
  "performance_summary s =
     (case latest_snapshot s of
        None \<Rightarrow> \<lparr>pm_available = False, pm_current_nav_usd = None, pm_cash_usd = None,
          pm_reserved_capital_usd = None, pm_realized_pnl_usd = None, pm_unrealized_pnl_usd = None,
          pm_total_return = None, pm_max_drawdown_fraction = None, pm_open_position_count = None,
          pm_closed_trade_count = None, pm_mean_snapshot_return = None, pm_positive_snapshot_rate = None\<rparr>
      | Some p \<Rightarrow>
          let returns = snapshot_returns (rev (snapshot_history 1000 s)); n = real (length returns)
          in \<lparr>pm_available = True, pm_current_nav_usd = Some (ps_nav_usd p), pm_cash_usd = Some (ps_cash_usd p),
          pm_reserved_capital_usd = Some (ps_reserved_capital_usd p),
          pm_realized_pnl_usd = Some (ps_realized_pnl_usd p),
          pm_unrealized_pnl_usd = Some (ps_unrealized_pnl_usd p),
          pm_total_return = Some (ps_total_return p),
          pm_max_drawdown_fraction = Some (ps_max_drawdown_fraction p),
          pm_open_position_count = Some (ps_open_position_count p),
          pm_closed_trade_count = Some (ps_closed_trade_count p),
          pm_mean_snapshot_return = (if returns = [] then None else Some (sum_list returns / n)),
          pm_positive_snapshot_rate = (if returns = [] then None
            else Some (real (length (filter (\<lambda>r. r > 0) returns)) / n))\<rparr>)"

end
