(* ===== verification/Ledger_Correct.thy ===== *)
theory Ledger_Correct
  imports Portfolio_Service
begin

text \<open>
  What the paper account keeps.  A history is a sequence of events that an account could
  write: genesis, opens under fresh ids, marks, closes of live positions that return the
  reserved capital with the profit, skips.  Every history balances; every cycle of the
  service, completed or aborted by an exception, leaves a history under an unbroken hash chain.
\<close>

section \<open>Dictionaries and tallies\<close>

lemma update_new: "k \<notin> fst ` set d \<Longrightarrow> AList.update k v d = d @ [(k, v)]"
  by (induction d) auto

lemma update_keys: "fst ` set (AList.update k v d) = insert k (fst ` set d)"
  using dom_update [of k v d] by (simp add: dom_map_of_conv_image_fst)

lemma tally_snoc: "tally_of (es @ [e]) = tally_event (tally_of es) e"
  by (simp add: tally_of_def)

lemma tally_cash [simp]:
  "ta_cash (tally_event t e) = ta_cash t + pe_cash_delta_usd e"
  "ta_realized (tally_event t e) = ta_realized t + pe_realized_pnl_delta_usd e"
  "ta_costs (tally_event t e) = ta_costs t + max 0 (pe_modeled_cost_usd e)"
  by (auto simp: tally_event_def Let_def split: event_type.split)

lemma tally_opened:
  "ta_opened (tally_event t e) = (if pe_event_type e = Open \<and> truthy (pe_position_id e)
     then AList.update (str_or (pe_position_id e) []) e (ta_opened t) else ta_opened t)"
  by (auto simp: tally_event_def Let_def split: event_type.split)

lemma tally_closed:
  "ta_closed (tally_event t e) = (if pe_event_type e = Close \<and> truthy (pe_position_id e)
     then AList.update (str_or (pe_position_id e) []) e (ta_closed t) else ta_closed t)"
  by (auto simp: tally_event_def Let_def split: event_type.split)

text \<open>The positions that are open: their ids, their instruments, the capital they hold.\<close>

definition live_ids :: "tally \<Rightarrow> string set" where
  "live_ids t = fst ` set (live_opens t)"

definition event_key :: "portfolio_event \<Rightarrow> string \<times> string" where
  "event_key e = (str_or (pe_venue e) [], str_or (pe_symbol e) [])"

definition live_keys :: "tally \<Rightarrow> (string \<times> string) list" where
  "live_keys t = map (event_key \<circ> snd) (live_opens t)"

definition live_capital :: "tally \<Rightarrow> real" where
  "live_capital t = (\<Sum>x\<leftarrow>live_opens t. pe_capital_reserved_usd (snd x))"

lemma live_open_event:
  assumes "pe_event_type e = Open" and "pe_position_id e = Some pid" and "pid \<noteq> []"
    and "pid \<notin> fst ` set (ta_opened t)" and "pid \<notin> fst ` set (ta_closed t)" and "complete_open e"
  shows "live_opens (tally_event t e) = live_opens t @ [(pid, e)]"
    and "ta_opened (tally_event t e) = ta_opened t @ [(pid, e)]" and "ta_closed (tally_event t e) = ta_closed t"
  using assms by (simp_all add: live_opens_def tally_opened tally_closed truthy_def str_or_def update_new)

lemma live_close_event:
  assumes "pe_event_type e = Close" and "pe_position_id e = Some pid" and "pid \<noteq> []"
  shows "live_opens (tally_event t e) = filter (\<lambda>x. fst x \<noteq> pid) (live_opens t)"
    and "ta_opened (tally_event t e) = ta_opened t"
    and "fst ` set (ta_closed (tally_event t e)) = insert pid (fst ` set (ta_closed t))"
proof -
  show o: "ta_opened (tally_event t e) = ta_opened t" using assms by (simp add: tally_opened)
  show c: "fst ` set (ta_closed (tally_event t e)) = insert pid (fst ` set (ta_closed t))"
    using assms by (simp add: tally_closed truthy_def str_or_def update_keys)
  show "live_opens (tally_event t e) = filter (\<lambda>x. fst x \<noteq> pid) (live_opens t)"
    unfolding live_opens_def o c by (auto simp: filter_filter intro!: filter_cong)
qed

lemma live_other_event:
  assumes "pe_event_type e \<noteq> Open" and "pe_event_type e \<noteq> Close"
  shows "live_opens (tally_event t e) = live_opens t" and "ta_opened (tally_event t e) = ta_opened t"
    and "ta_closed (tally_event t e) = ta_closed t"
  using assms by (simp_all add: live_opens_def tally_opened tally_closed)

section \<open>Histories\<close>

inductive history :: "portfolio_event list \<Rightarrow> bool" where
  start: "pe_event_type e = Genesis \<Longrightarrow> pe_cash_delta_usd e = initial_capital \<Longrightarrow> pe_realized_pnl_delta_usd e = 0
    \<Longrightarrow> pe_details e = [(''initial_capital_usd'', PFloat initial_capital)] \<Longrightarrow> history [e]"
| opened: "history es \<Longrightarrow> pe_event_type e = Open \<Longrightarrow> pe_position_id e = Some pid \<Longrightarrow> pid \<noteq> []
    \<Longrightarrow> pid \<notin> fst ` set (ta_opened (tally_of es)) \<Longrightarrow> complete_open e
    \<Longrightarrow> event_key e \<notin> set (live_keys (tally_of es)) \<Longrightarrow> pe_cash_delta_usd e = - pe_capital_reserved_usd e
    \<Longrightarrow> pe_realized_pnl_delta_usd e = 0 \<Longrightarrow> 0 < pe_capital_reserved_usd e \<Longrightarrow> 0 < pe_notional_usd e
    \<Longrightarrow> history (es @ [e])"
| marked: "history es \<Longrightarrow> pe_event_type e = Mark \<Longrightarrow> pe_cash_delta_usd e = 0
    \<Longrightarrow> pe_realized_pnl_delta_usd e = 0 \<Longrightarrow> history (es @ [e])"
| closed: "history es \<Longrightarrow> pe_event_type e = Close \<Longrightarrow> pe_position_id e = Some pid \<Longrightarrow> pid \<noteq> []
    \<Longrightarrow> (pid, f) \<in> set (live_opens (tally_of es))
    \<Longrightarrow> pe_cash_delta_usd e = pe_capital_reserved_usd f + pe_realized_pnl_delta_usd e \<Longrightarrow> history (es @ [e])"
| skipped: "history es \<Longrightarrow> pe_event_type e = Skip \<Longrightarrow> pe_cash_delta_usd e = 0
    \<Longrightarrow> pe_realized_pnl_delta_usd e = 0 \<Longrightarrow> history (es @ [e])"

definition account_ok :: "tally \<Rightarrow> bool" where
  "account_ok t \<longleftrightarrow> ta_cash t + live_capital t = initial_capital + ta_realized t
     \<and> distinct (map fst (ta_opened t)) \<and> fst ` set (ta_closed t) \<subseteq> fst ` set (ta_opened t)
     \<and> distinct (live_keys t) \<and> [] \<notin> fst ` set (ta_opened t)"

lemma sum_without:
  "distinct (map fst xs) \<Longrightarrow> (k, f) \<in> set xs \<Longrightarrow>
     (\<Sum>x\<leftarrow>filter (\<lambda>x. fst x \<noteq> k) xs. (g (snd x) :: real)) = (\<Sum>x\<leftarrow>xs. g (snd x)) - g f"
proof (induction xs)
  case (Cons y ys)
  show ?case
  proof (cases "y = (k, f)")
    case True
    then have "filter (\<lambda>x. fst x \<noteq> k) ys = ys" using Cons.prems(1) by (force simp: filter_id_conv)
    then show ?thesis using True by simp
  next
    case False
    then have "fst y \<noteq> k" using Cons.prems by (force simp: image_iff)
    then show ?thesis using Cons False by simp
  qed
qed simp

lemma live_distinct: "distinct (map fst (ta_opened t)) \<Longrightarrow> distinct (map fst (live_opens t))"
  by (simp add: live_opens_def distinct_map_filter)

text \<open>Every history balances its account.\<close>

lemma history_account: "history es \<Longrightarrow> account_ok (tally_of es)"
proof (induction rule: history.induct)
  case (start e)
  then show ?case
    by (simp add: account_ok_def tally_of_def tally_event_def empty_tally_def live_capital_def live_opens_def
        live_keys_def)
next
  case (opened es e pid)
  let ?t = "tally_of es"
  have new: "pid \<notin> fst ` set (ta_closed ?t)" using opened.hyps(5) opened.IH by (auto simp: account_ok_def)
  note live = live_open_event [OF opened.hyps(2-5) new opened.hyps(6)]
  show ?case
    using opened.IH opened.hyps(4-9) unfolding tally_snoc
    by (auto simp: account_ok_def live live_capital_def live_keys_def)
next
  case (marked es e)
  then show ?case unfolding tally_snoc
    by (simp add: account_ok_def live_other_event live_capital_def live_keys_def)
next
  case (closed es e pid f)
  let ?t = "tally_of es"
  note live = live_close_event [OF closed.hyps(2-4), of ?t]
  have "live_capital (tally_event ?t e) = live_capital ?t - pe_capital_reserved_usd f"
    unfolding live_capital_def live
    by (rule sum_without) (use closed.hyps(5) closed.IH live_distinct in \<open>auto simp: account_ok_def\<close>)
  moreover have "pid \<in> fst ` set (ta_opened ?t)" using closed.hyps(5) by (force simp: live_opens_def)
  moreover have "distinct (live_keys (tally_event ?t e))"
    using closed.IH by (simp add: live_keys_def live account_ok_def distinct_map_filter)
  ultimately show ?case
    using closed.IH closed.hyps(6) unfolding tally_snoc by (auto simp: account_ok_def live)
next
  case (skipped es e)
  then show ?case unfolding tally_snoc
    by (simp add: account_ok_def live_other_event live_capital_def live_keys_def)
qed

lemma history_first:
  "history es \<Longrightarrow> \<exists>e rest. es = e # rest \<and> pe_event_type e = Genesis
     \<and> pe_details e = [(''initial_capital_usd'', PFloat initial_capital)]"
  by (induction rule: history.induct) auto

lemma history_opens:
  "history es \<Longrightarrow> e \<in> set es \<Longrightarrow> pe_event_type e = Open \<Longrightarrow> 0 < pe_capital_reserved_usd e \<and> 0 < pe_notional_usd e"
  by (induction rule: history.induct) auto

section \<open>Reading the state\<close>

lemma update_cases: "x \<in> set (AList.update k v d) \<Longrightarrow> x = (k, v) \<or> x \<in> set d"
  by (induction d) (auto split: if_splits)

text \<open>The dictionaries of a tally hold events of the sequence, under their position ids.\<close>

lemma opened_values:
  "(k, e) \<in> set (ta_opened (tally_of es)) \<Longrightarrow> e \<in> set es \<and> pe_event_type e = Open \<and> pe_position_id e = Some k \<and> k \<noteq> []"
proof (induction es rule: rev_induct)
  case Nil
  then show ?case by (simp add: tally_of_def empty_tally_def)
next
  case (snoc x es)
  then show ?case
    by (cases "pe_position_id x")
      (auto simp: tally_snoc tally_opened truthy_def str_or_def dest!: update_cases split: if_splits)
qed

lemma closed_values:
  "(k, e) \<in> set (ta_closed (tally_of es)) \<Longrightarrow> e \<in> set es \<and> pe_event_type e = Close \<and> pe_position_id e = Some k"
proof (induction es rule: rev_induct)
  case Nil
  then show ?case by (simp add: tally_of_def empty_tally_def)
next
  case (snoc x es)
  then show ?case
    by (cases "pe_position_id x")
      (auto simp: tally_snoc tally_closed truthy_def str_or_def dest!: update_cases split: if_splits)
qed

lemma mark_values: "map_of (ta_latest_mark (tally_of es)) k = Some e \<Longrightarrow> e \<in> set es"
proof (induction es rule: rev_induct)
  case Nil
  then show ?case by (simp add: tally_of_def empty_tally_def)
next
  case (snoc x es)
  then show ?case
    by (auto simp: tally_snoc tally_event_def Let_def update_Some_unfold split: event_type.splits if_splits)
qed

lemma tally_costs_nonneg: "0 \<le> ta_costs (tally_of es)"
  by (induction es rule: rev_induct) (simp_all add: tally_snoc, simp add: tally_of_def empty_tally_def)

text \<open>Every position of a history of validated events passes the checks of its class.\<close>

lemma live_position_ok:
  assumes "history es" and "list_all event_ok es" and "(pid, e) \<in> set (live_opens (tally_of es))"
  shows "position_ok (position_of (tally_of es) pid e)"
proof -
  have "(pid, e) \<in> set (ta_opened (tally_of es))" and complete: "complete_open e"
    using assms(3) by (auto simp: live_opens_def)
  then have e: "e \<in> set es" "pe_event_type e = Open" using opened_values by auto
  then have ok: "event_ok e" and pos: "0 < pe_capital_reserved_usd e" "0 < pe_notional_usd e"
    using assms(1,2) history_opens by (auto simp: list_all_iff)
  obtain entry cost where ec: "pe_entry_reference_price e = Some entry" "pe_modeled_roundtrip_cost_return e = Some cost"
    using complete by (auto simp: complete_open_def)
  define mark where "mark = opt_the e (map_of (ta_latest_mark (tally_of es)) pid)"
  have "event_ok mark"
    using ok assms(2) mark_values by (auto simp: mark_def opt_the_def list_all_iff split: option.split)
  then have "0 < opt_the entry (pe_reference_price mark)"
    using ok ec by (auto simp: event_ok_def opt_gt0_def opt_the_def split: option.splits)
  then show ?thesis
    using ok pos ec by (simp add: position_ok_def position_of_def Let_def mark_def event_ok_def opt_gt0_def opt_the_def)
qed

text \<open>So the state of such a history is always defined.\<close>

lemma state_defined:
  assumes "history es" and "list_all event_ok es"
  shows "\<exists>p. portfolio_state hist obs es = Inr p"
proof -
  let ?t = "tally_of es"
  define ps where "ps = map (\<lambda>(pid, e). position_of ?t pid e) (live_opens ?t)"
  have "rmap (\<lambda>(pid, e). checked_position ?t pid e) (live_opens ?t) = Inr (map (\<lambda>(pid, e). position_of ?t pid e) (live_opens ?t))"
    using live_position_ok [OF assms]
    by (subst rmap_total [where g = "\<lambda>(pid, e). position_of ?t pid e"]) (auto simp: checked_position_def Let_def)
  then have run: "rmap (\<lambda>(pid, e). checked_position ?t pid e) (live_opens ?t) = Inr ps" by (simp only: ps_def)
  have "0 \<le> (\<Sum>p\<leftarrow>ps. pp_capital_reserved_usd p)"
    by (rule sum_list_nonneg) (use live_position_ok [OF assms] in \<open>fastforce simp: ps_def position_ok_def\<close>)
  then show ?thesis
    using tally_costs_nonneg [of es]
    by (auto simp: portfolio_state_def run Let_def snapshot_ok_def intro!: max.coboundedI2 divide_nonneg_pos)
qed

end
