(* ===== verification/Cycle_Correct.thy ===== *)
theory Cycle_Correct
  imports Ledger_Correct
begin

text \<open>
  The cycle of the portfolio service keeps the ledger: what a valid ledger is, and the
  operations of the service from the innermost out, each as a triple.
\<close>

section \<open>A valid ledger\<close>

fun chained :: "ledger_env \<Rightarrow> string option \<Rightarrow> event_row list \<Rightarrow> bool" where
  "chained env previous [] = True"
| "chained env previous (r # rs) = (er_previous_lineage_hash r = previous
     \<and> er_lineage_hash r = lineage env previous (er_event r) \<and> chained env (Some (er_lineage_hash r)) rs)"

definition last_hash :: "string option \<Rightarrow> event_row list \<Rightarrow> string option" where
  "last_hash previous rs = (if rs = [] then previous else Some (er_lineage_hash (last rs)))"

lemma chained_snoc:
  "chained env p (rs @ [r]) \<longleftrightarrow> chained env p rs \<and> er_previous_lineage_hash r = last_hash p rs
     \<and> er_lineage_hash r = lineage env (last_hash p rs) (er_event r)"
  by (induction rs arbitrary: p) (auto simp: last_hash_def)

definition drawn_ids :: "ledger_env \<Rightarrow> ledger \<Rightarrow> string set" where
  "drawn_ids env s = en_uuid env ` {..<ld_drawn s}"

text \<open>The ids of a row come from a set of drawn values.\<close>

definition row_drawn :: "string set \<Rightarrow> event_row \<Rightarrow> bool" where
  "row_drawn D r \<longleftrightarrow> pe_event_id (er_event r) \<in> D \<and> set_option (pe_position_id (er_event r)) \<subseteq> D"

lemma rows_drawn_mono: "list_all (row_drawn D) rs \<Longrightarrow> D \<subseteq> D' \<Longrightarrow> list_all (row_drawn D') rs"
  by (fastforce simp: list_all_iff row_drawn_def)

text \<open>
  What a stored snapshot promises: the balance sheet of the account, and one position at
  most on an instrument.  The peak and the worst drawdown never fall along the table.
\<close>

definition balanced :: "portfolio_snapshot \<Rightarrow> bool" where
  "balanced p \<longleftrightarrow> ps_portfolio_id p = portfolio_id
     \<and> ps_cash_usd p + ps_reserved_capital_usd p = initial_capital + ps_realized_pnl_usd p
     \<and> ps_nav_usd p = initial_capital + ps_realized_pnl_usd p + ps_unrealized_pnl_usd p
     \<and> distinct (map position_key (ps_positions p))"

definition snapshots_ok :: "ledger_env \<Rightarrow> snapshot_row list \<Rightarrow> bool" where
  "snapshots_ok env rs \<longleftrightarrow>
     list_all (\<lambda>r. balanced (sr_snapshot r) \<and> sr_lineage_hash r = en_sha256_hex env (en_snapshot_json env (sr_snapshot r))) rs
     \<and> sorted (map (ps_peak_nav_usd \<circ> sr_snapshot) rs)
     \<and> sorted (map (ps_max_drawdown_fraction \<circ> sr_snapshot) rs)"

definition ledger_ok :: "ledger_env \<Rightarrow> ledger \<Rightarrow> bool" where
  "ledger_ok env s \<longleftrightarrow>
     list_all (\<lambda>r. pe_portfolio_id (er_event r) = portfolio_id) (ld_events s)
     \<and> (ld_events s = [] \<or> history (map er_event (ld_events s)))
     \<and> list_all event_ok (map er_event (ld_events s))
     \<and> list_all (row_drawn (drawn_ids env s)) (ld_events s)
     \<and> chained env None (ld_events s) \<and> snapshots_ok env (ld_snapshots s)"

definition extends :: "ledger \<Rightarrow> ledger \<Rightarrow> bool" where
  "extends s t \<longleftrightarrow> (\<exists>rs ps. ld_events t = ld_events s @ rs \<and> ld_snapshots t = ld_snapshots s @ ps)
     \<and> ld_drawn s \<le> ld_drawn t"

lemma extends_refl [simp]: "extends s s"
  by (simp add: extends_def)

lemma extends_trans: "extends s t \<Longrightarrow> extends t u \<Longrightarrow> extends s u"
  by (fastforce simp: extends_def)

lemma all_rows: "ledger_ok env s \<Longrightarrow> portfolio_rows s = ld_events s"
  by (simp add: ledger_ok_def portfolio_rows_def list_all_iff filter_id_conv)

lemma all_events: "ledger_ok env s \<Longrightarrow> events_all s = map er_event (ld_events s)"
  by (simp add: events_all_def all_rows)

lemma last_event_hash_chain: "ledger_ok env s \<Longrightarrow> last_event_hash s = last_hash None (ld_events s)"
  by (cases "ld_events s" rule: rev_cases) (simp_all add: last_event_hash_def all_rows last_hash_def)

lemma drawn_ids_mono: "ld_drawn s \<le> ld_drawn t \<Longrightarrow> drawn_ids env s \<subseteq> drawn_ids env t"
  by (auto simp: drawn_ids_def)

lemma ledger_ok_drawn:
  assumes "ledger_ok env s" and "ld_drawn s \<le> n"
  shows "ledger_ok env (s\<lparr>ld_drawn := n\<rparr>)"
proof -
  have "drawn_ids env s \<subseteq> drawn_ids env (s\<lparr>ld_drawn := n\<rparr>)" using assms(2) by (auto simp: drawn_ids_def)
  then show ?thesis using assms(1) by (auto simp: ledger_ok_def intro: rows_drawn_mono)
qed

text \<open>Valid, and grown from \<open>s0\<close>: what every operation keeps, even when it raises.\<close>

definition grown :: "ledger_env \<Rightarrow> ledger \<Rightarrow> ledger \<Rightarrow> bool" where
  "grown env s0 s \<longleftrightarrow> ledger_ok env s \<and> extends s0 s"

text \<open>What an exception leaves: the same, and it is ruled out when all is \<open>fine\<close>.\<close>

definition aborted :: "ledger_env \<Rightarrow> bool \<Rightarrow> ledger \<Rightarrow> ledger \<Rightarrow> bool" where
  "aborted env fine s0 s \<longleftrightarrow> grown env s0 s \<and> \<not> fine"

text \<open>An event that may follow the ones there, whatever id it is given.\<close>

definition may_follow :: "portfolio_event list \<Rightarrow> portfolio_event \<Rightarrow> bool" where
  "may_follow es e \<longleftrightarrow> pe_portfolio_id e = portfolio_id
     \<and> (\<forall>i. history (es @ [e\<lparr>pe_event_id := i\<rparr>]))"

text \<open>The uuids of the stream are distinct and not empty.\<close>

definition uuid_ok :: "ledger_env \<Rightarrow> bool" where
  "uuid_ok env \<longleftrightarrow> inj (en_uuid env) \<and> [] \<notin> range (en_uuid env)"

lemma opened_drawn:
  assumes "ledger_ok env s"
  shows "fst ` set (ta_opened (tally_of (map er_event (ld_events s)))) \<subseteq> drawn_ids env s"
proof
  fix k assume "k \<in> fst ` set (ta_opened (tally_of (map er_event (ld_events s))))"
  then obtain e where "(k, e) \<in> set (ta_opened (tally_of (map er_event (ld_events s))))" by force
  from opened_values [OF this] obtain r where "r \<in> set (ld_events s)" "pe_position_id (er_event r) = Some k" by auto
  then show "k \<in> drawn_ids env s" using assms by (auto simp: ledger_ok_def list_all_iff row_drawn_def)
qed

lemma draw_fresh:
  assumes "uuid_ok env"
  shows "triple (\<lambda>s. grown env s0 s \<and> map er_event (ld_events s) = es) (draw_uuid env)
    (\<lambda>i s. grown env s0 s \<and> map er_event (ld_events s) = es \<and> i \<in> drawn_ids env s \<and> i \<noteq> []
       \<and> i \<notin> fst ` set (ta_opened (tally_of es))) E"
proof (rule tripleI, elim conjE)
  fix s assume g: "grown env s0 s" and es: "map er_event (ld_events s) = es"
  let ?i = "en_uuid env (ld_drawn s)" and ?t = "s\<lparr>ld_drawn := Suc (ld_drawn s)\<rparr>"
  have "?i \<notin> drawn_ids env s" using assms by (auto simp: drawn_ids_def uuid_ok_def dest: injD)
  then have "?i \<notin> fst ` set (ta_opened (tally_of es))"
    using opened_drawn [of env s] g es by (auto simp: grown_def)
  moreover have "grown env s0 ?t"
    using g ledger_ok_drawn [of env s "Suc (ld_drawn s)"] by (auto simp: grown_def extends_def)
  moreover have "?i \<noteq> []" using assms by (metis rangeI uuid_ok_def)
  ultimately show "case draw_uuid env s of (Inr i, t) \<Rightarrow> grown env s0 t \<and> map er_event (ld_events t) = es
      \<and> i \<in> drawn_ids env t \<and> i \<noteq> [] \<and> i \<notin> fst ` set (ta_opened (tally_of es)) | (Inl e, t) \<Rightarrow> E t"
    using es by (auto simp: draw_uuid_def drawn_ids_def)
qed

text \<open>Writing an event that may follow appends it, under a fresh id, and keeps the ledger valid.\<close>

lemma write_event_grown:
  assumes "uuid_ok env" and fine: "fine \<Longrightarrow> event_ok e"
  shows "triple (\<lambda>s. grown env s0 s \<and> map er_event (ld_events s) = es
      \<and> (event_ok e \<longrightarrow> may_follow es e)
      \<and> set_option (pe_position_id e) \<subseteq> drawn_ids env s)
    (write_event env e)
    (\<lambda>_ s. grown env s0 s \<and> event_ok e \<and> (\<exists>i. map er_event (ld_events s) = es @ [e\<lparr>pe_event_id := i\<rparr>]))
    (aborted env fine s0)"
proof (rule tripleI, elim conjE)
  fix s
  assume g: "grown env s0 s" and es: "map er_event (ld_events s) = es" and mf: "event_ok e \<longrightarrow> may_follow es e"
    and pid: "set_option (pe_position_id e) \<subseteq> drawn_ids env s"
  define i where "i = en_uuid env (ld_drawn s)"
  define s1 where "s1 = s\<lparr>ld_drawn := Suc (ld_drawn s)\<rparr>"
  have ok: "ledger_ok env s" using g by (simp add: grown_def)
  have s1: "ledger_ok env s1" unfolding s1_def by (rule ledger_ok_drawn [OF ok]) simp
  have i_drawn: "i \<in> drawn_ids env s1" by (auto simp: drawn_ids_def i_def s1_def)
  have "i \<notin> drawn_ids env s" using assms by (auto simp: uuid_ok_def drawn_ids_def i_def dest: injD)
  then have fresh: "i \<notin> pe_event_id ` er_event ` set (ld_events s)"
    using ok by (auto simp: ledger_ok_def list_all_iff row_drawn_def)
  show "case write_event env e s of (Inr x, t) \<Rightarrow> grown env s0 t \<and> event_ok e
      \<and> (\<exists>i. map er_event (ld_events t) = es @ [e\<lparr>pe_event_id := i\<rparr>]) | (Inl x, t) \<Rightarrow> aborted env fine s0 t"
  proof (cases "event_ok e")
    case False
    then show ?thesis using s1 g fine
      by (auto simp add: aborted_def write_event_def abind_def new_event_def draw_uuid_def alift_def s1_def grown_def extends_def)
  next
    case True
    let ?e = "e\<lparr>pe_event_id := i\<rparr>"
    let ?row = "\<lparr>er_event = ?e, er_previous_lineage_hash = last_event_hash s1,
      er_lineage_hash = lineage env (last_event_hash s1) ?e\<rparr>"
    let ?t = "s1\<lparr>ld_events := ld_events s @ [?row]\<rparr>"
    have mf: "may_follow es e" using True mf by simp
    have run: "write_event env e s = (Inr (), ?t)"
      using True fresh mf
      by (simp add: write_event_def abind_def new_event_def draw_uuid_def alift_def record_event_def
          s1_def i_def may_follow_def Let_def)
    have D: "drawn_ids env ?t = drawn_ids env s1" by (simp add: drawn_ids_def)
    have sub: "drawn_ids env s \<subseteq> drawn_ids env s1" by (auto simp: drawn_ids_def s1_def)
    have ev: "ld_events s1 = ld_events s" by (simp add: s1_def)
    have "list_all (row_drawn (drawn_ids env ?t)) (ld_events ?t)"
      using s1 pid i_drawn sub unfolding D ledger_ok_def ev by (auto simp: row_drawn_def)
    moreover have "chained env None (ld_events ?t)"
      using s1 last_event_hash_chain [OF s1] by (simp add: chained_snoc ledger_ok_def ev)
    moreover have "list_all (\<lambda>r. pe_portfolio_id (er_event r) = portfolio_id) (ld_events ?t)"
      using s1 mf by (simp add: ledger_ok_def ev may_follow_def)
    moreover have "snapshots_ok env (ld_snapshots ?t)" using s1 by (simp add: ledger_ok_def)
    moreover have "list_all event_ok (map er_event (ld_events ?t))"
      using s1 True by (simp add: ledger_ok_def ev event_ok_def)
    ultimately have "ledger_ok env ?t" using mf es by (simp add: ledger_ok_def may_follow_def)
    moreover have "extends s0 ?t" using g by (auto simp: grown_def extends_def s1_def)
    ultimately show ?thesis using es True by (auto simp: run grown_def)
  qed
qed

section \<open>Genesis and state\<close>

lemma genesis_may_follow: "may_follow [] (genesis_event t)"
  by (auto simp: may_follow_def genesis_event_def blank_event_def intro!: history.start)

lemma ensure_genesis_grown:
  assumes "uuid_ok env"
  shows "triple (\<lambda>s. grown env s0 s) (ensure_genesis env ob) (\<lambda>_ s. grown env s0 s \<and> ld_events s \<noteq> []) E"
proof (rule tripleI)
  fix s assume g: "grown env s0 s"
  then have ok: "ledger_ok env s" by (simp add: grown_def)
  show "case ensure_genesis env ob s of (Inr x, t) \<Rightarrow> grown env s0 t \<and> ld_events t \<noteq> [] | (Inl e, t) \<Rightarrow> E t"
  proof (cases "ld_events s")
    case Nil
    let ?g = "genesis_event (case ob of Some t \<Rightarrow> t | None \<Rightarrow> en_now env)"
    have eq: "ensure_genesis env ob s = (case write_event env ?g s of (Inl x, t) \<Rightarrow> (Inl x, t)
        | (Inr _, t) \<Rightarrow> (Inr (?g\<lparr>pe_event_id := en_uuid env (ld_drawn s)\<rparr>), t))"
      using Nil by (simp add: ensure_genesis_def all_events [OF ok] write_event_def abind_def new_event_def
          draw_uuid_def alift_def record_event_def Let_def)
    have pid: "pe_position_id ?g = None" by (simp add: genesis_event_def blank_event_def)
    have "triple (\<lambda>s. grown env s0 s \<and> map er_event (ld_events s) = [] \<and> (event_ok ?g \<longrightarrow> may_follow [] ?g)
        \<and> set_option (pe_position_id ?g) \<subseteq> drawn_ids env s) (write_event env ?g)
      (\<lambda>_ s. grown env s0 s \<and> event_ok ?g \<and> (\<exists>i. map er_event (ld_events s) = [] @ [?g\<lparr>pe_event_id := i\<rparr>])) (aborted env True s0)"
      by (rule write_event_grown [OF assms]) (simp add: genesis_event_def blank_event_def event_ok_def opt_gt0_def)
    then have "case write_event env ?g s of (Inr x, t) \<Rightarrow> grown env s0 t \<and> event_ok ?g
        \<and> (\<exists>i. map er_event (ld_events t) = [] @ [?g\<lparr>pe_event_id := i\<rparr>]) | (Inl e, t) \<Rightarrow> aborted env True s0 t"
      using g Nil genesis_may_follow pid unfolding triple_def by auto
    then show ?thesis unfolding eq by (auto simp: aborted_def split: prod.splits sum.splits)
  next
    case (Cons r rs)
    then have "history (map er_event (ld_events s))" using ok by (auto simp: ledger_ok_def)
    from history_first [OF this] Cons have "pe_event_type (er_event r) = Genesis"
        "pe_details (er_event r) = [(''initial_capital_usd'', PFloat initial_capital)]" by auto
    then have "ensure_genesis env ob s = (Inr (er_event r), s)"
      using Cons by (simp add: ensure_genesis_def all_events [OF ok] genesis_capital_def)
    then show ?thesis using g Cons by simp
  qed
qed

text \<open>After genesis, reading the state changes nothing.\<close>

lemma current_state_pure:
  assumes "ledger_ok env s" and "ld_events s \<noteq> []"
  shows "current_state env ob s = (portfolio_state (historical_peak_and_drawdown s)
     (case ob of Some t \<Rightarrow> t | None \<Rightarrow> en_now env) (map er_event (ld_events s)), s)"
proof -
  obtain r rs where rs: "ld_events s = r # rs" using assms(2) by (cases "ld_events s") auto
  then have "history (map er_event (ld_events s))" using assms(1) by (auto simp: ledger_ok_def)
  from history_first [OF this] rs have "pe_event_type (er_event r) = Genesis"
      "pe_details (er_event r) = [(''initial_capital_usd'', PFloat initial_capital)]" by auto
  then have "ensure_genesis env ob s = (Inr (er_event r), s)"
    using rs by (simp add: ensure_genesis_def all_events [OF assms(1)] genesis_capital_def)
  then show ?thesis by (simp add: current_state_def abind_def all_events [OF assms(1)])
qed

lemma ledger_state_defined:
  "ledger_ok env s \<Longrightarrow> ld_events s \<noteq> [] \<Longrightarrow> \<exists>p. portfolio_state hist obs (map er_event (ld_events s)) = Inr p"
  by (rule state_defined) (auto simp: ledger_ok_def)

lemma portfolio_state_fields:
  assumes "portfolio_state hist obs es = Inr p"
  shows "ps_positions p = sort_key (\<lambda>p. (pp_due_at p, pp_position_id p))
      (map (\<lambda>(pid, e). position_of (tally_of es) pid e) (live_opens (tally_of es)))"
    and "ps_cash_usd p = ta_cash (tally_of es)" and "ps_reserved_capital_usd p = live_capital (tally_of es)"
    and "ps_realized_pnl_usd p = ta_realized (tally_of es)"
    and "ps_nav_usd p = ps_cash_usd p + ps_reserved_capital_usd p + ps_unrealized_pnl_usd p"
    and "ps_peak_nav_usd p = max (fst hist) (ps_nav_usd p)"
    and "ps_max_drawdown_fraction p = max (snd hist) (ps_drawdown_fraction p)"
    and "ps_portfolio_id p = portfolio_id"
    and "\<forall>q \<in> set (ps_positions p). position_ok q"
proof -
  let ?t = "tally_of es"
  obtain ps where ps: "rmap (\<lambda>(pid, e). checked_position ?t pid e) (live_opens ?t) = Inr ps"
    using assms by (auto simp: portfolio_state_def Let_def)
  have "list_all2 (\<lambda>(pid, e) p. p = position_of ?t pid e \<and> position_ok p) (live_opens ?t) ps"
    using ps unfolding rmap_Inr_iff
    by (rule list_all2_mono) (auto simp: checked_position_def Let_def split: if_splits)
  then have eq: "ps = map (\<lambda>(pid, e). position_of ?t pid e) (live_opens ?t)" and ok: "\<forall>q \<in> set ps. position_ok q"
    by (induction rule: list_all2_induct) auto
  have "(\<Sum>p\<leftarrow>ps. pp_capital_reserved_usd p) = live_capital ?t"
    unfolding eq live_capital_def by (auto simp: o_def position_of_def Let_def intro!: arg_cong [where f = sum_list])
  then show "ps_positions p = sort_key (\<lambda>p. (pp_due_at p, pp_position_id p))
      (map (\<lambda>(pid, e). position_of (tally_of es) pid e) (live_opens (tally_of es)))"
    and "ps_cash_usd p = ta_cash (tally_of es)" and "ps_reserved_capital_usd p = live_capital (tally_of es)"
    and "ps_realized_pnl_usd p = ta_realized (tally_of es)"
    and "ps_nav_usd p = ps_cash_usd p + ps_reserved_capital_usd p + ps_unrealized_pnl_usd p"
    and "ps_peak_nav_usd p = max (fst hist) (ps_nav_usd p)"
    and "ps_max_drawdown_fraction p = max (snd hist) (ps_drawdown_fraction p)"
    and "ps_portfolio_id p = portfolio_id"
    and "\<forall>q \<in> set (ps_positions p). position_ok q"
    using assms ps eq ok by (auto simp: portfolio_state_def Let_def split: if_splits)
qed

text \<open>The state of a history balances.\<close>

lemma position_key_of: "position_key (position_of t pid e) = event_key e"
  by (simp add: position_key_def position_of_def event_key_def Let_def)

lemma portfolio_state_balanced:
  assumes "history es" and "portfolio_state hist obs es = Inr p"
  shows "balanced p"
proof -
  note f = portfolio_state_fields [OF assms(2)] and a = history_account [OF assms(1), unfolded account_ok_def]
  have "map (position_key \<circ> (\<lambda>(pid, e). position_of (tally_of es) pid e)) (live_opens (tally_of es))
      = live_keys (tally_of es)"
    by (auto simp: live_keys_def position_key_of)
  then have "distinct (map position_key (map (\<lambda>(pid, e). position_of (tally_of es) pid e) (live_opens (tally_of es))))"
    using a by simp
  moreover have "mset (map position_key (ps_positions p)) =
      mset (map position_key (map (\<lambda>(pid, e). position_of (tally_of es) pid e) (live_opens (tally_of es))))"
    unfolding f(1) mset_map mset_sort by simp
  ultimately have "distinct (map position_key (ps_positions p))" by (metis mset_eq_imp_distinct_iff)
  then show ?thesis using a f(2-5,8) by (simp add: balanced_def)
qed

text \<open>The peak and the worst drawdown of a new state are not below any stored before.\<close>

lemma historical_peak_ge:
  assumes "q \<in> set (portfolio_snapshots s)"
  shows "ps_peak_nav_usd q \<le> fst (historical_peak_and_drawdown s)"
    and "ps_max_drawdown_fraction q \<le> snd (historical_peak_and_drawdown s)"
  using assms by (auto simp: historical_peak_and_drawdown_def intro!: Max_ge)

lemma record_snapshot_ok:
  assumes "ledger_ok env s" and "ld_events s \<noteq> []"
    and "portfolio_state (historical_peak_and_drawdown s) obs (map er_event (ld_events s)) = Inr p"
  shows "record_snapshot env p s = (Inr (), s\<lparr>ld_snapshots := ld_snapshots s @
      [\<lparr>sr_snapshot = p, sr_lineage_hash = en_sha256_hex env (en_snapshot_json env p)\<rparr>]\<rparr>)"
    and "ledger_ok env (snd (record_snapshot env p s))"
proof -
  let ?row = "\<lparr>sr_snapshot = p, sr_lineage_hash = en_sha256_hex env (en_snapshot_json env p)\<rparr>"
  let ?t = "s\<lparr>ld_snapshots := ld_snapshots s @ [?row]\<rparr>"
  show run: "record_snapshot env p s = (Inr (), ?t)" by (simp add: record_snapshot_def)
  have snaps: "snapshots_ok env (ld_snapshots s)" and h: "history (map er_event (ld_events s))"
    using assms(1,2) by (auto simp: ledger_ok_def)
  have "map sr_snapshot (ld_snapshots s) = portfolio_snapshots s"
    using snaps by (auto simp: portfolio_snapshots_def snapshots_ok_def list_all_iff balanced_def intro!: filter_True [symmetric])
  then have old: "sr_snapshot r \<in> set (portfolio_snapshots s)" if "r \<in> set (ld_snapshots s)" for r
    using that by (metis image_eqI list.set_map)
  have "ps_peak_nav_usd (sr_snapshot r) \<le> ps_peak_nav_usd p"
      "ps_max_drawdown_fraction (sr_snapshot r) \<le> ps_max_drawdown_fraction p" if "r \<in> set (ld_snapshots s)" for r
    using historical_peak_ge [OF old [OF that]] portfolio_state_fields(6,7) [OF assms(3)] by auto
  then have "snapshots_ok env (ld_snapshots ?t)"
    using snaps portfolio_state_balanced [OF h assms(3)] by (auto simp: snapshots_ok_def sorted_append)
  then have "ledger_ok env ?t" using assms(1) by (simp add: ledger_ok_def drawn_ids_def)
  then show "ledger_ok env (snd (record_snapshot env p s))" by (simp add: run)
qed

end
