(* ===== verification/Cycle_Loops.thy ===== *)
theory Cycle_Loops
  imports Cycle_Correct
begin

text \<open>
  The two loops of a cycle.  The first keeps every position it has not reached yet live and
  closes the matured ones that are quoted; the second never spends more than the cash it was
  given and never opens an instrument twice.  Both count exactly the events they write.
\<close>

abbreviation entries :: "ledger \<Rightarrow> portfolio_event list" where
  "entries s \<equiv> map er_event (ld_events s)"

section \<open>Counting events\<close>

definition tallied :: "event_type \<Rightarrow> portfolio_event list \<Rightarrow> nat" where
  "tallied k es = length (filter (\<lambda>e. pe_event_type e = k) es)"

lemma tallied_snoc [simp]: "tallied k (es @ [e]) = tallied k es + (if pe_event_type e = k then 1 else 0)"
  by (simp add: tallied_def)

definition counted :: "portfolio_event list \<Rightarrow> cycle_counts \<Rightarrow> portfolio_event list \<Rightarrow> bool" where
  "counted es0 c es \<longleftrightarrow> tallied Open es = tallied Open es0 + cc_opened c
     \<and> tallied Close es = tallied Close es0 + cc_closed c
     \<and> tallied Mark es = tallied Mark es0 + cc_marked c
     \<and> tallied Skip es = tallied Skip es0 + cc_skipped c"

lemma counted_snoc:
  "pe_event_type e = Open \<Longrightarrow> counted es0 c es \<Longrightarrow> counted es0 (c\<lparr>cc_opened := Suc (cc_opened c)\<rparr>) (es @ [e])"
  "pe_event_type e = Close \<Longrightarrow> counted es0 c es \<Longrightarrow> counted es0 (c\<lparr>cc_closed := Suc (cc_closed c)\<rparr>) (es @ [e])"
  "pe_event_type e = Mark \<Longrightarrow> counted es0 c es \<Longrightarrow> counted es0 (c\<lparr>cc_marked := Suc (cc_marked c)\<rparr>) (es @ [e])"
  "pe_event_type e = Skip \<Longrightarrow> counted es0 c es \<Longrightarrow> counted es0 (c\<lparr>cc_skipped := Suc (cc_skipped c)\<rparr>) (es @ [e])"
  by (simp_all add: counted_def)

text \<open>Writing an event and then returning a value: the rule both loops use.\<close>

lemma triple_write:
  assumes "uuid_ok env"
    and "\<And>s. P s \<Longrightarrow> grown env s0 s"
    and "\<And>s. P s \<Longrightarrow> event_ok e \<Longrightarrow> may_follow (entries s) e"
    and "\<And>s. P s \<Longrightarrow> set_option (pe_position_id e) \<subseteq> drawn_ids env s"
    and "\<And>s t i. P s \<Longrightarrow> grown env s0 t \<Longrightarrow> entries t = entries s @ [e\<lparr>pe_event_id := i\<rparr>] \<Longrightarrow> Q x t"
    and "\<And>s. P s \<Longrightarrow> fine \<Longrightarrow> event_ok e"
  shows "triple P (abind (write_event env e) (\<lambda>_. alift (Inr x))) Q (aborted env fine s0)"
proof (rule tripleI)
  fix s assume P: "P s"
  have "case write_event env e s of (Inr x, t) \<Rightarrow> grown env s0 t \<and> event_ok e
      \<and> (\<exists>i. entries t = entries s @ [e\<lparr>pe_event_id := i\<rparr>]) | (Inl e, t) \<Rightarrow> aborted env fine s0 t"
    using write_event_grown [of env fine e s0 "entries s"] assms(1-4) assms(6) [OF P] P by (simp add: triple_def)
  then show "case abind (write_event env e) (\<lambda>_. alift (Inr x)) s of (Inr x, t) \<Rightarrow> Q x t | (Inl e, t) \<Rightarrow> aborted env fine s0 t"
    using assms(5) [OF P] by (auto simp: abind_def alift_def split: prod.splits sum.splits)
qed

lemma follow_history: "history es \<Longrightarrow> pe_portfolio_id e = portfolio_id
    \<Longrightarrow> (\<And>i. history es \<Longrightarrow> history (es @ [e\<lparr>pe_event_id := i\<rparr>])) \<Longrightarrow> may_follow es e"
  by (simp add: may_follow_def)

section \<open>Marks and closes\<close>

definition backed :: "portfolio_event list \<Rightarrow> paper_position \<Rightarrow> bool" where
  "backed es p \<longleftrightarrow> pp_position_id p \<noteq> [] \<and> (\<exists>f. (pp_position_id p, f) \<in> set (live_opens (tally_of es))
     \<and> pp_capital_reserved_usd p = pe_capital_reserved_usd f)"

definition closed_ids :: "portfolio_event list \<Rightarrow> string set" where
  "closed_ids es = fst ` set (ta_closed (tally_of es))"

definition matured :: "(quote_key \<rightharpoonup> market_quote) \<Rightarrow> time \<Rightarrow> paper_position \<Rightarrow> bool" where
  "matured index t p \<longleftrightarrow> pp_due_at p \<le> t \<and> quote_for index p \<noteq> None"

definition settling ::
  "ledger_env \<Rightarrow> ledger \<Rightarrow> (quote_key \<rightharpoonup> market_quote) \<Rightarrow> time \<Rightarrow> paper_position list
     \<Rightarrow> paper_position list \<Rightarrow> cycle_counts \<Rightarrow> ledger \<Rightarrow> bool" where
  "settling env s0 index t all rest c s \<longleftrightarrow> grown env s0 s \<and> ld_events s \<noteq> [] \<and> counted (entries s0) c (entries s)
     \<and> cc_opened c = 0 \<and> distinct (map pp_position_id rest) \<and> (\<forall>p \<in> set rest. backed (entries s) p \<and> position_ok p)
     \<and> (\<forall>p \<in> set all. p \<in> set rest \<or> (matured index t p \<longrightarrow> pp_position_id p \<in> closed_ids (entries s)))"

lemma mark_fields [simp]:
  "pe_event_type (mark_event p q t) = Mark" "pe_cash_delta_usd (mark_event p q t) = 0"
  "pe_realized_pnl_delta_usd (mark_event p q t) = 0" "pe_portfolio_id (mark_event p q t) = portfolio_id"
  "pe_position_id (mark_event p q t) = Some (pp_position_id p)"
  by (simp_all add: mark_event_def position_event_def blank_event_def)

lemma close_fields [simp]:
  "pe_event_type (close_event p q t) = Close" "pe_portfolio_id (close_event p q t) = portfolio_id"
  "pe_position_id (close_event p q t) = Some (pp_position_id p)"
  "pe_cash_delta_usd (close_event p q t) = pp_capital_reserved_usd p + pe_realized_pnl_delta_usd (close_event p q t)"
  by (simp_all add: close_event_def position_event_def blank_event_def Let_def)

lemma close_pnl: "pe_realized_pnl_delta_usd (close_event p q t) = pp_notional_usd p * net_return p q"
  by (simp add: close_event_def position_event_def blank_event_def Let_def)

lemma grown_history: "grown env s0 s \<Longrightarrow> ld_events s \<noteq> [] \<Longrightarrow> history (entries s)"
  by (simp add: grown_def ledger_ok_def)

lemma backed_drawn: "grown env s0 s \<Longrightarrow> backed (entries s) p \<Longrightarrow> pp_position_id p \<in> drawn_ids env s"
  using opened_drawn [of env s] by (force simp: grown_def backed_def live_opens_def)

lemma follow_mark:
  assumes "grown env s0 s" and "ld_events s \<noteq> []"
  shows "may_follow (entries s) (mark_event p q t)"
  by (rule follow_history [OF grown_history [OF assms]]) (auto intro: history.marked)

lemma follow_close:
  assumes "grown env s0 s" and "ld_events s \<noteq> []" and "backed (entries s) p"
  shows "may_follow (entries s) (close_event p q t)"
proof (rule follow_history [OF grown_history [OF assms(1,2)]])
  fix i assume h: "history (entries s)"
  obtain f where f: "(pp_position_id p, f) \<in> set (live_opens (tally_of (entries s)))"
      "pp_capital_reserved_usd p = pe_capital_reserved_usd f" "pp_position_id p \<noteq> []"
    using assms(3) by (auto simp: backed_def)
  show "history (entries s @ [(close_event p q t)\<lparr>pe_event_id := i\<rparr>])"
    by (rule history.closed [OF h _ _ f(3,1)]) (simp_all add: f(2))
qed simp

lemma backed_after_mark: "pe_event_type e = Mark \<Longrightarrow> backed (es @ [e]) p = backed es p"
  by (simp add: backed_def tally_snoc live_other_event)

lemma backed_after_close:
  "pe_event_type e = Close \<Longrightarrow> pe_position_id e = Some pid \<Longrightarrow> pid \<noteq> [] \<Longrightarrow> pp_position_id p \<noteq> pid
     \<Longrightarrow> backed es p \<Longrightarrow> backed (es @ [e]) p"
  by (auto simp: backed_def tally_snoc live_close_event)

lemma closed_ids_mark: "pe_event_type e \<noteq> Close \<Longrightarrow> closed_ids (es @ [e]) = closed_ids es"
  by (simp add: closed_ids_def tally_snoc tally_closed)

lemma closed_ids_close:
  "pe_event_type e = Close \<Longrightarrow> pe_position_id e = Some pid \<Longrightarrow> pid \<noteq> [] \<Longrightarrow>
     closed_ids (es @ [e]) = insert pid (closed_ids es)"
  by (simp add: closed_ids_def tally_snoc live_close_event)

lemma settle_events_ok:
  assumes "position_ok p" and "0 < mq_mid q"
  shows "event_ok (close_event p q t)" and "event_ok (mark_event p q t)"
  using assms by (simp_all add: event_ok_def opt_gt0_def close_event_def mark_event_def position_event_def
      blank_event_def position_ok_def Let_def)

definition prices_ok :: "(quote_key \<rightharpoonup> market_quote) \<Rightarrow> bool" where
  "prices_ok index \<longleftrightarrow> (\<forall>k q. index k = Some q \<longrightarrow> 0 < mq_mid q)"

lemma prices_okD: "prices_ok index \<Longrightarrow> quote_for index p = Some q \<Longrightarrow> 0 < mq_mid q"
  by (auto simp: prices_ok_def quote_for_def)

lemma settle_step:
  assumes "uuid_ok env" and fine: "fine \<Longrightarrow> prices_ok index"
  shows "triple (settling env s0 index t all (p # rest) c) (settle_position env index t p c)
    (settling env s0 index t all rest) (aborted env fine s0)"
proof (cases "quote_for index p")
  case None
  then show ?thesis by (auto simp: settle_position_def triple_def alift_def settling_def matured_def)
next
  case (Some q)
  show ?thesis
  proof (cases "pp_due_at p \<le> t")
    case True
    have "triple (settling env s0 index t all (p # rest) c)
        (abind (write_event env (close_event p q t)) (\<lambda>_. alift (Inr (c\<lparr>cc_closed := Suc (cc_closed c)\<rparr>))))
        (settling env s0 index t all rest) (aborted env fine s0)"
    proof (rule triple_write [OF assms(1)])
      fix s u i
      assume s: "settling env s0 index t all (p # rest) c s" and u: "grown env s0 u"
        and ev: "entries u = entries s @ [(close_event p q t)\<lparr>pe_event_id := i\<rparr>]"
      have ne: "pp_position_id p \<noteq> []" using s by (simp add: settling_def backed_def)
      have "\<forall>r \<in> set rest. backed (entries u) r \<and> position_ok r" unfolding ev
        using s ne by (auto simp: settling_def image_iff intro!: backed_after_close)
      moreover have "closed_ids (entries u) = insert (pp_position_id p) (closed_ids (entries s))"
        unfolding ev by (rule closed_ids_close) (simp_all add: ne)
      moreover have "counted (entries s0) (c\<lparr>cc_closed := Suc (cc_closed c)\<rparr>) (entries u)"
        unfolding ev by (rule counted_snoc) (use s in \<open>simp_all add: settling_def\<close>)
      moreover have "ld_events u \<noteq> []" using ev by (metis append_is_Nil_conv list.distinct(1) map_is_Nil_conv)
      ultimately show "settling env s0 index t all rest (c\<lparr>cc_closed := Suc (cc_closed c)\<rparr>) u"
        using s u by (auto simp: settling_def)
    qed (use prices_okD [OF fine Some] in \<open>auto simp: settling_def intro: follow_close backed_drawn settle_events_ok\<close>)
    then show ?thesis using Some True by (simp add: settle_position_def)
  next
    case False
    have "triple (settling env s0 index t all (p # rest) c)
        (abind (write_event env (mark_event p q t)) (\<lambda>_. alift (Inr (c\<lparr>cc_marked := Suc (cc_marked c)\<rparr>))))
        (settling env s0 index t all rest) (aborted env fine s0)"
    proof (rule triple_write [OF assms(1)])
      fix s u i
      assume s: "settling env s0 index t all (p # rest) c s" and u: "grown env s0 u"
        and ev: "entries u = entries s @ [(mark_event p q t)\<lparr>pe_event_id := i\<rparr>]"
      have "\<forall>r \<in> set rest. backed (entries u) r \<and> position_ok r" unfolding ev
        using s by (simp add: settling_def backed_after_mark)
      moreover have "closed_ids (entries u) = closed_ids (entries s)" unfolding ev by (rule closed_ids_mark) simp
      moreover have "counted (entries s0) (c\<lparr>cc_marked := Suc (cc_marked c)\<rparr>) (entries u)"
        unfolding ev by (rule counted_snoc) (use s in \<open>simp_all add: settling_def\<close>)
      moreover have "ld_events u \<noteq> []" using ev by (metis append_is_Nil_conv list.distinct(1) map_is_Nil_conv)
      ultimately show "settling env s0 index t all rest (c\<lparr>cc_marked := Suc (cc_marked c)\<rparr>) u"
        using s u False by (auto simp: settling_def matured_def)
    qed (use prices_okD [OF fine Some] in \<open>auto simp: settling_def intro: follow_mark backed_drawn settle_events_ok\<close>)
    then show ?thesis using Some False by (simp add: settle_position_def)
  qed
qed

lemma settle_loop:
  assumes "uuid_ok env" and "fine \<Longrightarrow> prices_ok index"
  shows "triple (settling env s0 index t all ps c) (afold (settle_position env index t) ps c)
    (settling env s0 index t all []) (aborted env fine s0)"
  by (rule triple_fold [OF settle_step [OF assms]])

section \<open>Opens\<close>

text \<open>
  An allocation as its class validates it, whose strings are not empty: the code tests them
  for truth when it reads the position back.
\<close>

definition named :: "unified_allocation \<Rightarrow> bool" where
  "named a \<longleftrightarrow> ua_candidate_id a \<noteq> [] \<and> ua_strategy a \<noteq> [] \<and> ua_asset a \<noteq> [] \<and> [] \<notin> set (ua_venues a)"

definition valid_allocation :: "unified_allocation \<Rightarrow> bool" where
  "valid_allocation a \<longleftrightarrow> named a \<and> 0 < ua_capital_required_usd a \<and> 0 < ua_notional_usd_per_leg a
     \<and> opt_pos (ua_entry_reference_price a) \<and> opt_nonneg (ua_modeled_roundtrip_cost_return a)"

text \<open>The due time of an allocation of a plan made at \<open>t\<close> is a date.\<close>

definition due_fits :: "time \<Rightarrow> unified_allocation \<Rightarrow> bool" where
  "due_fits t a \<longleftrightarrow> (let d = timedelta_hours (opt_the 0 (ua_modeled_holding_hours a)) in
     span_fits d \<and> date_fits (opt_the t (ua_source_observed_at a) + d))"

lemma due_fitsD: "due_fits t a \<Longrightarrow> \<exists>due. allocation_due t a = Inr due"
  by (simp add: due_fits_def allocation_due_def add_hours_def Let_def)

definition spendable :: "real \<Rightarrow> bool" where
  "spendable cash \<longleftrightarrow> - (1 / 10 ^ 9) \<le> cash"

definition investing :: "ledger_env \<Rightarrow> ledger \<Rightarrow> string set \<Rightarrow> open_vars \<Rightarrow> ledger \<Rightarrow> bool" where
  "investing env s0 C v s \<longleftrightarrow> grown env s0 s \<and> ld_events s \<noteq> [] \<and> counted (entries s0) (ow_counts v) (entries s)
     \<and> C \<subseteq> closed_ids (entries s) \<and> set (live_keys (tally_of (entries s))) \<subseteq> ow_open_keys v
     \<and> ta_cash (tally_of (entries s)) = ow_remaining_cash v \<and> spendable (ow_remaining_cash v)"

lemma skip_fields [simp]:
  "pe_event_type (skip_event a t r) = Skip" "pe_cash_delta_usd (skip_event a t r) = 0"
  "pe_realized_pnl_delta_usd (skip_event a t r) = 0" "pe_portfolio_id (skip_event a t r) = portfolio_id"
  "pe_position_id (skip_event a t r) = None"
  "pe_event_type (cash_skip_event a t) = Skip" "pe_cash_delta_usd (cash_skip_event a t) = 0"
  "pe_realized_pnl_delta_usd (cash_skip_event a t) = 0" "pe_portfolio_id (cash_skip_event a t) = portfolio_id"
  "pe_position_id (cash_skip_event a t) = None"
  by (simp_all add: skip_event_def cash_skip_event_def allocation_event_def blank_event_def)

lemma open_fields [simp]:
  "pe_event_type (opened_event a t pid due) = Open" "pe_portfolio_id (opened_event a t pid due) = portfolio_id"
  "pe_position_id (opened_event a t pid due) = Some pid"
  "pe_cash_delta_usd (opened_event a t pid due) = - ua_capital_required_usd a"
  "pe_capital_reserved_usd (opened_event a t pid due) = ua_capital_required_usd a"
  "pe_realized_pnl_delta_usd (opened_event a t pid due) = 0"
  "pe_notional_usd (opened_event a t pid due) = ua_notional_usd_per_leg a"
  "event_key (opened_event a t pid due) = (str_or (first_venue a) [], str_or (ua_instrument_symbol a) [])"
  by (simp_all add: opened_event_def allocation_event_def blank_event_def Let_def event_key_def)

lemma supported_complete:
  assumes "support_reason a = (True, r)" and "named a"
  shows "complete_open (opened_event a t pid due)"
proof -
  have s: "ua_family a = ''alpha''" "ua_instrument_market_kind a = Some (market_kind_value SPOT)"
      "length (ua_venues a) = 1" "truthy (ua_instrument_symbol a)" "ua_entry_reference_price a \<noteq> None"
      "ua_modeled_roundtrip_cost_return a \<noteq> None"
    using assms(1) by (auto simp: support_reason_def split: if_splits)
  obtain v where "ua_venues a = [v]" using s(3) by (auto simp: length_Suc_conv)
  moreover have "exposure_value (ua_exposure_kind a) \<noteq> []" by (cases "ua_exposure_kind a") simp_all
  ultimately show ?thesis using s assms(2)
    by (auto simp: complete_open_def opened_event_def allocation_event_def blank_event_def Let_def named_def
        truthy_def first_venue_def)
qed

lemma plan_events_ok:
  "event_ok (skip_event a t r)" "event_ok (cash_skip_event a t)"
  "valid_allocation a \<Longrightarrow> event_ok (opened_event a t pid due)"
  by (auto simp: event_ok_def opt_gt0_def skip_event_def cash_skip_event_def opened_event_def allocation_event_def
      blank_event_def valid_allocation_def opt_pos_def opt_nonneg_def Let_def split: option.splits)

lemma follow_skip:
  assumes "grown env s0 s" and "ld_events s \<noteq> []"
  shows "may_follow (entries s) (skip_event a t r)" and "may_follow (entries s) (cash_skip_event a t)"
  by (rule follow_history [OF grown_history [OF assms]]; auto intro: history.skipped)+

lemma other_event_tally:
  assumes "pe_event_type e = Skip" and "pe_cash_delta_usd e = 0"
  shows "live_keys (tally_of (es @ [e])) = live_keys (tally_of es)"
    and "ta_cash (tally_of (es @ [e])) = ta_cash (tally_of es)" and "closed_ids (es @ [e]) = closed_ids es"
  using assms by (simp_all add: tally_snoc live_keys_def live_other_event closed_ids_def)

lemma write_skip:
  assumes "uuid_ok env" and "e = skip_event a t r \<or> e = cash_skip_event a t"
  shows "triple (investing env s0 C v) (abind (write_event env e) (\<lambda>_. alift (Inr (count_skip v))))
    (investing env s0 C) (aborted env fine s0)"
proof (rule triple_write [OF assms(1)])
  fix s u i
  assume s: "investing env s0 C v s" and u: "grown env s0 u" and ev: "entries u = entries s @ [e\<lparr>pe_event_id := i\<rparr>]"
  have e: "pe_event_type (e\<lparr>pe_event_id := i\<rparr>) = Skip" "pe_cash_delta_usd (e\<lparr>pe_event_id := i\<rparr>) = 0"
    using assms(2) by auto
  have "counted (entries s0) ((ow_counts v)\<lparr>cc_skipped := Suc (cc_skipped (ow_counts v))\<rparr>) (entries u)"
    unfolding ev by (rule counted_snoc(4) [OF e(1)]) (use s in \<open>simp add: investing_def\<close>)
  moreover have "ld_events u \<noteq> []" using ev by (metis append_is_Nil_conv list.distinct(1) map_is_Nil_conv)
  ultimately show "investing env s0 C (count_skip v) u"
    using s u by (simp add: investing_def count_skip_def ev other_event_tally [OF e])
qed (use assms(2) in \<open>auto simp: investing_def plan_events_ok intro: follow_skip\<close>)

text \<open>A fresh id, in the second loop.\<close>

definition opening_under :: "ledger_env \<Rightarrow> ledger \<Rightarrow> string set \<Rightarrow> open_vars \<Rightarrow> string \<Rightarrow> ledger \<Rightarrow> bool" where
  "opening_under env s0 C v pid s \<longleftrightarrow> investing env s0 C v s \<and> pid \<in> drawn_ids env s \<and> pid \<noteq> []
     \<and> pid \<notin> fst ` set (ta_opened (tally_of (entries s)))"

lemma draw_opening:
  assumes "uuid_ok env"
  shows "triple (investing env s0 C v) (draw_uuid env) (opening_under env s0 C v) E"
proof (rule tripleI)
  fix s assume s: "investing env s0 C v s"
  then have "case draw_uuid env s of (Inr i, t) \<Rightarrow> grown env s0 t \<and> entries t = entries s \<and> i \<in> drawn_ids env t \<and> i \<noteq> []
       \<and> i \<notin> fst ` set (ta_opened (tally_of (entries s))) | (Inl e, t) \<Rightarrow> E t"
    using draw_fresh [OF assms, of s0 "entries s"] by (simp add: triple_def investing_def)
  then show "case draw_uuid env s of (Inr i, t) \<Rightarrow> opening_under env s0 C v i t | (Inl e, t) \<Rightarrow> E t"
    using s by (auto simp: draw_uuid_def opening_under_def investing_def)
qed

text \<open>
  The cash test admits an allocation: what remains is still spendable.  The details of the event
  play no part, so the rule serves every service that opens positions this way.
\<close>

definition taken :: "open_vars \<Rightarrow> string \<times> string \<Rightarrow> real \<Rightarrow> open_vars" where
  "taken v key capital = v\<lparr>ow_remaining_cash := ow_remaining_cash v - capital,
     ow_open_keys := insert key (ow_open_keys v),
     ow_counts := (ow_counts v)\<lparr>cc_opened := Suc (cc_opened (ow_counts v))\<rparr>\<rparr>"

lemma complete_open_details [simp]:
  "complete_open (e\<lparr>pe_details := d\<rparr>) = complete_open e" "complete_open (e\<lparr>pe_event_id := i\<rparr>) = complete_open e"
  by (simp_all add: complete_open_def)

lemma write_open_as:
  assumes "uuid_ok env" and valid: "valid_allocation a" and complete: "complete_open (opened_event a t pid due)"
    and key: "first_venue a = Some vn" "ua_instrument_symbol a = Some sb" "(vn, sb) \<notin> ow_open_keys v"
    and cash: "\<not> ua_capital_required_usd a > ow_remaining_cash v + 1 / 10 ^ 9"
    and e: "e = (opened_event a t pid due)\<lparr>pe_details := d\<rparr>"
    and post: "\<And>s u i. opening_under env s0 C v pid s \<Longrightarrow> R s \<Longrightarrow>
      investing env s0 C (taken v (vn, sb) (ua_capital_required_usd a)) u \<Longrightarrow>
      entries u = entries s @ [e\<lparr>pe_event_id := i\<rparr>] \<Longrightarrow> Q x u"
  shows "triple (\<lambda>s. opening_under env s0 C v pid s \<and> R s) (abind (write_event env e) (\<lambda>_. alift (Inr x)))
    Q (aborted env fine s0)"
proof (rule triple_write [OF assms(1)])
  fix s assume os: "opening_under env s0 C v pid s \<and> R s"
  then have s: "investing env s0 C v s" "pid \<noteq> []" "pid \<notin> fst ` set (ta_opened (tally_of (entries s)))"
      and drawn: "pid \<in> drawn_ids env s" by (auto simp: opening_under_def)
  have ek: "event_key e = (vn, sb)"
    using complete key
    by (auto simp: e event_key_def complete_open_def opened_event_def allocation_event_def blank_event_def Let_def
        truthy_def str_or_def)
  have h: "history (entries s)" using s(1) grown_history by (auto simp: investing_def)
  show "grown env s0 s" using s(1) by (simp add: investing_def)
  show "set_option (pe_position_id e) \<subseteq> drawn_ids env s" using drawn by (simp add: e)
  have step: "history (entries s @ [e\<lparr>pe_event_id := i\<rparr>])" for i
    by (rule history.opened [OF h _ _ s(2,3)])
      (use complete ek key(3) s(1) valid in \<open>auto simp: e event_key_def investing_def valid_allocation_def\<close>)
  then show "may_follow (entries s) e" by (simp add: may_follow_def e)
  show "event_ok e" using plan_events_ok(3) [OF valid, of t pid] by (simp add: e event_ok_def)
  fix u i
  let ?e = "e\<lparr>pe_event_id := i\<rparr>"
  assume u: "grown env s0 u" and ev: "entries u = entries s @ [?e]"
  have "pid \<notin> fst ` set (ta_closed (tally_of (entries s)))"
    using history_account [OF h] s(3) by (auto simp: account_ok_def)
  note live = live_open_event [of ?e pid "tally_of (entries s)", OF _ _ s(2,3) this]
  have "complete_open ?e" using complete by (simp add: e)
  then have more: "live_opens (tally_event (tally_of (entries s)) ?e) = live_opens (tally_of (entries s)) @ [(pid, ?e)]"
    using live(1) by (simp add: e)
  have keys: "live_keys (tally_of (entries u)) = live_keys (tally_of (entries s)) @ [(vn, sb)]"
    using ek unfolding ev tally_snoc by (simp add: live_keys_def more event_key_def)
  have ta: "ta_cash (tally_of (entries u)) = ta_cash (tally_of (entries s)) - ua_capital_required_usd a"
    unfolding ev tally_snoc by (simp add: e)
  have cl: "closed_ids (entries u) = closed_ids (entries s)" unfolding ev by (rule closed_ids_mark) (simp add: e)
  have "counted (entries s0) ((ow_counts v)\<lparr>cc_opened := Suc (cc_opened (ow_counts v))\<rparr>) (entries u)"
    unfolding ev by (rule counted_snoc) (use s(1) in \<open>simp_all add: investing_def e\<close>)
  moreover have "ld_events u \<noteq> []" using ev by (metis append_is_Nil_conv list.distinct(1) map_is_Nil_conv)
  ultimately have "investing env s0 C (taken v (vn, sb) (ua_capital_required_usd a)) u"
    using s(1) u cash by (auto simp: taken_def investing_def keys ta cl spendable_def)
  then show "Q x u" using post [of s u i] os ev by blast
qed

text \<open>Reading the due time comes before the write: when it is no date, nothing is written.\<close>

lemma triple_dated:
  assumes "fine \<Longrightarrow> due_fits t a"
    and "\<And>due. triple P (k (opened_event a t pid due)) Q E" and "\<And>s. P s \<Longrightarrow> \<not> fine \<Longrightarrow> E s"
  shows "triple P (abind (alift (open_event a t pid)) k) Q E"
proof (cases "allocation_due t a")
  case (Inl e)
  then have "\<not> fine" using assms(1) due_fitsD [of t a] by auto
  then show ?thesis using assms(3) by (simp add: triple_def abind_def alift_def open_event_def Inl)
next
  case (Inr due)
  have "abind (alift (open_event a t pid)) k = k (opened_event a t pid due)"
    by (simp add: abind_def alift_def open_event_def Inr fun_eq_iff)
  then show ?thesis using assms(2) by simp
qed

lemma write_open:
  assumes "uuid_ok env" and "valid_allocation a" and complete: "\<And>pid due. complete_open (opened_event a t pid due)"
    and dated: "fine \<Longrightarrow> due_fits t a"
    and "first_venue a = Some vn" "ua_instrument_symbol a = Some sb" "(vn, sb) \<notin> ow_open_keys v"
    and "\<not> ua_capital_required_usd a > ow_remaining_cash v + 1 / 10 ^ 9"
  shows "triple (opening_under env s0 C v pid)
    (abind (alift (open_event a t pid)) (\<lambda>e. abind (write_event env e) (\<lambda>_.
       alift (Inr (v\<lparr>ow_remaining_cash := ow_remaining_cash v - ua_capital_required_usd a,
         ow_open_keys := insert (vn, sb) (ow_open_keys v),
         ow_counts := (ow_counts v)\<lparr>cc_opened := Suc (cc_opened (ow_counts v))\<rparr>\<rparr>)))))
    (investing env s0 C) (aborted env fine s0)"
proof (rule triple_dated [OF dated])
  fix due
  have "opened_event a t pid due = (opened_event a t pid due)\<lparr>pe_details := pe_details (opened_event a t pid due)\<rparr>" by simp
  from write_open_as [OF assms(1,2,3,5-8) this, where R = "\<lambda>s. True"
      and Q = "investing env s0 C" and x = "taken v (vn, sb) (ua_capital_required_usd a)"]
  show "triple (opening_under env s0 C v pid) (abind (write_event env (opened_event a t pid due)) (\<lambda>_.
       alift (Inr (v\<lparr>ow_remaining_cash := ow_remaining_cash v - ua_capital_required_usd a,
         ow_open_keys := insert (vn, sb) (ow_open_keys v),
         ow_counts := (ow_counts v)\<lparr>cc_opened := Suc (cc_opened (ow_counts v))\<rparr>\<rparr>))))
    (investing env s0 C) (aborted env fine s0)" by (simp add: taken_def)
qed (auto simp: opening_under_def investing_def aborted_def)

lemma open_step:
  assumes "uuid_ok env" and "valid_allocation a" and "fine \<Longrightarrow> due_fits t a"
  shows "triple (investing env s0 C v) (open_allocation env t a v) (investing env s0 C) (aborted env fine s0)"
proof -
  obtain b r where sr: "support_reason a = (b, r)" by fastforce
  show ?thesis
  proof (cases b)
    case False
    then show ?thesis using write_skip [OF assms(1), of "skip_event a t r" a t r]
      by (simp add: open_allocation_def sr)
  next
    case True
    then have "complete_open (opened_event a t pid due)" for pid due using sr assms(2)
      by (auto simp: valid_allocation_def intro: supported_complete)
    note opened = triple_bind [OF draw_opening [OF assms(1)] write_open [where fine = fine, OF assms(1,2) this assms(3)]]
    obtain vn sb where vs: "first_venue a = Some vn" "ua_instrument_symbol a = Some sb"
      using sr True by (auto simp: support_reason_def truthy_def length_Suc_conv first_venue_def
          split: if_splits option.splits)
    have skipped: "triple (investing env s0 C v) (abind (write_event env (skip_event a t q)) (\<lambda>_. alift (Inr (count_skip v))))
        (investing env s0 C) (aborted env fine s0)" for q
      by (rule write_skip [OF assms(1), where a = a and t = t and r = q]) simp
    have poor: "triple (investing env s0 C v) (abind (write_event env (cash_skip_event a t)) (\<lambda>_. alift (Inr (count_skip v))))
        (investing env s0 C) (aborted env fine s0)"
      by (rule write_skip [OF assms(1), where a = a and t = t and r = None]) simp
    show ?thesis
      unfolding open_allocation_def sr using True
      by (simp add: vs Let_def skipped poor opened [OF _ vs])
  qed
qed

lemma open_loop:
  assumes "uuid_ok env" and "list_all valid_allocation as" and "fine \<Longrightarrow> list_all (due_fits t) as"
  shows "triple (investing env s0 C v) (afold (open_allocation env t) as v) (investing env s0 C) (aborted env fine s0)"
  using assms(2,3)
proof (induction as arbitrary: v)
  case Nil
  then show ?case by (simp add: triple_def alift_def)
next
  case (Cons a as)
  then have "valid_allocation a" by auto
  show ?case unfolding afold.simps
    by (rule triple_bind [OF open_step [OF assms(1) \<open>valid_allocation a\<close>]]) (use Cons in auto)
qed

end
