(* ===== verification/Cycle_Run.thy ===== *)
theory Cycle_Run
  imports Cycle_Loops
begin

text \<open>
  A whole cycle: genesis, state, the two loops, the snapshot.  What it leaves is stated once,
  for a completed cycle, and what an exception leaves is what every operation keeps.
\<close>

definition zero_counts :: cycle_counts where
  "zero_counts = \<lparr>cc_closed = 0, cc_marked = 0, cc_opened = 0, cc_skipped = 0\<rparr>"

definition settled_ledger :: "ledger_env \<Rightarrow> ledger \<Rightarrow> string set \<Rightarrow> cycle_counts \<Rightarrow> ledger \<Rightarrow> bool" where
  "settled_ledger env s0 C c s \<longleftrightarrow> grown env s0 s \<and> ld_events s \<noteq> [] \<and> counted (entries s0) c (entries s)
     \<and> C \<subseteq> closed_ids (entries s) \<and> (0 < cc_opened c \<longrightarrow> spendable (ta_cash (tally_of (entries s))))"

text \<open>The counts of the report.\<close>

definition reported :: "portfolio_event list \<Rightarrow> portfolio_cycle \<Rightarrow> portfolio_event list \<Rightarrow> bool" where
  "reported es0 cy es \<longleftrightarrow> tallied Open es = tallied Open es0 + cy_opened_position_count cy
     \<and> tallied Close es = tallied Close es0 + cy_closed_position_count cy
     \<and> tallied Mark es = tallied Mark es0 + cy_marked_position_count cy
     \<and> tallied Skip es = tallied Skip es0 + cy_skipped_allocation_count cy"

definition cycle_done :: "ledger_env \<Rightarrow> ledger \<Rightarrow> string set \<Rightarrow> portfolio_cycle \<Rightarrow> ledger \<Rightarrow> bool" where
  "cycle_done env s0 C cy t \<longleftrightarrow> grown env s0 t \<and> ld_events t \<noteq> [] \<and> reported (entries s0) cy (entries t)
     \<and> C \<subseteq> closed_ids (entries t)
     \<and> (0 < cy_opened_position_count cy \<longrightarrow> spendable (cy_cash_usd cy))
     \<and> (\<exists>p. latest_snapshot t = Some p \<and> balanced p \<and> cy_cash_usd cy = ps_cash_usd p \<and> cy_nav_usd cy = ps_nav_usd p)"

lemma latest_snapshot_snoc:
  "ps_portfolio_id (sr_snapshot r) = portfolio_id \<Longrightarrow>
     latest_snapshot (s\<lparr>ld_snapshots := ld_snapshots s @ [r]\<rparr>) = Some (sr_snapshot r)"
  by (simp add: latest_snapshot_def portfolio_snapshots_def)

lemma finish_done:
  "triple (settled_ledger env s0 C c) (finish_cycle env obs c) (cycle_done env s0 C) E"
proof (rule tripleI)
  fix s assume s: "settled_ledger env s0 C c s"
  then have ok: "ledger_ok env s" and ne: "ld_events s \<noteq> []" and g: "grown env s0 s"
    by (auto simp: settled_ledger_def grown_def)
  note pure = current_state_pure [OF ok ne, of "Some obs"]
  show "case finish_cycle env obs c s of (Inr cy, t) \<Rightarrow> cycle_done env s0 C cy t | (Inl e, t) \<Rightarrow> E t"
  proof -
    obtain p where Inr: "portfolio_state (historical_peak_and_drawdown s) obs (entries s) = Inr p"
      using ledger_state_defined [OF ok ne] by blast
    let ?t = "s\<lparr>ld_snapshots := ld_snapshots s @
      [\<lparr>sr_snapshot = p, sr_lineage_hash = en_sha256_hex env (en_snapshot_json env p)\<rparr>]\<rparr>"
    let ?u = "?t\<lparr>ld_drawn := Suc (ld_drawn s)\<rparr>"
    note rec = record_snapshot_ok [OF ok ne Inr]
    have h: "history (entries s)" using g ne by (rule grown_history)
    have "ledger_ok env ?t" using rec by simp
    then have "ledger_ok env ?u" by (rule ledger_ok_drawn) simp
    then have gu: "grown env s0 ?u" using g by (auto simp: grown_def extends_def)
    have bal: "balanced p" by (rule portfolio_state_balanced [OF h Inr])
    then have "latest_snapshot ?u = Some p"
      using latest_snapshot_snoc [of "\<lparr>sr_snapshot = p, sr_lineage_hash = en_sha256_hex env (en_snapshot_json env p)\<rparr>" s]
      by (simp add: latest_snapshot_def portfolio_snapshots_def balanced_def)
    then show ?thesis
      using gu s bal portfolio_state_fields(2) [OF Inr]
      by (simp add: finish_cycle_def abind_def pure Inr rec(1) draw_uuid_def alift_def cycle_done_def settled_ledger_def
          counted_def reported_def)
  qed
qed

definition plans_valid :: "(real \<Rightarrow> unified_plan result) \<Rightarrow> bool" where
  "plans_valid allocate \<longleftrightarrow> (\<forall>cash plan. allocate cash = Inr plan \<longrightarrow> list_all valid_allocation (up_allocations plan))"

text \<open>What a cycle needs from its services in order not to raise.\<close>

definition plans_ready :: "(real \<Rightarrow> unified_plan result) \<Rightarrow> bool" where
  "plans_ready allocate \<longleftrightarrow> (\<forall>cash > 0. \<exists>plan. allocate cash = Inr plan
     \<and> list_all (due_fits (up_observed_at plan)) (up_allocations plan))"

text \<open>Opening positions from the cash that the closes left.\<close>

lemma open_positions_ends:
  assumes "uuid_ok env" and "plans_valid allocate" and fine: "fine \<Longrightarrow> plans_ready allocate"
  shows "triple (\<lambda>s. settled_ledger env s0 C c s \<and> cc_opened c = 0 \<and> ps_cash_usd after = ta_cash (tally_of (entries s))
      \<and> set (live_keys (tally_of (entries s))) = set (map position_key (ps_positions after)))
    (open_positions env allocate after c) (settled_ledger env s0 C) (aborted env fine s0)"
proof (cases "0 < ps_cash_usd after")
  case False
  then show ?thesis by (auto simp: open_positions_def triple_def alift_def Let_def)
next
  case True
  then have cash: "max 0 (ps_cash_usd after) = ps_cash_usd after" by simp
  show ?thesis
  proof (cases "allocate (ps_cash_usd after)")
    case (Inl e)
    then have "\<not> fine" using fine True by (force simp: plans_ready_def)
    then show ?thesis
      unfolding open_positions_def cash using True Inl
      by (auto simp: triple_def abind_def alift_def Let_def settled_ledger_def aborted_def)
  next
    case (Inr plan)
    let ?v = "\<lparr>ow_remaining_cash = ps_cash_usd after, ow_open_keys = set (map position_key (ps_positions after)),
      ow_counts = c\<rparr>"
    have nm: "list_all valid_allocation (up_allocations plan)" using assms(2) Inr by (simp add: plans_valid_def)
    have dated: "fine \<Longrightarrow> list_all (due_fits (up_observed_at plan)) (up_allocations plan)"
      using fine True Inr by (force simp: plans_ready_def)
    have "triple (\<lambda>s. settled_ledger env s0 C c s \<and> cc_opened c = 0 \<and> ps_cash_usd after = ta_cash (tally_of (entries s))
        \<and> set (live_keys (tally_of (entries s))) = set (map position_key (ps_positions after)))
      (abind (afold (open_allocation env (up_observed_at plan)) (up_allocations plan) ?v) (\<lambda>v. alift (Inr (ow_counts v))))
      (settled_ledger env s0 C) (aborted env fine s0)"
    proof (rule triple_bind)
      show "triple (\<lambda>s. settled_ledger env s0 C c s \<and> cc_opened c = 0 \<and> ps_cash_usd after = ta_cash (tally_of (entries s))
          \<and> set (live_keys (tally_of (entries s))) = set (map position_key (ps_positions after)))
        (afold (open_allocation env (up_observed_at plan)) (up_allocations plan) ?v)
        (investing env s0 C) (aborted env fine s0)"
        by (rule triple_weaken [OF open_loop [OF assms(1) nm dated]])
          (use True in \<open>auto simp: settled_ledger_def investing_def spendable_def\<close>)
      show "triple (investing env s0 C v) (alift (Inr (ow_counts v))) (settled_ledger env s0 C) (aborted env fine s0)" for v
        by (auto simp: triple_def alift_def settled_ledger_def investing_def)
    qed
    then show ?thesis
      unfolding open_positions_def cash using True by (simp add: Inr Let_def abind_def alift_def)
  qed
qed

section \<open>The first state\<close>

definition matured_ids :: "collected_scan \<Rightarrow> paper_position list \<Rightarrow> string set" where
  "matured_ids scan ps =
     pp_position_id ` set (filter (matured (quote_index (cs_market_quotes scan)) (cs_completed_at scan)) ps)"

lemma first_state_settling:
  assumes "ledger_ok env s" and "ld_events s \<noteq> []" and "grown env s0 s" and "counted (entries s0) zero_counts (entries s)"
    and "portfolio_state (historical_peak_and_drawdown s) obs (entries s) = Inr p"
  shows "settling env s0 index t (ps_positions p) (ps_positions p) zero_counts s"
proof -
  have h: "history (entries s)" using assms(2,3) by (simp add: grown_history)
  note a = history_account [OF h, unfolded account_ok_def] and f = portfolio_state_fields(1) [OF assms(5)]
  let ?ps = "map (\<lambda>(pid, e). position_of (tally_of (entries s)) pid e) (live_opens (tally_of (entries s)))"
  have ids: "map pp_position_id ?ps = map fst (live_opens (tally_of (entries s)))"
    by (auto simp: position_of_def Let_def)
  have "mset (map pp_position_id (ps_positions p)) = mset (map pp_position_id ?ps)" unfolding f mset_map mset_sort by simp
  then have "distinct (map pp_position_id (ps_positions p))"
    using a ids by (metis live_distinct mset_eq_imp_distinct_iff)
  moreover have "backed (entries s) q" if q: "q \<in> set (ps_positions p)" for q
  proof -
    obtain pid e where pe: "(pid, e) \<in> set (live_opens (tally_of (entries s)))" "q = position_of (tally_of (entries s)) pid e"
      using q unfolding f by auto
    then have "pid \<in> fst ` set (ta_opened (tally_of (entries s)))" by (force simp: live_opens_def)
    then have "pid \<noteq> []" using a by metis
    then show ?thesis using pe by (auto simp: backed_def position_of_def Let_def)
  qed
  ultimately show ?thesis using assms(2-4) portfolio_state_fields(9) [OF assms(5)]
    by (simp add: settling_def zero_counts_def)
qed

lemma settling_ends:
  "settling env s0 (quote_index (cs_market_quotes scan)) (cs_completed_at scan) ps [] c s
     \<Longrightarrow> settled_ledger env s0 (matured_ids scan ps) c s \<and> cc_opened c = 0"
  by (auto simp: settling_def settled_ledger_def matured_ids_def)

lemma state_keys:
  assumes "portfolio_state hist obs es = Inr p"
  shows "set (map position_key (ps_positions p)) = set (live_keys (tally_of es))"
  unfolding portfolio_state_fields(1) [OF assms]
  by (auto simp: live_keys_def position_key_of image_iff split: prod.splits) force+

section \<open>The cycle\<close>

text \<open>After genesis: the ledger is the one before, or holds the genesis event alone.\<close>

definition begun :: "ledger_env \<Rightarrow> ledger \<Rightarrow> ledger \<Rightarrow> bool" where
  "begun env s0 s \<longleftrightarrow> grown env s0 s \<and> ld_events s \<noteq> [] \<and> counted (entries s0) zero_counts (entries s)
     \<and> (ld_events s0 \<noteq> [] \<longrightarrow> s = s0)"

lemma ensure_genesis_begun:
  assumes "uuid_ok env" and "ledger_ok env s0"
  shows "triple (\<lambda>s. s = s0) (ensure_genesis env ob) (\<lambda>_. begun env s0) E"
proof (rule tripleI, simp only:)
  have g: "grown env s0 s0" using assms(2) by (simp add: grown_def)
  have ens: "case ensure_genesis env ob s0 of (Inr x, t) \<Rightarrow> grown env s0 t \<and> ld_events t \<noteq> [] | (Inl e, t) \<Rightarrow> False"
    using ensure_genesis_grown [OF assms(1), of s0 ob "\<lambda>_. False"] g by (simp add: triple_def)
  show "case ensure_genesis env ob s0 of (Inr x, t) \<Rightarrow> begun env s0 t | (Inl e, t) \<Rightarrow> E t"
  proof (cases "ld_events s0")
    case Nil
    have "case ensure_genesis env ob s0 of (Inr x, t) \<Rightarrow> counted (entries s0) zero_counts (entries t) | (Inl e, t) \<Rightarrow> True"
      using Nil by (simp add: ensure_genesis_def all_events [OF assms(2)] abind_def new_event_def draw_uuid_def alift_def
          record_event_def Let_def genesis_event_def blank_event_def counted_def tallied_def zero_counts_def)
    then show ?thesis using ens Nil by (auto simp: begun_def split: prod.splits sum.splits)
  next
    case (Cons r rs)
    have "snd (ensure_genesis env ob s0) = s0"
      using Cons by (auto simp: ensure_genesis_def all_events [OF assms(2)])
    then show ?thesis using ens
      by (auto simp: begun_def counted_def zero_counts_def split: prod.splits sum.splits)
  qed
qed

text \<open>Reading the state in the middle of the cycle.\<close>

lemma triple_state:
  assumes "\<And>s. P s \<Longrightarrow> grown env s0 s \<and> ld_events s \<noteq> []"
  shows "triple P (current_state env (Some obs))
    (\<lambda>p s. P s \<and> portfolio_state (historical_peak_and_drawdown s) obs (entries s) = Inr p) E"
proof (rule tripleI)
  fix s assume P: "P s"
  then have ok: "ledger_ok env s" "ld_events s \<noteq> []" using assms by (auto simp: grown_def)
  show "case current_state env (Some obs) s of
      (Inr p, t) \<Rightarrow> P t \<and> portfolio_state (historical_peak_and_drawdown t) obs (entries t) = Inr p
    | (Inl e, t) \<Rightarrow> E t"
    unfolding current_state_pure [OF ok] using P ledger_state_defined [OF ok, of "historical_peak_and_drawdown s" obs]
    by auto
qed

text \<open>The body of the cycle once the first state is known.\<close>

lemma rest_of_cycle:
  assumes "uuid_ok env" and "plans_valid allocate"
    and "fine \<Longrightarrow> prices_ok (quote_index (cs_market_quotes scan)) \<and> plans_ready allocate"
  shows "triple (settling env s0 (quote_index (cs_market_quotes scan)) (cs_completed_at scan) ps ps zero_counts)
    (abind (afold (settle_position env (quote_index (cs_market_quotes scan)) (cs_completed_at scan)) ps zero_counts) (\<lambda>c.
     abind (current_state env (Some (cs_completed_at scan))) (\<lambda>after_close.
     abind (open_positions env allocate after_close c) (\<lambda>c'.
     finish_cycle env (cs_completed_at scan) c'))))
    (cycle_done env s0 (matured_ids scan ps)) (aborted env fine s0)"
proof (rule triple_bind)
  show "triple (settling env s0 (quote_index (cs_market_quotes scan)) (cs_completed_at scan) ps ps zero_counts)
      (afold (settle_position env (quote_index (cs_market_quotes scan)) (cs_completed_at scan)) ps zero_counts)
      (settling env s0 (quote_index (cs_market_quotes scan)) (cs_completed_at scan) ps []) (aborted env fine s0)"
    by (rule settle_loop [OF assms(1)]) (use assms(3) in blast)
  fix c
  let ?I = "settling env s0 (quote_index (cs_market_quotes scan)) (cs_completed_at scan) ps [] c"
  show "triple ?I (abind (current_state env (Some (cs_completed_at scan))) (\<lambda>after_close.
      abind (open_positions env allocate after_close c) (\<lambda>c'. finish_cycle env (cs_completed_at scan) c')))
    (cycle_done env s0 (matured_ids scan ps)) (aborted env fine s0)"
  proof (rule triple_bind [OF triple_state [where ?s0.0 = s0]], simp add: settling_def, rule triple_bind)
    fix p
    show "triple (\<lambda>s. ?I s \<and> portfolio_state (historical_peak_and_drawdown s) (cs_completed_at scan) (entries s) = Inr p)
        (open_positions env allocate p c) (settled_ledger env s0 (matured_ids scan ps)) (aborted env fine s0)"
    proof (rule triple_weaken [OF open_positions_ends [OF assms(1,2)]])
      fix s assume s: "?I s \<and> portfolio_state (historical_peak_and_drawdown s) (cs_completed_at scan) (entries s) = Inr p"
      then show "settled_ledger env s0 (matured_ids scan ps) c s \<and> cc_opened c = 0 \<and> ps_cash_usd p = ta_cash (tally_of (entries s))
          \<and> set (live_keys (tally_of (entries s))) = set (map position_key (ps_positions p))"
        using settling_ends state_keys [symmetric] portfolio_state_fields(2) by (intro conjI; blast)
    qed (use assms(3) in blast)
    show "triple (settled_ledger env s0 (matured_ids scan ps) c') (finish_cycle env (cs_completed_at scan) c')
        (cycle_done env s0 (matured_ids scan ps)) (aborted env fine s0)" for c'
      by (rule finish_done)
  qed
qed

text \<open>
  A cycle raises only when the scan fails, a quote has no positive mid price, or the allocator,
  on a positive amount of cash, fails or plans an allocation whose due time is no date.
\<close>

definition services_ok :: "collected_scan result \<Rightarrow> (real \<Rightarrow> unified_plan result) \<Rightarrow> bool" where
  "services_ok collected allocate \<longleftrightarrow>
     (case collected of Inl _ \<Rightarrow> False | Inr scan \<Rightarrow> \<forall>q \<in> set (cs_market_quotes scan). 0 < mq_mid q)
     \<and> plans_ready allocate"

lemma index_quotes_prices:
  "prices_ok m \<Longrightarrow> \<forall>q \<in> set qs. 0 < mq_mid q \<Longrightarrow> prices_ok (foldl index_quote m qs)"
proof (induction qs arbitrary: m)
  case (Cons q qs)
  have "prices_ok (index_quote m q)"
    using Cons.prems by (auto simp: index_quote_def prices_ok_def split: option.splits)
  then show ?case using Cons.IH Cons.prems by simp
qed simp

lemma quote_index_prices: "\<forall>q \<in> set qs. 0 < mq_mid q \<Longrightarrow> prices_ok (quote_index qs)"
  unfolding quote_index_def by (rule index_quotes_prices) (simp_all add: prices_ok_def)

text \<open>What a cycle leaves, with the positions of the state it read first.\<close>

definition first_positions :: "ledger_env \<Rightarrow> time \<Rightarrow> ledger \<Rightarrow> paper_position list" where
  "first_positions env obs s0 =
     (if ld_events s0 = [] then []
      else case portfolio_state (historical_peak_and_drawdown s0) obs (entries s0) of Inl e \<Rightarrow> [] | Inr p \<Rightarrow> ps_positions p)"

definition cycle_post :: "ledger_env \<Rightarrow> ledger \<Rightarrow> collected_scan result \<Rightarrow> portfolio_cycle \<Rightarrow> ledger \<Rightarrow> bool" where
  "cycle_post env s0 collected cy t \<longleftrightarrow> (\<exists>scan. collected = Inr scan
     \<and> cycle_done env s0 (matured_ids scan (first_positions env (cs_completed_at scan) s0)) cy t)"

lemma run_cycle_triple:
  assumes "uuid_ok env" and "ledger_ok env s0"
    and "plans_valid allocate" and fine: "fine \<Longrightarrow> services_ok collected allocate"
  shows "triple (\<lambda>s. s = s0) (run_cycle env collected allocate) (cycle_post env s0 collected) (aborted env fine s0)"
proof (cases collected)
  case (Inl e)
  show ?thesis unfolding run_cycle_def
    by (rule triple_bind [OF ensure_genesis_begun [OF assms(1,2)]])
      (use fine in \<open>auto simp: Inl triple_def abind_def alift_def begun_def aborted_def services_ok_def\<close>)
next
  case (Inr scan)
  let ?t = "cs_completed_at scan"
  have ready: "fine \<Longrightarrow> prices_ok (quote_index (cs_market_quotes scan)) \<and> plans_ready allocate"
    using fine quote_index_prices by (auto simp: Inr services_ok_def)
  let ?C = "matured_ids scan (first_positions env ?t s0)"
  have later: "triple (\<lambda>s. begun env s0 s \<and> portfolio_state (historical_peak_and_drawdown s) ?t (entries s) = Inr p)
    (abind (afold (settle_position env (quote_index (cs_market_quotes scan)) ?t) (ps_positions p) zero_counts) (\<lambda>c.
     abind (current_state env (Some ?t)) (\<lambda>after_close.
     abind (open_positions env allocate after_close c) (\<lambda>c'. finish_cycle env ?t c'))))
    (cycle_done env s0 ?C) (aborted env fine s0)" for p
  proof (rule triple_at, elim conjE)
    fix s
    assume b: "begun env s0 s" and p: "portfolio_state (historical_peak_and_drawdown s) ?t (entries s) = Inr p"
    then have st: "settling env s0 (quote_index (cs_market_quotes scan)) ?t (ps_positions p) (ps_positions p) zero_counts s"
      by (intro first_state_settling [OF _ _ _ _ p]) (auto simp: begun_def grown_def)
    have sub: "?C \<subseteq> matured_ids scan (ps_positions p)"
      using b p by (auto simp: first_positions_def begun_def matured_ids_def split: if_splits sum.splits)
    show "triple (\<lambda>u. u = s)
      (abind (afold (settle_position env (quote_index (cs_market_quotes scan)) ?t) (ps_positions p) zero_counts) (\<lambda>c.
       abind (current_state env (Some ?t)) (\<lambda>after_close.
       abind (open_positions env allocate after_close c) (\<lambda>c'. finish_cycle env ?t c'))))
      (cycle_done env s0 ?C) (aborted env fine s0)"
      by (rule triple_weaken [OF rest_of_cycle [OF assms(1,3)]]) (use ready st sub in \<open>auto simp: cycle_done_def\<close>)
  qed
  show ?thesis unfolding run_cycle_def zero_counts_def [symmetric] Inr
  proof (rule triple_bind [OF ensure_genesis_begun [OF assms(1,2)]], rule triple_bind)
    show "triple (begun env s0) (alift (Inr scan)) (\<lambda>x s. begun env s0 s \<and> x = scan) (aborted env fine s0)"
      by (simp add: triple_def alift_def)
    fix x
    show "triple (\<lambda>s. begun env s0 s \<and> x = scan)
      (abind (current_state env (Some (cs_completed_at x))) (\<lambda>state.
        abind (afold (settle_position env (quote_index (cs_market_quotes x)) (cs_completed_at x)) (ps_positions state) zero_counts) (\<lambda>c.
        abind (current_state env (Some (cs_completed_at x))) (\<lambda>after_close.
        abind (open_positions env allocate after_close c) (\<lambda>c'. finish_cycle env (cs_completed_at x) c')))))
      (cycle_post env s0 (Inr scan)) (aborted env fine s0)"
    proof (cases "x = scan")
      case True
      show ?thesis unfolding True
        by (rule triple_bind [OF triple_state [where ?s0.0 = s0] triple_weaken [OF later]])
          (auto simp: begun_def cycle_post_def)
    qed (simp add: triple_def)
  qed
qed

end
