(* ===== verification/Props_Ledger.thy ===== *)
theory Props_Ledger
  imports Cycle_Run
begin

text \<open>
  The properties of the canonical paper portfolio.  A ledger is reachable when it comes from
  empty tables by cycles of the service, completed or aborted, and by reads of the state,
  which may write the genesis event.
\<close>

section \<open>Reachable ledgers\<close>

inductive reachable :: "ledger_env \<Rightarrow> ledger \<Rightarrow> bool" for env where
  fresh_tables: "reachable env \<lparr>ld_events = [], ld_snapshots = [], ld_drawn = n\<rparr>"
| cycle: "reachable env s \<Longrightarrow> plans_valid allocate \<Longrightarrow> reachable env (snd (run_cycle env collected allocate s))"
| state_read: "reachable env s \<Longrightarrow> reachable env (snd (current_state env observed_at s))"

inductive_cases reachableE: "reachable env s"

lemma ledger_ok_empty: "ledger_ok env \<lparr>ld_events = [], ld_snapshots = [], ld_drawn = n\<rparr>"
  by (simp add: ledger_ok_def snapshots_ok_def)

lemma run_cycle_cases:
  assumes "uuid_ok env" and "ledger_ok env s" and "plans_valid allocate"
  shows "case run_cycle env collected allocate s of (Inr cy, t) \<Rightarrow> cycle_post env s collected cy t
    | (Inl e, t) \<Rightarrow> grown env s t \<and> \<not> services_ok collected allocate"
  using run_cycle_triple [OF assms, of "services_ok collected allocate" collected]
  by (auto simp: triple_def aborted_def split: prod.splits sum.splits)

lemma cycle_post_grown: "cycle_post env s collected cy t \<Longrightarrow> grown env s t"
  by (auto simp: cycle_post_def cycle_done_def)

lemma run_cycle_grown:
  assumes "uuid_ok env" and "ledger_ok env s" and "plans_valid allocate"
    and "run_cycle env collected allocate s = (r, t)"
  shows "grown env s t"
  using run_cycle_cases [OF assms(1-3), of collected] assms(4) cycle_post_grown by (cases r) auto

lemma current_state_grown:
  assumes "uuid_ok env" and "ledger_ok env s" and "current_state env ob s = (r, t)"
  shows "grown env s t"
proof -
  have "case ensure_genesis env ob s of (Inr x, t) \<Rightarrow> grown env s t \<and> ld_events t \<noteq> [] | (Inl e, t) \<Rightarrow> False"
    using ensure_genesis_grown [OF assms(1), of s ob "\<lambda>_. False"] assms(2) unfolding triple_def by (auto simp: grown_def)
  then show ?thesis using assms(3) by (auto simp: current_state_def abind_def split: prod.splits sum.splits)
qed

lemma reachable_ok:
  assumes "uuid_ok env"
  shows "reachable env s \<Longrightarrow> ledger_ok env s"
proof (induction rule: reachable.induct)
  case (fresh_tables n)
  then show ?case by (rule ledger_ok_empty)
next
  case (cycle s allocate collected)
  then show ?case
    using run_cycle_grown [OF assms, of s allocate collected] by (metis grown_def prod.collapse)
next
  case (state_read s observed_at)
  then show ?case
    using current_state_grown [OF assms, of s observed_at] by (metis grown_def prod.collapse)
qed

lemma current_state_Inr:
  assumes "uuid_ok env" and "ledger_ok env s" and "current_state env ob s = (Inr p, t)"
  shows "ledger_ok env t \<and> ld_events t \<noteq> [] \<and> (\<exists>obs. portfolio_state (historical_peak_and_drawdown t) obs (entries t) = Inr p)
    \<and> (ld_events s = [] \<longrightarrow> ps_positions p = []) \<and> (ld_events s \<noteq> [] \<longrightarrow> t = s)"
proof (cases "ld_events s = []")
  case True
  obtain e u where g: "ensure_genesis env ob s = (Inr e, u)" and p: "portfolio_state (historical_peak_and_drawdown u)
      (case ob of Some t \<Rightarrow> t | None \<Rightarrow> en_now env) (events_all u) = Inr p" "u = t"
    using assms(3) by (auto simp: current_state_def abind_def split: prod.splits sum.splits)
  have "grown env s t \<and> ld_events t \<noteq> []"
    using ensure_genesis_grown [OF assms(1), of s ob "\<lambda>_. False"] assms(2) g p(2) by (auto simp: triple_def grown_def)
  moreover have "ta_opened (tally_of (entries t)) = []"
    using g p(2) True
    by (auto simp: ensure_genesis_def all_events [OF assms(2)] abind_def new_event_def draw_uuid_def alift_def
        record_event_def Let_def genesis_event_def blank_event_def tally_of_def tally_event_def empty_tally_def
        split: if_splits)
  ultimately show ?thesis
    using p True all_events [of env t] portfolio_state_fields(1) [of "historical_peak_and_drawdown u" _ "entries t" p]
    by (auto simp: grown_def live_opens_def)
next
  case False
  then show ?thesis using current_state_pure [OF assms(2) False, of ob] assms(2,3) by (auto split: sum.splits)
qed

lemma live_not_closed: "(k, e) \<in> set (live_opens t) \<Longrightarrow> k \<notin> fst ` set (ta_closed t)"
  by (simp add: live_opens_def)

lemma current_state_defined:
  assumes "uuid_ok env" and "ledger_ok env s"
  obtains p t where "current_state env ob s = (Inr p, t)"
proof -
  have "case ensure_genesis env ob s of (Inr x, t) \<Rightarrow> grown env s t \<and> ld_events t \<noteq> [] | (Inl e, t) \<Rightarrow> False"
    using ensure_genesis_grown [OF assms(1), of s ob "\<lambda>_. False"] assms(2) unfolding triple_def by (auto simp: grown_def)
  then obtain e u where u: "ensure_genesis env ob s = (Inr e, u)" "ledger_ok env u" "ld_events u \<noteq> []"
    by (auto simp: grown_def split: prod.splits sum.splits)
  obtain p where "portfolio_state (historical_peak_and_drawdown u)
      (case ob of Some t \<Rightarrow> t | None \<Rightarrow> en_now env) (entries u) = Inr p"
    using ledger_state_defined [OF u(2,3)] by blast
  then have "current_state env ob s = (Inr p, u)"
    using u by (simp add: current_state_def abind_def all_events [OF u(2)])
  then show ?thesis by (rule that)
qed

section \<open>The account\<close>

text \<open>
  C1: whatever cycles were run, completed or aborted, the state read from the ledger balances:
  cash and reserved capital are the 250000 dollars of genesis and the realized profit, the net
  asset value adds the unrealized profit, and no instrument is held twice.
\<close>

theorem ledger_balances:
  assumes "uuid_ok env" and "reachable env s" and "current_state env observed_at s = (Inr p, t)"
  shows "ps_cash_usd p + ps_reserved_capital_usd p = 250000 + ps_realized_pnl_usd p
    \<and> ps_nav_usd p = 250000 + ps_realized_pnl_usd p + ps_unrealized_pnl_usd p
    \<and> distinct (map (\<lambda>q. (pp_venue q, pp_symbol q)) (ps_positions p))"
proof -
  have t: "ledger_ok env t" "ld_events t \<noteq> []"
      "\<exists>obs. portfolio_state (historical_peak_and_drawdown t) obs (entries t) = Inr p"
    using current_state_Inr [OF assms(1) reachable_ok [OF assms(1,2)] assms(3)] by auto
  then have "history (entries t)" by (simp add: ledger_ok_def)
  then have "balanced p" using t(3) portfolio_state_balanced by blast
  moreover have "position_key = (\<lambda>q. (pp_venue q, pp_symbol q))" by (auto simp: position_key_def)
  ultimately show ?thesis by (simp add: balanced_def initial_capital_def)
qed

text \<open>
  C11: a cycle only ever appends to the two tables, even when it raises, and leaves every event
  under the hash of the one before it and every snapshot under its own; the recorded peaks and
  worst drawdowns never fall.
\<close>

theorem ledger_append_only:
  assumes "uuid_ok env" and "reachable env s" and "plans_valid allocate"
    and "run_cycle env collected allocate s = (outcome, t)"
  shows "(\<exists>new. ld_events t = ld_events s @ new) \<and> (\<exists>new. ld_snapshots t = ld_snapshots s @ new)
    \<and> chained env None (ld_events t)
    \<and> list_all (\<lambda>r. sr_lineage_hash r = en_sha256_hex env (en_snapshot_json env (sr_snapshot r))) (ld_snapshots t)
    \<and> sorted (map (ps_peak_nav_usd \<circ> sr_snapshot) (ld_snapshots t))
    \<and> sorted (map (ps_max_drawdown_fraction \<circ> sr_snapshot) (ld_snapshots t))"
  using run_cycle_grown [OF assms(1) reachable_ok [OF assms(1,2)] assms(3,4)]
  by (auto simp: grown_def extends_def ledger_ok_def snapshots_ok_def list_all_iff)

text \<open>
  C24: a cycle completes, and its report can be read, on every reachable ledger, when the scan
  is delivered with positive prices and the allocator answers on positive cash: no event that
  the service builds and no position that it reads back fails the checks of its class.
\<close>

theorem cycle_completes:
  assumes "uuid_ok env" and "reachable env s" and "plans_valid allocate"
    and "\<And>q. q \<in> set (cs_market_quotes scan) \<Longrightarrow> 0 < mq_mid q"
    and "\<And>cash. 0 < cash \<Longrightarrow> \<exists>plan. allocate cash = Inr plan
      \<and> list_all (due_fits (up_observed_at plan)) (up_allocations plan)"
  shows "\<exists>cy t. run_cycle env (Inr scan) allocate s = (Inr cy, t) \<and> (\<exists>p t'. current_state env observed_at t = (Inr p, t'))"
proof -
  have "services_ok (Inr scan) allocate" using assms(4,5) by (simp add: services_ok_def plans_ready_def)
  then obtain cy t where run: "run_cycle env (Inr scan) allocate s = (Inr cy, t)"
    using run_cycle_cases [OF assms(1) reachable_ok [OF assms(1,2)] assms(3), of "Inr scan"]
    by (auto split: prod.splits sum.splits)
  have "ledger_ok env t"
    using run_cycle_grown [OF assms(1) reachable_ok [OF assms(1,2)] assms(3) run] by (simp add: grown_def)
  from current_state_defined [OF assms(1) this] run show ?thesis by metis
qed

section \<open>Tamper evidence\<close>

text \<open>The strings that the hashes of a table were taken of.\<close>

fun hashed_strings :: "ledger_env \<Rightarrow> string option \<Rightarrow> event_row list \<Rightarrow> string list" where
  "hashed_strings env previous [] = []"
| "hashed_strings env previous (r # rs) =
     (str_or previous [] @ ''|'' @ en_event_json env (er_event r)) # hashed_strings env (Some (er_lineage_hash r)) rs"

lemma hashed_snoc: "hashed_strings env p (rs @ [r]) =
    hashed_strings env p rs @ [str_or (last_hash p rs) [] @ ''|'' @ en_event_json env (er_event r)]"
  by (induction rs arbitrary: p) (auto simp: last_hash_def)

definition plain_hash :: "string \<Rightarrow> bool" where
  "plain_hash h \<longleftrightarrow> h \<noteq> [] \<and> CHR ''|'' \<notin> set h"

lemma last_hash_plain:
  assumes "\<And>x. plain_hash (en_sha256_hex env x)" and "chained env None rs"
  shows "CHR ''|'' \<notin> set (str_or (last_hash None rs) [])" and "str_or (last_hash None rs) [] = [] \<longleftrightarrow> rs = []"
proof -
  consider "rs = []" | x where "rs \<noteq> []" "last_hash None rs = Some (en_sha256_hex env x)"
    using assms(2) by (cases rs rule: rev_cases) (auto simp: chained_snoc last_hash_def lineage_def)
  then show "CHR ''|'' \<notin> set (str_or (last_hash None rs) [])" and "str_or (last_hash None rs) [] = [] \<longleftrightarrow> rs = []"
    by (cases; use assms(1) in \<open>simp add: last_hash_def str_or_def plain_hash_def\<close>)+
qed

lemma last_hash_None: "last_hash None rs = None \<longleftrightarrow> rs = []"
  by (simp add: last_hash_def)

lemma str_or_same:
  "str_or a [] = str_or b [] \<Longrightarrow> (a = None \<longleftrightarrow> b = None) \<Longrightarrow> a = b"
  by (cases a; cases b) (auto simp: str_or_def split: if_splits)

text \<open>
  C33: the last hash pins the whole table.  Two tables of events whose rows each carry the hash
  that the code computes, and that end in the same hash, are the same table, row by row: provided
  SHA-256 does not collide on the strings hashed for these two tables, different events have
  different encodings, and a digest is not empty and has no bar in it.
\<close>

theorem chain_pins_history:
  assumes "\<And>x. plain_hash (en_sha256_hex env x)"
    and "inj_on (en_event_json env) (er_event ` (set rs \<union> set rs'))"
    and "inj_on (en_sha256_hex env) (set (hashed_strings env None rs) \<union> set (hashed_strings env None rs'))"
    and "chained env None rs" and "chained env None rs'" and "last_hash None rs = last_hash None rs'"
  shows "rs = rs'"
  using assms(2-6)
proof (induction rs arbitrary: rs' rule: rev_induct)
  case Nil
  then show ?case by (simp add: last_hash_def split: if_splits)
next
  case (snoc r rs)
  then obtain q qs where q: "rs' = qs @ [q]" by (cases rs' rule: rev_cases) (auto simp: last_hash_def)
  have c: "chained env None rs" "chained env None qs"
    using snoc.prems(3,4) by (auto simp: q chained_snoc)
  let ?x = "str_or (last_hash None rs) [] @ ''|'' @ en_event_json env (er_event r)"
  let ?y = "str_or (last_hash None qs) [] @ ''|'' @ en_event_json env (er_event q)"
  have "en_sha256_hex env ?x = en_sha256_hex env ?y"
    using snoc.prems(3-5) by (simp add: q chained_snoc last_hash_def lineage_def)
  then have "?x = ?y" by (rule inj_onD [OF snoc.prems(2)]) (simp_all add: q hashed_snoc)
  then have same: "str_or (last_hash None rs) [] = str_or (last_hash None qs) []"
      and json: "en_event_json env (er_event r) = en_event_json env (er_event q)"
    using last_hash_plain(1) [OF assms(1) c(1)] last_hash_plain(1) [OF assms(1) c(2)] by (auto simp: split_first)
  have event: "er_event r = er_event q" by (rule inj_onD [OF snoc.prems(1) json]) (simp_all add: q)
  have "rs = [] \<longleftrightarrow> qs = []"
    unfolding last_hash_plain(2) [OF assms(1) c(1), symmetric] last_hash_plain(2) [OF assms(1) c(2), symmetric] same ..
  then have last: "last_hash None rs = last_hash None qs"
    by (intro str_or_same [OF same]) (simp add: last_hash_None)
  have "inj_on (en_event_json env) (er_event ` (set rs \<union> set qs))"
    by (rule inj_on_subset [OF snoc.prems(1)]) (auto simp: q)
  moreover have "inj_on (en_sha256_hex env) (set (hashed_strings env None rs) \<union> set (hashed_strings env None qs))"
    by (rule inj_on_subset [OF snoc.prems(2)]) (auto simp: q hashed_snoc)
  ultimately have "rs = qs" by (rule snoc.IH [OF _ _ c last])
  moreover have "r = q"
    using snoc.prems(3,4) event last unfolding q chained_snoc by (intro event_row.equality) simp_all
  ultimately show ?case by (simp add: q)
qed

section \<open>The report of a cycle\<close>

text \<open>
  The report of a completed cycle is honest: its counts are the numbers of events of each
  kind that the cycle wrote, its cash and net asset value are those of the snapshot it stored
  last, and when it opened anything the cash left is not negative, up to a billionth of a dollar.
\<close>

theorem cycle_report_honest:
  assumes "uuid_ok env" and "reachable env s" and "plans_valid allocate"
    and "run_cycle env collected allocate s = (Inr cy, t)"
  shows "tallied Open (entries t) = tallied Open (entries s) + cy_opened_position_count cy
    \<and> tallied Close (entries t) = tallied Close (entries s) + cy_closed_position_count cy
    \<and> tallied Mark (entries t) = tallied Mark (entries s) + cy_marked_position_count cy
    \<and> tallied Skip (entries t) = tallied Skip (entries s) + cy_skipped_allocation_count cy
    \<and> (\<exists>p. latest_snapshot t = Some p \<and> cy_cash_usd cy = ps_cash_usd p \<and> cy_nav_usd cy = ps_nav_usd p)
    \<and> (0 < cy_opened_position_count cy \<longrightarrow> - (1 / 10 ^ 9) \<le> cy_cash_usd cy)"
  using run_cycle_cases [OF assms(1) reachable_ok [OF assms(1,2)] assms(3), of collected] assms(4)
  by (auto simp: cycle_post_def cycle_done_def reported_def spendable_def)

text \<open>
  A position of the state that a cycle starts from, whose holding time is over and for
  which the scan has a quote, is closed by the cycle if it completes: the ledger has a close
  event for it, and no state read from the ledger afterwards holds it.
\<close>

theorem matured_positions_settle:
  assumes "uuid_ok env" and "reachable env s" and "plans_valid allocate"
    and "current_state env (Some (cs_completed_at scan)) s = (Inr p, s')"
    and "q \<in> set (ps_positions p)" and "pp_due_at q \<le> cs_completed_at scan"
    and "quote_for (quote_index (cs_market_quotes scan)) q \<noteq> None"
    and "run_cycle env (Inr scan) allocate s = (Inr cy, t)"
    and "current_state env observed_at t = (Inr p', t')"
  shows "(\<exists>e \<in> set (entries t). pe_event_type e = Close \<and> pe_position_id e = Some (pp_position_id q))
    \<and> pp_position_id q \<notin> set (map pp_position_id (ps_positions p'))"
proof -
  note ok = reachable_ok [OF assms(1,2)]
  have ne: "ld_events s \<noteq> []"
    using current_state_Inr [OF assms(1) ok assms(4)] assms(5) by auto
  have state: "portfolio_state (historical_peak_and_drawdown s) (cs_completed_at scan) (entries s) = Inr p"
    using current_state_pure [OF ok ne, of "Some (cs_completed_at scan)"] assms(4) by simp
  have post: "cycle_done env s (matured_ids scan (first_positions env (cs_completed_at scan) s)) cy t"
    using run_cycle_cases [OF assms(1) ok assms(3), of "Inr scan"] assms(8) by (simp add: cycle_post_def)
  have "pp_position_id q \<in> matured_ids scan (first_positions env (cs_completed_at scan) s)"
    using assms(5-7) ne by (auto simp: first_positions_def state matured_ids_def matured_def)
  then have closed: "pp_position_id q \<in> closed_ids (entries t)" using post by (auto simp: cycle_done_def)
  have t: "ledger_ok env t" "ld_events t \<noteq> []" using post by (auto simp: cycle_done_def grown_def)
  obtain obs where state': "portfolio_state (historical_peak_and_drawdown t) obs (entries t) = Inr p'"
    using current_state_Inr [OF assms(1) t(1) assms(9)] t(2) by auto
  have "pp_position_id q \<notin> set (map pp_position_id (ps_positions p'))"
  proof
    assume "pp_position_id q \<in> set (map pp_position_id (ps_positions p'))"
    then obtain e where "(pp_position_id q, e) \<in> set (live_opens (tally_of (entries t)))"
      unfolding portfolio_state_fields(1) [OF state'] by (auto simp: position_of_def Let_def)
    then show False using closed live_not_closed by (auto simp only: closed_ids_def)
  qed
  moreover have "\<exists>e \<in> set (entries t). pe_event_type e = Close \<and> pe_position_id e = Some (pp_position_id q)"
    using closed closed_values by (force simp: closed_ids_def)
  ultimately show ?thesis by blast
qed

section \<open>Witnesses\<close>

text \<open>
  Two cycles from empty tables: the first opens a spot position, the second closes it at its
  maturity for a profit of 90 dollars and opens it again.
\<close>

definition fx_env :: ledger_env where
  "fx_env = \<lparr>en_now = 0, en_uuid = \<lambda>n. replicate (Suc n) CHR ''u'', en_sha256_hex = \<lambda>s. ''h'',
     en_event_json = \<lambda>e. pe_event_id e, en_snapshot_json = \<lambda>p. ps_portfolio_id p,
     en_float = \<lambda>s. Inl (ValueError ''float'')\<rparr>"

definition fx_allocation :: unified_allocation where
  "fx_allocation = \<lparr>ua_candidate_id = ''alpha-1'', ua_family = ''alpha'', ua_strategy = ''momentum'', ua_asset = ''BTC'',
     ua_venues = [''Coinbase''], ua_capital_required_usd = 1000, ua_notional_usd_per_leg = 1000,
     ua_expected_profit_usd_per_deployment = 20, ua_expected_return_on_reserved_capital = 1 / 50,
     ua_modeled_holding_hours = Some 1, ua_source_return_metric = ''net'', ua_source_return_value = Fin (1 / 50),
     ua_exposure_kind = Directional_long, ua_source_observed_at = Some 0, ua_instrument_symbol = Some ''BTC-USD'',
     ua_instrument_market_kind = Some ''spot'', ua_entry_reference_price = Some 100,
     ua_modeled_roundtrip_cost_return = Some (1 / 100), ua_settlement_legs = [],
     ua_modeled_non_slippage_cost_bps = None, ua_modeled_safety_buffer_bps = None, ua_capital_multiple = None,
     ua_evidence_id = None, ua_opportunity_id = None, ua_capacity_claimed = False, ua_authorizes_execution = False,
     ua_paper_only = True\<rparr>"


definition fx_plan :: unified_plan where
  "fx_plan = \<lparr>up_observed_at = 0, up_total_capital_usd = 250000, up_allocated_capital_usd = 1000,
     up_unused_cash_usd = 249000, up_expected_profit_usd_current_deployments = 20,
     up_weighted_expected_return_on_reserved_capital = 1 / 50, up_candidate_count = 1,
     up_allocations = [fx_allocation], up_skipped = [], up_family_failures = [],
     up_portfolio_risk_budget = \<lparr>rb_total_capital_usd = 250000, rb_alpha_capital_usd = 1000,
       rb_market_neutral_capital_usd = 0, rb_directional_capital_usd = 1000, rb_directional_long_capital_usd = 1000,
       rb_directional_short_capital_usd = 0, rb_directional_net_capital_usd = 1000, rb_strategy_capital_usd = [],
       rb_paper_only = True\<rparr>,
     up_authorizes_execution = False, up_live_execution_eligible = False, up_paper_only = True\<rparr>"

definition fx_close_quote :: market_quote where
  "fx_close_quote = \<lparr>mq_venue = ''Coinbase'', mq_asset = ''BTC'', mq_market_kind = SPOT, mq_symbol = ''BTC-USD'',
     mq_quote_currency = Some ''USD'', mq_contract_key = None, mq_expires_at = None, mq_bid = Some 109,
     mq_ask = Some 111, mq_mid = 110, mq_observed_at = 3600000000, mq_source = ''fixture''\<rparr>"

definition fx_scan1 :: collected_scan where
  "fx_scan1 = \<lparr>cs_market_quotes = [], cs_completed_at = 0\<rparr>"

definition fx_scan2 :: collected_scan where
  "fx_scan2 = \<lparr>cs_market_quotes = [fx_close_quote], cs_completed_at = 3600000000\<rparr>"

definition fx_empty :: ledger where
  "fx_empty = \<lparr>ld_events = [], ld_snapshots = [], ld_drawn = 0\<rparr>"

definition fx_run1 :: "portfolio_cycle result \<times> ledger" where
  "fx_run1 = run_cycle fx_env (Inr fx_scan1) (\<lambda>cash. Inr fx_plan) fx_empty"

definition fx_ledger :: ledger where "fx_ledger = snd fx_run1"

lemma fx_uuid: "uuid_ok fx_env"
  by (auto simp: uuid_ok_def fx_env_def inj_def)

lemma fx_valid: "plans_valid (\<lambda>cash. Inr fx_plan)"
  by (simp add: plans_valid_def fx_plan_def fx_allocation_def valid_allocation_def named_def opt_pos_def opt_nonneg_def)

lemma fx_dated: "list_all (due_fits (up_observed_at fx_plan)) (up_allocations fx_plan)"
  by code_simp

lemma fx_start: "reachable fx_env fx_empty"
  unfolding fx_empty_def by (rule reachable.fresh_tables)

lemma fx_reachable: "reachable fx_env fx_ledger"
  unfolding fx_ledger_def fx_run1_def by (intro reachable.cycle fx_start fx_valid)

lemma fx_services: "services_ok (Inr fx_scan2) (\<lambda>cash. Inr fx_plan)"
  by (simp add: services_ok_def plans_ready_def fx_scan2_def fx_close_quote_def fx_dated)

text \<open>The first cycle opens one position, which the second scan finds matured and quoted.\<close>

definition fx_matured :: "ledger \<Rightarrow> bool" where
  "fx_matured s = (case current_state fx_env (Some (cs_completed_at fx_scan2)) s of
     (Inr p, _) \<Rightarrow>
       (case ps_positions p of
          [q] \<Rightarrow> pp_due_at q \<le> cs_completed_at fx_scan2
            \<and> (case quote_for (quote_index (cs_market_quotes fx_scan2)) q of None \<Rightarrow> False | Some _ \<Rightarrow> True)
        | _ \<Rightarrow> False)
   | _ \<Rightarrow> False)"

lemma fx_cycles: "case fx_run1 of (Inr cy, s) \<Rightarrow> cy_opened_position_count cy = 1 \<and> fx_matured s | _ \<Rightarrow> False"
  by code_simp

lemma fx_first:
  obtains cy where "run_cycle fx_env (Inr fx_scan1) (\<lambda>cash. Inr fx_plan) fx_empty = (Inr cy, fx_ledger)"
    and "cy_opened_position_count cy = 1" and "fx_matured fx_ledger"
proof -
  obtain cy s where run: "fx_run1 = (Inr cy, s)" "cy_opened_position_count cy = 1" "fx_matured s"
    using fx_cycles by (auto split: prod.splits sum.splits)
  have "fx_ledger = s" unfolding fx_ledger_def run(1) by simp
  then show ?thesis using run that unfolding fx_run1_def by metis
qed

lemma fx_state:
  obtains p s' q where "current_state fx_env (Some (cs_completed_at fx_scan2)) fx_ledger = (Inr p, s')"
    and "ps_positions p = [q]" and "pp_due_at q \<le> cs_completed_at fx_scan2"
    and "quote_for (quote_index (cs_market_quotes fx_scan2)) q \<noteq> None"
proof -
  have "fx_matured fx_ledger" by (rule fx_first)
  then show ?thesis
    unfolding fx_matured_def using that by (auto split: prod.splits sum.splits list.splits option.splits)
qed

lemma fx_second:
  obtains cy t p' t' where "run_cycle fx_env (Inr fx_scan2) (\<lambda>cash. Inr fx_plan) fx_ledger = (Inr cy, t)"
    and "current_state fx_env None t = (Inr p', t')"
proof -
  note ok = reachable_ok [OF fx_uuid fx_reachable]
  obtain cy t where run: "run_cycle fx_env (Inr fx_scan2) (\<lambda>cash. Inr fx_plan) fx_ledger = (Inr cy, t)"
    using run_cycle_cases [OF fx_uuid ok fx_valid, of "Inr fx_scan2"] fx_services
    by (auto split: prod.splits sum.splits)
  have "ledger_ok fx_env t" using run_cycle_grown [OF fx_uuid ok fx_valid run] by (simp add: grown_def)
  from current_state_defined [OF fx_uuid this] that [OF run] show ?thesis by metis
qed

theorem ledger_balances_witness:
  "\<exists>p t. current_state fx_env (Some (cs_completed_at fx_scan2)) fx_ledger = (Inr p, t)
     \<and> ps_cash_usd p + ps_reserved_capital_usd p = 250000 + ps_realized_pnl_usd p
     \<and> ps_nav_usd p = 250000 + ps_realized_pnl_usd p + ps_unrealized_pnl_usd p
     \<and> distinct (map (\<lambda>q. (pp_venue q, pp_symbol q)) (ps_positions p))"
proof -
  obtain p s' where "current_state fx_env (Some (cs_completed_at fx_scan2)) fx_ledger = (Inr p, s')" by (rule fx_state)
  from ledger_balances [OF fx_uuid fx_reachable this] this show ?thesis by blast
qed

theorem ledger_append_only_witness:
  "\<exists>outcome t new. run_cycle fx_env (Inr fx_scan2) (\<lambda>cash. Inr fx_plan) fx_ledger = (outcome, t)
     \<and> ld_events t = ld_events fx_ledger @ new \<and> chained fx_env None (ld_events t)"
proof -
  obtain outcome t where run: "run_cycle fx_env (Inr fx_scan2) (\<lambda>cash. Inr fx_plan) fx_ledger = (outcome, t)"
    by fastforce
  from ledger_append_only [OF fx_uuid fx_reachable fx_valid run] run show ?thesis by blast
qed

theorem cycle_completes_witness:
  "\<exists>cy t. run_cycle fx_env (Inr fx_scan2) (\<lambda>cash. Inr fx_plan) fx_ledger = (Inr cy, t)
     \<and> (\<exists>p t'. current_state fx_env None t = (Inr p, t'))"
  by (rule cycle_completes [OF fx_uuid fx_reachable fx_valid]) (simp_all add: fx_scan2_def fx_close_quote_def fx_dated)

theorem cycle_report_honest_witness:
  "\<exists>cy. run_cycle fx_env (Inr fx_scan1) (\<lambda>cash. Inr fx_plan) fx_empty = (Inr cy, fx_ledger)
     \<and> tallied Open (entries fx_ledger) = 1 \<and> - (1 / 10 ^ 9) \<le> cy_cash_usd cy"
proof -
  obtain cy where run: "run_cycle fx_env (Inr fx_scan1) (\<lambda>cash. Inr fx_plan) fx_empty = (Inr cy, fx_ledger)"
      "cy_opened_position_count cy = 1" by (rule fx_first)
  have "tallied Open (entries fx_empty) = 0" by (simp add: fx_empty_def tallied_def)
  with cycle_report_honest [OF fx_uuid fx_start fx_valid run(1)] run show ?thesis by auto
qed

theorem matured_positions_settle_witness:
  "\<exists>(q :: paper_position) t e. e \<in> set (entries t) \<and> pe_event_type e = Close \<and> pe_position_id e = Some (pp_position_id q)
     \<and> snd (run_cycle fx_env (Inr fx_scan2) (\<lambda>cash. Inr fx_plan) fx_ledger) = t"
proof -
  obtain p s' q where f: "current_state fx_env (Some (cs_completed_at fx_scan2)) fx_ledger = (Inr p, s')"
      "ps_positions p = [q]" "pp_due_at q \<le> cs_completed_at fx_scan2"
      "quote_for (quote_index (cs_market_quotes fx_scan2)) q \<noteq> None" by (rule fx_state)
  obtain cy t p' t' where g: "run_cycle fx_env (Inr fx_scan2) (\<lambda>cash. Inr fx_plan) fx_ledger = (Inr cy, t)"
      "current_state fx_env None t = (Inr p', t')" by (rule fx_second)
  have "q \<in> set (ps_positions p)" by (simp add: f(2))
  from matured_positions_settle [OF fx_uuid fx_reachable fx_valid f(1) this f(3,4) g] obtain e
    where "e \<in> set (entries t)" "pe_event_type e = Close" "pe_position_id e = Some (pp_position_id q)" by blast
  moreover have "snd (run_cycle fx_env (Inr fx_scan2) (\<lambda>cash. Inr fx_plan) fx_ledger) = t" by (simp add: g(1))
  ultimately show ?thesis by blast
qed

text \<open>The table that genesis writes, against the same table written out.\<close>

definition fx_genesis_rows :: "event_row list" where
  "fx_genesis_rows = (let e = (genesis_event 0)\<lparr>pe_event_id := ''u''\<rparr> in
     [\<lparr>er_event = e, er_previous_lineage_hash = None, er_lineage_hash = lineage fx_env None e\<rparr>])"

lemma fx_genesis: "ld_events (snd (ensure_genesis fx_env None fx_empty)) = fx_genesis_rows"
  by (simp add: fx_genesis_rows_def ensure_genesis_def fx_empty_def events_all_def portfolio_rows_def abind_def
      new_event_def draw_uuid_def alift_def record_event_def Let_def fx_env_def genesis_event_def blank_event_def
      event_ok_def opt_gt0_def last_event_hash_def lineage_def)

theorem chain_pins_history_witness:
  "ld_events (snd (ensure_genesis fx_env None fx_empty)) = fx_genesis_rows \<and> chained fx_env None fx_genesis_rows"
proof -
  have c: "chained fx_env None fx_genesis_rows" by (simp add: fx_genesis_rows_def Let_def)
  have "ld_events (snd (ensure_genesis fx_env None fx_empty)) = fx_genesis_rows"
    by (rule chain_pins_history [of fx_env])
      (simp_all add: fx_genesis c, simp_all add: fx_genesis_rows_def Let_def plain_hash_def fx_env_def)
  then show ?thesis using c by simp
qed

end
