(* ===== verification/Certification.thy ===== *)
theory Certification
  imports Unified_Allocation Execution Actions
begin

text \<open>
  allocation_certification.py: forward certification of the allocator's decisions.  A decision
  becomes a trial with a settlement contract; a trial that is due is settled from public
  evidence, or stays pending where evidence is missing; trials and outcomes are kept in two
  append-only tables.  The two tables are lists in insertion order, the tables of quotes that
  the settlement reads are a parameter, as are the clock, uuid4, SHA-256 and the JSON encodings.
  The text columns that hold times compare as the times do.
\<close>

section \<open>Trials and outcomes\<close>

record leg_outcome =
  lo_venue :: string
  lo_asset :: string
  lo_market_kind :: string
  lo_side :: side
  lo_symbol :: string
  lo_base_quantity :: real
  lo_entry_price :: real
  lo_exit_price :: real
  lo_entry_notional_usd :: real
  lo_exit_notional_usd :: real
  lo_price_pnl_usd :: real
  lo_funding_pnl_usd :: real
  lo_funding_event_count :: nat
  lo_exit_slippage_bps :: real
  lo_exit_levels_consumed :: nat
  lo_exit_fill_source :: string

definition leg_outcome_ok :: "leg_outcome \<Rightarrow> bool" where
  "leg_outcome_ok l \<longleftrightarrow> 0 < lo_base_quantity l \<and> 0 < lo_entry_price l \<and> 0 < lo_exit_price l
     \<and> 0 < lo_entry_notional_usd l \<and> 0 < lo_exit_notional_usd l \<and> 0 \<le> lo_exit_slippage_bps l"

record allocation_trial =
  tl_trial_id :: string
  tl_plan_observed_at :: time
  tl_candidate_id :: string
  tl_family :: string
  tl_strategy :: string
  tl_asset :: string
  tl_venues :: "string list"
  tl_exposure_kind :: string
  tl_capital_required_usd :: real
  tl_notional_usd :: real
  tl_predicted_profit_usd :: real
  tl_predicted_return_on_reserved_capital :: real
  tl_source_observed_at :: "time option"
  tl_due_at :: "time option"
  tl_instrument_symbol :: "string option"
  tl_instrument_market_kind :: "string option"
  tl_entry_reference_price :: "real option"
  tl_modeled_roundtrip_cost_return :: "real option"
  tl_settlement_legs :: "settlement_leg list"
  tl_modeled_non_slippage_cost_bps :: "real option"
  tl_modeled_safety_buffer_bps :: "real option"
  tl_capital_multiple :: "real option"
  tl_settlement_supported :: bool
  tl_settlement_method :: "string option"
  tl_settlement_blocker :: "string option"
  tl_cohort_key :: string
  tl_recorded_at :: time
  tl_live_execution_authority :: bool
  tl_paper_only :: bool

definition trial_ok :: "allocation_trial \<Rightarrow> bool" where
  "trial_ok t \<longleftrightarrow> 0 < tl_capital_required_usd t \<and> 0 < tl_notional_usd t \<and> 0 \<le> tl_predicted_profit_usd t
     \<and> 0 \<le> tl_predicted_return_on_reserved_capital t \<and> opt_pos (tl_entry_reference_price t)
     \<and> opt_nonneg (tl_modeled_roundtrip_cost_return t) \<and> opt_nonneg (tl_modeled_non_slippage_cost_bps t)
     \<and> opt_nonneg (tl_modeled_safety_buffer_bps t) \<and> opt_pos (tl_capital_multiple t)"

record allocation_outcome =
  oc_outcome_id :: string
  oc_trial_id :: string
  oc_candidate_id :: string
  oc_family :: string
  oc_strategy :: string
  oc_asset :: string
  oc_matured_at :: time
  oc_due_at :: time
  oc_entry_reference_price :: "real option"
  oc_exit_reference_price :: "real option"
  oc_realized_gross_return :: real
  oc_realized_net_return :: real
  oc_realized_profit_usd :: real
  oc_realized_price_pnl_usd :: "real option"
  oc_realized_funding_pnl_usd :: real
  oc_modeled_non_slippage_cost_usd :: real
  oc_leg_outcomes :: "leg_outcome list"
  oc_predicted_profit_usd :: real
  oc_prediction_error_usd :: real
  oc_profit_capture_ratio :: "real option"
  oc_profitable :: bool
  oc_settlement_method :: string
  oc_settlement_evidence_complete :: bool
  oc_live_execution_authority :: bool
  oc_paper_only :: bool

definition outcome_ok :: "allocation_outcome \<Rightarrow> bool" where
  "outcome_ok u \<longleftrightarrow> opt_pos (oc_entry_reference_price u) \<and> opt_pos (oc_exit_reference_price u)
     \<and> 0 \<le> oc_predicted_profit_usd u"

record certification_cycle =
  cq_cycle_id :: string
  cq_observed_at :: time
  cq_plan_allocation_count :: nat
  cq_trials_recorded :: nat
  cq_supported_trials_recorded :: nat
  cq_unsupported_trials_recorded :: nat
  cq_outcomes_matured :: nat
  cq_paper_only :: bool

section \<open>From an allocation to a trial\<close>

fun exposure_name :: "exposure_kind \<Rightarrow> string" where
  "exposure_name Market_neutral = ''market_neutral''"
| "exposure_name Directional_long = ''directional_long''"
| "exposure_name Directional_short = ''directional_short''"

definition spot_method :: string where
  "spot_method = ''spot_mid_forward_minus_point_in_time_roundtrip_cost''"

definition perp_short_method :: string where
  "perp_short_method = ''perp_short_mid_forward_plus_observed_funding_minus_point_in_time_roundtrip_cost''"

definition multi_leg_method :: string where
  "multi_leg_method =
     ''visible_l2_multileg_close_plus_observed_funding_minus_point_in_time_non_slippage_cost''"

definition leg_label :: "settlement_leg \<Rightarrow> string" where
  "leg_label l = sl_venue l @ '':'' @ sl_market_kind l @ '':'' @ sl_symbol l @ '':'' @ side_value (sl_side l)"

definition cohort_key :: "unified_allocation \<Rightarrow> string" where
  "cohort_key a =
     (let leg_key = join '';'' (map leg_label (ua_settlement_legs a));
          venue = (case ua_venues a of [] \<Rightarrow> ''unknown'' | v # _ \<Rightarrow> v)
      in join ''|'' [ua_family a, ua_strategy a, ua_asset a, exposure_name (ua_exposure_kind a),
           if leg_key = [] then venue else leg_key, str_or (ua_instrument_symbol a) ''unknown''])"

text \<open>The three contracts that can be settled.\<close>

definition directional_terms :: "unified_allocation \<Rightarrow> exposure_kind \<Rightarrow> market_kind \<Rightarrow> bool" where
  "directional_terms a exposure kind \<longleftrightarrow> ua_family a = ''alpha'' \<and> ua_exposure_kind a = exposure
     \<and> ua_instrument_market_kind a = Some (market_kind_value kind) \<and> length (ua_venues a) = 1
     \<and> truthy (ua_instrument_symbol a) \<and> ua_entry_reference_price a \<noteq> None
     \<and> ua_modeled_roundtrip_cost_return a \<noteq> None \<and> ua_modeled_holding_hours a \<noteq> None"

definition is_spot_long :: "unified_allocation \<Rightarrow> bool" where
  "is_spot_long a = directional_terms a Directional_long SPOT"

definition is_perp_short :: "unified_allocation \<Rightarrow> bool" where
  "is_perp_short a = directional_terms a Directional_short PERPETUAL"

definition is_multi_leg :: "unified_allocation \<Rightarrow> bool" where
  "is_multi_leg a \<longleftrightarrow> ua_family a = ''core_cex'' \<and> ua_exposure_kind a = Market_neutral
     \<and> ua_modeled_holding_hours a \<noteq> None \<and> length (ua_settlement_legs a) = 2
     \<and> ua_modeled_non_slippage_cost_bps a \<noteq> None \<and> ua_capital_multiple a \<noteq> None"

definition is_settleable :: "unified_allocation \<Rightarrow> bool" where
  "is_settleable a \<longleftrightarrow> is_spot_long a \<or> is_perp_short a \<or> is_multi_leg a"

definition value_or :: "'a option \<Rightarrow> 'a \<Rightarrow> 'a" where
  "value_or x d = (case x of None \<Rightarrow> d | Some v \<Rightarrow> v)"

definition short_leg :: "unified_allocation \<Rightarrow> settlement_leg result" where
  "short_leg a =
     (let entry = value_or (ua_entry_reference_price a) 0 in
      rbind (py_div (ua_notional_usd_per_leg a) entry) (\<lambda>quantity.
      let l = \<lparr>sl_venue = hd (ua_venues a), sl_asset = upper (ua_asset a),
            sl_market_kind = market_kind_value PERPETUAL, sl_side = SHORT,
            sl_symbol = str_or (ua_instrument_symbol a) (ua_asset a), sl_base_quantity = quantity,
            sl_entry_price = entry, sl_entry_notional_usd = ua_notional_usd_per_leg a,
            sl_quote_currency = None, sl_contract_key = None\<rparr>
      in if settlement_leg_ok l then Inr l else Inl (ValidationError ''PaperSettlementLeg'')))"

definition blocker_of :: "unified_allocation \<Rightarrow> string" where
  "blocker_of a =
     (if ua_family a = ''core_cex''
      then ''core allocation is missing exact two-leg entry/L2 cost metadata required for canonical settlement''
      else if ua_family a = ''alpha''
      then ''directional alpha settlement metadata is incomplete or unsupported''
      else if ua_family a = ''cex_dex''
      then ''CEX-DEX allocation still requires amount-specific realized route and hedge settlement evidence''
      else ''allocation requires an authoritative family settlement contract'')"

text \<open>The trial before its id is drawn and its fields are checked.\<close>

definition trial_from_allocation :: "time \<Rightarrow> unified_allocation \<Rightarrow> time \<Rightarrow> allocation_trial result" where
  "trial_from_allocation now a plan_at =
     (let source = value_or (ua_source_observed_at a) plan_at;
          supported = is_settleable a;
          settlement = (if is_spot_long a then Some spot_method
                    else if is_perp_short a then Some perp_short_method
                    else if is_multi_leg a then Some multi_leg_method else None)
      in rbind (if supported
                then rbind (add_hours source (value_or (ua_modeled_holding_hours a) 0)) (\<lambda>u. Inr (Some u))
                else Inr None) (\<lambda>due.
         rbind (if \<not> is_spot_long a \<and> is_perp_short a then rbind (short_leg a) (\<lambda>l. Inr [l])
                else Inr (ua_settlement_legs a)) (\<lambda>legs.
         Inr \<lparr>tl_trial_id = [], tl_plan_observed_at = plan_at, tl_candidate_id = ua_candidate_id a,
           tl_family = ua_family a, tl_strategy = ua_strategy a, tl_asset = ua_asset a, tl_venues = ua_venues a,
           tl_exposure_kind = exposure_name (ua_exposure_kind a),
           tl_capital_required_usd = ua_capital_required_usd a, tl_notional_usd = ua_notional_usd_per_leg a,
           tl_predicted_profit_usd = ua_expected_profit_usd_per_deployment a,
           tl_predicted_return_on_reserved_capital = ua_expected_return_on_reserved_capital a,
           tl_source_observed_at = Some source, tl_due_at = due,
           tl_instrument_symbol = ua_instrument_symbol a, tl_instrument_market_kind = ua_instrument_market_kind a,
           tl_entry_reference_price = ua_entry_reference_price a,
           tl_modeled_roundtrip_cost_return = ua_modeled_roundtrip_cost_return a, tl_settlement_legs = legs,
           tl_modeled_non_slippage_cost_bps = ua_modeled_non_slippage_cost_bps a,
           tl_modeled_safety_buffer_bps = ua_modeled_safety_buffer_bps a,
           tl_capital_multiple = ua_capital_multiple a, tl_settlement_supported = supported,
           tl_settlement_method = settlement,
           tl_settlement_blocker = (if supported then None else Some (blocker_of a)),
           tl_cohort_key = cohort_key a, tl_recorded_at = now, tl_live_execution_authority = False,
           tl_paper_only = True\<rparr>)))"

section \<open>Evidence\<close>

text \<open>The stored quotes, in order of their row ids.\<close>

record evidence_tables =
  ev_funding_quotes :: "funding_quote list"
  ev_market_quotes :: "market_quote list"

record executability_scan =
  xs_market_quotes :: "market_quote list"
  xs_order_books :: "order_book_snapshot list"
  xs_completed_at :: time

type_synonym venue_key = "string \<times> string \<times> string \<times> string"

definition scan_quotes :: "executability_scan \<Rightarrow> (venue_key \<rightharpoonup> market_quote)" where
  "scan_quotes x = dict_by (\<lambda>q. (mq_venue q, upper (mq_asset q), market_kind_value (mq_market_kind q), mq_symbol q))
     (xs_market_quotes x)"

definition scan_books :: "executability_scan \<Rightarrow> (venue_key \<rightharpoonup> order_book_snapshot)" where
  "scan_books x = dict_by (\<lambda>b. (ob_venue b, upper (ob_asset b), market_kind_value (ob_market_kind b), ob_symbol b))
     (xs_order_books x)"

definition funding_quotes_for_leg ::
  "evidence_tables \<Rightarrow> settlement_leg \<Rightarrow> time \<Rightarrow> time \<Rightarrow> funding_quote list" where
  "funding_quotes_for_leg ev l source due =
     filter (\<lambda>q. fq_venue q = sl_venue l \<and> upper (fq_asset q) = upper (sl_asset l)
         \<and> (\<not> truthy (fq_symbol q) \<or> fq_symbol q = Some (sl_symbol l)))
       (filter (\<lambda>q. fq_venue q = sl_venue l \<and> fq_asset q = upper (sl_asset l)
         \<and> source \<le> fq_observed_at q \<and> fq_observed_at q \<le> due) (ev_funding_quotes ev))"

definition historical_mid :: "evidence_tables \<Rightarrow> settlement_leg \<Rightarrow> time \<Rightarrow> real option" where
  "historical_mid ev l t =
     (case filter (\<lambda>q. market_kind_value (mq_market_kind q) = sl_market_kind l \<and> mq_symbol q = sl_symbol l \<and> mq_mid q > 0)
        (take 200 (filter (\<lambda>q. mq_venue q = sl_venue l \<and> mq_asset q = upper (sl_asset l) \<and> mq_observed_at q \<le> t)
          (rev (ev_market_quotes ev)))) of
        [] \<Rightarrow> None
      | q # _ \<Rightarrow> Some (mq_mid q))"

text \<open>One funding event per scheduled time, with its latest quote, and whether any schedule was seen.\<close>

definition schedule_quote ::
  "time \<Rightarrow> time \<Rightarrow> (time \<times> funding_quote) list \<times> bool \<Rightarrow> funding_quote \<Rightarrow> (time \<times> funding_quote) list \<times> bool" where
  "schedule_quote source due acc q =
     (case fq_next_funding_time q of
        None \<Rightarrow> acc
      | Some e \<Rightarrow>
          (if source < e \<and> e \<le> due \<and> fq_observed_at q \<le> e
           then (case map_of (fst acc) e of
                   None \<Rightarrow> AList.update e q (fst acc)
                 | Some previous \<Rightarrow> if fq_observed_at q > fq_observed_at previous
                     then AList.update e q (fst acc) else fst acc)
           else fst acc, True))"

definition funding_schedule :: "time \<Rightarrow> time \<Rightarrow> funding_quote list \<Rightarrow> (time \<times> funding_quote) list \<times> bool" where
  "funding_schedule source due qs = foldl (schedule_quote source due) ([], False) qs"

definition side_sign :: "side \<Rightarrow> real" where
  "side_sign s = (if s = LONG then 1 else -1)"

fun accrue_funding ::
  "evidence_tables \<Rightarrow> settlement_leg \<Rightarrow> (time \<times> funding_quote) list \<Rightarrow> real \<Rightarrow> real option" where
  "accrue_funding ev l [] acc = Some acc"
| "accrue_funding ev l ((e, q) # es) acc =
     (case historical_mid ev l e of
        None \<Rightarrow> None
      | Some m \<Rightarrow> accrue_funding ev l es (acc + - side_sign (sl_side l) * (sl_base_quantity l * m) * fq_rate q))"

definition funding_for_leg :: "evidence_tables \<Rightarrow> settlement_leg \<Rightarrow> time \<Rightarrow> time \<Rightarrow> (real \<times> nat) option" where
  "funding_for_leg ev l source due =
     (if sl_market_kind l \<noteq> market_kind_value PERPETUAL then Some (0, 0)
      else let rows = funding_quotes_for_leg ev l source due in
        if rows = [] then None
        else case funding_schedule source due rows of (events, seen) \<Rightarrow>
          if \<not> seen then None
          else case accrue_funding ev l (sort_key fst events) 0 of
            None \<Rightarrow> None
          | Some paid \<Rightarrow> Some (paid, length events))"

section \<open>Settlement\<close>

text \<open>The fields that every outcome takes from its trial; the id is drawn later.\<close>

definition outcome_base :: "allocation_trial \<Rightarrow> time \<Rightarrow> time \<Rightarrow> real \<Rightarrow> string \<Rightarrow> allocation_outcome" where
  "outcome_base t matured due profit fallback_method = \<lparr>oc_outcome_id = [], oc_trial_id = tl_trial_id t,
     oc_candidate_id = tl_candidate_id t, oc_family = tl_family t, oc_strategy = tl_strategy t,
     oc_asset = tl_asset t, oc_matured_at = matured, oc_due_at = due, oc_entry_reference_price = None,
     oc_exit_reference_price = None, oc_realized_gross_return = 0, oc_realized_net_return = 0,
     oc_realized_profit_usd = profit, oc_realized_price_pnl_usd = None, oc_realized_funding_pnl_usd = 0,
     oc_modeled_non_slippage_cost_usd = 0, oc_leg_outcomes = [],
     oc_predicted_profit_usd = tl_predicted_profit_usd t,
     oc_prediction_error_usd = profit - tl_predicted_profit_usd t,
     oc_profit_capture_ratio =
       (if tl_predicted_profit_usd t > 0 then Some (profit / tl_predicted_profit_usd t) else None),
     oc_profitable = (profit > 0), oc_settlement_method = str_or (tl_settlement_method t) fallback_method,
     oc_settlement_evidence_complete = True, oc_live_execution_authority = False, oc_paper_only = True\<rparr>"

text \<open>The quote of the instrument of a directional trial, if it has a positive mid price.\<close>

definition exit_quote :: "allocation_trial \<Rightarrow> executability_scan \<Rightarrow> market_quote option" where
  "exit_quote t x =
     (case (tl_venues t, tl_instrument_symbol t, tl_instrument_market_kind t) of
        (v # _, Some symbol, Some kind) \<Rightarrow>
          (case scan_quotes x (v, upper (tl_asset t), kind, symbol) of
             None \<Rightarrow> None | Some q \<Rightarrow> if mq_mid q \<le> 0 then None else Some q)
      | _ \<Rightarrow> None)"

definition settle_spot_long :: "allocation_trial \<Rightarrow> executability_scan \<Rightarrow> allocation_outcome option result" where
  "settle_spot_long t x =
     (case (tl_entry_reference_price t, tl_modeled_roundtrip_cost_return t, exit_quote t x) of
        (Some entry, Some cost, Some q) \<Rightarrow>
          rbind (py_div (mq_mid q) entry) (\<lambda>ratio.
          let gross = ratio - 1; net = gross - cost; profit = tl_notional_usd t * net
          in Inr (Some ((outcome_base t (xs_completed_at x) (value_or (tl_due_at t) (xs_completed_at x)) profit spot_method)
            \<lparr>oc_entry_reference_price := Some entry, oc_exit_reference_price := Some (mq_mid q),
             oc_realized_gross_return := gross, oc_realized_net_return := net,
             oc_realized_price_pnl_usd := Some (tl_notional_usd t * gross),
             oc_modeled_non_slippage_cost_usd := tl_notional_usd t * cost\<rparr>)))
      | _ \<Rightarrow> Inr None)"

definition short_leg_outcome :: "settlement_leg \<Rightarrow> real \<Rightarrow> real \<Rightarrow> real \<times> nat \<Rightarrow> leg_outcome" where
  "short_leg_outcome l m pnl funding = \<lparr>lo_venue = sl_venue l, lo_asset = sl_asset l,
     lo_market_kind = sl_market_kind l, lo_side = sl_side l, lo_symbol = sl_symbol l,
     lo_base_quantity = sl_base_quantity l, lo_entry_price = sl_entry_price l, lo_exit_price = m,
     lo_entry_notional_usd = sl_entry_notional_usd l, lo_exit_notional_usd = sl_base_quantity l * m,
     lo_price_pnl_usd = pnl, lo_funding_pnl_usd = fst funding, lo_funding_event_count = snd funding,
     lo_exit_slippage_bps = 0, lo_exit_levels_consumed = 0, lo_exit_fill_source = ''market_quote_mid''\<rparr>"

text \<open>The last divisions are by the capital of the trial, then the leg outcome is checked.\<close>

definition settle_perp_short ::
  "evidence_tables \<Rightarrow> allocation_trial \<Rightarrow> executability_scan \<Rightarrow> allocation_outcome option result" where
  "settle_perp_short ev t x =
     (case (tl_entry_reference_price t, tl_modeled_roundtrip_cost_return t, tl_due_at t, tl_source_observed_at t,
            tl_settlement_legs t, exit_quote t x) of
        (Some entry, Some cost, Some due, Some source, l # _, Some q) \<Rightarrow>
          (case funding_for_leg ev l source due of
             None \<Rightarrow> Inr None
           | Some funding \<Rightarrow>
               rbind (py_div (mq_mid q) entry) (\<lambda>ratio.
               let price_pnl = tl_notional_usd t * (1 - ratio);
                   profit = price_pnl + fst funding - tl_notional_usd t * cost
               in rbind (py_div profit (tl_capital_required_usd t)) (\<lambda>net.
                  rbind (py_div (price_pnl + fst funding) (tl_capital_required_usd t)) (\<lambda>gross.
                  let row = short_leg_outcome l (mq_mid q) price_pnl funding
                  in if \<not> leg_outcome_ok row then Inl (ValidationError ''PaperSettlementLegOutcome'')
                     else Inr (Some ((outcome_base t (xs_completed_at x) due profit perp_short_method)
                       \<lparr>oc_entry_reference_price := Some entry, oc_exit_reference_price := Some (mq_mid q),
                        oc_realized_gross_return := gross, oc_realized_net_return := net,
                        oc_realized_price_pnl_usd := Some price_pnl, oc_realized_funding_pnl_usd := fst funding,
                        oc_modeled_non_slippage_cost_usd := tl_notional_usd t * cost,
                        oc_leg_outcomes := [row]\<rparr>))))))
      | _ \<Rightarrow> Inr None)"

fun leg_fundings :: "evidence_tables \<Rightarrow> time \<Rightarrow> time \<Rightarrow> settlement_leg list \<Rightarrow> (real \<times> nat) list option" where
  "leg_fundings ev source due [] = Some []"
| "leg_fundings ev source due (l # ls) =
     (case funding_for_leg ev l source due of
        None \<Rightarrow> None
      | Some f \<Rightarrow> map_option (\<lambda>fs. f # fs) (leg_fundings ev source due ls))"

definition leg_price_pnl :: "settlement_leg \<Rightarrow> real \<Rightarrow> real" where
  "leg_price_pnl l exit = (if sl_side l = LONG then sl_base_quantity l * (exit - sl_entry_price l)
                           else sl_base_quantity l * (sl_entry_price l - exit))"

definition closed_leg :: "settlement_leg \<Rightarrow> real \<times> nat \<Rightarrow> quantity_estimate \<Rightarrow> leg_outcome" where
  "closed_leg l funding fill = \<lparr>lo_venue = sl_venue l, lo_asset = sl_asset l,
     lo_market_kind = sl_market_kind l, lo_side = sl_side l, lo_symbol = sl_symbol l,
     lo_base_quantity = sl_base_quantity l, lo_entry_price = sl_entry_price l,
     lo_exit_price = qe_average_price fill, lo_entry_notional_usd = sl_entry_notional_usd l,
     lo_exit_notional_usd = qe_filled_notional_usd fill,
     lo_price_pnl_usd = leg_price_pnl l (qe_average_price fill), lo_funding_pnl_usd = fst funding,
     lo_funding_event_count = snd funding, lo_exit_slippage_bps = qe_slippage_bps fill,
     lo_exit_levels_consumed = qe_levels_consumed fill, lo_exit_fill_source = ''visible_l2''\<rparr>"

definition close_side :: "settlement_leg \<Rightarrow> trade_side" where
  "close_side l = (if sl_side l = LONG then SELL else BUY)"

text \<open>The loop over the legs with its running sums; a leg without a full fill leaves the trial pending.\<close>

fun close_legs ::
  "executability_scan \<Rightarrow> (settlement_leg \<times> (real \<times> nat)) list \<Rightarrow> real \<Rightarrow> real \<Rightarrow> leg_outcome list
     \<Rightarrow> (real \<times> real \<times> leg_outcome list) option result" where
  "close_legs x [] price funding rows = Inr (Some (price, funding, rows))"
| "close_legs x ((l, f) # ls) price funding rows =
     (case scan_books x (sl_venue l, upper (sl_asset l), sl_market_kind l, sl_symbol l) of
        None \<Rightarrow> Inr None
      | Some b \<Rightarrow>
          (case estimate_market_order_quantity b (close_side l) (sl_base_quantity l) True of
             Inl (InsufficientDepthError _) \<Rightarrow> Inr None
           | Inl e \<Rightarrow> Inl e
           | Inr fill \<Rightarrow>
               let row = closed_leg l f fill
               in if leg_outcome_ok row
                  then close_legs x ls (price + lo_price_pnl_usd row) (funding + fst f) (rows @ [row])
                  else Inl (ValidationError ''PaperSettlementLegOutcome'')))"

text \<open>The outcome from the running sums of the loop.\<close>

definition multileg_outcome ::
  "allocation_trial \<Rightarrow> executability_scan \<Rightarrow> time \<Rightarrow> real \<Rightarrow> real \<times> real \<times> leg_outcome list
     \<Rightarrow> allocation_outcome option result" where
  "multileg_outcome t x due bps closes = (case closes of (price_pnl, funding_pnl, rows) \<Rightarrow>
     let cost = tl_notional_usd t * bps / 10000; gross_profit = price_pnl + funding_pnl;
         profit = gross_profit - cost
     in rbind (py_div gross_profit (tl_capital_required_usd t)) (\<lambda>gross.
        rbind (py_div profit (tl_capital_required_usd t)) (\<lambda>net.
        Inr (Some ((outcome_base t (xs_completed_at x) due profit multi_leg_method)
          \<lparr>oc_realized_gross_return := gross, oc_realized_net_return := net,
           oc_realized_price_pnl_usd := Some price_pnl, oc_realized_funding_pnl_usd := funding_pnl,
           oc_modeled_non_slippage_cost_usd := cost, oc_leg_outcomes := rows\<rparr>)))))"

definition settle_multileg ::
  "evidence_tables \<Rightarrow> allocation_trial \<Rightarrow> executability_scan \<Rightarrow> allocation_outcome option result" where
  "settle_multileg ev t x =
     (case (tl_due_at t, tl_source_observed_at t, tl_modeled_non_slippage_cost_bps t) of
        (Some due, Some source, Some bps) \<Rightarrow>
          if length (tl_settlement_legs t) \<noteq> 2 then Inr None
          else (case leg_fundings ev source due (tl_settlement_legs t) of
             None \<Rightarrow> Inr None
           | Some fs \<Rightarrow> rbind (close_legs x (zip (tl_settlement_legs t) fs) 0 0 []) (\<lambda>closes.
               case closes of None \<Rightarrow> Inr None | Some acc \<Rightarrow> multileg_outcome t x due bps acc))
      | _ \<Rightarrow> Inr None)"

definition settle_trial ::
  "evidence_tables \<Rightarrow> allocation_trial \<Rightarrow> executability_scan \<Rightarrow> allocation_outcome option result" where
  "settle_trial ev t x =
     (if \<not> tl_settlement_supported t \<or> tl_due_at t = None then Inr None
      else if tl_settlement_method t = Some multi_leg_method then settle_multileg ev t x
      else if tl_settlement_method t = Some perp_short_method then settle_perp_short ev t x
      else settle_spot_long t x)"

end
