(* ===== verification/Certification_Service.thy ===== *)
theory Certification_Service
  imports Certification
begin

text \<open>
  The two tables of allocation_certification.py, the cycle that settles the trials that are due
  and records the decisions of a new plan, and the summary of the tables.
\<close>

section \<open>The tables\<close>

record trial_row =
  tw_trial :: allocation_trial
  tw_lineage_hash :: string

record outcome_row =
  oz_outcome :: allocation_outcome
  oz_lineage_hash :: string

text \<open>The tables, and how many values of the uuid stream have been drawn.\<close>

record certification_tables =
  cl_trials :: "trial_row list"
  cl_outcomes :: "outcome_row list"
  cl_drawn :: nat

record certification_env =
  ce_now :: time
  ce_uuid :: "nat \<Rightarrow> string"
  ce_sha256_hex :: "string \<Rightarrow> string"
  ce_trial_json :: "allocation_trial \<Rightarrow> string"
  ce_outcome_json :: "allocation_outcome \<Rightarrow> string"

type_synonym 'a certify = "(certification_tables, 'a) action"

definition draw_id :: "certification_env \<Rightarrow> string certify" where
  "draw_id env = (\<lambda>s. (Inr (ce_uuid env (cl_drawn s)), s\<lparr>cl_drawn := Suc (cl_drawn s)\<rparr>))"

definition trials_all :: "certification_tables \<Rightarrow> allocation_trial list" where
  "trials_all s = map tw_trial (cl_trials s)"

definition outcomes_all :: "certification_tables \<Rightarrow> allocation_outcome list" where
  "outcomes_all s = map oz_outcome (cl_outcomes s)"

definition completed_trial_ids :: "certification_tables \<Rightarrow> string set" where
  "completed_trial_ids s = oc_trial_id ` set (outcomes_all s)"

definition record_trial :: "certification_env \<Rightarrow> allocation_trial \<Rightarrow> string certify" where
  "record_trial env t = (\<lambda>s. (Inr (tl_trial_id t),
     if tl_trial_id t \<in> tl_trial_id ` set (trials_all s) then s
     else s\<lparr>cl_trials := cl_trials s @ [\<lparr>tw_trial = t, tw_lineage_hash = ce_sha256_hex env (ce_trial_json env t)\<rparr>]\<rparr>))"

definition record_outcome :: "certification_env \<Rightarrow> allocation_outcome \<Rightarrow> string certify" where
  "record_outcome env u = (\<lambda>s. (Inr (oc_outcome_id u),
     if oc_trial_id u \<in> completed_trial_ids s then s
     else s\<lparr>cl_outcomes := cl_outcomes s @
       [\<lparr>oz_outcome = u, oz_lineage_hash = ce_sha256_hex env (ce_outcome_json env u)\<rparr>]\<rparr>))"

definition is_due :: "time \<Rightarrow> allocation_trial \<Rightarrow> bool" where
  "is_due now t \<longleftrightarrow> tl_settlement_supported t \<and> (case tl_due_at t of None \<Rightarrow> False | Some due \<Rightarrow> due \<le> now)"

definition pending_supported_trials :: "time \<Rightarrow> certification_tables \<Rightarrow> allocation_trial list" where
  "pending_supported_trials now s =
     filter (\<lambda>t. tl_trial_id t \<notin> completed_trial_ids s) (filter (is_due now) (trials_all s))"

definition has_unsettled_supported_cohort :: "string \<Rightarrow> certification_tables \<Rightarrow> bool" where
  "has_unsettled_supported_cohort key s \<longleftrightarrow>
     (\<exists>t \<in> set (trials_all s). tl_cohort_key t = key \<and> tl_settlement_supported t
        \<and> tl_trial_id t \<notin> completed_trial_ids s)"

section \<open>The cycle\<close>

text \<open>A constructor draws the default id, then checks the fields.\<close>

definition new_trial :: "certification_env \<Rightarrow> allocation_trial \<Rightarrow> allocation_trial certify" where
  "new_trial env t = abind (draw_id env) (\<lambda>i.
     alift (if trial_ok t then Inr (t\<lparr>tl_trial_id := i\<rparr>) else Inl (ValidationError ''PaperAllocationTrial'')))"

definition new_outcome :: "certification_env \<Rightarrow> allocation_outcome \<Rightarrow> allocation_outcome certify" where
  "new_outcome env u = abind (draw_id env) (\<lambda>i.
     alift (if outcome_ok u then Inr (u\<lparr>oc_outcome_id := i\<rparr>) else Inl (ValidationError ''PaperAllocationOutcome'')))"

definition settle_pending ::
  "certification_env \<Rightarrow> evidence_tables \<Rightarrow> executability_scan \<Rightarrow> allocation_trial \<Rightarrow> nat \<Rightarrow> nat certify" where
  "settle_pending env ev x t matured =
     abind (alift (settle_trial ev t x)) (\<lambda>draft.
     case draft of
       None \<Rightarrow> alift (Inr matured)
     | Some u \<Rightarrow> abind (new_outcome env u) (\<lambda>u'. abind (record_outcome env u') (\<lambda>_. alift (Inr (Suc matured)))))"

record trial_counts =
  tc_recorded :: nat
  tc_supported :: nat
  tc_unsupported :: nat

definition count_trial :: "bool \<Rightarrow> trial_counts \<Rightarrow> trial_counts" where
  "count_trial supported c = (if supported
     then c\<lparr>tc_recorded := Suc (tc_recorded c), tc_supported := Suc (tc_supported c)\<rparr>
     else c\<lparr>tc_recorded := Suc (tc_recorded c), tc_unsupported := Suc (tc_unsupported c)\<rparr>)"

definition record_decision ::
  "certification_env \<Rightarrow> time \<Rightarrow> unified_allocation \<Rightarrow> trial_counts \<Rightarrow> trial_counts certify" where
  "record_decision env plan_at a c =
     abind (alift (trial_from_allocation (ce_now env) a plan_at)) (\<lambda>draft.
     abind (new_trial env draft) (\<lambda>t. \<lambda>s.
       if tl_settlement_supported t \<and> has_unsettled_supported_cohort (tl_cohort_key t) s
       then (Inr c, s)
       else abind (record_trial env t) (\<lambda>_. alift (Inr (count_trial (tl_settlement_supported t) c))) s))"

text \<open>The awaited scan and the awaited plan are parameters; the evidence is what the store holds then.\<close>

definition certification_run ::
  "certification_env \<Rightarrow> real \<Rightarrow> executability_scan result \<Rightarrow> evidence_tables \<Rightarrow> (real \<Rightarrow> unified_plan result)
     \<Rightarrow> certification_cycle certify" where
  "certification_run env capital scanned ev allocate =
     (if capital \<le> 0 then alift (Inl (ValueError ''total_capital_usd must be positive'')) else
      abind (alift scanned) (\<lambda>x. \<lambda>s.
      abind (afold (settle_pending env ev x) (pending_supported_trials (xs_completed_at x) s) 0) (\<lambda>matured.
      abind (alift (allocate capital)) (\<lambda>plan.
      abind (afold (record_decision env (up_observed_at plan)) (up_allocations plan)
        \<lparr>tc_recorded = 0, tc_supported = 0, tc_unsupported = 0\<rparr>) (\<lambda>c.
      abind (draw_id env) (\<lambda>i.
      alift (Inr \<lparr>cq_cycle_id = i, cq_observed_at = up_observed_at plan,
        cq_plan_allocation_count = length (up_allocations plan), cq_trials_recorded = tc_recorded c,
        cq_supported_trials_recorded = tc_supported c, cq_unsupported_trials_recorded = tc_unsupported c,
        cq_outcomes_matured = matured, cq_paper_only = True\<rparr>))))) s))"

section \<open>The summary\<close>

record certification_summary =
  sy_trial_count :: nat
  sy_supported_trial_count :: nat
  sy_unsupported_trial_count :: nat
  sy_settled_outcome_count :: nat
  sy_pending_supported_count :: nat
  sy_multi_leg_supported_trial_count :: nat
  sy_multi_leg_settled_outcome_count :: nat
  sy_settlement_coverage_fraction :: "real option"
  sy_predicted_profit_usd :: real
  sy_realized_profit_usd :: real
  sy_profit_capture_ratio_aggregate :: "real option"
  sy_median_trial_profit_capture_ratio :: "real option"
  sy_mean_prediction_error_usd :: "real option"
  sy_profitable_trial_rate :: "real option"

definition certification_summary_of :: "certification_tables \<Rightarrow> certification_summary" where
  "certification_summary_of s =
     (let trials = trials_all s; outcomes = outcomes_all s;
          supported = filter tl_settlement_supported trials;
          realized = (\<Sum>u\<leftarrow>outcomes. oc_realized_profit_usd u);
          predicted = (\<Sum>u\<leftarrow>outcomes. oc_predicted_profit_usd u);
          errors = map oc_prediction_error_usd outcomes;
          capture = some_values (map oc_profit_capture_ratio outcomes)
      in \<lparr>sy_trial_count = length trials, sy_supported_trial_count = length supported,
          sy_unsupported_trial_count = length trials - length supported,
          sy_settled_outcome_count = length outcomes,
          sy_pending_supported_count = length supported - length outcomes,
          sy_multi_leg_supported_trial_count = length (filter (\<lambda>t. length (tl_settlement_legs t) \<ge> 2) supported),
          sy_multi_leg_settled_outcome_count = length (filter (\<lambda>u. length (oc_leg_outcomes u) \<ge> 2) outcomes),
          sy_settlement_coverage_fraction =
            (if trials = [] then None else Some (real (length supported) / real (length trials))),
          sy_predicted_profit_usd = predicted, sy_realized_profit_usd = realized,
          sy_profit_capture_ratio_aggregate = (if predicted > 0 then Some (realized / predicted) else None),
          sy_median_trial_profit_capture_ratio = (if capture = [] then None else Some (median capture)),
          sy_mean_prediction_error_usd =
            (if errors = [] then None else Some (sum_list errors / real (length errors))),
          sy_profitable_trial_rate = (if outcomes = [] then None
            else Some (real (length (filter oc_profitable outcomes)) / real (length outcomes)))\<rparr>)"

end
