(* ===== verification/Certification_Correct.thy ===== *)
theory Certification_Correct
  imports Certification_Service
begin

text \<open>
  What settlement computes, what the two tables keep, and what a cycle of the certification
  service leaves, completed or aborted.
\<close>

section \<open>Closing the legs\<close>

definition closes_leg :: "executability_scan \<Rightarrow> settlement_leg \<times> (real \<times> nat) \<Rightarrow> leg_outcome \<Rightarrow> bool" where
  "closes_leg x lf r \<longleftrightarrow> (\<exists>b fill.
     scan_books x (sl_venue (fst lf), upper (sl_asset (fst lf)), sl_market_kind (fst lf), sl_symbol (fst lf)) = Some b
     \<and> estimate_market_order_quantity b (close_side (fst lf)) (sl_base_quantity (fst lf)) True = Inr fill
     \<and> r = closed_leg (fst lf) (snd lf) fill \<and> leg_outcome_ok r)"

lemma close_legs_Some:
  "close_legs x lfs p f rows = Inr (Some (p', f', rows')) \<Longrightarrow>
     \<exists>new. rows' = rows @ new \<and> list_all2 (closes_leg x) lfs new
       \<and> p' = p + (\<Sum>r\<leftarrow>new. lo_price_pnl_usd r) \<and> f' = f + (\<Sum>r\<leftarrow>new. lo_funding_pnl_usd r)"
proof (induction lfs arbitrary: p f rows)
  case (Cons lf lfs)
  obtain l g where lf: "lf = (l, g)" by (cases lf)
  obtain b fill where bf: "scan_books x (sl_venue l, upper (sl_asset l), sl_market_kind l, sl_symbol l) = Some b"
      "estimate_market_order_quantity b (close_side l) (sl_base_quantity l) True = Inr fill"
      "leg_outcome_ok (closed_leg l g fill)"
    and rest: "close_legs x lfs (p + lo_price_pnl_usd (closed_leg l g fill)) (f + fst g)
      (rows @ [closed_leg l g fill]) = Inr (Some (p', f', rows'))"
    using Cons.prems unfolding lf
    by (auto simp: Let_def split: option.splits sum.splits py_error.splits if_splits)
  from Cons.IH [OF rest] obtain new where new: "rows' = (rows @ [closed_leg l g fill]) @ new"
      "list_all2 (closes_leg x) lfs new"
      "p' = p + lo_price_pnl_usd (closed_leg l g fill) + (\<Sum>r\<leftarrow>new. lo_price_pnl_usd r)"
      "f' = f + fst g + (\<Sum>r\<leftarrow>new. lo_funding_pnl_usd r)" by blast
  have "closes_leg x lf (closed_leg l g fill)" using bf by (auto simp: closes_leg_def lf)
  then show ?case using new
    by (intro exI [of _ "closed_leg l g fill # new"]) (simp add: closed_leg_def)
qed simp

lemma leg_fundings_Some:
  "leg_fundings ev source due ls = Some fs \<Longrightarrow> list_all2 (\<lambda>l f. funding_for_leg ev l source due = Some f) ls fs"
  by (induction ls arbitrary: fs) (auto split: option.splits)

section \<open>Outcomes\<close>

text \<open>An outcome is about its trial, and its parts add up.\<close>

definition outcome_of :: "allocation_trial \<Rightarrow> executability_scan \<Rightarrow> allocation_outcome \<Rightarrow> bool" where
  "outcome_of t x u \<longleftrightarrow> oc_trial_id u = tl_trial_id t \<and> oc_matured_at u = xs_completed_at x
     \<and> oc_predicted_profit_usd u = tl_predicted_profit_usd t
     \<and> oc_prediction_error_usd u = oc_realized_profit_usd u - tl_predicted_profit_usd t
     \<and> oc_profitable u = (0 < oc_realized_profit_usd u)
     \<and> oc_paper_only u \<and> \<not> oc_live_execution_authority u
     \<and> (\<exists>price. oc_realized_price_pnl_usd u = Some price
          \<and> oc_realized_profit_usd u = price + oc_realized_funding_pnl_usd u - oc_modeled_non_slippage_cost_usd u)"

lemma settle_spot_long_outcome:
  "settle_spot_long t x = Inr (Some u) \<Longrightarrow> outcome_of t x u"
  by (auto simp: settle_spot_long_def outcome_of_def outcome_base_def Let_def split: option.splits)
    (simp add: algebra_simps)

lemma settle_perp_short_outcome:
  "settle_perp_short ev t x = Inr (Some u) \<Longrightarrow> outcome_of t x u"
  by (auto simp: settle_perp_short_def outcome_of_def outcome_base_def Let_def
      split: option.splits list.splits if_splits)

lemma multileg_outcome_Some:
  assumes "multileg_outcome t x due bps (p, f, rows) = Inr (Some u)"
  shows "outcome_of t x u" and "oc_leg_outcomes u = rows"
    and "oc_realized_profit_usd u = p + f - tl_notional_usd t * bps / 10000"
    and "oc_realized_net_return u = oc_realized_profit_usd u / tl_capital_required_usd t"
  using assms by (auto simp: multileg_outcome_def outcome_of_def outcome_base_def Let_def)

text \<open>What a settled two-leg trial has.\<close>

lemma settle_multileg_Some:
  assumes "settle_multileg ev t x = Inr (Some u)"
  obtains due source bps fs p f rows where "tl_due_at t = Some due" and "tl_source_observed_at t = Some source"
    and "tl_modeled_non_slippage_cost_bps t = Some bps" and "length (tl_settlement_legs t) = 2"
    and "leg_fundings ev source due (tl_settlement_legs t) = Some fs"
    and "close_legs x (zip (tl_settlement_legs t) fs) 0 0 [] = Inr (Some (p, f, rows))"
    and "multileg_outcome t x due bps (p, f, rows) = Inr (Some u)"
  using assms by (auto simp: settle_multileg_def split: option.splits if_splits)

lemma settle_multileg_outcome: "settle_multileg ev t x = Inr (Some u) \<Longrightarrow> outcome_of t x u"
  by (erule settle_multileg_Some) (rule multileg_outcome_Some(1))

lemma settle_trial_outcome:
  "settle_trial ev t x = Inr (Some u) \<Longrightarrow> outcome_of t x u \<and> tl_settlement_supported t \<and> tl_due_at t \<noteq> None"
  using settle_spot_long_outcome settle_perp_short_outcome settle_multileg_outcome
  by (auto simp: settle_trial_def split: if_splits)

text \<open>The profit of a two-leg trial, from the fills that close it and the funding of its legs.\<close>

lemma settle_multileg_profit:
  assumes "settle_multileg ev t x = Inr (Some u)"
  obtains bps source due fs where "tl_modeled_non_slippage_cost_bps t = Some bps"
    and "tl_source_observed_at t = Some source" and "tl_due_at t = Some due" and "length (tl_settlement_legs t) = 2"
    and "list_all2 (\<lambda>l f. funding_for_leg ev l source due = Some f) (tl_settlement_legs t) fs"
    and "list_all2 (closes_leg x) (zip (tl_settlement_legs t) fs) (oc_leg_outcomes u)"
    and "oc_realized_profit_usd u = (\<Sum>r\<leftarrow>oc_leg_outcomes u. lo_price_pnl_usd r + lo_funding_pnl_usd r)
           - tl_notional_usd t * bps / 10000"
    and "oc_realized_net_return u = oc_realized_profit_usd u / tl_capital_required_usd t"
proof -
  obtain due source bps fs p f rows where m: "tl_due_at t = Some due" "tl_source_observed_at t = Some source"
      "tl_modeled_non_slippage_cost_bps t = Some bps" "length (tl_settlement_legs t) = 2"
      "leg_fundings ev source due (tl_settlement_legs t) = Some fs"
      "close_legs x (zip (tl_settlement_legs t) fs) 0 0 [] = Inr (Some (p, f, rows))"
      "multileg_outcome t x due bps (p, f, rows) = Inr (Some u)" using assms by (rule settle_multileg_Some)
  have "list_all2 (closes_leg x) (zip (tl_settlement_legs t) fs) rows \<and> p = (\<Sum>r\<leftarrow>rows. lo_price_pnl_usd r)
      \<and> f = (\<Sum>r\<leftarrow>rows. lo_funding_pnl_usd r)"
    using close_legs_Some [OF m(6)] by auto
  then show ?thesis
    using that [OF m(3,2,1,4) leg_fundings_Some [OF m(5)]] multileg_outcome_Some [OF m(7)] by (simp add: sum_list_addf)
qed

text \<open>The short of a trial made from an allocation is accounted for like its leg.\<close>

lemma short_leg_pnl:
  assumes "short_leg a = Inr l" and "ua_entry_reference_price a = Some entry"
  shows "leg_price_pnl l m = ua_notional_usd_per_leg a * (1 - m / entry)"
proof -
  have l: "sl_side l = SHORT" "sl_base_quantity l = ua_notional_usd_per_leg a / entry" "sl_entry_price l = entry" "entry \<noteq> 0"
    using assms by (auto simp: short_leg_def value_or_def Let_def split: if_splits)
  then show ?thesis by (simp add: leg_price_pnl_def field_simps)
qed

section \<open>Funding\<close>

definition funds :: "time \<Rightarrow> time \<Rightarrow> time \<Rightarrow> funding_quote \<Rightarrow> bool" where
  "funds source due e q \<longleftrightarrow> fq_next_funding_time q = Some e \<and> source < e \<and> e \<le> due \<and> fq_observed_at q \<le> e"

text \<open>A schedule holds one quote per event: the latest of the quotes that announce it in time.\<close>

definition chosen :: "time \<Rightarrow> time \<Rightarrow> funding_quote list \<Rightarrow> time \<Rightarrow> funding_quote option \<Rightarrow> bool" where
  "chosen source due qs e pick = (case pick of
     None \<Rightarrow> \<forall>r \<in> set qs. \<not> funds source due e r
   | Some q \<Rightarrow> q \<in> set qs \<and> funds source due e q
       \<and> (\<forall>r \<in> set qs. funds source due e r \<longrightarrow> fq_observed_at r \<le> fq_observed_at q))"

definition schedule_ok :: "time \<Rightarrow> time \<Rightarrow> funding_quote list \<Rightarrow> (time \<times> funding_quote) list \<Rightarrow> bool" where
  "schedule_ok source due qs m \<longleftrightarrow> distinct (map fst m) \<and> (\<forall>e. chosen source due qs e (map_of m e))"

lemma chosen_other: "\<not> funds source due e q \<Longrightarrow> chosen source due qs e x \<Longrightarrow> chosen source due (qs @ [q]) e x"
  by (auto simp: chosen_def split: option.splits)

lemma chosen_new:
  assumes "funds source due e q" and "chosen source due qs e x"
    and "case x of None \<Rightarrow> True | Some r \<Rightarrow> fq_observed_at r < fq_observed_at q"
  shows "chosen source due (qs @ [q]) e (Some q)"
  using assms by (force simp: chosen_def split: option.splits)

lemma chosen_kept:
  "funds source due e q \<Longrightarrow> chosen source due qs e (Some r) \<Longrightarrow> fq_observed_at q \<le> fq_observed_at r \<Longrightarrow>
     chosen source due (qs @ [q]) e (Some r)"
  by (auto simp: chosen_def)

lemma funds_once: "funds source due e q \<Longrightarrow> funds source due e' q \<Longrightarrow> e' = e"
  by (simp add: funds_def)

lemma schedule_ok_update:
  assumes "schedule_ok source due qs m" and "funds source due e q"
    and "case map_of m e of None \<Rightarrow> True | Some r \<Rightarrow> fq_observed_at r < fq_observed_at q"
  shows "schedule_ok source due (qs @ [q]) (AList.update e q m)"
proof -
  have "chosen source due (qs @ [q]) e' (map_of (AList.update e q m) e')" for e'
  proof (cases "e' = e")
    case True
    then show ?thesis
      using chosen_new [OF assms(2) _ assms(3)] assms(1) by (simp add: schedule_ok_def update_conv')
  next
    case False
    then show ?thesis
      using chosen_other [of source due e' q] funds_once [OF assms(2)] assms(1)
      by (auto simp: schedule_ok_def update_conv')
  qed
  then show ?thesis using assms(1) by (simp add: schedule_ok_def distinct_update)
qed

lemma schedule_ok_keep:
  assumes "schedule_ok source due qs m" and "funds source due e q"
    and "map_of m e = Some r" and "fq_observed_at q \<le> fq_observed_at r"
  shows "schedule_ok source due (qs @ [q]) m"
proof -
  have all: "chosen source due qs e' (map_of m e')" for e' using assms(1) by (simp add: schedule_ok_def)
  have "chosen source due (qs @ [q]) e' (map_of m e')" for e'
  proof (cases "e' = e")
    case True
    then show ?thesis using chosen_kept [OF assms(2) _ assms(4)] all [of e] assms(3) by simp
  next
    case False
    then show ?thesis using chosen_other [OF _ all] funds_once [OF assms(2)] by blast
  qed
  then show ?thesis using assms(1) by (simp add: schedule_ok_def)
qed

lemma schedule_ok_skip:
  "schedule_ok source due qs m \<Longrightarrow> (\<And>e. \<not> funds source due e q) \<Longrightarrow> schedule_ok source due (qs @ [q]) m"
  using chosen_other by (auto simp: schedule_ok_def)

lemma funding_schedule_ok:
  "funding_schedule source due qs = (m, seen) \<Longrightarrow> schedule_ok source due qs m"
proof (induction qs arbitrary: m seen rule: rev_induct)
  case Nil
  then show ?case by (simp add: funding_schedule_def schedule_ok_def chosen_def)
next
  case (snoc q qs)
  obtain m0 seen0 where 0: "funding_schedule source due qs = (m0, seen0)" by fastforce
  note IH = snoc.IH [OF 0]
  have step: "schedule_quote source due (m0, seen0) q = (m, seen)"
    using snoc.prems 0 by (simp add: funding_schedule_def)
  show ?case
  proof (cases "\<exists>e. funds source due e q")
    case False
    then have "m = m0" using step by (auto simp: schedule_quote_def funds_def split: option.splits if_splits)
    then show ?thesis using schedule_ok_skip [OF IH] False by auto
  next
    case True
    then obtain e where e: "funds source due e q" by blast
    show ?thesis
    proof (cases "map_of m0 e")
      case None
      then have "m = AList.update e q m0" using step e by (simp add: schedule_quote_def funds_def)
      then show ?thesis using schedule_ok_update [OF IH e] None by simp
    next
      case (Some r)
      then have "m = (if fq_observed_at q > fq_observed_at r then AList.update e q m0 else m0)"
        using step e by (auto simp: schedule_quote_def funds_def)
      then show ?thesis using schedule_ok_update [OF IH e] schedule_ok_keep [OF IH e Some] Some by auto
    qed
  qed
qed

definition funding_payment :: "evidence_tables \<Rightarrow> settlement_leg \<Rightarrow> time \<Rightarrow> funding_quote \<Rightarrow> real" where
  "funding_payment ev l e q =
     - side_sign (sl_side l) * (sl_base_quantity l * value_or (historical_mid ev l e) 0) * fq_rate q"

lemma accrue_funding_Some:
  "accrue_funding ev l es acc = Some p \<Longrightarrow>
     p = acc + (\<Sum>(e, q)\<leftarrow>es. funding_payment ev l e q) \<and> (\<forall>x \<in> set es. historical_mid ev l (fst x) \<noteq> None)"
proof (induction ev l es acc rule: accrue_funding.induct)
  case (2 ev l e q es acc)
  then show ?case by (auto simp: funding_payment_def value_or_def split: option.splits)
qed simp

lemma sum_list_sort_key: "(\<Sum>x\<leftarrow>sort_key k xs. (f x :: real)) = (\<Sum>x\<leftarrow>xs. f x)"
  by (metis mset_map mset_sort sum_mset_sum_list)

lemma funding_for_leg_Some:
  assumes "funding_for_leg ev l source due = Some (p, n)" and "sl_market_kind l = market_kind_value PERPETUAL"
  obtains m where "schedule_ok source due (funding_quotes_for_leg ev l source due) m" and "n = length m"
    and "p = (\<Sum>(e, q)\<leftarrow>m. funding_payment ev l e q)" and "\<forall>x \<in> set m. historical_mid ev l (fst x) \<noteq> None"
proof -
  let ?rows = "funding_quotes_for_leg ev l source due"
  obtain m seen where m: "funding_schedule source due ?rows = (m, seen)" by fastforce
  then have a: "accrue_funding ev l (sort_key fst m) 0 = Some p" and n: "n = length m"
    using assms by (auto simp: funding_for_leg_def Let_def split: if_splits option.splits)
  have "p = (\<Sum>(e, q)\<leftarrow>m. funding_payment ev l e q)" and "\<forall>x \<in> set m. historical_mid ev l (fst x) \<noteq> None"
    using accrue_funding_Some [OF a] by (simp_all add: sum_list_sort_key)
  then show ?thesis using that [OF funding_schedule_ok [OF m] n] by blast
qed

end
