(* ===== verification/Certification_Cycle.thy ===== *)
theory Certification_Cycle
  imports Certification_Correct
begin

text \<open>
  The cycle of the certification service keeps its tables: one outcome at most for a trial, only
  for a supported trial that was due, and at most one open trial in a cohort.
\<close>

section \<open>Valid tables\<close>

definition open_trials :: "certification_tables \<Rightarrow> allocation_trial list" where
  "open_trials s = filter (\<lambda>t. tl_settlement_supported t \<and> tl_trial_id t \<notin> completed_trial_ids s) (trials_all s)"

text \<open>The outcome belongs to the trial, which was due when it was settled.\<close>

definition settles :: "allocation_trial \<Rightarrow> allocation_outcome \<Rightarrow> bool" where
  "settles t u \<longleftrightarrow> (\<exists>x. outcome_of t x u) \<and> tl_settlement_supported t
     \<and> (\<exists>due. tl_due_at t = Some due \<and> due \<le> oc_matured_at u)"

definition ids_drawn :: "certification_env \<Rightarrow> certification_tables \<Rightarrow> string set" where
  "ids_drawn env s = ce_uuid env ` {..<cl_drawn s}"

definition tables_ok :: "certification_env \<Rightarrow> certification_tables \<Rightarrow> bool" where
  "tables_ok env s \<longleftrightarrow> distinct (map tl_trial_id (trials_all s))
     \<and> tl_trial_id ` set (trials_all s) \<subseteq> ids_drawn env s
     \<and> distinct (map oc_trial_id (outcomes_all s))
     \<and> (\<forall>u \<in> set (outcomes_all s). \<exists>t \<in> set (trials_all s). settles t u)
     \<and> distinct (map tl_cohort_key (open_trials s))"

definition prolongs :: "certification_tables \<Rightarrow> certification_tables \<Rightarrow> bool" where
  "prolongs s t \<longleftrightarrow> (\<exists>rs us. cl_trials t = cl_trials s @ rs \<and> cl_outcomes t = cl_outcomes s @ us)
     \<and> cl_drawn s \<le> cl_drawn t"

lemma prolongs_refl [simp]: "prolongs s s"
  by (simp add: prolongs_def)

lemma prolongs_trans: "prolongs s t \<Longrightarrow> prolongs t u \<Longrightarrow> prolongs s u"
  by (fastforce simp: prolongs_def)

text \<open>What every operation keeps, even when it raises.\<close>

definition kept :: "certification_env \<Rightarrow> certification_tables \<Rightarrow> certification_tables \<Rightarrow> bool" where
  "kept env s0 s \<longleftrightarrow> tables_ok env s \<and> prolongs s0 s"

lemma tables_of_drawn [simp]:
  "trials_all (s\<lparr>cl_drawn := n\<rparr>) = trials_all s" "outcomes_all (s\<lparr>cl_drawn := n\<rparr>) = outcomes_all s"
  "completed_trial_ids (s\<lparr>cl_drawn := n\<rparr>) = completed_trial_ids s" "open_trials (s\<lparr>cl_drawn := n\<rparr>) = open_trials s"
  by (simp_all add: trials_all_def outcomes_all_def completed_trial_ids_def open_trials_def)

lemma kept_drawn:
  assumes "kept env s0 s" and "cl_drawn s \<le> n"
  shows "kept env s0 (s\<lparr>cl_drawn := n\<rparr>)"
proof -
  have "ids_drawn env s \<subseteq> ids_drawn env (s\<lparr>cl_drawn := n\<rparr>)" using assms(2) by (auto simp: ids_drawn_def)
  moreover have "prolongs s (s\<lparr>cl_drawn := n\<rparr>)" using assms(2) by (simp add: prolongs_def)
  ultimately show ?thesis
    using assms(1) by (auto simp: kept_def tables_ok_def intro: prolongs_trans)
qed

text \<open>Recording an outcome closes its trial and leaves the other trials open.\<close>

lemma record_outcome_kept:
  assumes "kept env s0 s" and "t \<in> set (trials_all s)" and "settles t u" and "tl_trial_id t \<notin> completed_trial_ids s"
  obtains w where "record_outcome env u s = (Inr (oc_outcome_id u), w)" and "kept env s0 w"
    and "trials_all w = trials_all s" and "outcomes_all w = outcomes_all s @ [u]"
    and "completed_trial_ids w = insert (tl_trial_id t) (completed_trial_ids s)"
proof -
  let ?w = "s\<lparr>cl_outcomes := cl_outcomes s @ [\<lparr>oz_outcome = u, oz_lineage_hash = ce_sha256_hex env (ce_outcome_json env u)\<rparr>]\<rparr>"
  have id: "oc_trial_id u = tl_trial_id t" using assms(3) by (auto simp: settles_def outcome_of_def)
  have tr: "trials_all ?w = trials_all s" and out: "outcomes_all ?w = outcomes_all s @ [u]"
    by (simp_all add: trials_all_def outcomes_all_def)
  then have done': "completed_trial_ids ?w = insert (tl_trial_id t) (completed_trial_ids s)"
    by (simp add: completed_trial_ids_def id)
  have "open_trials ?w = filter (\<lambda>r. tl_trial_id r \<noteq> tl_trial_id t) (open_trials s)"
    unfolding open_trials_def tr done' by (auto intro!: filter_cong)
  then have "distinct (map tl_cohort_key (open_trials ?w))"
    using assms(1) by (simp add: kept_def tables_ok_def distinct_map_filter)
  moreover have "distinct (map oc_trial_id (outcomes_all ?w))"
    using assms(1,4) by (auto simp: out id kept_def tables_ok_def completed_trial_ids_def)
  ultimately have "tables_ok env ?w"
    using assms(1-3) by (auto simp: kept_def tables_ok_def tr out ids_drawn_def)
  moreover have "prolongs s0 ?w"
    using assms(1) by (auto simp: kept_def intro!: prolongs_trans [of s0 s]) (simp add: prolongs_def)
  ultimately have "kept env s0 ?w" by (simp add: kept_def)
  moreover have "record_outcome env u s = (Inr (oc_outcome_id u), ?w)"
    using assms(4) by (simp add: record_outcome_def id)
  ultimately show ?thesis using that tr out done' by blast
qed

text \<open>Recording a trial under a fresh id, with no open trial in its cohort if it is supported.\<close>

lemma record_trial_kept:
  assumes "kept env s0 s" and "tl_trial_id t \<in> ids_drawn env s" and "tl_trial_id t \<notin> tl_trial_id ` set (trials_all s)"
    and "\<not> (tl_settlement_supported t \<and> has_unsettled_supported_cohort (tl_cohort_key t) s)"
  obtains w where "record_trial env t s = (Inr (tl_trial_id t), w)" and "kept env s0 w"
    and "trials_all w = trials_all s @ [t]" and "outcomes_all w = outcomes_all s"
proof -
  let ?w = "s\<lparr>cl_trials := cl_trials s @ [\<lparr>tw_trial = t, tw_lineage_hash = ce_sha256_hex env (ce_trial_json env t)\<rparr>]\<rparr>"
  have tr: "trials_all ?w = trials_all s @ [t]" and out: "outcomes_all ?w = outcomes_all s"
    by (simp_all add: trials_all_def outcomes_all_def)
  then have comp: "completed_trial_ids ?w = completed_trial_ids s" by (simp add: completed_trial_ids_def)
  have cohort: "tl_cohort_key t \<notin> tl_cohort_key ` set (open_trials s)" if "tl_settlement_supported t"
    using assms(4) that by (auto simp: has_unsettled_supported_cohort_def open_trials_def)
  have "distinct (map tl_cohort_key (open_trials ?w))"
    using assms(1) cohort by (auto simp: open_trials_def tr comp kept_def tables_ok_def)
  moreover have "distinct (map tl_trial_id (trials_all ?w))"
    using assms(1,3) by (auto simp: tr kept_def tables_ok_def)
  moreover have "ids_drawn env ?w = ids_drawn env s" by (simp add: ids_drawn_def)
  ultimately have "tables_ok env ?w"
    using assms(1,2) by (auto simp: kept_def tables_ok_def tr out)
  moreover have "prolongs s0 ?w"
    using assms(1) by (auto simp: kept_def intro!: prolongs_trans [of s0 s]) (simp add: prolongs_def)
  ultimately have "kept env s0 ?w" by (simp add: kept_def)
  moreover have "record_trial env t s = (Inr (tl_trial_id t), ?w)" using assms(3) by (simp add: record_trial_def)
  ultimately show ?thesis using that tr out by blast
qed

section \<open>The settlement loop\<close>

text \<open>The trials that the evidence of a scan settles.\<close>

definition evidenced :: "evidence_tables \<Rightarrow> executability_scan \<Rightarrow> allocation_trial \<Rightarrow> bool" where
  "evidenced ev x t \<longleftrightarrow> (\<exists>u. settle_trial ev t x = Inr (Some u))"

definition maturing ::
  "certification_env \<Rightarrow> evidence_tables \<Rightarrow> executability_scan \<Rightarrow> certification_tables
     \<Rightarrow> allocation_trial list \<Rightarrow> allocation_trial list \<Rightarrow> nat \<Rightarrow> certification_tables \<Rightarrow> bool" where
  "maturing env ev x s0 all rest k s \<longleftrightarrow> kept env s0 s \<and> trials_all s = trials_all s0
     \<and> length (outcomes_all s) = length (outcomes_all s0) + k
     \<and> distinct (map tl_trial_id rest)
     \<and> (\<forall>t \<in> set rest. t \<in> set (trials_all s) \<and> is_due (xs_completed_at x) t \<and> tl_trial_id t \<notin> completed_trial_ids s)
     \<and> (\<forall>t \<in> set all. t \<in> set rest \<or> (tl_trial_id t \<in> completed_trial_ids s \<longleftrightarrow> evidenced ev x t))
     \<and> completed_trial_ids s0 \<subseteq> completed_trial_ids s
     \<and> completed_trial_ids s \<subseteq> completed_trial_ids s0 \<union> tl_trial_id ` set all"

lemma trial_settle_step:
  assumes "distinct (map tl_trial_id all)" and "set (t # rest) \<subseteq> set all"
  shows "triple (maturing env ev x s0 all (t # rest) k) (settle_pending env ev x t k)
    (\<lambda>k'. maturing env ev x s0 all rest k') (kept env s0)"
proof (rule tripleI)
  fix s assume s: "maturing env ev x s0 all (t # rest) k s"
  then have kept: "kept env s0 s" and t: "t \<in> set (trials_all s)" "is_due (xs_completed_at x) t"
      "tl_trial_id t \<notin> completed_trial_ids s" by (auto simp: maturing_def)
  have other: "tl_trial_id r \<noteq> tl_trial_id t" if "r \<in> set all" "r \<noteq> t" for r
    using assms that by (auto simp: distinct_map inj_on_def)
  have fresh: "r \<noteq> t" if "r \<in> set rest" for r using s that by (auto simp: maturing_def)
  show "case settle_pending env ev x t k s of (Inr k', w) \<Rightarrow> maturing env ev x s0 all rest k' w | (Inl e, w) \<Rightarrow> kept env s0 w"
  proof (cases "settle_trial ev t x")
    case (Inl e)
    then show ?thesis using kept by (simp add: settle_pending_def abind_def alift_def)
  next
    case (Inr draft)
    show ?thesis
    proof (cases draft)
      case None
      then have "\<not> evidenced ev x t" using Inr by (simp add: evidenced_def)
      then have "maturing env ev x s0 all rest k s"
        using s t(3) unfolding maturing_def by (metis (no_types, lifting) distinct.simps(2) list.set_intros(2) list.simps(9) set_ConsD)
      then show ?thesis using Inr None by (simp add: settle_pending_def abind_def alift_def)
    next
      case (Some u)
      let ?n = "Suc (cl_drawn s)" and ?u = "u\<lparr>oc_outcome_id := ce_uuid env (cl_drawn s)\<rparr>"
      have kd: "kept env s0 (s\<lparr>cl_drawn := ?n\<rparr>)" by (rule kept_drawn [OF kept]) simp
      show ?thesis
      proof (cases "outcome_ok u")
        case False
        then show ?thesis
          using Inr Some kd by (simp add: settle_pending_def abind_def alift_def new_outcome_def draw_id_def)
      next
        case True
        have "outcome_of t x u" "tl_settlement_supported t" using settle_trial_outcome Inr Some by auto
        then have "settles t ?u"
          using t(2) by (auto simp: settles_def outcome_of_def is_due_def split: option.splits)
        then obtain w where w: "record_outcome env ?u (s\<lparr>cl_drawn := ?n\<rparr>) = (Inr (oc_outcome_id ?u), w)" "kept env s0 w"
            "trials_all w = trials_all s" "outcomes_all w = outcomes_all s @ [?u]"
            "completed_trial_ids w = insert (tl_trial_id t) (completed_trial_ids s)"
          using record_outcome_kept [OF kd, of t ?u] t(1,3) by auto
        have ev: "evidenced ev x t" using Inr Some by (simp add: evidenced_def)
        have "maturing env ev x s0 all rest (Suc k) w"
          unfolding maturing_def w(3-5)
        proof (intro conjI ballI)
          fix r assume r: "r \<in> set rest"
          then show "r \<in> set (trials_all s)" "is_due (xs_completed_at x) r" using s by (auto simp: maturing_def)
          show "tl_trial_id r \<notin> insert (tl_trial_id t) (completed_trial_ids s)"
            using s r other [of r] fresh [OF r] assms(2) by (auto simp: maturing_def)
        next
          fix r assume r: "r \<in> set all"
          show "r \<in> set rest \<or> (tl_trial_id r \<in> insert (tl_trial_id t) (completed_trial_ids s) \<longleftrightarrow> evidenced ev x r)"
          proof (cases "r = t")
            case False
            then show ?thesis using s r other [OF r False] by (auto simp: maturing_def)
          qed (simp add: ev)
        qed (use s w(2) assms(2) in \<open>auto simp: maturing_def\<close>)
        then show ?thesis
          using Inr Some True w(1) by (simp add: settle_pending_def abind_def alift_def new_outcome_def draw_id_def)
      qed
    qed
  qed
qed

lemma settle_loop_matures:
  "distinct (map tl_trial_id all) \<Longrightarrow> set rest \<subseteq> set all \<Longrightarrow>
     triple (maturing env ev x s0 all rest k) (afold (settle_pending env ev x) rest k)
       (\<lambda>k'. maturing env ev x s0 all [] k') (kept env s0)"
proof (induction rest arbitrary: k)
  case Nil
  then show ?case by (simp add: triple_def alift_def)
next
  case (Cons t rest)
  show ?case unfolding afold.simps
    by (rule triple_bind [OF trial_settle_step [OF Cons.prems]]) (use Cons in auto)
qed

section \<open>The decision loop\<close>

text \<open>The ids of the uuid stream are distinct.\<close>

definition ids_ok :: "certification_env \<Rightarrow> bool" where
  "ids_ok env \<longleftrightarrow> inj (ce_uuid env)"

definition supported_count :: "certification_tables \<Rightarrow> nat" where
  "supported_count s = length (filter tl_settlement_supported (trials_all s))"

definition deciding ::
  "certification_env \<Rightarrow> certification_tables \<Rightarrow> certification_tables \<Rightarrow> trial_counts \<Rightarrow> certification_tables \<Rightarrow> bool" where
  "deciding env s0 s1 c s \<longleftrightarrow> kept env s0 s \<and> outcomes_all s = outcomes_all s1
     \<and> (\<exists>rs. trials_all s = trials_all s1 @ rs)
     \<and> length (trials_all s) = length (trials_all s1) + tc_recorded c
     \<and> supported_count s = supported_count s1 + tc_supported c
     \<and> tc_recorded c = tc_supported c + tc_unsupported c"

lemma deciding_drawn: "deciding env s0 s1 c s \<Longrightarrow> deciding env s0 s1 c (s\<lparr>cl_drawn := Suc (cl_drawn s)\<rparr>)"
  by (auto simp: deciding_def supported_count_def intro: kept_drawn)

lemma decision_step:
  assumes "ids_ok env"
  shows "triple (deciding env s0 s1 c) (record_decision env plan_at a c) (deciding env s0 s1) (kept env s0)"
proof (rule tripleI)
  fix s assume s: "deciding env s0 s1 c s"
  let ?i = "ce_uuid env (cl_drawn s)" and ?s = "s\<lparr>cl_drawn := Suc (cl_drawn s)\<rparr>"
  have ds: "deciding env s0 s1 c ?s" by (rule deciding_drawn [OF s])
  then have kd: "kept env s0 ?s" by (simp add: deciding_def)
  have kept: "kept env s0 s" using s by (simp add: deciding_def)
  show "case record_decision env plan_at a c s of (Inr c', w) \<Rightarrow> deciding env s0 s1 c' w | (Inl e, w) \<Rightarrow> kept env s0 w"
  proof (cases "trial_from_allocation (ce_now env) a plan_at")
    case (Inl e)
    then show ?thesis using kept by (simp add: record_decision_def abind_def alift_def)
  next
    case (Inr draft)
    let ?t = "draft\<lparr>tl_trial_id := ?i\<rparr>"
    show ?thesis
    proof (cases "trial_ok draft")
      case False
      then show ?thesis using Inr kd by (simp add: record_decision_def abind_def alift_def new_trial_def draw_id_def)
    next
      case True
      have run: "record_decision env plan_at a c s =
          (if tl_settlement_supported ?t \<and> has_unsettled_supported_cohort (tl_cohort_key ?t) ?s then (Inr c, ?s)
           else abind (record_trial env ?t) (\<lambda>_. alift (Inr (count_trial (tl_settlement_supported ?t) c))) ?s)"
        using Inr True by (simp add: record_decision_def abind_def alift_def new_trial_def draw_id_def)
      show ?thesis
      proof (cases "tl_settlement_supported ?t \<and> has_unsettled_supported_cohort (tl_cohort_key ?t) ?s")
        case True
        then show ?thesis unfolding run using ds by simp
      next
        case False
        have "?i \<in> ids_drawn env ?s" by (auto simp: ids_drawn_def)
        moreover have "?i \<notin> ids_drawn env s" using assms by (auto simp: ids_ok_def ids_drawn_def dest: injD)
        then have "?i \<notin> tl_trial_id ` set (trials_all ?s)" using kept by (auto simp: kept_def tables_ok_def)
        ultimately obtain w where w: "record_trial env ?t ?s = (Inr (tl_trial_id ?t), w)" "kept env s0 w"
            "trials_all w = trials_all ?s @ [?t]" "outcomes_all w = outcomes_all ?s"
          using record_trial_kept [OF kd, of ?t] False by auto
        have "deciding env s0 s1 (count_trial (tl_settlement_supported ?t) c) w"
          using ds w(2-4) by (auto simp: deciding_def supported_count_def count_trial_def)
        then show ?thesis unfolding run using False w(1) by (auto simp: abind_def alift_def)
      qed
    qed
  qed
qed

lemma decision_loop:
  assumes "ids_ok env"
  shows "triple (deciding env s0 s1 c) (afold (record_decision env plan_at) as c) (deciding env s0 s1) (kept env s0)"
proof (induction as arbitrary: c)
  case Nil
  then show ?case by (simp add: triple_def alift_def)
next
  case (Cons a as)
  show ?case unfolding afold.simps by (rule triple_bind [OF decision_step [OF assms] Cons.IH])
qed

section \<open>The cycle\<close>

definition cycle_kept ::
  "certification_env \<Rightarrow> evidence_tables \<Rightarrow> executability_scan \<Rightarrow> certification_tables \<Rightarrow> certification_cycle
     \<Rightarrow> certification_tables \<Rightarrow> bool" where
  "cycle_kept env ev x s0 cy s \<longleftrightarrow> kept env s0 s
     \<and> length (outcomes_all s) = length (outcomes_all s0) + cq_outcomes_matured cy
     \<and> length (trials_all s) = length (trials_all s0) + cq_trials_recorded cy
     \<and> supported_count s = supported_count s0 + cq_supported_trials_recorded cy
     \<and> cq_trials_recorded cy = cq_supported_trials_recorded cy + cq_unsupported_trials_recorded cy
     \<and> (\<forall>t \<in> set (trials_all s0). tl_trial_id t \<in> completed_trial_ids s \<longleftrightarrow>
          tl_trial_id t \<in> completed_trial_ids s0 \<or> (is_due (xs_completed_at x) t \<and> evidenced ev x t))"

lemma pending_iff:
  "t \<in> set (pending_supported_trials now s) \<longleftrightarrow>
     t \<in> set (trials_all s) \<and> is_due now t \<and> tl_trial_id t \<notin> completed_trial_ids s"
  by (auto simp: pending_supported_trials_def)

lemma tables_ok_distinct: "tables_ok env s \<Longrightarrow> distinct (map tl_trial_id (pending_supported_trials now s))"
  by (simp add: tables_ok_def pending_supported_trials_def distinct_map_filter)

lemma run_kept:
  assumes "ids_ok env" and "tables_ok env s0"
  shows "case certification_run env capital scanned ev allocate s0 of
      (Inr cy, s) \<Rightarrow> \<exists>x. scanned = Inr x \<and> cycle_kept env ev x s0 cy s
    | (Inl e, s) \<Rightarrow> kept env s0 s"
proof (cases "0 < capital \<and> (\<exists>x. scanned = Inr x)")
  case False
  then show ?thesis
    using assms(2) by (cases scanned) (auto simp: certification_run_def abind_def alift_def kept_def)
next
  case True
  then obtain x where x: "scanned = Inr x" "0 < capital" by blast
  let ?all = "pending_supported_trials (xs_completed_at x) s0"
  have start: "maturing env ev x s0 ?all ?all 0 s0"
    using assms(2) tables_ok_distinct [OF assms(2)] by (auto simp: maturing_def kept_def pending_iff)
  note loop = settle_loop_matures [OF tables_ok_distinct [OF assms(2)] order_refl,
      where env = env and ev = ev and x = x and ?s0.0 = s0 and k = 0]
  have one: "case afold (settle_pending env ev x) ?all 0 s0 of
      (Inr k, s) \<Rightarrow> maturing env ev x s0 ?all [] k s | (Inl e, s) \<Rightarrow> kept env s0 s"
    using loop start by (simp add: triple_def)
  show ?thesis
  proof (cases "afold (settle_pending env ev x) ?all 0 s0")
    case (Pair r s1)
    show ?thesis
    proof (cases r)
      case (Inl e)
      then show ?thesis using one Pair x by (simp add: certification_run_def abind_def alift_def)
    next
      case (Inr k)
      then have m: "maturing env ev x s0 ?all [] k s1" using one Pair by simp
      then have k1: "kept env s0 s1" by (simp add: maturing_def)
      show ?thesis
      proof (cases "allocate capital")
        case (Inl e)
        then show ?thesis using Inr Pair x k1 by (simp add: certification_run_def abind_def alift_def)
      next
        case plan: (Inr plan)
        let ?c0 = "\<lparr>tc_recorded = 0, tc_supported = 0, tc_unsupported = 0\<rparr>"
        have "deciding env s0 s1 ?c0 s1" using k1 by (simp add: deciding_def)
        then have two: "case afold (record_decision env (up_observed_at plan)) (up_allocations plan) ?c0 s1 of
            (Inr c, s) \<Rightarrow> deciding env s0 s1 c s | (Inl e, s) \<Rightarrow> kept env s0 s"
          using decision_loop [OF assms(1), of s0 s1 ?c0] by (simp add: triple_def)
        have final: "cycle_kept env ev x s0 \<lparr>cq_cycle_id = i, cq_observed_at = t,
            cq_plan_allocation_count = n, cq_trials_recorded = tc_recorded c,
            cq_supported_trials_recorded = tc_supported c, cq_unsupported_trials_recorded = tc_unsupported c,
            cq_outcomes_matured = k, cq_paper_only = True\<rparr> (s2\<lparr>cl_drawn := Suc (cl_drawn s2)\<rparr>)"
          if d: "deciding env s0 s1 c s2" for i t n c s2
        proof -
          have comp: "completed_trial_ids s2 = completed_trial_ids s1"
            using d by (simp add: deciding_def completed_trial_ids_def)
          have "tl_trial_id r \<in> completed_trial_ids s1 \<longleftrightarrow>
              tl_trial_id r \<in> completed_trial_ids s0 \<or> (is_due (xs_completed_at x) r \<and> evidenced ev x r)"
            if r: "r \<in> set (trials_all s0)" for r
          proof (cases "r \<in> set ?all")
            case True
            then show ?thesis using m by (auto simp: maturing_def pending_iff)
          next
            case False
            have "tl_trial_id r \<notin> tl_trial_id ` set ?all"
              using assms(2) r False pending_iff by (auto simp: tables_ok_def distinct_map dest: inj_onD)
            then show ?thesis using m r False by (auto simp: maturing_def pending_iff)
          qed
          then show ?thesis
            using deciding_drawn [OF d] d m comp
            by (auto simp: cycle_kept_def deciding_def maturing_def supported_count_def)
        qed
        show ?thesis
          using two x Pair Inr plan final
          by (auto simp: certification_run_def abind_def alift_def draw_id_def split: prod.splits sum.splits)
      qed
    qed
  qed
qed

section \<open>Reachable tables\<close>

text \<open>The clock may differ from cycle to cycle; the uuid stream is one.\<close>

inductive certified :: "certification_env \<Rightarrow> certification_tables \<Rightarrow> bool" for env where
  no_rows: "certified env \<lparr>cl_trials = [], cl_outcomes = [], cl_drawn = n\<rparr>"
| cycled: "certified env s \<Longrightarrow>
    certified env (snd (certification_run (env\<lparr>ce_now := now\<rparr>) capital scanned ev allocate s))"

lemma tables_ok_clock [simp]:
  "tables_ok (env\<lparr>ce_now := now\<rparr>) s = tables_ok env s" "ids_ok (env\<lparr>ce_now := now\<rparr>) = ids_ok env"
  by (simp_all add: tables_ok_def ids_drawn_def ids_ok_def)

lemma certified_ok: "certified env s \<Longrightarrow> ids_ok env \<Longrightarrow> tables_ok env s"
proof (induction rule: certified.induct)
  case (no_rows n)
  then show ?case by (simp add: tables_ok_def trials_all_def outcomes_all_def open_trials_def)
next
  case (cycled s now capital scanned ev allocate)
  have "tables_ok (env\<lparr>ce_now := now\<rparr>) (snd (certification_run (env\<lparr>ce_now := now\<rparr>) capital scanned ev allocate s))"
    using run_kept [where env = "env\<lparr>ce_now := now\<rparr>" and ?s0.0 = s and capital = capital and scanned = scanned
      and ev = ev and allocate = allocate] cycled
    by (auto simp: kept_def cycle_kept_def split: prod.splits sum.splits)
  then show ?case by simp
qed

lemma image_of_preimage: "C \<subseteq> f ` A \<Longrightarrow> f ` {a \<in> A. f a \<in> C} = C"
  by auto

text \<open>Open trials are the supported trials that have no outcome.\<close>

lemma open_count:
  assumes "tables_ok env s"
  shows "length (open_trials s) + length (outcomes_all s) = supported_count s"
proof -
  let ?sup = "filter tl_settlement_supported (trials_all s)"
  let ?closed = "filter (\<lambda>t. tl_trial_id t \<in> completed_trial_ids s) ?sup"
  have dist: "distinct (map tl_trial_id ?closed)"
    using assms by (simp add: tables_ok_def distinct_map_filter)
  have "completed_trial_ids s \<subseteq> tl_trial_id ` set ?sup"
    using assms by (fastforce simp: tables_ok_def completed_trial_ids_def settles_def outcome_of_def)
  then have "tl_trial_id ` {t \<in> set ?sup. tl_trial_id t \<in> completed_trial_ids s} = completed_trial_ids s"
    by (rule image_of_preimage)
  then have "set (map tl_trial_id ?closed) = set (map oc_trial_id (outcomes_all s))"
    by (simp add: completed_trial_ids_def conj_assoc)
  then have "length ?closed = length (outcomes_all s)"
    using dist assms by (metis distinct_card length_map tables_ok_def)
  moreover have "open_trials s = filter (\<lambda>t. \<not> tl_trial_id t \<in> completed_trial_ids s) ?sup"
    by (simp add: open_trials_def conj_commute)
  ultimately show ?thesis
    using sum_length_filter_compl [of "\<lambda>t. tl_trial_id t \<in> completed_trial_ids s" ?sup]
    by (simp add: supported_count_def)
qed

end
