(* ===== verification/Props_Certification.thy ===== *)
theory Props_Certification
  imports Certification_Cycle Fixtures
begin

text \<open>The properties of the forward certification of the allocator's decisions.\<close>

section \<open>Settlement\<close>

text \<open>
  C8: a settled two-leg trial is accounted for exactly: each leg is closed against the book of
  its instrument by an order of its whole quantity on the opposite side, and the realized profit
  is the price difference of the two legs at those average prices, with the funding of both legs,
  less the precommitted cost; the net return is that profit on the reserved capital.
\<close>

theorem multileg_settlement_exact:
  assumes "settle_trial ev t x = Inr (Some u)" and "tl_settlement_method t = Some multi_leg_method"
  shows "\<exists>source due bps l1 l2 b1 b2 q1 q2 f1 f2. tl_source_observed_at t = Some source \<and> tl_due_at t = Some due
    \<and> tl_modeled_non_slippage_cost_bps t = Some bps \<and> tl_settlement_legs t = [l1, l2]
    \<and> scan_books x (sl_venue l1, upper (sl_asset l1), sl_market_kind l1, sl_symbol l1) = Some b1
    \<and> scan_books x (sl_venue l2, upper (sl_asset l2), sl_market_kind l2, sl_symbol l2) = Some b2
    \<and> estimate_market_order_quantity b1 (if sl_side l1 = LONG then SELL else BUY) (sl_base_quantity l1) True = Inr q1
    \<and> estimate_market_order_quantity b2 (if sl_side l2 = LONG then SELL else BUY) (sl_base_quantity l2) True = Inr q2
    \<and> funding_for_leg ev l1 source due = Some f1 \<and> funding_for_leg ev l2 source due = Some f2
    \<and> oc_realized_profit_usd u =
        side_sign (sl_side l1) * sl_base_quantity l1 * (qe_average_price q1 - sl_entry_price l1)
        + side_sign (sl_side l2) * sl_base_quantity l2 * (qe_average_price q2 - sl_entry_price l2)
        + fst f1 + fst f2 - tl_notional_usd t * bps / 10000
    \<and> oc_realized_net_return u = oc_realized_profit_usd u / tl_capital_required_usd t"
proof -
  have "settle_multileg ev t x = Inr (Some u)" using assms by (simp add: settle_trial_def split: if_splits)
  then obtain bps source due fs where m: "tl_modeled_non_slippage_cost_bps t = Some bps"
      "tl_source_observed_at t = Some source" "tl_due_at t = Some due" "length (tl_settlement_legs t) = 2"
      "list_all2 (\<lambda>l f. funding_for_leg ev l source due = Some f) (tl_settlement_legs t) fs"
      "list_all2 (closes_leg x) (zip (tl_settlement_legs t) fs) (oc_leg_outcomes u)"
      "oc_realized_profit_usd u = (\<Sum>r\<leftarrow>oc_leg_outcomes u. lo_price_pnl_usd r + lo_funding_pnl_usd r)
         - tl_notional_usd t * bps / 10000"
      "oc_realized_net_return u = oc_realized_profit_usd u / tl_capital_required_usd t"
    by (rule settle_multileg_profit)
  obtain l1 l2 where ls: "tl_settlement_legs t = [l1, l2]"
    using m(4) by (auto simp: numeral_2_eq_2 length_Suc_conv)
  obtain f1 f2 where fs: "fs = [f1, f2]" "funding_for_leg ev l1 source due = Some f1" "funding_for_leg ev l2 source due = Some f2"
    using m(5) by (auto simp: ls list_all2_Cons1)
  obtain r1 r2 where rs: "oc_leg_outcomes u = [r1, r2]" "closes_leg x (l1, f1) r1" "closes_leg x (l2, f2) r2"
    using m(6) by (auto simp: ls fs list_all2_Cons1)
  obtain b1 q1 where 1: "scan_books x (sl_venue l1, upper (sl_asset l1), sl_market_kind l1, sl_symbol l1) = Some b1"
      "estimate_market_order_quantity b1 (close_side l1) (sl_base_quantity l1) True = Inr q1" "r1 = closed_leg l1 f1 q1"
    using rs(2) by (auto simp: closes_leg_def)
  obtain b2 q2 where 2: "scan_books x (sl_venue l2, upper (sl_asset l2), sl_market_kind l2, sl_symbol l2) = Some b2"
      "estimate_market_order_quantity b2 (close_side l2) (sl_base_quantity l2) True = Inr q2" "r2 = closed_leg l2 f2 q2"
    using rs(3) by (auto simp: closes_leg_def)
  have pnl: "leg_price_pnl l p = side_sign (sl_side l) * sl_base_quantity l * (p - sl_entry_price l)" for l p
    by (simp add: leg_price_pnl_def side_sign_def algebra_simps)
  have "oc_realized_profit_usd u =
        side_sign (sl_side l1) * sl_base_quantity l1 * (qe_average_price q1 - sl_entry_price l1)
        + side_sign (sl_side l2) * sl_base_quantity l2 * (qe_average_price q2 - sl_entry_price l2)
        + fst f1 + fst f2 - tl_notional_usd t * bps / 10000"
    unfolding m(7) rs(1) 1(3) 2(3) by (simp add: closed_leg_def pnl)
  then show ?thesis using m(1-3,8) ls fs(2,3) 1(1,2) 2(1,2) unfolding close_side_def by blast
qed

text \<open>
  C34: the funding of a perpetual leg counts every announced funding event of the holding period
  once: the events are the scheduled times after the entry and up to the horizon that some stored
  quote of the leg announces no later than the event, each is paid at the rate of the latest such
  quote on the position valued at a stored mid price, and longs pay what shorts receive.
\<close>

theorem funding_counted_once:
  assumes "funding_for_leg ev l source due = Some (paid, n)" and "sl_market_kind l = market_kind_value PERPETUAL"
  shows "\<exists>events. n = length events \<and> distinct (map fst events)
    \<and> (\<forall>e. e \<in> set (map fst events) \<longleftrightarrow> (\<exists>q \<in> set (funding_quotes_for_leg ev l source due).
          fq_next_funding_time q = Some e \<and> source < e \<and> e \<le> due \<and> fq_observed_at q \<le> e))
    \<and> (\<forall>(e, q) \<in> set events. q \<in> set (funding_quotes_for_leg ev l source due)
          \<and> fq_next_funding_time q = Some e \<and> fq_observed_at q \<le> e \<and> historical_mid ev l e \<noteq> None
          \<and> (\<forall>r \<in> set (funding_quotes_for_leg ev l source due).
               fq_next_funding_time r = Some e \<and> fq_observed_at r \<le> e \<longrightarrow> fq_observed_at r \<le> fq_observed_at q))
    \<and> paid = (\<Sum>(e, q)\<leftarrow>events. (if sl_side l = LONG then -1 else 1)
          * (sl_base_quantity l * the (historical_mid ev l e)) * fq_rate q)"
proof -
  let ?rows = "funding_quotes_for_leg ev l source due"
  obtain m where m: "schedule_ok source due ?rows m" "n = length m" "paid = (\<Sum>(e, q)\<leftarrow>m. funding_payment ev l e q)"
      "\<forall>x \<in> set m. historical_mid ev l (fst x) \<noteq> None"
    using assms by (rule funding_for_leg_Some)
  have dist: "distinct (map fst m)" and ch: "\<And>e. chosen source due ?rows e (map_of m e)"
    using m(1) by (auto simp: schedule_ok_def)
  have keys: "e \<in> set (map fst m) \<longleftrightarrow> (\<exists>q \<in> set ?rows. funds source due e q)" for e
    using ch [of e] by (cases "map_of m e") (auto simp: chosen_def map_of_eq_None_iff dest: map_of_SomeD intro: rev_image_eqI)
  have picks: "q \<in> set ?rows \<and> funds source due e q
      \<and> (\<forall>r \<in> set ?rows. funds source due e r \<longrightarrow> fq_observed_at r \<le> fq_observed_at q)" if "(e, q) \<in> set m" for e q
    using ch [of e] dist that by (simp add: chosen_def)
  have pay: "funding_payment ev l e q = (if sl_side l = LONG then -1 else 1)
      * (sl_base_quantity l * the (historical_mid ev l e)) * fq_rate q" if "(e, q) \<in> set m" for e q
    using m(4) that by (force simp: funding_payment_def side_sign_def value_or_def)
  have "paid = (\<Sum>(e, q)\<leftarrow>m. (if sl_side l = LONG then -1 else 1)
          * (sl_base_quantity l * the (historical_mid ev l e)) * fq_rate q)"
    unfolding m(3) by (rule arg_cong [where f = sum_list]) (use pay in \<open>auto intro!: map_cong\<close>)
  then show ?thesis
    using m(2,4) dist keys picks unfolding funds_def by (intro exI [of _ m]) fastforce
qed

section \<open>The tables\<close>

text \<open>
  C21: whatever cycles were run, completed or aborted, a trial has at most one outcome, every
  outcome belongs to a supported trial that was due when it was settled and repeats its
  prediction, and a cohort has at most one open trial.
\<close>

theorem certification_tables_valid:
  assumes "inj (ce_uuid env)" and "certified env s"
  shows "distinct (map oc_trial_id (outcomes_all s))
    \<and> (\<forall>u \<in> set (outcomes_all s). \<exists>t \<in> set (trials_all s). tl_trial_id t = oc_trial_id u
         \<and> tl_settlement_supported t \<and> (\<exists>due. tl_due_at t = Some due \<and> due \<le> oc_matured_at u)
         \<and> oc_predicted_profit_usd u = tl_predicted_profit_usd t
         \<and> oc_prediction_error_usd u = oc_realized_profit_usd u - tl_predicted_profit_usd t)
    \<and> (\<forall>t \<in> set (open_trials s). \<forall>r \<in> set (open_trials s). tl_cohort_key t = tl_cohort_key r \<longrightarrow> t = r)"
proof -
  have ok: "tables_ok env s" using assms by (intro certified_ok) (simp_all add: ids_ok_def)
  then have "inj_on tl_cohort_key (set (open_trials s))" by (simp add: tables_ok_def distinct_map)
  moreover have "\<forall>u \<in> set (outcomes_all s). \<exists>t \<in> set (trials_all s). settles t u" using ok by (simp add: tables_ok_def)
  ultimately show ?thesis
    using ok unfolding tables_ok_def settles_def outcome_of_def by (fastforce dest: inj_onD)
qed

text \<open>
  A completed cycle settles exactly what it can: a trial has an outcome afterwards when it
  had one before, or when it is supported, due by the end of the scan, and the evidence settles
  it; the counts of the report are the rows that were added.
\<close>

theorem certification_cycle_settles:
  assumes "inj (ce_uuid env)" and "certified env s"
    and "certification_run env capital (Inr x) ev allocate s = (Inr cy, s')"
  shows "(\<forall>t \<in> set (trials_all s). tl_trial_id t \<in> completed_trial_ids s' \<longleftrightarrow>
       tl_trial_id t \<in> completed_trial_ids s
       \<or> (tl_settlement_supported t \<and> (\<exists>due. tl_due_at t = Some due \<and> due \<le> xs_completed_at x)
          \<and> (\<exists>u. settle_trial ev t x = Inr (Some u))))
    \<and> length (outcomes_all s') = length (outcomes_all s) + cq_outcomes_matured cy
    \<and> length (trials_all s') = length (trials_all s) + cq_trials_recorded cy
    \<and> cq_trials_recorded cy = cq_supported_trials_recorded cy + cq_unsupported_trials_recorded cy"
proof -
  have ok: "tables_ok env s" and ids: "ids_ok env"
    using assms(1,2) certified_ok by (auto simp: ids_ok_def)
  have "cycle_kept env ev x s cy s'"
    using run_kept [OF ids ok, where capital = capital and scanned = "Inr x" and ev = ev and allocate = allocate] assms(3) by simp
  moreover have "is_due now t \<longleftrightarrow> tl_settlement_supported t \<and> (\<exists>due. tl_due_at t = Some due \<and> due \<le> now)" for now t
    by (auto simp: is_due_def split: option.splits)
  ultimately show ?thesis by (simp add: cycle_kept_def evidenced_def conj_assoc)
qed

text \<open>
  The summary agrees with the tables: its pending count is the number of supported trials
  without an outcome, its profits differ by the sum of the prediction errors, and its coverage and
  its profitable rate are fractions.
\<close>

theorem certification_summary_consistent:
  assumes "inj (ce_uuid env)" and "certified env s"
  shows "sy_pending_supported_count (certification_summary_of s) = length (open_trials s)
    \<and> sy_supported_trial_count (certification_summary_of s) + sy_unsupported_trial_count (certification_summary_of s)
        = sy_trial_count (certification_summary_of s)
    \<and> sy_realized_profit_usd (certification_summary_of s) - sy_predicted_profit_usd (certification_summary_of s)
        = (\<Sum>u\<leftarrow>outcomes_all s. oc_prediction_error_usd u)
    \<and> (\<forall>r. sy_settlement_coverage_fraction (certification_summary_of s) = Some r \<longrightarrow> 0 \<le> r \<and> r \<le> 1)
    \<and> (\<forall>r. sy_profitable_trial_rate (certification_summary_of s) = Some r \<longrightarrow> 0 \<le> r \<and> r \<le> 1)"
proof -
  have ok: "tables_ok env s" using assms by (intro certified_ok) (simp_all add: ids_ok_def)
  have pend: "sy_pending_supported_count (certification_summary_of s) = length (open_trials s)"
    using open_count [OF ok] by (simp add: certification_summary_of_def Let_def supported_count_def)
  have "oc_prediction_error_usd u = oc_realized_profit_usd u - oc_predicted_profit_usd u" if "u \<in> set (outcomes_all s)" for u
    using ok that by (fastforce simp: tables_ok_def settles_def outcome_of_def)
  then have "(\<Sum>u\<leftarrow>outcomes_all s. oc_prediction_error_usd u)
      = (\<Sum>u\<leftarrow>outcomes_all s. oc_realized_profit_usd u - oc_predicted_profit_usd u)"
    by (metis (mono_tags, lifting) map_eq_conv)
  then have err: "sy_realized_profit_usd (certification_summary_of s) - sy_predicted_profit_usd (certification_summary_of s)
      = (\<Sum>u\<leftarrow>outcomes_all s. oc_prediction_error_usd u)"
    by (simp add: certification_summary_of_def Let_def sum_list_subtractf)
  have frac: "0 \<le> real (length (filter P xs)) / real (length xs) \<and> real (length (filter P xs)) / real (length xs) \<le> 1"
    for P and xs :: "'a list"
    using length_filter_le [of P xs] by (simp add: divide_le_eq_1)
  show ?thesis
    using pend err frac length_filter_le [of tl_settlement_supported "trials_all s"]
    by (auto simp: certification_summary_of_def Let_def split: if_splits)
qed

section \<open>Witnesses\<close>

text \<open>
  A hedged pair on the two books of the fixtures.  The first cycle records its trial; in the second
  one, two hours later, each leg loses a dollar a unit and the short is paid ten dollars of funding.
\<close>

definition ct_env :: certification_env where
  "ct_env = \<lparr>ce_now = 0, ce_uuid = \<lambda>n. replicate (Suc n) CHR ''u'', ce_sha256_hex = \<lambda>s. ''h'',
     ce_trial_json = tl_trial_id, ce_outcome_json = oc_outcome_id\<rparr>"

definition ct_leg :: "string \<Rightarrow> market_kind \<Rightarrow> side \<Rightarrow> string \<Rightarrow> real \<Rightarrow> settlement_leg" where
  "ct_leg venue kind sd symbol price = \<lparr>sl_venue = venue, sl_asset = ''BTC'', sl_market_kind = market_kind_value kind,
     sl_side = sd, sl_symbol = symbol, sl_base_quantity = 10, sl_entry_price = price,
     sl_entry_notional_usd = 10 * price, sl_quote_currency = None, sl_contract_key = None\<rparr>"

definition ct_short :: settlement_leg where
  "ct_short = ct_leg ''HlPerp'' PERPETUAL SHORT ''BTC'' 102"

definition ct_allocation :: unified_allocation where
  "ct_allocation = \<lparr>ua_candidate_id = ''core-1'', ua_family = ''core_cex'', ua_strategy = ''basis'', ua_asset = ''BTC'',
     ua_venues = [''Coinbase'', ''HlPerp''], ua_capital_required_usd = 2000, ua_notional_usd_per_leg = 1000,
     ua_expected_profit_usd_per_deployment = 5, ua_expected_return_on_reserved_capital = 1 / 400,
     ua_modeled_holding_hours = Some 2, ua_source_return_metric = ''net'', ua_source_return_value = Fin (1 / 400),
     ua_exposure_kind = Market_neutral, ua_source_observed_at = Some 0, ua_instrument_symbol = None,
     ua_instrument_market_kind = None, ua_entry_reference_price = None, ua_modeled_roundtrip_cost_return = None,
     ua_settlement_legs = [ct_leg ''Coinbase'' SPOT LONG ''BTC-USD'' 100, ct_short],
     ua_modeled_non_slippage_cost_bps = Some 10, ua_modeled_safety_buffer_bps = None, ua_capital_multiple = Some 2,
     ua_evidence_id = None, ua_opportunity_id = None, ua_capacity_claimed = False, ua_authorizes_execution = False,
     ua_paper_only = True\<rparr>"

definition ct_plan :: unified_plan where
  "ct_plan = \<lparr>up_observed_at = 0, up_total_capital_usd = 5000, up_allocated_capital_usd = 2000,
     up_unused_cash_usd = 3000, up_expected_profit_usd_current_deployments = 5,
     up_weighted_expected_return_on_reserved_capital = 1 / 400, up_candidate_count = 1,
     up_allocations = [ct_allocation], up_skipped = [], up_family_failures = [],
     up_portfolio_risk_budget = \<lparr>rb_total_capital_usd = 5000, rb_alpha_capital_usd = 0,
       rb_market_neutral_capital_usd = 2000, rb_directional_capital_usd = 0, rb_directional_long_capital_usd = 0,
       rb_directional_short_capital_usd = 0, rb_directional_net_capital_usd = 0, rb_strategy_capital_usd = [],
       rb_paper_only = True\<rparr>,
     up_authorizes_execution = False, up_live_execution_eligible = False, up_paper_only = True\<rparr>"

definition ct_funding :: funding_quote where
  "ct_funding = \<lparr>fq_venue = ''HlPerp'', fq_asset = ''BTC'', fq_rate = 1 / 100, fq_interval_hours = 8,
     fq_symbol = Some ''BTC'', fq_quote_currency = None, fq_contract_key = None,
     fq_next_funding_time = Some 3600000000, fq_observed_at = 1800000000, fq_source = ''fixture''\<rparr>"

definition ct_mid :: market_quote where
  "ct_mid = \<lparr>mq_venue = ''HlPerp'', mq_asset = ''BTC'', mq_market_kind = PERPETUAL, mq_symbol = ''BTC'',
     mq_quote_currency = None, mq_contract_key = None, mq_expires_at = None, mq_bid = Some 99,
     mq_ask = Some 101, mq_mid = 100, mq_observed_at = 3500000000, mq_source = ''fixture''\<rparr>"

definition ct_evidence :: evidence_tables where
  "ct_evidence = \<lparr>ev_funding_quotes = [ct_funding], ev_market_quotes = [ct_mid]\<rparr>"

definition ct_scan :: "time \<Rightarrow> executability_scan" where
  "ct_scan now = \<lparr>xs_market_quotes = [], xs_order_books = fx_books, xs_completed_at = now\<rparr>"

definition ct_run :: "time \<Rightarrow> certification_cycle certify" where
  "ct_run now = certification_run ct_env 5000 (Inr (ct_scan now)) ct_evidence (\<lambda>capital. Inr ct_plan)"

definition ct_tables :: certification_tables where
  "ct_tables = snd (ct_run 0 \<lparr>cl_trials = [], cl_outcomes = [], cl_drawn = 0\<rparr>)"

lemma ct_first: "case trials_all ct_tables of
    [t] \<Rightarrow> tl_settlement_method t = Some multi_leg_method
      \<and> (case settle_trial ct_evidence t (ct_scan 7200000000) of Inr (Some u) \<Rightarrow> oc_realized_profit_usd u = -11 | _ \<Rightarrow> False)
  | _ \<Rightarrow> False"
  by code_simp

lemma ct_second: "case ct_run 7200000000 ct_tables of
    (Inr cy, s) \<Rightarrow> cq_outcomes_matured cy = 1 \<and> length (outcomes_all s) = 1 \<and> length (trials_all s) = 2
  | (Inl e, s) \<Rightarrow> False"
  by code_simp

lemma ct_trial:
  obtains t u where "trials_all ct_tables = [t]" and "tl_settlement_method t = Some multi_leg_method"
    and "settle_trial ct_evidence t (ct_scan 7200000000) = Inr (Some u)" and "oc_realized_profit_usd u = -11"
  using ct_first that by (auto split: list.splits sum.splits option.splits)

lemma ct_cycle:
  obtains cy s where "ct_run 7200000000 ct_tables = (Inr cy, s)" and "cq_outcomes_matured cy = 1"
    and "length (outcomes_all s) = 1" and "length (trials_all s) = 2"
  using ct_second that by (auto split: prod.splits sum.splits)

lemma ct_uuid: "inj (ce_uuid ct_env)"
  by (auto simp: ct_env_def inj_def)

lemma ct_certified_run: "certified ct_env s \<Longrightarrow> certified ct_env (snd (ct_run now s))"
  using certified.cycled [of ct_env s 0] by (simp add: ct_run_def ct_env_def)

lemma ct_certified: "certified ct_env ct_tables"
  unfolding ct_tables_def by (intro ct_certified_run certified.no_rows)

theorem multileg_settlement_exact_witness:
  "\<exists>t u q1 q2 f. settle_trial ct_evidence t (ct_scan 7200000000) = Inr (Some u)
     \<and> estimate_market_order_quantity fx_spot_book SELL 10 True = Inr q1
     \<and> estimate_market_order_quantity fx_perp_book BUY 10 True = Inr q2
     \<and> funding_for_leg ct_evidence ct_short 0 7200000000 = Some f
     \<and> oc_realized_profit_usd u = 10 * (qe_average_price q1 - 100) - 10 * (qe_average_price q2 - 102) + fst f - 1"
proof -
  obtain t u where t: "trials_all ct_tables = [t]" "tl_settlement_method t = Some multi_leg_method"
      "settle_trial ct_evidence t (ct_scan 7200000000) = Inr (Some u)" by (rule ct_trial)
  have "case trials_all ct_tables of [t] \<Rightarrow> tl_source_observed_at t = Some 0 \<and> tl_due_at t = Some 7200000000
      \<and> tl_settlement_legs t = ua_settlement_legs ct_allocation \<and> tl_modeled_non_slippage_cost_bps t = Some 10
      \<and> tl_notional_usd t = 1000 | _ \<Rightarrow> False" by code_simp
  then have f: "tl_source_observed_at t = Some 0" "tl_due_at t = Some 7200000000" "tl_notional_usd t = 1000"
      "tl_settlement_legs t = [ct_leg ''Coinbase'' SPOT LONG ''BTC-USD'' 100, ct_short]"
      "tl_modeled_non_slippage_cost_bps t = Some 10"
    by (simp_all add: t ct_allocation_def)
  have up: "upper ''BTC'' = ''BTC''" by code_simp
  then have spot: "scan_books (ct_scan 7200000000) (''Coinbase'', ''BTC'', ''spot'', ''BTC-USD'') = Some fx_spot_book"
    and perp: "scan_books (ct_scan 7200000000) (''HlPerp'', ''BTC'', ''perpetual'', ''BTC'') = Some fx_perp_book"
    by (simp_all add: scan_books_def ct_scan_def fx_book_defs dict_by_def)
  obtain due source bps l1 l2 b1 b2 q1 q2 f1 f2
    where due: "tl_source_observed_at t = Some source" "tl_due_at t = Some due"
      "tl_modeled_non_slippage_cost_bps t = Some bps" "tl_settlement_legs t = [l1, l2]"
    and b: "scan_books (ct_scan 7200000000) (sl_venue l1, upper (sl_asset l1), sl_market_kind l1, sl_symbol l1) = Some b1"
      "scan_books (ct_scan 7200000000) (sl_venue l2, upper (sl_asset l2), sl_market_kind l2, sl_symbol l2) = Some b2"
    and q: "estimate_market_order_quantity b1 (if sl_side l1 = LONG then SELL else BUY) (sl_base_quantity l1) True = Inr q1"
      "estimate_market_order_quantity b2 (if sl_side l2 = LONG then SELL else BUY) (sl_base_quantity l2) True = Inr q2"
    and g: "funding_for_leg ct_evidence l1 source due = Some f1" "funding_for_leg ct_evidence l2 source due = Some f2"
    and profit: "oc_realized_profit_usd u =
        side_sign (sl_side l1) * sl_base_quantity l1 * (qe_average_price q1 - sl_entry_price l1)
        + side_sign (sl_side l2) * sl_base_quantity l2 * (qe_average_price q2 - sl_entry_price l2)
        + fst f1 + fst f2 - tl_notional_usd t * bps / 10000"
    using multileg_settlement_exact [OF t(3,2)] by (elim exE conjE) (rule that; assumption)
  have l: "l1 = ct_leg ''Coinbase'' SPOT LONG ''BTC-USD'' 100" "l2 = ct_short" "source = 0" "due = 7200000000" "bps = 10"
    using due f by simp_all
  have "b1 = fx_spot_book" "b2 = fx_perp_book"
    using b spot perp by (simp_all add: l ct_leg_def ct_short_def up)
  moreover have "fst f1 = 0" using g(1) by (auto simp: l ct_leg_def funding_for_leg_def)
  moreover have "sl_side ct_short = SHORT" "sl_base_quantity ct_short = 10" "sl_entry_price ct_short = 102"
    by (simp_all add: ct_short_def ct_leg_def)
  ultimately have "estimate_market_order_quantity fx_spot_book SELL 10 True = Inr q1"
      "estimate_market_order_quantity fx_perp_book BUY 10 True = Inr q2"
      "oc_realized_profit_usd u = 10 * (qe_average_price q1 - 100) - 10 * (qe_average_price q2 - 102) + fst f2 - 1"
    using q profit by (simp_all add: l f(3) ct_leg_def side_sign_def)
  then show ?thesis using t(3) g(2) unfolding l by blast
qed

theorem funding_counted_once_witness:
  "\<exists>events :: (time \<times> funding_quote) list. length events = 1 \<and> distinct (map fst events)
     \<and> 10 = (\<Sum>(e, q)\<leftarrow>events. 10 * the (historical_mid ct_evidence ct_short e) * fq_rate q)"
proof -
  have funded: "funding_for_leg ct_evidence ct_short 0 7200000000 = Some (10, 1)" by code_simp
  have kind: "sl_market_kind ct_short = market_kind_value PERPETUAL"
    and short: "sl_side ct_short = SHORT" "sl_base_quantity ct_short = 10"
    by (simp_all add: ct_short_def ct_leg_def)
  obtain events :: "(time \<times> funding_quote) list" where "1 = length events" "distinct (map fst events)"
      "10 = (\<Sum>(e, q)\<leftarrow>events. (if sl_side ct_short = LONG then -1 else 1)
        * (sl_base_quantity ct_short * the (historical_mid ct_evidence ct_short e)) * fq_rate q)"
    using funding_counted_once [OF funded kind] by (elim exE conjE) (rule that; assumption)
  then show ?thesis using short by (intro exI [of _ events]) simp
qed

theorem certification_tables_valid_witness:
  "\<exists>cy s u. ct_run 7200000000 ct_tables = (Inr cy, s) \<and> outcomes_all s = [u]
     \<and> oc_prediction_error_usd u = oc_realized_profit_usd u - oc_predicted_profit_usd u"
proof -
  obtain cy s where s: "ct_run 7200000000 ct_tables = (Inr cy, s)" "length (outcomes_all s) = 1" by (rule ct_cycle)
  then obtain u where u: "outcomes_all s = [u]" by (auto simp: length_Suc_conv)
  have "certified ct_env s" using ct_certified_run [OF ct_certified, of 7200000000] by (simp add: s(1))
  from certification_tables_valid [OF ct_uuid this] show ?thesis using s(1) u by auto
qed

theorem certification_cycle_settles_witness:
  "\<exists>cy s. ct_run 7200000000 ct_tables = (Inr cy, s) \<and> cq_trials_recorded cy = 1
     \<and> length (outcomes_all s) = length (outcomes_all ct_tables) + 1"
proof -
  obtain cy s where s: "ct_run 7200000000 ct_tables = (Inr cy, s)" "cq_outcomes_matured cy = 1" "length (trials_all s) = 2"
    by (rule ct_cycle)
  obtain t where "trials_all ct_tables = [t]" by (rule ct_trial)
  with certification_cycle_settles [OF ct_uuid ct_certified s(1) [unfolded ct_run_def]] s show ?thesis by auto
qed

theorem certification_summary_consistent_witness:
  "sy_pending_supported_count (certification_summary_of ct_tables) = length (open_trials ct_tables)
     \<and> length (trials_all ct_tables) = 1"
proof -
  obtain t where "trials_all ct_tables = [t]" by (rule ct_trial)
  with certification_summary_consistent [OF ct_uuid ct_certified] show ?thesis by auto
qed

end
