(* ===== verification/Conversion.thy ===== *)
theory Conversion
  imports Qualification Unified_Allocation
begin

text \<open>
  conversion_depth.py: what an amount of USD, USDC or USDT converts to when it is taken through
  the visible level-2 books of the stablecoins, with at most two legs.  The identifier that
  uuid4 draws for a quote is an argument.
\<close>

section \<open>Legs and quotes\<close>

record conversion_leg =
  vl_source_currency :: string
  vl_target_currency :: string
  vl_input_amount :: real
  vl_output_amount :: real
  vl_effective_rate :: real
  vl_best_rate :: real
  vl_slippage_bps :: real
  vl_levels_consumed :: nat
  vl_book_symbol :: string
  vl_book_observed_at :: time
  vl_request_latency_ms :: "real option"
  vl_visible_depth_only :: bool

definition conversion_leg_ok :: "conversion_leg \<Rightarrow> bool" where
  "conversion_leg_ok l \<longleftrightarrow> 0 < vl_input_amount l \<and> 0 < vl_output_amount l \<and> 0 < vl_effective_rate l
     \<and> 0 < vl_best_rate l \<and> 0 \<le> vl_slippage_bps l \<and> 0 < vl_levels_consumed l
     \<and> opt_nonneg (vl_request_latency_ms l)"

record conversion_quote =
  vq_quote_id :: string
  vq_venue :: string
  vq_source_currency :: string
  vq_target_currency :: string
  vq_input_amount :: real
  vq_output_amount :: real
  vq_effective_rate :: real
  vq_total_slippage_bps :: real
  vq_legs :: "conversion_leg list"
  vq_observed_at :: time
  vq_max_book_age_seconds :: real
  vq_book_skew_seconds :: real
  vq_source :: string
  vq_visible_depth_only :: bool
  vq_capacity_claimed :: bool
  vq_executable_eligible :: bool
  vq_paper_only :: bool

definition conversion_quote_ok :: "conversion_quote \<Rightarrow> bool" where
  "conversion_quote_ok q \<longleftrightarrow> 0 < vq_input_amount q \<and> 0 < vq_output_amount q \<and> 0 < vq_effective_rate q
     \<and> 0 \<le> vq_total_slippage_bps q \<and> 1 \<le> length (vq_legs q) \<and> length (vq_legs q) \<le> 2
     \<and> 0 \<le> vq_max_book_age_seconds q \<and> 0 \<le> vq_book_skew_seconds q"

section \<open>Currencies and books\<close>

definition stablecoins :: "string set" where
  "stablecoins = {''USDC'', ''USDT''}"

definition validate_currency :: "string \<Rightarrow> string result" where
  "validate_currency currency =
     (let v = upper currency
      in if v \<in> insert ''USD'' stablecoins then Inr v
         else Inl (ValueError (''unsupported stablecoin conversion currency: '' @ currency)))"

definition is_stablecoin_book :: "string \<Rightarrow> order_book_snapshot \<Rightarrow> bool" where
  "is_stablecoin_book coin b \<longleftrightarrow> ob_venue b = ''Coinbase'' \<and> upper (ob_asset b) = coin
     \<and> ob_market_kind b = SPOT \<and> ob_symbol b = coin @ ''-USD''
     \<and> upper (str_or (ob_quote_currency b) []) = ''USD''"

definition stablecoin_book :: "order_book_snapshot list \<Rightarrow> string \<Rightarrow> order_book_snapshot result" where
  "stablecoin_book books coin =
     (case filter (is_stablecoin_book coin) books of
        [b] \<Rightarrow> Inr b
      | _ \<Rightarrow> Inl (ValueError (''exactly one Coinbase '' @ coin @ ''-USD level-2 book is required'')))"

section \<open>One leg\<close>

definition checked_leg :: "conversion_leg \<Rightarrow> conversion_leg result" where
  "checked_leg l = (if conversion_leg_ok l then Inr l else Inl (ValidationError ''StablecoinConversionDepthLeg''))"

definition stablecoin_to_usd :: "string \<Rightarrow> real \<Rightarrow> order_book_snapshot \<Rightarrow> conversion_leg result" where
  "stablecoin_to_usd coin amount b =
     rbind (estimate_market_order_quantity b SELL amount True) (\<lambda>e.
     rbind (py_div (qe_filled_notional_usd e) amount) (\<lambda>rate.
     checked_leg \<lparr>vl_source_currency = coin, vl_target_currency = ''USD'', vl_input_amount = amount,
       vl_output_amount = qe_filled_notional_usd e, vl_effective_rate = rate,
       vl_best_rate = qe_best_price e, vl_slippage_bps = qe_slippage_bps e,
       vl_levels_consumed = qe_levels_consumed e, vl_book_symbol = ob_symbol b,
       vl_book_observed_at = ob_observed_at b, vl_request_latency_ms = ob_request_latency_ms b,
       vl_visible_depth_only = True\<rparr>))"

text \<open>The shortfall of a rate from the best one, in basis points.\<close>

definition rate_slippage :: "real \<Rightarrow> real \<Rightarrow> real result" where
  "rate_slippage best effective = rbind (py_div (best - effective) best) (\<lambda>r. Inr (max 0 (r * 10000)))"

definition usd_to_stablecoin :: "string \<Rightarrow> real \<Rightarrow> order_book_snapshot \<Rightarrow> conversion_leg result" where
  "usd_to_stablecoin coin amount_usd b =
     rbind (estimate_market_order b BUY amount_usd True) (\<lambda>e.
     rbind (py_div 1 (ee_best_price e)) (\<lambda>best.
     rbind (py_div (ee_base_quantity e) amount_usd) (\<lambda>effective.
     rbind (rate_slippage best effective) (\<lambda>slippage.
     checked_leg \<lparr>vl_source_currency = ''USD'', vl_target_currency = coin, vl_input_amount = amount_usd,
       vl_output_amount = ee_base_quantity e, vl_effective_rate = effective,
       vl_best_rate = best, vl_slippage_bps = slippage,
       vl_levels_consumed = ee_levels_consumed e, vl_book_symbol = ob_symbol b,
       vl_book_observed_at = ob_observed_at b, vl_request_latency_ms = ob_request_latency_ms b,
       vl_visible_depth_only = True\<rparr>))))"

section \<open>The quote\<close>

definition needed_books ::
  "order_book_snapshot list \<Rightarrow> string \<Rightarrow> string \<Rightarrow> order_book_snapshot list result" where
  "needed_books books source target =
     rbind (if source \<in> stablecoins then rbind (stablecoin_book books source) (\<lambda>b. Inr [b]) else Inr []) (\<lambda>first.
     rbind (if target \<in> stablecoins \<and> target \<noteq> source
            then rbind (stablecoin_book books target) (\<lambda>b. Inr (first @ [b])) else Inr first) (\<lambda>needed.
     if needed = [] then Inl (ValueError ''at least one stablecoin/USD book is required'') else Inr needed))"

definition conversion_legs ::
  "order_book_snapshot list \<Rightarrow> string \<Rightarrow> string \<Rightarrow> real \<Rightarrow> conversion_leg list result" where
  "conversion_legs books source target amount =
     (if source = ''USD''
      then rbind (stablecoin_book books target) (\<lambda>b. rbind (usd_to_stablecoin target amount b) (\<lambda>l. Inr [l]))
      else if target = ''USD''
      then rbind (stablecoin_book books source) (\<lambda>b. rbind (stablecoin_to_usd source amount b) (\<lambda>l. Inr [l]))
      else rbind (stablecoin_book books source) (\<lambda>b. rbind (stablecoin_to_usd source amount b) (\<lambda>first.
           rbind (stablecoin_book books target) (\<lambda>c.
           rbind (usd_to_stablecoin target (vl_output_amount first) c) (\<lambda>second. Inr [first, second])))))"

definition books_skew :: "order_book_snapshot list \<Rightarrow> real" where
  "books_skew bs = (let ts = map ob_observed_at bs in
     if length bs > 1 then total_seconds (foldl max (hd ts) (tl ts) - foldl min (hd ts) (tl ts)) else 0)"

definition conversion_of ::
  "string \<Rightarrow> string \<Rightarrow> string \<Rightarrow> real \<Rightarrow> order_book_snapshot list \<Rightarrow> real \<Rightarrow> conversion_leg list
     \<Rightarrow> conversion_quote result" where
  "conversion_of quote_id source target amount needed worst_age legs =
     (let output = vl_output_amount (last legs);
          best = foldl (\<lambda>r l. r * vl_best_rate l) 1 legs;
          ts = map ob_observed_at needed
      in rbind (py_div output amount) (\<lambda>effective.
         rbind (rate_slippage best effective) (\<lambda>slippage.
         let q = \<lparr>vq_quote_id = quote_id, vq_venue = ''Coinbase'', vq_source_currency = source,
               vq_target_currency = target, vq_input_amount = amount, vq_output_amount = output,
               vq_effective_rate = effective, vq_total_slippage_bps = slippage, vq_legs = legs,
               vq_observed_at = foldl min (hd ts) (tl ts), vq_max_book_age_seconds = worst_age,
               vq_book_skew_seconds = books_skew needed, vq_source = ''coinbase-exchange:book-level2'',
               vq_visible_depth_only = True, vq_capacity_claimed = False, vq_executable_eligible = False,
               vq_paper_only = True\<rparr>
         in if conversion_quote_ok q then Inr q
            else Inl (ValidationError ''StablecoinConversionDepthQuote''))))"

definition quote_stablecoin_conversion_depth ::
  "string \<Rightarrow> string \<Rightarrow> string \<Rightarrow> real \<Rightarrow> order_book_snapshot list \<Rightarrow> time \<Rightarrow> real \<Rightarrow> real
     \<Rightarrow> conversion_quote result" where
  "quote_stablecoin_conversion_depth quote_id source_currency target_currency amount books now
       max_age max_skew =
     rbind (validate_currency source_currency) (\<lambda>source.
     rbind (validate_currency target_currency) (\<lambda>target.
     if source = target then Inl (ValueError ''source and target currencies must differ'')
     else if amount \<le> 0 then Inl (ValueError ''input_amount must be positive'')
     else rbind (needed_books books source target) (\<lambda>needed.
       let ages = map (book_age now) needed; worst_age = foldl max (hd ages) (tl ages); skew = books_skew needed
       in if worst_age > max_age
          then Inl (ValueError (''stablecoin conversion book stale: '' @ fmt_fixed 6 worst_age @ ''s > ''
                 @ fmt_fixed 6 max_age @ ''s''))
          else if length needed > 1 \<and> skew > max_skew
          then Inl (ValueError (''stablecoin conversion book skew too high: '' @ fmt_fixed 6 skew @ ''s > ''
                 @ fmt_fixed 6 max_skew @ ''s''))
          else rbind (conversion_legs books source target amount) (\<lambda>legs.
            conversion_of quote_id source target amount needed worst_age legs))))"

end
