(* ===== verification/Conversion_Correct.thy ===== *)
theory Conversion_Correct
  imports Conversion
begin

text \<open>
  A leg never converts at better than the best price of its book, the legs of a quote are a chain
  from the source to the target, and the books behind a quote are the right ones and fresh.
\<close>

section \<open>Orders by notional\<close>

lemma notional_estimate_buys:
  assumes e: "estimate_market_order b BUY n full = Inr e" and v: "valid_side (ob_asks b)"
  shows "0 < ee_best_price e" and "ee_best_price e * ee_base_quantity e \<le> n"
    and "ee_best_price e \<in> lv_price ` set (ob_asks b)"
    and "\<forall>l \<in> set (ob_asks b). ee_best_price e \<le> lv_price l"
proof -
  let ?ls = "ordered_side b BUY"
  let ?best = "lv_price (hd ?ls)"
  have ls: "book_levels b BUY = ob_asks b" by (simp add: book_levels_def)
  obtain r f w k where run: "notional_loop ?ls n 0 0 0 = (r, f, w, k)" and n: "0 < n"
    and fields: "ee_best_price e = ?best" "ee_base_quantity e = w"
    using e by (auto simp: estimate_market_order_def ordered_levels_def Let_def split: if_splits prod.splits)
  have ne: "ob_asks b \<noteq> []" using v by (simp add: valid_side_def)
  have pos: "0 < lv_price l \<and> 0 < lv_size l" if "l \<in> set (ob_asks b)" for l
    using valid_sideD [OF v that] by simp
  have hd: "hd ?ls \<in> set (ob_asks b)" using hd_price_ordered [of "book_levels b BUY" BUY] ne by (simp add: ls)
  have best: "0 < ?best" using pos [OF hd] by simp
  have least: "?best \<le> lv_price l" if "l \<in> set (ob_asks b)" for l
    using best_price_extremal [of "book_levels b BUY" l BUY] ne that by (simp add: ls)
  have "1 / lv_price l \<le> 1 / ?best" if "l \<in> set (ob_asks b)" for l
    using least [OF that] best by (intro frac_le) simp_all
  then have caps: "\<forall>l \<in> set ?ls. 0 \<le> lv_price l * lv_size l \<and> - (1 / ?best) \<le> (-1) * (1 / lv_price l)"
    using pos by (simp add: ls less_imp_le)
  have "- (1 / ?best) * (f - 0) \<le> (-1) * (w - 0)"
    using nl.loop_rate_bound [OF run caps] n by simp
  then have w: "?best * w \<le> f" using best by (simp add: field_simps)
  have "r + f = n" using nl.loop_conserves [OF run] by simp
  moreover have "0 \<le> r"
    by (rule nl.loop_bounds(1) [OF run]) (use caps n in auto)
  ultimately have "f \<le> n" by linarith
  with w show "ee_best_price e * ee_base_quantity e \<le> n" by (simp add: fields)
  show "0 < ee_best_price e" by (simp add: fields best)
  show "ee_best_price e \<in> lv_price ` set (ob_asks b)" using hd by (auto simp: fields)
  show "\<forall>l \<in> set (ob_asks b). ee_best_price e \<le> lv_price l" using least by (simp add: fields)
qed

section \<open>Legs\<close>

text \<open>Some bid and some ask of a book bound what its two kinds of leg return.\<close>

lemma stablecoin_to_usd_bounded:
  assumes "stablecoin_to_usd coin amount b = Inr l" and "valid_book b"
  obtains p where "p \<in> lv_price ` set (ob_bids b)" and "vl_best_rate l = p" and "0 < p"
    and "vl_output_amount l \<le> p * amount"
    and "vl_source_currency l = coin" and "vl_target_currency l = ''USD''" and "vl_input_amount l = amount"
    and "vl_effective_rate l = vl_output_amount l / amount" and "conversion_leg_ok l"
proof -
  obtain e where e: "estimate_market_order_quantity b SELL amount True = Inr e"
    and l: "vl_output_amount l = qe_filled_notional_usd e" "vl_best_rate l = qe_best_price e"
      "vl_source_currency l = coin" "vl_target_currency l = ''USD''" "vl_input_amount l = amount"
      "vl_effective_rate l = qe_filled_notional_usd e / amount" and ok: "conversion_leg_ok l"
    using assms(1) by (auto simp: stablecoin_to_usd_def checked_leg_def split: if_splits)
  have v: "valid_side (book_levels b SELL)" by (rule valid_book_side [OF assms(2)])
  note s = quantity_estimate_sound [OF e v]
  have "qe_average_price e * qe_filled_base_quantity e \<le> qe_best_price e * amount"
    using s(1,2,6,8) by (intro mult_mono) auto
  moreover obtain r f w k where "e = \<lparr>qe_side = SELL, qe_requested_base_quantity = amount, qe_filled_base_quantity = f,
           qe_filled_notional_usd = w, qe_average_price = w / f,
           qe_best_price = lv_price (hd (ordered_side b SELL)),
           qe_slippage_bps = r, qe_levels_consumed = k\<rparr>" by (rule quantity_estimateE [OF e]) blast
  then have "qe_best_price e = lv_price (hd (ordered_side b SELL))" by simp
  moreover have "hd (ordered_side b SELL) \<in> set (ob_bids b)"
    using hd_price_ordered [of "book_levels b SELL" SELL] v by (simp add: valid_side_def book_levels_def)
  ultimately show ?thesis using s(5,6) l ok by (intro that [of "qe_best_price e"]) auto
qed

lemma usd_to_stablecoin_bounded:
  assumes "usd_to_stablecoin coin amount b = Inr l" and "valid_book b"
  obtains p where "p \<in> lv_price ` set (ob_asks b)" and "vl_best_rate l = 1 / p" and "0 < p"
    and "p * vl_output_amount l \<le> amount"
    and "vl_source_currency l = ''USD''" and "vl_target_currency l = coin" and "vl_input_amount l = amount"
    and "vl_effective_rate l = vl_output_amount l / amount" and "conversion_leg_ok l"
proof -
  obtain e where e: "estimate_market_order b BUY amount True = Inr e"
    and l: "vl_output_amount l = ee_base_quantity e" "vl_best_rate l = 1 / ee_best_price e"
      "vl_source_currency l = ''USD''" "vl_target_currency l = coin" "vl_input_amount l = amount"
      "vl_effective_rate l = ee_base_quantity e / amount" and ok: "conversion_leg_ok l"
    using assms(1) by (auto simp: usd_to_stablecoin_def checked_leg_def split: if_splits)
  have "valid_side (ob_asks b)" using valid_book_side [OF assms(2), of BUY] by (simp add: book_levels_def)
  note s = notional_estimate_buys [OF e this]
  show ?thesis using s l ok by (intro that [of "ee_best_price e"]) auto
qed

lemma leg_rate_bounded:
  assumes "stablecoin_to_usd coin amount b = Inr l \<or> usd_to_stablecoin coin amount b = Inr l" and "valid_book b"
  shows "vl_effective_rate l = vl_output_amount l / vl_input_amount l" and "vl_effective_rate l \<le> vl_best_rate l"
    and "vl_input_amount l = amount" and "conversion_leg_ok l"
proof -
  have "vl_effective_rate l = vl_output_amount l / vl_input_amount l \<and> vl_effective_rate l \<le> vl_best_rate l
      \<and> vl_input_amount l = amount \<and> conversion_leg_ok l"
    using assms(1)
  proof
    assume "stablecoin_to_usd coin amount b = Inr l"
    from this assms(2) show ?thesis
      by (rule stablecoin_to_usd_bounded) (simp add: conversion_leg_ok_def divide_le_eq)
  next
    assume "usd_to_stablecoin coin amount b = Inr l"
    from this assms(2) show ?thesis
      by (rule usd_to_stablecoin_bounded) (simp add: conversion_leg_ok_def divide_le_eq pos_le_divide_eq mult.commute)
  qed
  then show "vl_effective_rate l = vl_output_amount l / vl_input_amount l" and "vl_effective_rate l \<le> vl_best_rate l"
    and "vl_input_amount l = amount" and "conversion_leg_ok l" by auto
qed

section \<open>Quotes\<close>

lemma validate_currency_Inr:
  "validate_currency c = Inr v \<longleftrightarrow> v = upper c \<and> v \<in> {''USD'', ''USDC'', ''USDT''}"
  by (auto simp: validate_currency_def stablecoins_def Let_def)

lemma stablecoin_book_Inr:
  "stablecoin_book books coin = Inr b \<longleftrightarrow> filter (is_stablecoin_book coin) books = [b]"
  by (auto simp: stablecoin_book_def split: list.splits)

lemma stablecoin_book_in: "stablecoin_book books coin = Inr b \<Longrightarrow> b \<in> set books \<and> is_stablecoin_book coin b"
  unfolding stablecoin_book_Inr by (metis filter_eq_ConsD in_set_conv_decomp)

lemma usd_not_stable [simp]: "''USD'' \<notin> stablecoins"
  by (simp add: stablecoins_def)

text \<open>The legs of a quote, by the route.\<close>

lemma conversion_legs_cases:
  assumes "conversion_legs books source target amount = Inr legs"
  obtains (buy) b l where "source = ''USD''" and "stablecoin_book books target = Inr b"
      and "usd_to_stablecoin target amount b = Inr l" and "legs = [l]"
    | (sell) b l where "source \<noteq> ''USD''" and "target = ''USD''" and "stablecoin_book books source = Inr b"
      and "stablecoin_to_usd source amount b = Inr l" and "legs = [l]"
    | (both) b c l1 l2 where "source \<noteq> ''USD''" and "target \<noteq> ''USD''" and "stablecoin_book books source = Inr b"
      and "stablecoin_book books target = Inr c" and "stablecoin_to_usd source amount b = Inr l1"
      and "usd_to_stablecoin target (vl_output_amount l1) c = Inr l2" and "legs = [l1, l2]"
  using assms by (auto simp: conversion_legs_def split: if_splits)

lemma quote_Inr:
  assumes "quote_stablecoin_conversion_depth i source_currency target_currency amount books now age skew = Inr q"
  obtains needed legs worst where "validate_currency source_currency = Inr (upper source_currency)"
    and "validate_currency target_currency = Inr (upper target_currency)"
    and "upper source_currency \<noteq> upper target_currency" and "0 < amount"
    and "needed_books books (upper source_currency) (upper target_currency) = Inr needed"
    and "worst = foldl max (hd (map (book_age now) needed)) (tl (map (book_age now) needed))"
    and "worst \<le> age" and "length needed > 1 \<longrightarrow> books_skew needed \<le> skew"
    and "conversion_legs books (upper source_currency) (upper target_currency) amount = Inr legs"
    and "conversion_of i (upper source_currency) (upper target_currency) amount needed worst legs = Inr q"
  using assms that
  by (auto simp: quote_stablecoin_conversion_depth_def validate_currency_Inr Let_def not_le split: if_splits)

lemma conversion_of_Inr:
  assumes "conversion_of i source target amount needed worst legs = Inr q"
  shows "vq_legs q = legs" and "vq_output_amount q = vl_output_amount (last legs)" and "vq_input_amount q = amount"
    and "vq_source_currency q = source" and "vq_target_currency q = target"
    and "vq_effective_rate q = vq_output_amount q / amount"
    and "vq_total_slippage_bps q =
      max 0 ((foldl (\<lambda>r l. r * vl_best_rate l) 1 legs - vq_effective_rate q) / foldl (\<lambda>r l. r * vl_best_rate l) 1 legs * 10000)"
    and "vq_observed_at q = foldl min (hd (map ob_observed_at needed)) (tl (map ob_observed_at needed))"
    and "vq_max_book_age_seconds q = worst" and "vq_book_skew_seconds q = books_skew needed"
    and "conversion_quote_ok q" and "vq_paper_only q" and "\<not> vq_executable_eligible q"
  using assms by (auto simp: conversion_of_def rate_slippage_def Let_def split: if_splits)

end
