(* ===== verification/Props_Conversion.thy ===== *)
theory Props_Conversion
  imports Conversion_Correct Fixtures
begin

text \<open>The properties of the conversion depth of the stablecoins.\<close>


text \<open>
  C36: a conversion and the conversion back through the same books never return what was put in:
  no sequence of two quotes makes money from the books alone, whatever the times and limits.
\<close>

theorem conversion_round_trip_loses:
  assumes "quote_stablecoin_conversion_depth i source target amount books now age skew = Inr q"
    and "quote_stablecoin_conversion_depth j target source (vq_output_amount q) books now' age' skew' = Inr r"
    and "\<forall>b \<in> set books. valid_book b"
  shows "vq_output_amount r < amount"
proof -
  let ?s = "upper source" and ?t = "upper target"
  obtain needed legs worst where legs: "conversion_legs books ?s ?t amount = Inr legs"
    and q: "conversion_of i ?s ?t amount needed worst legs = Inr q" and ne: "?s \<noteq> ?t" and pos: "0 < amount"
    by (rule quote_Inr [OF assms(1)])
  obtain needed' legs' worst' where legs': "conversion_legs books ?t ?s (vq_output_amount q) = Inr legs'"
    and r: "conversion_of j ?t ?s (vq_output_amount q) needed' worst' legs' = Inr r"
    by (rule quote_Inr [OF assms(2)])
  note cq = conversion_of_Inr(2) [OF q] and cr = conversion_of_Inr(2) [OF r]
  have loss: "x < y" if "p * w \<le> y" and "x \<le> p' * w" and "p' < p" and "0 < w" for p p' w x y :: real
    using mult_strict_right_mono [OF that(3,4)] that(1,2) by linarith
  have spread: "p' < p" if "valid_book b" "p' \<in> lv_price ` set (ob_bids b)" "p \<in> lv_price ` set (ob_asks b)" for b p p'
    using valid_bookD(5) [OF that(1)] that(2,3) by auto
  have valid: "valid_book b" if "stablecoin_book books coin = Inr b" for b coin
    using stablecoin_book_in [OF that] assms(3) by blast
  show ?thesis using legs
  proof (cases rule: conversion_legs_cases)
    case (buy b l)
    then obtain l' where l': "stablecoin_to_usd ?t (vl_output_amount l) b = Inr l'" "legs' = [l']"
      using legs' ne cq by (auto simp: conversion_legs_def split: if_splits)
    obtain p where p: "p \<in> lv_price ` set (ob_asks b)" "p * vl_output_amount l \<le> amount" "conversion_leg_ok l"
      by (rule usd_to_stablecoin_bounded [OF buy(3) valid [OF buy(2)]])
    obtain p' where p': "p' \<in> lv_price ` set (ob_bids b)" "vl_output_amount l' \<le> p' * vl_output_amount l"
      by (rule stablecoin_to_usd_bounded [OF l'(1) valid [OF buy(2)]])
    have "vl_output_amount l' < amount"
      using loss [OF p(2) p'(2) spread [OF valid [OF buy(2)] p'(1) p(1)]] p(3) by (simp add: conversion_leg_ok_def)
    then show ?thesis by (simp add: cr l'(2))
  next
    case (sell b l)
    then obtain l' where l': "usd_to_stablecoin ?s (vl_output_amount l) b = Inr l'" "legs' = [l']"
      using legs' ne cq by (auto simp: conversion_legs_def split: if_splits)
    obtain p where p: "p \<in> lv_price ` set (ob_bids b)" "vl_output_amount l \<le> p * amount"
      by (rule stablecoin_to_usd_bounded [OF sell(4) valid [OF sell(3)]])
    obtain p' where p': "p' \<in> lv_price ` set (ob_asks b)" "p' * vl_output_amount l' \<le> vl_output_amount l" "0 < p'"
      by (rule usd_to_stablecoin_bounded [OF l'(1) valid [OF sell(3)]])
    have "p' * vl_output_amount l' < p' * amount"
      using loss [of p' amount "p' * amount" "p' * vl_output_amount l'" p] p(2) p'(2) pos
        spread [OF valid [OF sell(3)] p(1) p'(1)] by simp
    then show ?thesis using p'(3) by (simp add: cr l'(2))
  next
    case (both b c l1 l2)
    then obtain m1 m2 where m: "stablecoin_to_usd ?t (vl_output_amount l2) c = Inr m1"
        "usd_to_stablecoin ?s (vl_output_amount m1) b = Inr m2" "legs' = [m1, m2]"
      using legs' ne cq by (auto simp: conversion_legs_def split: if_splits)
    obtain p1 where p1: "p1 \<in> lv_price ` set (ob_bids b)" "vl_output_amount l1 \<le> p1 * amount"
      by (rule stablecoin_to_usd_bounded [OF both(5) valid [OF both(3)]])
    obtain p2 where p2: "p2 \<in> lv_price ` set (ob_asks c)" "p2 * vl_output_amount l2 \<le> vl_output_amount l1"
        "conversion_leg_ok l2"
      by (rule usd_to_stablecoin_bounded [OF both(6) valid [OF both(4)]])
    obtain p3 where p3: "p3 \<in> lv_price ` set (ob_bids c)" "vl_output_amount m1 \<le> p3 * vl_output_amount l2"
      by (rule stablecoin_to_usd_bounded [OF m(1) valid [OF both(4)]])
    obtain p4 where p4: "p4 \<in> lv_price ` set (ob_asks b)" "p4 * vl_output_amount m2 \<le> vl_output_amount m1" "0 < p4"
      by (rule usd_to_stablecoin_bounded [OF m(2) valid [OF both(3)]])
    have "vl_output_amount m1 < vl_output_amount l1"
      using loss [OF p2(2) p3(2) spread [OF valid [OF both(4)] p3(1) p2(1)]] p2(3) by (simp add: conversion_leg_ok_def)
    then have "p4 * vl_output_amount m2 < p4 * amount"
      using p1(2) p4(2) mult_strict_right_mono [OF spread [OF valid [OF both(3)] p1(1) p4(1)] pos] by linarith
    then show ?thesis using p4(3) by (simp add: cr m(3))
  qed
qed

text \<open>
  A conversion is quoted only on the right evidence: both currencies are supported and
  differ, the amount is positive, each stablecoin of the pair has exactly one Coinbase book
  against USD, none of these books is older than the limit, any two of them are within the
  allowed skew, and the quote carries the time of the older one and is never executable.
\<close>

theorem conversion_quote_evidenced:
  assumes "quote_stablecoin_conversion_depth i source target amount books now age skew = Inr q"
  shows "{upper source, upper target} \<subseteq> {''USD'', ''USDC'', ''USDT''} \<and> upper source \<noteq> upper target \<and> 0 < amount
    \<and> (\<forall>coin \<in> {upper source, upper target}. coin \<noteq> ''USD'' \<longrightarrow>
         (\<exists>b. filter (is_stablecoin_book coin) books = [b] \<and> book_age now b \<le> age
            \<and> vq_observed_at q \<le> ob_observed_at b
            \<and> total_seconds (ob_observed_at b - vq_observed_at q) \<le> max 0 skew))
    \<and> (\<exists>b \<in> set books. vq_observed_at q = ob_observed_at b)
    \<and> vq_paper_only q \<and> \<not> vq_executable_eligible q"
proof -
  let ?s = "upper source" and ?t = "upper target"
  obtain needed legs worst where cur: "validate_currency source = Inr ?s" "validate_currency target = Inr ?t"
    and ne: "?s \<noteq> ?t" "0 < amount" and needed: "needed_books books ?s ?t = Inr needed"
    and worst: "worst = foldl max (hd (map (book_age now) needed)) (tl (map (book_age now) needed))" "worst \<le> age"
    and skew: "length needed > 1 \<longrightarrow> books_skew needed \<le> skew"
    and q: "conversion_of i ?s ?t amount needed worst legs = Inr q"
    by (rule quote_Inr [OF assms])
  have sup: "{?s, ?t} \<subseteq> {''USD'', ''USDC'', ''USDT''}" using cur by (auto simp: validate_currency_Inr)
  have books: "\<exists>b \<in> set needed. filter (is_stablecoin_book coin) books = [b]" if "coin \<in> {?s, ?t}" "coin \<noteq> ''USD''" for coin
    using needed that sup ne(1)
    by (auto simp: needed_books_def stablecoins_def stablecoin_book_Inr [symmetric] split: if_splits)
  have shape: "(\<exists>b. needed = [b]) \<or> (\<exists>b c. needed = [b, c])" and sub: "set needed \<subseteq> set books"
    using needed stablecoin_book_in by (fastforce simp: needed_books_def split: if_splits)+
  note c = conversion_of_Inr [OF q]
  have each: "book_age now b \<le> age \<and> vq_observed_at q \<le> ob_observed_at b
      \<and> total_seconds (ob_observed_at b - vq_observed_at q) \<le> max 0 skew" if "b \<in> set needed" for b
    using shape that worst skew c(8) by (auto simp: books_skew_def total_seconds_def max_def min_def split: if_splits)
  have "\<exists>b \<in> set needed. vq_observed_at q = ob_observed_at b"
    using shape c(8) by (auto simp: min_def)
  then have "\<exists>b \<in> set books. vq_observed_at q = ob_observed_at b" using sub by blast
  moreover have "\<exists>b. filter (is_stablecoin_book coin) books = [b] \<and> book_age now b \<le> age
      \<and> vq_observed_at q \<le> ob_observed_at b \<and> total_seconds (ob_observed_at b - vq_observed_at q) \<le> max 0 skew"
    if "coin \<in> {?s, ?t}" "coin \<noteq> ''USD''" for coin
    using books [OF that] each by blast
  ultimately show ?thesis using sup ne c(12,13) by simp
qed

section \<open>Witnesses\<close>

text \<open>A thousand USDC to USDT and back, through two books with a spread.\<close>

definition cv_book :: "string \<Rightarrow> time \<Rightarrow> order_book_snapshot" where
  "cv_book coin t = \<lparr>ob_venue = ''Coinbase'', ob_asset = coin, ob_market_kind = SPOT, ob_symbol = coin @ ''-USD'',
     ob_quote_currency = Some ''USD'', ob_contract_key = None, ob_expires_at = None,
     ob_bids = [\<lparr>lv_price = 99 / 100, lv_size = 5000\<rparr>], ob_asks = [\<lparr>lv_price = 101 / 100, lv_size = 5000\<rparr>],
     ob_observed_at = t, ob_source = ''fixture'', ob_request_latency_ms = Some 20\<rparr>"

definition cv_books :: "order_book_snapshot list" where
  "cv_books = [cv_book ''USDC'' 1000000, cv_book ''USDT'' 2000000, fx_spot_book]"

definition cv_there :: "conversion_quote result" where
  "cv_there = quote_stablecoin_conversion_depth ''q1'' ''usdc'' ''USDT'' 1000 cv_books 3000000 15 5"

definition cv_back :: "real \<Rightarrow> conversion_quote result" where
  "cv_back amount = quote_stablecoin_conversion_depth ''q2'' ''USDT'' ''usdc'' amount cv_books 3000000 15 5"

lemma cv_valid: "\<forall>b \<in> set cv_books. valid_book b"
  using fx_books_valid
  by (simp add: cv_books_def cv_book_def fx_books_def valid_book_def validate_book_def valid_level_def)

lemma cv_quoted: "case cv_there of Inl e \<Rightarrow> False | Inr q \<Rightarrow> (case cv_back (vq_output_amount q) of
    Inl e \<Rightarrow> False | Inr r \<Rightarrow> length (vq_legs q) = 2 \<and> vq_output_amount q = 990 * 100 / 101)"
  by code_simp

lemma cv_quotes:
  obtains q r where "quote_stablecoin_conversion_depth ''q1'' ''usdc'' ''USDT'' 1000 cv_books 3000000 15 5 = Inr q"
    and "quote_stablecoin_conversion_depth ''q2'' ''USDT'' ''usdc'' (vq_output_amount q) cv_books 3000000 15 5 = Inr r"
    and "length (vq_legs q) = 2" and "vq_output_amount q = 990 * 100 / 101"
  using cv_quoted that by (auto simp: cv_there_def cv_back_def split: sum.splits)


theorem conversion_round_trip_loses_witness:
  "\<exists>q r. cv_there = Inr q \<and> cv_back (vq_output_amount q) = Inr r \<and> vq_output_amount r < 1000"
proof -
  obtain q r where qr: "quote_stablecoin_conversion_depth ''q1'' ''usdc'' ''USDT'' 1000 cv_books 3000000 15 5 = Inr q"
    "quote_stablecoin_conversion_depth ''q2'' ''USDT'' ''usdc'' (vq_output_amount q) cv_books 3000000 15 5 = Inr r"
    by (rule cv_quotes)
  from conversion_round_trip_loses [OF qr cv_valid] qr show ?thesis by (simp add: cv_there_def cv_back_def)
qed

theorem conversion_quote_evidenced_witness:
  "\<exists>q b. cv_there = Inr q \<and> filter (is_stablecoin_book ''USDT'') cv_books = [b] \<and> book_age 3000000 b \<le> 15"
proof -
  obtain q where q: "quote_stablecoin_conversion_depth ''q1'' ''usdc'' ''USDT'' 1000 cv_books 3000000 15 5 = Inr q"
    by (rule cv_quotes)
  have "upper ''USDT'' = ''USDT''" by code_simp
  with conversion_quote_evidenced [OF q] q show ?thesis by (auto simp: cv_there_def)
qed

end
