(* ===== verification/Resilient.thy ===== *)
theory Resilient
  imports Portfolio_Service
begin

text \<open>
  resilient_paper_portfolio.py and portfolio_integrity.py: the portfolio cycle that production
  runs.  It values a position only by a quote that is not older than the evidence it already has,
  settles it only by a quote observed at or after its horizon, deploys no new capital while any
  open position lacks such evidence, survives a failing allocator, and records in a second
  hash-chained table what the valuation of each cycle rests on.
\<close>

section \<open>The integrity table\<close>

datatype valuation_status = Cash_only | Fresh | Partial | Stale | Unavailable

datatype integrity_status = Accounting_only | Successful | Degraded | Failed

record integrity_snapshot =
  ig_integrity_id :: string
  ig_portfolio_id :: string
  ig_observed_at :: time
  ig_account_snapshot_at :: time
  ig_market_evidence_at :: "time option"
  ig_valuation_status :: valuation_status
  ig_cycle_status :: integrity_status
  ig_fallback_snapshot :: bool
  ig_cycle_error_type :: "string option"
  ig_stale_position_count :: nat
  ig_settlement_evidence_blocked_count :: nat
  ig_open_position_count :: nat
  ig_allocation_family_failures :: "family_failure list"
  ig_market_snapshot_id :: "string option"
  ig_paper_only :: bool
  ig_live_execution_authority :: bool

record integrity_row =
  ir_snapshot :: integrity_snapshot
  ir_previous_lineage_hash :: "string option"
  ir_lineage_hash :: string

text \<open>The account of the service: its two ledgers, and whether it holds the future of an allocation.\<close>

record account =
  at_ledger :: ledger
  at_integrity :: "integrity_row list"
  at_allocation_held :: bool

type_synonym 'a service = "(account, 'a) action"

text \<open>
  Beside the parameters of the ledger: \<open>isoformat\<close>, \<open>fromisoformat\<close> (\<open>None\<close> where it raises a
  ValueError) and the JSON encoding of an integrity snapshot.
\<close>

record resilient_env =
  rv_ledger :: ledger_env
  rv_isoformat :: "time \<Rightarrow> string"
  rv_fromisoformat :: "string \<Rightarrow> time option"
  rv_integrity_json :: "integrity_snapshot \<Rightarrow> string"

definition on_ledger :: "'a act \<Rightarrow> 'a service" where
  "on_ledger m = (\<lambda>s. case m (at_ledger s) of (r, l) \<Rightarrow> (r, s\<lparr>at_ledger := l\<rparr>))"

definition canonical_rows :: "account \<Rightarrow> integrity_row list" where
  "canonical_rows s = filter (\<lambda>r. ig_portfolio_id (ir_snapshot r) = portfolio_id) (at_integrity s)"

definition last_integrity_hash :: "account \<Rightarrow> string option" where
  "last_integrity_hash s = (case rev (canonical_rows s) of [] \<Rightarrow> None | r # _ \<Rightarrow> Some (ir_lineage_hash r))"

definition integrity_lineage :: "resilient_env \<Rightarrow> string option \<Rightarrow> integrity_snapshot \<Rightarrow> string" where
  "integrity_lineage env previous i =
     en_sha256_hex (rv_ledger env) (str_or previous [] @ ''|'' @ rv_integrity_json env i)"

definition record_integrity :: "resilient_env \<Rightarrow> integrity_snapshot \<Rightarrow> string service" where
  "record_integrity env i = (\<lambda>s.
     if ig_portfolio_id i \<noteq> portfolio_id
     then (Inl (ValueError ''only the canonical paper portfolio is supported''), s)
     else (Inr (ig_integrity_id i),
       if ig_integrity_id i \<in> ig_integrity_id ` ir_snapshot ` set (at_integrity s) then s
       else s\<lparr>at_integrity := at_integrity s @ [\<lparr>ir_snapshot = i, ir_previous_lineage_hash = last_integrity_hash s,
         ir_lineage_hash = integrity_lineage env (last_integrity_hash s) i\<rparr>]\<rparr>))"

definition latest_integrity :: "account \<Rightarrow> integrity_snapshot option" where
  "latest_integrity s = (case rev (canonical_rows s) of [] \<Rightarrow> None | r # _ \<Rightarrow> Some (ir_snapshot r))"

definition integrity_history :: "int \<Rightarrow> account \<Rightarrow> integrity_snapshot list" where
  "integrity_history limit s = take (clamp_limit limit) (rev (map ir_snapshot (canonical_rows s)))"

text \<open>A new snapshot: the default id is drawn; the counts are natural numbers, so its checks pass.\<close>

definition write_integrity :: "resilient_env \<Rightarrow> integrity_snapshot \<Rightarrow> string service" where
  "write_integrity env i = abind (on_ledger (draw_uuid (rv_ledger env)))
     (\<lambda>k. record_integrity env (i\<lparr>ig_integrity_id := k\<rparr>))"

definition blank_integrity :: integrity_snapshot where
  "blank_integrity = \<lparr>ig_integrity_id = [], ig_portfolio_id = portfolio_id, ig_observed_at = 0,
     ig_account_snapshot_at = 0, ig_market_evidence_at = None, ig_valuation_status = Unavailable,
     ig_cycle_status = Accounting_only, ig_fallback_snapshot = False, ig_cycle_error_type = None,
     ig_stale_position_count = 0, ig_settlement_evidence_blocked_count = 0, ig_open_position_count = 0,
     ig_allocation_family_failures = [], ig_market_snapshot_id = None, ig_paper_only = True,
     ig_live_execution_authority = False\<rparr>"

definition ensure_initial :: "resilient_env \<Rightarrow> portfolio_snapshot \<Rightarrow> integrity_snapshot service" where
  "ensure_initial env p = (\<lambda>s. case latest_integrity s of
       Some i \<Rightarrow> (Inr i, s)
     | None \<Rightarrow>
         let i = blank_integrity\<lparr>ig_observed_at := ps_observed_at p, ig_account_snapshot_at := ps_observed_at p,
               ig_valuation_status := if ps_open_position_count p = 0 then Cash_only else Unavailable,
               ig_stale_position_count := ps_open_position_count p,
               ig_open_position_count := ps_open_position_count p\<rparr>
         in abind (on_ledger (draw_uuid (rv_ledger env))) (\<lambda>k.
            abind (record_integrity env (i\<lparr>ig_integrity_id := k\<rparr>)) (\<lambda>_.
            alift (Inr (i\<lparr>ig_integrity_id := k\<rparr>)))) s)"

section \<open>The market surface\<close>

record canonical_scan =
  cn_scan_id :: string
  cn_started_at :: time
  cn_completed_at :: time
  cn_funding_quotes :: "funding_quote list"
  cn_market_quotes :: "market_quote list"

text \<open>
  A core without an adapter registry delivers a scan itself; otherwise the registry delivers the
  quotes between two readings of the clock, and the evidence store the id of the stored scan.
\<close>

datatype market_feed =
    Core_scan "canonical_scan result"
  | Registry time "(funding_quote list \<times> market_quote list) result" time string

fun collect_canonical_market_snapshot :: "market_feed \<Rightarrow> canonical_scan result" where
  "collect_canonical_market_snapshot (Core_scan scan) = scan"
| "collect_canonical_market_snapshot (Registry started inputs completed scan_id) =
     rbind inputs (\<lambda>(funding_quotes, market_quotes).
     if market_quotes = []
     then Inl (RuntimeError ''canonical public market surface returned no market quotes'')
     else Inr \<lparr>cn_scan_id = scan_id, cn_started_at = started, cn_completed_at = completed,
            cn_funding_quotes = funding_quotes, cn_market_quotes = market_quotes\<rparr>)"

section \<open>What positions were last valued by\<close>

text \<open>\<open>raw.replace("Z", "+00:00")\<close>\<close>

definition replace_zulu :: "string \<Rightarrow> string" where
  "replace_zulu s = concat (map (\<lambda>c. if c = CHR ''Z'' then ''+00:00'' else [c]) s)"

definition evidence_key :: string where
  "evidence_key = ''valuation_evidence_observed_at''"

definition open_evidence :: "resilient_env \<Rightarrow> portfolio_event \<Rightarrow> time" where
  "open_evidence env e =
     (case map_of (pe_details e) evidence_key of
        Some (PStr raw) \<Rightarrow> opt_the (pe_observed_at e) (rv_fromisoformat env (replace_zulu raw))
      | _ \<Rightarrow> pe_observed_at e)"

definition note_evidence :: "resilient_env \<Rightarrow> (string \<rightharpoonup> time) \<Rightarrow> portfolio_event \<Rightarrow> (string \<rightharpoonup> time)" where
  "note_evidence env m e =
     (case pe_position_id e of
        None \<Rightarrow> m
      | Some pid \<Rightarrow> if pid = [] then m else
          (case pe_event_type e of
             Open \<Rightarrow> m(pid \<mapsto> open_evidence env e)
           | Mark \<Rightarrow> m(pid \<mapsto> pe_observed_at e)
           | Close \<Rightarrow> m(pid := None)
           | _ \<Rightarrow> m))"

definition latest_position_evidence_times :: "resilient_env \<Rightarrow> ledger \<Rightarrow> (string \<rightharpoonup> time)" where
  "latest_position_evidence_times env s = foldl (note_evidence env) (\<lambda>_. None) (events_all s)"

section \<open>Valuing and settling\<close>

record fresh_vars =
  fv_counts :: cycle_counts
  fv_stale :: nat
  fv_blocked :: nat
  fv_fresh :: "(string \<times> time) list"

definition add_stale :: "fresh_vars \<Rightarrow> fresh_vars" where
  "add_stale v = v\<lparr>fv_stale := Suc (fv_stale v)\<rparr>"

definition add_blocked :: "fresh_vars \<Rightarrow> fresh_vars" where
  "add_blocked v = v\<lparr>fv_stale := Suc (fv_stale v), fv_blocked := Suc (fv_blocked v)\<rparr>"

definition add_marked :: "fresh_vars \<Rightarrow> fresh_vars" where
  "add_marked v = v\<lparr>fv_counts := (fv_counts v)\<lparr>cc_marked := Suc (cc_marked (fv_counts v))\<rparr>\<rparr>"

definition add_closed :: "fresh_vars \<Rightarrow> fresh_vars" where
  "add_closed v = v\<lparr>fv_counts := (fv_counts v)\<lparr>cc_closed := Suc (cc_closed (fv_counts v))\<rparr>\<rparr>"

definition add_fresh :: "paper_position \<Rightarrow> market_quote \<Rightarrow> fresh_vars \<Rightarrow> fresh_vars" where
  "add_fresh p q v = v\<lparr>fv_fresh := AList.update (pp_position_id p) (mq_observed_at q) (fv_fresh v)\<rparr>"

text \<open>Mark a position by a quote that is newer than its evidence.\<close>

definition mark_if_newer ::
  "ledger_env \<Rightarrow> time \<Rightarrow> paper_position \<Rightarrow> market_quote \<Rightarrow> (fresh_vars \<Rightarrow> fresh_vars) \<Rightarrow> fresh_vars \<Rightarrow> fresh_vars act" where
  "mark_if_newer env prior p q after v =
     (if mq_observed_at q > prior
      then abind (write_event env (mark_event p q (mq_observed_at q))) (\<lambda>_. alift (Inr (after (add_marked v))))
      else alift (Inr (after v)))"

definition prior_evidence :: "(string \<rightharpoonup> time) \<Rightarrow> paper_position \<Rightarrow> time" where
  "prior_evidence prior p = opt_the (pp_opened_at p) (prior (pp_position_id p))"

definition value_position ::
  "ledger_env \<Rightarrow> (quote_key \<rightharpoonup> market_quote) \<Rightarrow> time \<Rightarrow> (string \<rightharpoonup> time) \<Rightarrow> paper_position \<Rightarrow> fresh_vars
     \<Rightarrow> fresh_vars act" where
  "value_position env index completed prior p v =
     (case quote_for index p of
        None \<Rightarrow> alift (Inr (add_stale v))
      | Some q \<Rightarrow>
          if mq_observed_at q < prior_evidence prior p then alift (Inr (add_stale v))
          else if pp_due_at p \<le> completed \<and> mq_observed_at q < pp_due_at p
          then mark_if_newer env (prior_evidence prior p) p q add_blocked v
          else if pp_due_at p \<le> mq_observed_at q
          then abind (write_event env (close_event p q (mq_observed_at q))) (\<lambda>_. alift (Inr (add_closed v)))
          else mark_if_newer env (prior_evidence prior p) p q (add_fresh p q) v)"

text \<open>What the valuation of the account rests on.\<close>

definition valuation ::
  "nat \<Rightarrow> nat \<Rightarrow> (string \<times> time) list \<Rightarrow> integrity_snapshot option \<Rightarrow> time \<Rightarrow> valuation_status \<times> time option" where
  "valuation open_count stale fresh previous completed =
     (if open_count = 0 then (Cash_only, Some completed)
      else if stale = 0 then (Fresh, Some (if fresh = [] then completed else Min (set (map snd fresh))))
      else let held = (case previous of None \<Rightarrow> None | Some i \<Rightarrow> ig_market_evidence_at i)
           in (if stale < open_count then Partial else Stale, held))"

section \<open>The allocation stage\<close>

text \<open>
  How an awaited allocation ends: with a plan, with a TimeoutError (the thirty seconds are over,
  or the allocator raised it) or with another exception of the given type.
\<close>

datatype stage_end = Returned unified_plan | Timed_out | Raised string

record allocation_stage =
  sg_sync :: bool
  sg_previous_finished :: bool
  sg_ends :: "real \<Rightarrow> stage_end"

definition bounded_allocation_plan ::
  "allocation_stage \<Rightarrow> real \<Rightarrow> (unified_plan option \<times> string option) service" where
  "bounded_allocation_plan stage capital = (\<lambda>s.
     if \<not> sg_sync stage
     then (Inr (case sg_ends stage capital of Returned plan \<Rightarrow> (Some plan, None)
             | Timed_out \<Rightarrow> (None, Some ''TimeoutError'') | Raised name \<Rightarrow> (None, Some name)), s)
     else if at_allocation_held s \<and> \<not> sg_previous_finished stage
     then (Inr (None, Some ''AllocationStageStillRunning''), s)
     else (case sg_ends stage capital of
        Returned plan \<Rightarrow> (Inr (Some plan, None), s\<lparr>at_allocation_held := False\<rparr>)
      | Timed_out \<Rightarrow> (Inr (None, Some ''AllocationStageTimeout''), s\<lparr>at_allocation_held := True\<rparr>)
      | Raised name \<Rightarrow> (Inr (None, Some name), s\<lparr>at_allocation_held := False\<rparr>)))"

section \<open>Opening positions\<close>

definition evidence_at :: "time \<Rightarrow> unified_allocation \<Rightarrow> time" where
  "evidence_at t a = opt_the t (ua_source_observed_at a)"

definition evidenced_open_event :: "resilient_env \<Rightarrow> unified_allocation \<Rightarrow> time \<Rightarrow> string \<Rightarrow> portfolio_event result" where
  "evidenced_open_event env a t pid = rbind (open_event a t pid) (\<lambda>e. Inr (e\<lparr>pe_details :=
     pe_details e @ [(evidence_key, PStr (rv_isoformat env (evidence_at t a)))]\<rparr>))"

text \<open>The body of the loop of the parent class, which now notes the evidence of what it opens.\<close>

definition open_evidenced ::
  "resilient_env \<Rightarrow> time \<Rightarrow> unified_allocation \<Rightarrow> open_vars \<times> (string \<times> time) list
     \<Rightarrow> (open_vars \<times> (string \<times> time) list) act" where
  "open_evidenced env t a w =
     (let le = rv_ledger env; v = fst w; fresh = snd w in
      case support_reason a of (supported, reason) \<Rightarrow>
      if \<not> supported
      then abind (write_event le (skip_event a t reason)) (\<lambda>_. alift (Inr (count_skip v, fresh)))
      else case (first_venue a, ua_instrument_symbol a) of
        (Some venue, Some symbol) \<Rightarrow>
          if (venue, symbol) \<in> ow_open_keys v
          then abind (write_event le (skip_event a t
                 (Some ''canonical portfolio already has an open position in this venue/symbol'')))
                 (\<lambda>_. alift (Inr (count_skip v, fresh)))
          else let capital = ua_capital_required_usd a in
            if capital > ow_remaining_cash v + 1 / 10 ^ 9
            then abind (write_event le (cash_skip_event a t)) (\<lambda>_. alift (Inr (count_skip v, fresh)))
            else abind (draw_uuid le) (\<lambda>pid.
                 abind (alift (evidenced_open_event env a t pid)) (\<lambda>e.
                 abind (write_event le e) (\<lambda>_.
                 alift (Inr (v\<lparr>ow_remaining_cash := ow_remaining_cash v - capital,
                   ow_open_keys := insert (venue, symbol) (ow_open_keys v),
                   ow_counts := (ow_counts v)\<lparr>cc_opened := Suc (cc_opened (ow_counts v))\<rparr>\<rparr>,
                   AList.update pid (evidence_at t a) fresh)))))
      | _ \<Rightarrow> alift (Inl AssertionError))"

section \<open>The cycle\<close>

text \<open>What the allocation part of a cycle leaves: counts, evidence, the error type, the failures.\<close>

record deployed =
  dp_counts :: cycle_counts
  dp_fresh :: "(string \<times> time) list"
  dp_error_type :: "string option"
  dp_failures :: "family_failure list"

definition hold_reason :: "fresh_vars \<Rightarrow> string option" where
  "hold_reason v = (if fv_blocked v > 0 then Some ''SettlementEvidencePreHorizon''
     else if fv_stale v > 0 then Some ''StaleOpenPositionValuation'' else None)"

definition stage_failure :: "string \<Rightarrow> family_failure" where
  "stage_failure name = (''canonical_allocator'', name,
     ''canonical accounting remained live while the durable allocation stage failed its bounded liveness contract'')"

definition deploy ::
  "resilient_env \<Rightarrow> allocation_stage \<Rightarrow> portfolio_snapshot \<Rightarrow> fresh_vars \<Rightarrow> deployed service" where
  "deploy env stage after_close v =
     (let cash = max 0 (ps_cash_usd after_close);
          none = \<lparr>dp_counts = fv_counts v, dp_fresh = fv_fresh v, dp_error_type = hold_reason v, dp_failures = []\<rparr>
      in if \<not> (cash > 0 \<and> fv_stale v = 0) then alift (Inr none)
         else abind (bounded_allocation_plan stage cash) (\<lambda>(plan, failed).
           let held = (case failed of None \<Rightarrow> none
                 | Some name \<Rightarrow> none\<lparr>dp_error_type := Some name, dp_failures := [stage_failure name]\<rparr>)
           in case plan of
                None \<Rightarrow> alift (Inr held)
              | Some pl \<Rightarrow>
                  abind (on_ledger (afold (open_evidenced env (up_observed_at pl)) (up_allocations pl)
                    (\<lparr>ow_remaining_cash = cash, ow_open_keys = set (map position_key (ps_positions after_close)),
                      ow_counts = fv_counts v\<rparr>, fv_fresh v))) (\<lambda>(w, fresh).
                  alift (Inr (held\<lparr>dp_counts := ow_counts w, dp_fresh := fresh,
                    dp_failures := up_family_failures pl\<rparr>)))))"

definition integrity_of ::
  "canonical_scan \<Rightarrow> portfolio_snapshot \<Rightarrow> fresh_vars \<Rightarrow> valuation_status \<times> time option \<Rightarrow> integrity_snapshot" where
  "integrity_of scan p v status = blank_integrity\<lparr>ig_observed_at := cn_completed_at scan,
     ig_account_snapshot_at := ps_observed_at p, ig_market_evidence_at := snd status,
     ig_valuation_status := fst status, ig_stale_position_count := fv_stale v,
     ig_settlement_evidence_blocked_count := fv_blocked v,
     ig_open_position_count := ps_open_position_count p, ig_market_snapshot_id := Some (cn_scan_id scan)\<rparr>"

definition checkpoint_of ::
  "canonical_scan \<Rightarrow> integrity_snapshot option \<Rightarrow> portfolio_snapshot \<Rightarrow> fresh_vars \<Rightarrow> integrity_snapshot" where
  "checkpoint_of scan previous p v = integrity_of scan p v
     (valuation (ps_open_position_count p) (fv_stale v) (fv_fresh v) previous (cn_completed_at scan))"

definition final_integrity_of ::
  "canonical_scan \<Rightarrow> integrity_snapshot option \<Rightarrow> portfolio_snapshot \<Rightarrow> fresh_vars \<Rightarrow> deployed \<Rightarrow> integrity_snapshot" where
  "final_integrity_of scan previous p v d =
     (integrity_of scan p v (valuation (ps_open_position_count p) (fv_stale v) (dp_fresh d) previous (cn_completed_at scan)))
       \<lparr>ig_cycle_status := if fv_stale v > 0 \<or> truthy (dp_error_type d) \<or> dp_failures d \<noteq> [] then Degraded else Successful,
        ig_cycle_error_type := dp_error_type d, ig_allocation_family_failures := dp_failures d\<rparr>"

definition conclude ::
  "resilient_env \<Rightarrow> canonical_scan \<Rightarrow> integrity_snapshot option \<Rightarrow> fresh_vars \<Rightarrow> deployed \<Rightarrow> portfolio_cycle service" where
  "conclude env scan previous v d =
     (let le = rv_ledger env; c = dp_counts d in
      abind (on_ledger (current_state le (Some (cn_completed_at scan)))) (\<lambda>final.
      abind (on_ledger (record_snapshot le final)) (\<lambda>_.
      abind (write_integrity env (final_integrity_of scan previous final v d)) (\<lambda>_.
      abind (on_ledger (draw_uuid le)) (\<lambda>i.
      alift (Inr \<lparr>cy_cycle_id = i, cy_observed_at = cn_completed_at scan, cy_opened_position_count = cc_opened c,
        cy_closed_position_count = cc_closed c, cy_marked_position_count = cc_marked c,
        cy_skipped_allocation_count = cc_skipped c, cy_nav_usd = ps_nav_usd final,
        cy_cash_usd = ps_cash_usd final, cy_paper_only = True\<rparr>))))))"

definition no_values :: fresh_vars where
  "no_values = \<lparr>fv_counts = \<lparr>cc_closed = 0, cc_marked = 0, cc_opened = 0, cc_skipped = 0\<rparr>, fv_stale = 0,
     fv_blocked = 0, fv_fresh = []\<rparr>"

definition resilient_cycle ::
  "resilient_env \<Rightarrow> market_feed \<Rightarrow> allocation_stage \<Rightarrow> portfolio_cycle service" where
  "resilient_cycle env feed stage =
     (let le = rv_ledger env in
      abind (on_ledger (ensure_genesis le None)) (\<lambda>_. \<lambda>s0.
      (let previous = latest_integrity s0 in
      abind (alift (collect_canonical_market_snapshot feed)) (\<lambda>scan.
      abind (on_ledger (current_state le (Some (cn_completed_at scan)))) (\<lambda>state. \<lambda>s1.
      (let prior = latest_position_evidence_times env (at_ledger s1) in
      abind (on_ledger (afold (value_position le (quote_index (cn_market_quotes scan)) (cn_completed_at scan) prior)
        (ps_positions state) no_values)) (\<lambda>v.
      abind (on_ledger (current_state le (Some (cn_completed_at scan)))) (\<lambda>after_close.
      abind (write_integrity env (checkpoint_of scan previous after_close v)) (\<lambda>_.
      abind (deploy env stage after_close v) (\<lambda>d.
      conclude env scan previous v d))))) s1))) s0))"

end
