(* ===== verification/Resilient_Loops.thy ===== *)
theory Resilient_Loops
  imports Resilient Cycle_Run
begin

text \<open>
  The two loops of the resilient cycle.  Every event that they write is lawful: marks and closes
  rest on a quote of the scan, a close on one observed at or after the horizon, and a position is
  opened only when every position was valued.
\<close>

section \<open>Lawful events\<close>

definition quote_backed :: "(quote_key \<rightharpoonup> market_quote) \<Rightarrow> portfolio_event \<Rightarrow> bool" where
  "quote_backed index e \<longleftrightarrow> (\<exists>v a k b q. index (v, a, k, b) = Some q \<and> pe_venue e = Some v \<and> pe_symbol e = Some b
     \<and> pe_observed_at e = mq_observed_at q \<and> pe_reference_price e = Some (mq_mid q))"

definition lawful :: "(quote_key \<rightharpoonup> market_quote) \<Rightarrow> bool \<Rightarrow> portfolio_event \<Rightarrow> bool" where
  "lawful index free e = (case pe_event_type e of
     Open \<Rightarrow> free
   | Mark \<Rightarrow> quote_backed index e
   | Close \<Rightarrow> quote_backed index e \<and> (\<exists>due. pe_due_at e = Some due \<and> due \<le> pe_observed_at e)
   | _ \<Rightarrow> True)"

definition lawful_since ::
  "(quote_key \<rightharpoonup> market_quote) \<Rightarrow> bool \<Rightarrow> portfolio_event list \<Rightarrow> portfolio_event list \<Rightarrow> bool" where
  "lawful_since index free es0 es \<longleftrightarrow> (\<exists>new. es = es0 @ new \<and> list_all (lawful index free) new)"

lemma lawful_since_refl [simp]: "lawful_since index free es es"
  by (simp add: lawful_since_def)

lemma lawful_since_snoc:
  "lawful_since index free es0 es \<Longrightarrow> lawful index free e \<Longrightarrow> lawful_since index free es0 (es @ [e])"
  by (fastforce simp: lawful_since_def)

lemma lawful_since_free: "lawful_since index free es0 es \<Longrightarrow> lawful_since index True es0 es"
proof -
  have "lawful index free e \<Longrightarrow> lawful index True e" for e
    by (auto simp: lawful_def split: event_type.splits)
  then show "lawful_since index free es0 es \<Longrightarrow> lawful_since index True es0 es"
    by (auto simp: lawful_since_def list_all_iff)
qed

lemma lawful_id [simp]: "lawful index free (e\<lparr>pe_event_id := i\<rparr>) = lawful index free e"
  by (simp add: lawful_def quote_backed_def split: event_type.split)

lemma position_event_fields [simp]:
  "pe_venue (mark_event p q t) = Some (pp_venue p)" "pe_symbol (mark_event p q t) = Some (pp_symbol p)"
  "pe_observed_at (mark_event p q t) = t" "pe_reference_price (mark_event p q t) = Some (mq_mid q)"
  "pe_venue (close_event p q t) = Some (pp_venue p)" "pe_symbol (close_event p q t) = Some (pp_symbol p)"
  "pe_observed_at (close_event p q t) = t" "pe_reference_price (close_event p q t) = Some (mq_mid q)"
  "pe_due_at (close_event p q t) = Some (pp_due_at p)"
  by (simp_all add: mark_event_def close_event_def position_event_def blank_event_def Let_def)

lemma lawful_mark: "quote_for index p = Some q \<Longrightarrow> lawful index free (mark_event p q (mq_observed_at q))"
  by (auto simp: lawful_def quote_backed_def quote_for_def)

lemma lawful_close:
  "quote_for index p = Some q \<Longrightarrow> pp_due_at p \<le> mq_observed_at q \<Longrightarrow>
     lawful index free (close_event p q (mq_observed_at q))"
  by (auto simp: lawful_def quote_backed_def quote_for_def)

text \<open>An event that is refused leaves the table of events as it is.\<close>

lemma write_event_refused: "write_event env e s = (Inl x, t) \<Longrightarrow> entries t = entries s"
  by (auto simp: write_event_def abind_def new_event_def draw_uuid_def alift_def record_event_def Let_def
      split: if_splits)

definition halted :: "ledger_env \<Rightarrow> bool \<Rightarrow> ledger \<Rightarrow> (portfolio_event list \<Rightarrow> bool) \<Rightarrow> ledger \<Rightarrow> bool" where
  "halted env fine s0 K s \<longleftrightarrow> aborted env fine s0 s \<and> K (entries s)"

lemma triple_write_law:
  assumes "triple P (abind (write_event env e) (\<lambda>_. alift (Inr x))) Q (aborted env fine s0)"
    and "\<And>s. P s \<Longrightarrow> K (entries s)"
  shows "triple P (abind (write_event env e) (\<lambda>_. alift (Inr x))) Q (halted env fine s0 K)"
proof (rule tripleI)
  fix s assume P: "P s"
  have "case abind (write_event env e) (\<lambda>_. alift (Inr x)) s of (Inr x, t) \<Rightarrow> Q x t | (Inl e, t) \<Rightarrow> aborted env fine s0 t"
    using assms(1) P by (simp add: triple_def)
  then show "case abind (write_event env e) (\<lambda>_. alift (Inr x)) s of (Inr x, t) \<Rightarrow> Q x t | (Inl e, t) \<Rightarrow> halted env fine s0 K t"
    using assms(2) [OF P] write_event_refused [of env e s]
    by (auto simp: abind_def alift_def halted_def split: prod.splits sum.splits)
qed

section \<open>The first loop\<close>

text \<open>A position that the scan does not value: no quote, a stale one, or one from before the horizon.\<close>

definition unvalued :: "(quote_key \<rightharpoonup> market_quote) \<Rightarrow> time \<Rightarrow> (string \<rightharpoonup> time) \<Rightarrow> paper_position \<Rightarrow> bool" where
  "unvalued index t prior p \<longleftrightarrow> (case quote_for index p of
     None \<Rightarrow> True
   | Some q \<Rightarrow> mq_observed_at q < prior_evidence prior p \<or> (pp_due_at p \<le> t \<and> mq_observed_at q < pp_due_at p))"

text \<open>A position that the loop is done with.\<close>

definition dealt_with ::
  "(quote_key \<rightharpoonup> market_quote) \<Rightarrow> time \<Rightarrow> (string \<rightharpoonup> time) \<Rightarrow> fresh_vars \<Rightarrow> ledger \<Rightarrow> paper_position \<Rightarrow> bool" where
  "dealt_with index t prior v s p \<longleftrightarrow>
     (unvalued index t prior p \<longrightarrow> 0 < fv_stale v)
     \<and> (\<not> unvalued index t prior p \<longrightarrow>
          (\<exists>q. quote_for index p = Some q \<and>
             (if pp_due_at p \<le> mq_observed_at q then pp_position_id p \<in> closed_ids (entries s)
              else map_of (fv_fresh v) (pp_position_id p) = Some (mq_observed_at q))))"

definition valuing ::
  "ledger_env \<Rightarrow> ledger \<Rightarrow> portfolio_event list \<Rightarrow> (quote_key \<rightharpoonup> market_quote) \<Rightarrow> time \<Rightarrow> (string \<rightharpoonup> time)
     \<Rightarrow> paper_position list \<Rightarrow> paper_position list \<Rightarrow> fresh_vars \<Rightarrow> ledger \<Rightarrow> bool" where
  "valuing env s0 es0 index t prior all rest v s \<longleftrightarrow> grown env s0 s \<and> ld_events s \<noteq> []
     \<and> counted (entries s0) (fv_counts v) (entries s) \<and> cc_opened (fv_counts v) = 0
     \<and> distinct (map pp_position_id all) \<and> distinct rest \<and> set rest \<subseteq> set all
     \<and> (\<forall>p \<in> set rest. backed (entries s) p \<and> position_ok p)
     \<and> lawful_since index False es0 (entries s)
     \<and> pp_position_id ` set all \<subseteq> fst ` set (ta_opened (tally_of (entries s)))
     \<and> (0 < fv_stale v \<longrightarrow> (\<exists>p \<in> set all. unvalued index t prior p))
     \<and> (\<forall>p \<in> set all. p \<in> set rest \<or> dealt_with index t prior v s p)"

lemma opened_grow: "fst ` set (ta_opened (tally_of es)) \<subseteq> fst ` set (ta_opened (tally_of (es @ [e])))"
  unfolding tally_snoc tally_opened using update_keys [of _ e "ta_opened (tally_of es)"] by auto

text \<open>After an event that concerns the first remaining position.\<close>

lemma valuing_next:
  assumes s: "valuing env s0 es0 index t prior all (p # rest) v s" and u: "grown env s0 u"
    and ev: "entries u = entries s @ [e]" "lawful index False e"
    and kind: "pe_event_type e = Mark \<or> (pe_event_type e = Close \<and> pe_position_id e = Some (pp_position_id p))"
    and counts: "counted (entries s0) (fv_counts w) (entries u)" "cc_opened (fv_counts w) = 0"
    and stale: "fv_stale v \<le> fv_stale w" "0 < fv_stale w \<longrightarrow> 0 < fv_stale v \<or> unvalued index t prior p"
    and fresh: "\<And>k. k \<noteq> pp_position_id p \<Longrightarrow> map_of (fv_fresh w) k = map_of (fv_fresh v) k"
    and dealt: "dealt_with index t prior w u p"
  shows "valuing env s0 es0 index t prior all rest w u"
proof -
  have d: "distinct (map pp_position_id all)" and p: "p \<in> set all" and rest: "set rest \<subseteq> set all" "p \<notin> set rest"
    using s by (auto simp: valuing_def)
  have ne: "pp_position_id p \<noteq> []" using s by (simp add: valuing_def backed_def)
  have other: "pp_position_id r \<noteq> pp_position_id p" if "r \<in> set all" "r \<noteq> p" for r
    using d p that by (auto simp: distinct_map dest: inj_onD)
  have still: "backed (entries u) r" if r: "r \<in> set rest" for r
  proof -
    have "r \<noteq> p" using r rest by auto
    moreover have "r \<in> set all" using r rest by blast
    ultimately have "pp_position_id r \<noteq> pp_position_id p" using other by blast
    moreover have "backed (entries s) r" using s r by (simp add: valuing_def)
    ultimately show ?thesis using kind ne unfolding ev(1) by (auto intro: backed_after_close simp: backed_after_mark)
  qed
  have closed: "closed_ids (entries s) \<subseteq> closed_ids (entries u)"
    using kind ne unfolding ev(1) by (auto simp: closed_ids_mark closed_ids_close)
  have "dealt_with index t prior w u r" if r: "r \<in> set all" "r \<noteq> p" "dealt_with index t prior v s r" for r
    using r(3) closed stale(1) fresh [OF other [OF r(1,2)]] unfolding dealt_with_def by (auto split: if_splits)
  then have dealt_all: "\<forall>r \<in> set all. r \<in> set rest \<or> dealt_with index t prior w u r"
    using s dealt unfolding valuing_def by (metis set_ConsD)
  have "ld_events u \<noteq> []" using ev(1) by (metis append_is_Nil_conv list.distinct(1) map_is_Nil_conv)
  moreover have "pp_position_id ` set all \<subseteq> fst ` set (ta_opened (tally_of (entries u)))"
    unfolding ev(1) by (rule subset_trans [OF _ opened_grow]) (use s in \<open>simp add: valuing_def\<close>)
  moreover have "lawful_since index False es0 (entries u)"
    using s ev by (simp add: valuing_def lawful_since_snoc)
  ultimately show ?thesis
    using s u counts stale p still dealt_all unfolding valuing_def by auto
qed

text \<open>And when nothing is written.\<close>

lemma valuing_silent:
  assumes s: "valuing env s0 es0 index t prior all (p # rest) v s"
    and counts: "fv_counts w = fv_counts v"
    and stale: "fv_stale v \<le> fv_stale w" "0 < fv_stale w \<longrightarrow> 0 < fv_stale v \<or> unvalued index t prior p"
    and fresh: "\<And>k. k \<noteq> pp_position_id p \<Longrightarrow> map_of (fv_fresh w) k = map_of (fv_fresh v) k"
    and dealt: "dealt_with index t prior w s p"
  shows "valuing env s0 es0 index t prior all rest w s"
proof -
  have d: "distinct (map pp_position_id all)" and p: "p \<in> set all"
    using s by (auto simp: valuing_def)
  have other: "pp_position_id r \<noteq> pp_position_id p" if "r \<in> set all" "r \<noteq> p" for r
    using d p that by (auto simp: distinct_map dest: inj_onD)
  have "dealt_with index t prior w s r" if r: "r \<in> set all" "r \<noteq> p" "dealt_with index t prior v s r" for r
    using r(3) stale(1) fresh [OF other [OF r(1,2)]] unfolding dealt_with_def by (auto split: if_splits)
  then have "\<forall>r \<in> set all. r \<in> set rest \<or> dealt_with index t prior w s r"
    using s dealt unfolding valuing_def by (metis set_ConsD)
  then show ?thesis using s counts stale p unfolding valuing_def by auto
qed

lemma vars_fields [simp]:
  "fv_counts (add_stale v) = fv_counts v" "fv_stale (add_stale v) = Suc (fv_stale v)" "fv_fresh (add_stale v) = fv_fresh v"
  "fv_counts (add_blocked v) = fv_counts v" "fv_stale (add_blocked v) = Suc (fv_stale v)"
  "fv_fresh (add_blocked v) = fv_fresh v" "fv_counts (add_fresh p q v) = fv_counts v"
  "fv_stale (add_fresh p q v) = fv_stale v"
  "fv_counts (add_marked v) = (fv_counts v)\<lparr>cc_marked := Suc (cc_marked (fv_counts v))\<rparr>"
  "fv_stale (add_marked v) = fv_stale v" "fv_fresh (add_marked v) = fv_fresh v"
  "fv_counts (add_closed v) = (fv_counts v)\<lparr>cc_closed := Suc (cc_closed (fv_counts v))\<rparr>"
  "fv_stale (add_closed v) = fv_stale v" "fv_fresh (add_closed v) = fv_fresh v"
  "map_of (fv_fresh (add_fresh p q v)) = (map_of (fv_fresh v))(pp_position_id p \<mapsto> mq_observed_at q)"
  by (simp_all add: add_stale_def add_blocked_def add_fresh_def add_marked_def add_closed_def update_conv')

text \<open>The mark of a position, with what is noted after it.\<close>

lemma mark_if_newer_step:
  assumes "uuid_ok env" and fine: "fine \<Longrightarrow> prices_ok index" and q: "quote_for index p = Some q"
    and after: "\<And>w. fv_counts (after w) = fv_counts w" "\<And>w. fv_stale w \<le> fv_stale (after w)"
      "\<And>w. 0 < fv_stale (after w) \<Longrightarrow> 0 < fv_stale w \<or> unvalued index t prior p"
      "\<And>w k. k \<noteq> pp_position_id p \<Longrightarrow> map_of (fv_fresh (after w)) k = map_of (fv_fresh w) k"
      "\<And>w s. dealt_with index t prior (after w) s p"
  shows "triple (valuing env s0 es0 index t prior all (p # rest) v)
    (mark_if_newer env earlier p q after v)
    (valuing env s0 es0 index t prior all rest) (halted env fine s0 (lawful_since index False es0))"
proof (cases "mq_observed_at q > earlier")
  case True
  have "triple (valuing env s0 es0 index t prior all (p # rest) v)
      (abind (write_event env (mark_event p q (mq_observed_at q))) (\<lambda>_. alift (Inr (after (add_marked v)))))
      (valuing env s0 es0 index t prior all rest) (aborted env fine s0)"
  proof (rule triple_write [OF assms(1)])
    fix s u i
    assume s: "valuing env s0 es0 index t prior all (p # rest) v s" and u: "grown env s0 u"
      and ev: "entries u = entries s @ [(mark_event p q (mq_observed_at q))\<lparr>pe_event_id := i\<rparr>]"
    have "counted (entries s0) (fv_counts (add_marked v)) (entries u)"
      unfolding ev vars_fields by (rule counted_snoc) (use s in \<open>simp_all add: valuing_def\<close>)
    then show "valuing env s0 es0 index t prior all rest (after (add_marked v)) u"
      using s lawful_mark [OF q] after after(3) [of "add_marked v"] after(2) [of "add_marked v"]
      by (intro valuing_next [OF s u ev]) (simp_all add: valuing_def)
  qed (use prices_okD [OF fine q] in \<open>auto simp: valuing_def intro: follow_mark backed_drawn settle_events_ok\<close>)
  then have "triple (valuing env s0 es0 index t prior all (p # rest) v)
      (abind (write_event env (mark_event p q (mq_observed_at q))) (\<lambda>_. alift (Inr (after (add_marked v)))))
      (valuing env s0 es0 index t prior all rest) (halted env fine s0 (lawful_since index False es0))"
    by (rule triple_write_law) (simp add: valuing_def)
  then show ?thesis using True by (simp add: mark_if_newer_def)
next
  case False
  have "valuing env s0 es0 index t prior all rest (after v) s" if "valuing env s0 es0 index t prior all (p # rest) v s" for s
    by (rule valuing_silent [OF that]) (use after after(3) [of v] in simp_all)
  then show ?thesis using False by (simp add: mark_if_newer_def triple_def alift_def)
qed

lemma value_step:
  assumes "uuid_ok env" and fine: "fine \<Longrightarrow> prices_ok index"
  shows "triple (valuing env s0 es0 index t prior all (p # rest) v) (value_position env index t prior p v)
    (valuing env s0 es0 index t prior all rest) (halted env fine s0 (lawful_since index False es0))"
proof (cases "\<exists>q. quote_for index p = Some q \<and> \<not> mq_observed_at q < prior_evidence prior p")
  case False
  then have "unvalued index t prior p" by (auto simp: unvalued_def split: option.split)
  then have "valuing env s0 es0 index t prior all rest (add_stale v) s"
    if "valuing env s0 es0 index t prior all (p # rest) v s" for s
    by (intro valuing_silent [OF that]) (simp_all add: dealt_with_def)
  then show ?thesis
    using False by (auto simp: value_position_def triple_def alift_def split: option.split)
next
  case True
  then obtain q where q: "quote_for index p = Some q" "\<not> mq_observed_at q < prior_evidence prior p" by blast
  consider (blocked) "pp_due_at p \<le> t \<and> mq_observed_at q < pp_due_at p"
    | (close) "\<not> (pp_due_at p \<le> t \<and> mq_observed_at q < pp_due_at p)" "pp_due_at p \<le> mq_observed_at q"
    | (mark) "\<not> (pp_due_at p \<le> t \<and> mq_observed_at q < pp_due_at p)" "\<not> pp_due_at p \<le> mq_observed_at q"
    by blast
  then show ?thesis
  proof cases
    case blocked
    then have un: "unvalued index t prior p" using q by (simp add: unvalued_def)
    have "triple (valuing env s0 es0 index t prior all (p # rest) v)
        (mark_if_newer env (prior_evidence prior p) p q add_blocked v)
        (valuing env s0 es0 index t prior all rest) (halted env fine s0 (lawful_since index False es0))"
      by (rule mark_if_newer_step [OF assms q(1)]) (simp_all add: un dealt_with_def)
    then show ?thesis using q blocked by (simp add: value_position_def)
  next
    case close
    have un: "\<not> unvalued index t prior p" using q close by (simp add: unvalued_def)
    have "triple (valuing env s0 es0 index t prior all (p # rest) v)
        (abind (write_event env (close_event p q (mq_observed_at q))) (\<lambda>_. alift (Inr (add_closed v))))
        (valuing env s0 es0 index t prior all rest) (aborted env fine s0)"
    proof (rule triple_write [OF assms(1)])
      fix s u i
      assume s: "valuing env s0 es0 index t prior all (p # rest) v s" and u: "grown env s0 u"
        and ev: "entries u = entries s @ [(close_event p q (mq_observed_at q))\<lparr>pe_event_id := i\<rparr>]"
      have "counted (entries s0) (fv_counts (add_closed v)) (entries u)"
        unfolding ev vars_fields by (rule counted_snoc) (use s in \<open>simp_all add: valuing_def\<close>)
      moreover have "pp_position_id p \<in> closed_ids (entries u)"
        unfolding ev by (subst closed_ids_close [of _ "pp_position_id p"]) (use s in \<open>simp_all add: valuing_def backed_def\<close>)
      then have "dealt_with index t prior (add_closed v) u p" using un q close by (simp add: dealt_with_def)
      ultimately show "valuing env s0 es0 index t prior all rest (add_closed v) u"
        using s lawful_close [OF q(1) close(2)] by (intro valuing_next [OF s u ev]) (simp_all add: valuing_def)
    qed (use prices_okD [OF fine q(1)] in \<open>auto simp: valuing_def intro: follow_close backed_drawn settle_events_ok\<close>)
    then have "triple (valuing env s0 es0 index t prior all (p # rest) v)
        (abind (write_event env (close_event p q (mq_observed_at q))) (\<lambda>_. alift (Inr (add_closed v))))
        (valuing env s0 es0 index t prior all rest) (halted env fine s0 (lawful_since index False es0))"
      by (rule triple_write_law) (simp add: valuing_def)
    then show ?thesis using q close by (simp add: value_position_def)
  next
    case mark
    have un: "\<not> unvalued index t prior p" using q mark by (simp add: unvalued_def)
    have "triple (valuing env s0 es0 index t prior all (p # rest) v)
        (mark_if_newer env (prior_evidence prior p) p q (add_fresh p q) v)
        (valuing env s0 es0 index t prior all rest) (halted env fine s0 (lawful_since index False es0))"
      by (rule mark_if_newer_step [OF assms q(1)]) (use un q mark in \<open>simp_all add: dealt_with_def\<close>)
    then show ?thesis using q mark by (simp add: value_position_def)
  qed
qed

lemma value_loop:
  assumes "uuid_ok env" and "fine \<Longrightarrow> prices_ok index"
  shows "triple (valuing env s0 es0 index t prior all ps v) (afold (value_position env index t prior) ps v)
    (valuing env s0 es0 index t prior all []) (halted env fine s0 (lawful_since index False es0))"
  by (rule triple_fold [OF value_step [OF assms]])

section \<open>The second loop\<close>

text \<open>The evidence of the positions that were valued stays in the dictionary.\<close>

definition funding_new ::
  "ledger_env \<Rightarrow> ledger \<Rightarrow> string set \<Rightarrow> portfolio_event list \<Rightarrow> (quote_key \<rightharpoonup> market_quote) \<Rightarrow> (string \<times> time) set
     \<Rightarrow> open_vars \<times> (string \<times> time) list \<Rightarrow> ledger \<Rightarrow> bool" where
  "funding_new env s0 C es0 index A w s \<longleftrightarrow> investing env s0 C (fst w) s \<and> lawful_since index True es0 (entries s)
     \<and> fst ` A \<subseteq> fst ` set (ta_opened (tally_of (entries s)))
     \<and> (\<forall>(k, tm) \<in> A. map_of (snd w) k = Some tm)"

lemma skip_lawful [simp]:
  "lawful index free (skip_event a t r)" "lawful index free (cash_skip_event a t)"
  by (simp_all add: lawful_def)

lemma funding_skip:
  assumes "uuid_ok env" and "e = skip_event a t r \<or> e = cash_skip_event a t"
  shows "triple (funding_new env s0 C es0 index A (v, fresh))
    (abind (write_event env e) (\<lambda>_. alift (Inr (count_skip v, fresh))))
    (funding_new env s0 C es0 index A) (aborted env fine s0)"
proof (rule triple_write [OF assms(1)])
  fix s u i
  assume s: "funding_new env s0 C es0 index A (v, fresh) s" and u: "grown env s0 u"
    and ev: "entries u = entries s @ [e\<lparr>pe_event_id := i\<rparr>]"
  have e: "pe_event_type (e\<lparr>pe_event_id := i\<rparr>) = Skip" "pe_cash_delta_usd (e\<lparr>pe_event_id := i\<rparr>) = 0"
    using assms(2) by auto
  have "counted (entries s0) ((ow_counts v)\<lparr>cc_skipped := Suc (cc_skipped (ow_counts v))\<rparr>) (entries u)"
    unfolding ev by (rule counted_snoc(4) [OF e(1)]) (use s in \<open>simp add: funding_new_def investing_def\<close>)
  moreover have "ld_events u \<noteq> []" using ev by (metis append_is_Nil_conv list.distinct(1) map_is_Nil_conv)
  ultimately have "investing env s0 C (count_skip v) u"
    using s u by (simp add: funding_new_def investing_def count_skip_def ev other_event_tally [OF e])
  moreover have "lawful index True (e\<lparr>pe_event_id := i\<rparr>)" using assms(2) by auto
  then have "lawful_since index True es0 (entries u)"
    using s unfolding ev by (intro lawful_since_snoc) (simp add: funding_new_def)
  moreover have "fst ` A \<subseteq> fst ` set (ta_opened (tally_of (entries u)))"
    unfolding ev by (rule subset_trans [OF _ opened_grow]) (use s in \<open>simp add: funding_new_def\<close>)
  ultimately show "funding_new env s0 C es0 index A (count_skip v, fresh) u" using s by (simp add: funding_new_def)
qed (use assms(2) in \<open>auto simp: funding_new_def investing_def plan_events_ok intro: follow_skip\<close>)

definition evidenced_event :: "resilient_env \<Rightarrow> unified_allocation \<Rightarrow> time \<Rightarrow> string \<Rightarrow> time \<Rightarrow> portfolio_event" where
  "evidenced_event env a t pid due = (opened_event a t pid due)\<lparr>pe_details :=
     pe_details (opened_event a t pid due) @ [(evidence_key, PStr (rv_isoformat env (evidence_at t a)))]\<rparr>"

lemma triple_evidenced:
  assumes "fine \<Longrightarrow> due_fits t a"
    and "\<And>due. triple P (k (evidenced_event env a t pid due)) Q E" and "\<And>s. P s \<Longrightarrow> \<not> fine \<Longrightarrow> E s"
  shows "triple P (abind (alift (evidenced_open_event env a t pid)) k) Q E"
proof (cases "allocation_due t a")
  case (Inl e)
  then have "\<not> fine" using assms(1) due_fitsD [of t a] by auto
  then show ?thesis using assms(3)
    by (simp add: triple_def abind_def alift_def open_event_def evidenced_open_event_def Inl)
next
  case (Inr due)
  have "abind (alift (evidenced_open_event env a t pid)) k = k (evidenced_event env a t pid due)"
    by (simp add: abind_def alift_def open_event_def evidenced_open_event_def evidenced_event_def Inr fun_eq_iff)
  then show ?thesis using assms(2) by simp
qed

definition funding_under ::
  "ledger_env \<Rightarrow> ledger \<Rightarrow> string set \<Rightarrow> portfolio_event list \<Rightarrow> (quote_key \<rightharpoonup> market_quote) \<Rightarrow> (string \<times> time) set
     \<Rightarrow> open_vars \<Rightarrow> (string \<times> time) list \<Rightarrow> string \<Rightarrow> ledger \<Rightarrow> bool" where
  "funding_under env s0 C es0 index A v fresh pid s \<longleftrightarrow>
     opening_under env s0 C v pid s \<and> funding_new env s0 C es0 index A (v, fresh) s"

lemma draw_funding:
  assumes "uuid_ok env"
  shows "triple (funding_new env s0 C es0 index A (v, fresh)) (draw_uuid env)
    (funding_under env s0 C es0 index A v fresh) E"
proof (rule tripleI)
  fix s assume s: "funding_new env s0 C es0 index A (v, fresh) s"
  then have "case draw_uuid env s of (Inr i, t) \<Rightarrow> opening_under env s0 C v i t | (Inl e, t) \<Rightarrow> E t"
    using draw_opening [OF assms, of s0 C v E] by (simp add: triple_def funding_new_def)
  then show "case draw_uuid env s of (Inr i, t) \<Rightarrow> funding_under env s0 C es0 index A v fresh i t | (Inl e, t) \<Rightarrow> E t"
    using s by (auto simp: draw_uuid_def funding_under_def funding_new_def opening_under_def)
qed

definition funding_stopped ::
  "ledger_env \<Rightarrow> bool \<Rightarrow> ledger \<Rightarrow> portfolio_event list \<Rightarrow> (quote_key \<rightharpoonup> market_quote) \<Rightarrow> ledger \<Rightarrow> bool" where
  "funding_stopped env fine s0 es0 index = halted env fine s0 (lawful_since index True es0)"

lemma funding_new_stopped: "funding_new env s0 C es0 index A w s \<Longrightarrow> \<not> fine \<Longrightarrow> funding_stopped env fine s0 es0 index s"
  by (simp add: funding_new_def funding_stopped_def halted_def aborted_def investing_def)

lemma funding_open:
  assumes "uuid_ok (rv_ledger env)" and valid: "valid_allocation a" and complete: "complete_open (opened_event a t pid due)"
    and key: "first_venue a = Some vn" "ua_instrument_symbol a = Some sb" "(vn, sb) \<notin> ow_open_keys v"
    and cash: "\<not> ua_capital_required_usd a > ow_remaining_cash v + 1 / 10 ^ 9"
  shows "triple (funding_under (rv_ledger env) s0 C es0 index A v fresh pid)
    (abind (write_event (rv_ledger env) (evidenced_event env a t pid due)) (\<lambda>_.
       alift (Inr (taken v (vn, sb) (ua_capital_required_usd a), AList.update pid (evidence_at t a) fresh))))
    (funding_new (rv_ledger env) s0 C es0 index A) (aborted (rv_ledger env) fine s0)"
  unfolding funding_under_def
proof (rule write_open_as [OF assms(1-7) evidenced_event_def])
  fix s u i
  let ?e = "evidenced_event env a t pid due"
  assume under: "opening_under (rv_ledger env) s0 C v pid s" and s: "funding_new (rv_ledger env) s0 C es0 index A (v, fresh) s"
    and inv: "investing (rv_ledger env) s0 C (taken v (vn, sb) (ua_capital_required_usd a)) u"
    and ev: "entries u = entries s @ [?e\<lparr>pe_event_id := i\<rparr>]"
  have "lawful index True ?e" by (simp add: lawful_def evidenced_event_def)
  then have "lawful_since index True es0 (entries u)"
    using s unfolding ev by (intro lawful_since_snoc) (simp_all add: funding_new_def)
  moreover have "fst ` A \<subseteq> fst ` set (ta_opened (tally_of (entries u)))"
    unfolding ev by (rule subset_trans [OF _ opened_grow]) (use s in \<open>simp add: funding_new_def\<close>)
  moreover have "pid \<notin> fst ` A" using under s by (auto simp: opening_under_def funding_new_def)
  then have "\<forall>(k, tm) \<in> A. map_of (AList.update pid (evidence_at t a) fresh) k = Some tm"
    using s by (force simp: funding_new_def update_conv')
  ultimately show "funding_new (rv_ledger env) s0 C es0 index A
      (taken v (vn, sb) (ua_capital_required_usd a), AList.update pid (evidence_at t a) fresh) u"
    using inv by (simp add: funding_new_def)
qed

lemma funding_dated:
  assumes "uuid_ok (rv_ledger env)" and "valid_allocation a" and complete: "\<And>due. complete_open (opened_event a t pid due)"
    and key: "first_venue a = Some vn" "ua_instrument_symbol a = Some sb" "(vn, sb) \<notin> ow_open_keys v"
    and cash: "\<not> ua_capital_required_usd a > ow_remaining_cash v + 1 / 10 ^ 9"
    and dated: "fine \<Longrightarrow> due_fits t a"
  shows "triple (funding_under (rv_ledger env) s0 C es0 index A v fresh pid)
    (abind (alift (evidenced_open_event env a t pid)) (\<lambda>e. abind (write_event (rv_ledger env) e) (\<lambda>_.
       alift (Inr (taken v (vn, sb) (ua_capital_required_usd a), AList.update pid (evidence_at t a) fresh)))))
    (funding_new (rv_ledger env) s0 C es0 index A) (funding_stopped (rv_ledger env) fine s0 es0 index)"
proof (rule triple_evidenced [OF dated])
  fix due
  show "triple (funding_under (rv_ledger env) s0 C es0 index A v fresh pid)
    (abind (write_event (rv_ledger env) (evidenced_event env a t pid due)) (\<lambda>_.
       alift (Inr (taken v (vn, sb) (ua_capital_required_usd a), AList.update pid (evidence_at t a) fresh))))
    (funding_new (rv_ledger env) s0 C es0 index A) (funding_stopped (rv_ledger env) fine s0 es0 index)"
    unfolding funding_stopped_def
    by (rule triple_write_law [OF funding_open [OF assms(1,2) complete key cash]])
      (simp add: funding_under_def funding_new_def)
qed (auto simp: funding_under_def intro: funding_new_stopped)

lemma funding_skip_law:
  assumes "uuid_ok env" and "e = skip_event a t r \<or> e = cash_skip_event a t"
  shows "triple (funding_new env s0 C es0 index A (v, fresh))
    (abind (write_event env e) (\<lambda>_. alift (Inr (count_skip v, fresh))))
    (funding_new env s0 C es0 index A) (funding_stopped env fine s0 es0 index)"
  unfolding funding_stopped_def
  by (rule triple_write_law [OF funding_skip [OF assms]]) (simp add: funding_new_def)

lemma evidenced_step:
  assumes "uuid_ok (rv_ledger env)" and "valid_allocation a" and dated: "fine \<Longrightarrow> due_fits t a"
  shows "triple (funding_new (rv_ledger env) s0 C es0 index A w) (open_evidenced env t a w)
    (funding_new (rv_ledger env) s0 C es0 index A) (funding_stopped (rv_ledger env) fine s0 es0 index)"
proof -
  obtain v fresh where w: "w = (v, fresh)" by fastforce
  obtain b r where sr: "support_reason a = (b, r)" by fastforce
  have skipped: "triple (funding_new (rv_ledger env) s0 C es0 index A (v, fresh))
      (abind (write_event (rv_ledger env) (skip_event a t q)) (\<lambda>_. alift (Inr (count_skip v, fresh))))
      (funding_new (rv_ledger env) s0 C es0 index A) (funding_stopped (rv_ledger env) fine s0 es0 index)" for q
    by (rule funding_skip_law [OF assms(1), where a = a and t = t and r = q]) simp
  have poor: "triple (funding_new (rv_ledger env) s0 C es0 index A (v, fresh))
      (abind (write_event (rv_ledger env) (cash_skip_event a t)) (\<lambda>_. alift (Inr (count_skip v, fresh))))
      (funding_new (rv_ledger env) s0 C es0 index A) (funding_stopped (rv_ledger env) fine s0 es0 index)"
    by (rule funding_skip_law [OF assms(1), where a = a and t = t and r = None]) simp
  show ?thesis
  proof (cases b)
    case False
    then show ?thesis using skipped by (simp add: open_evidenced_def w sr Let_def)
  next
    case True
    then have "complete_open (opened_event a t pid due)" for pid due using sr assms(2)
      by (auto simp: valid_allocation_def intro: supported_complete)
    note opened = triple_bind [OF draw_funding [OF assms(1)] funding_dated [where fine = fine, OF assms(1,2) this _ _ _ _ dated]]
    obtain vn sb where vs: "first_venue a = Some vn" "ua_instrument_symbol a = Some sb"
      using sr True by (auto simp: support_reason_def truthy_def length_Suc_conv first_venue_def
          split: if_splits option.splits)
    show ?thesis
      unfolding open_evidenced_def w sr using True
      by (simp add: vs Let_def skipped poor opened [OF vs, unfolded taken_def])
  qed
qed

lemma evidenced_loop:
  assumes "uuid_ok (rv_ledger env)" and "list_all valid_allocation as"
    and "fine \<Longrightarrow> list_all (due_fits t) as"
  shows "triple (funding_new (rv_ledger env) s0 C es0 index A w) (afold (open_evidenced env t) as w)
    (funding_new (rv_ledger env) s0 C es0 index A) (funding_stopped (rv_ledger env) fine s0 es0 index)"
  using assms(2,3)
proof (induction as arbitrary: w)
  case Nil
  then show ?case by (simp add: triple_def alift_def)
next
  case (Cons a as)
  then have "valid_allocation a" by auto
  show ?case unfolding afold.simps
    by (rule triple_bind [OF evidenced_step [OF assms(1) \<open>valid_allocation a\<close>]]) (use Cons in auto)
qed

end
