(* ===== verification/Resilient_Run.thy ===== *)
theory Resilient_Run
  imports Resilient_Loops
begin

text \<open>
  The resilient cycle as a whole: the integrity table keeps its own chain, no operation takes back
  a uuid, and what a cycle leaves is stated once for each of its stages.
\<close>

section \<open>The integrity table\<close>

fun integrity_chained :: "resilient_env \<Rightarrow> string option \<Rightarrow> integrity_row list \<Rightarrow> bool" where
  "integrity_chained env previous [] = True"
| "integrity_chained env previous (r # rs) = (ir_previous_lineage_hash r = previous
     \<and> ir_lineage_hash r = integrity_lineage env previous (ir_snapshot r)
     \<and> integrity_chained env (Some (ir_lineage_hash r)) rs)"

definition integrity_last :: "string option \<Rightarrow> integrity_row list \<Rightarrow> string option" where
  "integrity_last previous rs = (if rs = [] then previous else Some (ir_lineage_hash (last rs)))"

lemma integrity_chained_snoc:
  "integrity_chained env p (rs @ [r]) \<longleftrightarrow> integrity_chained env p rs
     \<and> ir_previous_lineage_hash r = integrity_last p rs
     \<and> ir_lineage_hash r = integrity_lineage env (integrity_last p rs) (ir_snapshot r)"
  by (induction rs arbitrary: p) (auto simp: integrity_last_def)

text \<open>The rows are chained, of this portfolio, and under ids that were drawn.\<close>

definition integrity_ok :: "resilient_env \<Rightarrow> string set \<Rightarrow> integrity_row list \<Rightarrow> bool" where
  "integrity_ok env D rs \<longleftrightarrow> integrity_chained env None rs
     \<and> list_all (\<lambda>r. ig_portfolio_id (ir_snapshot r) = portfolio_id \<and> ig_integrity_id (ir_snapshot r) \<in> D
         \<and> ig_paper_only (ir_snapshot r) \<and> \<not> ig_live_execution_authority (ir_snapshot r)) rs"

definition acct :: "resilient_env \<Rightarrow> (integrity_row list \<Rightarrow> bool) \<Rightarrow> account \<Rightarrow> bool" where
  "acct env R s \<longleftrightarrow> R (at_integrity s)
     \<and> integrity_ok env (drawn_ids (rv_ledger env) (at_ledger s)) (at_integrity s)"

lemma integrity_ok_mono: "integrity_ok env D rs \<Longrightarrow> D \<subseteq> D' \<Longrightarrow> integrity_ok env D' rs"
  by (fastforce simp: integrity_ok_def list_all_iff)

lemma acct_rows: "acct env R s \<Longrightarrow> canonical_rows s = at_integrity s"
  by (simp add: acct_def integrity_ok_def canonical_rows_def list_all_iff filter_id_conv)

lemma acct_last: "acct env R s \<Longrightarrow> last_integrity_hash s = integrity_last None (at_integrity s)"
  by (cases "at_integrity s" rule: rev_cases) (simp_all add: last_integrity_hash_def acct_rows integrity_last_def)

definition latest_of :: "integrity_row list \<Rightarrow> integrity_snapshot option" where
  "latest_of rs = (if rs = [] then None else Some (ir_snapshot (last rs)))"

lemma acct_latest: "acct env R s \<Longrightarrow> latest_integrity s = latest_of (at_integrity s)"
  by (cases "at_integrity s" rule: rev_cases) (simp_all add: latest_integrity_def acct_rows latest_of_def)

text \<open>Writing a snapshot appends one row, under a fresh id.\<close>

definition paper_integrity :: "integrity_snapshot \<Rightarrow> bool" where
  "paper_integrity i \<longleftrightarrow> ig_portfolio_id i = portfolio_id \<and> ig_paper_only i \<and> \<not> ig_live_execution_authority i"

lemma write_integrity_run:
  assumes "uuid_ok (rv_ledger env)" and "acct env R s" and "paper_integrity i"
  obtains k h where "write_integrity env i s = (Inr k, s\<lparr>at_ledger := (at_ledger s)\<lparr>ld_drawn := Suc (ld_drawn (at_ledger s))\<rparr>,
      at_integrity := at_integrity s @ [\<lparr>ir_snapshot = i\<lparr>ig_integrity_id := k\<rparr>,
        ir_previous_lineage_hash = integrity_last None (at_integrity s), ir_lineage_hash = h\<rparr>]\<rparr>)"
    and "acct env (\<lambda>rs. \<exists>r. rs = at_integrity s @ [r] \<and> ir_snapshot r = i\<lparr>ig_integrity_id := k\<rparr>) (snd (write_integrity env i s))"
proof -
  let ?le = "rv_ledger env" and ?l = "at_ledger s"
  let ?k = "en_uuid ?le (ld_drawn ?l)" and ?l' = "?l\<lparr>ld_drawn := Suc (ld_drawn ?l)\<rparr>"
  let ?j = "i\<lparr>ig_integrity_id := ?k\<rparr>" and ?p = "integrity_last None (at_integrity s)"
  let ?row = "\<lparr>ir_snapshot = ?j, ir_previous_lineage_hash = ?p, ir_lineage_hash = integrity_lineage env ?p ?j\<rparr>"
  have "?k \<notin> drawn_ids ?le ?l" using assms(1) by (auto simp: drawn_ids_def uuid_ok_def dest: injD)
  then have new: "?k \<notin> ig_integrity_id ` ir_snapshot ` set (at_integrity s)"
    using assms(2) by (auto simp: acct_def integrity_ok_def list_all_iff)
  have same: "last_integrity_hash (s\<lparr>at_ledger := ?l'\<rparr>) = ?p"
    using acct_last [OF assms(2)] by (simp add: last_integrity_hash_def canonical_rows_def)
  have run: "write_integrity env i s = (Inr ?k, s\<lparr>at_ledger := ?l', at_integrity := at_integrity s @ [?row]\<rparr>)"
    using new assms(3)
    by (simp add: write_integrity_def abind_def on_ledger_def draw_uuid_def record_integrity_def same paper_integrity_def)
  have "drawn_ids ?le ?l \<subseteq> drawn_ids ?le ?l'" by (auto simp: drawn_ids_def)
  then have "integrity_ok env (drawn_ids ?le ?l') (at_integrity s)"
    using assms(2) by (auto simp: acct_def intro: integrity_ok_mono)
  moreover have "?k \<in> drawn_ids ?le ?l'" by (auto simp: drawn_ids_def)
  ultimately have "integrity_ok env (drawn_ids ?le ?l') (at_integrity s @ [?row])"
    using assms(3) by (simp add: integrity_ok_def integrity_chained_snoc paper_integrity_def)
  then show ?thesis by (intro that [OF run]) (simp add: run acct_def)
qed

section \<open>Actions of the ledger, in the account\<close>

definition forward :: "'a act \<Rightarrow> bool" where
  "forward m \<longleftrightarrow> (\<forall>s. ld_drawn s \<le> ld_drawn (snd (m s)))"

named_theorems forward_intros

lemma forward_bind [forward_intros]:
  assumes "forward m" and "\<And>x. forward (f x)"
  shows "forward (abind m f)"
proof -
  have "ld_drawn s \<le> ld_drawn (snd (abind m f s))" for s
  proof -
    obtain r t where run: "m s = (r, t)" by fastforce
    then have st: "ld_drawn s \<le> ld_drawn t" using assms(1) by (metis forward_def snd_conv)
    show ?thesis
    proof (cases r)
      case (Inl e)
      then show ?thesis using st by (simp add: abind_def run)
    next
      case (Inr x)
      have "ld_drawn t \<le> ld_drawn (snd (f x t))" using assms(2) by (simp add: forward_def)
      then show ?thesis using st Inr by (simp add: abind_def run)
    qed
  qed
  then show ?thesis by (simp add: forward_def)
qed

lemma forward_lift [forward_intros]: "forward (alift r)"
  by (simp add: forward_def alift_def)

lemma forward_fold [forward_intros]:
  assumes "\<And>x c. forward (f x c)"
  shows "forward (afold f xs c)"
proof (induction xs arbitrary: c)
  case Nil
  then show ?case by (simp add: forward_lift)
next
  case (Cons x xs)
  show ?case unfolding afold.simps by (rule forward_bind [OF assms Cons.IH])
qed

lemma forward_draw [forward_intros]: "forward (draw_uuid env)"
  by (simp add: forward_def draw_uuid_def)

lemma forward_record [forward_intros]: "forward (record_event env e)" "forward (record_snapshot env p)"
  by (simp_all add: forward_def record_event_def record_snapshot_def Let_def)

lemma forward_write [forward_intros]: "forward (new_event env e)" "forward (write_event env e)"
  unfolding write_event_def new_event_def by (intro forward_intros)+

lemma forward_at: "(\<And>s. ld_drawn s \<le> ld_drawn (snd (m s))) \<Longrightarrow> forward m"
  by (simp add: forward_def)

lemma forward_genesis [forward_intros]: "forward (ensure_genesis env ob)"
proof (rule forward_at)
  fix s
  have "forward (abind (new_event env e) (\<lambda>e. abind (record_event env e) (\<lambda>_. alift (Inr e))))" for e
    by (intro forward_intros)
  then show "ld_drawn s \<le> ld_drawn (snd (ensure_genesis env ob s))"
    by (auto simp: forward_def ensure_genesis_def split: list.split)
qed

lemma forward_state [forward_intros]: "forward (current_state env ob)"
proof -
  have "forward (\<lambda>s. (g s, s))" for g :: "ledger \<Rightarrow> portfolio_snapshot result" by (simp add: forward_def)
  then show ?thesis unfolding current_state_def by (intro forward_intros)
qed

lemma forward_value [forward_intros]: "forward (value_position env index t prior p v)"
  unfolding value_position_def mark_if_newer_def
  by (auto split: option.split intro!: forward_intros)

lemma forward_open [forward_intros]: "forward (open_evidenced env t a w)"
  unfolding open_evidenced_def Let_def
  by (auto split: prod.split option.split intro!: forward_intros)

lemma triple_on_ledger:
  assumes "triple P m Q E" and "forward m"
  shows "triple (\<lambda>s. P (at_ledger s) \<and> acct env R s) (on_ledger m)
    (\<lambda>x s. Q x (at_ledger s) \<and> acct env R s) (\<lambda>s. E (at_ledger s) \<and> acct env R s)"
proof (rule tripleI, elim conjE)
  fix s assume P: "P (at_ledger s)" and a: "acct env R s"
  obtain r l where run: "m (at_ledger s) = (r, l)" by fastforce
  have "ld_drawn (at_ledger s) \<le> ld_drawn l" using assms(2) run unfolding forward_def by (metis snd_conv)
  then have "acct env R (s\<lparr>at_ledger := l\<rparr>)"
    using a by (auto simp: acct_def intro: integrity_ok_mono [OF _ drawn_ids_mono])
  moreover have "case (r, l) of (Inr x, t) \<Rightarrow> Q x t | (Inl e, t) \<Rightarrow> E t"
    using assms(1) P run unfolding triple_def by metis
  ultimately show "case on_ledger m s of (Inr x, t) \<Rightarrow> Q x (at_ledger t) \<and> acct env R t
      | (Inl e, t) \<Rightarrow> E (at_ledger t) \<and> acct env R t"
    by (simp add: on_ledger_def run split: sum.splits)
qed

lemma triple_write_integrity:
  assumes "uuid_ok (rv_ledger env)" and "paper_integrity i"
    and "\<And>l. P l \<Longrightarrow> P (l\<lparr>ld_drawn := Suc (ld_drawn l)\<rparr>)"
  shows "triple (\<lambda>s. P (at_ledger s) \<and> acct env (\<lambda>rs. rs = I) s) (write_integrity env i)
    (\<lambda>k s. P (at_ledger s) \<and> acct env (\<lambda>rs. \<exists>r. rs = I @ [r] \<and> ir_snapshot r = i\<lparr>ig_integrity_id := k\<rparr>) s) E"
proof (rule tripleI, elim conjE)
  fix s assume P: "P (at_ledger s)" and a: "acct env (\<lambda>rs. rs = I) s"
  have I: "at_integrity s = I" using a by (simp add: acct_def)
  obtain k h where w: "write_integrity env i s = (Inr k, s\<lparr>at_ledger := (at_ledger s)\<lparr>ld_drawn := Suc (ld_drawn (at_ledger s))\<rparr>,
      at_integrity := at_integrity s @ [\<lparr>ir_snapshot = i\<lparr>ig_integrity_id := k\<rparr>,
        ir_previous_lineage_hash = integrity_last None (at_integrity s), ir_lineage_hash = h\<rparr>]\<rparr>)"
    and acct: "acct env (\<lambda>rs. \<exists>r. rs = at_integrity s @ [r] \<and> ir_snapshot r = i\<lparr>ig_integrity_id := k\<rparr>)
      (snd (write_integrity env i s))"
    by (rule write_integrity_run [OF assms(1) a assms(2)])
  show "case write_integrity env i s of (Inr k, t) \<Rightarrow> P (at_ledger t)
        \<and> acct env (\<lambda>rs. \<exists>r. rs = I @ [r] \<and> ir_snapshot r = i\<lparr>ig_integrity_id := k\<rparr>) t | (Inl e, t) \<Rightarrow> E t"
    using acct assms(3) [OF P] unfolding w I by simp
qed

end
