(* ===== verification/Resilient_Cycle.thy ===== *)
theory Resilient_Cycle
  imports Resilient_Run
begin

text \<open>What each stage of the resilient cycle leaves, and the cycle as a triple over the account.\<close>

section \<open>After the first loop\<close>

definition settled_ids ::
  "(quote_key \<rightharpoonup> market_quote) \<Rightarrow> time \<Rightarrow> (string \<rightharpoonup> time) \<Rightarrow> paper_position list \<Rightarrow> string set" where
  "settled_ids index t prior ps = {pp_position_id p | p. p \<in> set ps \<and> \<not> unvalued index t prior p
     \<and> (\<exists>q. quote_for index p = Some q \<and> pp_due_at p \<le> mq_observed_at q)}"

definition valued_pairs ::
  "(quote_key \<rightharpoonup> market_quote) \<Rightarrow> time \<Rightarrow> (string \<rightharpoonup> time) \<Rightarrow> paper_position list \<Rightarrow> (string \<times> time) set" where
  "valued_pairs index t prior ps = {(pp_position_id p, mq_observed_at q) | p q. p \<in> set ps
     \<and> \<not> unvalued index t prior p \<and> quote_for index p = Some q \<and> \<not> pp_due_at p \<le> mq_observed_at q}"

definition all_valued ::
  "(quote_key \<rightharpoonup> market_quote) \<Rightarrow> time \<Rightarrow> (string \<rightharpoonup> time) \<Rightarrow> paper_position list \<Rightarrow> bool" where
  "all_valued index t prior ps \<longleftrightarrow> (\<forall>p \<in> set ps. \<not> unvalued index t prior p)"

definition valued_ledger ::
  "ledger_env \<Rightarrow> ledger \<Rightarrow> (quote_key \<rightharpoonup> market_quote) \<Rightarrow> time \<Rightarrow> (string \<rightharpoonup> time) \<Rightarrow> paper_position list
     \<Rightarrow> fresh_vars \<Rightarrow> ledger \<Rightarrow> bool" where
  "valued_ledger env l0 index t prior ps v l \<longleftrightarrow> grown env l0 l \<and> ld_events l \<noteq> []
     \<and> counted (entries l0) (fv_counts v) (entries l) \<and> cc_opened (fv_counts v) = 0
     \<and> lawful_since index False (entries l0) (entries l)
     \<and> settled_ids index t prior ps \<subseteq> closed_ids (entries l)
     \<and> fst ` valued_pairs index t prior ps \<subseteq> fst ` set (ta_opened (tally_of (entries l)))
     \<and> (\<forall>(k, tm) \<in> valued_pairs index t prior ps. map_of (fv_fresh v) k = Some tm)
     \<and> (fv_stale v = 0 \<longleftrightarrow> all_valued index t prior ps)"

lemma valuing_ends:
  assumes "valuing env l0 (entries l0) index t prior ps [] v l"
  shows "valued_ledger env l0 index t prior ps v l"
proof -
  have d: "dealt_with index t prior v l p" if "p \<in> set ps" for p using assms that by (simp add: valuing_def)
  have "settled_ids index t prior ps \<subseteq> closed_ids (entries l)"
    using d by (fastforce simp: settled_ids_def dealt_with_def)
  moreover have "\<forall>(k, tm) \<in> valued_pairs index t prior ps. map_of (fv_fresh v) k = Some tm"
    using d by (fastforce simp: valued_pairs_def dealt_with_def)
  moreover have "fst ` valued_pairs index t prior ps \<subseteq> pp_position_id ` set ps"
    by (force simp: valued_pairs_def)
  then have "fst ` valued_pairs index t prior ps \<subseteq> fst ` set (ta_opened (tally_of (entries l)))"
    by (rule subset_trans) (use assms in \<open>simp add: valuing_def\<close>)
  moreover have "fv_stale v = 0 \<longleftrightarrow> all_valued index t prior ps"
    using d assms by (fastforce simp: all_valued_def dealt_with_def valuing_def)
  ultimately show ?thesis using assms unfolding valued_ledger_def valuing_def by blast
qed

lemma valued_ledger_drawn:
  assumes "valued_ledger env l0 index t prior ps v l"
  shows "valued_ledger env l0 index t prior ps v (l\<lparr>ld_drawn := Suc (ld_drawn l)\<rparr>)"
proof -
  have "grown env l0 (l\<lparr>ld_drawn := Suc (ld_drawn l)\<rparr>)"
    using assms ledger_ok_drawn [of env l "Suc (ld_drawn l)"]
    by (auto simp: valued_ledger_def grown_def extends_def)
  then show ?thesis using assms by (simp add: valued_ledger_def)
qed

section \<open>After the allocation stage\<close>

definition deployed_ledger ::
  "ledger_env \<Rightarrow> ledger \<Rightarrow> (quote_key \<rightharpoonup> market_quote) \<Rightarrow> time \<Rightarrow> (string \<rightharpoonup> time) \<Rightarrow> paper_position list
     \<Rightarrow> fresh_vars \<Rightarrow> deployed \<Rightarrow> ledger \<Rightarrow> bool" where
  "deployed_ledger env l0 index t prior ps v d l \<longleftrightarrow> grown env l0 l \<and> ld_events l \<noteq> []
     \<and> counted (entries l0) (dp_counts d) (entries l)
     \<and> lawful_since index (all_valued index t prior ps) (entries l0) (entries l)
     \<and> settled_ids index t prior ps \<subseteq> closed_ids (entries l)
     \<and> (\<forall>(k, tm) \<in> valued_pairs index t prior ps. map_of (dp_fresh d) k = Some tm)
     \<and> (fv_stale v = 0 \<longleftrightarrow> all_valued index t prior ps)
     \<and> (0 < cc_opened (dp_counts d) \<longrightarrow> spendable (ta_cash (tally_of (entries l))))"

definition stage_valid :: "allocation_stage \<Rightarrow> bool" where
  "stage_valid stage \<longleftrightarrow> (\<forall>capital plan. sg_ends stage capital = Returned plan
     \<longrightarrow> list_all valid_allocation (up_allocations plan))"

text \<open>Every due time of a plan that the allocator returns is a date.\<close>

definition stage_dated :: "allocation_stage \<Rightarrow> bool" where
  "stage_dated stage \<longleftrightarrow> (\<forall>capital plan. sg_ends stage capital = Returned plan
     \<longrightarrow> list_all (due_fits (up_observed_at plan)) (up_allocations plan))"

text \<open>What a stage that raises leaves: the funding loop is entered when every position was valued.\<close>

definition deploy_stopped ::
  "resilient_env \<Rightarrow> bool \<Rightarrow> ledger \<Rightarrow> (quote_key \<rightharpoonup> market_quote) \<Rightarrow> time \<Rightarrow> (string \<rightharpoonup> time) \<Rightarrow> paper_position list
     \<Rightarrow> (integrity_row list \<Rightarrow> bool) \<Rightarrow> account \<Rightarrow> bool" where
  "deploy_stopped env fine l0 index t prior ps R s \<longleftrightarrow> all_valued index t prior ps
     \<and> funding_stopped (rv_ledger env) fine l0 (entries l0) index (at_ledger s) \<and> acct env R s"

text \<open>The bounded stage always answers, touches neither table, and any plan is the allocator's.\<close>

lemma bounded_plan_answers:
  "\<exists>plan failed s'. bounded_allocation_plan stage capital s = (Inr (plan, failed), s')
     \<and> at_ledger s' = at_ledger s \<and> at_integrity s' = at_integrity s
     \<and> (plan = None \<longleftrightarrow> failed \<noteq> None) \<and> (\<forall>p. plan = Some p \<longrightarrow> sg_ends stage capital = Returned p)"
  by (auto simp: bounded_allocation_plan_def split: stage_end.split)

lemma acct_same: "at_ledger s' = at_ledger s \<Longrightarrow> at_integrity s' = at_integrity s \<Longrightarrow> acct env R s' = acct env R s"
  by (simp add: acct_def)

lemma lawful_since_law: "lawful_since index False es0 es \<Longrightarrow> lawful_since index free es0 es"
  using lawful_since_free [of index False es0 es] by (cases free) auto

lemma deploy_deploys:
  assumes "uuid_ok (rv_ledger env)" and "stage_valid stage" and "fine \<Longrightarrow> stage_dated stage"
  shows "triple (\<lambda>s. (valued_ledger (rv_ledger env) l0 index t prior ps v (at_ledger s)
        \<and> ps_cash_usd after = ta_cash (tally_of (entries (at_ledger s)))
        \<and> set (live_keys (tally_of (entries (at_ledger s)))) = set (map position_key (ps_positions after)))
        \<and> acct env R s)
    (deploy env stage after v)
    (\<lambda>d s. deployed_ledger (rv_ledger env) l0 index t prior ps v d (at_ledger s) \<and> acct env R s)
    (deploy_stopped env fine l0 index t prior ps R)"
proof (rule tripleI)
  let ?le = "rv_ledger env" and ?cash = "max 0 (ps_cash_usd after)" and ?A = "valued_pairs index t prior ps"
  let ?none = "\<lparr>dp_counts = fv_counts v, dp_fresh = fv_fresh v, dp_error_type = hold_reason v, dp_failures = []\<rparr>"
  fix s
  assume s: "(valued_ledger ?le l0 index t prior ps v (at_ledger s)
      \<and> ps_cash_usd after = ta_cash (tally_of (entries (at_ledger s)))
      \<and> set (live_keys (tally_of (entries (at_ledger s)))) = set (map position_key (ps_positions after))) \<and> acct env R s"
  have kept: "deployed_ledger ?le l0 index t prior ps v d (at_ledger s)"
    if "dp_counts d = fv_counts v" "dp_fresh d = fv_fresh v" for d
    using s that lawful_since_law by (auto simp: valued_ledger_def deployed_ledger_def)
  show "case deploy env stage after v s of
      (Inr d, s') \<Rightarrow> deployed_ledger ?le l0 index t prior ps v d (at_ledger s') \<and> acct env R s'
    | (Inl e, s') \<Rightarrow> deploy_stopped env fine l0 index t prior ps R s'"
  proof (cases "0 < ?cash \<and> fv_stale v = 0")
    case False
    then show ?thesis using s kept [of ?none] by (auto simp: deploy_def alift_def Let_def)
  next
    case True
    then have cash: "?cash = ps_cash_usd after" "0 < ps_cash_usd after" by auto
    obtain plan failed s' where b: "bounded_allocation_plan stage ?cash s = (Inr (plan, failed), s')"
        "at_ledger s' = at_ledger s" "at_integrity s' = at_integrity s"
        "plan = None \<longleftrightarrow> failed \<noteq> None" "\<forall>p. plan = Some p \<longrightarrow> sg_ends stage ?cash = Returned p"
      using bounded_plan_answers [of stage ?cash s] by blast
    have a: "acct env R s'" using s acct_same [OF b(2,3)] by simp
    show ?thesis
    proof (cases plan)
      case None
      then obtain name where "failed = Some name" using b(4) by auto
      then show ?thesis
        using True None a kept [of "?none\<lparr>dp_error_type := Some name, dp_failures := [stage_failure name]\<rparr>"]
        by (simp add: deploy_def b(1) abind_def alift_def Let_def b(2))
    next
      case (Some p)
      then have failed: "failed = None" and ends: "sg_ends stage ?cash = Returned p" using b(4,5) by auto
      have valid: "list_all valid_allocation (up_allocations p)"
        using assms(2) ends unfolding stage_valid_def by blast
      have dated: "fine \<Longrightarrow> list_all (due_fits (up_observed_at p)) (up_allocations p)"
        using assms(3) ends unfolding stage_dated_def by blast
      let ?v0 = "\<lparr>ow_remaining_cash = ?cash, ow_open_keys = set (map position_key (ps_positions after)),
          ow_counts = fv_counts v\<rparr>"
      let ?C = "settled_ids index t prior ps"
      have start: "funding_new ?le l0 ?C (entries l0) index ?A (?v0, fv_fresh v) (at_ledger s')"
        using s cash lawful_since_free
        by (auto simp: b(2) funding_new_def investing_def valued_ledger_def spendable_def)
      have "forward (afold (open_evidenced env (up_observed_at p)) (up_allocations p) (?v0, fv_fresh v))"
        by (intro forward_intros)
      moreover have "triple (funding_new ?le l0 ?C (entries l0) index ?A w)
          (afold (open_evidenced env (up_observed_at p)) (up_allocations p) w)
          (funding_new ?le l0 ?C (entries l0) index ?A) (funding_stopped ?le fine l0 (entries l0) index)" for w
        by (rule evidenced_loop [OF assms(1) valid dated])
      ultimately have onl: "triple (\<lambda>s. funding_new ?le l0 ?C (entries l0) index ?A (?v0, fv_fresh v) (at_ledger s) \<and> acct env R s)
          (on_ledger (afold (open_evidenced env (up_observed_at p)) (up_allocations p) (?v0, fv_fresh v)))
          (\<lambda>w s. funding_new ?le l0 ?C (entries l0) index ?A w (at_ledger s) \<and> acct env R s)
          (\<lambda>s. funding_stopped ?le fine l0 (entries l0) index (at_ledger s) \<and> acct env R s)"
        by (intro triple_on_ledger)
      have loop: "case on_ledger (afold (open_evidenced env (up_observed_at p)) (up_allocations p) (?v0, fv_fresh v)) s' of
          (Inr w, u) \<Rightarrow> funding_new ?le l0 ?C (entries l0) index ?A w (at_ledger u) \<and> acct env R u
        | (Inl e, u) \<Rightarrow> funding_stopped ?le fine l0 (entries l0) index (at_ledger u) \<and> acct env R u"
        using onl start a by (simp add: triple_def)
      have valued: "all_valued index t prior ps" using s True by (simp add: valued_ledger_def)
      obtain r u where ru: "on_ledger (afold (open_evidenced env (up_observed_at p)) (up_allocations p)
            (?v0, fv_fresh v)) s' = (r, u)" by fastforce
      show ?thesis
      proof (cases r)
        case (Inl e)
        then show ?thesis
          using True loop valued ru by (simp add: deploy_def b(1) abind_def alift_def Let_def Some failed deploy_stopped_def)
      next
      case (Inr wf)
      obtain w fresh where run: "on_ledger (afold (open_evidenced env (up_observed_at p)) (up_allocations p)
            (?v0, fv_fresh v)) s' = (Inr (w, fresh), u)"
          and fn: "funding_new ?le l0 ?C (entries l0) index ?A (w, fresh) (at_ledger u)" and au: "acct env R u"
        using loop ru Inr by (cases wf) simp
      have "deployed_ledger ?le l0 index t prior ps v (?none\<lparr>dp_counts := ow_counts w, dp_fresh := fresh,
          dp_failures := up_family_failures p\<rparr>) (at_ledger u)"
        using fn s True by (simp add: deployed_ledger_def funding_new_def investing_def valued_ledger_def)
      then show ?thesis
        using True au by (simp add: deploy_def b(1) abind_def alift_def Let_def Some failed run [simplified])
      qed
    qed
  qed
qed

section \<open>The end of the cycle\<close>

text \<open>What a completed cycle leaves, with the positions it started from.\<close>

definition concluded ::
  "resilient_env \<Rightarrow> ledger \<Rightarrow> integrity_row list \<Rightarrow> canonical_scan \<Rightarrow> (string \<rightharpoonup> time) \<Rightarrow> paper_position list
     \<Rightarrow> fresh_vars \<Rightarrow> deployed \<Rightarrow> portfolio_cycle \<Rightarrow> account \<Rightarrow> bool" where
  "concluded env l0 I0 scan prior ps v d cy s \<longleftrightarrow>
     (let l = at_ledger s; index = quote_index (cn_market_quotes scan); t = cn_completed_at scan
      in grown (rv_ledger env) l0 l \<and> ld_events l \<noteq> []
       \<and> lawful_since index (all_valued index t prior ps) (entries l0) (entries l)
       \<and> settled_ids index t prior ps \<subseteq> closed_ids (entries l)
       \<and> (\<forall>(k, tm) \<in> valued_pairs index t prior ps. map_of (dp_fresh d) k = Some tm)
       \<and> (fv_stale v = 0 \<longleftrightarrow> all_valued index t prior ps)
       \<and> reported (entries l0) cy (entries l)
       \<and> (0 < cy_opened_position_count cy \<longrightarrow> spendable (cy_cash_usd cy))
       \<and> (\<exists>hist final r1 r2 k. portfolio_state hist t (entries l) = Inr final
            \<and> latest_snapshot l = Some final \<and> cy_cash_usd cy = ps_cash_usd final \<and> cy_nav_usd cy = ps_nav_usd final
            \<and> acct env (\<lambda>rs. rs = I0 @ [r1, r2]) s
            \<and> ir_snapshot r2 = (final_integrity_of scan (latest_of I0) final v d)\<lparr>ig_integrity_id := k\<rparr>))"

lemma paper_final: "paper_integrity (final_integrity_of scan previous p v d)"
  and paper_checkpoint: "paper_integrity (checkpoint_of scan previous p v)"
  by (simp_all add: paper_integrity_def final_integrity_of_def checkpoint_of_def integrity_of_def blank_integrity_def)

lemma latest_snapshot_drawn [simp]: "latest_snapshot (l\<lparr>ld_drawn := n\<rparr>) = latest_snapshot l"
  by (simp add: latest_snapshot_def portfolio_snapshots_def)

lemma grown_drawn: "grown env l0 l \<Longrightarrow> ld_drawn l \<le> n \<Longrightarrow> grown env l0 (l\<lparr>ld_drawn := n\<rparr>)"
  by (auto simp: grown_def extends_def intro: ledger_ok_drawn)

lemma acct_drawn:
  assumes "acct env R s" and "ld_drawn (at_ledger s) \<le> n"
  shows "acct env R (s\<lparr>at_ledger := (at_ledger s)\<lparr>ld_drawn := n\<rparr>\<rparr>)"
proof -
  have "drawn_ids (rv_ledger env) (at_ledger s) \<subseteq> drawn_ids (rv_ledger env) ((at_ledger s)\<lparr>ld_drawn := n\<rparr>)"
    using assms(2) by (auto simp: drawn_ids_def)
  then show ?thesis using assms(1) by (auto simp: acct_def intro: integrity_ok_mono)
qed

lemma conclude_concluded:
  assumes "uuid_ok (rv_ledger env)"
  shows "triple (\<lambda>s. deployed_ledger (rv_ledger env) l0 (quote_index (cn_market_quotes scan)) (cn_completed_at scan)
        prior ps v d (at_ledger s) \<and> acct env (\<lambda>rs. \<exists>r. rs = I0 @ [r]) s)
    (conclude env scan (latest_of I0) v d) (concluded env l0 I0 scan prior ps v d) E"
proof (rule tripleI, elim conjE)
  let ?le = "rv_ledger env" and ?index = "quote_index (cn_market_quotes scan)" and ?t = "cn_completed_at scan"
  fix s
  assume dl: "deployed_ledger ?le l0 ?index ?t prior ps v d (at_ledger s)" and a: "acct env (\<lambda>rs. \<exists>r. rs = I0 @ [r]) s"
  let ?l = "at_ledger s"
  have g: "grown ?le l0 ?l" and ok: "ledger_ok ?le ?l" and ne: "ld_events ?l \<noteq> []"
    using dl by (auto simp: deployed_ledger_def grown_def)
  obtain r1 where r1: "at_integrity s = I0 @ [r1]" using a by (auto simp: acct_def)
  note pure = current_state_pure [OF ok ne, of "Some ?t"]
  obtain p where p: "portfolio_state (historical_peak_and_drawdown ?l) ?t (entries ?l) = Inr p"
    using ledger_state_defined [OF ok ne] by blast
  let ?l1 = "?l\<lparr>ld_snapshots := ld_snapshots ?l @
      [\<lparr>sr_snapshot = p, sr_lineage_hash = en_sha256_hex ?le (en_snapshot_json ?le p)\<rparr>]\<rparr>"
  let ?s1 = "s\<lparr>at_ledger := ?l1\<rparr>"
  note rec = record_snapshot_ok [OF ok ne p]
  have g1: "grown ?le l0 ?l1" using rec g by (auto simp: grown_def extends_def)
  have a1: "acct env (\<lambda>rs. \<exists>r. rs = I0 @ [r]) ?s1" using a by (simp add: acct_def drawn_ids_def)
  obtain k h where w: "write_integrity env (final_integrity_of scan (latest_of I0) p v d) ?s1 = (Inr k,
      ?s1\<lparr>at_ledger := (at_ledger ?s1)\<lparr>ld_drawn := Suc (ld_drawn (at_ledger ?s1))\<rparr>,
      at_integrity := at_integrity ?s1 @ [\<lparr>ir_snapshot = (final_integrity_of scan (latest_of I0) p v d)\<lparr>ig_integrity_id := k\<rparr>,
        ir_previous_lineage_hash = integrity_last None (at_integrity ?s1), ir_lineage_hash = h\<rparr>]\<rparr>)"
    and a2: "acct env (\<lambda>rs. \<exists>r. rs = at_integrity ?s1 @ [r] \<and>
      ir_snapshot r = (final_integrity_of scan (latest_of I0) p v d)\<lparr>ig_integrity_id := k\<rparr>)
      (snd (write_integrity env (final_integrity_of scan (latest_of I0) p v d) ?s1))"
    by (rule write_integrity_run [OF assms a1 paper_final])
  define s2 where "s2 = snd (write_integrity env (final_integrity_of scan (latest_of I0) p v d) ?s1)"
  let ?n = "Suc (Suc (ld_drawn ?l))"
  define s3 where "s3 = s2\<lparr>at_ledger := (at_ledger s2)\<lparr>ld_drawn := ?n\<rparr>\<rparr>"
  have l2: "at_ledger s2 = ?l1\<lparr>ld_drawn := Suc (ld_drawn ?l)\<rparr>" by (simp add: s2_def w)
  have l3: "at_ledger s3 = ?l1\<lparr>ld_drawn := ?n\<rparr>" by (simp add: s3_def l2)
  have g3: "grown ?le l0 (at_ledger s3)" unfolding l3 by (rule grown_drawn [OF g1]) simp
  have "acct env (\<lambda>rs. \<exists>r. rs = I0 @ [r1, r] \<and>
      ir_snapshot r = (final_integrity_of scan (latest_of I0) p v d)\<lparr>ig_integrity_id := k\<rparr>) s2"
    using a2 by (simp add: s2_def r1)
  then have "acct env (\<lambda>rs. \<exists>r. rs = I0 @ [r1, r] \<and>
      ir_snapshot r = (final_integrity_of scan (latest_of I0) p v d)\<lparr>ig_integrity_id := k\<rparr>) s3"
    unfolding s3_def by (rule acct_drawn) (simp add: l2)
  then obtain r2 where r2: "acct env (\<lambda>rs. rs = I0 @ [r1, r2]) s3"
      "ir_snapshot r2 = (final_integrity_of scan (latest_of I0) p v d)\<lparr>ig_integrity_id := k\<rparr>"
    by (auto simp: acct_def)
  have ev: "entries (at_ledger s3) = entries ?l" and ld: "ld_events (at_ledger s3) = ld_events ?l" by (simp_all add: l3)
  have h: "history (entries ?l)" using g ne by (rule grown_history)
  have "balanced p" by (rule portfolio_state_balanced [OF h p])
  then have latest: "latest_snapshot (at_ledger s3) = Some p"
    unfolding l3 latest_snapshot_drawn by (subst latest_snapshot_snoc) (simp_all add: balanced_def)
  have run: "conclude env scan (latest_of I0) v d s = (Inr \<lparr>cy_cycle_id = en_uuid ?le (Suc (ld_drawn ?l)),
      cy_observed_at = ?t, cy_opened_position_count = cc_opened (dp_counts d),
      cy_closed_position_count = cc_closed (dp_counts d), cy_marked_position_count = cc_marked (dp_counts d),
      cy_skipped_allocation_count = cc_skipped (dp_counts d), cy_nav_usd = ps_nav_usd p,
      cy_cash_usd = ps_cash_usd p, cy_paper_only = True\<rparr>, s3)"
    by (simp add: conclude_def Let_def abind_def on_ledger_def pure p rec(1) w draw_uuid_def alift_def s3_def s2_def)
  have "\<exists>hist final r1 r2 k. portfolio_state hist ?t (entries (at_ledger s3)) = Inr final
      \<and> latest_snapshot (at_ledger s3) = Some final \<and> ps_cash_usd p = ps_cash_usd final \<and> ps_nav_usd p = ps_nav_usd final
      \<and> acct env (\<lambda>rs. rs = I0 @ [r1, r2]) s3
      \<and> ir_snapshot r2 = (final_integrity_of scan (latest_of I0) final v d)\<lparr>ig_integrity_id := k\<rparr>"
    using p latest r2 unfolding ev by blast
  then show "case conclude env scan (latest_of I0) v d s of
      (Inr cy, t) \<Rightarrow> concluded env l0 I0 scan prior ps v d cy t | (Inl e, t) \<Rightarrow> E t"
    using dl g3 ne portfolio_state_fields(2) [OF p] unfolding run
    by (simp add: concluded_def Let_def deployed_ledger_def ev ld counted_def reported_def)
qed

section \<open>The cycle\<close>

definition account_ok_now :: "resilient_env \<Rightarrow> account \<Rightarrow> bool" where
  "account_ok_now env s \<longleftrightarrow> ledger_ok (rv_ledger env) (at_ledger s) \<and> acct env (\<lambda>_. True) s"

definition feed_index :: "market_feed \<Rightarrow> (quote_key \<rightharpoonup> market_quote)" where
  "feed_index feed = (case collect_canonical_market_snapshot feed of
     Inl e \<Rightarrow> (\<lambda>_. None) | Inr scan \<Rightarrow> quote_index (cn_market_quotes scan))"

definition feed_ok :: "market_feed \<Rightarrow> bool" where
  "feed_ok feed \<longleftrightarrow> (case collect_canonical_market_snapshot feed of
     Inl e \<Rightarrow> False | Inr scan \<Rightarrow> \<forall>q \<in> set (cn_market_quotes scan). 0 < mq_mid q)"

definition started_from ::
  "resilient_env \<Rightarrow> account \<Rightarrow> canonical_scan \<Rightarrow> (string \<rightharpoonup> time) \<Rightarrow> paper_position list \<Rightarrow> bool" where
  "started_from env s0 scan prior ps \<longleftrightarrow> (ld_events (at_ledger s0) \<noteq> [] \<longrightarrow>
     prior = latest_position_evidence_times env (at_ledger s0)
     \<and> ps = first_positions (rv_ledger env) (cn_completed_at scan) (at_ledger s0))"

definition completed_cycle ::
  "resilient_env \<Rightarrow> account \<Rightarrow> market_feed \<Rightarrow> portfolio_cycle \<Rightarrow> account \<Rightarrow> bool" where
  "completed_cycle env s0 feed cy s \<longleftrightarrow> (\<exists>scan prior ps v d. collect_canonical_market_snapshot feed = Inr scan
     \<and> started_from env s0 scan prior ps
     \<and> concluded env (at_ledger s0) (at_integrity s0) scan prior ps v d cy s)"

text \<open>
  An exception leaves a lawful ledger, with opens only when every position was valued, and at most
  the checkpoint of the cycle.
\<close>

definition may_open :: "resilient_env \<Rightarrow> account \<Rightarrow> market_feed \<Rightarrow> bool" where
  "may_open env s0 feed \<longleftrightarrow> (\<exists>scan prior ps. collect_canonical_market_snapshot feed = Inr scan
     \<and> started_from env s0 scan prior ps \<and> all_valued (feed_index feed) (cn_completed_at scan) prior ps)"

definition stopped :: "resilient_env \<Rightarrow> bool \<Rightarrow> account \<Rightarrow> market_feed \<Rightarrow> account \<Rightarrow> bool" where
  "stopped env fine s0 feed s \<longleftrightarrow> aborted (rv_ledger env) fine (at_ledger s0) (at_ledger s)
     \<and> lawful_since (feed_index feed) (may_open env s0 feed) (entries (at_ledger s0)) (entries (at_ledger s))
     \<and> acct env (\<lambda>rs. rs = at_integrity s0 \<or> (\<exists>r. rs = at_integrity s0 @ [r])) s"

lemma halted_stopped:
  assumes "halted (rv_ledger env) fine (at_ledger s0) (lawful_since (feed_index feed) False (entries (at_ledger s0))) (at_ledger s)"
    and "acct env (\<lambda>rs. rs = at_integrity s0) s"
  shows "stopped env fine s0 feed s"
  using assms by (auto simp: stopped_def halted_def acct_def intro: lawful_since_law)

lemma begun_lawful:
  assumes "begun le l0 l"
  shows "lawful_since index free (entries l0) (entries l)"
proof (cases "ld_events l0 = []")
  case True
  have "lawful index free e" if "e \<in> set (entries l)" for e
  proof -
    have "tallied k (entries l) = 0" if "k \<noteq> Genesis" for k
      using assms True that by (cases k) (simp_all add: begun_def counted_def zero_counts_def tallied_def)
    then have "pe_event_type e = Genesis" using that by (auto simp: tallied_def filter_empty_conv)
    then show ?thesis by (simp add: lawful_def)
  qed
  then show ?thesis using True by (auto simp: lawful_since_def list_all_iff)
next
  case False
  then show ?thesis using assms by (simp add: begun_def)
qed

lemma values_from_counts: "no_values = \<lparr>fv_counts = zero_counts, fv_stale = 0, fv_blocked = 0, fv_fresh = []\<rparr>"
  by (simp add: no_values_def zero_counts_def)

lemma backed_opened: "backed es p \<Longrightarrow> pp_position_id p \<in> fst ` set (ta_opened (tally_of es))"
  by (force simp: backed_def live_opens_def)

lemma first_state_valuing:
  assumes "begun le l0 l" and "portfolio_state (historical_peak_and_drawdown l) obs (entries l) = Inr p"
  shows "valuing le l0 (entries l0) index t prior (ps_positions p) (ps_positions p) no_values l"
proof -
  have "ledger_ok le l" "ld_events l \<noteq> []" "grown le l0 l" "counted (entries l0) zero_counts (entries l)"
    using assms(1) by (auto simp: begun_def grown_def)
  from first_state_settling [OF this assms(2), of index t]
  have st: "settling le l0 index t (ps_positions p) (ps_positions p) zero_counts l" .
  then have "pp_position_id ` set (ps_positions p) \<subseteq> fst ` set (ta_opened (tally_of (entries l)))"
    using backed_opened by (auto simp: settling_def)
  moreover have "distinct (ps_positions p)" using st by (simp add: settling_def distinct_map)
  ultimately show ?thesis
    using st begun_lawful [OF assms(1)] by (simp add: valuing_def settling_def values_from_counts zero_counts_def)
qed

lemma deploy_stopped_stopped:
  assumes "collect_canonical_market_snapshot feed = Inr scan" and "started_from env s0 scan prior ps"
    and "deploy_stopped env fine (at_ledger s0) (feed_index feed) (cn_completed_at scan) prior ps R s"
    and "\<And>rs. R rs \<Longrightarrow> \<exists>r. rs = at_integrity s0 @ [r]"
  shows "stopped env fine s0 feed s"
proof -
  have "may_open env s0 feed" using assms(1-3) by (auto simp: may_open_def deploy_stopped_def)
  then show ?thesis using assms(3,4) by (auto simp: stopped_def deploy_stopped_def funding_stopped_def halted_def acct_def)
qed

text \<open>The cycle after its first state.\<close>

lemma later_stages:
  assumes "uuid_ok (rv_ledger env)" and "stage_valid stage" and "collect_canonical_market_snapshot feed = Inr scan"
    and "fine \<Longrightarrow> feed_ok feed \<and> stage_dated stage" and "I0 = at_integrity s0"
    and "started_from env s0 scan prior ps"
  shows "triple (\<lambda>s. valuing (rv_ledger env) (at_ledger s0) (entries (at_ledger s0)) (quote_index (cn_market_quotes scan))
        (cn_completed_at scan) prior ps ps no_values (at_ledger s) \<and> acct env (\<lambda>rs. rs = I0) s)
    (abind (on_ledger (afold (value_position (rv_ledger env) (quote_index (cn_market_quotes scan)) (cn_completed_at scan) prior)
        ps no_values)) (\<lambda>v.
      abind (on_ledger (current_state (rv_ledger env) (Some (cn_completed_at scan)))) (\<lambda>after_close.
      abind (write_integrity env (checkpoint_of scan (latest_of I0) after_close v)) (\<lambda>_.
      abind (deploy env stage after_close v) (\<lambda>d.
      conclude env scan (latest_of I0) v d)))))
    (\<lambda>cy s. \<exists>v d. concluded env (at_ledger s0) I0 scan prior ps v d cy s)
    (stopped env fine s0 feed)"
proof (rule triple_bind)
  let ?le = "rv_ledger env" and ?l0 = "at_ledger s0" and ?t = "cn_completed_at scan"
  let ?index = "quote_index (cn_market_quotes scan)"
  have prices: "fine \<Longrightarrow> prices_ok ?index" using assms(3,4) quote_index_prices by (auto simp: feed_ok_def)
  have fi: "feed_index feed = ?index" by (simp add: feed_index_def assms(3))
  have "forward (afold (value_position ?le ?index ?t prior) ps no_values)" by (intro forward_intros)
  from triple_on_ledger [OF value_loop [OF assms(1) prices] this, of fine ?l0 "entries ?l0" ps env "\<lambda>rs. rs = I0"]
  show "triple (\<lambda>s. valuing ?le ?l0 (entries ?l0) ?index ?t prior ps ps no_values (at_ledger s) \<and> acct env (\<lambda>rs. rs = I0) s)
      (on_ledger (afold (value_position ?le ?index ?t prior) ps no_values))
      (\<lambda>v s. valuing ?le ?l0 (entries ?l0) ?index ?t prior ps [] v (at_ledger s) \<and> acct env (\<lambda>rs. rs = I0) s)
      (stopped env fine s0 feed)"
    by (rule triple_raise) (auto simp: fi assms(5) intro: halted_stopped)
  fix v
  let ?V = "valuing ?le ?l0 (entries ?l0) ?index ?t prior ps [] v"
  show "triple (\<lambda>s. ?V (at_ledger s) \<and> acct env (\<lambda>rs. rs = I0) s)
    (abind (on_ledger (current_state ?le (Some ?t))) (\<lambda>after_close.
      abind (write_integrity env (checkpoint_of scan (latest_of I0) after_close v)) (\<lambda>_.
      abind (deploy env stage after_close v) (\<lambda>d. conclude env scan (latest_of I0) v d))))
    (\<lambda>cy s. \<exists>v d. concluded env ?l0 I0 scan prior ps v d cy s) (stopped env fine s0 feed)"
  proof (rule triple_bind)
    have "triple ?V (current_state ?le (Some ?t))
        (\<lambda>p l. ?V l \<and> portfolio_state (historical_peak_and_drawdown l) ?t (entries l) = Inr p) (\<lambda>_. False)"
      by (rule triple_state [where ?s0.0 = ?l0]) (simp add: valuing_def)
    moreover have "forward (current_state ?le (Some ?t))" by (intro forward_intros)
    ultimately have "triple (\<lambda>s. ?V (at_ledger s) \<and> acct env (\<lambda>rs. rs = I0) s) (on_ledger (current_state ?le (Some ?t)))
        (\<lambda>p s. (?V (at_ledger s) \<and> portfolio_state (historical_peak_and_drawdown (at_ledger s)) ?t (entries (at_ledger s)) = Inr p)
          \<and> acct env (\<lambda>rs. rs = I0) s) (\<lambda>s. False \<and> acct env (\<lambda>rs. rs = I0) s)"
      by (rule triple_on_ledger)
    then have "triple (\<lambda>s. ?V (at_ledger s) \<and> acct env (\<lambda>rs. rs = I0) s) (on_ledger (current_state ?le (Some ?t)))
        (\<lambda>p s. (?V (at_ledger s) \<and> portfolio_state (historical_peak_and_drawdown (at_ledger s)) ?t (entries (at_ledger s)) = Inr p)
          \<and> acct env (\<lambda>rs. rs = I0) s) (stopped env fine s0 feed)"
      by (rule triple_raise) simp
    then show "triple (\<lambda>s. ?V (at_ledger s) \<and> acct env (\<lambda>rs. rs = I0) s) (on_ledger (current_state ?le (Some ?t)))
        (\<lambda>p s. (valued_ledger ?le ?l0 ?index ?t prior ps v (at_ledger s)
          \<and> ps_cash_usd p = ta_cash (tally_of (entries (at_ledger s)))
          \<and> set (live_keys (tally_of (entries (at_ledger s)))) = set (map position_key (ps_positions p)))
          \<and> acct env (\<lambda>rs. rs = I0) s) (stopped env fine s0 feed)"
      by (rule triple_weaken) (use valuing_ends state_keys portfolio_state_fields(2) in blast)+
    fix p :: portfolio_snapshot
    let ?P = "\<lambda>l. valued_ledger ?le ?l0 ?index ?t prior ps v l \<and> ps_cash_usd p = ta_cash (tally_of (entries l))
        \<and> set (live_keys (tally_of (entries l))) = set (map position_key (ps_positions p))"
    show "triple (\<lambda>s. ?P (at_ledger s) \<and> acct env (\<lambda>rs. rs = I0) s)
      (abind (write_integrity env (checkpoint_of scan (latest_of I0) p v)) (\<lambda>_.
        abind (deploy env stage p v) (\<lambda>d. conclude env scan (latest_of I0) v d)))
      (\<lambda>cy s. \<exists>v d. concluded env ?l0 I0 scan prior ps v d cy s) (stopped env fine s0 feed)"
    proof (rule triple_bind [OF triple_write_integrity [OF assms(1) paper_checkpoint]])
      show "?P (l\<lparr>ld_drawn := Suc (ld_drawn l)\<rparr>)" if "?P l" for l using that valued_ledger_drawn by simp
      fix k
      let ?R = "\<lambda>rs. \<exists>r. rs = I0 @ [r] \<and> ir_snapshot r = (checkpoint_of scan (latest_of I0) p v)\<lparr>ig_integrity_id := k\<rparr>"
      show "triple (\<lambda>s. ?P (at_ledger s) \<and> acct env ?R s)
        (abind (deploy env stage p v) (\<lambda>d. conclude env scan (latest_of I0) v d))
        (\<lambda>cy s. \<exists>v d. concluded env ?l0 I0 scan prior ps v d cy s) (stopped env fine s0 feed)"
      proof (rule triple_bind)
        have "triple (\<lambda>s. ?P (at_ledger s) \<and> acct env ?R s) (deploy env stage p v)
            (\<lambda>d s. deployed_ledger ?le ?l0 ?index ?t prior ps v d (at_ledger s) \<and> acct env ?R s)
            (deploy_stopped env fine ?l0 ?index ?t prior ps ?R)"
          by (rule deploy_deploys [OF assms(1,2)]) (use assms(4) in blast)
        then show "triple (\<lambda>s. ?P (at_ledger s) \<and> acct env ?R s) (deploy env stage p v)
            (\<lambda>d s. deployed_ledger ?le ?l0 ?index ?t prior ps v d (at_ledger s) \<and> acct env ?R s)
            (stopped env fine s0 feed)"
          by (rule triple_raise) (rule deploy_stopped_stopped [OF assms(3,6)], use fi assms(5) in \<open>auto simp: deploy_stopped_def acct_def\<close>)
        fix d
        show "triple (\<lambda>s. deployed_ledger ?le ?l0 ?index ?t prior ps v d (at_ledger s) \<and> acct env ?R s)
          (conclude env scan (latest_of I0) v d)
          (\<lambda>cy s. \<exists>v d. concluded env ?l0 I0 scan prior ps v d cy s) (stopped env fine s0 feed)"
          by (rule triple_weaken [OF conclude_concluded [OF assms(1)]]) (auto simp: acct_def)
      qed
    qed
  qed
qed

lemma resilient_cycle_cases:
  assumes "uuid_ok (rv_ledger env)" and "account_ok_now env s0" and "stage_valid stage"
  shows "case resilient_cycle env feed stage s0 of
      (Inr cy, s) \<Rightarrow> completed_cycle env s0 feed cy s
    | (Inl e, s) \<Rightarrow> stopped env (feed_ok feed \<and> stage_dated stage) s0 feed s"
proof -
  let ?le = "rv_ledger env" and ?l0 = "at_ledger s0" and ?I0 = "at_integrity s0"
  have ok: "ledger_ok ?le ?l0" and a0: "acct env (\<lambda>rs. rs = ?I0) s0"
    using assms(2) by (auto simp: account_ok_now_def acct_def)
  have "forward (ensure_genesis ?le None)" by (intro forward_intros)
  from triple_on_ledger [OF ensure_genesis_begun [OF assms(1) ok] this,
      where R = "\<lambda>rs. rs = ?I0" and env = env, where E = "\<lambda>_. False"]
  have "case on_ledger (ensure_genesis ?le None) s0 of
      (Inr x, s) \<Rightarrow> begun ?le ?l0 (at_ledger s) \<and> acct env (\<lambda>rs. rs = ?I0) s | (Inl e, s) \<Rightarrow> False"
    using a0 by (simp add: triple_def)
  then obtain g s1 where g: "on_ledger (ensure_genesis ?le None) s0 = (Inr g, s1)"
      and b: "begun ?le ?l0 (at_ledger s1)" and a: "acct env (\<lambda>rs. rs = ?I0) s1"
    by (auto split: prod.splits sum.splits)
  have prev: "latest_integrity s1 = latest_of ?I0" using acct_latest [OF a] a by (simp add: acct_def)
  show ?thesis
  proof (cases "collect_canonical_market_snapshot feed")
    case (Inl e)
    then have "resilient_cycle env feed stage s0 = (Inl e, s1)"
      by (simp add: resilient_cycle_def Let_def abind_def g alift_def)
    moreover have "stopped env (feed_ok feed \<and> stage_dated stage) s0 feed s1"
      using b a begun_lawful [OF b] Inl
      by (intro halted_stopped) (simp_all add: halted_def aborted_def feed_ok_def begun_def)
    ultimately show ?thesis by simp
  next
    case (Inr scan)
    let ?t = "cn_completed_at scan"
    have l1: "ledger_ok ?le (at_ledger s1)" "ld_events (at_ledger s1) \<noteq> []" using b by (auto simp: begun_def grown_def)
    obtain p where p: "portfolio_state (historical_peak_and_drawdown (at_ledger s1)) ?t (entries (at_ledger s1)) = Inr p"
      using ledger_state_defined [OF l1] by blast
    have state: "on_ledger (current_state ?le (Some ?t)) s1 = (Inr p, s1)"
      using current_state_pure [OF l1, of "Some ?t"] p by (simp add: on_ledger_def)
    let ?prior = "latest_position_evidence_times env (at_ledger s1)"
    have first: "?l0 = at_ledger s1 \<and> ps_positions p = first_positions ?le ?t ?l0" if "ld_events ?l0 \<noteq> []"
      using b that p by (auto simp: begun_def first_positions_def)
    have run: "resilient_cycle env feed stage s0 =
        (abind (on_ledger (afold (value_position ?le (quote_index (cn_market_quotes scan)) ?t ?prior)
            (ps_positions p) no_values)) (\<lambda>v.
          abind (on_ledger (current_state ?le (Some ?t))) (\<lambda>after_close.
          abind (write_integrity env (checkpoint_of scan (latest_of ?I0) after_close v)) (\<lambda>_.
          abind (deploy env stage after_close v) (\<lambda>d.
          conclude env scan (latest_of ?I0) v d))))) s1"
      unfolding resilient_cycle_def Let_def
      by (subst abind_def) (simp add: g prev Inr, subst abind_def, simp add: alift_def, subst abind_def, simp add: state)
    have start: "started_from env s0 scan ?prior (ps_positions p)" using first by (auto simp: started_from_def)
    have fine: "feed_ok feed \<and> stage_dated stage \<Longrightarrow> feed_ok feed \<and> stage_dated stage" .
    have "valuing ?le ?l0 (entries ?l0) (quote_index (cn_market_quotes scan)) ?t ?prior (ps_positions p) (ps_positions p)
        no_values (at_ledger s1)" by (rule first_state_valuing [OF b p])
    then have "case resilient_cycle env feed stage s0 of
        (Inr cy, s) \<Rightarrow> \<exists>v d. concluded env ?l0 ?I0 scan ?prior (ps_positions p) v d cy s
      | (Inl e, s) \<Rightarrow> stopped env (feed_ok feed \<and> stage_dated stage) s0 feed s"
      unfolding run using later_stages [OF assms(1,3) Inr fine refl start] a
      by (simp add: triple_def)
    moreover have "completed_cycle env s0 feed cy s"
      if "concluded env ?l0 ?I0 scan ?prior (ps_positions p) v d cy s" for v d cy s
      unfolding completed_cycle_def using that start Inr
      by (intro exI [of _ scan] exI [of _ ?prior] exI [of _ "ps_positions p"] exI [of _ v] exI [of _ d]) auto
    ultimately show ?thesis by (auto split: prod.splits sum.splits)
  qed
qed

end
