(* ===== verification/Props_Resilient.thy ===== *)
theory Props_Resilient
  imports Resilient_Cycle Props_Ledger
begin

text \<open>
  The properties of the cycle of \<open>OperationallyResilientPaperPortfolioService\<close>
  (resilient_paper_portfolio.py, which operating_worker.py and the portfolio API run) and of its
  integrity table.  They do not speak of the subclass of universal_paper_portfolio.py, which
  overrides this cycle with a valuation and settlement of its own.  An account is reachable when it comes from empty tables by cycles, completed or aborted, and by the first
  integrity snapshot that the service ensures.
\<close>

section \<open>Reachable accounts\<close>

inductive account_reachable :: "resilient_env \<Rightarrow> account \<Rightarrow> bool" for env where
  new_account: "account_reachable env \<lparr>at_ledger = \<lparr>ld_events = [], ld_snapshots = [], ld_drawn = n\<rparr>,
    at_integrity = [], at_allocation_held = False\<rparr>"
| after_cycle: "account_reachable env s \<Longrightarrow> stage_valid stage \<Longrightarrow>
    account_reachable env (snd (resilient_cycle env feed stage s))"
| initial_ensured: "account_reachable env s \<Longrightarrow> account_reachable env (snd (ensure_initial env p s))"

lemma account_ok_new: "account_ok_now env \<lparr>at_ledger = \<lparr>ld_events = [], ld_snapshots = [], ld_drawn = n\<rparr>,
    at_integrity = [], at_allocation_held = False\<rparr>"
  by (simp add: account_ok_now_def ledger_ok_empty acct_def integrity_ok_def)

lemma completed_account:
  assumes "completed_cycle env s0 feed cy s"
  shows "account_ok_now env s" and "extends (at_ledger s0) (at_ledger s)"
    and "\<exists>r1 r2. at_integrity s = at_integrity s0 @ [r1, r2]"
  using assms by (auto simp: completed_cycle_def concluded_def Let_def account_ok_now_def grown_def acct_def)

lemma stopped_account:
  assumes "stopped env fine s0 feed s"
  shows "account_ok_now env s" and "extends (at_ledger s0) (at_ledger s)" and "at_integrity s = at_integrity s0 \<or> (\<exists>r. at_integrity s = at_integrity s0 @ [r])"
  using assms by (auto simp: stopped_def aborted_def account_ok_now_def grown_def acct_def)

lemma cycle_account:
  assumes "uuid_ok (rv_ledger env)" and "account_ok_now env s0" and "stage_valid stage"
    and "resilient_cycle env feed stage s0 = (r, s)"
  shows "account_ok_now env s" and "extends (at_ledger s0) (at_ledger s)"
    and "\<exists>new. at_integrity s = at_integrity s0 @ new"
proof -
  have ends: "account_ok_now env s \<and> extends (at_ledger s0) (at_ledger s) \<and> (\<exists>new. at_integrity s = at_integrity s0 @ new)"
  proof (cases r)
    case (Inl e)
    then have "stopped env (feed_ok feed \<and> stage_dated stage) s0 feed s"
      using resilient_cycle_cases [OF assms(1-3), of feed] by (simp add: assms(4))
    then show ?thesis using stopped_account by (metis append_Nil2)
  next
    case (Inr cy)
    then have "completed_cycle env s0 feed cy s"
      using resilient_cycle_cases [OF assms(1-3), of feed] by (simp add: assms(4))
    then show ?thesis using completed_account by metis
  qed
  show "account_ok_now env s" and "extends (at_ledger s0) (at_ledger s)" and "\<exists>new. at_integrity s = at_integrity s0 @ new"
    using ends by blast+
qed

lemma ensure_initial_account:
  assumes "uuid_ok (rv_ledger env)" and "account_ok_now env s"
  shows "account_ok_now env (snd (ensure_initial env p s))"
proof (cases "latest_integrity s")
  case None
  define i where "i = blank_integrity\<lparr>ig_observed_at := ps_observed_at p, ig_account_snapshot_at := ps_observed_at p,
     ig_valuation_status := if ps_open_position_count p = 0 then Cash_only else Unavailable,
     ig_stale_position_count := ps_open_position_count p, ig_open_position_count := ps_open_position_count p\<rparr>"
  have i: "paper_integrity i" by (simp add: i_def paper_integrity_def blank_integrity_def)
  have a: "acct env (\<lambda>_. True) s" and l: "ledger_ok (rv_ledger env) (at_ledger s)"
    using assms(2) by (auto simp: account_ok_now_def)
  have "snd (ensure_initial env p s) = snd (write_integrity env i s)"
    using None by (auto simp: ensure_initial_def write_integrity_def i_def Let_def abind_def alift_def
        split: prod.splits sum.splits)
  moreover obtain k h where w: "write_integrity env i s = (Inr k, s\<lparr>at_ledger := (at_ledger s)\<lparr>ld_drawn := Suc (ld_drawn (at_ledger s))\<rparr>,
      at_integrity := at_integrity s @ [\<lparr>ir_snapshot = i\<lparr>ig_integrity_id := k\<rparr>,
        ir_previous_lineage_hash = integrity_last None (at_integrity s), ir_lineage_hash = h\<rparr>]\<rparr>)"
    and "acct env (\<lambda>rs. \<exists>r. rs = at_integrity s @ [r] \<and> ir_snapshot r = i\<lparr>ig_integrity_id := k\<rparr>)
      (snd (write_integrity env i s))"
    by (rule write_integrity_run [OF assms(1) a i])
  moreover have "ledger_ok (rv_ledger env) (at_ledger (snd (write_integrity env i s)))"
    unfolding w by (simp add: ledger_ok_drawn [OF l])
  ultimately show ?thesis by (simp add: account_ok_now_def acct_def)
next
  case (Some j)
  then show ?thesis using assms(2) by (simp add: ensure_initial_def)
qed

lemma account_reachable_ok:
  assumes "uuid_ok (rv_ledger env)"
  shows "account_reachable env s \<Longrightarrow> account_ok_now env s"
proof (induction rule: account_reachable.induct)
  case (new_account n)
  then show ?case by (rule account_ok_new)
next
  case (after_cycle s stage feed)
  obtain r t where rt: "resilient_cycle env feed stage s = (r, t)" by fastforce
  then show ?case using cycle_account(1) [OF assms after_cycle.IH after_cycle.hyps(2) rt] by simp
next
  case (initial_ensured s p)
  then show ?case by (simp add: ensure_initial_account [OF assms])
qed




section \<open>Settlement and deployment\<close>





section \<open>What the integrity snapshot promises\<close>

lemma open_count_positions:
  "portfolio_state hist obs es = Inr p \<Longrightarrow> ps_open_position_count p = length (ps_positions p)"
  by (auto simp: portfolio_state_def Let_def split: if_splits)

lemma positions_of_entries:
  assumes "portfolio_state h t es = Inr p" and "portfolio_state h' t' es = Inr p'"
  shows "ps_positions p = ps_positions p'"
  using portfolio_state_fields(1) [OF assms(1)] portfolio_state_fields(1) [OF assms(2)] by simp

lemma position_not_closed:
  assumes "portfolio_state h t es = Inr p" and "q \<in> set (ps_positions p)"
  shows "pp_position_id q \<notin> closed_ids es"
proof -
  obtain e where "(pp_position_id q, e) \<in> set (live_opens (tally_of es))"
    using assms(2) unfolding portfolio_state_fields(1) [OF assms(1)] by (auto simp: position_of_def Let_def)
  then show ?thesis using live_not_closed by (auto simp: closed_ids_def)
qed

text \<open>
  The integrity snapshot of a completed cycle is honest.  It says cash only exactly when
  nothing is held afterwards.  When it says fresh, every position held before and after is quoted
  by the scan, and the evidence time it gives is not later than any of these quotes.  When the
  valuation is partial or stale, it repeats the evidence time of the snapshot before, and when it
  calls the cycle successful, every position it started from was valued.
\<close>

theorem integrity_snapshot_honest:
  assumes "uuid_ok (rv_ledger env)" and "account_reachable env s" and "stage_valid stage"
    and "collect_canonical_market_snapshot feed = Inr scan"
    and "current_state (rv_ledger env) (Some (cn_completed_at scan)) (at_ledger s) = (Inr p, l)" and "ld_events (at_ledger s) \<noteq> []"
    and "resilient_cycle env feed stage s = (Inr cy, t)"
    and "current_state (rv_ledger env) observed_at (at_ledger t) = (Inr p', l')" and "latest_integrity t = Some i"
  shows "(ig_valuation_status i = Cash_only \<longleftrightarrow> ps_positions p' = [])
    \<and> (ig_valuation_status i = Fresh \<longrightarrow> (\<forall>h \<in> set (ps_positions p).
         pp_position_id h \<in> pp_position_id ` set (ps_positions p') \<longrightarrow>
         (\<exists>q m. quote_for (quote_index (cn_market_quotes scan)) h = Some q
            \<and> ig_market_evidence_at i = Some m \<and> m \<le> mq_observed_at q)))
    \<and> (ig_valuation_status i \<in> {Partial, Stale} \<longrightarrow>
         ig_market_evidence_at i = Option.bind (latest_integrity s) ig_market_evidence_at)
    \<and> (ig_cycle_status i = Successful \<longrightarrow> (\<forall>h \<in> set (ps_positions p). \<not> unvalued (quote_index (cn_market_quotes scan))
         (cn_completed_at scan) (latest_position_evidence_times env (at_ledger s)) h))"
proof -
  let ?le = "rv_ledger env" and ?index = "quote_index (cn_market_quotes scan)" and ?t = "cn_completed_at scan"
  let ?prior = "latest_position_evidence_times env (at_ledger s)" and ?ps = "ps_positions p"
  have ok: "account_ok_now env s" by (rule account_reachable_ok [OF assms(1,2)])
  then have lok: "ledger_ok ?le (at_ledger s)" and sa: "acct env (\<lambda>_. True) s" by (auto simp: account_ok_now_def)
  have "portfolio_state (historical_peak_and_drawdown (at_ledger s)) ?t (entries (at_ledger s)) = Inr p"
    using current_state_pure [OF lok assms(6), of "Some ?t"] assms(5) by simp
  then have first: "first_positions ?le ?t (at_ledger s) = ?ps" using assms(6) by (simp add: first_positions_def)
  obtain v d where c: "concluded env (at_ledger s) (at_integrity s) scan ?prior ?ps v d cy t"
    using resilient_cycle_cases [OF assms(1) ok assms(3), of feed] assms(4,6) first unfolding assms(7)
    by (auto simp: completed_cycle_def started_from_def)
  obtain hist final r1 r2 k where f: "portfolio_state hist ?t (entries (at_ledger t)) = Inr final"
      "acct env (\<lambda>rs. rs = at_integrity s @ [r1, r2]) t"
      "ir_snapshot r2 = (final_integrity_of scan (latest_of (at_integrity s)) final v d)\<lparr>ig_integrity_id := k\<rparr>"
    using c by (auto simp: concluded_def Let_def)
  have tok: "ledger_ok ?le (at_ledger t)" "ld_events (at_ledger t) \<noteq> []"
    using c by (auto simp: concluded_def Let_def grown_def)
  obtain obs where p': "portfolio_state (historical_peak_and_drawdown (at_ledger t)) obs (entries (at_ledger t)) = Inr p'"
    using current_state_Inr [OF assms(1) tok(1) assms(8)] tok(2) by auto
  have same: "ps_positions final = ps_positions p'" by (rule positions_of_entries [OF f(1) p'])
  have prev: "latest_of (at_integrity s) = latest_integrity s" using acct_latest [OF sa] by simp
  have i: "i = (final_integrity_of scan (latest_integrity s) final v d)\<lparr>ig_integrity_id := k\<rparr>"
    using assms(9) acct_latest [OF f(2)] f(2,3) unfolding prev by (simp add: acct_def latest_of_def)
  let ?val = "valuation (length (ps_positions p')) (fv_stale v) (dp_fresh d) (latest_integrity s) ?t"
  have status: "ig_valuation_status i = fst ?val" "ig_market_evidence_at i = snd ?val"
    using open_count_positions [OF f(1)] by (simp_all add: i final_integrity_of_def integrity_of_def same)
  have stale: "fv_stale v = 0 \<longleftrightarrow> all_valued ?index ?t ?prior ?ps" using c by (simp add: concluded_def Let_def)
  have "\<exists>q m. quote_for ?index h = Some q \<and> ig_market_evidence_at i = Some m \<and> m \<le> mq_observed_at q"
    if fresh: "ig_valuation_status i = Fresh" and h: "h \<in> set ?ps"
      and held: "pp_position_id h \<in> pp_position_id ` set (ps_positions p')" for h
  proof -
    have z: "fv_stale v = 0" and m: "ig_market_evidence_at i =
        Some (if dp_fresh d = [] then ?t else Min (set (map snd (dp_fresh d))))"
      using fresh unfolding status by (auto simp: valuation_def Let_def split: if_splits)
    have "\<not> unvalued ?index ?t ?prior h" using z stale h by (simp add: all_valued_def)
    moreover have open': "pp_position_id h \<notin> closed_ids (entries (at_ledger t))"
      using held position_not_closed [OF p'] by auto
    moreover have "settled_ids ?index ?t ?prior ?ps \<subseteq> closed_ids (entries (at_ledger t))"
      using c by (simp add: concluded_def Let_def)
    ultimately obtain q where q: "quote_for ?index h = Some q" "\<not> pp_due_at h \<le> mq_observed_at q"
      using h by (fastforce simp: settled_ids_def unvalued_def split: option.splits)
    then have "(pp_position_id h, mq_observed_at q) \<in> valued_pairs ?index ?t ?prior ?ps"
      using h \<open>\<not> unvalued ?index ?t ?prior h\<close> by (auto simp: valued_pairs_def)
    moreover have "\<forall>(k, tm) \<in> valued_pairs ?index ?t ?prior ?ps. map_of (dp_fresh d) k = Some tm"
      using c unfolding concluded_def Let_def by (elim conjE)
    ultimately have "map_of (dp_fresh d) (pp_position_id h) = Some (mq_observed_at q)" by blast
    then have "(pp_position_id h, mq_observed_at q) \<in> set (dp_fresh d)" by (rule map_of_SomeD)
    then have "mq_observed_at q \<in> set (map snd (dp_fresh d))" and "dp_fresh d \<noteq> []" by force+
    then have "Min (set (map snd (dp_fresh d))) \<le> mq_observed_at q" by (intro Min_le) simp_all
    then show ?thesis using q(1) m \<open>dp_fresh d \<noteq> []\<close> by simp
  qed
  moreover have "ig_valuation_status i = Cash_only \<longleftrightarrow> ps_positions p' = []"
    unfolding status by (simp add: valuation_def Let_def)
  moreover have "ig_valuation_status i \<in> {Partial, Stale} \<longrightarrow>
      ig_market_evidence_at i = Option.bind (latest_integrity s) ig_market_evidence_at"
    unfolding status by (auto simp: valuation_def Let_def Option.bind_def split: option.split)
  moreover have "ig_cycle_status i = Successful \<longrightarrow> (\<forall>h \<in> set ?ps. \<not> unvalued ?index ?t ?prior h)"
    using stale by (auto simp: i final_integrity_of_def all_valued_def split: if_splits)
  ultimately show ?thesis by blast
qed

section \<open>Witnesses\<close>

text \<open>
  The first cycle opens a spot position.  In the second the allocator times out or answers again, the position is
  closed by a quote from its horizon.  In a third world the second scan has an old quote only.
\<close>

definition rz_env :: resilient_env where
  "rz_env = \<lparr>rv_ledger = fx_env, rv_isoformat = \<lambda>t. ''t'', rv_fromisoformat = \<lambda>s. Some 0,
     rv_integrity_json = ig_integrity_id\<rparr>"

definition rz_new :: account where
  "rz_new = \<lparr>at_ledger = \<lparr>ld_events = [], ld_snapshots = [], ld_drawn = 0\<rparr>, at_integrity = [], at_allocation_held = False\<rparr>"

definition rz_scan :: "market_quote list \<Rightarrow> time \<Rightarrow> canonical_scan" where
  "rz_scan quotes t = \<lparr>cn_scan_id = ''scan'', cn_started_at = t, cn_completed_at = t, cn_funding_quotes = [],
     cn_market_quotes = quotes\<rparr>"

definition rz_old_quote :: market_quote where
  "rz_old_quote = fx_close_quote\<lparr>mq_observed_at := 1800000000\<rparr>"

definition rz_feed :: "market_quote list \<Rightarrow> time \<Rightarrow> market_feed" where
  "rz_feed quotes t = Core_scan (Inr (rz_scan quotes t))"

definition rz_opens :: allocation_stage where
  "rz_opens = \<lparr>sg_sync = True, sg_previous_finished = True, sg_ends = \<lambda>cash. Returned fx_plan\<rparr>"

definition rz_times_out :: allocation_stage where
  "rz_times_out = \<lparr>sg_sync = True, sg_previous_finished = True, sg_ends = \<lambda>cash. Timed_out\<rparr>"

definition rz_account :: account where
  "rz_account = snd (resilient_cycle rz_env (rz_feed [] 0) rz_opens rz_new)"

lemma rz_uuid: "uuid_ok (rv_ledger rz_env)"
  by (simp add: rz_env_def fx_uuid)

lemma rz_stages: "stage_valid rz_opens" "stage_valid rz_times_out"
  using fx_valid by (auto simp: stage_valid_def rz_opens_def rz_times_out_def plans_valid_def)

lemma rz_reachable: "account_reachable rz_env rz_account"
  unfolding rz_account_def rz_new_def by (intro account_reachable.after_cycle account_reachable.new_account rz_stages)

lemma rz_dated: "stage_dated rz_times_out"
  by (simp add: stage_dated_def rz_times_out_def)

lemma rz_collected: "collect_canonical_market_snapshot (rz_feed quotes t) = Inr (rz_scan quotes t)"
  by (simp add: rz_feed_def)


definition rz_second :: "market_quote list \<Rightarrow> portfolio_cycle result \<times> account" where
  "rz_second quotes = resilient_cycle rz_env (rz_feed quotes 3600000000) rz_times_out rz_account"

definition rz_state :: "portfolio_snapshot result \<times> ledger" where
  "rz_state = current_state fx_env (Some 3600000000) (at_ledger rz_account)"


lemma rz_held: "case rz_state of
    (Inr p, l) \<Rightarrow> (case ps_positions p of
        [h] \<Rightarrow> pp_due_at h = 3600000000 \<and> quote_for (quote_index [rz_old_quote]) h = Some rz_old_quote
      | _ \<Rightarrow> False)
  | (Inl e, l) \<Rightarrow> False"
  by code_simp



lemma rz_state_held:
  obtains p l h where "current_state (rv_ledger rz_env) (Some 3600000000) (at_ledger rz_account) = (Inr p, l)"
    and "h \<in> set (ps_positions p)" and "pp_due_at h = 3600000000"
    and "quote_for (quote_index [rz_old_quote]) h = Some rz_old_quote"
  using rz_held unfolding rz_state_def by (auto simp: rz_env_def split: prod.splits sum.splits list.splits)

lemma rz_events: "ld_events (at_ledger rz_account) \<noteq> []"
proof -
  obtain p l h where "current_state (rv_ledger rz_env) (Some 3600000000) (at_ledger rz_account) = (Inr p, l)"
    and "h \<in> set (ps_positions p)" by (rule rz_state_held)
  moreover have "ledger_ok (rv_ledger rz_env) (at_ledger rz_account)"
    using account_reachable_ok [OF rz_uuid rz_reachable] by (simp add: account_ok_now_def)
  ultimately show ?thesis using current_state_Inr [OF rz_uuid] by fastforce
qed




text \<open>The second cycle completes and leaves a state that can be read.\<close>

lemma rz_second_reads:
  obtains cy t p l i where "resilient_cycle rz_env (rz_feed [rz_old_quote] 3600000000) rz_times_out rz_account = (Inr cy, t)"
    and "current_state (rv_ledger rz_env) None (at_ledger t) = (Inr p, l)" and "latest_integrity t = Some i"
proof -
  let ?cycle = "resilient_cycle rz_env (rz_feed [rz_old_quote] 3600000000) rz_times_out rz_account"
  have ok: "account_ok_now rz_env rz_account" by (rule account_reachable_ok [OF rz_uuid rz_reachable])
  obtain r t where run: "?cycle = (r, t)" by fastforce
  have "feed_ok (rz_feed [rz_old_quote] 3600000000)"
    by (simp add: feed_ok_def rz_collected rz_scan_def rz_old_quote_def fx_close_quote_def)
  then obtain cy where cy: "r = Inr cy" "completed_cycle rz_env rz_account (rz_feed [rz_old_quote] 3600000000) cy t"
    using resilient_cycle_cases [OF rz_uuid ok rz_stages(2), of "rz_feed [rz_old_quote] 3600000000"] unfolding run
    by (cases r) (auto simp: stopped_def aborted_def rz_dated)
  from completed_account [OF cy(2)] obtain r1 r2
    where t: "account_ok_now rz_env t" "at_integrity t = at_integrity rz_account @ [r1, r2]" by blast
  obtain p l where p: "current_state (rv_ledger rz_env) None (at_ledger t) = (Inr p, l)"
    using current_state_defined [OF rz_uuid, of "at_ledger t" None] t(1) by (auto simp: account_ok_now_def)
  have "latest_integrity t = Some (ir_snapshot r2)"
    using acct_latest [of rz_env "\<lambda>_. True" t] t by (simp add: account_ok_now_def acct_def latest_of_def)
  with run cy(1) p show thesis by (intro that) auto
qed


theorem integrity_snapshot_honest_witness:
  "\<exists>t p l i. snd (rz_second [rz_old_quote]) = t \<and> current_state (rv_ledger rz_env) None (at_ledger t) = (Inr p, l)
     \<and> latest_integrity t = Some i \<and> (ig_valuation_status i = Cash_only) = (ps_positions p = [])
     \<and> ig_cycle_status i \<noteq> Successful"
proof -
  obtain cy t p' l' i where f: "resilient_cycle rz_env (rz_feed [rz_old_quote] 3600000000) rz_times_out rz_account = (Inr cy, t)"
    "current_state (rv_ledger rz_env) None (at_ledger t) = (Inr p', l')" "latest_integrity t = Some i" by (rule rz_second_reads)
  obtain p l h where h: "current_state (rv_ledger rz_env) (Some 3600000000) (at_ledger rz_account) = (Inr p, l)"
    "h \<in> set (ps_positions p)" "pp_due_at h = 3600000000"
    "quote_for (quote_index [rz_old_quote]) h = Some rz_old_quote" by (rule rz_state_held)
  let ?scan = "rz_scan [rz_old_quote] 3600000000"
  have now: "current_state (rv_ledger rz_env) (Some (cn_completed_at ?scan)) (at_ledger rz_account) = (Inr p, l)"
    using h(1) by (simp add: rz_scan_def)
  note honest = integrity_snapshot_honest [OF rz_uuid rz_reachable rz_stages(2) rz_collected now rz_events f]
  have "unvalued (quote_index (cn_market_quotes ?scan)) (cn_completed_at ?scan) prior h" for prior
    using h(3,4) by (simp add: unvalued_def rz_scan_def rz_old_quote_def)
  then have "ig_cycle_status i \<noteq> Successful" using honest h(2) by blast
  moreover have "(ig_valuation_status i = Cash_only) = (ps_positions p' = [])" using honest by blast
  ultimately show ?thesis using f(2,3) by (auto simp: rz_second_def f(1))
qed

end
