(* ===== verification/Alpha_Statistics.thy ===== *)
theory Alpha_Statistics
  imports Quantiles
begin

text \<open>
  The statistics of alpha_factory.py: the lower end of the Wilson interval, the lower end of the
  normal interval of a mean, and the interpolated quantile.
\<close>

definition wilson_lower :: "nat \<Rightarrow> nat \<Rightarrow> real \<Rightarrow> real option" where
  "wilson_lower successes n z =
     (if n = 0 then None
      else let p = real successes / real n;
               denominator = 1 + z * z / real n;
               center = p + z * z / (2 * real n);
               margin = z * sqrt ((p * (1 - p) + z * z / (4 * real n)) / real n)
           in Some (max 0 ((center - margin) / denominator)))"

definition mean_lower :: "real list \<Rightarrow> real \<Rightarrow> real option" where
  "mean_lower values z =
     (if values = [] then None
      else if length values < 2 then Some (fmean values)
      else Some (fmean values - z * stdev values / sqrt (real (length values))))"

definition alpha_quantile :: "real list \<Rightarrow> real \<Rightarrow> real option" where
  "alpha_quantile values q =
     (if values = [] then None
      else let ordered = sort values in
        if length ordered = 1 then Some (ordered ! 0)
        else let position = max 0 (min 1 q) * real (length ordered - 1);
                 lower = nat \<lfloor>position\<rfloor>;
                 upper = nat \<lceil>position\<rceil>
             in if lower = upper then Some (ordered ! lower)
                else let weight = position - real lower
                     in Some (ordered ! lower * (1 - weight) + ordered ! upper * weight))"

text \<open>The default confidence of the program.\<close>

definition z_default :: real where
  "z_default = 1.96"

lemma wilson_lower_None [simp]: "wilson_lower k n z = None \<longleftrightarrow> n = 0"
  by (simp add: wilson_lower_def Let_def)

lemma mean_lower_None [simp]: "mean_lower xs z = None \<longleftrightarrow> xs = []"
  by (simp add: mean_lower_def)

text \<open>Both lower ends are below what they bound.\<close>

lemma mean_lower_le: "mean_lower xs z = Some l \<Longrightarrow> 0 \<le> z \<Longrightarrow> l \<le> fmean xs"
  by (auto simp: mean_lower_def split: if_splits)

lemma wilson_lower_bounds:
  assumes "wilson_lower k n z = Some l" and "k \<le> n" and "0 \<le> z"
  shows "0 \<le> l" and "l \<le> real k / real n"
proof -
  define m p where "m = real n" and "p = real k / real n"
  have n: "0 < m" using assms(1) by (auto simp: wilson_lower_def m_def split: if_splits)
  have p: "0 \<le> p" "p \<le> 1" using n assms(2) by (simp_all add: p_def m_def)
  define d where "d = 1 + z * z / m"
  have d: "1 \<le> d" using n by (simp add: d_def)
  have l: "l = max 0 ((p + z * z / (2 * m) - z * sqrt ((p * (1 - p) + z * z / (4 * m)) / m)) / d)"
    using assms(1) by (auto simp: wilson_lower_def Let_def p_def m_def d_def split: if_splits)
  show "0 \<le> l" by (simp add: l)
  let ?a = "z / (2 * m)"
  have "z * z / (4 * m) / m = ?a * ?a" using n by (simp add: field_simps)
  moreover have "sqrt (?a * ?a) = ?a" using n assms(3) real_sqrt_abs2 [of ?a] by simp
  ultimately have "sqrt (z * z / (4 * m) / m) = ?a" by (simp only:)
  moreover have "sqrt (z * z / (4 * m) / m) \<le> sqrt ((p * (1 - p) + z * z / (4 * m)) / m)"
    using p n by (intro real_sqrt_le_mono divide_right_mono) (auto simp: mult_nonneg_nonneg)
  ultimately have "z * ?a \<le> z * sqrt ((p * (1 - p) + z * z / (4 * m)) / m)"
    using assms(3) by (intro mult_left_mono) simp_all
  then have "p + z * z / (2 * m) - z * sqrt ((p * (1 - p) + z * z / (4 * m)) / m) \<le> p" by simp
  also have "p \<le> p * d" using p(1) d by (simp add: mult_le_cancel_left1)
  finally have "(p + z * z / (2 * m) - z * sqrt ((p * (1 - p) + z * z / (4 * m)) / m)) / d \<le> p"
    using d by (simp add: pos_divide_le_eq)
  then show "l \<le> real k / real n" using p(1) by (simp add: l p_def)
qed

text \<open>The two quantiles of the program are the same function.\<close>

lemma alpha_quantile_eq: "alpha_quantile xs q = quantile xs q"
proof (cases "length xs \<le> 1")
  case True
  then show ?thesis by (cases xs) (auto simp: alpha_quantile_def quantile_def)
next
  case False
  define n where "n = length xs - 1"
  have n: "1 \<le> n" "length (sort xs) = Suc n" using False by (auto simp: n_def)
  define pos where "pos = max 0 (min 1 q) * real n"
  have pos: "0 \<le> pos" "pos \<le> real n" by (auto simp: pos_def mult_left_le_one_le)
  have clip: "max 0 (min 1 q) = min 1 (max 0 q)" by (simp add: max_def min_def)
  have quant: "quantile xs q = Some (sort xs ! nat \<lfloor>pos\<rfloor> + (sort xs ! min (nat \<lfloor>pos\<rfloor> + 1) n - sort xs ! nat \<lfloor>pos\<rfloor>)
      * (pos - real (nat \<lfloor>pos\<rfloor>)))"
    using False n by (auto simp: quantile_def Let_def pos_def clip mult.commute n_def)
  have alpha: "alpha_quantile xs q = Some (if nat \<lfloor>pos\<rfloor> = nat \<lceil>pos\<rceil> then sort xs ! nat \<lfloor>pos\<rfloor>
      else sort xs ! nat \<lfloor>pos\<rfloor> * (1 - (pos - real (nat \<lfloor>pos\<rfloor>))) + sort xs ! nat \<lceil>pos\<rceil> * (pos - real (nat \<lfloor>pos\<rfloor>)))"
    using False n by (auto simp: alpha_quantile_def Let_def pos_def n_def)
  show ?thesis
  proof (cases "pos = of_int \<lfloor>pos\<rfloor>")
    case True
    then have "\<lceil>pos\<rceil> = \<lfloor>pos\<rfloor>" by (metis ceiling_of_int)
    moreover have "real (nat \<lfloor>pos\<rfloor>) = pos" using True pos(1) by (simp add: of_nat_nat)
    ultimately show ?thesis by (simp add: quant alpha)
  next
    case False
    then have c: "\<lceil>pos\<rceil> = \<lfloor>pos\<rfloor> + 1" by (simp add: ceiling_altdef)
    have "of_int \<lfloor>pos\<rfloor> < real n" using False pos(2) by linarith
    then have "nat \<lfloor>pos\<rfloor> + 1 \<le> n" using pos(1) by linarith
    moreover have "nat \<lceil>pos\<rceil> = nat \<lfloor>pos\<rfloor> + 1" using pos(1) by (simp add: c nat_add_distrib)
    ultimately show ?thesis by (simp add: quant alpha algebra_simps)
  qed
qed

end
