(* ===== verification/Alpha_Factory.thy ===== *)
theory Alpha_Factory
  imports Alpha_Statistics Unified_Allocation Execution Actions
begin

text \<open>
  alpha_factory.py, first part: the records of the alpha research, the momentum strategy, the
  registry of strategies, and what a position would cost now.  A strategy draws the identifiers
  of its candidates from the stream of uuid4 values, so that its discovery is an action on the
  number of values drawn.  The stored history is a function from venue, asset and market kind to
  quotes, as \<open>dict.get(key, [])\<close> is.
\<close>

section \<open>Records\<close>

record alpha_manifest =
  mf_strategy_id :: string
  mf_family :: string
  mf_description :: string
  mf_predictive :: bool
  mf_horizons_hours :: "real list"
  mf_requires_l2_for_promotion :: bool
  mf_allocation_authority :: bool
  mf_live_execution_authority :: bool
  mf_paper_only :: bool

datatype alpha_regime = Low_vol | Normal_vol | High_vol

datatype alpha_stage = Research | Paper_qualified

text \<open>The whole candidate: what the allocator reads of it, and the rest.\<close>

record alpha_cand = alpha_row +
  al_family :: string
  al_lookback_hours :: real
  al_expected_gross_return :: real
  al_confidence_score :: real
  al_regime :: alpha_regime
  al_features :: "(string \<times> pyobj) list"
  al_stage :: alpha_stage
  al_paper_allocation_eligible :: bool
  al_executable_eligible :: bool
  al_live_execution_eligible :: bool
  al_paper_only :: bool

definition alpha_cand_ok :: "alpha_cand \<Rightarrow> bool" where
  "alpha_cand_ok c \<longleftrightarrow> 0 < al_horizon_hours c \<and> 0 < al_lookback_hours c \<and> 0 < al_entry_reference_price c
     \<and> 0 \<le> al_estimated_cost_return c \<and> 0 < al_notional_usd c \<and> 0 < al_capital_required_usd c
     \<and> 0 \<le> al_confidence_score c \<and> al_confidence_score c \<le> 1"

definition checked_alpha_cand :: "alpha_cand \<Rightarrow> alpha_cand result" where
  "checked_alpha_cand c = (if alpha_cand_ok c then Inr c else Inl (ValidationError ''AlphaCandidate''))"

lemma checked_alpha_cand_Inr [simp]: "checked_alpha_cand c = Inr d \<longleftrightarrow> alpha_cand_ok c \<and> d = c"
  by (auto simp: checked_alpha_cand_def)

record alpha_signal =
  fw_signal_id :: string
  fw_candidate :: alpha_cand
  fw_due_at :: time
  fw_recorded_at :: time
  fw_paper_only :: bool

record alpha_outcome =
  fo_signal_id :: string
  fo_strategy_id :: string
  fo_family :: string
  fo_asset :: string
  fo_direction :: alpha_direction
  fo_venue :: string
  fo_market_kind :: market_kind
  fo_symbol :: string
  fo_observed_at :: time
  fo_due_at :: time
  fo_matured_at :: time
  fo_horizon_hours :: real
  fo_regime :: alpha_regime
  fo_predicted_net_return :: real
  fo_entry_price :: real
  fo_exit_price :: real
  fo_realized_gross_return :: real
  fo_realized_net_return :: real
  fo_correct_direction :: bool
  fo_paper_only :: bool

record alpha_qualification =
  aq_strategy_id :: string
  aq_family :: string
  aq_asset :: string
  aq_direction :: alpha_direction
  aq_sample_count :: nat
  aq_positive_count :: nat
  aq_hit_rate :: "real option"
  aq_hit_rate_ci_lower :: "real option"
  aq_mean_realized_net_return :: "real option"
  aq_mean_realized_net_return_ci_lower :: "real option"
  aq_p10_realized_net_return :: "real option"
  aq_worst_realized_net_return :: "real option"
  aq_regime_count :: nat
  aq_regime_means :: "(alpha_regime \<times> real) list"
  aq_multiple_testing_penalty_return :: real
  aq_required_mean_lower_bound :: real
  aq_statistically_qualified :: bool
  aq_blockers :: "string list"
  aq_paper_allocation_authority :: bool
  aq_live_execution_authority :: bool
  aq_paper_only :: bool

record alpha_evidence_cycle =
  ay_cycle_id :: string
  ay_observed_at :: time
  ay_candidate_count :: nat
  ay_signals_recorded :: nat
  ay_outcomes_matured :: nat
  ay_paper_only :: bool

text \<open>What a strategy reads of a scan, and what it is.\<close>

record market_scan =
  mn_completed_at :: time
  mn_market_quotes :: "market_quote list"
  mn_funding_quotes :: "funding_quote list"

type_synonym history_key = "string \<times> string \<times> market_kind"

type_synonym alpha_history = "history_key \<Rightarrow> market_quote list"

type_synonym 'a drawing = "(nat, 'a) action"

record alpha_strategy =
  st_manifest :: alpha_manifest
  st_discover :: "market_scan \<Rightarrow> alpha_history \<Rightarrow> settings \<Rightarrow> real \<Rightarrow> alpha_cand list drawing"

definition draw :: "(nat \<Rightarrow> string) \<Rightarrow> string drawing" where
  "draw uuid = (\<lambda>n. (Inr (uuid n), Suc n))"

section \<open>The momentum strategy\<close>

definition momentum_id :: string where
  "momentum_id = ''time_series_momentum_v1''"

definition momentum_manifest :: alpha_manifest where
  "momentum_manifest = \<lparr>mf_strategy_id = momentum_id, mf_family = ''directional_time_series'',
     mf_description = ''Volatility-scaled time-series momentum with conservative forecast shrinkage.'',
     mf_predictive = True, mf_horizons_hours = [6], mf_requires_l2_for_promotion = True,
     mf_allocation_authority = False, mf_live_execution_authority = False, mf_paper_only = True\<rparr>"

definition by_time :: "market_quote list \<Rightarrow> market_quote list" where
  "by_time qs = sort_key mq_observed_at qs"

definition log_returns :: "market_quote list \<Rightarrow> real list" where
  "log_returns qs = (let ordered = by_time qs in
     map (\<lambda>(p, c). ln (mq_mid c / mq_mid p))
       (filter (\<lambda>(p, c). mq_mid p > 0 \<and> mq_mid c > 0) (zip ordered (tl ordered))))"

definition vol_regime :: "real list \<Rightarrow> alpha_regime" where
  "vol_regime returns =
     (if length returns < 2 then Normal_vol
      else let vol = pstdev returns
           in if vol < 0.0015 then Low_vol else if vol > 0.008 then High_vol else Normal_vol)"

definition hours :: "real \<Rightarrow> int" where
  "hours h = timedelta_seconds (h * 3600)"

text \<open>The past quotes of an instrument that the signal is computed from.\<close>

definition momentum_window :: "settings \<Rightarrow> real \<Rightarrow> market_quote \<Rightarrow> market_quote list \<Rightarrow> market_quote list option" where
  "momentum_window s lookback q past =
     (let series = filter (\<lambda>x. mq_observed_at x \<le> mq_observed_at q) past in
      if int (length series) < se_alpha_min_history_points s then None
      else let cutoff = mq_observed_at q - hours lookback;
               window = filter (\<lambda>x. mq_observed_at x \<ge> cutoff) (by_time series)
           in if int (length window) < se_alpha_min_history_points s then None else Some window)"

definition alpha_notional :: "settings \<Rightarrow> real \<Rightarrow> real" where
  "alpha_notional s capital =
     min (max (se_alpha_min_notional_usd s) (capital * se_alpha_candidate_capital_fraction s)) capital"

definition alpha_capital :: "settings \<Rightarrow> market_kind \<Rightarrow> real \<Rightarrow> real" where
  "alpha_capital s kind notional = max 1 (notional * max (1 / 100)
     (if kind = SPOT then se_spot_collateral_fraction s else se_perp_collateral_fraction s))"

definition candidate_id :: "string \<Rightarrow> string \<Rightarrow> market_quote \<Rightarrow> string \<Rightarrow> string" where
  "candidate_id strategy asset q drawn = ''alpha:'' @ strategy @ '':'' @ asset @ '':'' @ mq_venue q @ '':''
     @ market_kind_value (mq_market_kind q) @ '':'' @ take 12 drawn"

definition instrument_conflict :: "market_quote \<Rightarrow> string" where
  "instrument_conflict q = ''alpha-instrument:'' @ mq_venue q @ '':'' @ mq_symbol q"

definition momentum_direction :: "real \<Rightarrow> alpha_direction" where
  "momentum_direction trailing = (if trailing > 0 then Alpha_long else Alpha_short)"

text \<open>Whether a move is a signal on this instrument; spot is preferred for a long position.\<close>

definition momentum_signal :: "settings \<Rightarrow> market_quote list \<Rightarrow> market_quote \<Rightarrow> real \<Rightarrow> bool" where
  "momentum_signal s current q trailing \<longleftrightarrow>
     \<not> \<bar>trailing\<bar> < se_alpha_momentum_min_abs_return s
     \<and> \<not> (momentum_direction trailing = Alpha_short \<and> mq_market_kind q \<noteq> PERPETUAL)
     \<and> \<not> (momentum_direction trailing = Alpha_long \<and> mq_market_kind q = PERPETUAL
          \<and> (\<exists>x \<in> set current. mq_market_kind x = SPOT))"

definition momentum_scaled :: "settings \<Rightarrow> real \<Rightarrow> real \<Rightarrow> real \<Rightarrow> real" where
  "momentum_scaled s horizon lookback trailing =
     (let scaled = trailing * (horizon / lookback) * max 0 (min 1 (se_alpha_forecast_shrinkage s))
      in if momentum_direction trailing = Alpha_short then \<bar>scaled\<bar> else scaled)"

definition momentum_candidate ::
  "settings \<Rightarrow> real \<Rightarrow> real \<Rightarrow> real \<Rightarrow> string \<Rightarrow> market_quote \<Rightarrow> market_quote list \<Rightarrow> real \<Rightarrow> string \<Rightarrow> alpha_cand" where
  "momentum_candidate s capital horizon lookback asset q window trailing drawn =
     (let realized = log_returns window;
          vol = (if length realized \<ge> 2 then pstdev realized else 0);
          scaled = momentum_scaled s horizon lookback trailing;
          cost = se_alpha_research_cost_floor_bps s / 10000;
          net = scaled - cost;
          notional = alpha_notional s capital
      in \<lparr>al_candidate_id = candidate_id momentum_id asset q drawn, al_strategy_id = momentum_id,
          al_asset = asset, al_direction = momentum_direction trailing, al_venue = mq_venue q,
          al_market_kind = mq_market_kind q, al_symbol = mq_symbol q, al_observed_at = mq_observed_at q,
          al_horizon_hours = horizon, al_entry_reference_price = mq_mid q,
          al_estimated_cost_return = cost, al_expected_net_return = net,
          al_expected_profit_usd = notional * net, al_notional_usd = notional,
          al_capital_required_usd = alpha_capital s (mq_market_kind q) notional,
          al_conflict_keys = [instrument_conflict q], al_family = ''directional_time_series'',
          al_lookback_hours = lookback, al_expected_gross_return = scaled,
          al_confidence_score = min 1 (\<bar>trailing\<bar> / max (1 / 100) (3 * max vol (1 / 10 ^ 6))),
          al_regime = vol_regime realized,
          al_features = [(''trailing_return'', PFloat trailing), (''realized_log_return_vol'', PFloat vol),
            (''history_points'', PInt (int (length window))),
            (''forecast_shrinkage'', PFloat (max 0 (min 1 (se_alpha_forecast_shrinkage s))))],
          al_stage = Research, al_paper_allocation_eligible = False, al_executable_eligible = False,
          al_live_execution_eligible = False, al_paper_only = True\<rparr>)"

text \<open>The body of the loop over the quotes of an asset.\<close>

definition momentum_quote ::
  "(nat \<Rightarrow> string) \<Rightarrow> settings \<Rightarrow> real \<Rightarrow> alpha_history \<Rightarrow> string \<Rightarrow> market_quote list \<Rightarrow> market_quote
     \<Rightarrow> alpha_cand list \<Rightarrow> alpha_cand list drawing" where
  "momentum_quote uuid s capital past asset current q scored =
     (let horizon = max (1 / 4) (se_alpha_momentum_horizon_hours s);
          lookback = max horizon (se_alpha_momentum_lookback_hours s)
      in case momentum_window s lookback q (past (mq_venue q, asset, mq_market_kind q)) of
           None \<Rightarrow> alift (Inr scored)
         | Some [] \<Rightarrow> alift (Inl IndexError)
         | Some (first # rest) \<Rightarrow>
             if mq_mid first \<le> 0 \<or> mq_mid q \<le> 0 then alift (Inr scored)
             else let trailing = mq_mid q / mq_mid first - 1 in
               if \<not> momentum_signal s current q trailing
                  \<or> momentum_scaled s horizon lookback trailing - se_alpha_research_cost_floor_bps s / 10000 \<le> 0
               then alift (Inr scored)
               else abind (draw uuid) (\<lambda>drawn.
                    abind (alift (checked_alpha_cand
                      (momentum_candidate s capital horizon lookback asset q (first # rest) trailing drawn))) (\<lambda>c.
                    alift (Inr (scored @ [c])))))"

definition tradable_by_asset :: "market_quote list \<Rightarrow> (string \<times> market_quote list) list" where
  "tradable_by_asset qs =
     group_by (\<lambda>q. upper (mq_asset q)) (filter (\<lambda>q. mq_market_kind q \<in> {SPOT, PERPETUAL}) qs)"

definition momentum_asset ::
  "(nat \<Rightarrow> string) \<Rightarrow> settings \<Rightarrow> real \<Rightarrow> alpha_history \<Rightarrow> string \<times> market_quote list \<Rightarrow> alpha_cand list
     \<Rightarrow> alpha_cand list drawing" where
  "momentum_asset uuid s capital past g rows =
     (case g of (asset, current) \<Rightarrow>
        abind (afold (momentum_quote uuid s capital past asset current) current []) (\<lambda>scored.
        alift (Inr (rows @ take 1 (sort_desc al_expected_net_return scored)))))"

definition momentum_discover ::
  "(nat \<Rightarrow> string) \<Rightarrow> market_scan \<Rightarrow> alpha_history \<Rightarrow> settings \<Rightarrow> real \<Rightarrow> alpha_cand list drawing" where
  "momentum_discover uuid scan past s capital =
     afold (momentum_asset uuid s capital past) (tradable_by_asset (mn_market_quotes scan)) []"

definition momentum_strategy :: "(nat \<Rightarrow> string) \<Rightarrow> alpha_strategy" where
  "momentum_strategy uuid = \<lparr>st_manifest = momentum_manifest, st_discover = momentum_discover uuid\<rparr>"

section \<open>The registry\<close>

definition alpha_registry :: "(nat \<Rightarrow> string) \<Rightarrow> alpha_strategy list \<Rightarrow> alpha_strategy list result" where
  "alpha_registry uuid strategies =
     (let given = (if strategies = [] then [momentum_strategy uuid] else strategies);
          ids = map (\<lambda>x. mf_strategy_id (st_manifest x)) given
      in if length ids \<noteq> card (set ids) then Inl (ValueError ''alpha strategy ids must be unique'') else Inr given)"

definition alpha_manifests :: "alpha_strategy list \<Rightarrow> alpha_manifest list" where
  "alpha_manifests registry = map st_manifest registry"

definition promise_key :: "alpha_cand \<Rightarrow> real \<times> real" where
  "promise_key c = (al_expected_net_return c, al_confidence_score c)"

definition registry_discover ::
  "alpha_strategy list \<Rightarrow> market_scan \<Rightarrow> alpha_history \<Rightarrow> settings \<Rightarrow> real \<Rightarrow> alpha_cand list drawing" where
  "registry_discover registry scan past s capital =
     abind (afold (\<lambda>x rows. abind (st_discover x scan past s capital) (\<lambda>found. alift (Inr (rows @ found))))
       registry []) (\<lambda>rows. alift (Inr (sort_desc promise_key rows)))"

section \<open>What a position would cost now\<close>

definition one_way_fee_bps :: "settings \<Rightarrow> string \<Rightarrow> market_kind \<Rightarrow> real option" where
  "one_way_fee_bps s venue kind =
     (if venue = ''Coinbase'' \<and> kind = SPOT then Some (se_coinbase_spot_taker_fee_bps s)
      else if venue = ''Kraken'' \<and> kind = SPOT then Some (se_kraken_spot_taker_fee_bps s)
      else if venue = ''Bybit''
      then Some (if kind = SPOT then se_bybit_spot_taker_fee_bps s else se_bybit_derivatives_taker_fee_bps s)
      else if venue = ''OKX''
      then Some (if kind = SPOT then se_okx_spot_taker_fee_bps s else se_okx_derivatives_taker_fee_bps s)
      else if venue = ''HlPerp'' \<and> kind = PERPETUAL then Some (se_hyperliquid_perp_taker_fee_bps s)
      else None)"

definition alpha_leg :: "alpha_cand \<Rightarrow> opportunity_leg" where
  "alpha_leg c = \<lparr>lg_venue = al_venue c, lg_asset = al_asset c, lg_market_kind = al_market_kind c,
     lg_side = (if al_direction c = Alpha_long then LONG else SHORT), lg_symbol = Some (al_symbol c),
     lg_quote_currency = None, lg_contract_key = None, lg_expires_at = None,
     lg_reference_price = Some (al_entry_reference_price c)\<rparr>"

text \<open>
  \<open>books\<close> is what the adapters answer to the request for the book of a leg: nothing, when no
  adapter serves it, or a book or an exception, once it is awaited.
\<close>

definition current_l2_cost ::
  "settings \<Rightarrow> (opportunity_leg \<Rightarrow> order_book_snapshot result option) \<Rightarrow> alpha_cand \<Rightarrow> real option" where
  "current_l2_cost s books c =
     (case books (alpha_leg c) of
        None \<Rightarrow> None
      | Some awaited \<Rightarrow>
          (case rbind awaited (\<lambda>b. estimate_market_order b
                  (if al_direction c = Alpha_long then BUY else SELL) (al_notional_usd c) True) of
             Inl e \<Rightarrow> None
           | Inr estimate \<Rightarrow>
               (case one_way_fee_bps s (al_venue c) (al_market_kind c) of
                  None \<Rightarrow> None
                | Some fee \<Rightarrow> Some (max 0 ((2 * fee + ee_slippage_bps estimate * (1 + se_exit_slippage_multiplier s)
                    + se_alpha_execution_risk_floor_bps s) / 10000)))))"

section \<open>The contract of a strategy\<close>

text \<open>
  A strategy is point in time when quotes later than those of the scan make no difference: it finds
  the same candidates, under the same identifiers, on the history cut off at the scan.
\<close>

definition until :: "time \<Rightarrow> alpha_history \<Rightarrow> alpha_history" where
  "until t past = (\<lambda>k. filter (\<lambda>x. mq_observed_at x \<le> t) (past k))"

locale point_in_time =
  fixes discover :: "market_scan \<Rightarrow> alpha_history \<Rightarrow> settings \<Rightarrow> real \<Rightarrow> alpha_cand list drawing"
  assumes seen_only: "\<forall>q \<in> set (mn_market_quotes scan). mq_observed_at q \<le> t \<Longrightarrow>
    discover scan (until t past) s capital = discover scan past s capital"
begin

lemma later_ignored:
  assumes "\<forall>q \<in> set (mn_market_quotes scan). mq_observed_at q \<le> t"
    and "\<And>k. filter (\<lambda>x. mq_observed_at x \<le> t) (past k) = filter (\<lambda>x. mq_observed_at x \<le> t) (past' k)"
  shows "discover scan past s capital = discover scan past' s capital"
proof -
  have "until t past = until t past'" unfolding until_def by (rule ext) (rule assms(2))
  then show ?thesis using seen_only [OF assms(1), of past] seen_only [OF assms(1), of past'] by metis
qed

lemma appended_ignored:
  assumes "\<forall>q \<in> set (mn_market_quotes scan). mq_observed_at q \<le> t" and "\<And>k. \<forall>x \<in> set (later k). t < mq_observed_at x"
  shows "discover scan (\<lambda>k. past k @ later k) s capital = discover scan past s capital"
proof (rule later_ignored [OF assms(1)])
  have "filter (\<lambda>x. mq_observed_at x \<le> t) (later k) = []" for k using assms(2) [of k] by (auto simp: filter_empty_conv)
  then show "filter (\<lambda>x. mq_observed_at x \<le> t) (past k @ later k) = filter (\<lambda>x. mq_observed_at x \<le> t) (past k)" for k by simp
qed

end

end
