(* ===== verification/Alpha_Health.thy ===== *)
theory Alpha_Health
  imports Alpha_Factory
begin

text \<open>
  alpha_risk.py: whether an edge that was earned still looks healthy, and how much of the capital
  it keeps.  The settings are the defaults of the view in expanded_alpha_factory.py.
\<close>

record health_settings =
  hs_recent_window :: int
  hs_min_recent_samples :: int
  hs_min_recent_mean_return :: real
  hs_min_recent_hit_rate :: real
  hs_min_capture_ratio :: real
  hs_full_capture_ratio :: real
  hs_min_recent_to_long_ratio :: real
  hs_max_drawdown :: real
  hs_max_trailing_losses :: int
  hs_capital_multiplier_floor :: real

definition default_health_settings :: health_settings where
  "default_health_settings = \<lparr>hs_recent_window = 12, hs_min_recent_samples = 8,
     hs_min_recent_mean_return = 1 / 4000, hs_min_recent_hit_rate = 1 / 2, hs_min_capture_ratio = 7 / 20,
     hs_full_capture_ratio = 4 / 5, hs_min_recent_to_long_ratio = 7 / 20, hs_max_drawdown = 3 / 50,
     hs_max_trailing_losses = 4, hs_capital_multiplier_floor = 1 / 4\<rparr>"

record alpha_health =
  ah_strategy_id :: string
  ah_family :: string
  ah_asset :: string
  ah_direction :: alpha_direction
  ah_sample_count :: nat
  ah_recent_sample_count :: nat
  ah_recent_mean_net_return :: "real option"
  ah_recent_hit_rate :: "real option"
  ah_long_run_mean_net_return :: "real option"
  ah_forecast_capture_ratio_median :: "real option"
  ah_recent_to_long_run_ratio :: "real option"
  ah_max_compounded_drawdown :: "real option"
  ah_trailing_loss_streak :: nat
  ah_calibration_mae :: "real option"
  ah_health_score :: real
  ah_capital_multiplier :: real
  ah_healthy_for_paper_allocation :: bool
  ah_blockers :: "string list"
  ah_live_execution_authority :: bool
  ah_paper_only :: bool

definition alpha_health_ok :: "alpha_health \<Rightarrow> bool" where
  "alpha_health_ok h \<longleftrightarrow> 0 \<le> ah_health_score h \<and> ah_health_score h \<le> 1
     \<and> 0 \<le> ah_capital_multiplier h \<and> ah_capital_multiplier h \<le> 1"

definition clamp :: "real \<Rightarrow> real" where
  "clamp x = max 0 (min 1 x)"

text \<open>Wealth, its peak and the worst fall from it.\<close>

definition drawdown_step :: "real \<times> real \<times> real \<Rightarrow> real \<Rightarrow> real \<times> real \<times> real" where
  "drawdown_step a v = (case a of (wealth0, peak0, worst) \<Rightarrow>
     let wealth = wealth0 * (1 + max (- 0.99) v); peak = max peak0 wealth
     in (wealth, peak, if peak > 0 then max worst (1 - wealth / peak) else worst))"

definition max_compounded_drawdown :: "real list \<Rightarrow> real" where
  "max_compounded_drawdown values = snd (snd (foldl drawdown_step (1, 1, 0) values))"

definition trailing_loss_streak :: "real list \<Rightarrow> nat" where
  "trailing_loss_streak values = length (takeWhile (\<lambda>v. v < 0) (rev values))"

definition opt_list :: "('a list \<Rightarrow> 'b) \<Rightarrow> 'a list \<Rightarrow> 'b option" where
  "opt_list f xs = (if xs = [] then None else Some (f xs))"

definition below :: "real option \<Rightarrow> real \<Rightarrow> bool" where
  "below x y \<longleftrightarrow> (case x of None \<Rightarrow> True | Some v \<Rightarrow> v < y)"

definition at_most :: "real option \<Rightarrow> real \<Rightarrow> bool" where
  "at_most x y \<longleftrightarrow> (case x of None \<Rightarrow> True | Some v \<Rightarrow> v \<le> y)"

definition above :: "real option \<Rightarrow> real \<Rightarrow> bool" where
  "above x y \<longleftrightarrow> (case x of None \<Rightarrow> True | Some v \<Rightarrow> v > y)"

definition hit_rate :: "real list \<Rightarrow> real" where
  "hit_rate values = real (length (filter (\<lambda>v. v > 0) values)) / real (length values)"

definition outcome_order :: "alpha_outcome \<Rightarrow> time \<times> string" where
  "outcome_order u = (fo_matured_at u, fo_signal_id u)"

definition capture_ratios :: "alpha_outcome list \<Rightarrow> real list" where
  "capture_ratios us = map (\<lambda>u. fo_realized_net_return u / fo_predicted_net_return u)
     (filter (\<lambda>u. fo_predicted_net_return u > 1 / 10 ^ 12) us)"

definition recent_to_long :: "real option \<Rightarrow> real option \<Rightarrow> real option" where
  "recent_to_long recent long = (case (recent, long) of
     (Some r, Some l) \<Rightarrow> if l > 1 / 10 ^ 12 then Some (r / l) else None | _ \<Rightarrow> None)"

definition health_blockers ::
  "health_settings \<Rightarrow> nat \<Rightarrow> real option \<Rightarrow> real option \<Rightarrow> real option \<Rightarrow> real option \<Rightarrow> nat \<Rightarrow> string list" where
  "health_blockers hs recent_count recent capture ratio drawdown streak =
     (if int recent_count < hs_min_recent_samples hs
      then [''insufficient recent independent outcomes for health sizing''] else [])
     @ (if at_most recent (hs_min_recent_mean_return hs)
        then [''recent mean net return is below health hurdle''] else [])
     @ (if below capture (hs_min_capture_ratio hs)
        then [''realized-to-predicted capture ratio has degraded''] else [])
     @ (if below ratio (hs_min_recent_to_long_ratio hs)
        then [''recent performance has decayed versus long-run evidence''] else [])
     @ (if above drawdown (hs_max_drawdown hs) then [''forward outcome drawdown exceeds health limit''] else [])
     @ (if int streak \<ge> hs_max_trailing_losses hs
        then [''consecutive forward losses exceed health limit''] else [])"

definition value_of :: "real option \<Rightarrow> real" where
  "value_of x = (case x of None \<Rightarrow> 0 | Some v \<Rightarrow> v)"

text \<open>The four components, each between zero and one; the capture ratio is present when it is used.\<close>

definition health_score :: "health_settings \<Rightarrow> real option \<Rightarrow> real option \<Rightarrow> real option \<Rightarrow> real option \<Rightarrow> real" where
  "health_score hs capture hit ratio drawdown = fmean
     [clamp ((value_of capture - hs_min_capture_ratio hs)
        / max (1 / 10 ^ 9) (hs_full_capture_ratio hs - hs_min_capture_ratio hs)),
      clamp ((value_of hit - hs_min_recent_hit_rate hs) / max (1 / 10 ^ 9) (1 - hs_min_recent_hit_rate hs)),
      clamp ((value_of ratio - hs_min_recent_to_long_ratio hs)
        / max (1 / 10 ^ 9) (1 - hs_min_recent_to_long_ratio hs)),
      clamp (1 - value_of drawdown / max (1 / 10 ^ 9) (hs_max_drawdown hs))]"

definition health_multiplier :: "health_settings \<Rightarrow> string list \<Rightarrow> real \<Rightarrow> real" where
  "health_multiplier hs blockers score =
     (if blockers \<noteq> [] then 0
      else clamp (hs_capital_multiplier_floor hs) + (1 - clamp (hs_capital_multiplier_floor hs)) * score)"

definition recent_values :: "health_settings \<Rightarrow> real list \<Rightarrow> real list" where
  "recent_values hs values = drop (length values - nat (max 1 (hs_recent_window hs))) values"

definition health_of :: "health_settings \<Rightarrow> alpha_cand \<Rightarrow> alpha_outcome list \<Rightarrow> alpha_health" where
  "health_of hs c ordered =
     (let values = map fo_realized_net_return ordered;
          recent = recent_values hs values;
          long_mean = opt_list fmean values;
          recent_mean = opt_list fmean recent;
          recent_hit = opt_list hit_rate recent;
          capture = opt_list median (capture_ratios ordered);
          ratio = recent_to_long recent_mean long_mean;
          drawdown = opt_list max_compounded_drawdown values;
          streak = trailing_loss_streak values;
          blockers = health_blockers hs (length recent) recent_mean capture ratio drawdown streak;
          score = (if blockers \<noteq> [] then 0 else health_score hs capture recent_hit ratio drawdown)
      in \<lparr>ah_strategy_id = al_strategy_id c, ah_family = al_family c, ah_asset = al_asset c,
          ah_direction = al_direction c, ah_sample_count = length values,
          ah_recent_sample_count = length recent, ah_recent_mean_net_return = recent_mean,
          ah_recent_hit_rate = recent_hit, ah_long_run_mean_net_return = long_mean,
          ah_forecast_capture_ratio_median = capture, ah_recent_to_long_run_ratio = ratio,
          ah_max_compounded_drawdown = drawdown, ah_trailing_loss_streak = streak,
          ah_calibration_mae = opt_list fmean
            (map (\<lambda>u. \<bar>fo_realized_net_return u - fo_predicted_net_return u\<bar>) ordered),
          ah_health_score = score, ah_capital_multiplier = health_multiplier hs blockers score,
          ah_healthy_for_paper_allocation = (blockers = []), ah_blockers = blockers,
          ah_live_execution_authority = False, ah_paper_only = True\<rparr>)"

definition evaluate_health :: "health_settings \<Rightarrow> alpha_cand \<Rightarrow> alpha_outcome list \<Rightarrow> alpha_health result" where
  "evaluate_health hs c outcomes =
     (let h = health_of hs c (sort_key outcome_order outcomes)
      in if alpha_health_ok h then Inr h else Inl (ValidationError ''AlphaStrategyHealth''))"

section \<open>What the health model promises\<close>

lemma clamp_unit [simp]: "0 \<le> clamp x" "clamp x \<le> 1"
  by (simp_all add: clamp_def)

lemma health_score_unit: "0 \<le> health_score hs a b c d" "health_score hs a b c d \<le> 1"
proof -
  have f: "fmean [w, x, y, z] = (w + x + y + z) / 4" for w x y z by (simp add: fmean_def)
  show "0 \<le> health_score hs a b c d" unfolding health_score_def f by (intro divide_nonneg_pos add_nonneg_nonneg) simp_all
  have "w + x + y + z \<le> 4" if "w \<le> 1" "x \<le> 1" "y \<le> 1" "z \<le> 1" for w x y z :: real using that by simp
  from this [OF clamp_unit(2) clamp_unit(2) clamp_unit(2) clamp_unit(2)]
  show "health_score hs a b c d \<le> 1" unfolding health_score_def f by simp
qed

lemma multiplier_unit:
  fixes l s :: real
  assumes "0 \<le> l" "l \<le> 1" "0 \<le> s" "s \<le> 1"
  shows "0 \<le> l + (1 - l) * s" and "l + (1 - l) * s \<le> 1" and "l \<le> l + (1 - l) * s"
proof -
  have "(1 - l) * s \<le> (1 - l) * 1" using assms by (intro mult_left_mono) auto
  then show "l + (1 - l) * s \<le> 1" by simp
  show "l \<le> l + (1 - l) * s" using assms by simp
  then show "0 \<le> l + (1 - l) * s" using assms(1) by linarith
qed

text \<open>
  The running computation is the worst fall between any two times: wealth is a product of growth
  factors, its peak the greatest wealth so far.
\<close>

definition wealth :: "real list \<Rightarrow> nat \<Rightarrow> real" where
  "wealth vs k = (\<Prod>v\<leftarrow>take k vs. 1 + max (- 0.99) v)"

definition falls :: "real list \<Rightarrow> real set" where
  "falls vs = (\<lambda>(i, j). 1 - wealth vs j / wealth vs i) ` {(i, j). i \<le> j \<and> j \<le> length vs}"

lemma wealth_pos: "0 < wealth vs k"
proof -
  have "0 < prod_list (map (\<lambda>v :: real. 1 + max (- 0.99) v) xs)" for xs by (induction xs) auto
  then show ?thesis by (simp add: wealth_def)
qed

lemma wealth_snoc:
  "k \<le> length vs \<Longrightarrow> wealth (vs @ [v]) k = wealth vs k"
  "wealth (vs @ [v]) (Suc (length vs)) = wealth vs (length vs) * (1 + max (- 0.99) v)"
  by (simp_all add: wealth_def)

lemma falls_finite: "finite (falls vs)" "falls vs \<noteq> {}"
proof -
  have "{(i, j). i \<le> j \<and> j \<le> length vs} \<subseteq> {..length vs} \<times> {..length vs}" by auto
  then have "finite {(i, j). i \<le> j \<and> j \<le> length vs}" by (rule finite_subset) simp
  then show "finite (falls vs)" by (simp add: falls_def)
  have "(0, 0) \<in> {(i, j). i \<le> j \<and> j \<le> length vs}" by simp
  then show "falls vs \<noteq> {}" unfolding falls_def by blast
qed

lemma falls_snoc:
  "falls (vs @ [v]) = falls vs \<union> (\<lambda>i. 1 - wealth (vs @ [v]) (Suc (length vs)) / wealth (vs @ [v]) i) ` {..Suc (length vs)}"
proof -
  have "{(i, j). i \<le> j \<and> j \<le> Suc (length vs)} = {(i, j). i \<le> j \<and> j \<le> length vs} \<union> (\<lambda>i. (i, Suc (length vs))) ` {..Suc (length vs)}"
    by (auto simp: le_Suc_eq)
  moreover have "(\<lambda>(i, j). 1 - wealth (vs @ [v]) j / wealth (vs @ [v]) i) ` {(i, j). i \<le> j \<and> j \<le> length vs} = falls vs"
    unfolding falls_def by (rule image_cong) (auto simp: wealth_snoc)
  ultimately show ?thesis by (simp add: falls_def [of "vs @ [v]"] image_Un image_image)
qed

lemma Max_of: "finite S \<Longrightarrow> m \<in> S \<Longrightarrow> (\<And>x. x \<in> S \<Longrightarrow> x \<le> m) \<Longrightarrow> Max S = m" for m :: real
  by (rule Max_eqI) auto

lemma fall_from_peak:
  fixes f :: "'a \<Rightarrow> real" and w :: real
  assumes "finite I" "I \<noteq> {}" "0 < w" "\<And>i. i \<in> I \<Longrightarrow> 0 < f i"
  shows "Max ((\<lambda>i. 1 - w / f i) ` I) = 1 - w / Max (f ` I)"
proof -
  have m: "Max (f ` I) \<in> f ` I" using assms(1,2) by simp
  then obtain i where i: "i \<in> I" "f i = Max (f ` I)" by force
  have "w / Max (f ` I) \<le> w / f k" if k: "k \<in> I" for k
  proof (rule divide_left_mono)
    show "f k \<le> Max (f ` I)" using k assms(1) by simp
    show "0 \<le> w" using assms(3) by simp
    show "0 < Max (f ` I) * f k" using assms(4) [OF k] assms(4) [OF i(1)] unfolding i(2) by (rule mult_pos_pos [rotated])
  qed
  then show ?thesis using assms(1) i by (intro Max_of) (auto intro!: image_eqI [of _ _ i])
qed

lemma drawdown_step_eq:
  assumes "w' = w * (1 + max (- 0.99) v)" and "p' = max p w'" and "0 < p'"
  shows "drawdown_step (w, p, d) v = (w', p', max d (1 - w' / p'))"
  using assms(3) unfolding drawdown_step_def assms(1,2) Let_def by simp

lemma drawdown_state: "foldl drawdown_step (1, 1, 0) vs = (wealth vs (length vs), Max (wealth vs ` {..length vs}), Max (falls vs))"
proof (induction vs rule: rev_induct)
  case Nil
  have "{(i, j). i \<le> j \<and> j \<le> (0 :: nat)} = {(0, 0)}" by auto
  then show ?case by (simp add: wealth_def falls_def)
next
  case (snoc v vs)
  let ?n = "length vs" and ?w = "wealth (vs @ [v])"
  have w: "?w (Suc ?n) = wealth vs ?n * (1 + max (- 0.99) v)" by (rule wealth_snoc)
  have old: "wealth vs ` {..?n} = ?w ` {..?n}" by (rule image_cong) (auto simp: wealth_snoc)
  have peak: "Max (?w ` {..Suc ?n}) = max (Max (wealth vs ` {..?n})) (?w (Suc ?n))"
    by (simp add: old atMost_Suc max.commute)
  have "0 < Max (?w ` {..Suc ?n})" by (subst Max_gr_iff) (auto simp: wealth_pos)
  moreover have "Max (falls (vs @ [v])) = max (Max (falls vs)) (1 - ?w (Suc ?n) / Max (?w ` {..Suc ?n}))"
    unfolding falls_snoc by (subst Max_Un) (simp_all add: falls_finite fall_from_peak wealth_pos)
  ultimately have "drawdown_step (wealth vs ?n, Max (wealth vs ` {..?n}), Max (falls vs)) v
      = (?w (Suc ?n), Max (?w ` {..Suc ?n}), Max (falls (vs @ [v])))"
    using drawdown_step_eq [OF w peak] by simp
  then show ?case using snoc.IH by (simp only: foldl_append foldl.simps length_append_singleton)
qed

lemma drawdown_unit: "0 \<le> max_compounded_drawdown vs" "max_compounded_drawdown vs < 1"
proof -
  have "0 \<in> falls vs" unfolding falls_def by (rule image_eqI [of _ _ "(0, 0)"]) (simp_all add: wealth_def)
  then have "0 \<le> Max (falls vs)" by (rule Max_ge [OF falls_finite(1)])
  moreover have "Max (falls vs) < 1" using wealth_pos by (subst Max_less_iff) (auto simp: falls_finite, auto simp: falls_def)
  ultimately show "0 \<le> max_compounded_drawdown vs" "max_compounded_drawdown vs < 1"
    by (simp_all add: max_compounded_drawdown_def drawdown_state)
qed

lemma health_of_fields:
  "ah_health_score (health_of hs c us) = 0 \<or> (\<exists>a b d e. ah_health_score (health_of hs c us) = health_score hs a b d e)"
  "ah_capital_multiplier (health_of hs c us) =
     health_multiplier hs (ah_blockers (health_of hs c us)) (ah_health_score (health_of hs c us))"
  "ah_healthy_for_paper_allocation (health_of hs c us) \<longleftrightarrow> ah_blockers (health_of hs c us) = []"
  unfolding health_of_def Let_def by simp_all blast

lemma health_of_unit:
  "0 \<le> ah_health_score (health_of hs c us)" "ah_health_score (health_of hs c us) \<le> 1"
  "0 \<le> ah_capital_multiplier (health_of hs c us)" "ah_capital_multiplier (health_of hs c us) \<le> 1"
proof -
  show s: "0 \<le> ah_health_score (health_of hs c us)" "ah_health_score (health_of hs c us) \<le> 1"
    using health_of_fields(1) [of hs c us] health_score_unit by auto
  show "0 \<le> ah_capital_multiplier (health_of hs c us)" "ah_capital_multiplier (health_of hs c us) \<le> 1"
    unfolding health_of_fields(2) health_multiplier_def using multiplier_unit [OF clamp_unit s] by simp_all
qed

text \<open>
  The model always answers; an unhealthy strategy keeps nothing of its capital, a healthy one
  between the floor and the whole.
\<close>

lemma evaluate_health_eq: "evaluate_health hs c us = Inr (health_of hs c (sort_key outcome_order us))"
  by (simp add: evaluate_health_def alpha_health_ok_def health_of_unit)

lemma evaluated_multiplier:
  assumes "evaluate_health hs c us = Inr h"
  shows "0 \<le> ah_capital_multiplier h" and "ah_capital_multiplier h \<le> 1"
    and "ah_healthy_for_paper_allocation h \<Longrightarrow> clamp (hs_capital_multiplier_floor hs) \<le> ah_capital_multiplier h"
    and "\<not> ah_healthy_for_paper_allocation h \<Longrightarrow> ah_capital_multiplier h = 0"
proof -
  have h: "h = health_of hs c (sort_key outcome_order us)" using assms by (simp add: evaluate_health_eq)
  show "0 \<le> ah_capital_multiplier h" "ah_capital_multiplier h \<le> 1" by (simp_all add: h health_of_unit)
  show "\<not> ah_healthy_for_paper_allocation h \<Longrightarrow> ah_capital_multiplier h = 0"
    unfolding h health_of_fields(2,3) health_multiplier_def by simp
  show "ah_healthy_for_paper_allocation h \<Longrightarrow> clamp (hs_capital_multiplier_floor hs) \<le> ah_capital_multiplier h"
    unfolding h health_of_fields(2,3) health_multiplier_def using multiplier_unit(3) [OF clamp_unit health_of_unit(1,2)] by simp
qed

end
