(* ===== verification/Alpha_Service.thy ===== *)
theory Alpha_Service
  imports Alpha_Health
begin

text \<open>
  alpha_factory.py, second part, and expanded_alpha_factory.py: the append-only table of signals
  and outcomes, what has to be shown before a candidate is promoted to paper, and the cycle that
  settles the signals that are due and records new ones.  The expanded service is the base
  service with three restrictions: it counts only outcomes whose holding periods do not overlap,
  it records no signal for a cohort that has an open one, and it cuts the size by the health of the
  strategy.  Parameters: the clock, uuid4, SHA-256, the JSON encodings, the stored quotes.
\<close>

section \<open>The table\<close>

datatype alpha_entry = Signal_entry alpha_signal | Outcome_entry alpha_outcome

record alpha_event_row =
  av_event_id :: string
  av_entry :: alpha_entry
  av_lineage_hash :: string

record alpha_ledger =
  xl_events :: "alpha_event_row list"
  xl_drawn :: nat

record alpha_env =
  ae_uuid :: "nat \<Rightarrow> string"
  ae_now :: time
  ae_sha256_hex :: "string \<Rightarrow> string"
  ae_signal_json :: "alpha_signal \<Rightarrow> string"
  ae_outcome_json :: "alpha_outcome \<Rightarrow> string"

type_synonym 'a alpha_act = "(alpha_ledger, 'a) action"

definition on_drawn :: "'a drawing \<Rightarrow> 'a alpha_act" where
  "on_drawn m = (\<lambda>s. case m (xl_drawn s) of (r, n) \<Rightarrow> (r, s\<lparr>xl_drawn := n\<rparr>))"

text \<open>The column \<open>event_id\<close> is unique: a second row under the same id is refused by the table.\<close>

definition insert_event :: "alpha_env \<Rightarrow> alpha_entry \<Rightarrow> string \<Rightarrow> unit alpha_act" where
  "insert_event env entry hash = abind (on_drawn (draw (ae_uuid env))) (\<lambda>i. \<lambda>s.
     if i \<in> av_event_id ` set (xl_events s) then (Inl IntegrityError, s)
     else (Inr (), s\<lparr>xl_events := xl_events s @ [\<lparr>av_event_id = i, av_entry = entry, av_lineage_hash = hash\<rparr>]\<rparr>))"

definition record_signal :: "alpha_env \<Rightarrow> alpha_signal \<Rightarrow> string alpha_act" where
  "record_signal env x = abind (insert_event env (Signal_entry x) (ae_sha256_hex env (ae_signal_json env x)))
     (\<lambda>_. alift (Inr (fw_signal_id x)))"

definition record_alpha_outcome :: "alpha_env \<Rightarrow> alpha_outcome \<Rightarrow> string alpha_act" where
  "record_alpha_outcome env u = abind (insert_event env (Outcome_entry u) (ae_sha256_hex env (ae_outcome_json env u)))
     (\<lambda>_. alift (Inr (fo_signal_id u)))"

definition signals_of :: "alpha_ledger \<Rightarrow> alpha_signal list" where
  "signals_of s = concat (map (\<lambda>r. case av_entry r of Signal_entry x \<Rightarrow> [x] | _ \<Rightarrow> []) (xl_events s))"

definition alpha_outcomes :: "alpha_ledger \<Rightarrow> alpha_outcome list" where
  "alpha_outcomes s = concat (map (\<lambda>r. case av_entry r of Outcome_entry u \<Rightarrow> [u] | _ \<Rightarrow> []) (xl_events s))"

definition completed_signals :: "alpha_ledger \<Rightarrow> string set" where
  "completed_signals s = set (map fo_signal_id (alpha_outcomes s))"

definition pending_signals :: "time \<Rightarrow> alpha_ledger \<Rightarrow> alpha_signal list" where
  "pending_signals now s =
     filter (\<lambda>x. fw_signal_id x \<notin> completed_signals s) (filter (\<lambda>x. fw_due_at x \<le> now) (signals_of s))"

definition asked :: "'a option \<Rightarrow> 'a \<Rightarrow> bool" where
  "asked wanted x \<longleftrightarrow> (case wanted of None \<Rightarrow> True | Some w \<Rightarrow> x = w)"

definition outcomes_where ::
  "string option \<Rightarrow> string option \<Rightarrow> alpha_direction option \<Rightarrow> alpha_ledger \<Rightarrow> alpha_outcome list" where
  "outcomes_where strategy asset direction s =
     filter (\<lambda>u. asked strategy (fo_strategy_id u) \<and> asked asset (fo_asset u) \<and> asked direction (fo_direction u))
       (alpha_outcomes s)"

record alpha_summary =
  am_signal_count :: nat
  am_outcome_count :: nat
  am_pending_count :: nat
  am_paper_only :: bool

definition alpha_summary_of :: "alpha_ledger \<Rightarrow> alpha_summary" where
  "alpha_summary_of s = \<lparr>am_signal_count = length (signals_of s), am_outcome_count = length (alpha_outcomes s),
     am_pending_count = card (set (map fw_signal_id (signals_of s))) - card (completed_signals s),
     am_paper_only = True\<rparr>"

section \<open>Qualification\<close>

text \<open>The stored quotes of the last hours, grouped; \<open>stored\<close> is the table of market quotes.\<close>

definition stored_history :: "settings \<Rightarrow> time \<Rightarrow> market_quote list \<Rightarrow> alpha_history" where
  "stored_history s now stored = (\<lambda>(venue, asset, kind).
     filter (\<lambda>q. mq_venue q = venue \<and> upper (mq_asset q) = asset \<and> mq_market_kind q = kind)
       (by_time (filter (\<lambda>q. mq_observed_at q \<ge> now - hours (max 1 (se_alpha_history_hours s))) stored)))"

definition regime_means :: "alpha_outcome list \<Rightarrow> (alpha_regime \<times> real) list" where
  "regime_means us = map (\<lambda>(k, rows). (k, fmean (map fo_realized_net_return rows))) (group_by fo_regime us)"

definition alpha_penalty :: "settings \<Rightarrow> nat \<Rightarrow> real" where
  "alpha_penalty s n = se_alpha_multiple_testing_penalty_return s * sqrt (ln (real (max 1 n) + 1))"

definition qualification_blockers ::
  "settings \<Rightarrow> nat \<Rightarrow> real option \<Rightarrow> real option \<Rightarrow> (alpha_regime \<times> real) list \<Rightarrow> real \<Rightarrow> string list" where
  "qualification_blockers s n mean_low hit_low means required =
     (if int n < se_alpha_min_forward_samples s
      then [''insufficient independent forward samples''] else [])
     @ (if at_most mean_low required
        then [''forward net-return confidence lower bound is below hurdle''] else [])
     @ (if below hit_low (se_alpha_min_hit_rate_lower_bound s)
        then [''forward hit-rate confidence lower bound is below hurdle''] else [])
     @ (if int (length means) < se_alpha_min_regimes s then [''insufficient regime coverage'']
        else if \<exists>(k, v) \<in> set means. v \<le> se_alpha_min_regime_mean_return s
        then [''one or more observed regimes have non-qualifying mean return''] else [])"

definition qualify :: "settings \<Rightarrow> nat \<Rightarrow> alpha_cand \<Rightarrow> alpha_outcome list \<Rightarrow> alpha_qualification" where
  "qualify s strategies c us =
     (let values = map fo_realized_net_return us;
          positives = length (filter (\<lambda>v. v > 0) values);
          hit_low = wilson_lower positives (length values) z_default;
          mean_low = mean_lower values z_default;
          means = regime_means us;
          required = se_alpha_min_forward_mean_return s + alpha_penalty s strategies;
          blockers = qualification_blockers s (length values) mean_low hit_low means required
      in \<lparr>aq_strategy_id = al_strategy_id c, aq_family = al_family c, aq_asset = al_asset c,
          aq_direction = al_direction c, aq_sample_count = length values, aq_positive_count = positives,
          aq_hit_rate = (if values = [] then None else Some (real positives / real (length values))),
          aq_hit_rate_ci_lower = hit_low, aq_mean_realized_net_return = opt_list fmean values,
          aq_mean_realized_net_return_ci_lower = mean_low,
          aq_p10_realized_net_return = alpha_quantile values (1 / 10),
          aq_worst_realized_net_return = opt_list (\<lambda>xs. Min (set xs)) values,
          aq_regime_count = length means, aq_regime_means = means,
          aq_multiple_testing_penalty_return = alpha_penalty s strategies,
          aq_required_mean_lower_bound = required, aq_statistically_qualified = (blockers = []),
          aq_blockers = blockers, aq_paper_allocation_authority = (blockers = []),
          aq_live_execution_authority = False, aq_paper_only = True\<rparr>)"

definition cohort_outcomes :: "alpha_cand \<Rightarrow> alpha_ledger \<Rightarrow> alpha_outcome list" where
  "cohort_outcomes c s = outcomes_where (Some (al_strategy_id c)) (Some (al_asset c)) (Some (al_direction c)) s"

text \<open>Outcomes whose holding periods do not overlap, taken greedily in order of observation.\<close>

definition independence_order :: "alpha_outcome \<Rightarrow> time \<times> time \<times> string" where
  "independence_order u = (fo_observed_at u, fo_due_at u, fo_signal_id u)"

fun take_independent :: "time option \<Rightarrow> alpha_outcome list \<Rightarrow> alpha_outcome list" where
  "take_independent next [] = []"
| "take_independent next (u # us) =
     (case next of
        Some t \<Rightarrow> if fo_observed_at u < t then take_independent next us
                   else u # take_independent (Some (fo_due_at u)) us
      | None \<Rightarrow> u # take_independent (Some (fo_due_at u)) us)"

definition independent_outcomes :: "alpha_outcome list \<Rightarrow> alpha_outcome list" where
  "independent_outcomes us = take_independent None (sort_key independence_order us)"

definition outcomes_for :: "alpha_cand \<Rightarrow> alpha_ledger \<Rightarrow> alpha_outcome list" where
  "outcomes_for c s = independent_outcomes (cohort_outcomes c s)"

definition qualification :: "settings \<Rightarrow> alpha_strategy list \<Rightarrow> alpha_cand \<Rightarrow> alpha_ledger \<Rightarrow> alpha_qualification" where
  "qualification s registry c l = qualify s (length (alpha_manifests registry)) c (cohort_outcomes c l)"

definition expanded_qualification ::
  "settings \<Rightarrow> alpha_strategy list \<Rightarrow> alpha_cand \<Rightarrow> alpha_ledger \<Rightarrow> alpha_qualification" where
  "expanded_qualification s registry c l = qualify s (length (alpha_manifests registry)) c (outcomes_for c l)"

definition strategy_health :: "health_settings \<Rightarrow> alpha_cand \<Rightarrow> alpha_ledger \<Rightarrow> alpha_health result" where
  "strategy_health hs c l = evaluate_health hs c (outcomes_for c l)"

section \<open>Promotion\<close>

definition discover_candidates ::
  "alpha_strategy list \<Rightarrow> settings \<Rightarrow> market_quote list \<Rightarrow> market_scan \<Rightarrow> real \<Rightarrow> alpha_cand list alpha_act" where
  "discover_candidates registry s stored scan capital =
     on_drawn (registry_discover registry scan (stored_history s (mn_completed_at scan) stored) s capital)"

definition promote ::
  "settings \<Rightarrow> (opportunity_leg \<Rightarrow> order_book_snapshot result option) \<Rightarrow> (alpha_cand \<Rightarrow> alpha_qualification)
     \<Rightarrow> alpha_cand \<Rightarrow> alpha_cand option" where
  "promote s books qualified c =
     (let q = qualified c in
      if \<not> aq_statistically_qualified q then None
      else case current_l2_cost s books c of
        None \<Rightarrow> None
      | Some cost \<Rightarrow>
          let conservative = min (al_expected_gross_return c - cost)
                (value_of (aq_mean_realized_net_return_ci_lower q))
          in if conservative \<le> se_alpha_min_current_net_return s then None
             else Some (c\<lparr>al_estimated_cost_return := cost, al_expected_net_return := conservative,
               al_expected_profit_usd := al_notional_usd c * conservative, al_stage := Paper_qualified,
               al_paper_allocation_eligible := True\<rparr>))"

definition promoted_of ::
  "settings \<Rightarrow> (opportunity_leg \<Rightarrow> order_book_snapshot result option) \<Rightarrow> (alpha_cand \<Rightarrow> alpha_qualification)
     \<Rightarrow> alpha_cand list \<Rightarrow> alpha_cand list" where
  "promoted_of s books qualified cs = sort_desc promise_key (some_values (map (promote s books qualified) cs))"

definition promoted_candidates ::
  "alpha_strategy list \<Rightarrow> settings \<Rightarrow> market_quote list \<Rightarrow> (opportunity_leg \<Rightarrow> order_book_snapshot result option)
     \<Rightarrow> market_scan \<Rightarrow> real \<Rightarrow> alpha_cand list alpha_act" where
  "promoted_candidates registry s stored books scan capital =
     abind (discover_candidates registry s stored scan capital) (\<lambda>cs. \<lambda>l.
       (Inr (promoted_of s books (\<lambda>c. qualification s registry c l) cs), l))"

text \<open>The features of a candidate are a dict: an update replaces the entry under its key.\<close>

definition health_features :: "alpha_health \<Rightarrow> (string \<times> pyobj) list" where
  "health_features h = [(''health_score'', PFloat (ah_health_score h)),
     (''health_capital_multiplier'', PFloat (ah_capital_multiplier h)),
     (''health_recent_mean_net_return'', PFloat (value_of (ah_recent_mean_net_return h))),
     (''health_recent_hit_rate'', PFloat (value_of (ah_recent_hit_rate h))),
     (''health_capture_ratio_median'', PFloat (value_of (ah_forecast_capture_ratio_median h))),
     (''health_recent_to_long_run_ratio'', PFloat (value_of (ah_recent_to_long_run_ratio h))),
     (''health_max_compounded_drawdown'', PFloat (value_of (ah_max_compounded_drawdown h))),
     (''health_trailing_loss_streak'', PInt (int (ah_trailing_loss_streak h)))]"

definition scale_by_health :: "settings \<Rightarrow> (alpha_cand \<Rightarrow> alpha_health result) \<Rightarrow> alpha_cand \<Rightarrow> alpha_cand option result" where
  "scale_by_health s health c = rbind (health c) (\<lambda>h.
     if \<not> ah_healthy_for_paper_allocation h \<or> ah_capital_multiplier h \<le> 0 then Inr None
     else let scaled = al_notional_usd c * ah_capital_multiplier h in
       if scaled < se_alpha_min_notional_usd s then Inr None
       else Inr (Some (c\<lparr>al_notional_usd := scaled,
         al_capital_required_usd := al_capital_required_usd c * ah_capital_multiplier h,
         al_expected_profit_usd := al_expected_net_return c * scaled,
         al_features := foldl (\<lambda>m (k, v). AList.update k v m) (al_features c) (health_features h)\<rparr>)))"

definition profit_key :: "alpha_cand \<Rightarrow> real \<times> real" where
  "profit_key c = (al_expected_net_return c, al_expected_profit_usd c)"

definition expanded_promoted_candidates ::
  "alpha_strategy list \<Rightarrow> settings \<Rightarrow> health_settings \<Rightarrow> market_quote list
     \<Rightarrow> (opportunity_leg \<Rightarrow> order_book_snapshot result option) \<Rightarrow> market_scan \<Rightarrow> real \<Rightarrow> alpha_cand list alpha_act" where
  "expanded_promoted_candidates registry s hs stored books scan capital =
     abind (discover_candidates registry s stored scan capital) (\<lambda>cs. \<lambda>l.
       (rbind (rmap (scale_by_health s (\<lambda>c. strategy_health hs c l))
            (promoted_of s books (\<lambda>c. expanded_qualification s registry c l) cs)) (\<lambda>rows.
          Inr (sort_desc profit_key (some_values rows))), l))"

section \<open>The evidence cycle\<close>

definition scan_index :: "market_scan \<Rightarrow> (string \<times> string \<times> market_kind \<times> string \<rightharpoonup> market_quote)" where
  "scan_index scan = dict_by (\<lambda>q. (mq_venue q, upper (mq_asset q), mq_market_kind q, mq_symbol q)) (mn_market_quotes scan)"

definition alpha_outcome_of :: "time \<Rightarrow> alpha_signal \<Rightarrow> market_quote \<Rightarrow> alpha_outcome result" where
  "alpha_outcome_of matured x q =
     (let c = fw_candidate x in
      rbind (py_div (mq_mid q) (al_entry_reference_price c)) (\<lambda>ratio.
      let directional = (if al_direction c = Alpha_long then ratio - 1 else - (ratio - 1)) in
      Inr \<lparr>fo_signal_id = fw_signal_id x, fo_strategy_id = al_strategy_id c, fo_family = al_family c,
        fo_asset = al_asset c, fo_direction = al_direction c, fo_venue = al_venue c,
        fo_market_kind = al_market_kind c, fo_symbol = al_symbol c, fo_observed_at = al_observed_at c,
        fo_due_at = fw_due_at x, fo_matured_at = matured, fo_horizon_hours = al_horizon_hours c,
        fo_regime = al_regime c, fo_predicted_net_return = al_expected_net_return c,
        fo_entry_price = al_entry_reference_price c, fo_exit_price = mq_mid q,
        fo_realized_gross_return = directional,
        fo_realized_net_return = directional - al_estimated_cost_return c,
        fo_correct_direction = (directional > 0), fo_paper_only = True\<rparr>))"

definition mature_signal :: "alpha_env \<Rightarrow> market_scan \<Rightarrow> alpha_signal \<Rightarrow> nat \<Rightarrow> nat alpha_act" where
  "mature_signal env scan x matured =
     (let c = fw_candidate x in
      case scan_index scan (al_venue c, al_asset c, al_market_kind c, al_symbol c) of
        None \<Rightarrow> alift (Inr matured)
      | Some q \<Rightarrow>
          if mq_mid q \<le> 0 then alift (Inr matured)
          else abind (alift (alpha_outcome_of (mn_completed_at scan) x q)) (\<lambda>u.
               abind (record_alpha_outcome env u) (\<lambda>_. alift (Inr (Suc matured)))))"

definition signal_of :: "alpha_env \<Rightarrow> alpha_cand \<Rightarrow> alpha_signal" where
  "signal_of env c = \<lparr>fw_signal_id = al_candidate_id c, fw_candidate = c,
     fw_due_at = al_observed_at c + hours (al_horizon_hours c), fw_recorded_at = ae_now env, fw_paper_only = True\<rparr>"

definition has_open_signal :: "alpha_cand \<Rightarrow> alpha_ledger \<Rightarrow> bool" where
  "has_open_signal c s \<longleftrightarrow> (\<exists>x \<in> set (signals_of s).
     al_strategy_id (fw_candidate x) = al_strategy_id c \<and> al_asset (fw_candidate x) = al_asset c
     \<and> al_direction (fw_candidate x) = al_direction c \<and> fw_signal_id x \<notin> completed_signals s)"

text \<open>The loop over the discovered candidates; \<open>skip\<close> is what the expanded service adds to it.\<close>

definition record_candidate ::
  "alpha_env \<Rightarrow> (alpha_cand \<Rightarrow> alpha_ledger \<Rightarrow> bool) \<Rightarrow> alpha_cand \<Rightarrow> nat \<Rightarrow> nat alpha_act" where
  "record_candidate env skip c recorded = (\<lambda>s.
     if skip c s then (Inr recorded, s)
     else abind (record_signal env (signal_of env c)) (\<lambda>_. alift (Inr (Suc recorded))) s)"

definition research_capital :: "settings \<Rightarrow> real option \<Rightarrow> real" where
  "research_capital s capital = (case capital of None \<Rightarrow> se_alpha_research_capital_usd s
     | Some c \<Rightarrow> if c = 0 then se_alpha_research_capital_usd s else c)"

definition evidence_cycle ::
  "(alpha_cand \<Rightarrow> alpha_ledger \<Rightarrow> bool) \<Rightarrow> alpha_env \<Rightarrow> alpha_strategy list \<Rightarrow> settings \<Rightarrow> market_quote list
     \<Rightarrow> market_scan result \<Rightarrow> real option \<Rightarrow> alpha_evidence_cycle alpha_act" where
  "evidence_cycle skip env registry s stored collected capital =
     abind (alift collected) (\<lambda>scan.
     abind (\<lambda>l. afold (mature_signal env scan) (pending_signals (mn_completed_at scan) l) 0 l) (\<lambda>matured.
     abind (discover_candidates registry s stored scan (research_capital s capital)) (\<lambda>cs.
     abind (afold (record_candidate env skip) cs 0) (\<lambda>recorded.
     abind (on_drawn (draw (ae_uuid env))) (\<lambda>i.
     alift (Inr \<lparr>ay_cycle_id = i, ay_observed_at = mn_completed_at scan, ay_candidate_count = length cs,
       ay_signals_recorded = recorded, ay_outcomes_matured = matured, ay_paper_only = True\<rparr>))))))"

definition run_evidence_cycle ::
  "alpha_env \<Rightarrow> alpha_strategy list \<Rightarrow> settings \<Rightarrow> market_quote list \<Rightarrow> market_scan result \<Rightarrow> real option
     \<Rightarrow> alpha_evidence_cycle alpha_act" where
  "run_evidence_cycle = evidence_cycle (\<lambda>c l. False)"

definition expanded_evidence_cycle ::
  "alpha_env \<Rightarrow> alpha_strategy list \<Rightarrow> settings \<Rightarrow> market_quote list \<Rightarrow> market_scan result \<Rightarrow> real option
     \<Rightarrow> alpha_evidence_cycle alpha_act" where
  "expanded_evidence_cycle = evidence_cycle has_open_signal"

end
