(* ===== verification/Alpha_Correct.thy ===== *)
theory Alpha_Correct
  imports Alpha_Service
begin

text \<open>
  What the alpha research keeps: the table of signals and outcomes, the independence of the
  outcomes that count, what promotion asks for, and what the momentum strategy may look at.
\<close>

section \<open>The table only grows\<close>

lemma on_drawn_events: "on_drawn m s = (r, t) \<Longrightarrow> xl_events t = xl_events s"
  by (auto simp: on_drawn_def split: prod.splits)

lemma signals_append: "signals_of (s\<lparr>xl_events := xl_events s @ [r]\<rparr>) =
    signals_of s @ (case av_entry r of Signal_entry x \<Rightarrow> [x] | _ \<Rightarrow> [])"
  by (simp add: signals_of_def)

lemma outcomes_append: "alpha_outcomes (s\<lparr>xl_events := xl_events s @ [r]\<rparr>) =
    alpha_outcomes s @ (case av_entry r of Outcome_entry u \<Rightarrow> [u] | _ \<Rightarrow> [])"
  by (simp add: alpha_outcomes_def)

lemma same_events: "xl_events t = xl_events s \<Longrightarrow> signals_of t = signals_of s \<and> alpha_outcomes t = alpha_outcomes s"
  by (simp add: signals_of_def alpha_outcomes_def)

text \<open>A row is inserted at the end, or the table stays as it was.\<close>

lemma insert_event_cases:
  assumes "insert_event env entry hash s = (r, t)"
  obtains (refused) "r = Inl IntegrityError" "xl_events t = xl_events s"
  | (inserted) "r = Inr ()" "signals_of t = signals_of s @ (case entry of Signal_entry x \<Rightarrow> [x] | _ \<Rightarrow> [])"
      "alpha_outcomes t = alpha_outcomes s @ (case entry of Outcome_entry u \<Rightarrow> [u] | _ \<Rightarrow> [])"
      "\<exists>row. xl_events t = xl_events s @ [row] \<and> av_entry row = entry"
  using assms by (auto simp: insert_event_def abind_def on_drawn_def draw_def signals_of_def alpha_outcomes_def split: if_splits)

section \<open>The invariant\<close>

definition settled_as :: "alpha_signal \<Rightarrow> alpha_outcome \<Rightarrow> bool" where
  "settled_as x u \<longleftrightarrow> fo_signal_id u = fw_signal_id x \<and> fo_due_at u = fw_due_at x \<and> fw_due_at x \<le> fo_matured_at u
     \<and> fo_predicted_net_return u = al_expected_net_return (fw_candidate x)
     \<and> fo_entry_price u = al_entry_reference_price (fw_candidate x) \<and> 0 < fo_exit_price u
     \<and> fo_realized_net_return u = (if al_direction (fw_candidate x) = Alpha_long then 1 else -1)
         * (fo_exit_price u / fo_entry_price u - 1) - al_estimated_cost_return (fw_candidate x)"

definition alpha_cohort :: "alpha_cand \<Rightarrow> string \<times> string \<times> alpha_direction" where
  "alpha_cohort c = (al_strategy_id c, al_asset c, al_direction c)"

definition open_signals :: "alpha_ledger \<Rightarrow> alpha_signal list" where
  "open_signals s = filter (\<lambda>x. fw_signal_id x \<notin> completed_signals s) (signals_of s)"

definition forward_ok :: "alpha_ledger \<Rightarrow> bool" where
  "forward_ok s \<longleftrightarrow> (\<forall>u \<in> set (alpha_outcomes s). \<exists>x \<in> set (signals_of s). settled_as x u)
     \<and> (\<forall>x \<in> set (signals_of s). fw_due_at x = al_observed_at (fw_candidate x) + hours (al_horizon_hours (fw_candidate x)))
     \<and> distinct (map (\<lambda>x. alpha_cohort (fw_candidate x)) (open_signals s))"

lemma forward_same: "xl_events t = xl_events s \<Longrightarrow> forward_ok s \<Longrightarrow> forward_ok t"
  using same_events [of t s] by (simp add: forward_ok_def open_signals_def completed_signals_def)

lemma has_open_signal_iff:
  "has_open_signal c s \<longleftrightarrow> alpha_cohort c \<in> set (map (\<lambda>x. alpha_cohort (fw_candidate x)) (open_signals s))"
  by (auto simp: has_open_signal_def open_signals_def alpha_cohort_def image_iff)

text \<open>An outcome closes signals, so that fewer are open; a signal opens one in a free cohort.\<close>

lemma forward_outcome:
  assumes "forward_ok s" and "x \<in> set (signals_of s)" and "settled_as x u"
    and "signals_of t = signals_of s" and "alpha_outcomes t = alpha_outcomes s @ [u]"
  shows "forward_ok t"
proof -
  have "open_signals t = filter (\<lambda>y. fw_signal_id y \<noteq> fo_signal_id u) (open_signals s)"
    using assms(4,5) by (auto simp: open_signals_def completed_signals_def intro: filter_cong)
  then have "distinct (map (\<lambda>x. alpha_cohort (fw_candidate x)) (open_signals t))"
    using assms(1) by (auto simp: forward_ok_def distinct_map intro: inj_on_subset)
  then show ?thesis using assms by (auto simp: forward_ok_def)
qed

lemma forward_signal:
  assumes "forward_ok s" and "\<not> has_open_signal (fw_candidate x) s"
    and "fw_due_at x = al_observed_at (fw_candidate x) + hours (al_horizon_hours (fw_candidate x))"
    and "signals_of t = signals_of s @ [x]" and "alpha_outcomes t = alpha_outcomes s"
  shows "forward_ok t"
proof -
  have "open_signals t = open_signals s @ (if fw_signal_id x \<in> completed_signals s then [] else [x])"
    using assms(4,5) by (auto simp: open_signals_def completed_signals_def)
  moreover have "alpha_cohort (fw_candidate x) \<notin> set (map (\<lambda>x. alpha_cohort (fw_candidate x)) (open_signals s))"
    using assms(2) by (simp only: has_open_signal_iff not_False_eq_True)
  ultimately have "distinct (map (\<lambda>x. alpha_cohort (fw_candidate x)) (open_signals t))"
    using assms(1) by (auto simp: forward_ok_def)
  then show ?thesis using assms unfolding forward_ok_def by auto
qed

lemma alpha_outcome_settles:
  assumes "alpha_outcome_of now x q = Inr u" and "0 < mq_mid q" and "fw_due_at x \<le> now"
  shows "settled_as x u"
  using assms by (auto simp: alpha_outcome_of_def Let_def settled_as_def)

section \<open>The cycle keeps it\<close>

definition waiting :: "time \<Rightarrow> alpha_signal list \<Rightarrow> alpha_ledger \<Rightarrow> bool" where
  "waiting now xs s \<longleftrightarrow> forward_ok s \<and> (\<forall>x \<in> set xs. x \<in> set (signals_of s) \<and> fw_due_at x \<le> now)"

lemma mature_signal_keeps:
  "triple (waiting (mn_completed_at scan) (x # xs)) (mature_signal env scan x n) (\<lambda>_. waiting (mn_completed_at scan) xs) forward_ok"
proof (rule tripleI)
  fix s assume w: "waiting (mn_completed_at scan) (x # xs) s"
  show "case mature_signal env scan x n s of (Inr c, t) \<Rightarrow> waiting (mn_completed_at scan) xs t | (Inl e, t) \<Rightarrow> forward_ok t"
  proof (cases "scan_index scan (al_venue (fw_candidate x), al_asset (fw_candidate x), al_market_kind (fw_candidate x), al_symbol (fw_candidate x))")
    case None
    then show ?thesis using w by (auto simp: mature_signal_def Let_def alift_def waiting_def)
  next
    case (Some q)
    show ?thesis
    proof (cases "mq_mid q \<le> 0 \<or> (\<exists>e. alpha_outcome_of (mn_completed_at scan) x q = Inl e)")
      case True
      then show ?thesis using w Some by (auto simp: mature_signal_def Let_def alift_def abind_def waiting_def)
    next
      case False
      then obtain u where u: "alpha_outcome_of (mn_completed_at scan) x q = Inr u" "0 < mq_mid q"
        by (cases "alpha_outcome_of (mn_completed_at scan) x q") auto
      have x: "x \<in> set (signals_of s)" "settled_as x u" "forward_ok s"
        using w alpha_outcome_settles [OF u] by (auto simp: waiting_def)
      obtain r t where run: "insert_event env (Outcome_entry u) (ae_sha256_hex env (ae_outcome_json env u)) s = (r, t)" by fastforce
      from run show ?thesis
      proof (cases rule: insert_event_cases)
        case refused
        then show ?thesis using Some u run x(3) forward_same
          by (auto simp: mature_signal_def Let_def alift_def abind_def record_alpha_outcome_def)
      next
        case inserted
        have "forward_ok t" by (rule forward_outcome [OF x(3,1,2)]) (use inserted in auto)
        then show ?thesis using Some u run inserted w
          by (auto simp: mature_signal_def Let_def alift_def abind_def record_alpha_outcome_def waiting_def)
      qed
    qed
  qed
qed

lemma record_candidate_keeps:
  "triple forward_ok (record_candidate env has_open_signal c n) (\<lambda>_. forward_ok) forward_ok"
proof (rule tripleI)
  fix s assume s: "forward_ok s"
  show "case record_candidate env has_open_signal c n s of (Inr m, t) \<Rightarrow> forward_ok t | (Inl e, t) \<Rightarrow> forward_ok t"
  proof (cases "has_open_signal c s")
    case True
    then show ?thesis using s by (simp add: record_candidate_def)
  next
    case False
    obtain r t where run: "insert_event env (Signal_entry (signal_of env c)) (ae_sha256_hex env (ae_signal_json env (signal_of env c))) s = (r, t)"
      by fastforce
    from run have "forward_ok t"
    proof (cases rule: insert_event_cases)
      case refused
      then show ?thesis using s forward_same by simp
    next
      case inserted
      show ?thesis
        by (rule forward_signal [OF s, of "signal_of env c"]) (use inserted False in \<open>auto simp: signal_of_def\<close>)
    qed
    then show ?thesis using False run
      by (cases r) (auto simp: record_candidate_def record_signal_def abind_def alift_def)
  qed
qed

lemma on_drawn_keeps: "triple forward_ok (on_drawn m) (\<lambda>_. forward_ok) forward_ok"
  using forward_same on_drawn_events by (auto simp: triple_def split: prod.splits sum.splits) blast+

lemma expanded_cycle_keeps:
  "triple forward_ok (expanded_evidence_cycle env registry s stored collected capital) (\<lambda>_. forward_ok) forward_ok"
proof -
  have matured: "triple forward_ok (\<lambda>l. afold (mature_signal env scan) (pending_signals (mn_completed_at scan) l) 0 l)
      (\<lambda>_. forward_ok) forward_ok" for scan
  proof (rule triple_at)
    fix l assume l: "forward_ok l"
    let ?xs = "pending_signals (mn_completed_at scan) l"
    have "triple (waiting (mn_completed_at scan) ?xs) (afold (mature_signal env scan) ?xs 0) (\<lambda>_. forward_ok) forward_ok"
      by (rule triple_weaken [OF triple_fold [where I = "\<lambda>xs c. waiting (mn_completed_at scan) xs"]],
          rule mature_signal_keeps) (simp_all add: waiting_def)
    moreover have "waiting (mn_completed_at scan) ?xs l" using l by (auto simp: waiting_def pending_signals_def)
    ultimately show "triple (\<lambda>t. t = l) (\<lambda>l. afold (mature_signal env scan) (pending_signals (mn_completed_at scan) l) 0 l)
        (\<lambda>_. forward_ok) forward_ok"
      by (simp add: triple_def)
  qed
  have recorded: "triple forward_ok (afold (record_candidate env has_open_signal) cs 0) (\<lambda>_. forward_ok) forward_ok" for cs
    by (rule triple_fold [where I = "\<lambda>xs c. forward_ok"]) (rule record_candidate_keeps)
  have found: "triple forward_ok (discover_candidates registry s stored scan c) (\<lambda>_. forward_ok) forward_ok" for scan c
    unfolding discover_candidates_def by (rule on_drawn_keeps)
  note step = triple_bind [where P = forward_ok and Q = "\<lambda>_. forward_ok"]
  show ?thesis unfolding expanded_evidence_cycle_def evidence_cycle_def
    by (rule step [OF triple_lift step [OF matured step [OF found step [OF recorded step [OF on_drawn_keeps triple_lift]]]]]) auto
qed

section \<open>Independent outcomes\<close>

text \<open>The chosen outcomes do not overlap, and every outcome that was left out overlaps a chosen one.\<close>

lemma take_independent_ok:
  assumes "sorted (map fo_observed_at us)"
  shows "set (take_independent next us) \<subseteq> set us
    \<and> sorted_wrt (\<lambda>u v. fo_due_at u \<le> fo_observed_at v) (take_independent next us)
    \<and> (\<forall>u \<in> set (take_independent next us). \<forall>t. next = Some t \<longrightarrow> t \<le> fo_observed_at u)
    \<and> (\<forall>u \<in> set us. u \<in> set (take_independent next us)
         \<or> (\<exists>t. next = Some t \<and> fo_observed_at u < t)
         \<or> (\<exists>v \<in> set (take_independent next us). fo_observed_at v \<le> fo_observed_at u \<and> fo_observed_at u < fo_due_at v))"
  using assms
proof (induction us arbitrary: "next")
  case (Cons u us)
  note later = Cons.prems [simplified]
  show ?case
  proof (cases "\<exists>t. next = Some t \<and> fo_observed_at u < t")
    case True
    then show ?thesis using Cons.IH [of "next"] later by (auto split: option.splits)
  next
    case False
    then have step: "take_independent next (u # us) = u # take_independent (Some (fo_due_at u)) us"
      by (auto split: option.splits)
    have "\<forall>v \<in> set (take_independent (Some (fo_due_at u)) us). fo_due_at u \<le> fo_observed_at v \<and> v \<in> set us"
      using Cons.IH [of "Some (fo_due_at u)"] later by blast
    moreover have "\<forall>t. next = Some t \<longrightarrow> t \<le> fo_observed_at u" using False by force
    ultimately show ?thesis using Cons.IH [of "Some (fo_due_at u)"] later unfolding step by force
  qed
qed simp

lemma independence_sorted: "sorted (map fo_observed_at (sort_key independence_order us))"
proof -
  have "sorted_wrt (\<lambda>u v. independence_order u \<le> independence_order v) (sort_key independence_order us)"
    using sorted_sort_key [of independence_order us] by (simp add: sorted_wrt_map)
  then have "sorted_wrt (\<lambda>u v. fo_observed_at u \<le> fo_observed_at v) (sort_key independence_order us)"
    by (rule sorted_wrt_mono_rel [rotated]) (auto simp: independence_order_def)
  then show ?thesis by (simp add: sorted_wrt_map)
qed

section \<open>Promotion\<close>

lemma filter_positive: "length (filter (\<lambda>v. v > 0) (map fo_realized_net_return us)) =
    length (filter (\<lambda>u. 0 < fo_realized_net_return u) us)"
  by (induction us) auto

text \<open>The regimes of the outcomes and their means.\<close>

lemma regime_means_keys: "fst ` set (regime_means us) = fo_regime ` set us" "length (regime_means us) = card (fo_regime ` set us)"
proof -
  have keys: "map fst (regime_means us) = map fst (group_by fo_regime us)"
    by (induction "group_by fo_regime us") (auto simp: regime_means_def)
  have set: "set (map fst (group_by fo_regime us)) = fo_regime ` set us"
    unfolding group_by_def by (induction us rule: rev_induct) (auto simp: keys_group_add)
  show "fst ` set (regime_means us) = fo_regime ` set us" using keys set by (metis list.set_map)
  have "length (regime_means us) = length (map fst (group_by fo_regime us))" by (simp add: regime_means_def)
  also have "\<dots> = card (set (map fst (group_by fo_regime us)))"
    by (rule distinct_card [symmetric]) (rule distinct_group_by)
  finally show "length (regime_means us) = card (fo_regime ` set us)" by (simp only: set)
qed

lemma regime_mean_of:
  assumes "r \<in> fo_regime ` set us"
  shows "(r, fmean (map fo_realized_net_return (filter (\<lambda>u. fo_regime u = r) us))) \<in> set (regime_means us)"
proof -
  have "map_of (group_by fo_regime us) r = Some (filter (\<lambda>u. fo_regime u = r) us)"
    using assms by (subst map_of_group_by) (auto simp: filter_empty_conv)
  then show ?thesis by (force simp: regime_means_def dest: map_of_SomeD)
qed

lemma qualified_evidence:
  assumes "aq_statistically_qualified (qualify s n c us)"
  shows "se_alpha_min_forward_samples s \<le> int (length us)"
    and "\<exists>low. mean_lower (map fo_realized_net_return us) z_default = Some low
      \<and> aq_mean_realized_net_return_ci_lower (qualify s n c us) = Some low
      \<and> se_alpha_min_forward_mean_return s + alpha_penalty s n < low"
    and "\<exists>low. wilson_lower (length (filter (\<lambda>u. 0 < fo_realized_net_return u) us)) (length us) z_default = Some low
      \<and> se_alpha_min_hit_rate_lower_bound s \<le> low"
    and "se_alpha_min_regimes s \<le> int (card (fo_regime ` set us))"
    and "\<forall>r \<in> fo_regime ` set us. se_alpha_min_regime_mean_return s
      < fmean (map fo_realized_net_return (filter (\<lambda>u. fo_regime u = r) us))"
proof -
  note q = assms [unfolded qualify_def Let_def, simplified, unfolded qualification_blockers_def]
  show "se_alpha_min_forward_samples s \<le> int (length us)" using q by (auto split: if_splits)
  show "\<exists>low. mean_lower (map fo_realized_net_return us) z_default = Some low
      \<and> aq_mean_realized_net_return_ci_lower (qualify s n c us) = Some low
      \<and> se_alpha_min_forward_mean_return s + alpha_penalty s n < low"
    using q by (auto simp: at_most_def qualify_def Let_def split: if_splits option.splits)
  show "\<exists>low. wilson_lower (length (filter (\<lambda>u. 0 < fo_realized_net_return u) us)) (length us) z_default = Some low
      \<and> se_alpha_min_hit_rate_lower_bound s \<le> low"
    using q by (auto simp: below_def filter_positive [symmetric] split: if_splits option.splits)
  show "se_alpha_min_regimes s \<le> int (card (fo_regime ` set us))"
    using q by (auto simp: regime_means_keys split: if_splits)
  have "\<forall>(k, v) \<in> set (regime_means us). se_alpha_min_regime_mean_return s < v"
    using q by (auto simp: not_le split: if_splits)
  then show "\<forall>r \<in> fo_regime ` set us. se_alpha_min_regime_mean_return s
      < fmean (map fo_realized_net_return (filter (\<lambda>u. fo_regime u = r) us))"
    using regime_mean_of by fastforce
qed

text \<open>What promotion and the scaling by health change in a candidate.\<close>

lemma promoted_fields:
  assumes "promote s books qualified d = Some p"
  shows "\<exists>cost. aq_statistically_qualified (qualified d) \<and> current_l2_cost s books d = Some cost
    \<and> al_expected_net_return p = min (al_expected_gross_return d - cost) (value_of (aq_mean_realized_net_return_ci_lower (qualified d)))
    \<and> se_alpha_min_current_net_return s < al_expected_net_return p \<and> al_estimated_cost_return p = cost
    \<and> al_candidate_id p = al_candidate_id d \<and> al_notional_usd p = al_notional_usd d
    \<and> al_capital_required_usd p = al_capital_required_usd d \<and> outcomes_for p = outcomes_for d
    \<and> strategy_health hs p l = strategy_health hs d l"
proof -
  obtain cost v where "aq_statistically_qualified (qualified d)" "current_l2_cost s books d = Some cost"
      "v = min (al_expected_gross_return d - cost) (value_of (aq_mean_realized_net_return_ci_lower (qualified d)))"
      "\<not> v \<le> se_alpha_min_current_net_return s"
      "p = d\<lparr>al_estimated_cost_return := cost, al_expected_net_return := v,
         al_expected_profit_usd := al_notional_usd d * v, al_stage := Paper_qualified, al_paper_allocation_eligible := True\<rparr>"
    using assms by (auto simp: promote_def Let_def split: if_splits option.splits)
  then show ?thesis
    by (intro exI [of _ cost]) (simp add: outcomes_for_def cohort_outcomes_def fun_eq_iff strategy_health_def evaluate_health_eq health_of_def Let_def not_le)
qed

lemma scaled_fields:
  assumes "scale_by_health s health p = Inr (Some c)"
  shows "\<exists>h. health p = Inr h \<and> ah_healthy_for_paper_allocation h \<and> 0 < ah_capital_multiplier h
    \<and> al_notional_usd c = al_notional_usd p * ah_capital_multiplier h
    \<and> al_capital_required_usd c = al_capital_required_usd p * ah_capital_multiplier h
    \<and> se_alpha_min_notional_usd s \<le> al_notional_usd c \<and> al_candidate_id c = al_candidate_id p
    \<and> al_expected_net_return c = al_expected_net_return p \<and> al_estimated_cost_return c = al_estimated_cost_return p"
  using assms by (auto simp: scale_by_health_def Let_def not_le not_less split: if_splits)

end
