(* ===== verification/Momentum_Correct.thy ===== *)
theory Momentum_Correct
  imports Alpha_Factory
begin

text \<open>
  What the momentum strategy delivers, when it cannot raise, and that it looks at no quote that is
  later than the one it trades on.
\<close>

section \<open>What is found\<close>

definition momentum_horizon :: "settings \<Rightarrow> real" where
  "momentum_horizon s = max (1 / 4) (se_alpha_momentum_horizon_hours s)"

definition momentum_lookback :: "settings \<Rightarrow> real" where
  "momentum_lookback s = max (momentum_horizon s) (se_alpha_momentum_lookback_hours s)"

lemma momentum_hours: "0 < momentum_horizon s" "momentum_horizon s \<le> momentum_lookback s" "0 < momentum_lookback s"
  by (auto simp: momentum_horizon_def momentum_lookback_def)

definition momentum_found ::
  "settings \<Rightarrow> real \<Rightarrow> alpha_history \<Rightarrow> string \<Rightarrow> market_quote list \<Rightarrow> market_quote \<Rightarrow> alpha_cand \<Rightarrow> bool" where
  "momentum_found s capital past asset current q c \<longleftrightarrow> (\<exists>first rest drawn trailing.
     momentum_window s (momentum_lookback s) q (past (mq_venue q, asset, mq_market_kind q)) = Some (first # rest)
     \<and> 0 < mq_mid first \<and> 0 < mq_mid q \<and> trailing = mq_mid q / mq_mid first - 1
     \<and> momentum_signal s current q trailing
     \<and> 0 < momentum_scaled s (momentum_horizon s) (momentum_lookback s) trailing - se_alpha_research_cost_floor_bps s / 10000
     \<and> alpha_cand_ok c
     \<and> c = momentum_candidate s capital (momentum_horizon s) (momentum_lookback s) asset q (first # rest) trailing drawn)"

lemma momentum_quote_found:
  assumes "momentum_quote uuid s capital past asset current q scored n = (Inr out, m)"
  shows "set out \<subseteq> set scored \<union> {c. momentum_found s capital past asset current q c}"
proof -
  let ?h = "momentum_horizon s" and ?lb = "momentum_lookback s"
  show ?thesis
  proof (cases "momentum_window s ?lb q (past (mq_venue q, asset, mq_market_kind q))")
    case None
    then show ?thesis using assms
      unfolding momentum_quote_def Let_def momentum_lookback_def momentum_horizon_def by (simp add: alift_Inr)
  next
    case (Some w)
    then obtain first rest where w: "w = first # rest"
      using assms unfolding momentum_quote_def Let_def momentum_lookback_def momentum_horizon_def
      by (cases w) (simp_all add: alift_Inr)
    let ?t = "mq_mid q / mq_mid first - 1"
    have step: "momentum_quote uuid s capital past asset current q scored n =
      (if mq_mid first \<le> 0 \<or> mq_mid q \<le> 0 then alift (Inr scored)
       else if \<not> momentum_signal s current q ?t \<or> momentum_scaled s ?h ?lb ?t - se_alpha_research_cost_floor_bps s / 10000 \<le> 0
       then alift (Inr scored)
       else abind (draw uuid) (\<lambda>drawn. abind (alift (checked_alpha_cand
              (momentum_candidate s capital ?h ?lb asset q (first # rest) ?t drawn))) (\<lambda>c. alift (Inr (scored @ [c]))))) n"
      using Some unfolding momentum_quote_def momentum_lookback_def momentum_horizon_def Let_def w by simp
    show ?thesis
    proof (cases "mq_mid first \<le> 0 \<or> mq_mid q \<le> 0 \<or> \<not> momentum_signal s current q ?t
        \<or> momentum_scaled s ?h ?lb ?t - se_alpha_research_cost_floor_bps s / 10000 \<le> 0")
      case True
      then have "momentum_quote uuid s capital past asset current q scored n = alift (Inr scored) n"
        unfolding step by presburger
      then show ?thesis using assms by (auto simp: alift_def)
    next
      case False
      then have run: "momentum_quote uuid s capital past asset current q scored n =
          abind (draw uuid) (\<lambda>drawn. abind (alift (checked_alpha_cand
              (momentum_candidate s capital ?h ?lb asset q (first # rest) ?t drawn))) (\<lambda>c. alift (Inr (scored @ [c])))) n"
        unfolding step by presburger
      obtain drawn c where c: "alpha_cand_ok c" "out = scored @ [c]"
          "c = momentum_candidate s capital ?h ?lb asset q (first # rest) ?t drawn"
        using assms unfolding run abind_Inr alift_Inr checked_alpha_cand_Inr by blast
      have "momentum_found s capital past asset current q c"
        unfolding momentum_found_def using Some w False c(1,3)
        by - (rule exI [of _ first], rule exI [of _ rest], rule exI [of _ drawn], rule exI [of _ ?t], intro conjI; simp)
      then show ?thesis using c(2) by simp
    qed
  qed
qed

lemma tradable_groups:
  assumes "(asset, current) \<in> set (tradable_by_asset qs)"
  shows "current = filter (\<lambda>q. upper (mq_asset q) = asset) (filter (\<lambda>q. mq_market_kind q \<in> {SPOT, PERPETUAL}) qs)"
  using group_by_member(1) [OF assms [unfolded tradable_by_asset_def]] .

lemma momentum_asset_rows:
  assumes "momentum_asset uuid s capital past (asset, current) rows n = (Inr out, m)"
  obtains "out = rows" | c q where "out = rows @ [c]" "q \<in> set current" "momentum_found s capital past asset current q c"
proof -
  obtain scored k where scored: "afold (momentum_quote uuid s capital past asset current) current [] n = (Inr scored, k)"
      "out = rows @ take 1 (sort_desc al_expected_net_return scored)"
    using assms by (auto simp: momentum_asset_def abind_Inr alift_Inr)
  have all: "\<forall>c \<in> set scored. \<exists>q \<in> set current. momentum_found s capital past asset current q c"
    using afold_collect [OF scored(1), of "momentum_found s capital past asset current"] momentum_quote_found by auto
  show thesis
  proof (cases "sort_desc al_expected_net_return scored")
    case Nil
    then show thesis using that(1) scored(2) by simp
  next
    case (Cons c cs)
    then have "c \<in> set scored" by (metis list.set_intros(1) set_sort_desc)
    then show thesis using all that(2) scored(2) Cons by auto
  qed
qed

lemma momentum_candidate_fields:
  fixes s :: settings and capital h lb t :: real and asset drawn :: string and q :: market_quote
    and w :: "market_quote list" and c :: alpha_cand
  defines "c \<equiv> momentum_candidate s capital h lb asset q w t drawn"
  shows "al_asset c = asset" "al_venue c = mq_venue q" "al_symbol c = mq_symbol q" "al_market_kind c = mq_market_kind q"
    "al_observed_at c = mq_observed_at q" "al_entry_reference_price c = mq_mid q" "al_direction c = momentum_direction t"
    "al_expected_gross_return c = momentum_scaled s h lb t"
    "al_expected_net_return c = momentum_scaled s h lb t - se_alpha_research_cost_floor_bps s / 10000"
    "al_notional_usd c = alpha_notional s capital"
    "al_stage c = Research \<and> \<not> al_paper_allocation_eligible c
    \<and> \<not> al_executable_eligible c \<and> \<not> al_live_execution_eligible c \<and> al_paper_only c"
  unfolding c_def momentum_candidate_def Let_def by simp_all

lemma momentum_found_asset: "momentum_found s capital past asset current q c \<Longrightarrow> al_asset c = asset"
  by (auto simp: momentum_found_def momentum_candidate_fields)

lemma momentum_found_research:
  assumes "momentum_found s capital past asset current q c"
  shows "alpha_cand_ok c \<and> al_stage c = Research \<and> \<not> al_paper_allocation_eligible c
    \<and> \<not> al_executable_eligible c \<and> \<not> al_live_execution_eligible c \<and> al_paper_only c"
proof -
  obtain h lb w t drawn where c: "alpha_cand_ok c" "c = momentum_candidate s capital h lb asset q w t drawn"
    using assms unfolding momentum_found_def by (elim exE conjE) (rule that; assumption)
  then show ?thesis using momentum_candidate_fields(11) by blast
qed

text \<open>Every candidate comes from a quote of its asset, and no asset has two candidates.\<close>

lemma momentum_rows:
  assumes "afold (momentum_asset uuid s capital past) groups rows n = (Inr out, m)"
    and "distinct (map fst groups)" and "distinct (map al_asset rows)" and "\<forall>c \<in> set rows. al_asset c \<notin> fst ` set groups"
  shows "distinct (map al_asset out)
    \<and> (\<forall>c \<in> set out. c \<in> set rows \<or> (\<exists>(asset, current) \<in> set groups. \<exists>q \<in> set current. momentum_found s capital past asset current q c))"
proof -
  have "distinct (map al_asset out) \<and> (\<forall>c \<in> set out. c \<in> set rows
      \<or> (\<exists>g \<in> set groups. \<exists>q \<in> set (snd g). momentum_found s capital past (fst g) (snd g) q c))"
  proof (rule afold_groups [OF assms(1) _ assms(2-4)])
    fix g :: "string \<times> market_quote list" and rows n out m
    assume run: "momentum_asset uuid s capital past g rows n = (Inr out, m)"
    then have "momentum_asset uuid s capital past (fst g, snd g) rows n = (Inr out, m)" by simp
    then show "out = rows \<or> (\<exists>c. out = rows @ [c] \<and> al_asset c = fst g
        \<and> (\<exists>q \<in> set (snd g). momentum_found s capital past (fst g) (snd g) q c))"
      by (rule momentum_asset_rows) (auto dest: momentum_found_asset)
  qed
  then show ?thesis by (fastforce simp: case_prod_beta)
qed

lemma momentum_discovered:
  assumes "momentum_discover uuid scan past s capital n = (Inr cs, m)"
  shows "distinct (map al_asset cs)" and
    "c \<in> set cs \<Longrightarrow> \<exists>q \<in> set (mn_market_quotes scan). mq_market_kind q \<in> {SPOT, PERPETUAL}
       \<and> momentum_found s capital past (upper (mq_asset q)) (filter (\<lambda>x. upper (mq_asset x) = upper (mq_asset q))
           (filter (\<lambda>x. mq_market_kind x \<in> {SPOT, PERPETUAL}) (mn_market_quotes scan))) q c"
proof -
  have d: "distinct (map fst (tradable_by_asset (mn_market_quotes scan)))"
    unfolding tradable_by_asset_def by (rule distinct_group_by)
  note rows = momentum_rows [OF assms [unfolded momentum_discover_def] d]
  show "distinct (map al_asset cs)" using rows by simp
  assume "c \<in> set cs"
  then obtain asset current q where g: "(asset, current) \<in> set (tradable_by_asset (mn_market_quotes scan))"
      "q \<in> set current" "momentum_found s capital past asset current q c" using rows by auto
  from tradable_groups [OF g(1)] g(2,3)
  show "\<exists>q \<in> set (mn_market_quotes scan). mq_market_kind q \<in> {SPOT, PERPETUAL}
       \<and> momentum_found s capital past (upper (mq_asset q)) (filter (\<lambda>x. upper (mq_asset x) = upper (mq_asset q))
           (filter (\<lambda>x. mq_market_kind x \<in> {SPOT, PERPETUAL}) (mn_market_quotes scan))) q c"
    by (intro bexI [of _ q]) auto
qed

section \<open>The window and the forecast\<close>

lemma momentum_window_first:
  assumes "momentum_window s lookback q past = Some (first # rest)"
  shows "first \<in> set past" and "mq_observed_at first \<le> mq_observed_at q"
    and "mq_observed_at q - hours lookback \<le> mq_observed_at first"
    and "\<forall>x \<in> set past. mq_observed_at q - hours lookback \<le> mq_observed_at x \<and> mq_observed_at x \<le> mq_observed_at q
      \<longrightarrow> mq_observed_at first \<le> mq_observed_at x"
proof -
  let ?sorted = "by_time (filter (\<lambda>x. mq_observed_at x \<le> mq_observed_at q) past)"
  have w: "first # rest = filter (\<lambda>x. mq_observed_at x \<ge> mq_observed_at q - hours lookback) ?sorted"
    using assms by (auto simp: momentum_window_def Let_def split: if_splits)
  have "first \<in> set (filter (\<lambda>x. mq_observed_at x \<ge> mq_observed_at q - hours lookback) ?sorted)" by (simp flip: w)
  then show "first \<in> set past" "mq_observed_at first \<le> mq_observed_at q"
      "mq_observed_at q - hours lookback \<le> mq_observed_at first" by (auto simp: by_time_def)
  have "sorted (map mq_observed_at (first # rest))"
    unfolding w by_time_def by (simp add: sorted_filter)
  moreover have "x \<in> set (first # rest)"
    if "x \<in> set past" "mq_observed_at q - hours lookback \<le> mq_observed_at x" "mq_observed_at x \<le> mq_observed_at q" for x
    using that unfolding w by (auto simp: by_time_def)
  ultimately show "\<forall>x \<in> set past. mq_observed_at q - hours lookback \<le> mq_observed_at x \<and> mq_observed_at x \<le> mq_observed_at q
      \<longrightarrow> mq_observed_at first \<le> mq_observed_at x" by force
qed

text \<open>The forecast never exceeds the move it is taken from.\<close>

lemma momentum_scaled_le: "momentum_scaled s (momentum_horizon s) (momentum_lookback s) trailing \<le> \<bar>trailing\<bar>"
proof -
  define k where "k = momentum_horizon s / momentum_lookback s * max 0 (min 1 (se_alpha_forecast_shrinkage s))"
  have "0 \<le> momentum_horizon s / momentum_lookback s" "momentum_horizon s / momentum_lookback s \<le> 1"
    using momentum_hours [of s] by (simp_all add: divide_le_eq)
  moreover have "0 \<le> max 0 (min 1 (se_alpha_forecast_shrinkage s))" "max 0 (min 1 (se_alpha_forecast_shrinkage s)) \<le> 1" by simp_all
  ultimately have k: "0 \<le> k" "k \<le> 1" unfolding k_def by (metis mult_nonneg_nonneg, metis mult_le_one)
  have "\<bar>trailing * k\<bar> \<le> \<bar>trailing\<bar>" using k by (simp add: abs_mult mult_left_le)
  moreover have "momentum_scaled s (momentum_horizon s) (momentum_lookback s) trailing \<le> \<bar>trailing * k\<bar>"
  proof -
    have "momentum_scaled s (momentum_horizon s) (momentum_lookback s) trailing =
        (if momentum_direction trailing = Alpha_short then \<bar>trailing * k\<bar> else trailing * k)"
      by (simp only: momentum_scaled_def k_def Let_def mult.assoc)
    then show ?thesis by (simp add: abs_ge_self)
  qed
  ultimately show ?thesis by linarith
qed

section \<open>No look-ahead\<close>

lemma momentum_window_past:
  assumes "mq_observed_at q \<le> t"
  shows "momentum_window s lookback q (filter (\<lambda>x. mq_observed_at x \<le> t) past) = momentum_window s lookback q past"
proof -
  have "filter (\<lambda>x. mq_observed_at x \<le> mq_observed_at q) (filter (\<lambda>x. mq_observed_at x \<le> t) past)
      = filter (\<lambda>x. mq_observed_at x \<le> mq_observed_at q) past"
    using assms by (auto intro: filter_cong)
  then show ?thesis by (simp only: momentum_window_def)
qed

lemma momentum_discover_past:
  assumes "\<forall>q \<in> set (mn_market_quotes scan). mq_observed_at q \<le> t"
  shows "momentum_discover uuid scan (\<lambda>k. filter (\<lambda>x. mq_observed_at x \<le> t) (past k)) s capital
    = momentum_discover uuid scan past s capital"
proof -
  let ?past = "\<lambda>k. filter (\<lambda>x. mq_observed_at x \<le> t) (past k)"
  have "momentum_asset uuid s capital ?past g = momentum_asset uuid s capital past g"
    if g: "g \<in> set (tradable_by_asset (mn_market_quotes scan))" for g
  proof -
    obtain asset current where eq: "g = (asset, current)" by (cases g)
    have "set current \<subseteq> set (mn_market_quotes scan)" using tradable_groups [OF g [unfolded eq]] by auto
    then have "momentum_quote uuid s capital ?past asset current q = momentum_quote uuid s capital past asset current q"
      if "q \<in> set current" for q
      using that assms by (intro ext) (auto simp: momentum_quote_def momentum_window_past)
    then have "afold (momentum_quote uuid s capital ?past asset current) current [] =
        afold (momentum_quote uuid s capital past asset current) current []" by (rule afold_cong)
    then show ?thesis by (intro ext) (simp add: momentum_asset_def eq)
  qed
  then show ?thesis unfolding momentum_discover_def by (rule afold_cong)
qed

interpretation momentum: point_in_time "momentum_discover uuid" for uuid
  by unfold_locales (unfold until_def, rule momentum_discover_past)

section \<open>When it cannot raise\<close>

definition alpha_settings_ok :: "settings \<Rightarrow> bool" where
  "alpha_settings_ok s \<longleftrightarrow> 1 \<le> se_alpha_min_history_points s \<and> 0 \<le> se_alpha_research_cost_floor_bps s
     \<and> 0 < se_alpha_min_notional_usd s"

lemma momentum_candidate_valid:
  assumes "alpha_settings_ok s" and "0 < capital" and "0 < mq_mid q"
  shows "alpha_cand_ok (momentum_candidate s capital (momentum_horizon s) (momentum_lookback s) asset q w t drawn)"
  using assms momentum_hours [of s]
  by (auto simp: alpha_cand_ok_def momentum_candidate_def Let_def alpha_settings_ok_def alpha_notional_def alpha_capital_def
      intro!: divide_nonneg_nonneg)

lemma momentum_quote_step:
  assumes "momentum_window s (momentum_lookback s) q (past (mq_venue q, asset, mq_market_kind q)) = Some (first # rest)"
  shows "momentum_quote uuid s capital past asset current q scored n =
    (if mq_mid first \<le> 0 \<or> mq_mid q \<le> 0 then alift (Inr scored)
     else if \<not> momentum_signal s current q (mq_mid q / mq_mid first - 1)
        \<or> momentum_scaled s (momentum_horizon s) (momentum_lookback s) (mq_mid q / mq_mid first - 1)
            - se_alpha_research_cost_floor_bps s / 10000 \<le> 0
     then alift (Inr scored)
     else abind (draw uuid) (\<lambda>drawn. abind (alift (checked_alpha_cand (momentum_candidate s capital (momentum_horizon s)
            (momentum_lookback s) asset q (first # rest) (mq_mid q / mq_mid first - 1) drawn))) (\<lambda>c. alift (Inr (scored @ [c]))))) n"
  using assms unfolding momentum_quote_def momentum_lookback_def momentum_horizon_def Let_def by simp

text \<open>A signal that clears its cost is found.\<close>

lemma momentum_quote_delivers:
  assumes "alpha_settings_ok s" and "0 < capital" and "0 < mq_mid first" and "0 < mq_mid q"
    and "momentum_window s (momentum_lookback s) q (past (mq_venue q, asset, mq_market_kind q)) = Some (first # rest)"
    and "momentum_signal s current q (mq_mid q / mq_mid first - 1)"
    and "0 < momentum_scaled s (momentum_horizon s) (momentum_lookback s) (mq_mid q / mq_mid first - 1)
      - se_alpha_research_cost_floor_bps s / 10000"
  shows "\<exists>c. momentum_quote uuid s capital past asset current q scored n = (Inr (scored @ [c]), Suc n)"
  using assms(3,4,6,7) momentum_candidate_valid [OF assms(1,2,4)]
  by (simp add: momentum_quote_step [where past = past, OF assms(5)] abind_def alift_def draw_def checked_alpha_cand_def)

lemma momentum_quote_defined:
  assumes "alpha_settings_ok s" and "0 < capital"
  shows "\<exists>out m. momentum_quote uuid s capital past asset current q scored n = (Inr out, m)"
proof (cases "momentum_window s (momentum_lookback s) q (past (mq_venue q, asset, mq_market_kind q))")
  case None
  then show ?thesis by (simp add: momentum_quote_def momentum_lookback_def momentum_horizon_def alift_def)
next
  case (Some w)
  have "w \<noteq> []" using Some assms(1) by (auto simp: momentum_window_def alpha_settings_ok_def Let_def split: if_splits)
  then obtain first rest where w: "w = first # rest" by (cases w) auto
  show ?thesis using momentum_candidate_valid [OF assms, of q]
    by (auto simp: momentum_quote_step [where past = past, OF Some [unfolded w]] abind_def alift_def draw_def checked_alpha_cand_def)
qed

lemma momentum_discover_defined:
  assumes "alpha_settings_ok s" and "0 < capital"
  shows "\<exists>cs m. momentum_discover uuid scan past s capital n = (Inr cs, m)"
  unfolding momentum_discover_def
proof (rule afold_defined)
  fix g :: "string \<times> market_quote list" and rows n
  obtain asset current where g: "g = (asset, current)" by (cases g)
  obtain scored k where "afold (momentum_quote uuid s capital past asset current) current [] n = (Inr scored, k)"
    using afold_defined [of current "momentum_quote uuid s capital past asset current"] momentum_quote_defined [OF assms] by blast
  then show "\<exists>out m. momentum_asset uuid s capital past g rows n = (Inr out, m)"
    by (simp add: momentum_asset_def g abind_def alift_def)
qed

end
