(* ===== verification/Props_Alpha.thy ===== *)
theory Props_Alpha
  imports Alpha_Correct Momentum_Correct Fixtures
begin

text \<open>
  The properties of the alpha research: what a strategy may look at, what counts as evidence, and
  what a candidate has to show before it is promoted to paper.
\<close>

section \<open>Discovery\<close>

text \<open>
  C26: the momentum strategy finds at most one candidate for an asset, and each follows its rule: it
  trades a quote of the scan at its mid price, in the direction of the move from the oldest stored
  quote in the lookback, never short on spot, never long on a perpetual while spot is quoted, with a
  positive forecast net of the cost floor that does not exceed the move, and within the capital.
\<close>

theorem momentum_candidates_sound:
  assumes "momentum_discover uuid scan past s capital n = (Inr cs, m)"
  shows "distinct (map al_asset cs) \<and> (\<forall>c \<in> set cs. \<exists>q first.
      q \<in> set (mn_market_quotes scan) \<and> first \<in> set (past (mq_venue q, upper (mq_asset q), mq_market_kind q))
    \<and> mq_observed_at first \<le> mq_observed_at q \<and> mq_observed_at q - hours (momentum_lookback s) \<le> mq_observed_at first
    \<and> (\<forall>x \<in> set (past (mq_venue q, upper (mq_asset q), mq_market_kind q)).
         mq_observed_at q - hours (momentum_lookback s) \<le> mq_observed_at x \<and> mq_observed_at x \<le> mq_observed_at q
         \<longrightarrow> mq_observed_at first \<le> mq_observed_at x)
    \<and> al_venue c = mq_venue q \<and> al_symbol c = mq_symbol q \<and> al_market_kind c = mq_market_kind q
    \<and> al_asset c = upper (mq_asset q) \<and> al_observed_at c = mq_observed_at q \<and> al_entry_reference_price c = mq_mid q
    \<and> al_direction c = (if mq_mid first < mq_mid q then Alpha_long else Alpha_short)
    \<and> se_alpha_momentum_min_abs_return s \<le> \<bar>mq_mid q / mq_mid first - 1\<bar>
    \<and> (al_direction c = Alpha_short \<longrightarrow> mq_market_kind q = PERPETUAL)
    \<and> (al_direction c = Alpha_long \<and> mq_market_kind q = PERPETUAL \<longrightarrow>
         (\<forall>x \<in> set (mn_market_quotes scan). upper (mq_asset x) = upper (mq_asset q) \<longrightarrow> mq_market_kind x \<noteq> SPOT))
    \<and> 0 < al_expected_net_return c \<and> al_expected_gross_return c \<le> \<bar>mq_mid q / mq_mid first - 1\<bar>
    \<and> al_expected_net_return c = al_expected_gross_return c - se_alpha_research_cost_floor_bps s / 10000
    \<and> 0 < al_notional_usd c \<and> al_notional_usd c \<le> capital)"
proof (intro conjI ballI)
  show "distinct (map al_asset cs)" by (rule momentum_discovered(1) [OF assms])
next
  fix c assume "c \<in> set cs"
  from momentum_discovered(2) [OF assms this] obtain q where
    q: "q \<in> set (mn_market_quotes scan)" and found: "momentum_found s capital past (upper (mq_asset q))
        (filter (\<lambda>x. upper (mq_asset x) = upper (mq_asset q))
           (filter (\<lambda>x. mq_market_kind x \<in> {SPOT, PERPETUAL}) (mn_market_quotes scan))) q c" by blast
  from found obtain first rest drawn trailing where f:
      "momentum_window s (momentum_lookback s) q (past (mq_venue q, upper (mq_asset q), mq_market_kind q)) = Some (first # rest)"
      "0 < mq_mid first" "0 < mq_mid q" "trailing = mq_mid q / mq_mid first - 1"
      "momentum_signal s (filter (\<lambda>x. upper (mq_asset x) = upper (mq_asset q))
           (filter (\<lambda>x. mq_market_kind x \<in> {SPOT, PERPETUAL}) (mn_market_quotes scan))) q trailing"
      "0 < momentum_scaled s (momentum_horizon s) (momentum_lookback s) trailing - se_alpha_research_cost_floor_bps s / 10000"
      "alpha_cand_ok c"
      "c = momentum_candidate s capital (momentum_horizon s) (momentum_lookback s) (upper (mq_asset q)) q (first # rest) trailing drawn"
    unfolding momentum_found_def by blast
  have dir: "momentum_direction trailing = (if mq_mid first < mq_mid q then Alpha_long else Alpha_short)"
    using f(2) by (simp add: momentum_direction_def f(4) less_divide_eq)
  have c: "al_venue c = mq_venue q \<and> al_symbol c = mq_symbol q \<and> al_market_kind c = mq_market_kind q
    \<and> al_asset c = upper (mq_asset q) \<and> al_observed_at c = mq_observed_at q \<and> al_entry_reference_price c = mq_mid q
    \<and> al_direction c = momentum_direction trailing
    \<and> al_expected_gross_return c = momentum_scaled s (momentum_horizon s) (momentum_lookback s) trailing
    \<and> al_expected_net_return c = al_expected_gross_return c - se_alpha_research_cost_floor_bps s / 10000
    \<and> al_notional_usd c = alpha_notional s capital"
    unfolding f(8) by (simp only: momentum_candidate_fields simp_thms)
  have n: "0 < al_notional_usd c" "al_notional_usd c \<le> capital"
    using f(7) c by (auto simp: alpha_cand_ok_def alpha_notional_def)
  note w = momentum_window_first [OF f(1)]
  have spot: "\<forall>x \<in> set (mn_market_quotes scan). upper (mq_asset x) = upper (mq_asset q) \<longrightarrow> mq_market_kind x \<noteq> SPOT"
    if "al_direction c = Alpha_long" "mq_market_kind q = PERPETUAL"
    using f(5) that c by (auto simp: momentum_signal_def)
  have move: "se_alpha_momentum_min_abs_return s \<le> \<bar>mq_mid q / mq_mid first - 1\<bar>"
    and short: "al_direction c = Alpha_short \<longrightarrow> mq_market_kind q = PERPETUAL"
    using f(4,5) c by (auto simp: momentum_signal_def)
  have gross: "al_expected_gross_return c \<le> \<bar>mq_mid q / mq_mid first - 1\<bar>" and net: "0 < al_expected_net_return c"
    using c f(6) momentum_scaled_le [of s trailing] unfolding f(4) by simp_all
  have dirc: "al_direction c = (if mq_mid first < mq_mid q then Alpha_long else Alpha_short)" using c dir by simp
  show "\<exists>q first. q \<in> set (mn_market_quotes scan) \<and> first \<in> set (past (mq_venue q, upper (mq_asset q), mq_market_kind q))
    \<and> mq_observed_at first \<le> mq_observed_at q \<and> mq_observed_at q - hours (momentum_lookback s) \<le> mq_observed_at first
    \<and> (\<forall>x \<in> set (past (mq_venue q, upper (mq_asset q), mq_market_kind q)).
         mq_observed_at q - hours (momentum_lookback s) \<le> mq_observed_at x \<and> mq_observed_at x \<le> mq_observed_at q
         \<longrightarrow> mq_observed_at first \<le> mq_observed_at x)
    \<and> al_venue c = mq_venue q \<and> al_symbol c = mq_symbol q \<and> al_market_kind c = mq_market_kind q
    \<and> al_asset c = upper (mq_asset q) \<and> al_observed_at c = mq_observed_at q \<and> al_entry_reference_price c = mq_mid q
    \<and> al_direction c = (if mq_mid first < mq_mid q then Alpha_long else Alpha_short)
    \<and> se_alpha_momentum_min_abs_return s \<le> \<bar>mq_mid q / mq_mid first - 1\<bar>
    \<and> (al_direction c = Alpha_short \<longrightarrow> mq_market_kind q = PERPETUAL)
    \<and> (al_direction c = Alpha_long \<and> mq_market_kind q = PERPETUAL \<longrightarrow>
         (\<forall>x \<in> set (mn_market_quotes scan). upper (mq_asset x) = upper (mq_asset q) \<longrightarrow> mq_market_kind x \<noteq> SPOT))
    \<and> 0 < al_expected_net_return c \<and> al_expected_gross_return c \<le> \<bar>mq_mid q / mq_mid first - 1\<bar>
    \<and> al_expected_net_return c = al_expected_gross_return c - se_alpha_research_cost_floor_bps s / 10000
    \<and> 0 < al_notional_usd c \<and> al_notional_usd c \<le> capital"
    using c spot by - (rule exI [of _ q], rule exI [of _ first], intro conjI q w move short gross net dirc n impI; simp)
qed

text \<open>
  The momentum strategy does not look ahead: quotes stored after the scan change nothing in
  what it discovers, down to the identifiers it draws.
\<close>

theorem momentum_no_lookahead:
  assumes "\<forall>q \<in> set (mn_market_quotes scan). mq_observed_at q \<le> t"
    and "\<And>k. filter (\<lambda>x. mq_observed_at x \<le> t) (past k) = filter (\<lambda>x. mq_observed_at x \<le> t) (past' k)"
  shows "momentum_discover uuid scan past s capital = momentum_discover uuid scan past' s capital"
  by (rule momentum.later_ignored [OF assms])

text \<open>
  With some history asked for, a cost floor that is not negative and capital to trade with, the
  momentum strategy never raises, and every candidate it delivers passes the validation of its
  record and claims no authority beyond research on paper.
\<close>

theorem momentum_candidates_typed:
  assumes "1 \<le> se_alpha_min_history_points s" and "0 \<le> se_alpha_research_cost_floor_bps s"
    and "0 < se_alpha_min_notional_usd s" and "0 < capital"
  shows "\<exists>cs m. momentum_discover uuid scan past s capital n = (Inr cs, m)
    \<and> (\<forall>c \<in> set cs. alpha_cand_ok c \<and> al_stage c = Research \<and> \<not> al_paper_allocation_eligible c
         \<and> \<not> al_executable_eligible c \<and> \<not> al_live_execution_eligible c \<and> al_paper_only c)"
proof -
  have "alpha_settings_ok s" using assms(1-3) by (simp add: alpha_settings_ok_def)
  from momentum_discover_defined [OF this assms(4)] obtain cs m where
    run: "momentum_discover uuid scan past s capital n = (Inr cs, m)" by blast
  have "alpha_cand_ok c \<and> al_stage c = Research \<and> \<not> al_paper_allocation_eligible c
         \<and> \<not> al_executable_eligible c \<and> \<not> al_live_execution_eligible c \<and> al_paper_only c" if "c \<in> set cs" for c
    using momentum_discovered(2) [OF run that] momentum_found_research by blast
  then show ?thesis using run by blast
qed

section \<open>Costs\<close>

text \<open>
  The alpha research and the arbitrage costs charge the same: a taker fee is known to the one
  exactly when it is known to the other, and it is the same fee.
\<close>

theorem alpha_fees_agree:
  "one_way_fee_bps s (lg_venue leg) (lg_market_kind leg) =
     (case taker_fee_bps leg s of Inr fee \<Rightarrow> Some fee | Inl e \<Rightarrow> None)"
  by (cases "lg_market_kind leg") (auto simp: one_way_fee_bps_def taker_fee_bps_def Let_def)

section \<open>Health\<close>

text \<open>
  C39: the running drawdown of the health model is the worst fall of compounded wealth between any
  two times, with every single loss capped at 99 percent.
\<close>

theorem drawdown_is_worst_fall:
  "max_compounded_drawdown values = Max {1 - (\<Prod>v\<leftarrow>take j values. 1 + max (- 0.99) v) / (\<Prod>v\<leftarrow>take i values. 1 + max (- 0.99) v)
      | i j. i \<le> j \<and> j \<le> length values}"
proof -
  have "falls values = {1 - (\<Prod>v\<leftarrow>take j values. 1 + max (- 0.99) v) / (\<Prod>v\<leftarrow>take i values. 1 + max (- 0.99) v)
      | i j. i \<le> j \<and> j \<le> length values}"
    unfolding falls_def wealth_def by auto
  then show ?thesis by (simp only: max_compounded_drawdown_def drawdown_state snd_conv)
qed

section \<open>Evidence\<close>

text \<open>
  C40: the outcomes that count as independent are outcomes of the cohort whose holding periods do
  not overlap, and no outcome could be added to them: each one left out was observed while one that
  counts was held.
\<close>

theorem independent_outcomes_disjoint:
  "set (outcomes_for c l) \<subseteq> set (cohort_outcomes c l)
    \<and> sorted_wrt (\<lambda>u v. fo_due_at u \<le> fo_observed_at v) (outcomes_for c l)
    \<and> (\<forall>u \<in> set (cohort_outcomes c l). u \<in> set (outcomes_for c l)
         \<or> (\<exists>v \<in> set (outcomes_for c l). fo_observed_at v \<le> fo_observed_at u \<and> fo_observed_at u < fo_due_at v))"
  using take_independent_ok [OF independence_sorted, of None "cohort_outcomes c l"]
  by (auto simp: outcomes_for_def independent_outcomes_def)

inductive alpha_reachable :: "alpha_env \<Rightarrow> alpha_ledger \<Rightarrow> bool" for env where
  empty_table: "alpha_reachable env \<lparr>xl_events = [], xl_drawn = n\<rparr>"
| after_evidence: "alpha_reachable env l \<Longrightarrow>
    alpha_reachable env (snd (expanded_evidence_cycle env registry s stored collected capital l))"

lemma alpha_reachable_ok: "alpha_reachable env l \<Longrightarrow> forward_ok l"
proof (induction rule: alpha_reachable.induct)
  case (empty_table n)
  then show ?case by (simp add: forward_ok_def alpha_outcomes_def signals_of_def open_signals_def)
next
  case (after_evidence l registry s stored collected capital)
  obtain r t where run: "expanded_evidence_cycle env registry s stored collected capital l = (r, t)" by fastforce
  have "forward_ok t" using expanded_cycle_keeps [of env registry s stored collected capital] after_evidence.IH run
    by (cases r) (auto simp: triple_def)
  then show ?case by (simp add: run)
qed

text \<open>
  C12: evidence is forward only: after any cycles, completed or aborted, every outcome belongs to a
  signal that was recorded with its prediction, was settled no earlier than its horizon, and has the
  return from the recorded entry price; and no cohort has two open signals.
\<close>

theorem alpha_evidence_forward:
  assumes "alpha_reachable env l"
  shows "(\<forall>u \<in> set (alpha_outcomes l). \<exists>x \<in> set (signals_of l). \<exists>c. fw_candidate x = c
      \<and> fo_signal_id u = fw_signal_id x \<and> fo_due_at u = al_observed_at c + hours (al_horizon_hours c)
      \<and> fo_due_at u \<le> fo_matured_at u \<and> fo_predicted_net_return u = al_expected_net_return c
      \<and> fo_entry_price u = al_entry_reference_price c
      \<and> fo_realized_net_return u = (if al_direction c = Alpha_long then 1 else -1)
          * (fo_exit_price u / fo_entry_price u - 1) - al_estimated_cost_return c)
    \<and> distinct (map (\<lambda>x. (al_strategy_id (fw_candidate x), al_asset (fw_candidate x), al_direction (fw_candidate x)))
        (filter (\<lambda>x. fw_signal_id x \<notin> completed_signals l) (signals_of l)))"
proof -
  have ok: "forward_ok l" by (rule alpha_reachable_ok [OF assms])
  then have "distinct (map (\<lambda>x. (al_strategy_id (fw_candidate x), al_asset (fw_candidate x), al_direction (fw_candidate x)))
        (filter (\<lambda>x. fw_signal_id x \<notin> completed_signals l) (signals_of l)))"
    by (simp add: forward_ok_def open_signals_def alpha_cohort_def)
  moreover have "\<exists>x \<in> set (signals_of l). \<exists>c. fw_candidate x = c
      \<and> fo_signal_id u = fw_signal_id x \<and> fo_due_at u = al_observed_at c + hours (al_horizon_hours c)
      \<and> fo_due_at u \<le> fo_matured_at u \<and> fo_predicted_net_return u = al_expected_net_return c
      \<and> fo_entry_price u = al_entry_reference_price c
      \<and> fo_realized_net_return u = (if al_direction c = Alpha_long then 1 else -1)
          * (fo_exit_price u / fo_entry_price u - 1) - al_estimated_cost_return c" if "u \<in> set (alpha_outcomes l)" for u
  proof -
    obtain x where "x \<in> set (signals_of l)" "settled_as x u" using ok \<open>u \<in> set (alpha_outcomes l)\<close> by (auto simp: forward_ok_def)
    then show ?thesis using ok by (intro bexI [of _ x]) (auto simp: forward_ok_def settled_as_def)
  qed
  ultimately show ?thesis by blast
qed

section \<open>Promotion\<close>

text \<open>
  C7: a promoted candidate was discovered, and promoted on forward evidence only: enough
  independent outcomes of its cohort, whose mean and hit rate lie above the hurdles by their lower
  confidence bounds, in enough regimes and in each with a sufficient mean; a health model that calls
  it healthy; and a cost taken from the current book.  Its expected return is what is left of the
  forecast after that cost, never above the lower bound of the evidence, and its size is only ever
  cut.  Promotion writes nothing to the table.
\<close>

theorem promoted_alpha_gated:
  assumes "expanded_promoted_candidates registry s hs stored books scan capital l = (Inr cs, l')"
  shows "xl_events l' = xl_events l \<and> (\<forall>c \<in> set cs. \<exists>found d us h cost low.
      fst (discover_candidates registry s stored scan capital l) = Inr found \<and> d \<in> set found
    \<and> al_candidate_id c = al_candidate_id d \<and> us = outcomes_for d l
    \<and> se_alpha_min_forward_samples s \<le> int (length us)
    \<and> mean_lower (map fo_realized_net_return us) z_default = Some low
    \<and> se_alpha_min_forward_mean_return s + alpha_penalty s (length registry) < low
    \<and> (\<exists>rate. wilson_lower (length (filter (\<lambda>u. 0 < fo_realized_net_return u) us)) (length us) z_default = Some rate
         \<and> se_alpha_min_hit_rate_lower_bound s \<le> rate)
    \<and> se_alpha_min_regimes s \<le> int (card (fo_regime ` set us))
    \<and> (\<forall>r \<in> fo_regime ` set us. se_alpha_min_regime_mean_return s
         < fmean (map fo_realized_net_return (filter (\<lambda>u. fo_regime u = r) us)))
    \<and> strategy_health hs d l = Inr h \<and> ah_healthy_for_paper_allocation h
    \<and> current_l2_cost s books d = Some cost \<and> al_estimated_cost_return c = cost
    \<and> al_expected_net_return c = min (al_expected_gross_return d - cost) low
    \<and> se_alpha_min_current_net_return s < al_expected_net_return c
    \<and> 0 < ah_capital_multiplier h \<and> ah_capital_multiplier h \<le> 1
    \<and> al_notional_usd c = al_notional_usd d * ah_capital_multiplier h
    \<and> al_capital_required_usd c = al_capital_required_usd d * ah_capital_multiplier h
    \<and> se_alpha_min_notional_usd s \<le> al_notional_usd c)
    \<and> sorted_wrt (\<lambda>a b. profit_key b \<le> profit_key a) cs"
proof -
  obtain found where found: "discover_candidates registry s stored scan capital l = (Inr found, l')"
    and rows: "rbind (rmap (scale_by_health s (\<lambda>c. strategy_health hs c l'))
            (promoted_of s books (\<lambda>c. expanded_qualification s registry c l') found)) (\<lambda>rows.
          Inr (sort_desc profit_key (some_values rows))) = Inr cs"
    using assms by (auto simp: expanded_promoted_candidates_def abind_Inr)
  have same: "xl_events l' = xl_events l"
    using found unfolding discover_candidates_def by (rule on_drawn_events)
  then have outs: "outcomes_for d l' = outcomes_for d l" for d
    using same_events [of l' l] by (simp add: outcomes_for_def cohort_outcomes_def outcomes_where_def)
  obtain scaled where scaled: "rmap (scale_by_health s (\<lambda>c. strategy_health hs c l'))
            (promoted_of s books (\<lambda>c. expanded_qualification s registry c l') found) = Inr scaled"
      "cs = sort_desc profit_key (some_values scaled)"
    using rows by auto
  have "\<exists>found d us h cost low.
      fst (discover_candidates registry s stored scan capital l) = Inr found \<and> d \<in> set found
    \<and> al_candidate_id c = al_candidate_id d \<and> us = outcomes_for d l
    \<and> se_alpha_min_forward_samples s \<le> int (length us)
    \<and> mean_lower (map fo_realized_net_return us) z_default = Some low
    \<and> se_alpha_min_forward_mean_return s + alpha_penalty s (length registry) < low
    \<and> (\<exists>rate. wilson_lower (length (filter (\<lambda>u. 0 < fo_realized_net_return u) us)) (length us) z_default = Some rate
         \<and> se_alpha_min_hit_rate_lower_bound s \<le> rate)
    \<and> se_alpha_min_regimes s \<le> int (card (fo_regime ` set us))
    \<and> (\<forall>r \<in> fo_regime ` set us. se_alpha_min_regime_mean_return s
         < fmean (map fo_realized_net_return (filter (\<lambda>u. fo_regime u = r) us)))
    \<and> strategy_health hs d l = Inr h \<and> ah_healthy_for_paper_allocation h
    \<and> current_l2_cost s books d = Some cost \<and> al_estimated_cost_return c = cost
    \<and> al_expected_net_return c = min (al_expected_gross_return d - cost) low
    \<and> se_alpha_min_current_net_return s < al_expected_net_return c
    \<and> 0 < ah_capital_multiplier h \<and> ah_capital_multiplier h \<le> 1
    \<and> al_notional_usd c = al_notional_usd d * ah_capital_multiplier h
    \<and> al_capital_required_usd c = al_capital_required_usd d * ah_capital_multiplier h
    \<and> se_alpha_min_notional_usd s \<le> al_notional_usd c" if c: "c \<in> set cs" for c
  proof -
    have "Some c \<in> set scaled" using c scaled(2) by simp
    from rmap_set [OF scaled(1) this] obtain p where
      p: "p \<in> set (promoted_of s books (\<lambda>c. expanded_qualification s registry c l') found)"
        "scale_by_health s (\<lambda>c. strategy_health hs c l') p = Inr (Some c)" by blast
    from p(1) obtain d where d: "d \<in> set found" "promote s books (\<lambda>c. expanded_qualification s registry c l') d = Some p"
      by (auto simp: promoted_of_def)
    from promoted_fields [OF d(2)] obtain cost where pr: "aq_statistically_qualified (expanded_qualification s registry d l')"
        "current_l2_cost s books d = Some cost"
        "al_expected_net_return p = min (al_expected_gross_return d - cost)
          (value_of (aq_mean_realized_net_return_ci_lower (expanded_qualification s registry d l')))"
        "se_alpha_min_current_net_return s < al_expected_net_return p" "al_estimated_cost_return p = cost"
        "al_candidate_id p = al_candidate_id d" "al_notional_usd p = al_notional_usd d"
        "al_capital_required_usd p = al_capital_required_usd d" "outcomes_for p = outcomes_for d"
        "strategy_health hs p l' = strategy_health hs d l'" by blast
    from scaled_fields [OF p(2)] obtain h where h: "strategy_health hs p l' = Inr h" "ah_healthy_for_paper_allocation h"
        "0 < ah_capital_multiplier h" "al_notional_usd c = al_notional_usd p * ah_capital_multiplier h"
        "al_capital_required_usd c = al_capital_required_usd p * ah_capital_multiplier h"
        "se_alpha_min_notional_usd s \<le> al_notional_usd c" "al_candidate_id c = al_candidate_id p"
        "al_expected_net_return c = al_expected_net_return p" "al_estimated_cost_return c = al_estimated_cost_return p" by blast
    have q: "expanded_qualification s registry d l' = qualify s (length registry) d (outcomes_for d l)"
      by (simp add: expanded_qualification_def alpha_manifests_def outs)
    note e = qualified_evidence [OF pr(1) [unfolded q]]
    obtain low where low: "mean_lower (map fo_realized_net_return (outcomes_for d l)) z_default = Some low"
        "aq_mean_realized_net_return_ci_lower (qualify s (length registry) d (outcomes_for d l)) = Some low"
        "se_alpha_min_forward_mean_return s + alpha_penalty s (length registry) < low" using e(2) by blast
    have "strategy_health hs d l = Inr h" using h(1) pr(10) by (simp add: strategy_health_def outs)
    moreover from this have "ah_capital_multiplier h \<le> 1" unfolding strategy_health_def by (rule evaluated_multiplier(2))
    moreover have "al_expected_net_return c = min (al_expected_gross_return d - cost) low"
      using h(8) pr(3) low(2) by (simp add: q value_of_def)
    ultimately show ?thesis using found d(1) pr(2,4-8) h(2-9) e(1,3,4,5) low(1,3)
      by - (rule exI [of _ found], rule exI [of _ d], rule exI [of _ "outcomes_for d l"], rule exI [of _ h],
        rule exI [of _ cost], rule exI [of _ low], intro conjI; assumption?; simp)
  qed
  moreover have "sorted_wrt (\<lambda>a b. profit_key b \<le> profit_key a) cs" unfolding scaled(2) by (rule sort_desc_sorted)
  ultimately show ?thesis using same by blast
qed

section \<open>Witnesses\<close>

text \<open>A spot quote ten percent above the oldest one of the last day.\<close>

definition ax_settings :: settings where
  "ax_settings = default_settings\<lparr>se_alpha_min_history_points := 2, se_alpha_min_forward_samples := 1,
     se_alpha_min_regimes := 1, se_alpha_min_hit_rate_lower_bound := 1 / 10,
     se_alpha_multiple_testing_penalty_return := 0\<rparr>"

definition ax_quote :: "real \<Rightarrow> time \<Rightarrow> market_quote" where
  "ax_quote mid t = \<lparr>mq_venue = ''Coinbase'', mq_asset = ''BTC'', mq_market_kind = SPOT, mq_symbol = ''BTC-USD'',
     mq_quote_currency = Some ''USD'', mq_contract_key = None, mq_expires_at = None, mq_bid = None, mq_ask = None,
     mq_mid = mid, mq_observed_at = t, mq_source = ''fixture''\<rparr>"

definition ax_scan :: "real \<Rightarrow> time \<Rightarrow> market_scan" where
  "ax_scan mid t = \<lparr>mn_completed_at = t, mn_market_quotes = [ax_quote mid t], mn_funding_quotes = []\<rparr>"

definition ax_past :: alpha_history where
  "ax_past = (\<lambda>k. if k = (''Coinbase'', ''BTC'', SPOT) then [ax_quote 100 0, ax_quote 110 21600000000] else [])"

definition ax_uuid :: "nat \<Rightarrow> string" where
  "ax_uuid n = replicate (Suc n) CHR ''u''"

definition ax_found :: "alpha_cand list result \<times> nat" where
  "ax_found = momentum_discover ax_uuid (ax_scan 110 21600000000) ax_past ax_settings 100000 0"

lemma ax_window: "momentum_window ax_settings (momentum_lookback ax_settings) (ax_quote 110 21600000000)
    (ax_past (''Coinbase'', ''BTC'', SPOT)) = Some [ax_quote 100 0, ax_quote 110 21600000000]"
  by code_simp

lemma ax_group: "tradable_by_asset (mn_market_quotes (ax_scan 110 21600000000)) = [(''BTC'', [ax_quote 110 21600000000])]"
  by code_simp

lemma ax_signal: "momentum_signal ax_settings [ax_quote 110 21600000000] (ax_quote 110 21600000000) (110 / 100 - 1)
   \<and> 0 < momentum_scaled ax_settings (momentum_horizon ax_settings) (momentum_lookback ax_settings) (110 / 100 - 1)
      - se_alpha_research_cost_floor_bps ax_settings / 10000"
  by code_simp

lemma ax_settings_ok: "alpha_settings_ok ax_settings"
  by code_simp

lemma ax_found_one:
  obtains c m where "momentum_discover ax_uuid (ax_scan 110 21600000000) ax_past ax_settings 100000 0 = (Inr [c], m)"
proof -
  let ?q = "ax_quote 110 21600000000"
  have "\<exists>c. momentum_quote ax_uuid ax_settings 100000 ax_past ''BTC'' [?q] ?q [] 0 = (Inr ([] @ [c]), Suc 0)"
    by (rule momentum_quote_delivers [OF ax_settings_ok, where first = "ax_quote 100 0" and rest = "[?q]"])
      (use ax_window ax_signal in \<open>simp_all add: ax_quote_def\<close>)
  then obtain c where "momentum_quote ax_uuid ax_settings 100000 ax_past ''BTC'' [?q] ?q [] 0 = (Inr [c], Suc 0)" by auto
  then have "momentum_discover ax_uuid (ax_scan 110 21600000000) ax_past ax_settings 100000 0 = (Inr [c], Suc 0)"
    by (simp add: momentum_discover_def ax_group momentum_asset_def abind_def alift_def sort_desc_def)
  then show thesis by (rule that)
qed

theorem momentum_candidates_sound_witness:
  "\<exists>c m. momentum_discover ax_uuid (ax_scan 110 21600000000) ax_past ax_settings 100000 0 = (Inr [c], m)
     \<and> al_entry_reference_price c = 110 \<and> 0 < al_expected_net_return c \<and> al_notional_usd c \<le> 100000"
proof -
  obtain c m where run: "momentum_discover ax_uuid (ax_scan 110 21600000000) ax_past ax_settings 100000 0 = (Inr [c], m)"
    by (rule ax_found_one)
  from momentum_candidates_sound [OF run] obtain q where "q \<in> set (mn_market_quotes (ax_scan 110 21600000000))"
      "al_entry_reference_price c = mq_mid q" "0 < al_expected_net_return c" "al_notional_usd c \<le> 100000" by auto
  with run show ?thesis by (auto simp: ax_scan_def ax_quote_def)
qed

theorem momentum_no_lookahead_witness:
  "momentum_discover ax_uuid (ax_scan 110 21600000000) ax_past ax_settings 100000 0
     = momentum_discover ax_uuid (ax_scan 110 21600000000) (\<lambda>k. ax_past k @ [ax_quote 50 21600000001]) ax_settings 100000 0"
  by (rule arg_cong [of _ _ "\<lambda>m. m 0"], rule momentum_no_lookahead [of _ 21600000000]) (simp_all add: ax_scan_def ax_quote_def)

theorem momentum_candidates_typed_witness:
  "\<exists>c m. momentum_discover ax_uuid (ax_scan 110 21600000000) ax_past ax_settings 100000 0 = (Inr [c], m)
     \<and> alpha_cand_ok c \<and> al_stage c = Research \<and> al_paper_only c"
proof -
  obtain c m where run: "momentum_discover ax_uuid (ax_scan 110 21600000000) ax_past ax_settings 100000 0 = (Inr [c], m)"
    by (rule ax_found_one)
  have "\<exists>cs m. momentum_discover ax_uuid (ax_scan 110 21600000000) ax_past ax_settings 100000 0 = (Inr cs, m)
    \<and> (\<forall>c \<in> set cs. alpha_cand_ok c \<and> al_stage c = Research \<and> \<not> al_paper_allocation_eligible c
         \<and> \<not> al_executable_eligible c \<and> \<not> al_live_execution_eligible c \<and> al_paper_only c)"
    by (rule momentum_candidates_typed) (use ax_settings_ok in \<open>simp_all add: alpha_settings_ok_def\<close>)
  with run show ?thesis by auto
qed

text \<open>A strategy that always finds the same candidate, and a table with one outcome of it.\<close>

definition ax_cand :: alpha_cand where
  "ax_cand = \<lparr>al_candidate_id = ''c'', al_strategy_id = ''s'', al_asset = ''BTC'', al_direction = Alpha_long,
     al_venue = ''Coinbase'', al_market_kind = SPOT, al_symbol = ''BTC-USD'', al_observed_at = 0, al_horizon_hours = 6,
     al_entry_reference_price = 100, al_estimated_cost_return = 0, al_expected_net_return = 1 / 20,
     al_expected_profit_usd = 100, al_notional_usd = 2000, al_capital_required_usd = 2000, al_conflict_keys = [],
     al_family = ''f'', al_lookback_hours = 24, al_expected_gross_return = 1 / 20, al_confidence_score = 1,
     al_regime = Normal_vol, al_features = [], al_stage = Research, al_paper_allocation_eligible = False,
     al_executable_eligible = False, al_live_execution_eligible = False, al_paper_only = True\<rparr>"

definition ax_registry :: "alpha_strategy list" where
  "ax_registry = [\<lparr>st_manifest = momentum_manifest, st_discover = \<lambda>scan past s capital. alift (Inr [ax_cand])\<rparr>]"

definition ax_env :: alpha_env where
  "ax_env = \<lparr>ae_uuid = ax_uuid, ae_now = 0, ae_sha256_hex = (\<lambda>s. ''h''), ae_signal_json = (\<lambda>x. []), ae_outcome_json = (\<lambda>u. [])\<rparr>"

definition ax_books :: "opportunity_leg \<Rightarrow> order_book_snapshot result option" where
  "ax_books leg = Some (Inr fx_spot_book)"

definition ax_health :: health_settings where
  "ax_health = default_health_settings\<lparr>hs_min_recent_samples := 1\<rparr>"

definition ax_cycle :: "real \<Rightarrow> time \<Rightarrow> alpha_ledger \<Rightarrow> alpha_ledger" where
  "ax_cycle mid t l = snd (expanded_evidence_cycle ax_env ax_registry ax_settings [] (Inr (ax_scan mid t)) None l)"

definition ax_ledger :: alpha_ledger where
  "ax_ledger = ax_cycle 110 21600000000 (ax_cycle 100 0 \<lparr>xl_events = [], xl_drawn = 0\<rparr>)"

lemma ax_reachable: "alpha_reachable ax_env ax_ledger"
  unfolding ax_ledger_def ax_cycle_def by (intro alpha_reachable.intros)

lemma ax_outcome: "map fo_realized_net_return (alpha_outcomes ax_ledger) = [1 / 10]"
  by code_simp

theorem alpha_evidence_forward_witness:
  "\<exists>u x. alpha_outcomes ax_ledger = [u] \<and> x \<in> set (signals_of ax_ledger) \<and> fo_signal_id u = fw_signal_id x
     \<and> fo_due_at u \<le> fo_matured_at u \<and> fo_realized_net_return u = 1 / 10
     \<and> fo_predicted_net_return u = al_expected_net_return (fw_candidate x)"
proof -
  obtain u where u: "alpha_outcomes ax_ledger = [u]" "fo_realized_net_return u = 1 / 10" using ax_outcome by auto
  have "u \<in> set (alpha_outcomes ax_ledger)" by (simp add: u(1))
  then obtain x where "x \<in> set (signals_of ax_ledger)" "fo_signal_id u = fw_signal_id x" "fo_due_at u \<le> fo_matured_at u"
      "fo_predicted_net_return u = al_expected_net_return (fw_candidate x)"
    using alpha_evidence_forward [OF ax_reachable] by blast
  then show ?thesis using u by blast
qed

lemma ax_counted: "map (\<lambda>u. (fo_realized_net_return u, fo_regime u)) (outcomes_for ax_cand ax_ledger) = [(1 / 10, Normal_vol)]"
  by code_simp

theorem independent_outcomes_disjoint_witness:
  "\<exists>u. outcomes_for ax_cand ax_ledger = [u] \<and> u \<in> set (cohort_outcomes ax_cand ax_ledger)
     \<and> set (cohort_outcomes ax_cand ax_ledger) \<subseteq> {x. x = u \<or> fo_observed_at u \<le> fo_observed_at x \<and> fo_observed_at x < fo_due_at u}"
proof -
  obtain u where "outcomes_for ax_cand ax_ledger = [u]" using ax_counted by auto
  then show ?thesis using independent_outcomes_disjoint [of ax_cand ax_ledger] by auto
qed

lemma ax_rate: "\<exists>w. wilson_lower 1 1 z_default = Some w \<and> 1 / 10 \<le> w"
proof -
  have sq: "sqrt (2401 / 2500) = 49 / 50" by (rule real_sqrt_unique) (simp_all add: power2_eq_square)
  have "wilson_lower 1 1 z_default = Some (10000 / 48416)" by (simp add: wilson_lower_def z_default_def Let_def sq)
  then show ?thesis by (intro exI [of _ "10000 / 48416"]) simp
qed

lemma ax_qualified: "aq_statistically_qualified (expanded_qualification ax_settings ax_registry ax_cand ax_ledger)"
proof -
  obtain u where u: "outcomes_for ax_cand ax_ledger = [u]" "fo_realized_net_return u = 1 / 10" "fo_regime u = Normal_vol"
    using ax_counted by auto
  have "alpha_penalty ax_settings n = 0" for n by (simp add: alpha_penalty_def ax_settings_def)
  moreover have "regime_means [u] = [(Normal_vol, 1 / 10)]" using u(2,3) by (simp add: regime_means_def group_by_def fmean_def)
  moreover have "mean_lower [1 / 10] z_default = Some (1 / 10)" by (simp add: mean_lower_def fmean_def)
  ultimately show ?thesis using ax_rate
    by (auto simp: expanded_qualification_def qualify_def Let_def u qualification_blockers_def at_most_def below_def
        ax_settings_def default_settings_def)
qed

lemma ax_hurdles: "se_alpha_min_current_net_return ax_settings = 1 / 2000" "se_alpha_min_notional_usd ax_settings = 1000"
    "se_alpha_min_forward_mean_return ax_settings = 1 / 2000" "alpha_penalty ax_settings n = 0"
  by (simp_all add: ax_settings_def default_settings_def alpha_penalty_def)

lemma ax_gross: "al_expected_gross_return ax_cand = 1 / 20" "al_notional_usd ax_cand = 2000"
  by (simp_all add: ax_cand_def)

lemma ax_cost: "case current_l2_cost ax_settings ax_books ax_cand of Some cost \<Rightarrow> cost \<le> 4 / 100 | None \<Rightarrow> False"
  by code_simp

lemma ax_healthy: "case strategy_health ax_health ax_cand ax_ledger of
    Inr h \<Rightarrow> ah_healthy_for_paper_allocation h \<and> 1 / 2 \<le> ah_capital_multiplier h | Inl e \<Rightarrow> False"
  by code_simp

lemma ax_promoted:
  obtains c l' where "expanded_promoted_candidates ax_registry ax_settings ax_health [] ax_books (ax_scan 110 21600000000) 100000 ax_ledger
      = (Inr [c], l')"
proof -
  let ?books = ax_books and ?q = "\<lambda>c. expanded_qualification ax_settings ax_registry c ax_ledger"
  obtain cost where cost: "current_l2_cost ax_settings ax_books ax_cand = Some cost" "cost \<le> 4 / 100"
    using ax_cost by (cases "current_l2_cost ax_settings ax_books ax_cand") auto
  obtain low where low: "aq_mean_realized_net_return_ci_lower (?q ax_cand) = Some low" "1 / 2000 < low"
    using qualified_evidence(2) [OF ax_qualified [unfolded expanded_qualification_def]]
    by (auto simp: expanded_qualification_def ax_hurdles)
  have "\<exists>p. promote ax_settings ax_books ?q ax_cand = Some p"
    using ax_qualified cost low by (simp add: promote_def value_of_def ax_hurdles ax_gross Let_def min_def)
  then obtain p where p: "promote ax_settings ax_books ?q ax_cand = Some p" by blast
  from promoted_fields [OF p, of ax_health ax_ledger]
  have same: "strategy_health ax_health p ax_ledger = strategy_health ax_health ax_cand ax_ledger" "al_notional_usd p = 2000"
    by (auto simp: ax_gross)
  obtain h where h: "strategy_health ax_health p ax_ledger = Inr h" "ah_healthy_for_paper_allocation h" "1 / 2 \<le> ah_capital_multiplier h"
    using ax_healthy unfolding same(1) [symmetric] by (auto split: sum.splits)
  have "\<exists>c. scale_by_health ax_settings (\<lambda>c. strategy_health ax_health c ax_ledger) p = Inr (Some c)"
    using h same(2) by (simp add: scale_by_health_def Let_def ax_hurdles)
  then obtain c where c: "scale_by_health ax_settings (\<lambda>c. strategy_health ax_health c ax_ledger) p = Inr (Some c)" by blast
  have found: "discover_candidates ax_registry ax_settings [] (ax_scan 110 21600000000) 100000 ax_ledger = (Inr [ax_cand], ax_ledger)"
    by (simp add: discover_candidates_def on_drawn_def registry_discover_def ax_registry_def abind_def alift_def sort_desc_def)
  have "promoted_of ax_settings ax_books ?q [ax_cand] = [p]"
    by (simp add: promoted_of_def p some_values_def sort_desc_def)
  then have "expanded_promoted_candidates ax_registry ax_settings ax_health [] ax_books (ax_scan 110 21600000000) 100000 ax_ledger = (Inr [c], ax_ledger)"
    by (simp add: expanded_promoted_candidates_def abind_def found c some_values_def sort_desc_def)
  then show thesis by (rule that)
qed

theorem promoted_alpha_gated_witness:
  "\<exists>c l' us. expanded_promoted_candidates ax_registry ax_settings ax_health [] ax_books (ax_scan 110 21600000000) 100000 ax_ledger
       = (Inr [c], l')
     \<and> xl_events l' = xl_events ax_ledger \<and> 1 / 2000 < al_expected_net_return c \<and> 1000 \<le> al_notional_usd c"
proof -
  obtain c l' where run: "expanded_promoted_candidates ax_registry ax_settings ax_health [] ax_books (ax_scan 110 21600000000) 100000 ax_ledger
      = (Inr [c], l')" by (rule ax_promoted)
  from promoted_alpha_gated [OF run] have "xl_events l' = xl_events ax_ledger"
      "se_alpha_min_current_net_return ax_settings < al_expected_net_return c"
      "se_alpha_min_notional_usd ax_settings \<le> al_notional_usd c" by auto
  with run show ?thesis by (auto simp: ax_hurdles)
qed

end
