(* ===== verification/Cycle_Trend.thy ===== *)
theory Cycle_Trend
  imports Alpha_Factory
begin

text \<open>
  cycle_trend_strategy.py: the slow directional strategy.  It reads trends over 7, 30, 90 and 180
  days from the stored history, confirms them by Bitcoin and by the breadth of the market, weighs
  them by the phase of the halving cycle and by the cost of funding, and delivers at most six
  candidates.  \<open>math.log\<close> raises on a number that is not positive.
\<close>

section \<open>The halving cycle\<close>

definition halvings :: "time list" where
  "halvings = map (\<lambda>x. x * 1000000) [1354060800, 1468022400, 1589155200, 1713571200]"

definition cycle_days :: real where
  "cycle_days = median (map (\<lambda>(a, b). total_seconds (b - a) / 86400) (zip halvings (tl halvings)))"

record cycle_context =
  tx_phase :: string
  tx_progress :: real
  tx_prior :: real
  tx_cycle_days :: real

definition cycle_phase :: "real \<Rightarrow> cycle_context" where
  "cycle_phase progress =
     (let found = (\<lambda>phase prior. \<lparr>tx_phase = phase, tx_progress = progress, tx_prior = prior,
            tx_cycle_days = cycle_days\<rparr>)
      in if progress < 0.10 then found ''early_post_halving'' 0.35
         else if progress < 0.55 then found ''expansion'' 1
         else if progress < 0.72 then found ''late_cycle'' 0.15
         else if progress < 0.90 then found ''contraction_risk'' (- 0.75)
         else found ''pre_halving'' 0.25)"

definition cycle_context_at :: "time \<Rightarrow> cycle_context" where
  "cycle_context_at t =
     (case filter (\<lambda>h. h \<le> t) halvings of
        [] \<Rightarrow> \<lparr>tx_phase = ''unknown'', tx_progress = 0, tx_prior = 0, tx_cycle_days = cycle_days\<rparr>
      | h # hs \<Rightarrow>
          let raw = max 0 (total_seconds (t - Max (set (h # hs))) / 86400 / cycle_days)
          in cycle_phase (if raw \<le> 1 then raw else raw - of_int \<lfloor>raw\<rfloor>))"

section \<open>Trends\<close>

definition trend_lookbacks :: "real list" where
  "trend_lookbacks = [168, 720, 2160, 4320]"

definition trend_horizon :: real where
  "trend_horizon = 72"

definition py_log :: "real \<Rightarrow> real result" where
  "py_log x = (if x \<le> 0 then Inl (ValueError ''math domain error'') else Inr (ln x))"

text \<open>\<open>min(xs, key=k)\<close>: the first element with the least key.\<close>

definition min_by :: "('a \<Rightarrow> real) \<Rightarrow> 'a \<Rightarrow> 'a list \<Rightarrow> 'a" where
  "min_by k x xs = max_by (\<lambda>y. - k y) x xs"

definition trend_reference :: "market_quote list \<Rightarrow> time \<Rightarrow> real \<Rightarrow> real option" where
  "trend_reference series cutoff lookback =
     (case series of
        [] \<Rightarrow> None
      | q # qs \<Rightarrow>
          let nearest = min_by (\<lambda>x. \<bar>total_seconds (mq_observed_at x - cutoff)\<bar>) q qs;
              tolerance = min 72 (max 18 (lookback * 0.03)) * 3600
          in if \<bar>total_seconds (mq_observed_at nearest - cutoff)\<bar> > tolerance then None
             else if mq_mid nearest > 0 then Some (mq_mid nearest) else None)"

definition sign_of :: "real \<Rightarrow> int" where
  "sign_of v = (if v > 0 then 1 else if v < 0 then -1 else 0)"

record trend_reading =
  tr_returns :: "(real \<times> real) list"
  tr_drift :: real
  tr_agreement :: real
  tr_score :: real

text \<open>The quotes a trend may use: those of the past with a price.\<close>

definition trend_past :: "market_quote list \<Rightarrow> market_quote \<Rightarrow> market_quote list" where
  "trend_past series current =
     sort_key mq_observed_at (filter (\<lambda>q. mq_observed_at q \<le> mq_observed_at current \<and> mq_mid q > 0) series)"

definition trend_step ::
  "market_quote list \<Rightarrow> market_quote \<Rightarrow> real \<Rightarrow> (real \<times> real) list \<times> real list \<times> int list
     \<Rightarrow> ((real \<times> real) list \<times> real list \<times> int list) result" where
  "trend_step ordered current lookback acc =
     (case trend_reference ordered (mq_observed_at current - hours lookback) lookback of
        None \<Rightarrow> Inr acc
      | Some r \<Rightarrow>
          let v = mq_mid current / r - 1 in
          rbind (py_log (mq_mid current / r)) (\<lambda>drift.
          case acc of (trailing, drifts, signs) \<Rightarrow>
            Inr (AList.update lookback v trailing, drifts @ [drift / max 1 (lookback / 24)], signs @ [sign_of v])))"

definition trend_summary :: "(real \<times> real) list \<times> real list \<times> int list \<Rightarrow> trend_reading" where
  "trend_summary acc =
     (case acc of (trailing, drifts, signs) \<Rightarrow>
        if drifts = [] then \<lparr>tr_returns = trailing, tr_drift = 0, tr_agreement = 0, tr_score = 0\<rparr>
        else let drift = median drifts; direction = sign_of drift in
          \<lparr>tr_returns = trailing, tr_drift = drift,
           tr_agreement = (if direction \<noteq> 0 \<and> signs \<noteq> []
             then real (length (filter (\<lambda>x. x = direction) signs)) / real (length signs) else 0),
           tr_score = of_int (sum_list signs) / real (length signs)\<rparr>)"

definition trend_of :: "market_quote list \<Rightarrow> market_quote \<Rightarrow> real list \<Rightarrow> trend_reading result" where
  "trend_of series current horizons =
     rbind (rfold (trend_step (trend_past series current) current) horizons ([], [], [])) (\<lambda>acc.
     Inr (trend_summary acc))"

text \<open>The volatility regime of the last 31 days, one quote a day.\<close>

definition day_of :: "time \<Rightarrow> int" where
  "day_of t = t div 86400000000"

definition daily_quotes :: "market_quote list \<Rightarrow> market_quote \<Rightarrow> market_quote list" where
  "daily_quotes series current =
     (let by_day = foldl (\<lambda>m q. if mq_mid q > 0 \<and> mq_observed_at q \<le> mq_observed_at current
            then AList.update (day_of (mq_observed_at q)) q m else m) [] (series @ [current]);
          daily = sort_key mq_observed_at (map snd by_day)
      in drop (length daily - 31) daily)"

definition trend_regime :: "market_quote list \<Rightarrow> market_quote \<Rightarrow> alpha_regime" where
  "trend_regime series current =
     (let daily = daily_quotes series current;
          returns = map (\<lambda>(a, b). ln (mq_mid b / mq_mid a))
            (filter (\<lambda>(a, b). mq_mid a > 0 \<and> mq_mid b > 0) (zip daily (tl daily)))
      in if length returns < 5 then Normal_vol
         else let vol = pstdev returns
              in if vol < 0.025 then Low_vol else if vol > 0.060 then High_vol else Normal_vol)"

section \<open>Funding\<close>

text \<open>The cost of holding, None where the code has infinity: no funding quote is known.\<close>

definition funding_matches :: "funding_quote list \<Rightarrow> market_quote \<Rightarrow> funding_quote list" where
  "funding_matches funding q = filter (\<lambda>x. fq_venue x = mq_venue q \<and> upper (fq_asset x) = upper (mq_asset q)
     \<and> fq_observed_at x \<le> mq_observed_at q \<and> (fq_symbol x = None \<or> fq_symbol x = Some (mq_symbol q))) funding"

definition carry_cost :: "funding_quote list \<Rightarrow> market_quote \<Rightarrow> alpha_direction \<Rightarrow> real \<Rightarrow> real option result" where
  "carry_cost funding q direction horizon =
     (if mq_market_kind q \<noteq> PERPETUAL then Inr (Some 0)
      else case funding_matches funding q of
        [] \<Rightarrow> Inr None
      | x # xs \<Rightarrow> rbind (hourly_rate (max_by fq_observed_at x xs)) (\<lambda>hourly.
          Inr (Some (max 0 ((if direction = Alpha_long then hourly else - hourly) * horizon)))))"

section \<open>The instruments of a direction\<close>

definition venue_rank :: "alpha_direction \<Rightarrow> string \<Rightarrow> int" where
  "venue_rank direction v =
     (if direction = Alpha_long
      then if v = ''OKX'' then 0 else if v = ''Bybit'' then 1 else if v = ''Coinbase'' then 2
           else if v = ''Kraken'' then 3 else 99
      else if v = ''HlPerp'' then 0 else if v = ''OKX'' then 1 else if v = ''Bybit'' then 2 else 99)"

definition directed_quotes :: "market_quote list \<Rightarrow> alpha_direction \<Rightarrow> market_quote list" where
  "directed_quotes quotes direction =
     sort_key (\<lambda>q. (venue_rank direction (mq_venue q), mq_venue q))
       (filter (\<lambda>q. mq_market_kind q = (if direction = Alpha_long then SPOT else PERPETUAL)) quotes)"

text \<open>\<open>current.get(asset, [])\<close>.\<close>

definition quotes_of :: "(string \<times> market_quote list) list \<Rightarrow> string \<Rightarrow> market_quote list" where
  "quotes_of current asset = (case map_of current asset of None \<Rightarrow> [] | Some qs \<Rightarrow> qs)"

fun first_score :: "alpha_history \<Rightarrow> market_quote list \<Rightarrow> real result" where
  "first_score past [] = Inr 0"
| "first_score past (q # qs) =
     rbind (trend_of (past (mq_venue q, ''BTC'', mq_market_kind q)) q trend_lookbacks) (\<lambda>x.
     if tr_score x \<noteq> 0 then Inr (tr_score x) else first_score past qs)"

definition btc_score :: "(string \<times> market_quote list) list \<Rightarrow> alpha_history \<Rightarrow> real result" where
  "btc_score current past =
     first_score past (directed_quotes (quotes_of current ''BTC'') Alpha_long
       @ directed_quotes (quotes_of current ''BTC'') Alpha_short)"

definition breadth_step ::
  "alpha_history \<Rightarrow> string \<times> market_quote list \<Rightarrow> int list \<Rightarrow> int list result" where
  "breadth_step past g signs =
     (case g of (asset, quotes) \<Rightarrow>
        case (if directed_quotes quotes Alpha_long \<noteq> [] then directed_quotes quotes Alpha_long
              else directed_quotes quotes Alpha_short) of
          [] \<Rightarrow> Inr signs
        | q # qs \<Rightarrow>
            rbind (trend_of (past (mq_venue q, asset, mq_market_kind q)) q [720]) (\<lambda>x.
            case map_of (tr_returns x) 720 of
              None \<Rightarrow> Inr signs
            | Some v \<Rightarrow> Inr (signs @ [sign_of v])))"

definition market_breadth :: "(string \<times> market_quote list) list \<Rightarrow> alpha_history \<Rightarrow> real result" where
  "market_breadth current past =
     rbind (rfold (breadth_step past) current []) (\<lambda>signs.
     Inr (if signs \<noteq> [] then of_int (sum_list signs) / real (length signs) else 0))"

section \<open>Discovery\<close>

text \<open>What the whole market says, computed once a scan.\<close>

record trend_market =
  tk_btc :: real
  tk_breadth :: real
  tk_cycle :: cycle_context

definition direction_sign :: "alpha_direction \<Rightarrow> real" where
  "direction_sign d = (if d = Alpha_long then 1 else -1)"

definition market_multiplier :: "trend_market \<Rightarrow> alpha_direction \<Rightarrow> real" where
  "market_multiplier m d =
     max 0.80 (min 1.20 (1 + 0.10 * direction_sign d * tk_btc m + 0.05 * direction_sign d * tk_breadth m))"

definition cycle_multiplier :: "trend_market \<Rightarrow> alpha_direction \<Rightarrow> real" where
  "cycle_multiplier m d = max 0.90 (min 1.10 (1 + 0.10 * tx_prior (tk_cycle m) * direction_sign d))"

definition trend_base :: "trend_reading \<Rightarrow> alpha_direction \<Rightarrow> real" where
  "trend_base x d = (exp (max 0 (direction_sign d * tr_drift x) * trend_horizon / 24) - 1) * 0.25"

definition trend_gross :: "trend_market \<Rightarrow> trend_reading \<Rightarrow> alpha_direction \<Rightarrow> real" where
  "trend_gross m x d = min 0.03 (trend_base x d * market_multiplier m d * cycle_multiplier m d)"

definition trend_cost :: "settings \<Rightarrow> real \<Rightarrow> real" where
  "trend_cost s carry = max 0 (se_alpha_research_cost_floor_bps s) / 10000 + carry"

definition trend_confidence :: "trend_market \<Rightarrow> trend_reading \<Rightarrow> alpha_direction \<Rightarrow> real" where
  "trend_confidence m x d = min 1 (0.55 * tr_agreement x + 0.25 * min 1 (\<bar>tr_drift x\<bar> / 0.0014)
     + 0.10 * max 0 (direction_sign d * tk_btc m) + 0.10 * max 0 (direction_sign d * tk_breadth m))"

definition trend_direction :: "trend_reading \<Rightarrow> alpha_direction" where
  "trend_direction x = (if tr_drift x > 0 then Alpha_long else Alpha_short)"

text \<open>The tests before the costs: enough trends that agree, and a market that is not against it.\<close>

definition trend_confirmed :: "trend_market \<Rightarrow> trend_reading \<Rightarrow> alpha_direction \<Rightarrow> bool" where
  "trend_confirmed m x provisional \<longleftrightarrow>
     \<not> (length (tr_returns x) < 3 \<or> tr_agreement x < 0.66 \<or> \<bar>tr_drift x\<bar> < 0.00035)
     \<and> trend_direction x = provisional
     \<and> \<not> direction_sign provisional * tk_btc m < - 0.60
     \<and> \<not> direction_sign provisional * tk_breadth m < - 0.70"

definition trend_id :: string where
  "trend_id = ''cycle_aware_multi_horizon_trend_v1''"

definition trend_candidate ::
  "settings \<Rightarrow> real \<Rightarrow> trend_market \<Rightarrow> string \<Rightarrow> market_quote list \<Rightarrow> market_quote \<Rightarrow> trend_reading
     \<Rightarrow> alpha_direction \<Rightarrow> real \<Rightarrow> string \<Rightarrow> alpha_cand" where
  "trend_candidate s capital m asset series q x d carry drawn =
     (let gross = trend_gross m x d; cost = trend_cost s carry; net = gross - cost;
          notional = alpha_notional s capital
      in \<lparr>al_candidate_id = candidate_id trend_id asset q drawn, al_strategy_id = trend_id,
          al_asset = asset, al_direction = d, al_venue = mq_venue q,
          al_market_kind = mq_market_kind q, al_symbol = mq_symbol q, al_observed_at = mq_observed_at q,
          al_horizon_hours = trend_horizon, al_entry_reference_price = mq_mid q,
          al_estimated_cost_return = cost, al_expected_net_return = net,
          al_expected_profit_usd = notional * net, al_notional_usd = notional,
          al_capital_required_usd = alpha_capital s (mq_market_kind q) notional,
          al_conflict_keys = [instrument_conflict q, ''directional-trend:'' @ asset],
          al_family = ''directional_time_series'',
          al_lookback_hours = Max (fst ` set (tr_returns x)), al_expected_gross_return = gross,
          al_confidence_score = trend_confidence m x d, al_regime = trend_regime series q,
          al_features = [(''trend_horizons_available'', PInt (int (length (tr_returns x)))),
            (''trend_agreement'', PFloat (tr_agreement x)), (''trend_signed_score'', PFloat (tr_score x)),
            (''robust_daily_log_drift'', PFloat (tr_drift x)), (''btc_trend_score'', PFloat (tk_btc m)),
            (''market_breadth_score'', PFloat (tk_breadth m)), (''cycle_phase'', PStr (tx_phase (tk_cycle m))),
            (''cycle_progress'', PFloat (tx_progress (tk_cycle m))),
            (''cycle_prior_score'', PFloat (tx_prior (tk_cycle m))), (''cycle_prior_weight'', PFloat 0.10),
            (''nominal_cycle_days'', PFloat (tx_cycle_days (tk_cycle m))),
            (''holding_carry_cost_return'', PFloat carry), (''halving_cycle_is_prior_not_trigger'', PBool True)],
          al_stage = Research, al_paper_allocation_eligible = False, al_executable_eligible = False,
          al_live_execution_eligible = False, al_paper_only = True\<rparr>)"

text \<open>The loop over the quotes of a direction, which stops at the first candidate.\<close>

fun trend_quotes ::
  "(nat \<Rightarrow> string) \<Rightarrow> settings \<Rightarrow> real \<Rightarrow> market_scan \<Rightarrow> alpha_history \<Rightarrow> trend_market \<Rightarrow> string
     \<Rightarrow> alpha_direction \<Rightarrow> market_quote list \<Rightarrow> alpha_cand list drawing" where
  "trend_quotes uuid s capital scan past m asset d [] = alift (Inr [])"
| "trend_quotes uuid s capital scan past m asset d (q # qs) =
     (let series = past (mq_venue q, asset, mq_market_kind q) in
      abind (alift (trend_of series q trend_lookbacks)) (\<lambda>x.
      if \<not> trend_confirmed m x d then trend_quotes uuid s capital scan past m asset d qs
      else abind (alift (carry_cost (mn_funding_quotes scan) q d trend_horizon)) (\<lambda>carrying.
      case carrying of
        None \<Rightarrow> trend_quotes uuid s capital scan past m asset d qs
      | Some carry \<Rightarrow>
          if trend_gross m x d - trend_cost s carry \<le> 0
          then trend_quotes uuid s capital scan past m asset d qs
          else abind (draw uuid) (\<lambda>drawn.
               abind (alift (checked_alpha_cand (trend_candidate s capital m asset series q x d carry drawn)))
                 (\<lambda>c. alift (Inr [c]))))))"

definition trend_key :: "alpha_cand \<Rightarrow> real \<times> real" where
  "trend_key c = (al_expected_net_return c, al_confidence_score c)"

text \<open>The better of the long and the short candidate of an asset.\<close>

definition trend_asset ::
  "(nat \<Rightarrow> string) \<Rightarrow> settings \<Rightarrow> real \<Rightarrow> market_scan \<Rightarrow> alpha_history \<Rightarrow> trend_market
     \<Rightarrow> string \<times> market_quote list \<Rightarrow> alpha_cand list \<Rightarrow> alpha_cand list drawing" where
  "trend_asset uuid s capital scan past m g scored =
     (case g of (asset, quotes) \<Rightarrow>
        abind (trend_quotes uuid s capital scan past m asset Alpha_long (directed_quotes quotes Alpha_long)) (\<lambda>long.
        abind (trend_quotes uuid s capital scan past m asset Alpha_short (directed_quotes quotes Alpha_short)) (\<lambda>short.
        alift (Inr (scored @ take 1 (sort_desc trend_key (long @ short)))))))"

definition trend_discover ::
  "(nat \<Rightarrow> string) \<Rightarrow> market_scan \<Rightarrow> alpha_history \<Rightarrow> settings \<Rightarrow> real \<Rightarrow> alpha_cand list drawing" where
  "trend_discover uuid scan past s capital =
     (let current = tradable_by_asset (mn_market_quotes scan) in
      abind (alift (btc_score current past)) (\<lambda>btc.
      abind (alift (market_breadth current past)) (\<lambda>breadth.
      abind (afold (trend_asset uuid s capital scan past
        \<lparr>tk_btc = btc, tk_breadth = breadth, tk_cycle = cycle_context_at (mn_completed_at scan)\<rparr>) current []) (\<lambda>scored.
      alift (Inr (take 6 (sort_desc trend_key scored)))))))"

definition trend_manifest :: alpha_manifest where
  "trend_manifest = \<lparr>mf_strategy_id = trend_id, mf_family = ''directional_time_series'',
     mf_description = ''7/30/90/180-day trend with BTC/breadth confirmation and a Bitcoin-halving-cycle prior capped at ten percent.'',
     mf_predictive = True, mf_horizons_hours = [trend_horizon], mf_requires_l2_for_promotion = True,
     mf_allocation_authority = False, mf_live_execution_authority = False, mf_paper_only = True\<rparr>"

definition trend_strategy :: "(nat \<Rightarrow> string) \<Rightarrow> alpha_strategy" where
  "trend_strategy uuid = \<lparr>st_manifest = trend_manifest, st_discover = trend_discover uuid\<rparr>"

definition required_history_hours :: real where
  "required_history_hours = Max (set trend_lookbacks)"

end
