(* ===== verification/Cycle_Trend_Correct.thy ===== *)
theory Cycle_Trend_Correct
  imports Cycle_Trend
begin

text \<open>
  What a trend is read from, that no quote later than the one traded on is read, the bounds of the
  scores and of the multipliers, and what the trend strategy delivers.
\<close>

section \<open>Trends\<close>

lemma min_by_in: "min_by k x xs \<in> insert x (set xs)"
  unfolding min_by_def by (rule max_by_in)

lemma min_by_le: "y \<in> insert x (set xs) \<Longrightarrow> k (min_by k x xs) \<le> k y"
  using max_by_ge [of y x xs "\<lambda>z. - k z"] by (simp add: min_by_def)

text \<open>How far from the start of a lookback its reference may lie, in seconds.\<close>

definition lookback_tolerance :: "real \<Rightarrow> real" where
  "lookback_tolerance lookback = min 72 (max 18 (lookback * 0.03)) * 3600"

lemma trend_reference_found:
  assumes "trend_reference series cutoff lookback = Some r"
  shows "\<exists>x \<in> set series. r = mq_mid x \<and> 0 < r
     \<and> \<bar>total_seconds (mq_observed_at x - cutoff)\<bar> \<le> lookback_tolerance lookback
     \<and> (\<forall>y \<in> set series. \<bar>total_seconds (mq_observed_at x - cutoff)\<bar> \<le> \<bar>total_seconds (mq_observed_at y - cutoff)\<bar>)"
proof (cases series)
  case (Cons q qs)
  let ?k = "\<lambda>x. \<bar>total_seconds (mq_observed_at x - cutoff)\<bar>"
  have m: "min_by ?k q qs \<in> set series" using min_by_in [of ?k q qs] Cons by simp
  have le: "\<forall>y \<in> set series. ?k (min_by ?k q qs) \<le> ?k y" using min_by_le [of _ q qs ?k] Cons by simp
  show ?thesis using assms m le unfolding lookback_tolerance_def
    by (intro bexI [of _ "min_by ?k q qs"]) (auto simp: trend_reference_def Cons Let_def split: if_splits)
qed (use assms in \<open>simp add: trend_reference_def\<close>)

text \<open>The loop keeps one sign and one drift for each trend read, and every trend is one of the rule.\<close>

definition trend_read :: "market_quote list \<Rightarrow> market_quote \<Rightarrow> real \<times> real \<Rightarrow> bool" where
  "trend_read series current p \<longleftrightarrow> (\<exists>x \<in> set series. mq_observed_at x \<le> mq_observed_at current \<and> 0 < mq_mid x
     \<and> \<bar>total_seconds (mq_observed_at x - (mq_observed_at current - hours (fst p)))\<bar> \<le> lookback_tolerance (fst p)
     \<and> snd p = mq_mid current / mq_mid x - 1)"

definition trend_ok ::
  "market_quote list \<Rightarrow> market_quote \<Rightarrow> real list \<Rightarrow> (real \<times> real) list \<times> real list \<times> int list \<Rightarrow> bool" where
  "trend_ok series current hs acc \<longleftrightarrow> (case acc of (trailing, drifts, signs) \<Rightarrow>
     length drifts = length signs \<and> set signs \<subseteq> {-1, 0, 1} \<and> fst ` set trailing \<subseteq> set hs
     \<and> distinct (map fst trailing) \<and> (\<forall>p \<in> set trailing. trend_read series current p)
     \<and> (drifts = [] \<longrightarrow> trailing = []))"

lemma set_update: "set (AList.update k v al) \<subseteq> insert (k, v) (set al)"
  by (induction al) auto

lemma trend_step_ok:
  assumes "trend_ok series current hs acc" and "h \<in> set hs"
    and "trend_step (trend_past series current) current h acc = Inr acc'"
  shows "trend_ok series current hs acc'"
proof (cases "trend_reference (trend_past series current) (mq_observed_at current - hours h) h")
  case None
  then show ?thesis using assms by (simp add: trend_step_def)
next
  case (Some r)
  obtain trailing drifts signs where acc: "acc = (trailing, drifts, signs)" by (cases acc)
  obtain x where x: "x \<in> set (trend_past series current)" "r = mq_mid x"
      "\<bar>total_seconds (mq_observed_at x - (mq_observed_at current - hours h))\<bar> \<le> lookback_tolerance h"
    using trend_reference_found [OF Some] by blast
  have read: "trend_read series current (h, mq_mid current / r - 1)"
    unfolding trend_read_def by (rule bexI [of _ x]) (use x in \<open>auto simp: trend_past_def\<close>)
  let ?v = "mq_mid current / r - 1"
  obtain d where acc': "acc' = (AList.update h ?v trailing, drifts @ [d], signs @ [sign_of ?v])"
    using assms(3) Some by (auto simp: trend_step_def acc Let_def)
  have ok: "length drifts = length signs" "set signs \<subseteq> {-1, 0, 1}" "fst ` set trailing \<subseteq> set hs"
      "distinct (map fst trailing)" "\<forall>p \<in> set trailing. trend_read series current p"
    using assms(1) by (simp_all add: trend_ok_def acc)
  have "set (signs @ [sign_of ?v]) \<subseteq> {-1, 0, 1}" using ok(2) by (simp add: sign_of_def)
  moreover have "fst ` set (AList.update h ?v trailing) \<subseteq> set hs"
    using set_update [of h ?v trailing] ok(3) assms(2) by force
  moreover have "\<forall>p \<in> set (AList.update h ?v trailing). trend_read series current p"
    using set_update [of h ?v trailing] ok(5) read by blast
  ultimately show ?thesis using ok(1,4) by (simp add: trend_ok_def acc' distinct_update)
qed

lemma trend_of_ok:
  assumes "trend_of series current hs = Inr x"
  obtains acc where "trend_ok series current hs acc" and "x = trend_summary acc"
proof -
  obtain acc where acc: "rfold (trend_step (trend_past series current) current) hs ([], [], []) = Inr acc" "x = trend_summary acc"
    using assms by (auto simp: trend_of_def)
  have "trend_ok series current hs acc"
  proof (rule rfold_invariant [OF acc(1), where I = "trend_ok series current hs"])
    show "trend_ok series current hs ([], [], [])" by (simp add: trend_ok_def)
  qed (rule trend_step_ok)
  then show thesis using acc(2) by (rule that)
qed

text \<open>The score and the agreement are fractions.\<close>

lemma mean_sign:
  assumes "set signs \<subseteq> {-1, 0, 1::int}" and "signs \<noteq> []"
  shows "- 1 \<le> (of_int (sum_list signs) / real (length signs) :: real)"
    and "of_int (sum_list signs) / real (length signs) \<le> (1 :: real)"
proof -
  have "- int (length signs) \<le> sum_list signs \<and> sum_list signs \<le> int (length signs)"
    using assms(1) by (induction signs) auto
  then have "- real (length signs) \<le> of_int (sum_list signs)" "of_int (sum_list signs) \<le> real (length signs)"
    by linarith+
  then show "- 1 \<le> (of_int (sum_list signs) / real (length signs) :: real)"
      "of_int (sum_list signs) / real (length signs) \<le> (1 :: real)"
    using assms(2) by (simp_all add: le_divide_eq divide_le_eq)
qed

lemma trend_bounds:
  assumes "trend_of series current hs = Inr x"
  shows "\<bar>tr_score x\<bar> \<le> 1" and "0 \<le> tr_agreement x" and "tr_agreement x \<le> 1"
    and "fst ` set (tr_returns x) \<subseteq> set hs" and "distinct (map fst (tr_returns x))"
    and "p \<in> set (tr_returns x) \<Longrightarrow> trend_read series current p"
proof -
  obtain trailing drifts signs where ok: "trend_ok series current hs (trailing, drifts, signs)"
      "x = trend_summary (trailing, drifts, signs)"
    using assms by (rule trend_of_ok) (metis prod_cases3)
  have r: "tr_returns x = trailing" by (simp add: ok(2) trend_summary_def Let_def)
  show "fst ` set (tr_returns x) \<subseteq> set hs" "distinct (map fst (tr_returns x))"
      "p \<in> set (tr_returns x) \<Longrightarrow> trend_read series current p"
    using ok(1) by (simp_all add: r trend_ok_def)
  have signs: "set signs \<subseteq> {-1, 0, 1}" "drifts = [] \<longleftrightarrow> signs = []" using ok(1) by (auto simp: trend_ok_def)
  show "\<bar>tr_score x\<bar> \<le> 1"
    using mean_sign [OF signs(1)] signs(2) by (auto simp: ok(2) trend_summary_def Let_def abs_le_iff minus_le_iff)
  have "length (filter P signs) \<le> length signs" for P by simp
  then show "0 \<le> tr_agreement x" "tr_agreement x \<le> 1"
    by (simp_all add: ok(2) trend_summary_def Let_def divide_le_eq)
qed

section \<open>No look-ahead\<close>

lemma trend_past_past:
  assumes "mq_observed_at q \<le> t"
  shows "trend_past (filter (\<lambda>x. mq_observed_at x \<le> t) series) q = trend_past series q"
proof -
  have "filter (\<lambda>x. mq_observed_at x \<le> mq_observed_at q \<and> mq_mid x > 0) (filter (\<lambda>x. mq_observed_at x \<le> t) series)
      = filter (\<lambda>x. mq_observed_at x \<le> mq_observed_at q \<and> mq_mid x > 0) series"
    using assms by (auto intro: filter_cong)
  then show ?thesis by (simp only: trend_past_def)
qed

lemma trend_of_past:
  "mq_observed_at q \<le> t \<Longrightarrow> trend_of (filter (\<lambda>x. mq_observed_at x \<le> t) series) q hs = trend_of series q hs"
  by (simp only: trend_of_def trend_past_past)

lemma foldl_filter: "foldl f a (filter P xs) = foldl (\<lambda>a x. if P x then f a x else a) a xs"
  by (induction xs arbitrary: a) auto

lemma trend_regime_past:
  assumes "mq_observed_at q \<le> t"
  shows "trend_regime (filter (\<lambda>x. mq_observed_at x \<le> t) series) q = trend_regime series q"
proof -
  have "daily_quotes (filter (\<lambda>x. mq_observed_at x \<le> t) series) q = daily_quotes series q"
  proof -
    have "foldl (\<lambda>m x. if mq_observed_at x \<le> t then if mq_mid x > 0 \<and> mq_observed_at x \<le> mq_observed_at q
            then AList.update (day_of (mq_observed_at x)) x m else m else m) [] series
        = foldl (\<lambda>m x. if mq_mid x > 0 \<and> mq_observed_at x \<le> mq_observed_at q
            then AList.update (day_of (mq_observed_at x)) x m else m) [] series"
      using assms by (intro foldl_cong) auto
    then show ?thesis unfolding daily_quotes_def by (simp add: foldl_filter Let_def)
  qed
  then show ?thesis by (simp only: trend_regime_def)
qed

section \<open>What is found\<close>

definition trend_found ::
  "settings \<Rightarrow> real \<Rightarrow> market_scan \<Rightarrow> alpha_history \<Rightarrow> trend_market \<Rightarrow> string \<Rightarrow> alpha_direction
     \<Rightarrow> market_quote \<Rightarrow> alpha_cand \<Rightarrow> bool" where
  "trend_found s capital scan past m asset d q c \<longleftrightarrow> (\<exists>x carry drawn.
     trend_of (past (mq_venue q, asset, mq_market_kind q)) q trend_lookbacks = Inr x
     \<and> trend_confirmed m x d \<and> carry_cost (mn_funding_quotes scan) q d trend_horizon = Inr (Some carry)
     \<and> 0 < trend_gross m x d - trend_cost s carry \<and> alpha_cand_ok c
     \<and> c = trend_candidate s capital m asset (past (mq_venue q, asset, mq_market_kind q)) q x d carry drawn)"

lemma trend_quotes_found:
  assumes "trend_quotes uuid s capital scan past m asset d qs n = (Inr out, k)"
  shows "out = [] \<or> (\<exists>q \<in> set qs. \<exists>c. out = [c] \<and> trend_found s capital scan past m asset d q c)"
  using assms
proof (induction qs arbitrary: n)
  case Nil
  then show ?case by (simp add: alift_Inr)
next
  case (Cons q qs)
  let ?series = "past (mq_venue q, asset, mq_market_kind q)"
  obtain x where x: "trend_of ?series q trend_lookbacks = Inr x"
    using Cons.prems by (auto simp: Let_def abind_Inr alift_Inr)
  consider (skip) "trend_quotes uuid s capital scan past m asset d qs n = (Inr out, k)"
    | (take) carry where "trend_confirmed m x d" "carry_cost (mn_funding_quotes scan) q d trend_horizon = Inr (Some carry)"
        "0 < trend_gross m x d - trend_cost s carry"
        "abind (draw uuid) (\<lambda>drawn. abind (alift (checked_alpha_cand
          (trend_candidate s capital m asset ?series q x d carry drawn))) (\<lambda>c. alift (Inr [c]))) n = (Inr out, k)"
    using Cons.prems x
    by (auto simp: Let_def abind_Inr alift_Inr split: if_splits option.splits)
  then show ?case
  proof cases
    case skip
    then show ?thesis using Cons.IH by auto
  next
    case take
    obtain drawn c where c: "alpha_cand_ok c" "out = [c]" "c = trend_candidate s capital m asset ?series q x d carry drawn"
      using take(4) unfolding abind_Inr alift_Inr checked_alpha_cand_Inr by blast
    have "trend_found s capital scan past m asset d q c"
      unfolding trend_found_def using x take(1-3) c(1,3)
      by - (rule exI [of _ x], rule exI [of _ carry], rule exI [of _ drawn], intro conjI; simp)
    then show ?thesis using c(2) by auto
  qed
qed

lemma trend_candidate_fields:
  fixes s :: settings and capital carry :: real and m :: trend_market and asset drawn :: string
    and series :: "market_quote list" and q :: market_quote and x :: trend_reading and d :: alpha_direction and c :: alpha_cand
  defines "c \<equiv> trend_candidate s capital m asset series q x d carry drawn"
  shows "al_asset c = asset" "al_venue c = mq_venue q" "al_symbol c = mq_symbol q" "al_market_kind c = mq_market_kind q"
    "al_observed_at c = mq_observed_at q" "al_entry_reference_price c = mq_mid q" "al_direction c = d"
    "al_expected_gross_return c = trend_gross m x d" "al_estimated_cost_return c = trend_cost s carry"
    "al_expected_net_return c = trend_gross m x d - trend_cost s carry"
    "al_notional_usd c = alpha_notional s capital" "al_horizon_hours c = trend_horizon"
  unfolding c_def trend_candidate_def Let_def by simp_all

lemma directed_kind:
  "q \<in> set (directed_quotes quotes d) \<longleftrightarrow> q \<in> set quotes \<and> mq_market_kind q = (if d = Alpha_long then SPOT else PERPETUAL)"
  by (simp add: directed_quotes_def)

text \<open>The candidate of an asset, if there is one.\<close>

definition trend_found_in ::
  "settings \<Rightarrow> real \<Rightarrow> market_scan \<Rightarrow> alpha_history \<Rightarrow> trend_market \<Rightarrow> string \<times> market_quote list \<Rightarrow> alpha_cand \<Rightarrow> bool" where
  "trend_found_in s capital scan past m g c \<longleftrightarrow> (\<exists>d. \<exists>q \<in> set (snd g).
     mq_market_kind q = (if d = Alpha_long then SPOT else PERPETUAL) \<and> trend_found s capital scan past m (fst g) d q c)"

lemma trend_asset_rows:
  assumes "trend_asset uuid s capital scan past m g rows n = (Inr out, k)"
  shows "out = rows \<or> (\<exists>c. out = rows @ [c] \<and> al_asset c = fst g \<and> trend_found_in s capital scan past m g c)"
proof -
  obtain asset quotes where g: "g = (asset, quotes)" by (cases g)
  obtain ls ss u v where runs:
      "trend_quotes uuid s capital scan past m asset Alpha_long (directed_quotes quotes Alpha_long) n = (Inr ls, u)"
      "trend_quotes uuid s capital scan past m asset Alpha_short (directed_quotes quotes Alpha_short) u = (Inr ss, v)"
      "out = rows @ take 1 (sort_desc trend_key (ls @ ss))"
    using assms by (auto simp: trend_asset_def g abind_Inr alift_Inr)
  have each: "trend_found_in s capital scan past m g c" if "c \<in> set (ls @ ss)" for c
    using that trend_quotes_found [OF runs(1)] trend_quotes_found [OF runs(2)]
    unfolding trend_found_in_def g by (auto simp: directed_kind) (metis alpha_direction.distinct(1))+
  show ?thesis
  proof (cases "sort_desc trend_key (ls @ ss)")
    case Nil
    then show ?thesis using runs(3) by simp
  next
    case (Cons c cs)
    then have c: "c \<in> set (ls @ ss)" by (metis list.set_intros(1) set_sort_desc)
    then have "al_asset c = fst g"
      using each [OF c] by (auto simp: trend_found_in_def trend_found_def trend_candidate_fields)
    then show ?thesis using each [OF c] runs(3) Cons by simp
  qed
qed

lemma trend_discovered:
  assumes "trend_discover uuid scan past s capital n = (Inr cs, k)"
  obtains m where "tk_cycle m = cycle_context_at (mn_completed_at scan)"
    and "btc_score (tradable_by_asset (mn_market_quotes scan)) past = Inr (tk_btc m)"
    and "market_breadth (tradable_by_asset (mn_market_quotes scan)) past = Inr (tk_breadth m)"
    and "distinct (map al_asset cs)" and "length cs \<le> 6"
    and "sorted_wrt (\<lambda>a b. trend_key b \<le> trend_key a) cs"
    and "\<forall>c \<in> set cs. \<exists>d. \<exists>q \<in> set (mn_market_quotes scan). mq_market_kind q = (if d = Alpha_long then SPOT else PERPETUAL)
       \<and> trend_found s capital scan past m (upper (mq_asset q)) d q c"
proof -
  let ?groups = "tradable_by_asset (mn_market_quotes scan)"
  obtain btc breadth scored where run: "btc_score ?groups past = Inr btc" "market_breadth ?groups past = Inr breadth"
      "afold (trend_asset uuid s capital scan past \<lparr>tk_btc = btc, tk_breadth = breadth,
         tk_cycle = cycle_context_at (mn_completed_at scan)\<rparr>) ?groups [] n = (Inr scored, k)"
      "cs = take 6 (sort_desc trend_key scored)"
    using assms by (auto simp: trend_discover_def Let_def abind_Inr alift_Inr)
  define m where "m = \<lparr>tk_btc = btc, tk_breadth = breadth, tk_cycle = cycle_context_at (mn_completed_at scan)\<rparr>"
  have rows: "distinct (map al_asset scored) \<and> (\<forall>c \<in> set scored. c \<in> set [] \<or> (\<exists>g \<in> set ?groups. trend_found_in s capital scan past m g c))"
    by (rule afold_groups [OF run(3) [folded m_def] trend_asset_rows])
      (simp_all add: tradable_by_asset_def distinct_group_by)
  have "mset (map al_asset (sort_desc trend_key scored)) = mset (map al_asset scored)" by simp
  then have "distinct (map al_asset (sort_desc trend_key scored))"
    using rows by (metis mset_eq_imp_distinct_iff)
  then have d: "distinct (map al_asset cs)" by (simp add: run(4) take_map [symmetric])
  have "sorted_wrt (\<lambda>a b. trend_key b \<le> trend_key a) cs"
    unfolding run(4) by (rule sorted_wrt_take [OF sort_desc_sorted])
  moreover have "\<exists>d. \<exists>q \<in> set (mn_market_quotes scan). mq_market_kind q = (if d = Alpha_long then SPOT else PERPETUAL)
       \<and> trend_found s capital scan past m (upper (mq_asset q)) d q c" if "c \<in> set cs" for c
  proof -
    have "c \<in> set scored" using that in_set_takeD [of c 6 "sort_desc trend_key scored"] by (simp add: run(4))
    then obtain asset quotes d q where g: "(asset, quotes) \<in> set ?groups" "q \<in> set quotes"
        "mq_market_kind q = (if d = Alpha_long then SPOT else PERPETUAL)" "trend_found s capital scan past m asset d q c"
      using rows by (force simp: trend_found_in_def)
    have "quotes = filter (\<lambda>q. upper (mq_asset q) = asset) (filter (\<lambda>q. mq_market_kind q \<in> {SPOT, PERPETUAL}) (mn_market_quotes scan))"
      by (rule group_by_member(1) [OF g(1) [unfolded tradable_by_asset_def]])
    then show ?thesis using g(2-4) by (intro exI [of _ d] bexI [of _ q]) auto
  qed
  ultimately show thesis using that [of m] run(1,2,4) d by (simp add: m_def)
qed

section \<open>Bounds\<close>

lemma first_score_bound: "first_score past qs = Inr v \<Longrightarrow> \<bar>v\<bar> \<le> 1"
proof (induction qs)
  case (Cons q qs)
  then show ?case by (auto split: if_splits dest: trend_bounds(1))
qed simp

lemma btc_score_bound: "btc_score current past = Inr v \<Longrightarrow> \<bar>v\<bar> \<le> 1"
  unfolding btc_score_def by (rule first_score_bound)

lemma breadth_step_signs:
  assumes "breadth_step past g signs = Inr signs'" and "set signs \<subseteq> {-1, 0, 1}"
  shows "set signs' \<subseteq> {-1, 0, 1}"
proof -
  obtain asset quotes where g: "g = (asset, quotes)" by (cases g)
  have "signs' = signs \<or> (\<exists>v. signs' = signs @ [sign_of v])"
    using assms(1) unfolding breadth_step_def g prod.case
    by (auto split: list.splits option.splits)
  moreover have "set (signs @ [sign_of v]) \<subseteq> {-1, 0, 1}" for v
    using assms(2) by (simp add: sign_of_def)
  ultimately show ?thesis using assms(2) by metis
qed

lemma market_breadth_bound:
  assumes "market_breadth current past = Inr v"
  shows "\<bar>v\<bar> \<le> 1"
proof -
  obtain signs where r: "rfold (breadth_step past) current [] = Inr signs"
      "v = (if signs \<noteq> [] then of_int (sum_list signs) / real (length signs) else 0)"
    using assms by (auto simp: market_breadth_def)
  have "set signs \<subseteq> {-1, 0, 1}"
    by (rule rfold_invariant [OF r(1), where I = "\<lambda>signs. set signs \<subseteq> {-1, 0, 1}"]) (auto dest: breadth_step_signs)
  then show ?thesis using mean_sign [of signs] r(2) by (auto simp: abs_le_iff minus_le_iff)
qed

lemma market_multiplier_bounds: "0.80 \<le> market_multiplier m d" "market_multiplier m d \<le> 1.20"
  unfolding market_multiplier_def by (rule max.cobounded1, intro max.boundedI min.cobounded1, simp)

lemma cycle_multiplier_bounds: "0.90 \<le> cycle_multiplier m d" "cycle_multiplier m d \<le> 1.10"
  unfolding cycle_multiplier_def by (rule max.cobounded1, intro max.boundedI min.cobounded1, simp)

lemma trend_base_nonneg: "0 \<le> trend_base x d"
proof -
  have "0 \<le> max 0 (direction_sign d * tr_drift x) * trend_horizon / 24" by (simp add: trend_horizon_def)
  then have "1 \<le> exp (max 0 (direction_sign d * tr_drift x) * trend_horizon / 24)" by (subst one_le_exp_iff)
  then show ?thesis by (simp add: trend_base_def)
qed

text \<open>The halving cycle moves the expected gross return by at most ten percent.\<close>

lemma trend_gross_cycle:
  defines "without m x d \<equiv> min 0.03 (trend_base x d * market_multiplier m d)"
  shows "0.90 * without m x d \<le> trend_gross m x d" and "trend_gross m x d \<le> 1.10 * without m x d"
    and "trend_gross m x d \<le> 0.03"
proof -
  define b where "b = trend_base x d * market_multiplier m d"
  have b: "0 \<le> b" unfolding b_def using trend_base_nonneg [of x d] market_multiplier_bounds(1) [of m d]
    by (intro mult_nonneg_nonneg) simp_all
  have lo: "b * 0.90 \<le> b * cycle_multiplier m d" and hi: "b * cycle_multiplier m d \<le> b * 1.10"
    using b cycle_multiplier_bounds [of m d] by (simp_all only: mult_left_mono)
  have g: "trend_gross m x d = min 0.03 (b * cycle_multiplier m d)" by (simp add: trend_gross_def b_def)
  show "0.90 * without m x d \<le> trend_gross m x d" "trend_gross m x d \<le> 1.10 * without m x d" "trend_gross m x d \<le> 0.03"
    unfolding without_def b_def [symmetric] g using b lo hi by (auto simp: min_def)
qed

lemma carry_cost_nonneg: "carry_cost funding q d h = Inr (Some carry) \<Longrightarrow> 0 \<le> carry"
  by (auto simp: carry_cost_def split: if_splits list.splits)

section \<open>No look-ahead of the whole strategy\<close>

lemma trend_of_until: "mq_observed_at q \<le> t \<Longrightarrow> trend_of (until t past k) q hs = trend_of (past k) q hs"
  by (simp add: until_def trend_of_past)

lemma first_score_past: "\<forall>q \<in> set qs. mq_observed_at q \<le> t \<Longrightarrow> first_score (until t past) qs = first_score past qs"
  by (induction qs) (simp_all add: trend_of_until cong: if_cong)

lemma quotes_of_seen:
  assumes "\<forall>q \<in> set quotes. mq_observed_at q \<le> t" and "(asset, qs) \<in> set (tradable_by_asset quotes)"
  shows "\<forall>q \<in> set qs. mq_observed_at q \<le> t"
  using group_by_member(1) [OF assms(2) [unfolded tradable_by_asset_def]] assms(1) by simp

lemma btc_score_past:
  assumes "\<forall>(asset, qs) \<in> set current. \<forall>q \<in> set qs. mq_observed_at q \<le> t"
  shows "btc_score current (until t past) = btc_score current past"
proof -
  have "\<forall>q \<in> set (quotes_of current ''BTC''). mq_observed_at q \<le> t"
  proof (cases "map_of current ''BTC''")
    case (Some qs)
    then have "(''BTC'', qs) \<in> set current" by (rule map_of_SomeD)
    then show ?thesis using assms Some by (auto simp: quotes_of_def)
  qed (simp add: quotes_of_def)
  then show ?thesis unfolding btc_score_def by (intro first_score_past) (auto simp: directed_kind)
qed

lemma rfold_cong: "(\<And>x. x \<in> set xs \<Longrightarrow> f x = g x) \<Longrightarrow> rfold f xs s = rfold g xs s"
proof (induction xs arbitrary: s)
  case (Cons x xs)
  have "rfold f xs = rfold g xs" using Cons by (intro ext) simp
  then show ?case using Cons.prems by simp
qed simp

lemma market_breadth_past:
  assumes "\<forall>(asset, qs) \<in> set current. \<forall>q \<in> set qs. mq_observed_at q \<le> t"
  shows "market_breadth current (until t past) = market_breadth current past"
proof -
  have "breadth_step (until t past) g = breadth_step past g" if "g \<in> set current" for g
  proof (intro ext)
    fix signs
    obtain asset qs where g: "g = (asset, qs)" by (cases g)
    define chosen where "chosen = (if directed_quotes qs Alpha_long \<noteq> [] then directed_quotes qs Alpha_long
      else directed_quotes qs Alpha_short)"
    have seen: "mq_observed_at q \<le> t" if "q \<in> set chosen" for q
      using that assms \<open>g \<in> set current\<close> by (auto simp: directed_kind g chosen_def split: if_splits)
    show "breadth_step (until t past) g signs = breadth_step past g signs"
    proof (cases chosen)
      case Nil
      then show ?thesis unfolding breadth_step_def g prod.case chosen_def [symmetric] by simp
    next
      case (Cons q rest)
      then have "mq_observed_at q \<le> t" using seen by simp
      then show ?thesis unfolding breadth_step_def g prod.case chosen_def [symmetric] by (simp add: Cons trend_of_until)
    qed
  qed
  then show ?thesis unfolding market_breadth_def by (simp cong: rfold_cong)
qed

lemma trend_quotes_past:
  assumes "\<forall>q \<in> set qs. mq_observed_at q \<le> t"
  shows "trend_quotes uuid s capital scan (until t past) m asset d qs = trend_quotes uuid s capital scan past m asset d qs"
  using assms
proof (induction qs)
  case (Cons q qs)
  then have q: "mq_observed_at q \<le> t" and IH: "trend_quotes uuid s capital scan (until t past) m asset d qs
      = trend_quotes uuid s capital scan past m asset d qs" by simp_all
  have "trend_regime (until t past k) q = trend_regime (past k) q" for k
    unfolding until_def by (rule trend_regime_past [OF q])
  then show ?case by (simp add: IH trend_of_until [OF q] trend_candidate_def Let_def cong: if_cong)
qed simp

lemma trend_discover_past:
  assumes "\<forall>q \<in> set (mn_market_quotes scan). mq_observed_at q \<le> t"
  shows "trend_discover uuid scan (until t past) s capital = trend_discover uuid scan past s capital"
proof -
  let ?current = "tradable_by_asset (mn_market_quotes scan)"
  have seen: "\<forall>(asset, qs) \<in> set ?current. \<forall>q \<in> set qs. mq_observed_at q \<le> t"
    using quotes_of_seen [OF assms] by auto
  have "trend_asset uuid s capital scan (until t past) m g = trend_asset uuid s capital scan past m g"
    if "g \<in> set ?current" for g m
  proof -
    obtain asset qs where g: "g = (asset, qs)" by (cases g)
    have "\<forall>q \<in> set (directed_quotes qs d). mq_observed_at q \<le> t" for d
      using seen that by (auto simp: directed_kind g)
    then show ?thesis by (intro ext) (simp add: trend_asset_def g trend_quotes_past)
  qed
  then have "afold (trend_asset uuid s capital scan (until t past) m) ?current c = afold (trend_asset uuid s capital scan past m) ?current c" for m c
    by (rule afold_cong)
  then show ?thesis unfolding trend_discover_def by (simp add: btc_score_past [OF seen] market_breadth_past [OF seen] Let_def)
qed

interpretation trend: point_in_time "trend_discover uuid" for uuid
  by unfold_locales (rule trend_discover_past)

section \<open>When it cannot raise\<close>

lemma trend_of_defined:
  assumes "0 < mq_mid q"
  shows "\<exists>x. trend_of series q hs = Inr x"
proof -
  have "\<exists>acc. rfold (trend_step (trend_past series q) q) hs a = Inr acc" for a
  proof (induction hs arbitrary: a)
    case (Cons h hs)
    have "\<exists>b. trend_step (trend_past series q) q h a = Inr b"
    proof (cases "trend_reference (trend_past series q) (mq_observed_at q - hours h) h")
      case (Some r)
      then have "0 < r" using trend_reference_found by blast
      then have "0 < mq_mid q / r" using assms by simp
      then show ?thesis using Some
        by (cases a) (simp add: trend_step_def py_log_def Let_def)
    qed (simp add: trend_step_def del: split_paired_Ex)
    then show ?case using Cons.IH by auto
  qed (simp del: split_paired_Ex)
  then show ?thesis by (simp add: trend_of_def)
qed

lemma first_score_defined: "\<forall>q \<in> set qs. 0 < mq_mid q \<Longrightarrow> \<exists>v. first_score past qs = Inr v"
proof (induction qs)
  case (Cons q qs)
  obtain x where "trend_of (past (mq_venue q, ''BTC'', mq_market_kind q)) q trend_lookbacks = Inr x"
    using trend_of_defined Cons.prems by fastforce
  then show ?case using Cons by simp
qed simp

definition positive_groups :: "(string \<times> market_quote list) list \<Rightarrow> bool" where
  "positive_groups current \<longleftrightarrow> (\<forall>g \<in> set current. \<forall>q \<in> set (snd g). 0 < mq_mid q)"

lemma positive_directed:
  assumes "positive_groups current" and "(asset, qs) \<in> set current" and "q \<in> set (directed_quotes qs d)"
  shows "0 < mq_mid q"
  using assms by (force simp: positive_groups_def directed_kind)

lemma btc_score_defined:
  assumes "positive_groups current"
  shows "\<exists>v. btc_score current past = Inr v"
proof (cases "map_of current ''BTC''")
  case None
  then show ?thesis by (simp add: btc_score_def quotes_of_def directed_quotes_def)
next
  case (Some qs)
  then have "(''BTC'', qs) \<in> set current" by (rule map_of_SomeD)
  note pos = positive_directed [OF assms this]
  show ?thesis unfolding btc_score_def
    by (rule first_score_defined) (use pos Some in \<open>auto simp: quotes_of_def\<close>)
qed

lemma rfold_defined:
  assumes "\<And>x s. x \<in> set xs \<Longrightarrow> \<exists>t. f x s = Inr t"
  shows "\<exists>t. rfold f xs s = Inr t"
  using assms
proof (induction xs arbitrary: s)
  case (Cons x xs)
  obtain t where "f x s = Inr t" using Cons.prems [of x s] by auto
  then show ?case using Cons.IH [of t] Cons.prems by auto
qed simp

lemma market_breadth_defined:
  assumes "positive_groups current"
  shows "\<exists>v. market_breadth current past = Inr v"
proof -
  have "\<exists>t. rfold (breadth_step past) current [] = Inr t"
  proof (rule rfold_defined)
    fix g :: "string \<times> market_quote list" and signs assume g: "g \<in> set current"
    define chosen where "chosen = (if directed_quotes (snd g) Alpha_long \<noteq> [] then directed_quotes (snd g) Alpha_long
      else directed_quotes (snd g) Alpha_short)"
    show "\<exists>t. breadth_step past g signs = Inr t"
    proof (cases chosen)
      case Nil
      then show ?thesis unfolding breadth_step_def case_prod_beta chosen_def [symmetric] by simp
    next
      case (Cons q rest)
      then have "q \<in> set chosen" by simp
      then have "0 < mq_mid q" using positive_directed [OF assms, of "fst g" "snd g"] g
        by (auto simp: chosen_def split: if_splits)
      then obtain x where "trend_of (past (mq_venue q, fst g, mq_market_kind q)) q [720] = Inr x"
        using trend_of_defined by blast
      then show ?thesis unfolding breadth_step_def case_prod_beta chosen_def [symmetric]
        by (simp add: Cons split: option.split)
    qed
  qed
  then show ?thesis by (auto simp: market_breadth_def)
qed

lemma trend_candidate_valid:
  assumes "trend_of series q trend_lookbacks = Inr x" and "trend_confirmed m x d" and "0 \<le> carry"
    and "0 < mq_mid q" and "0 < capital" and "0 < se_alpha_min_notional_usd s"
  shows "alpha_cand_ok (trend_candidate s capital m asset series q x d carry drawn)"
proof -
  let ?keys = "fst ` set (tr_returns x)"
  have "tr_returns x \<noteq> []" using assms(2) by (auto simp: trend_confirmed_def)
  then have "Max ?keys \<in> ?keys" by (intro Max_in) simp_all
  then have "0 < Max ?keys"
    using trend_bounds(4) [OF assms(1)] by (auto simp: trend_lookbacks_def)
  moreover have "0 \<le> trend_confidence m x d \<and> trend_confidence m x d \<le> 1"
    using trend_bounds(2) [OF assms(1)] by (simp add: trend_confidence_def)
  moreover have "0 \<le> trend_cost s carry" using assms(3) by (simp add: trend_cost_def)
  ultimately show ?thesis using assms(4-6)
    by (simp add: alpha_cand_ok_def trend_candidate_def Let_def trend_horizon_def alpha_notional_def alpha_capital_def less_max_iff_disj)
qed

lemma trend_quotes_defined:
  assumes "\<forall>q \<in> set qs. 0 < mq_mid q" and "\<forall>f \<in> set (mn_funding_quotes scan). fq_interval_hours f \<noteq> 0"
    and "0 < capital" and "0 < se_alpha_min_notional_usd s"
  shows "\<exists>out k. trend_quotes uuid s capital scan past m asset d qs n = (Inr out, k)"
  using assms(1)
proof (induction qs arbitrary: n)
  case (Cons q qs)
  let ?series = "past (mq_venue q, asset, mq_market_kind q)"
  have q: "0 < mq_mid q" and IH: "\<exists>out k. trend_quotes uuid s capital scan past m asset d qs n = (Inr out, k)"
    using Cons by simp_all
  obtain x where x: "trend_of ?series q trend_lookbacks = Inr x" using trend_of_defined [OF q] by blast
  have "\<exists>c. carry_cost (mn_funding_quotes scan) q d trend_horizon = Inr c"
  proof (cases "funding_matches (mn_funding_quotes scan) q")
    case (Cons f fs)
    then have "max_by fq_observed_at f fs \<in> set (funding_matches (mn_funding_quotes scan) q)"
      using max_by_in [of fq_observed_at f fs] by simp
    then have "fq_interval_hours (max_by fq_observed_at f fs) \<noteq> 0" using assms(2) by (auto simp: funding_matches_def)
    then show ?thesis by (simp add: carry_cost_def Cons hourly_rate_def py_div_def)
  qed (simp add: carry_cost_def)
  then obtain c where c: "carry_cost (mn_funding_quotes scan) q d trend_horizon = Inr c" by blast
  show ?case
  proof (cases "trend_confirmed m x d")
    case True
    show ?thesis
    proof (cases c)
      case None
      then show ?thesis using IH x c True by (simp add: abind_def alift_def Let_def)
    next
      case (Some carry)
      have "0 \<le> carry" using c Some by (auto dest: carry_cost_nonneg)
      note valid = trend_candidate_valid [OF x True this q assms(3,4)]
      show ?thesis using IH x c True Some valid
        by (simp add: abind_def alift_def Let_def draw_def checked_alpha_cand_def)
    qed
  qed (use IH x in \<open>simp add: abind_def alift_def Let_def\<close>)
qed (simp add: alift_def)

lemma trend_discover_defined:
  assumes "\<forall>q \<in> set (mn_market_quotes scan). 0 < mq_mid q" and "\<forall>f \<in> set (mn_funding_quotes scan). fq_interval_hours f \<noteq> 0"
    and "0 < capital" and "0 < se_alpha_min_notional_usd s"
  shows "\<exists>cs k. trend_discover uuid scan past s capital n = (Inr cs, k)"
proof -
  let ?groups = "tradable_by_asset (mn_market_quotes scan)"
  have pos: "positive_groups ?groups"
    unfolding positive_groups_def
  proof
    fix g assume g: "g \<in> set ?groups"
    then have "(fst g, snd g) \<in> set ?groups" by simp
    from group_by_member(1) [OF this [unfolded tradable_by_asset_def]]
    show "\<forall>q \<in> set (snd g). 0 < mq_mid q" using assms(1) by simp
  qed
  obtain btc breadth where scores: "btc_score ?groups past = Inr btc" "market_breadth ?groups past = Inr breadth"
    using btc_score_defined [OF pos] market_breadth_defined [OF pos] by blast
  have step: "\<exists>b t. trend_asset uuid s capital scan past m g a k = (Inr b, t)" if "g \<in> set ?groups" for g a k m
  proof -
    have p: "\<forall>q \<in> set (directed_quotes (snd g) d). 0 < mq_mid q" for d
      using positive_directed [OF pos, of "fst g" "snd g"] that by simp
    obtain ls u where l: "trend_quotes uuid s capital scan past m (fst g) Alpha_long (directed_quotes (snd g) Alpha_long) k = (Inr ls, u)"
      using trend_quotes_defined [OF p assms(2-4)] by blast
    obtain ss v where "trend_quotes uuid s capital scan past m (fst g) Alpha_short (directed_quotes (snd g) Alpha_short) u = (Inr ss, v)"
      using trend_quotes_defined [OF p assms(2-4)] by blast
    then show ?thesis using l by (simp add: trend_asset_def case_prod_beta abind_def alift_def)
  qed
  have "\<exists>scored t. afold (trend_asset uuid s capital scan past \<lparr>tk_btc = btc, tk_breadth = breadth,
      tk_cycle = cycle_context_at (mn_completed_at scan)\<rparr>) ?groups [] n = (Inr scored, t)"
    by (rule afold_defined) (rule step)
  then obtain scored t where "afold (trend_asset uuid s capital scan past \<lparr>tk_btc = btc, tk_breadth = breadth,
      tk_cycle = cycle_context_at (mn_completed_at scan)\<rparr>) ?groups [] n = (Inr scored, t)"
    by blast
  then show ?thesis using scores by (simp add: trend_discover_def Let_def abind_def alift_def)
qed

end
