(* ===== verification/Cycle_History.thy ===== *)
theory Cycle_History
  imports Alpha_Factory
begin

text \<open>
  cycle_probation.py, first part: the candles of the four providers, the table of historical
  quotes, its coverage, and the provider whose quotes an asset is read from.  Awaited replies are
  JSON values; \<open>float\<close> and \<open>int\<close> of a text, \<open>str\<close> of a number or container, SHA-256 and
  \<open>isoformat\<close> are parameters.  The text column of times compares as the times do, and a payload
  column holds the quote that was written to it.
\<close>

section \<open>JSON\<close>

datatype json = JNull | JBool bool | JInt int | JFloat real | JText string | JList "json list"
  | JObject "(string \<times> json) list"

text \<open>The requests that the research sends, and what may come back.\<close>

datatype web_request =
    Coinbase_candles string int time time
  | Okx_candles string string int int
  | Bybit_kline string string int int int
  | Coingecko_range string int int

datatype web_reply = Payload json | Http_status nat | Failed string

record history_env =
  hv_float :: "string \<Rightarrow> real option"
  hv_int :: "string \<Rightarrow> int option"
  hv_repr :: "json \<Rightarrow> string"
  hv_sha :: "string \<Rightarrow> string"
  hv_iso :: "time \<Rightarrow> string"
  hv_web :: "nat \<Rightarrow> web_request \<Rightarrow> web_reply"
  hv_universe :: "nat \<Rightarrow> json result"

fun json_str :: "history_env \<Rightarrow> json \<Rightarrow> string" where
  "json_str env (JText s) = s"
| "json_str env (JInt n) = str_int n"
| "json_str env (JBool b) = (if b then ''True'' else ''False'')"
| "json_str env JNull = ''None''"
| "json_str env v = hv_repr env v"

fun json_float :: "history_env \<Rightarrow> json \<Rightarrow> real result" where
  "json_float env (JFloat x) = Inr x"
| "json_float env (JInt n) = Inr (of_int n)"
| "json_float env (JBool b) = Inr (if b then 1 else 0)"
| "json_float env (JText s) = (case hv_float env s of None \<Rightarrow> Inl (ValueError ''float'') | Some x \<Rightarrow> Inr x)"
| "json_float env _ = Inl TypeError"

definition py_trunc :: "real \<Rightarrow> int" where
  "py_trunc x = (if 0 \<le> x then \<lfloor>x\<rfloor> else \<lceil>x\<rceil>)"

fun json_int :: "history_env \<Rightarrow> json \<Rightarrow> int result" where
  "json_int env (JInt n) = Inr n"
| "json_int env (JFloat x) = Inr (py_trunc x)"
| "json_int env (JBool b) = Inr (if b then 1 else 0)"
| "json_int env (JText s) = (case hv_int env s of None \<Rightarrow> Inl (ValueError ''int'') | Some n \<Rightarrow> Inr n)"
| "json_int env _ = Inl TypeError"

fun json_truthy :: "json \<Rightarrow> bool" where
  "json_truthy JNull = False"
| "json_truthy (JBool b) = b"
| "json_truthy (JInt n) = (n \<noteq> 0)"
| "json_truthy (JFloat x) = (x \<noteq> 0)"
| "json_truthy (JText s) = (s \<noteq> [])"
| "json_truthy (JList xs) = (xs \<noteq> [])"
| "json_truthy (JObject obj) = (obj \<noteq> [])"

text \<open>\<open>d.get(key)\<close>.\<close>

definition json_get :: "(string \<times> json) list \<Rightarrow> string \<Rightarrow> json" where
  "json_get obj key = (case map_of obj key of None \<Rightarrow> JNull | Some v \<Rightarrow> v)"

text \<open>\<open>str(d.get(key) or "")\<close>.\<close>

definition json_text_or_empty :: "history_env \<Rightarrow> (string \<times> json) list \<Rightarrow> string \<Rightarrow> string" where
  "json_text_or_empty env obj key =
     (let v = json_get obj key in if json_truthy v then json_str env v else [])"

text \<open>
  \<open>datetime.fromtimestamp(x, tz=utc)\<close>: rounded to microseconds, years 1 to 9999.  Times outside are a
  ValueError; what the platform raises for years that do not fit its own integers is taken as one too.
\<close>

definition utc_fromtimestamp :: "real \<Rightarrow> time result" where
  "utc_fromtimestamp x =
     (let t = round_half_even (x * 1000000)
      in if - 62135596800000000 \<le> t \<and> t < 253402300800000000 then Inr t
         else Inl (ValueError ''year is out of range''))"

section \<open>Constants\<close>

definition candle_seconds :: int where
  "candle_seconds = 21600"

definition days :: "int \<Rightarrow> int" where
  "days n = n * 86400000000"

definition provider_venues :: "string set" where
  "provider_venues = {''Coinbase'', ''OKX'', ''Bybit'', ''CoinGecko''}"

definition provider_priority :: "string \<Rightarrow> int" where
  "provider_priority v =
     (if v = ''Coinbase'' then 4 else if v = ''OKX'' then 3 else if v = ''Bybit'' then 2
      else if v = ''CoinGecko'' then 1 else 0)"

definition utc_day_start :: "time \<Rightarrow> time" where
  "utc_day_start t = t - t mod 86400000000"

definition quote_id :: "history_env \<Rightarrow> market_quote \<Rightarrow> string" where
  "quote_id env q = hv_sha env (join ''|'' [mq_venue q, upper (mq_asset q), market_kind_value (mq_market_kind q),
     mq_symbol q, hv_iso env (mq_observed_at q)])"

section \<open>Candles\<close>

text \<open>The time and the price of a row; a row that cannot be read is skipped.\<close>

definition read_candle :: "history_env \<Rightarrow> real \<Rightarrow> json list \<Rightarrow> (time \<times> real) option" where
  "read_candle env unit item =
     (case rbind (json_float env (item ! 0)) (\<lambda>x. rbind (utc_fromtimestamp (x / unit)) (\<lambda>t.
           rbind (json_float env (item ! 4)) (\<lambda>close. Inr (t, close)))) of
        Inl e \<Rightarrow> None
      | Inr (t, close) \<Rightarrow> if close \<le> 0 then None else Some (t, close))"

definition historical_quote ::
  "string \<Rightarrow> string \<Rightarrow> string \<Rightarrow> string \<Rightarrow> string \<Rightarrow> string \<Rightarrow> time \<times> real \<Rightarrow> market_quote" where
  "historical_quote venue asset symbol currency key source p =
     \<lparr>mq_venue = venue, mq_asset = upper asset, mq_market_kind = SPOT, mq_symbol = symbol,
      mq_quote_currency = Some currency, mq_contract_key = Some key, mq_expires_at = None, mq_bid = None,
      mq_ask = None, mq_mid = snd p, mq_observed_at = fst p, mq_source = source\<rparr>"

definition quotes_by_time :: "market_quote list \<Rightarrow> market_quote list" where
  "quotes_by_time qs = sort_key mq_observed_at qs"

definition coinbase_row :: "history_env \<Rightarrow> string \<Rightarrow> json \<Rightarrow> market_quote option" where
  "coinbase_row env asset item =
     (case item of
        JList xs \<Rightarrow> if length xs < 5 then None
          else map_option (historical_quote ''Coinbase'' asset (upper asset @ ''-USD'') ''USD'' ''spot''
            ''coinbase-exchange:candles:6h:historical-backfill'') (read_candle env 1 xs)
      | _ \<Rightarrow> None)"

definition parse_candles :: "history_env \<Rightarrow> string \<Rightarrow> json \<Rightarrow> market_quote list result" where
  "parse_candles env asset payload =
     (case payload of
        JList items \<Rightarrow> Inr (quotes_by_time (some_values (map (coinbase_row env asset) items)))
      | _ \<Rightarrow> Inl (ValueError ''Coinbase candle response must be a list''))"

definition okx_row :: "history_env \<Rightarrow> string \<Rightarrow> json \<Rightarrow> market_quote option" where
  "okx_row env asset item =
     (case item of
        JList xs \<Rightarrow> if length xs < 5 then None
          else if length xs \<ge> 9 \<and> json_str env (xs ! 8) = ''0'' then None
          else map_option (historical_quote ''OKX'' asset (upper asset @ ''-USDT'') ''USDT'' ''spot''
            ''okx-v5:market:history-candles:spot:6h-utc:historical-backfill'') (read_candle env 1000 xs)
      | _ \<Rightarrow> None)"

definition parse_okx_candles :: "history_env \<Rightarrow> string \<Rightarrow> json \<Rightarrow> market_quote list result" where
  "parse_okx_candles env asset payload =
     (case payload of
        JObject obj \<Rightarrow>
          if json_str env (json_get obj ''code'') \<noteq> ''0''
          then Inl (ValueError ''OKX history-candles response did not return code=0'')
          else (case json_get obj ''data'' of
              JList items \<Rightarrow> Inr (quotes_by_time (some_values (map (okx_row env asset) items)))
            | _ \<Rightarrow> Inl (ValueError ''OKX history-candles response must contain data''))
      | _ \<Rightarrow> Inl (ValueError ''OKX history-candles response did not return code=0''))"

definition bybit_row :: "history_env \<Rightarrow> string \<Rightarrow> json \<Rightarrow> market_quote option" where
  "bybit_row env asset item =
     (case item of
        JList xs \<Rightarrow> if length xs < 5 then None
          else map_option (historical_quote ''Bybit'' asset (upper asset @ ''USDT'') ''USDT'' ''spot''
            ''bybit-v5:kline:spot:6h:historical-backfill'') (read_candle env 1000 xs)
      | _ \<Rightarrow> None)"

definition parse_bybit_candles :: "history_env \<Rightarrow> string \<Rightarrow> json \<Rightarrow> market_quote list result" where
  "parse_bybit_candles env asset payload =
     (case payload of
        JObject obj \<Rightarrow>
          rbind (case map_of obj ''retCode'' of None \<Rightarrow> Inr (- 1) | Some v \<Rightarrow> json_int env v) (\<lambda>code.
          if code \<noteq> 0 then Inl (ValueError ''Bybit kline response did not return retCode=0'')
          else case (case json_get obj ''result'' of JObject r \<Rightarrow> json_get r ''list'' | _ \<Rightarrow> JNull) of
              JList items \<Rightarrow> Inr (quotes_by_time (some_values (map (bybit_row env asset) items)))
            | _ \<Rightarrow> Inl (ValueError ''Bybit kline response must contain result.list''))
      | _ \<Rightarrow> Inl (ValueError ''Bybit kline response did not return retCode=0''))"

text \<open>CoinGecko: the earliest observation of each six hours, at its own time.\<close>

definition price_point :: "history_env \<Rightarrow> json \<Rightarrow> (real \<times> real) option" where
  "price_point env item =
     (case item of
        JList xs \<Rightarrow> if length xs < 2 then None
          else (case rbind (json_float env (xs ! 0)) (\<lambda>ms. rbind (json_float env (xs ! 1)) (\<lambda>p. Inr (ms, p))) of
              Inl e \<Rightarrow> None
            | Inr (ms, p) \<Rightarrow> if ms \<le> 0 \<or> p \<le> 0 then None else Some (ms, p))
      | _ \<Rightarrow> None)"

definition bucket_of :: "real \<Rightarrow> int" where
  "bucket_of ms = \<lfloor>ms / 1000 / of_int candle_seconds\<rfloor> * candle_seconds"

definition bucket_step :: "real \<times> real \<Rightarrow> (int \<times> real \<times> real) list \<Rightarrow> (int \<times> real \<times> real) list" where
  "bucket_step p buckets =
     (case map_of buckets (bucket_of (fst p)) of
        None \<Rightarrow> AList.update (bucket_of (fst p)) p buckets
      | Some current \<Rightarrow> if fst p < fst current then AList.update (bucket_of (fst p)) p buckets else buckets)"

definition price_buckets :: "history_env \<Rightarrow> json list \<Rightarrow> (int \<times> real \<times> real) list" where
  "price_buckets env items = fold bucket_step (some_values (map (price_point env) items)) []"

definition coingecko_row :: "string \<Rightarrow> string \<Rightarrow> int \<times> real \<times> real \<Rightarrow> market_quote result" where
  "coingecko_row asset coin b =
     (case b of (bucket, ms, price) \<Rightarrow> rbind (utc_fromtimestamp (ms / 1000)) (\<lambda>t.
        Inr (historical_quote ''CoinGecko'' asset coin ''USD'' ''spot-reference''
          (''coingecko:coins/'' @ coin @ ''/market_chart/range:hourly-first-in-6h-bucket:historical-backfill'')
          (t, price))))"

definition parse_coingecko_prices :: "history_env \<Rightarrow> string \<Rightarrow> string \<Rightarrow> json \<Rightarrow> market_quote list result" where
  "parse_coingecko_prices env asset coin payload =
     (case payload of
        JObject obj \<Rightarrow>
          (case json_get obj ''prices'' of
             JList items \<Rightarrow>
               rbind (rmap (coingecko_row asset coin) (price_buckets env items)) (\<lambda>rows.
               Inr (quotes_by_time rows))
           | _ \<Rightarrow> Inl (ValueError ''CoinGecko market-chart response must contain prices''))
      | _ \<Rightarrow> Inl (ValueError ''CoinGecko market-chart response must be an object''))"

section \<open>The table\<close>

record hist_row =
  hr_quote_id :: string
  hr_venue :: string
  hr_asset :: string
  hr_market_kind :: string
  hr_symbol :: string
  hr_observed_at :: time
  hr_source :: string
  hr_payload :: market_quote

record replay_summary =
  rs_strategy_id :: string
  rs_asset :: string
  rs_direction :: alpha_direction
  rs_sample_count :: nat
  rs_positive_count :: nat
  rs_hit_rate :: "real option"
  rs_mean_realized_net_return :: "real option"
  rs_regime_count :: nat
  rs_regime_means :: "(alpha_regime \<times> real) list"
  rs_qualified :: bool

type_synonym replay_map = "((string \<times> alpha_direction) \<times> replay_summary) list"

text \<open>The table, the replay cache, and how many requests were sent.\<close>

record hist_state =
  hx_rows :: "hist_row list"
  hx_cache_key :: "(nat \<times> string) option"
  hx_cache :: replay_map
  hx_requests :: nat

datatype db_backend = Postgresql | Sqlite | Other_backend

definition historical_row :: "history_env \<Rightarrow> market_quote \<Rightarrow> hist_row" where
  "historical_row env q = \<lparr>hr_quote_id = quote_id env q, hr_venue = mq_venue q, hr_asset = upper (mq_asset q),
     hr_market_kind = market_kind_value (mq_market_kind q), hr_symbol = mq_symbol q,
     hr_observed_at = mq_observed_at q, hr_source = mq_source q, hr_payload = q\<rparr>"

text \<open>\<open>INSERT .. ON CONFLICT DO NOTHING\<close> on the primary key.\<close>

fun insert_ignoring :: "hist_row list \<Rightarrow> hist_row list \<Rightarrow> hist_row list" where
  "insert_ignoring [] rows = rows"
| "insert_ignoring (r # rs) rows =
     insert_ignoring rs (if hr_quote_id r \<in> hr_quote_id ` set rows then rows else rows @ [r])"

definition store_rows :: "db_backend \<Rightarrow> hist_row list \<Rightarrow> (hist_state, nat) action" where
  "store_rows backend rows s =
     (case backend of
        Other_backend \<Rightarrow>
          (let fresh = filter (\<lambda>r. hr_quote_id r \<notin> hr_quote_id ` set (hx_rows s)) rows
           in if fresh = [] then (Inr 0, s)
              else if \<not> distinct (map hr_quote_id fresh) then (Inl IntegrityError, s)
              else (Inr (length fresh), s\<lparr>hx_rows := hx_rows s @ fresh, hx_cache_key := None\<rparr>))
      | _ \<Rightarrow>
          (let after = insert_ignoring rows (hx_rows s)
           in (Inr (length after - length (hx_rows s)), s\<lparr>hx_rows := after, hx_cache_key := None\<rparr>)))"

definition historical_spot :: "market_quote \<Rightarrow> bool" where
  "historical_spot q \<longleftrightarrow> mq_market_kind q = SPOT \<and> mq_venue q \<in> provider_venues"

definition record_quotes :: "history_env \<Rightarrow> db_backend \<Rightarrow> market_quote list \<Rightarrow> (hist_state, nat) action" where
  "record_quotes env backend quotes =
     (let rows = map (historical_row env) (filter historical_spot quotes)
      in if rows = [] then alift (Inr 0) else store_rows backend rows)"

section \<open>Coverage\<close>

record coverage_row =
  vr_asset :: string
  vr_venue :: string
  vr_count :: nat
  vr_earliest :: time
  vr_latest :: time

definition asset_codes :: "string list \<Rightarrow> string list" where
  "asset_codes assets = sorted_unique (map upper (filter (\<lambda>a. strip a \<noteq> []) assets))"

definition before_start :: "time option \<Rightarrow> time \<Rightarrow> bool" where
  "before_start start t = (case start of None \<Rightarrow> False | Some x \<Rightarrow> t < x)"

definition past_end :: "time option \<Rightarrow> time \<Rightarrow> bool" where
  "past_end end_at t = (case end_at of None \<Rightarrow> False | Some x \<Rightarrow> x \<le> t)"

definition selected_rows ::
  "hist_row list \<Rightarrow> string list \<Rightarrow> time option \<Rightarrow> time option \<Rightarrow> hist_row list" where
  "selected_rows rows assets start end_at =
     filter (\<lambda>r. (asset_codes assets = [] \<or> hr_asset r \<in> set (asset_codes assets))
       \<and> \<not> before_start start (hr_observed_at r) \<and> \<not> past_end end_at (hr_observed_at r)) rows"

definition coverage_of_group :: "(string \<times> string) \<times> hist_row list \<Rightarrow> coverage_row" where
  "coverage_of_group g = (case g of ((asset, venue), rs) \<Rightarrow>
     \<lparr>vr_asset = upper asset, vr_venue = venue, vr_count = length rs,
      vr_earliest = Min (hr_observed_at ` set rs), vr_latest = Max (hr_observed_at ` set rs)\<rparr>)"

definition provider_coverage_rows ::
  "hist_row list \<Rightarrow> string list \<Rightarrow> time option \<Rightarrow> time option \<Rightarrow> coverage_row list" where
  "provider_coverage_rows rows assets start end_at =
     map coverage_of_group (group_by (\<lambda>r. (hr_asset r, hr_venue r)) (selected_rows rows assets start end_at))"

text \<open>The comparison of score tuples.\<close>

fun tuple_less :: "real list \<Rightarrow> real list \<Rightarrow> bool" where
  "tuple_less [] ys = (ys \<noteq> [])"
| "tuple_less (x # xs) [] = False"
| "tuple_less (x # xs) (y # ys) = (x < y \<or> x = y \<and> tuple_less xs ys)"

definition expected_candles :: "time \<Rightarrow> time \<Rightarrow> int" where
  "expected_candles start end_at = max 1 ((end_at - start) div (candle_seconds * 1000000))"

definition nine_tenths :: "int \<Rightarrow> int" where
  "nine_tenths n = \<lfloor>of_int n * 0.90 :: real\<rfloor>"

definition coverage_score :: "time option \<Rightarrow> time option \<Rightarrow> coverage_row \<Rightarrow> real list" where
  "coverage_score start end_at r =
     (case (start, end_at) of
        (Some st, Some en) \<Rightarrow>
          (let complete = en > st \<and> int (vr_count r) \<ge> nine_tenths (expected_candles st en)
                 \<and> vr_earliest r \<le> st + days 3 \<and> vr_latest r \<ge> en - days 3;
               span = max 0 (total_seconds (min (vr_latest r) en - max (vr_earliest r) st))
           in [if complete then 1 else 0, span, real (vr_count r), of_int (provider_priority (vr_venue r))])
      | _ \<Rightarrow> [max 0 (total_seconds (vr_latest r - vr_earliest r)), real (vr_count r),
              of_int (provider_priority (vr_venue r))])"

definition prefer_row ::
  "time option \<Rightarrow> time option \<Rightarrow> coverage_row \<Rightarrow> (string \<times> real list \<times> string) list
     \<Rightarrow> (string \<times> real list \<times> string) list" where
  "prefer_row start end_at r best =
     (case map_of best (vr_asset r) of
        None \<Rightarrow> AList.update (vr_asset r) (coverage_score start end_at r, vr_venue r) best
      | Some (score, venue) \<Rightarrow>
          if tuple_less score (coverage_score start end_at r)
          then AList.update (vr_asset r) (coverage_score start end_at r, vr_venue r) best else best)"

definition preferred_venue_by_asset ::
  "hist_row list \<Rightarrow> string list \<Rightarrow> time option \<Rightarrow> time option \<Rightarrow> (string \<times> string) list" where
  "preferred_venue_by_asset rows assets start end_at =
     map (\<lambda>(asset, score, venue). (asset, venue))
       (fold (prefer_row start end_at) (provider_coverage_rows rows assets start end_at) [])"

definition preferred_venue :: "hist_row list \<Rightarrow> string \<Rightarrow> time option \<Rightarrow> time option \<Rightarrow> string option" where
  "preferred_venue rows asset start end_at = map_of (preferred_venue_by_asset rows [asset] start end_at) (upper asset)"

type_synonym coverage = "nat \<times> time option \<times> time option"

definition coverage_of :: "hist_row list \<Rightarrow> string \<Rightarrow> time option \<Rightarrow> time option \<Rightarrow> coverage" where
  "coverage_of rows asset start end_at =
     (case preferred_venue rows asset start end_at of
        None \<Rightarrow> (0, None, None)
      | Some venue \<Rightarrow>
          (case filter (\<lambda>r. vr_asset r = upper asset \<and> vr_venue r = venue)
              (provider_coverage_rows rows [asset] start end_at) of
             [] \<Rightarrow> (0, None, None)
           | r # rs \<Rightarrow> (vr_count r, Some (vr_earliest r), Some (vr_latest r))))"

definition sufficient_coverage :: "coverage \<Rightarrow> int \<Rightarrow> time \<Rightarrow> time \<Rightarrow> bool" where
  "sufficient_coverage c expected start end_at =
     (case c of (n, earliest, latest) \<Rightarrow>
        int n \<ge> nine_tenths expected
        \<and> (case earliest of None \<Rightarrow> False | Some t \<Rightarrow> t \<le> start + days 3)
        \<and> (case latest of None \<Rightarrow> False | Some t \<Rightarrow> t \<ge> end_at - days 3))"

end
