(* ===== verification/Cycle_Backfill.thy ===== *)
theory Cycle_Backfill
  imports Cycle_History
begin

text \<open>
  cycle_probation.py, second part: the windows of time a history is requested in, the pages of OKX,
  and the cascade over the providers that fills the table until the coverage of an asset is
  sufficient.  The request counter of the state indexes the replies, so that the same request may
  be answered differently each time.
\<close>

section \<open>Requests\<close>

definition ask :: "history_env \<Rightarrow> web_request \<Rightarrow> (hist_state, json) action" where
  "ask env req s =
     ((case hv_web env (hx_requests s) req of
         Payload v \<Rightarrow> Inr v
       | Http_status code \<Rightarrow> Inl (HTTPStatusError code)
       | Failed name \<Rightarrow> Inl (ServiceError name)),
      s\<lparr>hx_requests := Suc (hx_requests s)\<rparr>)"

definition chunk_end :: "int \<Rightarrow> time \<Rightarrow> time \<Rightarrow> time" where
  "chunk_end n end_at cursor = min end_at (cursor + days n)"

lemma chunk_end_moves: "0 < n \<Longrightarrow> cursor < end_at \<Longrightarrow> cursor < chunk_end n end_at cursor \<and> chunk_end n end_at cursor \<le> end_at"
  by (simp add: chunk_end_def days_def)

definition request_chunk_days :: int where
  "request_chunk_days = 60"

definition coingecko_chunk_days :: int where
  "coingecko_chunk_days = 89"

text \<open>Coinbase: whatever goes wrong ends the loop with the rows so far and a label.\<close>

definition coinbase_label :: "py_error \<Rightarrow> string" where
  "coinbase_label e =
     (case e of HTTPStatusError code \<Rightarrow> if code = 404 then ''NotListed'' else ''HTTP'' @ str_int (int code)
      | _ \<Rightarrow> error_type e)"

function coinbase_windows ::
  "history_env \<Rightarrow> string \<Rightarrow> time \<Rightarrow> time \<Rightarrow> market_quote list \<Rightarrow> hist_state
     \<Rightarrow> (market_quote list \<times> string option) \<times> hist_state" where
  "coinbase_windows env asset end_at cursor rows s =
     (if cursor < end_at
      then case abind (ask env (Coinbase_candles (''/products/'' @ asset @ ''-USD/candles'') candle_seconds cursor
               (chunk_end request_chunk_days end_at cursor))) (\<lambda>v. alift (parse_candles env asset v)) s of
          (Inl e, t) \<Rightarrow> ((rows, Some (coinbase_label e)), t)
        | (Inr found, t) \<Rightarrow> coinbase_windows env asset end_at (chunk_end request_chunk_days end_at cursor) (rows @ found) t
      else ((rows, None), s))"
  by pat_completeness auto
termination
  by (relation "measure (\<lambda>(env, asset, end_at, cursor, rows, s). nat (end_at - cursor))")
    (auto simp: request_chunk_days_def chunk_end_def days_def)

declare coinbase_windows.simps [simp del]

definition fetch_coinbase ::
  "history_env \<Rightarrow> string \<Rightarrow> time \<Rightarrow> time \<Rightarrow> hist_state \<Rightarrow> (market_quote list \<times> string option) \<times> hist_state" where
  "fetch_coinbase env asset start end_at = coinbase_windows env asset end_at start []"

text \<open>\<open>int(t.timestamp() * 1000)\<close> and \<open>int(t.timestamp())\<close>.\<close>

definition to_ms :: "time \<Rightarrow> int" where
  "to_ms t = py_trunc (of_int t / 1000)"

definition to_seconds :: "time \<Rightarrow> int" where
  "to_seconds t = py_trunc (of_int t / 1000000)"

text \<open>A dict of quotes by the text of their time.\<close>

definition keep_by_time :: "market_quote list \<Rightarrow> (time \<times> market_quote) list \<Rightarrow> (time \<times> market_quote) list" where
  "keep_by_time qs rows = fold (\<lambda>q m. AList.update (mq_observed_at q) q m) qs rows"

definition in_window :: "time \<Rightarrow> time \<Rightarrow> market_quote list \<Rightarrow> market_quote list" where
  "in_window start end_at qs = filter (\<lambda>q. start \<le> mq_observed_at q \<and> mq_observed_at q < end_at) qs"

definition okx_max_pages :: nat where
  "okx_max_pages = 24"

text \<open>OKX: pages backwards from the end, at most \<open>okx_max_pages\<close> of them.\<close>

fun okx_pages ::
  "history_env \<Rightarrow> string \<Rightarrow> time \<Rightarrow> time \<Rightarrow> nat \<Rightarrow> int \<Rightarrow> (time \<times> market_quote) list
     \<Rightarrow> (hist_state, (time \<times> market_quote) list) action" where
  "okx_pages env asset start end_at 0 cursor rows = alift (Inr rows)"
| "okx_pages env asset start end_at (Suc pages) cursor rows =
     (if cursor \<le> to_ms start then alift (Inr rows)
      else abind (ask env (Okx_candles (upper asset @ ''-USDT'') ''6Hutc'' cursor 100)) (\<lambda>v.
           abind (alift (parse_okx_candles env asset v)) (\<lambda>found.
           case in_window start end_at found of
             [] \<Rightarrow> alift (Inr rows)
           | q # qs \<Rightarrow>
               let rows' = keep_by_time (q # qs) rows;
                   oldest = to_ms (Min (mq_observed_at ` set (q # qs)))
               in if oldest \<ge> cursor then alift (Inr rows')
                  else if oldest \<le> to_ms start then alift (Inr rows')
                  else okx_pages env asset start end_at pages oldest rows')))"

definition fetch_okx :: "history_env \<Rightarrow> string \<Rightarrow> time \<Rightarrow> time \<Rightarrow> (hist_state, market_quote list) action" where
  "fetch_okx env asset start end_at =
     abind (okx_pages env asset start end_at okx_max_pages (to_ms end_at) []) (\<lambda>rows.
     alift (Inr (quotes_by_time (map snd rows))))"

function bybit_windows ::
  "history_env \<Rightarrow> string \<Rightarrow> time \<Rightarrow> time \<Rightarrow> market_quote list \<Rightarrow> (hist_state, market_quote list) action" where
  "bybit_windows env asset end_at cursor rows =
     (if cursor < end_at
      then abind (ask env (Bybit_kline (upper asset @ ''USDT'') ''360'' (to_ms cursor)
             (to_ms (chunk_end request_chunk_days end_at cursor)) 1000)) (\<lambda>v.
           abind (alift (parse_bybit_candles env asset v)) (\<lambda>found.
           bybit_windows env asset end_at (chunk_end request_chunk_days end_at cursor) (rows @ found)))
      else alift (Inr rows))"
  by pat_completeness auto
termination
  by (relation "measure (\<lambda>(env, asset, end_at, cursor, rows). nat (end_at - cursor))")
    (auto simp: request_chunk_days_def chunk_end_def days_def)

declare bybit_windows.simps [simp del]

definition fetch_bybit :: "history_env \<Rightarrow> string \<Rightarrow> time \<Rightarrow> time \<Rightarrow> (hist_state, market_quote list) action" where
  "fetch_bybit env asset start end_at = bybit_windows env asset end_at start []"

text \<open>CoinGecko names its coins; the name comes from the stored universe of assets.\<close>

fun coin_in :: "history_env \<Rightarrow> string \<Rightarrow> json list \<Rightarrow> string option" where
  "coin_in env asset [] = None"
| "coin_in env asset (JObject row # rows) =
     (if upper (json_text_or_empty env row ''asset'') \<noteq> upper asset then coin_in env asset rows
      else let coin = strip (json_text_or_empty env row ''source_asset_id'')
           in if coin = [] then None else Some coin)"
| "coin_in env asset (_ # rows) = coin_in env asset rows"

definition coingecko_asset_id :: "history_env \<Rightarrow> string \<Rightarrow> hist_state \<Rightarrow> string option" where
  "coingecko_asset_id env asset s =
     (case hv_universe env (hx_requests s) of
        Inr (JObject obj) \<Rightarrow> (case json_get obj ''assets'' of JList rows \<Rightarrow> coin_in env asset rows | _ \<Rightarrow> None)
      | _ \<Rightarrow> None)"

function coingecko_windows ::
  "history_env \<Rightarrow> string \<Rightarrow> string \<Rightarrow> time \<Rightarrow> time \<Rightarrow> time \<Rightarrow> (time \<times> market_quote) list
     \<Rightarrow> (hist_state, (time \<times> market_quote) list) action" where
  "coingecko_windows env asset coin start end_at cursor rows =
     (if cursor < end_at
      then abind (ask env (Coingecko_range coin (to_seconds cursor)
             (to_seconds (chunk_end coingecko_chunk_days end_at cursor)))) (\<lambda>v.
           abind (alift (parse_coingecko_prices env asset coin v)) (\<lambda>found.
           coingecko_windows env asset coin start end_at (chunk_end coingecko_chunk_days end_at cursor)
             (keep_by_time (in_window start end_at found) rows)))
      else alift (Inr rows))"
  by pat_completeness auto
termination
  by (relation "measure (\<lambda>(env, asset, coin, start, end_at, cursor, rows). nat (end_at - cursor))")
    (auto simp: coingecko_chunk_days_def chunk_end_def days_def)

declare coingecko_windows.simps [simp del]

definition fetch_coingecko :: "history_env \<Rightarrow> string \<Rightarrow> time \<Rightarrow> time \<Rightarrow> (hist_state, market_quote list) action" where
  "fetch_coingecko env asset start end_at = (\<lambda>s.
     case coingecko_asset_id env asset s of
       None \<Rightarrow> (Inl (LookupError ''CoinGecko source_asset_id is unavailable''), s)
     | Some coin \<Rightarrow> abind (coingecko_windows env asset coin start end_at start []) (\<lambda>rows.
         alift (Inr (quotes_by_time (map snd rows)))) s)"

section \<open>The cascade\<close>

text \<open>\<open>IndexError\<close> is a \<open>LookupError\<close>.\<close>

definition provider_error_label :: "string \<Rightarrow> py_error \<Rightarrow> string" where
  "provider_error_label provider e =
     (case e of
        HTTPStatusError code \<Rightarrow> provider @ '':HTTP'' @ str_int (int code)
      | LookupError _ \<Rightarrow> provider @ '':MissingAssetId''
      | IndexError \<Rightarrow> provider @ '':MissingAssetId''
      | _ \<Rightarrow> provider @ '':'' @ error_type e)"

record backfill =
  bk_stored :: nat
  bk_fetched :: "string list"
  bk_errors :: "string list"
  bk_diagnostics :: "(string \<times> string list) list"

definition rows_label :: "string \<Rightarrow> market_quote list \<Rightarrow> string" where
  "rows_label provider rows = provider @ '':rows='' @ str_int (int (length rows))"

datatype provider = Okx | Bybit | Coingecko

definition provider_name :: "provider \<Rightarrow> string" where
  "provider_name p = (case p of Okx \<Rightarrow> ''OKX'' | Bybit \<Rightarrow> ''Bybit'' | Coingecko \<Rightarrow> ''CoinGecko'')"

definition fetch_from :: "provider \<Rightarrow> history_env \<Rightarrow> string \<Rightarrow> time \<Rightarrow> time \<Rightarrow> (hist_state, market_quote list) action" where
  "fetch_from p = (case p of Okx \<Rightarrow> fetch_okx | Bybit \<Rightarrow> fetch_bybit | Coingecko \<Rightarrow> fetch_coingecko)"

definition covered :: "time \<Rightarrow> time \<Rightarrow> int \<Rightarrow> string \<Rightarrow> hist_state \<Rightarrow> bool" where
  "covered start end_at expected asset s =
     sufficient_coverage (coverage_of (hx_rows s) asset (Some start) (Some end_at)) expected start end_at"

text \<open>One provider of the cascade: the attempts, whether the coverage is complete, and the report.\<close>

type_synonym attempt = "(string list \<times> bool \<times> backfill) \<times> hist_state"

definition try_provider ::
  "history_env \<Rightarrow> db_backend \<Rightarrow> time \<Rightarrow> time \<Rightarrow> int \<Rightarrow> string \<Rightarrow> provider \<Rightarrow> attempt \<Rightarrow> attempt" where
  "try_provider env backend start end_at expected asset p a =
     (case a of ((attempts, enough, b), s) \<Rightarrow>
        if enough then a
        else case fetch_from p env asset start end_at s of
          (Inl e, t) \<Rightarrow> ((attempts @ [provider_error_label (provider_name p) e], enough, b), t)
        | (Inr rows, t) \<Rightarrow>
            let tried = attempts @ [rows_label (provider_name p) rows] in
            if rows = [] then ((tried, covered start end_at expected asset t, b), t)
            else case record_quotes env backend rows t of
              (Inl e, u) \<Rightarrow> ((tried @ [provider_error_label (provider_name p) e], enough, b), u)
            | (Inr k, u) \<Rightarrow> ((tried, covered start end_at expected asset u,
                b\<lparr>bk_stored := bk_stored b + k, bk_fetched := bk_fetched b @ [asset]\<rparr>), u))"

text \<open>Why the coverage of an asset is not sufficient.\<close>

definition no_rows_reason :: "string list \<Rightarrow> string" where
  "no_rows_reason attempts =
     (if \<exists>x \<in> set attempts. contains '':HTTP403'' x then ''ProviderBlocked''
      else if attempts \<noteq> [] \<and> (\<forall>x \<in> set attempts.
          contains ''NotListed'' x \<or> contains ''rows=0'' x \<or> contains ''MissingAssetId'' x) then ''NotListed''
      else ''ProviderUnavailable'')"

definition gap_reason :: "coverage \<Rightarrow> string list \<Rightarrow> time \<Rightarrow> time \<Rightarrow> string" where
  "gap_reason c attempts start end_at =
     (case c of
        (n, Some earliest, Some latest) \<Rightarrow>
          if n > 0
          then if earliest > start + days 3 \<and> latest \<ge> end_at - days 3 then ''InsufficientAssetAge''
               else ''PartialProviderHistory''
          else no_rows_reason attempts
      | _ \<Rightarrow> no_rows_reason attempts)"

definition after_coinbase ::
  "history_env \<Rightarrow> db_backend \<Rightarrow> time \<Rightarrow> time \<Rightarrow> int \<Rightarrow> string \<Rightarrow> string list \<Rightarrow> backfill \<Rightarrow> (hist_state, backfill) action" where
  "after_coinbase env backend start end_at expected asset attempts b = (\<lambda>s.
     case fold (try_provider env backend start end_at expected asset) [Okx, Bybit, Coingecko]
       ((attempts, covered start end_at expected asset s, b), s) of
     ((tried, enough, r), t) \<Rightarrow>
       let r' = r\<lparr>bk_diagnostics := AList.update asset tried (bk_diagnostics r)\<rparr> in
       if covered start end_at expected asset t then (Inr r', t)
       else (Inr (r'\<lparr>bk_errors := bk_errors r' @ [asset @ '':''
              @ gap_reason (coverage_of (hx_rows t) asset (Some start) (Some end_at)) tried start end_at]\<rparr>), t))"

definition backfill_asset ::
  "history_env \<Rightarrow> db_backend \<Rightarrow> time \<Rightarrow> time \<Rightarrow> int \<Rightarrow> string \<Rightarrow> backfill \<Rightarrow> (hist_state, backfill) action" where
  "backfill_asset env backend start end_at expected asset b = (\<lambda>s.
     if covered start end_at expected asset s then (Inr b, s)
     else case fetch_coinbase env asset start end_at s of ((rows, label), t) \<Rightarrow>
       let failed = (case label of None \<Rightarrow> [] | Some l \<Rightarrow> if l = [] then [] else [''Coinbase:'' @ l]) in
       if rows = [] then after_coinbase env backend start end_at expected asset failed b t
       else case record_quotes env backend rows t of
         (Inl e, u) \<Rightarrow> (Inl e, u)
       | (Inr k, u) \<Rightarrow> after_coinbase env backend start end_at expected asset (rows_label ''Coinbase'' rows # failed)
           (b\<lparr>bk_stored := bk_stored b + k, bk_fetched := bk_fetched b @ [asset]\<rparr>) u)"

record backfill_report =
  br_requested_assets :: "string list"
  br_fetched_assets :: "string list"
  br_stored_quote_count :: nat
  br_total_quote_count :: nat
  br_earliest_observed_at :: "time option"
  br_latest_observed_at :: "time option"
  br_errors :: "string list"
  br_provider_diagnostics :: "(string \<times> string list) list"

definition backfill_span :: "int \<Rightarrow> int" where
  "backfill_span n = max 260 n"

definition report_of :: "string list \<Rightarrow> backfill \<Rightarrow> hist_state \<Rightarrow> backfill_report" where
  "report_of requested b s =
     (let observed = sort (map hr_observed_at (hx_rows s))
      in \<lparr>br_requested_assets = requested, br_fetched_assets = sorted_unique (bk_fetched b),
          br_stored_quote_count = bk_stored b, br_total_quote_count = length observed,
          br_earliest_observed_at = (if observed = [] then None else Some (hd observed)),
          br_latest_observed_at = (if observed = [] then None else Some (last observed)),
          br_errors = bk_errors b, br_provider_diagnostics = bk_diagnostics b\<rparr>)"

definition ensure_backfilled ::
  "history_env \<Rightarrow> db_backend \<Rightarrow> int \<Rightarrow> string list \<Rightarrow> time \<Rightarrow> (hist_state, backfill_report) action" where
  "ensure_backfilled env backend n assets now =
     (let end_at = utc_day_start now; start = end_at - days (backfill_span n);
          requested = asset_codes assets; expected = backfill_span n * (86400 div candle_seconds)
      in abind (afold (backfill_asset env backend start end_at expected) requested
           \<lparr>bk_stored = 0, bk_fetched = [], bk_errors = [], bk_diagnostics = []\<rparr>) (\<lambda>b. \<lambda>s.
         (Inr (report_of requested b s), s)))"

section \<open>Reading\<close>

text \<open>The quotes of the table in the order of their times.\<close>

definition stored_quotes :: "hist_row list \<Rightarrow> market_quote list" where
  "stored_quotes rows = map hr_payload (sort_key hr_observed_at rows)"

definition of_preferred :: "(string \<times> string) list \<Rightarrow> market_quote \<Rightarrow> bool" where
  "of_preferred preferred q \<longleftrightarrow>
     (case map_of preferred (upper (mq_asset q)) of None \<Rightarrow> True | Some v \<Rightarrow> v = mq_venue q)"

definition instrument_key :: "market_quote \<Rightarrow> history_key" where
  "instrument_key q = (mq_venue q, upper (mq_asset q), mq_market_kind q)"

text \<open>\<open>history\<close>: \<open>None\<close> asks for every asset, an empty set for none.\<close>

definition cycle_history ::
  "hist_row list \<Rightarrow> time \<Rightarrow> time \<Rightarrow> string list option \<Rightarrow> (history_key \<times> market_quote list) list" where
  "cycle_history rows start end_at assets =
     (let allowed = map_option (map upper) assets;
          named = (case allowed of None \<Rightarrow> [] | Some xs \<Rightarrow> xs);
          preferred = preferred_venue_by_asset rows named (Some start) (Some end_at);
          chosen = filter (\<lambda>r. start \<le> hr_observed_at r \<and> hr_observed_at r \<le> end_at
            \<and> (named = [] \<or> hr_asset r \<in> set named)) rows
      in group_by instrument_key (filter (\<lambda>q. (allowed = None \<or> upper (mq_asset q) \<in> set named)
           \<and> of_preferred preferred q) (stored_quotes chosen)))"

end
