(* ===== verification/Cycle_Replay.thy ===== *)
theory Cycle_Replay
  imports Cycle_Backfill Cycle_Trend Alpha_Health
begin

text \<open>
  cycle_probation.py, third part, batched_cycle_history.py and incremental_forward_sizing.py: the
  walk-forward replay of a strategy over the stored quotes, its summaries and their cache, and the
  two policies that size a candidate on them.  \<open>bisect_left\<close> and \<open>bisect_right\<close> are taken on
  series sorted by time.
\<close>

section \<open>Series\<close>

definition bisect_left :: "time list \<Rightarrow> time \<Rightarrow> nat" where
  "bisect_left ts t = length (takeWhile (\<lambda>x. x < t) ts)"

definition bisect_right :: "time list \<Rightarrow> time \<Rightarrow> nat" where
  "bisect_right ts t = length (takeWhile (\<lambda>x. x \<le> t) ts)"

definition replay_exit_quote :: "market_quote list \<Rightarrow> time \<Rightarrow> market_quote option" where
  "replay_exit_quote series due =
     (let i = bisect_left (map mq_observed_at series) due in
      if i \<ge> length series then None
      else if mq_observed_at (series ! i) - due > hours 12 then None else Some (series ! i))"

definition filter_preferred_quotes ::
  "hist_row list \<Rightarrow> market_quote list \<Rightarrow> time \<Rightarrow> time \<Rightarrow> market_quote list" where
  "filter_preferred_quotes rows quotes start end_at =
     (let preferred = preferred_venue_by_asset rows (map (\<lambda>q. upper (mq_asset q)) quotes) (Some start) (Some end_at)
      in filter (of_preferred preferred) quotes)"

definition historical_spot_taker_fee_bps :: "settings \<Rightarrow> string \<Rightarrow> real" where
  "historical_spot_taker_fee_bps s venue =
     (if venue = ''Coinbase'' then se_coinbase_spot_taker_fee_bps s
      else if venue = ''OKX'' then se_okx_spot_taker_fee_bps s
      else if venue = ''Bybit'' then se_bybit_spot_taker_fee_bps s
      else if venue = ''Kraken'' then se_kraken_spot_taker_fee_bps s
      else max (max (max (se_coinbase_spot_taker_fee_bps s) (se_okx_spot_taker_fee_bps s))
             (se_bybit_spot_taker_fee_bps s)) (se_kraken_spot_taker_fee_bps s))"

section \<open>One evaluation\<close>

text \<open>A strategy with what the replay asks of it.\<close>

record replay_strategy = alpha_strategy +
  rg_required_history_hours :: "settings \<Rightarrow> real"
  rg_horizon_hours :: real

definition trend_replay_strategy :: "(nat \<Rightarrow> string) \<Rightarrow> replay_strategy" where
  "trend_replay_strategy uuid = \<lparr>st_manifest = trend_manifest, st_discover = trend_discover uuid,
     rg_required_history_hours = (\<lambda>s. required_history_hours), rg_horizon_hours = trend_horizon\<rparr>"

type_synonym series_map = "(history_key \<times> market_quote list) list"

type_synonym replay_outcomes = "((string \<times> alpha_direction) \<times> (real \<times> alpha_regime) list) list"

text \<open>What is visible of a series at a time, unless its latest quote is old.\<close>

definition visible_series :: "time \<Rightarrow> history_key \<times> market_quote list \<Rightarrow> (history_key \<times> market_quote list) option" where
  "visible_series evaluation g =
     (case g of (key, series) \<Rightarrow>
        let index = bisect_right (map mq_observed_at series) evaluation in
        if index = 0 then None
        else if evaluation - mq_observed_at (series ! (index - 1)) > hours 12 then None
        else Some (key, take index series))"

definition visible_at :: "series_map \<Rightarrow> time \<Rightarrow> series_map" where
  "visible_at grouped evaluation = some_values (map (visible_series evaluation) grouped)"

definition history_of :: "series_map \<Rightarrow> alpha_history" where
  "history_of grouped = (\<lambda>key. case map_of grouped key of None \<Rightarrow> [] | Some qs \<Rightarrow> qs)"

definition replay_scan :: "series_map \<Rightarrow> time \<Rightarrow> market_scan" where
  "replay_scan visible evaluation = \<lparr>mn_completed_at = evaluation,
     mn_market_quotes = map (\<lambda>(key, series). last series) visible, mn_funding_quotes = []\<rparr>"

definition replay_cost :: "settings \<Rightarrow> alpha_cand \<Rightarrow> real" where
  "replay_cost s c = max (al_estimated_cost_return c)
     (if al_market_kind c = SPOT
      then (2 * historical_spot_taker_fee_bps s (al_venue c) + se_alpha_execution_risk_floor_bps s) / 10000 else 0)"

definition replay_value :: "settings \<Rightarrow> alpha_cand \<Rightarrow> market_quote \<Rightarrow> real" where
  "replay_value s c q =
     (let raw = mq_mid q / al_entry_reference_price c - 1
      in (if al_direction c = Alpha_long then raw else - raw) - replay_cost s c)"

definition candidate_exit :: "series_map \<Rightarrow> alpha_cand \<Rightarrow> market_quote option" where
  "candidate_exit grouped c =
     replay_exit_quote (history_of grouped (al_venue c, upper (al_asset c), al_market_kind c))
       (al_observed_at c + hours (al_horizon_hours c))"

definition replay_candidate :: "settings \<Rightarrow> series_map \<Rightarrow> alpha_cand \<Rightarrow> replay_outcomes \<Rightarrow> replay_outcomes" where
  "replay_candidate s grouped c out =
     (case candidate_exit grouped c of
        None \<Rightarrow> out
      | Some q \<Rightarrow>
          if al_entry_reference_price c \<le> 0 then out
          else group_add (upper (al_asset c), al_direction c) (replay_value s c q, al_regime c) out)"

definition replay_at ::
  "replay_strategy \<Rightarrow> settings \<Rightarrow> real \<Rightarrow> series_map \<Rightarrow> time \<Rightarrow> replay_outcomes \<Rightarrow> replay_outcomes drawing" where
  "replay_at strategy s capital grouped evaluation out =
     (let visible = visible_at grouped evaluation in
      if visible = [] then alift (Inr out)
      else abind (st_discover strategy (replay_scan visible evaluation) (history_of visible) s capital) (\<lambda>cs.
           alift (Inr (fold (replay_candidate s grouped) cs out))))"

section \<open>The walk forward\<close>

definition replay_step :: int where
  "replay_step = hours 72"

lemma replay_step_positive: "0 < replay_step"
  by code_simp

function replay_loop ::
  "replay_strategy \<Rightarrow> settings \<Rightarrow> real \<Rightarrow> series_map \<Rightarrow> time \<Rightarrow> time \<Rightarrow> replay_outcomes \<Rightarrow> replay_outcomes drawing" where
  "replay_loop strategy s capital grouped stop evaluation out =
     (if evaluation \<le> stop
      then abind (replay_at strategy s capital grouped evaluation out)
             (replay_loop strategy s capital grouped stop (evaluation + replay_step))
      else alift (Inr out))"
  by pat_completeness auto
termination
  by (relation "measure (\<lambda>(strategy, s, capital, grouped, stop, evaluation, out). nat (stop - evaluation + 1))")
    (use replay_step_positive in auto)

declare replay_loop.simps [simp del]

definition replay_min_samples :: nat where
  "replay_min_samples = 24"

definition min_hit_rate :: real where
  "min_hit_rate = 0.55"

definition outcome_regimes :: "(real \<times> alpha_regime) list \<Rightarrow> (alpha_regime \<times> real) list" where
  "outcome_regimes rows = map (\<lambda>(r, xs). (r, fmean (map fst xs))) (group_by snd rows)"

definition summary_qualified :: "settings \<Rightarrow> (real \<times> alpha_regime) list \<Rightarrow> bool" where
  "summary_qualified s rows \<longleftrightarrow> replay_min_samples \<le> length rows \<and> rows \<noteq> []
     \<and> se_alpha_min_forward_mean_return s < fmean (map fst rows)
     \<and> min_hit_rate \<le> real (length (filter (\<lambda>v. 0 < v) (map fst rows))) / real (length rows)
     \<and> se_alpha_min_regimes s \<le> int (length (outcome_regimes rows))
     \<and> (\<forall>(r, m) \<in> set (outcome_regimes rows). se_alpha_min_regime_mean_return s < m)"

definition summary_of ::
  "string \<Rightarrow> settings \<Rightarrow> (string \<times> alpha_direction) \<times> (real \<times> alpha_regime) list
     \<Rightarrow> (string \<times> alpha_direction) \<times> replay_summary" where
  "summary_of strategy s g =
     (case g of (key, rows) \<Rightarrow>
        let positive = length (filter (\<lambda>v. 0 < v) (map fst rows)) in
        (key, \<lparr>rs_strategy_id = strategy, rs_asset = fst key, rs_direction = snd key,
          rs_sample_count = length rows, rs_positive_count = positive,
          rs_hit_rate = (if rows = [] then None else Some (real positive / real (length rows))),
          rs_mean_realized_net_return = (if rows = [] then None else Some (fmean (map fst rows))),
          rs_regime_count = length (outcome_regimes rows), rs_regime_means = outcome_regimes rows,
          rs_qualified = summary_qualified s rows\<rparr>))"

text \<open>The part of the replay after the cache was missed.\<close>

definition series_of :: "market_quote list \<Rightarrow> series_map" where
  "series_of quotes = map (\<lambda>(key, qs). (key, quotes_by_time qs)) (group_by instrument_key quotes)"

definition replay_start :: "replay_strategy \<Rightarrow> settings \<Rightarrow> market_quote list \<Rightarrow> time" where
  "replay_start strategy s quotes =
     Min (mq_observed_at ` set quotes) + hours (rg_required_history_hours strategy s)"

definition replay_stop :: "replay_strategy \<Rightarrow> market_quote list \<Rightarrow> time \<Rightarrow> time" where
  "replay_stop strategy quotes now =
     min (Max (mq_observed_at ` set quotes)) now - hours (rg_horizon_hours strategy)"

definition replay_quotes ::
  "replay_strategy \<Rightarrow> settings \<Rightarrow> real \<Rightarrow> time \<Rightarrow> market_quote list \<Rightarrow> replay_map drawing" where
  "replay_quotes strategy s capital now quotes =
     abind (replay_loop strategy s capital (series_of quotes) (replay_stop strategy quotes now)
       (replay_start strategy s quotes) []) (\<lambda>out.
     alift (Inr (map (summary_of (mf_strategy_id (st_manifest strategy)) s) out)))"

text \<open>An action that only draws identifiers, inside the state of the research.\<close>

definition drawn_in :: "'a drawing \<Rightarrow> (hist_state \<times> nat, 'a) action" where
  "drawn_in m = (\<lambda>(s, n). case m n of (r, k) \<Rightarrow> (r, (s, k)))"

definition keep_replay :: "nat \<times> string \<Rightarrow> replay_map \<Rightarrow> (hist_state \<times> nat, replay_map) action" where
  "keep_replay key summaries = (\<lambda>(s, n).
     (Inr summaries, (s\<lparr>hx_cache_key := Some key, hx_cache := summaries\<rparr>, n)))"

definition venues_text :: "(string \<times> string) list \<Rightarrow> string" where
  "venues_text preferred = join '','' (map (\<lambda>(asset, venue). asset @ '':'' @ venue) (sort preferred))"

definition replay_summaries ::
  "history_env \<Rightarrow> int \<Rightarrow> replay_strategy \<Rightarrow> settings \<Rightarrow> real \<Rightarrow> time \<Rightarrow> (hist_state \<times> nat, replay_map) action" where
  "replay_summaries env n strategy s capital now = (\<lambda>(h, drawn).
     let end_at = utc_day_start now; start = end_at - days (backfill_span n);
         stored = stored_quotes (hx_rows h);
         quotes = filter_preferred_quotes (hx_rows h) stored start end_at;
         preferred = preferred_venue_by_asset (hx_rows h) (map (\<lambda>q. upper (mq_asset q)) quotes) (Some start) (Some end_at);
         key = (length quotes, hv_iso env (Max (mq_observed_at ` set quotes)) @ ''|'' @ venues_text preferred)
     in if stored = [] \<or> quotes = [] then (Inr [], (h, drawn))
        else if hx_cache_key h = Some key then (Inr (hx_cache h), (h, drawn))
        else abind (drawn_in (replay_quotes strategy s capital now quotes)) (keep_replay key) (h, drawn))"

section \<open>The batched research\<close>

definition set_active_assets :: "string list \<Rightarrow> hist_state \<Rightarrow> string list \<times> hist_state" where
  "set_active_assets assets h = (asset_codes assets, h\<lparr>hx_cache_key := None, hx_cache := []\<rparr>)"

definition batched_history ::
  "hist_row list \<Rightarrow> string list \<Rightarrow> time \<Rightarrow> time \<Rightarrow> string list option \<Rightarrow> (history_key \<times> market_quote list) list" where
  "batched_history rows active start end_at assets =
     (let allowed = asset_codes (case assets of None \<Rightarrow> active | Some [] \<Rightarrow> active | Some xs \<Rightarrow> xs);
          preferred = preferred_venue_by_asset rows allowed (Some start) (Some end_at);
          chosen = filter (\<lambda>r. start \<le> hr_observed_at r \<and> hr_observed_at r \<le> end_at
            \<and> (allowed = [] \<or> hr_asset r \<in> set allowed)) rows
      in group_by instrument_key (filter (of_preferred preferred) (stored_quotes chosen)))"

definition batched_replay_summaries ::
  "history_env \<Rightarrow> int \<Rightarrow> string list \<Rightarrow> replay_strategy \<Rightarrow> settings \<Rightarrow> real \<Rightarrow> time
     \<Rightarrow> (hist_state \<times> nat, replay_map) action" where
  "batched_replay_summaries env n active strategy s capital now = (\<lambda>(h, drawn).
     let end_at = utc_day_start now; start = end_at - days (backfill_span n);
         stored = stored_quotes (filter (\<lambda>r. active = [] \<or> hr_asset r \<in> set active) (hx_rows h));
         quotes = filter_preferred_quotes (hx_rows h) stored start end_at;
         preferred = preferred_venue_by_asset (hx_rows h) active (Some start) (Some end_at);
         key = (length quotes, hv_iso env (Max (mq_observed_at ` set quotes)) @ ''|'' @ join '','' active
           @ ''|'' @ venues_text preferred)
     in if stored = [] \<or> quotes = [] then (Inr [], (h, drawn))
        else if hx_cache_key h = Some key then (Inr (hx_cache h), (h, drawn))
        else abind (drawn_in (replay_quotes strategy s capital now quotes)) (keep_replay key) (h, drawn))"

section \<open>The policies\<close>

text \<open>\<open>x is None or test(x)\<close>.\<close>

definition none_or :: "(real \<Rightarrow> bool) \<Rightarrow> real option \<Rightarrow> bool" where
  "none_or test x = (case x of None \<Rightarrow> True | Some v \<Rightarrow> test v)"

definition unsupported :: "replay_summary option \<Rightarrow> bool" where
  "unsupported r = (case r of None \<Rightarrow> True | Some x \<Rightarrow> \<not> rs_qualified x)"

definition blockers_of :: "(bool \<times> string) list \<Rightarrow> string list" where
  "blockers_of tests = map snd (filter fst tests)"

definition probationary_policy ::
  "alpha_qualification \<Rightarrow> alpha_health \<Rightarrow> replay_summary option \<Rightarrow> bool \<times> string list" where
  "probationary_policy q h replay =
     (let blockers = blockers_of [
        (aq_statistically_qualified q, ''already fully qualified''),
        (aq_sample_count q < 8, ''insufficient genuine forward outcomes for probationary paper''),
        (none_or (\<lambda>m. m \<le> aq_required_mean_lower_bound q) (aq_mean_realized_net_return q),
           ''forward mean return is below probationary hurdle''),
        (none_or (\<lambda>r. r < min_hit_rate) (aq_hit_rate q), ''forward hit rate is below probationary hurdle''),
        (aq_regime_count q < 1, ''no forward regime coverage''),
        (\<not> ah_healthy_for_paper_allocation h \<or> ah_capital_multiplier h \<le> 0, ''adaptive alpha health is not paper-healthy''),
        (unsupported replay, ''historical walk-forward support is not qualified'')]
      in (blockers = [], blockers))"

definition evidence_step :: int where
  "evidence_step = 3"

definition forward_evidence_allocation_fraction :: "int \<Rightarrow> int \<Rightarrow> real" where
  "forward_evidence_allocation_fraction sample_count full_target =
     (let samples = max 0 sample_count; target = max evidence_step full_target
      in if samples < evidence_step then 0
         else if samples \<ge> target then 1
         else max 0 (min 1 (of_int (samples div evidence_step * evidence_step) / of_int target)))"

record incremental_decision =
  ix_eligible :: bool
  ix_allocation_fraction :: real
  ix_blockers :: "string list"

definition incremental_target :: "settings \<Rightarrow> int" where
  "incremental_target s = max evidence_step (se_alpha_min_forward_samples s)"

definition incremental_blockers ::
  "alpha_qualification \<Rightarrow> alpha_health \<Rightarrow> replay_summary option \<Rightarrow> settings \<Rightarrow> health_settings \<Rightarrow> string list" where
  "incremental_blockers q h replay s hs = blockers_of [
     (aq_statistically_qualified q, ''already fully qualified''),
     (int (aq_sample_count q) < evidence_step, ''fewer than three genuine independent forward outcomes''),
     (evidence_step \<le> int (aq_sample_count q) \<and> incremental_target s \<le> int (aq_sample_count q),
        ''full forward target reached without full statistical qualification''),
     (none_or (\<lambda>m. m \<le> aq_required_mean_lower_bound q) (aq_mean_realized_net_return q),
        ''forward mean return is below incremental-paper hurdle''),
     (none_or (\<lambda>r. r < min_hit_rate) (aq_hit_rate q), ''forward hit rate is below incremental-paper hurdle''),
     (aq_regime_count q < 1, ''no genuine forward regime coverage''),
     (int (ah_recent_sample_count h) < evidence_step, ''insufficient recent outcomes for incremental health evaluation''),
     (none_or (\<lambda>m. m \<le> hs_min_recent_mean_return hs) (ah_recent_mean_net_return h),
        ''recent mean net return is below health hurdle''),
     (none_or (\<lambda>r. r < hs_min_recent_hit_rate hs) (ah_recent_hit_rate h), ''recent hit rate is below health hurdle''),
     (none_or (\<lambda>r. r < hs_min_capture_ratio hs) (ah_forecast_capture_ratio_median h),
        ''realized-to-predicted capture ratio is below health hurdle''),
     (none_or (\<lambda>r. r < hs_min_recent_to_long_ratio hs) (ah_recent_to_long_run_ratio h),
        ''recent performance has decayed versus long-run evidence''),
     (none_or (\<lambda>d. hs_max_drawdown hs < d) (ah_max_compounded_drawdown h),
        ''forward outcome drawdown exceeds health limit''),
     (hs_max_trailing_losses hs \<le> int (ah_trailing_loss_streak h), ''consecutive forward losses exceed health limit''),
     (unsupported replay, ''historical walk-forward support is not qualified'')]"

definition incremental_forward_policy ::
  "alpha_qualification \<Rightarrow> alpha_health \<Rightarrow> replay_summary option \<Rightarrow> settings \<Rightarrow> health_settings \<Rightarrow> incremental_decision" where
  "incremental_forward_policy q h replay s hs =
     (let fraction = forward_evidence_allocation_fraction (int (aq_sample_count q)) (incremental_target s);
          blockers = incremental_blockers q h replay s hs;
          eligible = blockers = [] \<and> fraction > 0
      in \<lparr>ix_eligible = eligible, ix_allocation_fraction = (if eligible then fraction else 0), ix_blockers = blockers\<rparr>)"

end
