(* ===== verification/History_Correct.thy ===== *)
theory History_Correct
  imports Cycle_Backfill
begin

text \<open>
  The history backfill: how many requests it sends, what it does to the table, and which provider
  an asset is read from.
\<close>

section \<open>Requests\<close>

text \<open>How many windows of \<open>n\<close> days a stretch of time takes.\<close>

definition window_count :: "int \<Rightarrow> int \<Rightarrow> nat" where
  "window_count n length_of = nat ((length_of + days n - 1) div days n)"

lemma window_count_step:
  assumes "0 < n" and "cursor < end_at"
  shows "Suc (window_count n (end_at - chunk_end n end_at cursor)) = window_count n (end_at - cursor)"
proof -
  define d where "d = days n"
  have d: "0 < d" using assms(1) by (simp add: d_def days_def)
  show ?thesis
  proof (cases "cursor + d \<le> end_at")
    case True
    have "(end_at - cursor + d - 1) div d = (end_at - cursor - 1) div d + 1"
      using d by (metis add.commute add_diff_eq div_add_self2 less_irrefl)
    moreover have "0 \<le> (end_at - cursor - 1) div d" using d assms(2) by (simp add: pos_imp_zdiv_nonneg_iff)
    ultimately show ?thesis using True
      by (simp add: window_count_def chunk_end_def d_def [symmetric] algebra_simps nat_add_distrib)
  next
    case False
    then have "(end_at - cursor + d - 1) div d = 1" using d assms(2) by (intro int_div_pos_eq [of _ _ _ "end_at - cursor - 1"]) auto
    then show ?thesis using False d by (simp add: window_count_def chunk_end_def d_def [symmetric])
  qed
qed

text \<open>A piece of code that sends at most \<open>k\<close> requests and does nothing else to the state.\<close>

definition only_asks :: "nat \<Rightarrow> hist_state \<Rightarrow> hist_state \<Rightarrow> bool" where
  "only_asks k s t \<longleftrightarrow> (\<exists>j \<le> k. t = s\<lparr>hx_requests := hx_requests s + j\<rparr>)"

lemma only_asks_none [simp]: "only_asks k s s"
  by (auto simp: only_asks_def intro: exI [of _ 0])

lemma only_asks_one: "only_asks (Suc k) s (s\<lparr>hx_requests := Suc (hx_requests s)\<rparr>)"
  by (auto simp: only_asks_def intro: exI [of _ 1])

lemma only_asks_more: "only_asks k (s\<lparr>hx_requests := Suc (hx_requests s)\<rparr>) t \<Longrightarrow> only_asks (Suc k) s t"
  unfolding only_asks_def by (elim exE conjE, rename_tac j, rule_tac x = "Suc j" in exI) simp

lemma only_asks_rows: "only_asks k s t \<Longrightarrow> hx_rows t = hx_rows s \<and> hx_requests t \<le> hx_requests s + k"
  by (auto simp: only_asks_def)

lemma ask_run: "abind (ask env req) f s =
    (case hv_web env (hx_requests s) req of
       Payload v \<Rightarrow> f v (s\<lparr>hx_requests := Suc (hx_requests s)\<rparr>)
     | Http_status code \<Rightarrow> (Inl (HTTPStatusError code), s\<lparr>hx_requests := Suc (hx_requests s)\<rparr>)
     | Failed name \<Rightarrow> (Inl (ServiceError name), s\<lparr>hx_requests := Suc (hx_requests s)\<rparr>))"
  by (simp add: abind_def ask_def split: web_reply.split)

lemma lift_run: "abind (alift r) f s = (case r of Inl e \<Rightarrow> (Inl e, s) | Inr x \<Rightarrow> f x s)"
  by (simp add: abind_def alift_def split: sum.split)

lemma coinbase_asks: "only_asks (window_count 60 (end_at - cursor)) s (snd (coinbase_windows env asset end_at cursor rows s))"
proof (induction env asset end_at cursor rows s rule: coinbase_windows.induct)
  case (1 env asset end_at cursor rows s)
  show ?case
  proof (cases "cursor < end_at")
    case True
    let ?s = "s\<lparr>hx_requests := Suc (hx_requests s)\<rparr>"
    let ?w = "chunk_end request_chunk_days end_at cursor"
    let ?ask = "abind (ask env (Coinbase_candles (''/products/'' @ asset @ ''-USD/candles'') candle_seconds cursor ?w))
        (\<lambda>v. alift (parse_candles env asset v)) s"
    note step = window_count_step [OF _ True, of 60]
    consider (bad) e where "?ask = (Inl e, ?s)" | (ok) found where "?ask = (Inr found, ?s)"
      by (cases "fst ?ask") (auto simp: ask_run alift_def split: web_reply.splits)
    then show ?thesis
    proof cases
      case bad
      then show ?thesis using True only_asks_one [of "window_count 60 (end_at - ?w)" s] step
        by (simp add: coinbase_windows.simps [of env asset end_at cursor rows s] request_chunk_days_def)
    next
      case ok
      then have "only_asks (window_count 60 (end_at - ?w)) ?s (snd (coinbase_windows env asset end_at ?w (rows @ found) ?s))"
        using "1.IH" [OF True _ refl] by (metis ok)
      then have "only_asks (Suc (window_count 60 (end_at - ?w))) s (snd (coinbase_windows env asset end_at ?w (rows @ found) ?s))"
        by (rule only_asks_more)
      then show ?thesis using True ok step
        by (simp add: coinbase_windows.simps [of env asset end_at cursor rows s] request_chunk_days_def)
    qed
  qed (simp add: coinbase_windows.simps [of env asset end_at cursor rows s])
qed

lemma bybit_asks: "only_asks (window_count 60 (end_at - cursor)) s (snd (bybit_windows env asset end_at cursor rows s))"
proof (induction env asset end_at cursor rows arbitrary: s rule: bybit_windows.induct)
  case (1 env asset end_at cursor rows)
  show ?case
  proof (cases "cursor < end_at")
    case True
    let ?w = "chunk_end 60 end_at cursor"
    have "only_asks (Suc (window_count 60 (end_at - ?w))) s
        (snd (bybit_windows env asset end_at ?w (rows @ r) (s\<lparr>hx_requests := Suc (hx_requests s)\<rparr>)))" for r
      using "1.IH" [OF True] by (intro only_asks_more) (simp add: request_chunk_days_def)
    then show ?thesis using True window_count_step [OF _ True, of 60] only_asks_one [of "window_count 60 (end_at - ?w)" s]
      by (auto simp: bybit_windows.simps [of env asset end_at cursor rows] ask_run lift_run request_chunk_days_def
          split: web_reply.split sum.split)
  qed (simp add: bybit_windows.simps [of env asset end_at cursor rows] alift_def)
qed

lemma coingecko_asks:
  "only_asks (window_count 89 (end_at - cursor)) s (snd (coingecko_windows env asset coin start end_at cursor rows s))"
proof (induction env asset coin start end_at cursor rows arbitrary: s rule: coingecko_windows.induct)
  case (1 env asset coin start end_at cursor rows)
  show ?case
  proof (cases "cursor < end_at")
    case True
    let ?w = "chunk_end 89 end_at cursor"
    have "only_asks (Suc (window_count 89 (end_at - ?w))) s
        (snd (coingecko_windows env asset coin start end_at ?w (keep_by_time (in_window start end_at r) rows)
          (s\<lparr>hx_requests := Suc (hx_requests s)\<rparr>)))" for r
      using "1.IH" [OF True] by (intro only_asks_more) (simp add: coingecko_chunk_days_def)
    then show ?thesis using True window_count_step [OF _ True, of 89] only_asks_one [of "window_count 89 (end_at - ?w)" s]
      by (auto simp: coingecko_windows.simps [of env asset coin start end_at cursor rows] ask_run lift_run coingecko_chunk_days_def
          split: web_reply.split sum.split)
  qed (simp add: coingecko_windows.simps [of env asset coin start end_at cursor rows] alift_def)
qed

lemma okx_asks: "only_asks pages s (snd (okx_pages env asset start end_at pages cursor rows s))"
proof (induction pages arbitrary: cursor rows s)
  case 0
  then show ?case by (simp add: alift_def)
next
  case (Suc pages)
  let ?s = "s\<lparr>hx_requests := Suc (hx_requests s)\<rparr>"
  have more: "only_asks (Suc pages) s (snd (okx_pages env asset start end_at pages c r ?s))" for c r
    by (rule only_asks_more [OF Suc.IH])
  have stop: "only_asks (Suc pages) s (snd (alift r ?s))" for r :: "(time \<times> market_quote) list result"
    using only_asks_one by (simp add: alift_def)
  show ?case
    using more stop only_asks_one [of pages s]
    by (simp add: ask_run lift_run Let_def alift_def [of "Inr rows", THEN fun_cong, of s] split: web_reply.split sum.split list.split)
qed

section \<open>What is fetched\<close>

lemma historical_quote_fields [simp]:
  "mq_venue (historical_quote venue asset symbol currency key source p) = venue"
  "mq_asset (historical_quote venue asset symbol currency key source p) = upper asset"
  "mq_market_kind (historical_quote venue asset symbol currency key source p) = SPOT"
  "mq_mid (historical_quote venue asset symbol currency key source p) = snd p"
  "mq_observed_at (historical_quote venue asset symbol currency key source p) = fst p"
  by (simp_all add: historical_quote_def)

definition about :: "string \<Rightarrow> market_quote list \<Rightarrow> bool" where
  "about asset qs \<longleftrightarrow> (\<forall>q \<in> set qs. mq_asset q = upper asset)"

lemma about_simps [simp]:
  "about asset []" "about asset (xs @ ys) \<longleftrightarrow> about asset xs \<and> about asset ys" "about asset (quotes_by_time qs) = about asset qs"
  by (auto simp: about_def quotes_by_time_def)

lemma row_about:
  "coinbase_row env asset item = Some q \<Longrightarrow> mq_asset q = upper asset"
  "okx_row env asset item = Some q \<Longrightarrow> mq_asset q = upper asset"
  "bybit_row env asset item = Some q \<Longrightarrow> mq_asset q = upper asset"
  by (auto simp: coinbase_row_def okx_row_def bybit_row_def split: json.splits if_splits)

lemma rows_parsed:
  assumes "\<And>item q. row item = Some q \<Longrightarrow> mq_asset q = upper asset"
  shows "about asset (some_values (map row items))"
  using assms by (auto simp: about_def dest: sym)

lemma rows_about_asset:
  "about asset (some_values (map (coinbase_row env asset) items))"
  "about asset (some_values (map (okx_row env asset) items))"
  "about asset (some_values (map (bybit_row env asset) items))"
  by (rule rows_parsed, erule row_about)+

lemma parsed_about:
  "parse_candles env asset v = Inr qs \<Longrightarrow> about asset qs"
  "parse_okx_candles env asset v = Inr qs \<Longrightarrow> about asset qs"
  "parse_bybit_candles env asset v = Inr qs \<Longrightarrow> about asset qs"
  "parse_coingecko_prices env asset coin v = Inr qs \<Longrightarrow> about asset qs"
proof -
  show "parse_candles env asset v = Inr qs \<Longrightarrow> about asset qs"
    by (auto simp: parse_candles_def rows_about_asset split: json.splits)
  show "parse_okx_candles env asset v = Inr qs \<Longrightarrow> about asset qs"
    by (auto simp: parse_okx_candles_def rows_about_asset split: json.splits if_splits)
  show "parse_bybit_candles env asset v = Inr qs \<Longrightarrow> about asset qs"
    by (auto simp: parse_bybit_candles_def rows_about_asset split: json.splits if_splits option.splits)
  show "about asset qs" if run: "parse_coingecko_prices env asset coin v = Inr qs"
  proof -
    obtain items rows where r: "rmap (coingecko_row asset coin) (price_buckets env items) = Inr rows" "qs = quotes_by_time rows"
      using run by (auto simp: parse_coingecko_prices_def split: json.splits)
    have "mq_asset q = upper asset" if "q \<in> set rows" for q
      using r(1) that by (rule rmap_set) (auto simp: coingecko_row_def split: prod.splits)
    then show ?thesis by (simp add: r(2), simp add: about_def)
  qed
qed

lemma coinbase_about:
  "about asset rows \<Longrightarrow> about asset (fst (fst (coinbase_windows env asset end_at cursor rows s)))"
proof (induction env asset end_at cursor rows s rule: coinbase_windows.induct)
  case (1 env asset end_at cursor rows s)
  let ?ask = "abind (ask env (Coinbase_candles (''/products/'' @ asset @ ''-USD/candles'') candle_seconds cursor
      (chunk_end request_chunk_days end_at cursor))) (\<lambda>v. alift (parse_candles env asset v)) s"
  consider "\<not> cursor < end_at" | e t where "cursor < end_at" "?ask = (Inl e, t)" | found t where "cursor < end_at" "?ask = (Inr found, t)"
    by (metis surj_pair sum.exhaust)
  then show ?case
  proof cases
    case 3
    then have "about asset found" by (auto simp: ask_run alift_def parsed_about(1) split: web_reply.splits)
    then have "about asset (fst (fst (coinbase_windows env asset end_at (chunk_end request_chunk_days end_at cursor) (rows @ found) t)))"
      using "1.IH" [OF 3(1) 3(2) [symmetric] refl] "1.prems" by simp
    then show ?thesis using 3 by (simp add: coinbase_windows.simps [of env asset end_at cursor rows s])
  qed (use "1.prems" in \<open>simp_all add: coinbase_windows.simps [of env asset end_at cursor rows s]\<close>)
qed

lemma bybit_about:
  "about asset rows \<Longrightarrow> bybit_windows env asset end_at cursor rows s = (Inr qs, t) \<Longrightarrow> about asset qs"
proof (induction env asset end_at cursor rows arbitrary: s rule: bybit_windows.induct)
  case (1 env asset end_at cursor rows)
  show ?case
  proof (cases "cursor < end_at")
    case True
    obtain v u found where "parse_bybit_candles env asset v = Inr found"
      and run: "bybit_windows env asset end_at (chunk_end request_chunk_days end_at cursor) (rows @ found) u = (Inr qs, t)"
      using "1.prems"(2) True
      by (auto simp: bybit_windows.simps [of env asset end_at cursor rows] abind_Inr alift_Inr)
    then have "about asset (rows @ found)" using "1.prems"(1) parsed_about(3) by simp
    then show ?thesis by (rule "1.IH" [OF True]) (rule run)
  next
    case False
    then show ?thesis using "1.prems" by (simp add: bybit_windows.simps [of env asset end_at cursor rows] alift_Inr)
  qed
qed

lemma keep_by_time_values: "snd ` set (keep_by_time qs rows) \<subseteq> set qs \<union> snd ` set rows"
proof (induction qs arbitrary: rows)
  case (Cons q qs)
  have "snd ` set (AList.update (mq_observed_at q) q rows) \<subseteq> insert q (snd ` set rows)"
    by (induction rows) auto
  moreover have "keep_by_time (q # qs) rows = keep_by_time qs (AList.update (mq_observed_at q) q rows)"
    by (simp add: keep_by_time_def)
  ultimately show ?case using Cons.IH [of "AList.update (mq_observed_at q) q rows"] by simp blast
qed (simp add: keep_by_time_def)

definition rows_about :: "string \<Rightarrow> (time \<times> market_quote) list \<Rightarrow> bool" where
  "rows_about asset rows \<longleftrightarrow> (\<forall>q \<in> snd ` set rows. mq_asset q = upper asset)"

lemma rows_about_Nil: "rows_about asset []"
  by (simp add: rows_about_def)

lemma about_map_snd: "about asset (map snd rows) \<longleftrightarrow> rows_about asset rows"
  by (simp add: rows_about_def about_def)

lemma keep_about: "about asset qs \<Longrightarrow> rows_about asset rows \<Longrightarrow> rows_about asset (keep_by_time qs rows)"
  using keep_by_time_values [of qs rows] unfolding rows_about_def about_def by blast

lemma in_window_about: "about asset qs \<Longrightarrow> about asset (in_window start end_at qs)"
  by (simp add: about_def in_window_def)

lemma coingecko_about:
  "rows_about asset rows \<Longrightarrow> coingecko_windows env asset coin start end_at cursor rows s = (Inr out, t) \<Longrightarrow> rows_about asset out"
proof (induction env asset coin start end_at cursor rows arbitrary: s rule: coingecko_windows.induct)
  case (1 env asset coin start end_at cursor rows)
  show ?case
  proof (cases "cursor < end_at")
    case True
    obtain v u found where "parse_coingecko_prices env asset coin v = Inr found"
        "coingecko_windows env asset coin start end_at (chunk_end coingecko_chunk_days end_at cursor)
           (keep_by_time (in_window start end_at found) rows) u = (Inr out, t)"
      using "1.prems"(2) True
      by (auto simp: coingecko_windows.simps [of env asset coin start end_at cursor rows] abind_Inr alift_Inr)
    then show ?thesis using "1.IH" [OF True] "1.prems"(1) keep_about in_window_about parsed_about(4) by metis
  next
    case False
    then show ?thesis using "1.prems" by (simp add: coingecko_windows.simps [of env asset coin start end_at cursor rows] alift_Inr)
  qed
qed

lemma okx_about:
  "rows_about asset rows \<Longrightarrow> okx_pages env asset start end_at pages cursor rows s = (Inr out, t) \<Longrightarrow> rows_about asset out"
proof (induction pages arbitrary: cursor rows s)
  case 0
  then show ?case by (simp add: alift_Inr)
next
  case (Suc pages)
  show ?case
  proof (cases "cursor \<le> to_ms start")
    case True
    then show ?thesis using Suc.prems by (simp add: alift_Inr)
  next
    case False
    then obtain v u found where found: "parse_okx_candles env asset v = Inr found"
        "(case in_window start end_at found of [] \<Rightarrow> alift (Inr rows)
           | q # qs \<Rightarrow>
               let rows' = keep_by_time (q # qs) rows;
                   oldest = to_ms (Min (mq_observed_at ` set (q # qs)))
               in if oldest \<ge> cursor then alift (Inr rows')
                  else if oldest \<le> to_ms start then alift (Inr rows')
                  else okx_pages env asset start end_at pages oldest rows') u = (Inr out, t)"
      using Suc.prems(2) by (auto simp: abind_Inr alift_Inr)
    show ?thesis
    proof (cases "in_window start end_at found")
      case Nil
      then show ?thesis using found(2) Suc.prems(1) by (simp add: alift_Inr)
    next
      case (Cons q qs)
      then have "about asset (q # qs)" using in_window_about [OF parsed_about(2) [OF found(1)], of start end_at] by simp
      then have "rows_about asset (keep_by_time (q # qs) rows)" using Suc.prems(1) by (rule keep_about)
      then show ?thesis using found(2) Suc.IH unfolding Cons list.case Let_def
        by (auto simp: alift_Inr simp del: set_simps split: if_splits)
    qed
  qed
qed

text \<open>Every provider delivers quotes of the asset, and sends a bounded number of requests.\<close>

definition provider_requests :: "provider \<Rightarrow> int \<Rightarrow> nat" where
  "provider_requests p length_of = (case p of Okx \<Rightarrow> okx_max_pages | Bybit \<Rightarrow> window_count 60 length_of
     | Coingecko \<Rightarrow> window_count 89 length_of)"

lemma fetched_about: "fetch_from p env asset start end_at s = (Inr qs, t) \<Longrightarrow> about asset qs"
  by (cases p)
    (auto simp: fetch_from_def fetch_okx_def fetch_bybit_def fetch_coingecko_def abind_Inr alift_Inr
      rows_about_Nil about_map_snd dest: bybit_about [rotated] okx_about [OF rows_about_Nil] coingecko_about [OF rows_about_Nil] split: option.splits)

lemma fetch_asks: "only_asks (provider_requests p (end_at - start)) s (snd (fetch_from p env asset start end_at s))"
proof (cases p)
  case Okx
  then show ?thesis using okx_asks [of okx_max_pages s env asset start end_at "to_ms end_at" "[]"]
    by (auto simp: fetch_from_def fetch_okx_def provider_requests_def abind_def alift_def split: prod.split sum.split)
next
  case Bybit
  then show ?thesis using bybit_asks by (simp add: fetch_from_def fetch_bybit_def provider_requests_def)
next
  case Coingecko
  have "only_asks (window_count 89 (end_at - start)) s (snd (coingecko_windows env asset coin start end_at start [] s))" for coin
    by (rule coingecko_asks)
  then show ?thesis using Coingecko
    by (auto simp: fetch_from_def fetch_coingecko_def provider_requests_def abind_def alift_def
        split: prod.split sum.split option.split) (metis snd_conv)+
qed

section \<open>The table\<close>

text \<open>Every row was made from a spot quote of a known provider, and no identifier occurs twice.\<close>

definition table_ok :: "history_env \<Rightarrow> hist_row list \<Rightarrow> bool" where
  "table_ok env rows \<longleftrightarrow> distinct (map hr_quote_id rows)
     \<and> (\<forall>r \<in> set rows. historical_spot (hr_payload r) \<and> r = historical_row env (hr_payload r))"

lemma historical_row_fields [simp]:
  "hr_quote_id (historical_row env q) = quote_id env q" "hr_venue (historical_row env q) = mq_venue q"
  "hr_asset (historical_row env q) = upper (mq_asset q)" "hr_observed_at (historical_row env q) = mq_observed_at q"
  "hr_payload (historical_row env q) = q"
  by (simp_all add: historical_row_def)

lemma insert_ignoring_grows:
  "\<exists>added. insert_ignoring rs rows = rows @ added \<and> set added \<subseteq> set rs"
proof (induction rs arbitrary: rows)
  case (Cons r rs)
  show ?case
  proof (cases "hr_quote_id r \<in> hr_quote_id ` set rows")
    case True
    then show ?thesis using Cons.IH [of rows] by auto
  next
    case False
    obtain added where "insert_ignoring rs (rows @ [r]) = (rows @ [r]) @ added" "set added \<subseteq> set rs"
      using Cons.IH by blast
    then show ?thesis using False by (intro exI [of _ "r # added"]) auto
  qed
qed simp

lemma insert_ignoring_distinct:
  "distinct (map hr_quote_id rows) \<Longrightarrow> distinct (map hr_quote_id (insert_ignoring rs rows))"
  by (induction rs arbitrary: rows) auto

lemma insert_ignoring_holds:
  "hr_quote_id ` set (insert_ignoring rs rows) = hr_quote_id ` set rows \<union> hr_quote_id ` set rs"
  by (induction rs arbitrary: rows) auto

text \<open>
  What a piece of the backfill may do to the state: append rows about the given assets to a table
  that stays valid, and send at most \<open>k\<close> requests.
\<close>

definition fills :: "history_env \<Rightarrow> string set \<Rightarrow> nat \<Rightarrow> hist_state \<Rightarrow> hist_state \<Rightarrow> bool" where
  "fills env assets k s t \<longleftrightarrow> (\<exists>added. hx_rows t = hx_rows s @ added \<and> hr_asset ` set added \<subseteq> assets)
     \<and> (table_ok env (hx_rows s) \<longrightarrow> table_ok env (hx_rows t)) \<and> hx_requests t \<le> hx_requests s + k"

lemma fills_refl [simp]: "fills env A k s s"
  by (auto simp: fills_def)

lemma fills_trans: "fills env A j s t \<Longrightarrow> fills env B k t u \<Longrightarrow> fills env (A \<union> B) (j + k) s u"
  unfolding fills_def by (elim conjE exE, intro conjI) (auto simp: image_Un)

lemma fills_mono: "fills env A j s t \<Longrightarrow> A \<subseteq> B \<Longrightarrow> j \<le> k \<Longrightarrow> fills env B k s t"
  unfolding fills_def by (auto intro: order_trans)

lemma fills_asks: "only_asks k s t \<Longrightarrow> fills env A k s t"
  using only_asks_rows by (auto simp: fills_def)

lemma store_rows_fills:
  assumes "\<forall>r \<in> set rows. hr_asset r \<in> A \<and> historical_spot (hr_payload r) \<and> r = historical_row env (hr_payload r)"
  shows "fills env A 0 s (snd (store_rows backend rows s))"
proof (cases "backend = Other_backend")
  case True
  then show ?thesis using assms
    by (auto simp: store_rows_def fills_def Let_def table_ok_def image_iff)
next
  case False
  obtain added where added: "insert_ignoring rows (hx_rows s) = hx_rows s @ added" "set added \<subseteq> set rows"
    using insert_ignoring_grows by blast
  have run: "hx_rows (snd (store_rows backend rows s)) = hx_rows s @ added
      \<and> hx_requests (snd (store_rows backend rows s)) = hx_requests s"
    using False added(1) by (cases backend) (simp_all add: store_rows_def Let_def)
  have "table_ok env (hx_rows s @ added)" if "table_ok env (hx_rows s)"
  proof -
    have "distinct (map hr_quote_id (hx_rows s @ added))"
      using insert_ignoring_distinct [of "hx_rows s" rows] that unfolding added(1) table_ok_def by blast
    then show ?thesis using that added(2) assms by (auto simp: table_ok_def)
  qed
  then show ?thesis using run added(2) assms by (auto simp: fills_def)
qed

lemma record_quotes_fills:
  assumes "about asset qs"
  shows "fills env {upper asset} 0 s (snd (record_quotes env backend qs s))"
proof (cases "map (historical_row env) (filter historical_spot qs) = []")
  case True
  then show ?thesis by (simp add: record_quotes_def Let_def alift_def)
next
  case False
  have "fills env {upper asset} 0 s (snd (store_rows backend (map (historical_row env) (filter historical_spot qs)) s))"
    by (rule store_rows_fills) (use assms in \<open>auto simp: about_def\<close>)
  then show ?thesis using False by (simp add: record_quotes_def Let_def)
qed

lemma record_quotes_defined: "backend \<noteq> Other_backend \<Longrightarrow> \<exists>k t. record_quotes env backend qs s = (Inr k, t)"
  by (cases backend) (auto simp: record_quotes_def store_rows_def Let_def alift_def)

section \<open>Coverage of an asset\<close>

definition asset_code :: "string \<Rightarrow> bool" where
  "asset_code a \<longleftrightarrow> upper a = a \<and> strip a \<noteq> []"

lemma strip_Nil: "strip s = [] \<longleftrightarrow> (\<forall>c \<in> set s. is_space c)"
proof -
  have "dropWhile is_space (rev (dropWhile is_space s)) = [] \<longleftrightarrow> (\<forall>c \<in> set (dropWhile is_space s). is_space c)"
    by (simp add: dropWhile_eq_Nil_conv)
  also have "\<dots> \<longleftrightarrow> (\<forall>c \<in> set s. is_space c)"
    by (metis (no_types) dropWhile_eq_Nil_conv hd_dropWhile list.set_sel(1) set_dropWhileD empty_iff list.set(1))
  finally show ?thesis by (simp add: strip_def)
qed

lemma is_space_upper [simp]: "is_space (char_upper c) = is_space c"
  by (auto simp: is_space_def char_upper_def Let_def of_char_of)

lemma asset_codes_code: "a \<in> set (asset_codes assets) \<Longrightarrow> asset_code a"
  by (auto simp: asset_codes_def asset_code_def strip_Nil upper_def)

lemma asset_codes_single: "asset_code a \<Longrightarrow> asset_codes [a] = [a]"
  by (simp add: asset_codes_def asset_code_def sorted_unique_def)

lemma coverage_of_frame:
  assumes "asset_code a" and "a \<notin> hr_asset ` set added"
  shows "coverage_of (rows @ added) a start end_at = coverage_of rows a start end_at"
proof -
  have "selected_rows (rows @ added) [a] start end_at = selected_rows rows [a] start end_at"
    using assms by (auto simp: selected_rows_def asset_codes_single filter_empty_conv)
  then have "provider_coverage_rows (rows @ added) [a] start end_at = provider_coverage_rows rows [a] start end_at"
    by (simp add: provider_coverage_rows_def)
  then show ?thesis by (simp add: coverage_of_def preferred_venue_def preferred_venue_by_asset_def cong: option.case_cong)
qed

lemma covered_frame:
  assumes "fills env A k s t" and "asset_code a" and "a \<notin> A"
  shows "covered start end_at expected a t = covered start end_at expected a s"
proof -
  obtain added where "hx_rows t = hx_rows s @ added" "hr_asset ` set added \<subseteq> A" using assms(1) by (auto simp: fills_def)
  moreover have "a \<notin> hr_asset ` set added" using calculation(2) assms(3) by auto
  ultimately show ?thesis by (simp add: covered_def coverage_of_frame [OF assms(2)])
qed

section \<open>The cascade\<close>

definition asset_requests :: "int \<Rightarrow> nat" where
  "asset_requests length_of = window_count 60 length_of + (okx_max_pages + (window_count 60 length_of + window_count 89 length_of))"

lemma try_provider_fills:
  assumes "upper asset = asset"
  shows "fills env {asset} (provider_requests p (end_at - start)) (snd a) (snd (try_provider env backend start end_at expected asset p a))
    \<and> bk_errors (snd (snd (fst (try_provider env backend start end_at expected asset p a)))) = bk_errors (snd (snd (fst a)))"
proof -
  obtain attempts enough b s where a: "a = ((attempts, enough, b), s)" by (metis surj_pair)
  obtain r t where f: "fetch_from p env asset start end_at s = (r, t)" by (metis surj_pair)
  have asks: "fills env {asset} (provider_requests p (end_at - start)) s t"
    using fetch_asks [of p end_at start s env asset] f by (simp add: fills_asks)
  have both: "fills env {asset} (provider_requests p (end_at - start)) s (snd (record_quotes env backend rows t))" if "r = Inr rows" for rows
    using fills_trans [OF asks record_quotes_fills [of asset rows env t backend]] fetched_about [of p env asset start end_at s rows t] f that assms
    by simp
  show ?thesis
    using asks both by (auto simp: try_provider_def a f Let_def split: sum.split prod.split)
qed

lemma cascade_fills:
  assumes "upper asset = asset"
  shows "fills env {asset} (\<Sum>p\<leftarrow>ps. provider_requests p (end_at - start)) (snd a)
      (snd (fold (try_provider env backend start end_at expected asset) ps a))
    \<and> bk_errors (snd (snd (fst (fold (try_provider env backend start end_at expected asset) ps a)))) = bk_errors (snd (snd (fst a)))"
proof (induction ps arbitrary: a)
  case (Cons p ps)
  note one = try_provider_fills [OF assms, of env p end_at start a backend expected]
  note rest = Cons.IH [of "try_provider env backend start end_at expected asset p a"]
  show ?case using fills_trans [OF conjunct1 [OF one] conjunct1 [OF rest]] one rest by simp
qed simp

lemma after_coinbase_ok:
  assumes "upper asset = asset"
  obtains reason b' t where "after_coinbase env backend start end_at expected asset attempts b s = (Inr b', t)"
    and "fills env {asset} (okx_max_pages + (window_count 60 (end_at - start) + window_count 89 (end_at - start))) s t"
    and "bk_errors b' = bk_errors b @ (if covered start end_at expected asset t then [] else [asset @ '':'' @ reason])"
proof -
  let ?a = "((attempts, covered start end_at expected asset s, b), s)"
  obtain tried enough r t where run: "fold (try_provider env backend start end_at expected asset) [Okx, Bybit, Coingecko] ?a
      = ((tried, enough, r), t)" by (metis surj_pair)
  let ?fold = "fold (try_provider env backend start end_at expected asset) [Okx, Bybit, Coingecko] ?a"
  have "fills env {asset} (\<Sum>p\<leftarrow>[Okx, Bybit, Coingecko]. provider_requests p (end_at - start)) (snd ?a) (snd ?fold)
      \<and> bk_errors (snd (snd (fst ?fold))) = bk_errors (snd (snd (fst ?a)))"
    by (rule cascade_fills [OF assms])
  then have c: "fills env {asset} (\<Sum>p\<leftarrow>[Okx, Bybit, Coingecko]. provider_requests p (end_at - start)) s t
      \<and> bk_errors r = bk_errors b"
    unfolding run by (simp only: fst_conv snd_conv)
  have f: "fills env {asset} (okx_max_pages + (window_count 60 (end_at - start) + window_count 89 (end_at - start))) s t"
    using c by (simp add: provider_requests_def)
  let ?b = "r\<lparr>bk_diagnostics := AList.update asset tried (bk_diagnostics r)\<rparr>"
  have "after_coinbase env backend start end_at expected asset attempts b s = (Inr (if covered start end_at expected asset t then ?b
      else ?b\<lparr>bk_errors := bk_errors ?b @ [asset @ '':''
        @ gap_reason (coverage_of (hx_rows t) asset (Some start) (Some end_at)) tried start end_at]\<rparr>), t)"
    unfolding after_coinbase_def run by (simp add: Let_def)
  then show thesis
    by (rule that [OF _ f, of _ "gap_reason (coverage_of (hx_rows t) asset (Some start) (Some end_at)) tried start end_at"])
      (use c in simp)
qed

lemma backfill_asset_ok:
  assumes "upper asset = asset" and "backend \<noteq> Other_backend"
  obtains reason b' t where "backfill_asset env backend start end_at expected asset b s = (Inr b', t)"
    and "fills env {asset} (asset_requests (end_at - start)) s t"
    and "bk_errors b' = bk_errors b @ (if covered start end_at expected asset t then [] else [asset @ '':'' @ reason])"
    and "covered start end_at expected asset s \<Longrightarrow> t = s"
proof (cases "covered start end_at expected asset s")
  case True
  show thesis
    by (rule that [of b s "[]"]) (use True in \<open>simp_all add: backfill_asset_def\<close>)
next
  case False
  obtain rows label t where f: "fetch_coinbase env asset start end_at s = ((rows, label), t)" by (metis surj_pair)
  let ?failed = "case label of None \<Rightarrow> [] | Some l \<Rightarrow> if l = [] then [] else [''Coinbase:'' @ l]"
  have asks: "fills env {asset} (window_count 60 (end_at - start)) s t"
    using coinbase_asks [of end_at start s env asset "[]"] f by (simp add: fetch_coinbase_def fills_asks)
  have about: "about asset rows"
    using coinbase_about [of asset "[]" env end_at start s] f by (simp add: fetch_coinbase_def)
  obtain attempts b0 u where u: "fills env {asset} (window_count 60 (end_at - start)) s u" "bk_errors b0 = bk_errors b"
      "backfill_asset env backend start end_at expected asset b s = after_coinbase env backend start end_at expected asset attempts b0 u"
  proof (cases "rows = []")
    case True
    then show thesis using that [OF asks, of b ?failed] False f by (simp add: backfill_asset_def Let_def)
  next
    case rows: False
    obtain k u where r: "record_quotes env backend rows t = (Inr k, u)" using record_quotes_defined [OF assms(2)] by blast
    have "fills env {asset} (window_count 60 (end_at - start)) s u"
      using fills_trans [OF asks record_quotes_fills [OF about, of env t backend]] r assms(1) by simp
    then show thesis using that [of u "b\<lparr>bk_stored := bk_stored b + k, bk_fetched := bk_fetched b @ [asset]\<rparr>"
          "rows_label ''Coinbase'' rows # ?failed"] False f rows r by (simp add: backfill_asset_def Let_def)
  qed
  obtain reason b' v where v: "after_coinbase env backend start end_at expected asset attempts b0 u = (Inr b', v)"
      "fills env {asset} (okx_max_pages + (window_count 60 (end_at - start) + window_count 89 (end_at - start))) u v"
      "bk_errors b' = bk_errors b0 @ (if covered start end_at expected asset v then [] else [asset @ '':'' @ reason])"
    by (rule after_coinbase_ok [OF assms(1)])
  show thesis
    by (rule that [of b' v reason])
      (use v u fills_trans [OF u(1) v(2)] False in \<open>simp_all add: asset_requests_def\<close>)
qed

lemma backfill_assets_ok:
  assumes "backend \<noteq> Other_backend" and "distinct assets" and "\<forall>a \<in> set assets. asset_code a"
  obtains reason b' t where "afold (backfill_asset env backend start end_at expected) assets b s = (Inr b', t)"
    and "fills env (set assets) (length assets * asset_requests (end_at - start)) s t"
    and "bk_errors b' = bk_errors b @ map (\<lambda>a. a @ '':'' @ reason a)
      (filter (\<lambda>a. \<not> covered start end_at expected a t) assets)"
    and "(\<forall>a \<in> set assets. covered start end_at expected a s) \<Longrightarrow> t = s"
proof -
  have "\<exists>reason b' t. afold (backfill_asset env backend start end_at expected) assets b s = (Inr b', t)
    \<and> fills env (set assets) (length assets * asset_requests (end_at - start)) s t
    \<and> bk_errors b' = bk_errors b @ map (\<lambda>a. a @ '':'' @ reason a)
      (filter (\<lambda>a. \<not> covered start end_at expected a t) assets)
    \<and> ((\<forall>a \<in> set assets. covered start end_at expected a s) \<longrightarrow> t = s)"
    using assms(2,3)
  proof (induction assets arbitrary: b s)
    case Nil
    then show ?case by (simp add: alift_def)
  next
    case (Cons a assets)
    have a: "upper a = a" "asset_code a" using Cons.prems(2) by (auto simp: asset_code_def)
    obtain r1 b1 u where one: "backfill_asset env backend start end_at expected a b s = (Inr b1, u)"
        "fills env {a} (asset_requests (end_at - start)) s u"
        "bk_errors b1 = bk_errors b @ (if covered start end_at expected a u then [] else [a @ '':'' @ r1])"
        "covered start end_at expected a s \<Longrightarrow> u = s"
      using backfill_asset_ok [OF a(1) assms(1)] by metis
    obtain reason b' t where rest: "afold (backfill_asset env backend start end_at expected) assets b1 u = (Inr b', t)"
        "fills env (set assets) (length assets * asset_requests (end_at - start)) u t"
        "bk_errors b' = bk_errors b1 @ map (\<lambda>a. a @ '':'' @ reason a) (filter (\<lambda>a. \<not> covered start end_at expected a t) assets)"
        "(\<forall>a \<in> set assets. covered start end_at expected a u) \<longrightarrow> t = u"
      using Cons.IH [of b1 u] Cons.prems by auto
    have same: "covered start end_at expected a t = covered start end_at expected a u"
      by (rule covered_frame [OF rest(2) a(2)]) (use Cons.prems(1) in simp)
    let ?reason = "reason(a := r1)"
    have "map (\<lambda>x. x @ '':'' @ ?reason x) (filter (\<lambda>x. \<not> covered start end_at expected x t) assets)
        = map (\<lambda>x. x @ '':'' @ reason x) (filter (\<lambda>x. \<not> covered start end_at expected x t) assets)"
      using Cons.prems(1) by (intro map_cong) auto
    then have "bk_errors b' = bk_errors b @ map (\<lambda>x. x @ '':'' @ ?reason x)
        (filter (\<lambda>x. \<not> covered start end_at expected x t) (a # assets))"
      using one(3) rest(3) same by simp
    moreover have "fills env (set (a # assets)) (length (a # assets) * asset_requests (end_at - start)) s t"
      using fills_trans [OF one(2) rest(2)] by simp
    moreover have "afold (backfill_asset env backend start end_at expected) (a # assets) b s = (Inr b', t)"
      using one(1) rest(1) by (simp add: abind_def)
    moreover have "(\<forall>x \<in> set (a # assets). covered start end_at expected x s) \<longrightarrow> t = s"
      using one(4) rest(4) by auto
    ultimately show ?case by (intro exI [of _ ?reason] exI [of _ b'] exI [of _ t] conjI)
  qed
  then show thesis by (elim exE conjE) (rule that, assumption, assumption, assumption, blast)
qed

text \<open>Whatever the database, the table only grows and stays valid, also when the backfill raises.\<close>

lemma backfill_asset_keeps:
  assumes "upper asset = asset"
  shows "fills env {asset} (asset_requests (end_at - start)) s (snd (backfill_asset env backend start end_at expected asset b s))"
proof (cases "backend = Other_backend \<and> \<not> covered start end_at expected asset s")
  case False
  then show ?thesis
  proof (cases "covered start end_at expected asset s")
    case True
    then show ?thesis by (simp add: backfill_asset_def)
  next
    case not: False
    then have "backend \<noteq> Other_backend" using False by simp
    from backfill_asset_ok [OF assms this, of env start end_at expected b s]
    show ?thesis by (metis snd_conv)
  qed
next
  case True
  obtain rows label t where f: "fetch_coinbase env asset start end_at s = ((rows, label), t)" by (metis surj_pair)
  let ?failed = "case label of None \<Rightarrow> [] | Some l \<Rightarrow> if l = [] then [] else [''Coinbase:'' @ l]"
  have asks: "fills env {asset} (window_count 60 (end_at - start)) s t"
    using coinbase_asks [of end_at start s env asset "[]"] f by (simp add: fetch_coinbase_def fills_asks)
  have about: "about asset rows"
    using coinbase_about [of asset "[]" env end_at start s] f by (simp add: fetch_coinbase_def)
  have rest: "fills env {asset} (asset_requests (end_at - start)) s (snd (after_coinbase env backend start end_at expected asset attempts b0 u))"
    if "fills env {asset} (window_count 60 (end_at - start)) s u" for attempts b0 u
    using after_coinbase_ok [OF assms, of env backend start end_at expected attempts b0 u] fills_trans [OF that]
    unfolding asset_requests_def by (metis insert_absorb2 insert_is_Un snd_conv)
  have recorded: "fills env {asset} (window_count 60 (end_at - start)) s (snd (record_quotes env backend rows t))"
    using fills_trans [OF asks record_quotes_fills [OF about, of env t backend]] assms by simp
  then have "fills env {asset} (asset_requests (end_at - start)) s (snd (record_quotes env backend rows t))"
    by (rule fills_mono) (simp_all add: asset_requests_def)
  then show ?thesis using True rest [OF asks] rest [OF recorded] f
    by (auto simp: backfill_asset_def Let_def split: sum.split prod.split)
qed

lemma window_count_days:
  assumes "0 < k"
  shows "window_count k (days m) = nat ((m + k - 1) div k)"
proof -
  define d :: int where "d = 86400000000"
  have "(m * d + k * d - 1) div (k * d) = (m * d + k * d - 1) div d div k"
    using zdiv_zmult2_eq [of k "m * d + k * d - 1" d] assms by (simp add: mult.commute)
  moreover have "(m * d + k * d - 1) div d = m + k - 1"
  proof -
    have "m * d + k * d - 1 = (d - 1) + (m + k - 1) * d" by (simp add: algebra_simps)
    moreover have "((d - 1) + (m + k - 1) * d) div d = (m + k - 1) + (d - 1) div d"
      by (rule div_mult_self1) (simp add: d_def)
    ultimately show ?thesis by (simp add: d_def)
  qed
  ultimately show ?thesis by (simp add: window_count_def days_def d_def)
qed

lemma backfill_assets_keep:
  assumes "\<forall>a \<in> set assets. asset_code a"
  shows "fills env (set assets) (length assets * asset_requests (end_at - start)) s
    (snd (afold (backfill_asset env backend start end_at expected) assets b s))"
  using assms
proof (induction assets arbitrary: b s)
  case (Cons a xs)
  have step: "fills env {a} (asset_requests (end_at - start)) s (snd (backfill_asset env backend start end_at expected a b s))"
    by (rule backfill_asset_keeps) (use Cons.prems in \<open>simp add: asset_code_def\<close>)
  obtain r t where run: "backfill_asset env backend start end_at expected a b s = (r, t)" by (metis surj_pair)
  show ?case
  proof (cases r)
    case (Inl e)
    have "fills env (set (a # xs)) (length (a # xs) * asset_requests (end_at - start)) s t"
      by (rule fills_mono [OF step [unfolded run snd_conv]]) simp_all
    then show ?thesis using run Inl by (simp add: abind_def)
  next
    case (Inr c)
    have "fills env (set xs) (length xs * asset_requests (end_at - start)) t
        (snd (afold (backfill_asset env backend start end_at expected) xs c t))"
      using Cons.IH Cons.prems by simp
    from fills_trans [OF step [unfolded run snd_conv] this] show ?thesis using run Inr by (simp add: abind_def)
  qed
qed (simp add: alift_def)

lemma ensure_backfilled_keeps:
  "fills env (set (asset_codes assets)) (length (asset_codes assets) * asset_requests (days (backfill_span n))) s
     (snd (ensure_backfilled env backend n assets now s))"
proof -
  let ?end_at = "utc_day_start now" and ?start = "utc_day_start now - days (backfill_span n)"
  have "fills env (set (asset_codes assets)) (length (asset_codes assets) * asset_requests (?end_at - ?start)) s
      (snd (afold (backfill_asset env backend ?start ?end_at (backfill_span n * (86400 div candle_seconds))) (asset_codes assets)
        \<lparr>bk_stored = 0, bk_fetched = [], bk_errors = [], bk_diagnostics = []\<rparr> s))"
    by (rule backfill_assets_keep) (simp add: asset_codes_code)
  then show ?thesis
    by (auto simp: ensure_backfilled_def Let_def abind_def split: prod.split sum.split)
qed

section \<open>CoinGecko buckets\<close>

lemma map_of_update: "map_of (AList.update k v al) = (map_of al)(k \<mapsto> v)"
  by (rule ext) (simp add: update_conv)

lemma bucket_step_map:
  "map_of (bucket_step p m) =
     (case map_of m (bucket_of (fst p)) of
        None \<Rightarrow> (map_of m)(bucket_of (fst p) \<mapsto> p)
      | Some c \<Rightarrow> if fst p < fst c then (map_of m)(bucket_of (fst p) \<mapsto> p) else map_of m)"
  by (simp add: bucket_step_def map_of_update split: option.split)

definition buckets_ok :: "(real \<times> real) list \<Rightarrow> (int \<times> real \<times> real) list \<Rightarrow> bool" where
  "buckets_ok ps m \<longleftrightarrow> distinct (map fst m) \<and> dom (map_of m) = (\<lambda>p. bucket_of (fst p)) ` set ps
     \<and> (\<forall>b p. map_of m b = Some p \<longrightarrow> p \<in> set ps \<and> bucket_of (fst p) = b
          \<and> (\<forall>x \<in> set ps. bucket_of (fst x) = b \<longrightarrow> fst p \<le> fst x))"

lemma bucket_step_ok:
  assumes "buckets_ok ps m"
  shows "buckets_ok (ps @ [p]) (bucket_step p m)"
proof -
  have "distinct (map fst (bucket_step p m))"
    using assms by (simp add: bucket_step_def buckets_ok_def distinct_update split: option.split)
  moreover have "dom (map_of (bucket_step p m)) = (\<lambda>p. bucket_of (fst p)) ` set (ps @ [p])"
    using assms by (auto simp: bucket_step_map buckets_ok_def split: option.split)
  moreover have "x \<in> set (ps @ [p]) \<and> bucket_of (fst x) = b \<and> (\<forall>y \<in> set (ps @ [p]). bucket_of (fst y) = b \<longrightarrow> fst x \<le> fst y)"
    if x: "map_of (bucket_step p m) b = Some x" for b x
  proof -
    have old: "y \<in> set ps \<and> bucket_of (fst y) = b \<and> (\<forall>z \<in> set ps. bucket_of (fst z) = b \<longrightarrow> fst y \<le> fst z)"
      if "map_of m b = Some y" for b y
      using assms that unfolding buckets_ok_def by blast
    have none: "b \<noteq> bucket_of (fst y)" if "map_of m b = None" "y \<in> set ps" for b y
      using assms that unfolding buckets_ok_def by (metis (mono_tags, lifting) domIff imageI)
    have step: "map_of m b = Some x \<and> (b = bucket_of (fst p) \<longrightarrow> \<not> fst p < fst x)
        \<or> x = p \<and> b = bucket_of (fst p) \<and> (\<forall>c. map_of m b = Some c \<longrightarrow> fst p < fst c)"
    proof (cases "b = bucket_of (fst p)")
      case True
      then show ?thesis using x by (cases "map_of m b") (simp_all add: bucket_step_map split: if_split_asm)
    next
      case False
      then show ?thesis using x
        by (cases "map_of m (bucket_of (fst p))") (simp_all add: bucket_step_map split: if_split_asm)
    qed
    then show ?thesis
    proof
      assume "map_of m b = Some x \<and> (b = bucket_of (fst p) \<longrightarrow> \<not> fst p < fst x)"
      then show ?thesis using old [of b x] by auto
    next
      assume p: "x = p \<and> b = bucket_of (fst p) \<and> (\<forall>c. map_of m b = Some c \<longrightarrow> fst p < fst c)"
      have "fst p \<le> fst y" if y: "y \<in> set ps" "bucket_of (fst y) = b" for y
      proof (cases "map_of m b")
        case None
        then show ?thesis using none [OF None y(1)] y(2) by simp
      next
        case (Some c)
        have "fst p < fst c" using p Some by blast
        moreover have "fst c \<le> fst y" using old [OF Some] y by blast
        ultimately show ?thesis by linarith
      qed
      then show ?thesis using p by auto
    qed
  qed
  ultimately show ?thesis unfolding buckets_ok_def by blast
qed

lemma price_buckets_ok: "buckets_ok (some_values (map (price_point env) items)) (price_buckets env items)"
proof -
  have "buckets_ok ps (fold bucket_step ps [])" for ps
    by (induction ps rule: rev_induct) (simp add: buckets_ok_def, simp add: bucket_step_ok)
  then show ?thesis by (simp add: price_buckets_def)
qed

text \<open>The quotes of a reply are the earliest points of their six hours, each at its own time.\<close>

lemma coingecko_parsed:
  assumes "parse_coingecko_prices env asset coin (JObject obj) = Inr qs"
  obtains items where "json_get obj ''prices'' = JList items"
    and "\<forall>q \<in> set qs. \<exists>p \<in> set (some_values (map (price_point env) items)).
        utc_fromtimestamp (fst p / 1000) = Inr (mq_observed_at q) \<and> mq_mid q = snd p
      \<and> (\<forall>x \<in> set (some_values (map (price_point env) items)). bucket_of (fst x) = bucket_of (fst p) \<longrightarrow> fst p \<le> fst x)"
    and "length qs = card ((\<lambda>p. bucket_of (fst p)) ` set (some_values (map (price_point env) items)))"
    and "sorted (map mq_observed_at qs)"
proof -
  obtain items rows where r: "json_get obj ''prices'' = JList items"
      "rmap (coingecko_row asset coin) (price_buckets env items) = Inr rows" "qs = quotes_by_time rows"
    using assms by (auto simp: parse_coingecko_prices_def split: json.splits)
  let ?ps = "some_values (map (price_point env) items)"
  note ok = price_buckets_ok [of env items]
  have "\<exists>p \<in> set ?ps. utc_fromtimestamp (fst p / 1000) = Inr (mq_observed_at q) \<and> mq_mid q = snd p
      \<and> (\<forall>x \<in> set ?ps. bucket_of (fst x) = bucket_of (fst p) \<longrightarrow> fst p \<le> fst x)" if "q \<in> set qs" for q
  proof -
    have "q \<in> set rows" using that r(3) by (simp add: quotes_by_time_def)
    with r(2) obtain b p where b: "(b, p) \<in> set (price_buckets env items)" "coingecko_row asset coin (b, p) = Inr q"
      by (rule rmap_set) (metis surj_pair)
    then have "map_of (price_buckets env items) b = Some p" using ok by (simp add: buckets_ok_def)
    then have "p \<in> set ?ps \<and> bucket_of (fst p) = b \<and> (\<forall>x \<in> set ?ps. bucket_of (fst x) = b \<longrightarrow> fst p \<le> fst x)"
      using ok unfolding buckets_ok_def by blast
    moreover have "utc_fromtimestamp (fst p / 1000) = Inr (mq_observed_at q) \<and> mq_mid q = snd p"
      using b(2) by (auto simp: coingecko_row_def split: prod.splits)
    ultimately show ?thesis by blast
  qed
  moreover have "length qs = card ((\<lambda>p. bucket_of (fst p)) ` set ?ps)"
  proof -
    have "length qs = length (price_buckets env items)" using rmap_length [OF r(2)] r(3) by (simp add: quotes_by_time_def)
    also have "\<dots> = card (set (map fst (price_buckets env items)))"
      using ok distinct_card [of "map fst (price_buckets env items)"] by (simp add: buckets_ok_def)
    also have "set (map fst (price_buckets env items)) = (\<lambda>p. bucket_of (fst p)) ` set ?ps"
      using ok by (simp add: buckets_ok_def dom_map_of_conv_image_fst)
    finally show ?thesis .
  qed
  moreover have "sorted (map mq_observed_at qs)" by (simp add: r(3) quotes_by_time_def)
  ultimately show thesis using that r(1) by blast
qed

section \<open>The preferred provider\<close>

lemma tuple_less_trans: "tuple_less xs ys \<Longrightarrow> tuple_less ys zs \<Longrightarrow> tuple_less xs zs"
proof (induction xs ys arbitrary: zs rule: tuple_less.induct)
  case (1 ys)
  then show ?case by (cases ys; cases zs) auto
next
  case (3 x xs y ys)
  then show ?case by (cases zs) auto
qed simp

lemma tuple_less_linear: "length xs = length ys \<Longrightarrow> xs \<noteq> ys \<Longrightarrow> \<not> tuple_less xs ys \<Longrightarrow> tuple_less ys xs"
  by (induction xs ys rule: tuple_less.induct) auto

lemma tuple_less_irrefl: "\<not> tuple_less xs xs"
  by (induction xs) auto

lemma coverage_score_distinct:
  assumes "vr_venue r \<in> provider_venues" and "vr_venue x \<in> provider_venues" and "vr_venue r \<noteq> vr_venue x"
  shows "coverage_score start end_at r \<noteq> coverage_score start end_at x"
    and "length (coverage_score start end_at r) = length (coverage_score start end_at x)"
proof -
  have "provider_priority (vr_venue r) \<noteq> provider_priority (vr_venue x)"
    using assms by (auto simp: provider_venues_def provider_priority_def)
  then show "coverage_score start end_at r \<noteq> coverage_score start end_at x"
    by (auto simp: coverage_score_def Let_def split: option.splits)
  show "length (coverage_score start end_at r) = length (coverage_score start end_at x)"
    by (auto simp: coverage_score_def Let_def split: option.splits)
qed

lemma prefer_row_map:
  "map_of (prefer_row start end_at r best) k =
     (case map_of best (vr_asset r) of
        None \<Rightarrow> ((map_of best)(vr_asset r \<mapsto> (coverage_score start end_at r, vr_venue r))) k
      | Some sv \<Rightarrow> if tuple_less (fst sv) (coverage_score start end_at r)
          then ((map_of best)(vr_asset r \<mapsto> (coverage_score start end_at r, vr_venue r))) k else map_of best k)"
  by (simp add: prefer_row_def map_of_update split: option.split prod.split)

lemma prefer_all:
  assumes "\<forall>r \<in> set rs. vr_asset r = a \<and> vr_venue r \<in> provider_venues" and "distinct (map vr_venue rs)" and "rs \<noteq> []"
  shows "\<exists>r \<in> set rs. map_of (fold (prefer_row start end_at) rs []) a = Some (coverage_score start end_at r, vr_venue r)
     \<and> (\<forall>x \<in> set rs. x = r \<or> tuple_less (coverage_score start end_at x) (coverage_score start end_at r))"
  using assms
proof (induction rs rule: rev_induct)
  case (snoc x rs)
  show ?case
  proof (cases "rs = []")
    case True
    then show ?thesis using snoc.prems(1) by (simp add: prefer_row_map)
  next
    case False
    then obtain r where r: "r \<in> set rs" "map_of (fold (prefer_row start end_at) rs []) a = Some (coverage_score start end_at r, vr_venue r)"
        "\<forall>y \<in> set rs. y = r \<or> tuple_less (coverage_score start end_at y) (coverage_score start end_at r)"
      using snoc.IH snoc.prems by auto
    have "vr_venue x \<notin> vr_venue ` set rs" using snoc.prems(2) by auto
    then have venues: "vr_venue r \<noteq> vr_venue x" using r(1) by (metis imageI)
    have p: "vr_venue r \<in> provider_venues" "vr_venue x \<in> provider_venues" "vr_asset x = a" using r(1) snoc.prems(1) by auto
    note d = coverage_score_distinct [OF p(1,2) venues, of start end_at]
    show ?thesis
    proof (cases "tuple_less (coverage_score start end_at r) (coverage_score start end_at x)")
      case True
      have "\<forall>y \<in> set (rs @ [x]). y = x \<or> tuple_less (coverage_score start end_at y) (coverage_score start end_at x)"
        using r(3) True tuple_less_trans by auto
      then show ?thesis using True r(2) p(3) by (intro bexI [of _ x]) (simp_all add: prefer_row_map)
    next
      case False
      then have "tuple_less (coverage_score start end_at x) (coverage_score start end_at r)"
        using tuple_less_linear d by metis
      then show ?thesis using False r p(3) by (intro bexI [of _ r]) (auto simp: prefer_row_map)
    qed
  qed
qed simp

text \<open>The coverage rows of one asset of a valid table.\<close>

lemma coverage_rows_of_asset:
  assumes "table_ok env rows" and "asset_code a"
  shows "\<forall>r \<in> set (provider_coverage_rows rows [a] start end_at). vr_asset r = a \<and> vr_venue r \<in> provider_venues"
    and "distinct (map vr_venue (provider_coverage_rows rows [a] start end_at))"
proof -
  let ?sel = "selected_rows rows [a] start end_at"
  let ?groups = "group_by (\<lambda>r. (hr_asset r, hr_venue r)) ?sel"
  have sel: "hr_asset r = a \<and> hr_venue r \<in> provider_venues" if "r \<in> set ?sel" for r
  proof -
    have "r \<in> set rows" "hr_asset r = a" using that asset_codes_single [OF assms(2)] by (auto simp: selected_rows_def)
    moreover have "hr_venue r \<in> provider_venues"
      using assms(1) calculation(1) unfolding table_ok_def historical_spot_def by (metis historical_row_fields(2))
    ultimately show ?thesis by blast
  qed
  have group: "fst (fst g) = a \<and> snd (fst g) \<in> provider_venues" if "g \<in> set ?groups" for g
  proof -
    have "(fst g, snd g) \<in> set ?groups" using that by simp
    note m = group_by_member [OF this]
    obtain r where "r \<in> set (snd g)" using m(2) by (cases "snd g") auto
    then have "r \<in> set ?sel" "(hr_asset r, hr_venue r) = fst g" using m(1) by auto
    then show ?thesis using sel by (metis fst_conv snd_conv)
  qed
  have a: "upper a = a" using assms(2) by (simp add: asset_code_def)
  show "\<forall>r \<in> set (provider_coverage_rows rows [a] start end_at). vr_asset r = a \<and> vr_venue r \<in> provider_venues"
    using group a by (auto simp: provider_coverage_rows_def coverage_of_group_def split: prod.splits) force+
  have "map vr_venue (provider_coverage_rows rows [a] start end_at) = map (snd \<circ> fst) ?groups"
    by (simp add: provider_coverage_rows_def coverage_of_group_def split: prod.split)
  moreover have "distinct (map (snd \<circ> fst) ?groups)"
  proof -
    have "fst p = a" if "p \<in> set (map fst ?groups)" for p using that group by auto
    then have "inj_on snd (set (map fst ?groups))" by (intro inj_onI prod_eqI) simp_all
    then have "distinct (map snd (map fst ?groups))"
      by (intro distinct_map [THEN iffD2] conjI distinct_group_by)
    then show ?thesis by simp
  qed
  ultimately show "distinct (map vr_venue (provider_coverage_rows rows [a] start end_at))" by simp
qed

lemma preferred_venue_max:
  assumes "table_ok env rows" and "asset_code a"
  shows "preferred_venue rows a start end_at = Some v \<longleftrightarrow> (\<exists>r \<in> set (provider_coverage_rows rows [a] start end_at). vr_venue r = v
     \<and> (\<forall>x \<in> set (provider_coverage_rows rows [a] start end_at). x = r
          \<or> tuple_less (coverage_score start end_at x) (coverage_score start end_at r)))" (is "?l \<longleftrightarrow> ?r")
proof -
  let ?rs = "provider_coverage_rows rows [a] start end_at"
  have a: "upper a = a" using assms(2) by (simp add: asset_code_def)
  have second: "(\<lambda>(asset, score, venue). (asset, venue)) = (\<lambda>(k, x). (k, snd x))" by (auto simp: fun_eq_iff)
  have p: "preferred_venue rows a start end_at = map_option snd (map_of (fold (prefer_row start end_at) ?rs []) a)"
    unfolding preferred_venue_def preferred_venue_by_asset_def a second map_of_map by simp
  show ?thesis
  proof (cases "?rs = []")
    case False
    then obtain r where r: "r \<in> set ?rs" "map_of (fold (prefer_row start end_at) ?rs []) a = Some (coverage_score start end_at r, vr_venue r)"
        "\<forall>x \<in> set ?rs. x = r \<or> tuple_less (coverage_score start end_at x) (coverage_score start end_at r)"
      using prefer_all [OF coverage_rows_of_asset [OF assms]] by blast
    show ?thesis
    proof
      assume ?l
      then show ?r using r p by auto
    next
      assume ?r
      then obtain x where x: "x \<in> set ?rs" "vr_venue x = v"
          "\<forall>y \<in> set ?rs. y = x \<or> tuple_less (coverage_score start end_at y) (coverage_score start end_at x)" by blast
      have "x = r" using r(1,3) x(1,3) tuple_less_trans tuple_less_irrefl by metis
      then show ?l using p r(2) x(2) by simp
    qed
  qed (simp add: p)
qed

end
