(* ===== verification/Replay_Correct.thy ===== *)
theory Replay_Correct
  imports Cycle_Replay History_Correct
begin

text \<open>
  The walk-forward replay: what the strategy can see at an evaluation, how its candidates are
  settled, and when a replay is answered from the cache.
\<close>

section \<open>What is visible\<close>

text \<open>Grouping more elements extends the groups there are and adds new ones at the end.\<close>

lemma group_add_append:
  assumes "distinct (map fst gs)"
  shows "group_add k x (map (\<lambda>(k, g). (k, g @ h k)) gs @ rest) =
      (if k \<in> fst ` set gs then map (\<lambda>(k', g). (k', g @ h k' @ (if k' = k then [x] else []))) gs @ rest
       else map (\<lambda>(k', g). (k', g @ h k' @ (if k' = k then [x] else []))) gs @ group_add k x rest)"
  using assms
proof (induction gs)
  case (Cons p gs)
  obtain k' g where p: "p = (k', g)" by (cases p)
  show ?case
  proof (cases "k = k'")
    case True
    then have "k \<notin> fst ` set gs" using Cons.prems by (simp add: p)
    then have "map (\<lambda>(k', g). (k', g @ h k' @ (if k' = k then [x] else []))) gs = map (\<lambda>(k, g). (k, g @ h k)) gs"
      by (intro map_cong) (auto split: prod.split intro: rev_image_eqI)
    then show ?thesis using True by (simp add: p)
  next
    case False
    then show ?thesis using Cons by (simp add: p image_iff)
  qed
qed simp

lemma group_by_append:
  "\<exists>added. group_by f (xs @ ys) = map (\<lambda>(k, g). (k, g @ filter (\<lambda>y. f y = k) ys)) (group_by f xs) @ added
     \<and> (\<forall>(k, g) \<in> set added. set g \<subseteq> set ys)"
proof (induction ys rule: rev_induct)
  case Nil
  have "map (\<lambda>(k, g). (k, g @ filter (\<lambda>y. f y = k) [])) (group_by f xs) = group_by f xs" by (simp add: case_prod_beta)
  then show ?case by (intro exI [of _ "[]"]) simp
next
  case (snoc y ys)
  let ?old = "map (\<lambda>(k, g). (k, g @ filter (\<lambda>y. f y = k) ys)) (group_by f xs)"
  obtain added where IH: "group_by f (xs @ ys) = ?old @ added" "\<forall>(k, g) \<in> set added. set g \<subseteq> set ys"
    using snoc.IH by blast
  have step: "group_by f (xs @ ys @ [y]) = group_add (f y) y (?old @ added)"
    using group_by_snoc [of f "xs @ ys" y] IH(1) by simp
  let ?new = "map (\<lambda>(k, g). (k, g @ filter (\<lambda>z. f z = k) (ys @ [y]))) (group_by f xs)"
  have new: "map (\<lambda>(k', g). (k', g @ filter (\<lambda>z. f z = k') ys @ (if k' = f y then [y] else []))) (group_by f xs) = ?new"
    by (intro map_cong) (auto split: prod.split)
  have sub: "\<forall>(k, g) \<in> set (group_add (f y) y added). set g \<subseteq> set (ys @ [y])"
  proof -
    have "\<forall>(k, g) \<in> set (group_add k x gs). set g \<subseteq> insert x S" if "\<forall>(k, g) \<in> set gs. set g \<subseteq> S" for k x gs S
      using that by (induction k x gs rule: group_add.induct) auto
    from this [OF IH(2), of "f y" y] show ?thesis by simp
  qed
  show ?case
    using group_add_append [OF distinct_group_by, of "f y" y "\<lambda>k. filter (\<lambda>z. f z = k) ys" f xs added] sub IH(2)
    unfolding step new by (cases "f y \<in> fst ` set (group_by f xs)") auto
qed

lemma series_of_groups: "series_of quotes = map (\<lambda>(key, qs). (key, quotes_by_time qs)) (group_by instrument_key quotes)"
  by (simp add: series_of_def)

lemma by_time_id: "sorted (map mq_observed_at qs) \<Longrightarrow> quotes_by_time qs = qs"
  unfolding quotes_by_time_def by (rule sort_key_id_if_sorted)

lemma sorted_group:
  assumes "sorted (map mq_observed_at quotes)" and "(k, g) \<in> set (group_by f quotes)"
  shows "sorted (map mq_observed_at g)"
  using group_by_member(1) [OF assms(2)] sorted_filter [OF assms(1), of "\<lambda>x. f x = k"] by simp

lemma series_sorted: "(k, g) \<in> set (series_of quotes) \<Longrightarrow> sorted (map mq_observed_at g)"
  by (auto simp: series_of_def quotes_by_time_def)

lemma bisect_right_split:
  assumes "\<forall>q \<in> set g. mq_observed_at q \<le> t" and "\<forall>q \<in> set h. t < mq_observed_at q"
  shows "bisect_right (map mq_observed_at (g @ h)) t = length g"
proof -
  have "takeWhile (\<lambda>x. x \<le> t) (map mq_observed_at g @ map mq_observed_at h)
      = map mq_observed_at g @ takeWhile (\<lambda>x. x \<le> t) (map mq_observed_at h)"
    by (rule takeWhile_append2) (use assms(1) in auto)
  moreover have "takeWhile (\<lambda>x. x \<le> t) (map mq_observed_at h) = []"
    using assms(2) by (cases h) auto
  ultimately show ?thesis by (simp add: bisect_right_def)
qed

lemma visible_split:
  assumes "\<forall>q \<in> set g. mq_observed_at q \<le> t" and "\<forall>q \<in> set h. t < mq_observed_at q"
  shows "visible_series t (k, g @ h) = visible_series t (k, g)"
  using bisect_right_split [OF assms] bisect_right_split [OF assms(1), of "[]"]
  by (auto simp: visible_series_def Let_def nth_append)

lemma visible_none:
  assumes "\<forall>q \<in> set h. t < mq_observed_at q"
  shows "visible_series t (k, h) = None"
  using bisect_right_split [of "[]" t h] assms by (simp add: visible_series_def)

text \<open>At an evaluation the strategy is shown what it would be shown if nothing later were stored.\<close>

lemma visible_past:
  assumes "sorted (map mq_observed_at quotes)"
  shows "visible_at (series_of quotes) t = visible_at (series_of (filter (\<lambda>q. mq_observed_at q \<le> t) quotes)) t"
proof -
  define xs ys where xs: "xs = filter (\<lambda>q. mq_observed_at q \<le> t) quotes" and ys: "ys = filter (\<lambda>q. \<not> mq_observed_at q \<le> t) quotes"
  have split: "quotes = xs @ ys"
    using assms unfolding xs ys
  proof (induction quotes)
    case (Cons q qs)
    then show ?case
    proof (cases "mq_observed_at q \<le> t")
      case False
      then have "\<forall>x \<in> set (q # qs). \<not> mq_observed_at x \<le> t" using Cons.prems by auto
      then have "filter (\<lambda>q. mq_observed_at q \<le> t) (q # qs) = []" "filter (\<lambda>q. \<not> mq_observed_at q \<le> t) (q # qs) = q # qs"
        by (simp_all only: filter_empty_conv filter_id_conv)
      then show ?thesis by simp
    qed simp
  qed simp
  obtain added where added: "group_by instrument_key quotes =
      map (\<lambda>(k, g). (k, g @ filter (\<lambda>y. instrument_key y = k) ys)) (group_by instrument_key xs) @ added"
      "\<forall>(k, g) \<in> set added. set g \<subseteq> set ys"
    using group_by_append [of instrument_key xs ys] unfolding split [symmetric] by blast
  have old: "visible_series t (k, quotes_by_time (g @ filter (\<lambda>y. instrument_key y = k) ys)) = visible_series t (k, quotes_by_time g)"
    if kg: "(k, g) \<in> set (group_by instrument_key xs)" for k g
  proof -
    have "(k, g @ filter (\<lambda>y. instrument_key y = k) ys) \<in> set (group_by instrument_key quotes)"
      unfolding added(1) using kg by force
    then have "quotes_by_time (g @ filter (\<lambda>y. instrument_key y = k) ys) = g @ filter (\<lambda>y. instrument_key y = k) ys"
      by (intro by_time_id sorted_group [OF assms])
    moreover have "quotes_by_time g = g"
      by (rule by_time_id, rule sorted_group [OF _ kg]) (unfold xs, rule sorted_filter [OF assms])
    moreover have "\<forall>q \<in> set (filter (\<lambda>y. instrument_key y = k) ys). t < mq_observed_at q" by (auto simp: ys)
    moreover have "\<forall>q \<in> set g. mq_observed_at q \<le> t" using group_by_member(1) [OF kg] by (auto simp: xs)
    ultimately show ?thesis using visible_split [of g t "filter (\<lambda>y. instrument_key y = k) ys" k] by auto
  qed
  have new: "visible_series t (k, quotes_by_time g) = None" if "(k, g) \<in> set added" for k g
  proof (rule visible_none)
    have "set g \<subseteq> set ys" using added(2) that by auto
    then show "\<forall>q \<in> set (quotes_by_time g). t < mq_observed_at q" by (force simp: quotes_by_time_def ys)
  qed
  have none: "map (\<lambda>p. visible_series t (fst p, quotes_by_time (snd p))) added = map (\<lambda>_. None) added"
    using new by (intro map_cong) auto
  have same: "map (\<lambda>p. visible_series t (fst p, quotes_by_time (snd p @ filter (\<lambda>y. instrument_key y = fst p) ys)))
      (group_by instrument_key xs) = map (\<lambda>p. visible_series t (fst p, quotes_by_time (snd p))) (group_by instrument_key xs)"
    using old by (intro map_cong) auto
  have somes: "some_values (as @ map (\<lambda>_. None) bs) = some_values as" for as and bs :: "'x list"
    by (simp add: some_values_def)
  have "visible_at (series_of quotes) t = some_values (map (\<lambda>p. visible_series t (fst p, quotes_by_time (snd p))) (group_by instrument_key quotes))"
    by (simp add: visible_at_def series_of_groups comp_def case_prod_beta)
  also have "\<dots> = some_values (map (\<lambda>p. visible_series t (fst p, quotes_by_time (snd p))) (group_by instrument_key xs))"
    unfolding added(1) map_append none somes by (simp add: comp_def case_prod_beta same)
  also have "\<dots> = visible_at (series_of xs) t"
    by (simp add: visible_at_def series_of_groups comp_def case_prod_beta)
  finally show ?thesis by (simp only: xs)
qed

section \<open>How a candidate is settled\<close>

text \<open>The first quote at or after a time, unless it is more than twelve hours late.\<close>

lemma exit_quote_first:
  assumes "sorted (map mq_observed_at series)" and "replay_exit_quote series due = Some q"
  shows "q \<in> set series" and "due \<le> mq_observed_at q" and "mq_observed_at q \<le> due + hours 12"
    and "x \<in> set series \<Longrightarrow> due \<le> mq_observed_at x \<Longrightarrow> mq_observed_at q \<le> mq_observed_at x"
proof -
  let ?ts = "map mq_observed_at series"
  define i where "i = bisect_left ?ts due"
  have i: "i < length series" "q = series ! i" "mq_observed_at q - due \<le> hours 12"
    using assms(2) unfolding replay_exit_quote_def i_def [symmetric] Let_def by (auto split: if_splits)
  then show "q \<in> set series" "mq_observed_at q \<le> due + hours 12" by simp_all
  have "\<not> ?ts ! i < due"
    using nth_length_takeWhile [of "\<lambda>x. x < due" ?ts] i(1) by (simp add: i_def bisect_left_def)
  then show "due \<le> mq_observed_at q" using i by simp
  assume x: "x \<in> set series" "due \<le> mq_observed_at x"
  then obtain j where j: "j < length series" "series ! j = x" by (auto simp: in_set_conv_nth)
  have "i \<le> j"
  proof (rule ccontr)
    assume "\<not> i \<le> j"
    then have "?ts ! j \<in> set (takeWhile (\<lambda>x. x < due) ?ts)"
      by (metis i_def bisect_left_def in_set_conv_nth not_le takeWhile_nth)
    then have "?ts ! j < due" by (rule set_takeWhileD [THEN conjunct2])
    then show False using j x(2) by simp
  qed
  then show "mq_observed_at q \<le> mq_observed_at x"
    using sorted_nth_mono [OF assms(1), of i j] i j by simp
qed

definition settled_by :: "settings \<Rightarrow> series_map \<Rightarrow> alpha_cand \<Rightarrow> real \<times> alpha_regime \<Rightarrow> bool" where
  "settled_by s grouped c row \<longleftrightarrow> (\<exists>q. candidate_exit grouped c = Some q \<and> 0 < al_entry_reference_price c
     \<and> row = (replay_value s c q, al_regime c))"

definition outcome_in :: "replay_outcomes \<Rightarrow> string \<times> alpha_direction \<Rightarrow> real \<times> alpha_regime \<Rightarrow> bool" where
  "outcome_in out key row \<longleftrightarrow> (\<exists>rows. (key, rows) \<in> set out \<and> row \<in> set rows)"

lemma outcome_in_add: "outcome_in (group_add k x out) key row \<Longrightarrow> outcome_in out key row \<or> key = k \<and> row = x"
proof (induction k x out rule: group_add.induct)
  case (2 k x k' ys g)
  have cons: "outcome_in ((a, b) # r) key row \<longleftrightarrow> key = a \<and> row \<in> set b \<or> outcome_in r key row" for a b r
    by (auto simp: outcome_in_def)
  show ?case using 2 by (auto simp: cons split: if_splits)
qed (auto simp: outcome_in_def)

definition nonempty_rows :: "replay_outcomes \<Rightarrow> bool" where
  "nonempty_rows out \<longleftrightarrow> (\<forall>g \<in> set out. snd g \<noteq> []) \<and> distinct (map fst out)"

lemma nonempty_add: "nonempty_rows out \<Longrightarrow> nonempty_rows (group_add k x out)"
proof -
  have "\<forall>g \<in> set out. snd g \<noteq> [] \<Longrightarrow> \<forall>g \<in> set (group_add k x out). snd g \<noteq> []"
    by (induction k x out rule: group_add.induct) auto
  then show "nonempty_rows out \<Longrightarrow> nonempty_rows (group_add k x out)"
    by (simp add: nonempty_rows_def distinct_group_add)
qed

lemma replay_candidate_rows:
  assumes "nonempty_rows out"
  shows "nonempty_rows (replay_candidate s grouped c out)"
    and "outcome_in (replay_candidate s grouped c out) key row \<Longrightarrow>
      outcome_in out key row \<or> key = (upper (al_asset c), al_direction c) \<and> settled_by s grouped c row"
  using assms by (auto simp: replay_candidate_def nonempty_add settled_by_def split: option.splits if_splits dest!: outcome_in_add)

lemma replay_candidates_rows:
  assumes "nonempty_rows out"
  shows "nonempty_rows (fold (replay_candidate s grouped) cs out)"
    and "outcome_in (fold (replay_candidate s grouped) cs out) key row \<Longrightarrow>
      outcome_in out key row \<or> (\<exists>c \<in> set cs. key = (upper (al_asset c), al_direction c) \<and> settled_by s grouped c row)"
  using assms
proof (induction cs arbitrary: out)
  case (Cons c cs)
  {
    case 1
    then show ?case using Cons.IH(1) replay_candidate_rows(1) by simp
  next
    case 2
    then have "nonempty_rows (replay_candidate s grouped c out)" by (intro replay_candidate_rows(1))
    from Cons.IH(2) [OF _ this] 2 show ?case using replay_candidate_rows(2) [OF 2(2), of s grouped c key row] by auto
  }
qed simp_all

section \<open>The walk\<close>

text \<open>The candidates of one evaluation, discovered from what was visible.\<close>

definition discovered_at ::
  "replay_strategy \<Rightarrow> settings \<Rightarrow> real \<Rightarrow> series_map \<Rightarrow> time \<Rightarrow> alpha_cand \<Rightarrow> bool" where
  "discovered_at strategy s capital visible t c \<longleftrightarrow> (\<exists>n cs m. st_discover strategy (replay_scan visible t) (history_of visible) s capital n
     = (Inr cs, m) \<and> c \<in> set cs)"

definition walked ::
  "replay_strategy \<Rightarrow> settings \<Rightarrow> real \<Rightarrow> series_map \<Rightarrow> time \<Rightarrow> time \<Rightarrow> replay_outcomes
     \<Rightarrow> string \<times> alpha_direction \<Rightarrow> real \<times> alpha_regime \<Rightarrow> bool" where
  "walked strategy s capital grouped stop evaluation out key row \<longleftrightarrow> outcome_in out key row \<or> (\<exists>t c. evaluation \<le> t \<and> t \<le> stop
     \<and> (t - evaluation) mod replay_step = 0 \<and> discovered_at strategy s capital (visible_at grouped t) t c
     \<and> key = (upper (al_asset c), al_direction c) \<and> settled_by s grouped c row)"

lemma replay_at_rows:
  assumes "replay_at strategy s capital grouped t out n = (Inr out', m)" and "nonempty_rows out"
  shows "nonempty_rows out'" and "outcome_in out' key row \<Longrightarrow> outcome_in out key row
    \<or> (\<exists>c. discovered_at strategy s capital (visible_at grouped t) t c \<and> key = (upper (al_asset c), al_direction c) \<and> settled_by s grouped c row)"
proof -
  consider "out' = out" | cs k where "st_discover strategy (replay_scan (visible_at grouped t) t) (history_of (visible_at grouped t)) s capital n = (Inr cs, k)"
      "out' = fold (replay_candidate s grouped) cs out"
    using assms(1) by (auto simp: replay_at_def Let_def abind_Inr alift_Inr split: if_splits)
  then have "nonempty_rows out' \<and> (outcome_in out' key row \<longrightarrow> outcome_in out key row
    \<or> (\<exists>c. discovered_at strategy s capital (visible_at grouped t) t c \<and> key = (upper (al_asset c), al_direction c) \<and> settled_by s grouped c row))"
  proof cases
    case 2
    then show ?thesis using replay_candidates_rows [OF assms(2), of s grouped cs] unfolding discovered_at_def by blast
  qed (use assms(2) in simp)
  then show "nonempty_rows out'" and "outcome_in out' key row \<Longrightarrow> outcome_in out key row
    \<or> (\<exists>c. discovered_at strategy s capital (visible_at grouped t) t c \<and> key = (upper (al_asset c), al_direction c) \<and> settled_by s grouped c row)"
    by blast+
qed

lemma replay_loop_rows:
  assumes "replay_loop strategy s capital grouped stop evaluation out n = (Inr out', m)" and "nonempty_rows out"
  shows "nonempty_rows out' \<and> (\<forall>key row. outcome_in out' key row \<longrightarrow> walked strategy s capital grouped stop evaluation out key row)"
  using assms
proof (induction strategy s capital grouped stop evaluation out arbitrary: n rule: replay_loop.induct)
  case (1 strategy s capital grouped stop evaluation out)
  note unfold = replay_loop.simps [of strategy s capital grouped stop evaluation out]
  show ?case
  proof (cases "evaluation \<le> stop")
    case False
    then show ?thesis using "1.prems" by (simp add: unfold alift_Inr walked_def)
  next
    case True
    obtain mid k where step: "replay_at strategy s capital grouped evaluation out n = (Inr mid, k)"
        "replay_loop strategy s capital grouped stop (evaluation + replay_step) mid k = (Inr out', m)"
      using "1.prems"(1) True by (auto simp: unfold abind_Inr)
    note now = replay_at_rows [OF step(1) "1.prems"(2)]
    note later = "1.IH" [OF True step(2) now(1)]
    have "walked strategy s capital grouped stop evaluation out key row"
      if "walked strategy s capital grouped stop (evaluation + replay_step) mid key row" for key row
    proof -
      have earlier: ?thesis if "outcome_in mid key row"
        using now(2) [OF that] True unfolding walked_def by force
      have walked: ?thesis if t: "evaluation + replay_step \<le> t" "(t - (evaluation + replay_step)) mod replay_step = 0"
          and c: "t \<le> stop" "discovered_at strategy s capital (visible_at grouped t) t c"
            "key = (upper (al_asset c), al_direction c)" "settled_by s grouped c row" for t c
      proof -
        have "(t - evaluation) mod replay_step = 0"
          using t(2) mod_add_self2 [of "t - (evaluation + replay_step)" replay_step] by simp
        then show ?thesis using t c replay_step_positive
          unfolding walked_def by (intro disjI2 exI [of _ t] exI [of _ c]) auto
      qed
      from that [unfolded walked_def] show ?thesis
      proof (elim disjE exE conjE)
        fix t c
        assume "evaluation + replay_step \<le> t" "t \<le> stop" "(t - (evaluation + replay_step)) mod replay_step = 0"
          "discovered_at strategy s capital (visible_at grouped t) t c" "key = (upper (al_asset c), al_direction c)" "settled_by s grouped c row"
        then show ?thesis by (intro walked)
      qed (rule earlier)
    qed
    then show ?thesis using later by blast
  qed
qed

lemma history_sorted: "sorted (map mq_observed_at (history_of (series_of quotes) key))"
proof (cases "map_of (series_of quotes) key")
  case (Some g)
  then have "(key, g) \<in> set (series_of quotes)" by (rule map_of_SomeD)
  then show ?thesis using series_sorted Some by (simp add: history_of_def)
qed (simp add: history_of_def)

text \<open>A series holds the quotes of its instrument.\<close>

lemma history_members: "set (history_of (series_of quotes) key) = {q \<in> set quotes. instrument_key q = key}"
proof -
  have "map_of (series_of quotes) key = map_option quotes_by_time (map_of (group_by instrument_key quotes) key)"
    unfolding series_of_def by (simp add: map_of_map)
  then show ?thesis
    by (auto simp: history_of_def map_of_group_by quotes_by_time_def split: option.split)
qed

lemma stored_sorted:
  assumes "table_ok env rows"
  shows "sorted (map mq_observed_at (stored_quotes rows))"
proof -
  have "mq_observed_at (hr_payload r) = hr_observed_at r" if "r \<in> set rows" for r
    using assms that unfolding table_ok_def by (metis historical_row_fields(4))
  then have "map mq_observed_at (stored_quotes rows) = map hr_observed_at (sort_key hr_observed_at rows)"
    by (simp add: stored_quotes_def)
  then show ?thesis by simp
qed

text \<open>What an outcome behind a summary is: a candidate that the strategy found at an evaluation from the
  quotes of that time, settled at the first quote at or after its horizon.\<close>

definition walk_forward_outcome ::
  "replay_strategy \<Rightarrow> settings \<Rightarrow> real \<Rightarrow> market_quote list \<Rightarrow> time \<Rightarrow> string \<times> alpha_direction \<Rightarrow> real \<Rightarrow> alpha_regime \<Rightarrow> bool" where
  "walk_forward_outcome strategy s capital quotes now key v regime \<longleftrightarrow> (\<exists>t c q.
        Min (mq_observed_at ` set quotes) + hours (rg_required_history_hours strategy s) \<le> t
      \<and> t \<le> min (Max (mq_observed_at ` set quotes)) now - hours (rg_horizon_hours strategy)
      \<and> (t - (Min (mq_observed_at ` set quotes) + hours (rg_required_history_hours strategy s))) mod hours 72 = 0
      \<and> discovered_at strategy s capital (visible_at (series_of (filter (\<lambda>x. mq_observed_at x \<le> t) quotes)) t) t c
      \<and> key = (upper (al_asset c), al_direction c) \<and> regime = al_regime c
      \<and> q \<in> set quotes \<and> instrument_key q = (al_venue c, upper (al_asset c), al_market_kind c)
      \<and> al_observed_at c + hours (al_horizon_hours c) \<le> mq_observed_at q
      \<and> mq_observed_at q \<le> al_observed_at c + hours (al_horizon_hours c) + hours 12
      \<and> (\<forall>x \<in> set quotes. instrument_key x = instrument_key q
           \<and> al_observed_at c + hours (al_horizon_hours c) \<le> mq_observed_at x \<longrightarrow> mq_observed_at q \<le> mq_observed_at x)
      \<and> 0 < al_entry_reference_price c
      \<and> v = (if al_direction c = Alpha_long then 1 else -1) * (mq_mid q / al_entry_reference_price c - 1) - replay_cost s c)"

lemma walked_outcome:
  assumes "sorted (map mq_observed_at quotes)"
    and "walked strategy s capital (series_of quotes) (replay_stop strategy quotes now) (replay_start strategy s quotes) [] key row"
  shows "walk_forward_outcome strategy s capital quotes now key (fst row) (snd row)"
proof -
  obtain t c q where w: "replay_start strategy s quotes \<le> t" "t \<le> replay_stop strategy quotes now"
      "(t - replay_start strategy s quotes) mod replay_step = 0" "discovered_at strategy s capital (visible_at (series_of quotes) t) t c"
      "key = (upper (al_asset c), al_direction c)" "candidate_exit (series_of quotes) c = Some q" "0 < al_entry_reference_price c"
      "row = (replay_value s c q, al_regime c)"
    using assms(2) unfolding walked_def settled_by_def by (auto simp: outcome_in_def)
  let ?key = "(al_venue c, upper (al_asset c), al_market_kind c)"
  note e = exit_quote_first [OF history_sorted w(6) [unfolded candidate_exit_def]]
  have q: "q \<in> set quotes" "instrument_key q = ?key" using e(1) by (simp_all add: history_members)
  have first: "\<forall>x \<in> set quotes. instrument_key x = instrument_key q
      \<and> al_observed_at c + hours (al_horizon_hours c) \<le> mq_observed_at x \<longrightarrow> mq_observed_at q \<le> mq_observed_at x"
    using e(4) q(2) by (simp add: history_members)
  have v: "fst row = (if al_direction c = Alpha_long then 1 else -1) * (mq_mid q / al_entry_reference_price c - 1) - replay_cost s c"
    by (simp add: w(8) replay_value_def)
  have seen: "discovered_at strategy s capital (visible_at (series_of (filter (\<lambda>x. mq_observed_at x \<le> t) quotes)) t) t c"
    using w(4) visible_past [OF assms(1), of t] by simp
  have regime: "snd row = al_regime c" by (simp add: w(8))
  show ?thesis unfolding walk_forward_outcome_def
    by (rule exI [of _ t], rule exI [of _ c], rule exI [of _ q])
      (intro conjI w(1-3) [unfolded replay_start_def replay_stop_def replay_step_def] seen w(5) regime q e(2,3) first w(7) v)
qed

text \<open>What a summary counts, and what it takes to qualify.\<close>

lemma summary_counts:
  assumes "rows \<noteq> []"
  shows "fst (summary_of i s (key, rows)) = key \<and> rs_sample_count (snd (summary_of i s (key, rows))) = length rows
    \<and> rs_mean_realized_net_return (snd (summary_of i s (key, rows))) = Some (fmean (map fst rows))
    \<and> (rs_qualified (snd (summary_of i s (key, rows))) \<longrightarrow> 24 \<le> length rows \<and> se_alpha_min_forward_mean_return s < fmean (map fst rows)
         \<and> 0.55 * real (length rows) \<le> real (length (filter (\<lambda>v. 0 < v) (map fst rows)))
         \<and> se_alpha_min_regimes s \<le> int (card (snd ` set rows)))"
proof -
  have "length (outcome_regimes rows) = card (set (map fst (group_by snd rows)))"
    using distinct_card [OF distinct_group_by, of snd rows] by (simp add: outcome_regimes_def)
  also have "set (map fst (group_by snd rows)) = dom (map_of (group_by snd rows))"
    by (simp add: dom_map_of_conv_image_fst)
  also have "\<dots> = snd ` set rows" by (auto simp: map_of_group_by dom_def filter_empty_conv split: if_splits)
  finally have regimes: "length (outcome_regimes rows) = card (snd ` set rows)" .
  have "0.55 * real (length rows) \<le> real (length (filter (\<lambda>v. 0 < v) (map fst rows)))" if "summary_qualified s rows"
    using that assms unfolding summary_qualified_def min_hit_rate_def by (simp add: le_divide_eq)
  then show ?thesis using assms regimes
    by (simp add: summary_of_def Let_def) (auto simp: summary_qualified_def replay_min_samples_def)
qed

section \<open>The cache\<close>

lemma drawn_in_keeps: "drawn_in m (h, n) = (r, (h', k)) \<Longrightarrow> h' = h"
  by (auto simp: drawn_in_def split: prod.splits)

lemma replay_quotes_rows:
  assumes "replay_quotes strategy s capital now quotes n = (Inr summaries, m)"
  obtains out where "summaries = map (summary_of (mf_strategy_id (st_manifest strategy)) s) out" and "nonempty_rows out"
    and "\<And>key row. outcome_in out key row \<Longrightarrow> walked strategy s capital (series_of quotes) (replay_stop strategy quotes now)
      (replay_start strategy s quotes) [] key row"
proof -
  obtain out k where out: "replay_loop strategy s capital (series_of quotes) (replay_stop strategy quotes now)
      (replay_start strategy s quotes) [] n = (Inr out, k)"
      "summaries = map (summary_of (mf_strategy_id (st_manifest strategy)) s) out"
    using assms by (auto simp: replay_quotes_def abind_Inr alift_Inr)
  have "nonempty_rows []" by (simp add: nonempty_rows_def)
  note replay_loop_rows [OF out(1) this]
  then show thesis using that out(2) by blast
qed

lemma replay_miss:
  assumes "replay_summaries env n strategy s capital now (h, k) = (Inr summaries, y)" and "hx_cache_key h = None"
  obtains "summaries = []"
    | m where "replay_quotes strategy s capital now (filter_preferred_quotes (hx_rows h) (stored_quotes (hx_rows h))
        (utc_day_start now - days (backfill_span n)) (utc_day_start now)) k = (Inr summaries, m)"
  using assms unfolding replay_summaries_def
  by (auto simp: Let_def abind_Inr drawn_in_def keep_replay_def split: if_splits prod.splits)

text \<open>The cache is found again by the quotes alone, whatever strategy, settings and capital asked for them.\<close>

lemma cached_replay_ignores_strategy:
  assumes "replay_summaries env n strategy s capital now x = (Inr summaries, y)"
  shows "replay_summaries env n other s' capital' now y = (Inr summaries, y)"
proof -
  obtain h k where x: "x = (h, k)" by (cases x)
  define quotes where "quotes = filter_preferred_quotes (hx_rows h) (stored_quotes (hx_rows h))
    (utc_day_start now - days (backfill_span n)) (utc_day_start now)"
  define key where "key = (length quotes, hv_iso env (Max (mq_observed_at ` set quotes)) @ ''|'' @ venues_text
    (preferred_venue_by_asset (hx_rows h) (map (\<lambda>q. upper (mq_asset q)) quotes)
      (Some (utc_day_start now - days (backfill_span n))) (Some (utc_day_start now))))"
  have run: "replay_summaries env n strategy s capital now (g, m) =
     (if stored_quotes (hx_rows g) = [] \<or> quotes = [] then (Inr [], (g, m))
      else if hx_cache_key g = Some key then (Inr (hx_cache g), (g, m))
      else abind (drawn_in (replay_quotes strategy s capital now quotes)) (keep_replay key) (g, m))"
    if "hx_rows g = hx_rows h" for strategy s capital g m
    unfolding replay_summaries_def prod.case Let_def that quotes_def [symmetric] key_def [symmetric] by (rule refl)
  consider "stored_quotes (hx_rows h) = [] \<or> quotes = []"
    | "stored_quotes (hx_rows h) \<noteq> []" "quotes \<noteq> []" "hx_cache_key h = Some key"
    | "stored_quotes (hx_rows h) \<noteq> []" "quotes \<noteq> []" "hx_cache_key h \<noteq> Some key" by blast
  then show ?thesis
  proof cases
    case 3
    then obtain m where "y = (h\<lparr>hx_cache_key := Some key, hx_cache := summaries\<rparr>, m)"
      using assms unfolding x run [OF refl] by (auto simp: abind_Inr drawn_in_def keep_replay_def split: prod.splits)
    then show ?thesis using 3 by (simp add: run)
  qed (use assms in \<open>auto simp: x run\<close>)
qed

section \<open>The rows of the active assets\<close>

lemma preferred_restrict:
  assumes "asset_codes assets \<noteq> []" and "set (asset_codes assets) \<subseteq> A"
  shows "preferred_venue_by_asset (filter (\<lambda>r. hr_asset r \<in> A) rows) assets start end_at = preferred_venue_by_asset rows assets start end_at"
proof -
  have "selected_rows (filter (\<lambda>r. hr_asset r \<in> A) rows) assets start end_at = selected_rows rows assets start end_at"
    using assms unfolding selected_rows_def filter_filter by (intro filter_cong) auto
  then show ?thesis by (simp add: preferred_venue_by_asset_def provider_coverage_rows_def)
qed

lemma filter_preferred_restrict:
  fixes assets rows
  defines "chosen \<equiv> filter (\<lambda>r. hr_asset r \<in> set (asset_codes assets)) rows"
  assumes "table_ok env rows"
  shows "filter_preferred_quotes chosen (stored_quotes chosen) start end_at = filter_preferred_quotes rows (stored_quotes chosen) start end_at"
proof (cases "chosen = []")
  case True
  then show ?thesis by (simp add: filter_preferred_quotes_def stored_quotes_def)
next
  case False
  let ?assets = "map (\<lambda>q. upper (mq_asset q)) (stored_quotes chosen)"
  have row: "upper (mq_asset (hr_payload r)) = hr_asset r" if "r \<in> set rows" for r
    using assms(2) that unfolding table_ok_def by (metis historical_row_fields(3))
  have "set ?assets = hr_asset ` set chosen"
    using row by (force simp: stored_quotes_def chosen_def)
  also have "\<dots> \<subseteq> set (asset_codes assets)" by (auto simp: chosen_def)
  finally have sub: "set ?assets \<subseteq> set (asset_codes assets)" .
  have codes: "set (asset_codes xs) = set xs" if "\<forall>x \<in> set xs. asset_code x" for xs
  proof -
    have "filter (\<lambda>a. strip a \<noteq> []) xs = xs" "map upper xs = xs"
      using that by (auto simp: asset_code_def filter_id_conv intro: map_idI)
    then show ?thesis by (simp add: asset_codes_def)
  qed
  have "asset_code x" if "x \<in> set ?assets" for x using sub that by (intro asset_codes_code) blast
  then have codes: "set (asset_codes ?assets) = set ?assets" by (intro codes) blast
  moreover have "?assets \<noteq> []"
    using False by (simp add: stored_quotes_def) (metis length_0_conv length_sort)
  ultimately have "asset_codes ?assets \<noteq> []" by (metis set_empty)
  then show ?thesis
    using preferred_restrict [where A = "set (asset_codes assets)" and rows = rows] sub codes
    unfolding chosen_def [symmetric] filter_preferred_quotes_def by simp
qed

section \<open>The tests of the policies\<close>

lemma blockers_none: "blockers_of tests = [] \<longleftrightarrow> (\<forall>t \<in> set tests. \<not> fst t)"
  by (auto simp: blockers_of_def filter_empty_conv)

lemma none_or_not: "\<not> none_or test x \<longleftrightarrow> (\<exists>v. x = Some v \<and> \<not> test v)"
  by (cases x) (simp_all add: none_or_def)

lemma unsupported_not: "\<not> unsupported r \<longleftrightarrow> (\<exists>x. r = Some x \<and> rs_qualified x)"
  by (cases r) (simp_all add: unsupported_def)

section \<open>Sizes\<close>

lemma fraction_bounds:
  "0 \<le> forward_evidence_allocation_fraction n target" "forward_evidence_allocation_fraction n target \<le> 1"
  by (auto simp: forward_evidence_allocation_fraction_def Let_def)

lemma fraction_partial:
  assumes "evidence_step \<le> n" and "n < max evidence_step target"
  shows "forward_evidence_allocation_fraction n target = of_int (n div 3 * 3) / of_int target"
    and "0 < forward_evidence_allocation_fraction n target" and "forward_evidence_allocation_fraction n target < 1"
    and "forward_evidence_allocation_fraction n target \<le> of_int n / of_int target"
proof -
  have t: "3 < target" "3 \<le> n" "n < target" using assms by (auto simp: evidence_step_def)
  have earned: "3 \<le> n div 3 * 3" "n div 3 * 3 \<le> n" using t(2) by presburger+
  have "real_of_int (n div 3 * 3) / of_int target < 1" "0 < real_of_int (n div 3 * 3) / of_int target"
    using earned t by (simp_all only: divide_less_eq_1_pos of_int_less_iff zero_less_divide_iff of_int_0_less_iff) linarith+
  then show f: "forward_evidence_allocation_fraction n target = of_int (n div 3 * 3) / of_int target"
    using assms t by (simp add: forward_evidence_allocation_fraction_def Let_def evidence_step_def max_def)
  show "0 < forward_evidence_allocation_fraction n target" "forward_evidence_allocation_fraction n target < 1"
    unfolding f by fact+
  have "real_of_int (n div 3 * 3) \<le> of_int n" using earned(2) by (simp only: of_int_le_iff)
  then show "forward_evidence_allocation_fraction n target \<le> of_int n / of_int target"
    unfolding f using t by (intro divide_right_mono) simp_all
qed

lemma fraction_mono:
  assumes "m \<le> n"
  shows "forward_evidence_allocation_fraction m target \<le> forward_evidence_allocation_fraction n target"
proof -
  consider "m < evidence_step" | "max evidence_step target \<le> n" | "evidence_step \<le> m" "n < max evidence_step target" by linarith
  then show ?thesis
  proof cases
    case 1
    then have "forward_evidence_allocation_fraction m target = 0"
      by (auto simp: forward_evidence_allocation_fraction_def Let_def evidence_step_def)
    then show ?thesis using fraction_bounds by simp
  next
    case 2
    then have "forward_evidence_allocation_fraction n target = 1"
      by (auto simp: forward_evidence_allocation_fraction_def Let_def evidence_step_def)
    then show ?thesis using fraction_bounds by simp
  next
    case 3
    have "m div 3 * 3 \<le> n div 3 * 3" using assms by (simp add: zdiv_mono1)
    then show ?thesis using fraction_partial(1) [of m target] fraction_partial(1) [of n target] 3 assms
      by (simp add: evidence_step_def divide_right_mono)
  qed
qed

end
