(* ===== verification/Cycle_Fixtures.thy ===== *)
theory Cycle_Fixtures
  imports Cycle_Trend_Correct Replay_Correct Fixtures
begin

text \<open>
  Small inputs of the cycle research: a price that rises steadily and the candidate the trend strategy
  finds on it, and a table of two candles with the replay of a strategy that always finds a candidate.
\<close>

section \<open>A trend\<close>

text \<open>A price that rises by a fifth every 30 days, seen 180, 90 and 30 days before.\<close>

definition cx_quote :: "real \<Rightarrow> time \<Rightarrow> market_quote" where
  "cx_quote mid t = \<lparr>mq_venue = ''Coinbase'', mq_asset = ''ETH'', mq_market_kind = SPOT, mq_symbol = ''ETH-USD'',
     mq_quote_currency = Some ''USD'', mq_contract_key = None, mq_expires_at = None, mq_bid = None, mq_ask = None,
     mq_mid = mid, mq_observed_at = t, mq_source = ''fixture''\<rparr>"

definition cx_scan :: market_scan where
  "cx_scan = \<lparr>mn_completed_at = 0, mn_market_quotes = [cx_quote 1 0], mn_funding_quotes = []\<rparr>"

definition cx_series :: "market_quote list" where
  "cx_series = [cx_quote (15625 / 46656) (- hours 4320), cx_quote (125 / 216) (- hours 2160), cx_quote (5 / 6) (- hours 720),
     cx_quote 1 0]"

definition cx_past :: alpha_history where
  "cx_past = (\<lambda>k. if k = (''Coinbase'', ''ETH'', SPOT) then cx_series else [])"

definition cx_trend :: trend_reading where
  "cx_trend = \<lparr>tr_returns = [(720, 1 / 5), (2160, 91 / 125), (4320, 31031 / 15625)],
     tr_drift = ln (6 / 5) / 30, tr_agreement = 1, tr_score = 1\<rparr>"

definition cx_market :: trend_market where
  "cx_market = \<lparr>tk_btc = 0, tk_breadth = 1, tk_cycle = cycle_context_at 0\<rparr>"

lemma cx_series_past: "trend_past cx_series (cx_quote 1 0) = cx_series"
  by code_simp

lemma cx_references:
  "trend_reference cx_series (- hours 168) 168 = None"
  "trend_reference cx_series (- hours 720) 720 = Some (5 / 6)"
  "trend_reference cx_series (- hours 2160) 2160 = Some (125 / 216)"
  "trend_reference cx_series (- hours 4320) 4320 = Some (15625 / 46656)"
     by code_simp+

lemma cx_logs: "ln (216 / 125 :: real) = 3 * ln (6 / 5)" "ln (46656 / 15625 :: real) = 6 * ln (6 / 5)"
  using ln_realpow [of "6 / 5" 3] ln_realpow [of "6 / 5" 6] by (simp_all add: power_divide)

lemma cx_drift: "1 / 6 \<le> ln (6 / 5 :: real)"
  using ln_le_minus_one [of "5 / 6"] ln_div [of 6 5] ln_div [of 5 6] by simp

lemma cx_fields: "mq_venue (cx_quote 1 0) = ''Coinbase''" "mq_market_kind (cx_quote 1 0) = SPOT"
    "mq_mid (cx_quote 1 0) = 1" "mq_observed_at (cx_quote 1 0) = 0" "cx_past (''Coinbase'', ''ETH'', SPOT) = cx_series"
  by (simp_all add: cx_quote_def cx_past_def)

lemma cx_trend_of: "trend_of cx_series (cx_quote 1 0) trend_lookbacks = Inr cx_trend"
  using cx_drift
  by (simp add: trend_of_def cx_series_past trend_lookbacks_def trend_step_def cx_references cx_fields py_log_def cx_logs
    trend_summary_def median_def Let_def sign_of_def cx_trend_def)

lemma cx_groups: "tradable_by_asset [cx_quote 1 0] = [(''ETH'', [cx_quote 1 0])]" "directed_quotes [cx_quote 1 0] Alpha_long = [cx_quote 1 0]"
   "directed_quotes [cx_quote 1 0] Alpha_short = []"
  by code_simp+

lemma cx_scores: "btc_score [(''ETH'', [cx_quote 1 0])] cx_past = Inr 0" "market_breadth [(''ETH'', [cx_quote 1 0])] cx_past = Inr 1"
  using cx_drift by (simp_all add: btc_score_def quotes_of_def directed_quotes_def)
    (simp add: market_breadth_def breadth_step_def cx_groups cx_fields trend_of_def cx_series_past trend_step_def cx_references
      py_log_def trend_summary_def Let_def sign_of_def)

lemma cx_confirmed: "trend_confirmed cx_market cx_trend Alpha_long"
  using cx_drift by (simp add: trend_confirmed_def cx_trend_def cx_market_def trend_direction_def direction_sign_def)

lemma cx_profit: "0 < trend_gross cx_market cx_trend Alpha_long - trend_cost default_settings 0"
proof -
  have "1 + ln (6 / 5) / 10 \<le> exp (ln (6 / 5) / (10 :: real))" by (rule exp_ge_add_one_self)
  then have "61 / 60 \<le> exp (ln (6 / 5) / (10 :: real))" using cx_drift by linarith
  then have "1 / 240 \<le> trend_base cx_trend Alpha_long"
    using cx_drift by (simp add: trend_base_def direction_sign_def cx_trend_def trend_horizon_def)
  moreover have "market_multiplier cx_market Alpha_long = 105 / 100" by code_simp
  moreover have "cycle_multiplier cx_market Alpha_long = 1" by code_simp
  moreover have "trend_cost default_settings 0 = 25 / 10000" by code_simp
  ultimately show ?thesis unfolding trend_gross_def by (simp only:) simp
qed

lemma cx_found:
  obtains c where "trend_discover (\<lambda>n. ''id'') cx_scan cx_past default_settings 100000 0 = (Inr [c], 1)"
proof -
  have ok: "alpha_cand_ok (trend_candidate default_settings 100000 cx_market ''ETH'' cx_series (cx_quote 1 0) cx_trend Alpha_long 0 drawn)" for drawn
    by (rule trend_candidate_valid [OF cx_trend_of cx_confirmed ]) (simp_all add: default_settings_def cx_fields)
  then have long: "trend_quotes (\<lambda>n. ''id'') default_settings 100000 cx_scan cx_past cx_market ''ETH'' Alpha_long [cx_quote 1 0] 0
      = (Inr [trend_candidate default_settings 100000 cx_market ''ETH'' cx_series (cx_quote 1 0) cx_trend Alpha_long 0 ''id''], 1)"
    using cx_trend_of cx_confirmed cx_profit
    by (simp add: cx_fields abind_def alift_def draw_def carry_cost_def checked_alpha_cand_def Let_def)
  show thesis
    using long cx_scores by (intro that)
     (simp add: trend_discover_def cx_scan_def cx_groups abind_def alift_def cx_market_def trend_asset_def Let_def sort_desc_def)
qed

section \<open>The store\<close>

text \<open>Two candles that Coinbase answers each request with.\<close>

definition cx_env :: history_env where
  "cx_env = \<lparr>hv_float = (\<lambda>_. None), hv_int = (\<lambda>_. None), hv_repr = (\<lambda>_. []), hv_sha = (\<lambda>x. x), hv_iso = (\<lambda>t. if t = 864000000000 then ''a'' else ''b''),
     hv_web = (\<lambda>n req. if n = 0 then Payload (JList [
          JList [JInt 864000, JInt 1, JInt 1, JInt 1, JInt 100], JList [JInt 885600, JInt 1, JInt 1, JInt 1, JInt 110]])
        else Http_status 403),
     hv_universe = (\<lambda>_. Inl TypeError)\<rparr>"

definition cx_now :: time where
  "cx_now = 950400000000"

definition cx_empty :: hist_state where
  "cx_empty = \<lparr>hx_rows = [], hx_cache_key = None, hx_cache = [], hx_requests = 0\<rparr>"

definition cx_candle :: "real \<Rightarrow> time \<Rightarrow> market_quote" where
  "cx_candle price t = historical_quote ''Coinbase'' ''BTC'' ''BTC-USD'' ''USD'' ''spot''
     ''coinbase-exchange:candles:6h:historical-backfill'' (t, price)"

definition cx_store :: hist_state where
  "cx_store = \<lparr>hx_rows = [historical_row cx_env (cx_candle 100 864000000000), historical_row cx_env (cx_candle 110 885600000000)],
     hx_cache_key = None, hx_cache = [], hx_requests = 4\<rparr>"

lemma cx_codes: "asset_codes [''BTC''] = [''BTC'']"
  by code_simp

lemma cx_span: "utc_day_start cx_now = 950400000000" "backfill_span 260 = 260" "days 260 = 22464000000000" "86400 div candle_seconds = 4"
  by code_simp+

lemma cx_coinbase: "fetch_coinbase cx_env ''BTC'' (950400000000 - days 260) 950400000000 cx_empty
   = (([cx_candle 100 864000000000, cx_candle 110 885600000000], Some ''HTTP403''), cx_empty\<lparr>hx_requests := 2\<rparr>)"
  by code_simp

lemma cx_recorded: "record_quotes cx_env Sqlite [cx_candle 100 864000000000, cx_candle 110 885600000000] (cx_empty\<lparr>hx_requests := 2\<rparr>)
   = (Inr 2, cx_store\<lparr>hx_requests := 2\<rparr>)"
  by code_simp

lemma cx_okx: "fetch_from Okx cx_env ''BTC'' (950400000000 - days 260) 950400000000 (cx_store\<lparr>hx_requests := 2\<rparr>)
   = (Inl (HTTPStatusError 403), cx_store\<lparr>hx_requests := 3\<rparr>)"
  by code_simp

lemma cx_bybit: "fetch_from Bybit cx_env ''BTC'' (950400000000 - days 260) 950400000000 (cx_store\<lparr>hx_requests := 3\<rparr>)
   = (Inl (HTTPStatusError 403), cx_store)"
  by code_simp

lemma cx_coingecko: "fetch_from Coingecko cx_env ''BTC'' (950400000000 - days 260) 950400000000 cx_store
   = (Inl (LookupError ''CoinGecko source_asset_id is unavailable''), cx_store)"
  by code_simp

lemma cx_gap: "covered (950400000000 - days 260) 950400000000 1040 ''BTC'' cx_empty = False"
    "covered (950400000000 - days 260) 950400000000 1040 ''BTC'' cx_store = False"
  by code_simp+

lemma cx_gap_at: "covered (950400000000 - days 260) 950400000000 1040 ''BTC'' (cx_store\<lparr>hx_requests := k\<rparr>) = False"
  using cx_gap(2) by (simp add: covered_def)

lemma cx_backfilled: "snd (ensure_backfilled cx_env Sqlite 260 [''BTC''] cx_now cx_empty) = cx_store"
  by (simp add: ensure_backfilled_def Let_def cx_codes cx_span(1,2,4) abind_def backfill_asset_def cx_gap cx_gap_at cx_coinbase
    cx_recorded after_coinbase_def try_provider_def alift_def cx_okx cx_bybit cx_coingecko)

text \<open>A strategy that finds one candidate at every evaluation.\<close>

definition cx_cand :: alpha_cand where
  "cx_cand = \<lparr>al_candidate_id = ''c'', al_strategy_id = trend_id, al_asset = ''BTC'', al_direction = Alpha_long,
     al_venue = ''Coinbase'', al_market_kind = SPOT, al_symbol = ''BTC-USD'', al_observed_at = 864000000000,
     al_horizon_hours = 6, al_entry_reference_price = 100, al_estimated_cost_return = 0, al_expected_net_return = 1 / 100,
     al_expected_profit_usd = 10, al_notional_usd = 1000, al_capital_required_usd = 1000, al_conflict_keys = [],
     al_family = ''directional_time_series'', al_lookback_hours = 6, al_expected_gross_return = 1 / 100,
     al_confidence_score = 1, al_regime = Normal_vol, al_features = [], al_stage = Research,
     al_paper_allocation_eligible = False, al_executable_eligible = False, al_live_execution_eligible = False, al_paper_only = True\<rparr>"

definition cx_strategy :: replay_strategy where
  "cx_strategy = \<lparr>st_manifest = trend_manifest, st_discover = (\<lambda>_ _ _ _. alift (Inr [cx_cand])),
     rg_required_history_hours = (\<lambda>_. 0), rg_horizon_hours = 6\<rparr>"

definition cx_quotes :: "market_quote list" where
  "cx_quotes = [cx_candle 100 864000000000, cx_candle 110 885600000000]"

lemma cx_quotes_read: "filter_preferred_quotes (hx_rows cx_store) (stored_quotes (hx_rows cx_store))
          (950400000000 - days 260) 950400000000 = cx_quotes"
  by code_simp

lemma cx_series_map: "series_of cx_quotes = [((''Coinbase'', ''BTC'', SPOT), cx_quotes)]"
  by code_simp

lemma cx_start: "replay_start cx_strategy default_settings cx_quotes = 864000000000" "replay_stop cx_strategy cx_quotes cx_now = 864000000000"
  by code_simp+


definition cx_out :: replay_outcomes where
  "cx_out = [((''BTC'', Alpha_long), [(1 / 10 - replay_cost default_settings cx_cand, Normal_vol)])]"

lemma cx_evaluated: "replay_at cx_strategy default_settings 1000 [((''Coinbase'', ''BTC'', SPOT), cx_quotes)] 864000000000 [] 0 = (Inr cx_out, 0)"
  by code_simp

lemma cx_step: "\<not> replay_step \<le> 0"
  by code_simp

lemma cx_replayed: "replay_quotes cx_strategy default_settings 1000 cx_now cx_quotes 0 = (Inr (map (summary_of trend_id default_settings) cx_out), 0)"
  by (simp add: replay_quotes_def cx_series_map cx_start abind_def alift_def cx_strategy_def [THEN arg_cong, of st_manifest] trend_manifest_def replay_loop.simps
     cx_evaluated cx_step)

lemma cx_missed: "hx_cache_key cx_store = None" "stored_quotes (hx_rows cx_store) \<noteq> []" "cx_quotes \<noteq> []"
  by code_simp+

lemma cx_summaries: "\<exists>y. replay_summaries cx_env 260 cx_strategy default_settings 1000 cx_now (cx_store, 0)
   = (Inr (map (summary_of trend_id default_settings) cx_out), y)"
  by (simp add: replay_summaries_def Let_def cx_span(1,2) cx_quotes_read cx_missed cx_replayed drawn_in_def keep_replay_def abind_def)
end
