(* ===== verification/Props_Cycle.thy ===== *)
theory Props_Cycle
  imports Cycle_Fixtures
begin

text \<open>
  The properties of the cycle research: the slow trend strategy, the backfill of the historical
  quotes, and the walk-forward replay whose summaries size a candidate on paper.
\<close>

section \<open>The trend strategy\<close>


text \<open>
  C38: the trend strategy does not look ahead, and on validated quotes it never raises: it delivers
  validated candidates, the same whatever is stored after the scan.
\<close>

theorem trend_no_lookahead:
  assumes "\<forall>q \<in> set (mn_market_quotes scan). mq_observed_at q \<le> t \<and> 0 < mq_mid q"
    and "\<forall>f \<in> set (mn_funding_quotes scan). fq_interval_hours f \<noteq> 0"
    and "0 < capital" and "0 < se_alpha_min_notional_usd s"
    and "\<And>k. filter (\<lambda>x. mq_observed_at x \<le> t) (past k) = filter (\<lambda>x. mq_observed_at x \<le> t) (past' k)"
  shows "\<exists>cs k. trend_discover uuid scan past s capital n = (Inr cs, k)
    \<and> trend_discover uuid scan past' s capital n = (Inr cs, k) \<and> (\<forall>c \<in> set cs. alpha_cand_ok c)"
proof -
  have seen: "\<forall>q \<in> set (mn_market_quotes scan). mq_observed_at q \<le> t" and pos: "\<forall>q \<in> set (mn_market_quotes scan). 0 < mq_mid q"
    using assms(1) by auto
  have same: "trend_discover uuid scan past s capital = trend_discover uuid scan past' s capital"
    by (rule trend.later_ignored [OF seen assms(5)])
  obtain cs k where run: "trend_discover uuid scan past s capital n = (Inr cs, k)"
    using trend_discover_defined [OF pos assms(2-4)] by blast
  have "alpha_cand_ok c" if "c \<in> set cs" for c
  proof -
    obtain m where "\<forall>c \<in> set cs. \<exists>d. \<exists>q \<in> set (mn_market_quotes scan). mq_market_kind q = (if d = Alpha_long then SPOT else PERPETUAL)
       \<and> trend_found s capital scan past m (upper (mq_asset q)) d q c"
      by (rule trend_discovered [OF run]) (rule that)
    then show ?thesis using that unfolding trend_found_def by blast
  qed
  then show ?thesis using run same by metis
qed

section \<open>The backfill\<close>

text \<open>
  C16: the backfill ends.  Whatever the providers reply and however they fail, it sends at most one
  request for every 60 days to Coinbase and to Bybit, one for every 89 days to CoinGecko and 24 to
  OKX, for each different asset asked for.
\<close>

theorem backfill_terminates:
  "hx_requests (snd (ensure_backfilled env backend n assets now s)) \<le> hx_requests s
     + card (upper ` {a \<in> set assets. strip a \<noteq> []})
       * (2 * nat ((max 260 n + 59) div 60) + nat ((max 260 n + 88) div 89) + 24)"
proof -
  have "length (asset_codes assets) = card (upper ` {a \<in> set assets. strip a \<noteq> []})"
    by (simp add: asset_codes_def sorted_unique_length)
  moreover have "asset_requests (days (backfill_span n))
      = 2 * nat ((max 260 n + 59) div 60) + nat ((max 260 n + 88) div 89) + 24"
    by (simp add: asset_requests_def okx_max_pages_def window_count_days backfill_span_def add.commute)
  ultimately show ?thesis
    using ensure_backfilled_keeps [of env assets n s backend now] by (simp add: fills_def)
qed

text \<open>
  C17: on Postgres and SQLite the backfill always completes with a report, and the report is honest:
  its errors name exactly the assets whose coverage is still insufficient, in order; and when every
  asset is covered already, nothing is requested or written.
\<close>

theorem backfill_reports_gaps:
  assumes "backend \<noteq> Other_backend" and start: "start = utc_day_start now - days (max 260 n)"
  shows "\<exists>report t reason. ensure_backfilled env backend n assets now s = (Inr report, t)
    \<and> br_requested_assets report = sort (remdups (map upper (filter (\<lambda>a. strip a \<noteq> []) assets)))
    \<and> br_errors report = map (\<lambda>a. a @ '':'' @ reason a)
        (filter (\<lambda>a. \<not> sufficient_coverage (coverage_of (hx_rows t) a (Some start) (Some (utc_day_start now)))
           (max 260 n * 4) start (utc_day_start now)) (br_requested_assets report))
    \<and> br_total_quote_count report = length (hx_rows t)
    \<and> ((\<forall>a \<in> set (br_requested_assets report).
         sufficient_coverage (coverage_of (hx_rows s) a (Some start) (Some (utc_day_start now)))
           (max 260 n * 4) start (utc_day_start now)) \<longrightarrow> t = s)"
proof -
  let ?end_at = "utc_day_start now" and ?codes = "asset_codes assets"
  have expected: "max 260 n * (86400 div candle_seconds) = max 260 n * 4"
    by (simp add: candle_seconds_def)
  have codes: "distinct ?codes" "\<forall>a \<in> set ?codes. asset_code a"
    using asset_codes_code by (auto simp: asset_codes_def)
  obtain reason b t where run: "afold (backfill_asset env backend start ?end_at (max 260 n * 4)) ?codes
        \<lparr>bk_stored = 0, bk_fetched = [], bk_errors = [], bk_diagnostics = []\<rparr> s = (Inr b, t)"
      "bk_errors b = map (\<lambda>a. a @ '':'' @ reason a) (filter (\<lambda>a. \<not> covered start ?end_at (max 260 n * 4) a t) ?codes)"
      "(\<forall>a \<in> set ?codes. covered start ?end_at (max 260 n * 4) a s) \<Longrightarrow> t = s"
    by (rule backfill_assets_ok [OF assms(1) codes, of env start ?end_at "max 260 n * 4"
      "\<lparr>bk_stored = 0, bk_fetched = [], bk_errors = [], bk_diagnostics = []\<rparr>" s]) (rule that; simp)
  have "ensure_backfilled env backend n assets now s = (Inr (report_of ?codes b t), t)"
    using run(1) unfolding ensure_backfilled_def Let_def start backfill_span_def expected abind_def by simp
  moreover have "br_requested_assets (report_of ?codes b t) = ?codes" "br_errors (report_of ?codes b t) = bk_errors b"
      "br_total_quote_count (report_of ?codes b t) = length (hx_rows t)"
    by (simp_all add: report_of_def Let_def)
  ultimately show ?thesis using run(2,3)
    by (intro exI [of _ "report_of ?codes b t"] exI [of _ t] exI [of _ reason])
      (simp add: covered_def asset_codes_def sorted_unique_def)
qed

text \<open>A store of historical quotes, from the empty table by backfills and replays.\<close>

inductive history_reachable :: "history_env \<Rightarrow> hist_state \<Rightarrow> bool" for env where
  empty_store: "history_reachable env \<lparr>hx_rows = [], hx_cache_key = None, hx_cache = [], hx_requests = 0\<rparr>"
| after_backfill: "history_reachable env h \<Longrightarrow> history_reachable env (snd (ensure_backfilled env backend n assets now h))"
| after_replay: "history_reachable env h \<Longrightarrow>
    history_reachable env (fst (snd (replay_summaries env n strategy s capital now (h, k))))"
| after_batched_replay: "history_reachable env h \<Longrightarrow>
    history_reachable env (fst (snd (batched_replay_summaries env n active strategy s capital now (h, k))))"

lemma replay_keeps_rows:
  "hx_rows (fst (snd (replay_summaries env n strategy s capital now (h, k)))) = hx_rows h"
  "hx_rows (fst (snd (batched_replay_summaries env n active strategy s capital now (h, k)))) = hx_rows h"
  by (auto simp: replay_summaries_def batched_replay_summaries_def Let_def abind_def drawn_in_def keep_replay_def
      split: prod.split sum.split)

lemma history_reachable_ok: "history_reachable env h \<Longrightarrow> table_ok env (hx_rows h)"
proof (induction rule: history_reachable.induct)
  case empty_store
  then show ?case by (simp add: table_ok_def)
next
  case (after_backfill h backend n assets now)
  then show ?case using ensure_backfilled_keeps [of env assets n h backend now] by (simp add: fills_def)
qed (simp_all add: replay_keeps_rows)

text \<open>
  C14: after any backfills and replays, completed or aborted, on any database, the table of
  historical quotes holds each identifier once, and every row repeats a spot quote of one of the
  four providers; and a further backfill only appends rows about the assets it was asked for.
\<close>

theorem history_table_valid:
  assumes "history_reachable env h"
  shows "distinct (map hr_quote_id (hx_rows h))
    \<and> (\<forall>r \<in> set (hx_rows h). mq_market_kind (hr_payload r) = SPOT
        \<and> mq_venue (hr_payload r) \<in> {''Coinbase'', ''OKX'', ''Bybit'', ''CoinGecko''}
        \<and> hr_quote_id r = quote_id env (hr_payload r) \<and> hr_venue r = mq_venue (hr_payload r)
        \<and> hr_asset r = upper (mq_asset (hr_payload r)) \<and> hr_observed_at r = mq_observed_at (hr_payload r))
    \<and> (\<exists>added. hx_rows (snd (ensure_backfilled env backend n assets now h)) = hx_rows h @ added
        \<and> hr_asset ` set added \<subseteq> upper ` set assets)"
proof -
  have ok: "table_ok env (hx_rows h)" by (rule history_reachable_ok [OF assms])
  have "mq_market_kind (hr_payload r) = SPOT \<and> mq_venue (hr_payload r) \<in> {''Coinbase'', ''OKX'', ''Bybit'', ''CoinGecko''}
        \<and> hr_quote_id r = quote_id env (hr_payload r) \<and> hr_venue r = mq_venue (hr_payload r)
        \<and> hr_asset r = upper (mq_asset (hr_payload r)) \<and> hr_observed_at r = mq_observed_at (hr_payload r)"
    if "r \<in> set (hx_rows h)" for r
  proof -
    have r: "historical_spot (hr_payload r)" "r = historical_row env (hr_payload r)" using ok that by (simp_all add: table_ok_def)
    have "f r = f (historical_row env (hr_payload r))" for f :: "hist_row \<Rightarrow> 'x" using r(2) by simp
    from this [of hr_quote_id] this [of hr_venue] this [of hr_asset] this [of hr_observed_at] r(1)
    show ?thesis unfolding historical_spot_def provider_venues_def historical_row_fields by simp
  qed
  moreover obtain added where "hx_rows (snd (ensure_backfilled env backend n assets now h)) = hx_rows h @ added"
      "hr_asset ` set added \<subseteq> set (asset_codes assets)"
    using ensure_backfilled_keeps [of env assets n h backend now] by (auto simp: fills_def)
  moreover have "set (asset_codes assets) \<subseteq> upper ` set assets" by (auto simp: asset_codes_def)
  ultimately show ?thesis using ok unfolding table_ok_def by blast
qed

text \<open>
  C20: an asset is read from the one provider whose coverage is best: complete before incomplete,
  then the longest span, then the most candles, then the fixed priority; no two providers tie, so
  that the choice does not depend on the order of the rows.
\<close>

theorem preferred_provider_best:
  assumes "history_reachable env h" and "upper asset = asset" and "strip asset \<noteq> []"
  shows "preferred_venue (hx_rows h) asset start end_at = Some v \<longleftrightarrow>
    (\<exists>r \<in> set (provider_coverage_rows (hx_rows h) [asset] start end_at). vr_venue r = v
       \<and> (\<forall>x \<in> set (provider_coverage_rows (hx_rows h) [asset] start end_at). x = r
            \<or> tuple_less (coverage_score start end_at x) (coverage_score start end_at r)))"
  by (rule preferred_venue_max [OF history_reachable_ok [OF assms(1)]]) (simp add: asset_code_def assms(2,3))

text \<open>
  C19: no CoinGecko price is moved in time: the quotes read from a reply are exactly one for each six
  hours that the reply has a point in, the earliest of them, at the time and price it was given with.
\<close>

theorem coingecko_prices_not_relabelled:
  assumes "parse_coingecko_prices env asset coin (JObject obj) = Inr qs"
  shows "\<exists>items. json_get obj ''prices'' = JList items
    \<and> (\<forall>q \<in> set qs. \<exists>p \<in> set (some_values (map (price_point env) items)).
        utc_fromtimestamp (fst p / 1000) = Inr (mq_observed_at q) \<and> mq_mid q = snd p
      \<and> (\<forall>x \<in> set (some_values (map (price_point env) items)). bucket_of (fst x) = bucket_of (fst p) \<longrightarrow> fst p \<le> fst x))
    \<and> length qs = card ((\<lambda>p. bucket_of (fst p)) ` set (some_values (map (price_point env) items)))
    \<and> sorted (map mq_observed_at qs)"
  by (rule coingecko_parsed [OF assms]) blast

section \<open>The replay\<close>

text \<open>
  C6: the replay walks forward.  Every outcome behind a summary comes from a candidate that the
  strategy found at an evaluation, every 72 hours, from quotes no later than that evaluation only;
  it was settled at the first quote of the same instrument at or after its horizon, at most twelve
  hours late; and its return is the directional move less the larger of the modelled cost and the
  fees of both trades.  A summary counts these outcomes, and qualifies only on at least 24 of them.
\<close>

theorem replay_walks_forward:
  assumes "history_reachable env h" and "hx_cache_key h = None"
    and "replay_summaries env n strategy s capital now (h, k) = (Inr summaries, y)"
    and "quotes = filter_preferred_quotes (hx_rows h) (stored_quotes (hx_rows h))
          (utc_day_start now - days (max 260 n)) (utc_day_start now)"
  shows "distinct (map fst summaries) \<and> (\<forall>p \<in> set summaries. \<exists>rows.
      rs_sample_count (snd p) = length rows \<and> rs_mean_realized_net_return (snd p) = Some (fmean (map fst rows))
    \<and> (rs_qualified (snd p) \<longrightarrow> 24 \<le> length rows \<and> se_alpha_min_forward_mean_return s < fmean (map fst rows)
         \<and> 0.55 * real (length rows) \<le> real (length (filter (\<lambda>v. 0 < v) (map fst rows)))
         \<and> se_alpha_min_regimes s \<le> int (card (snd ` set rows)))
    \<and> (\<forall>row \<in> set rows. walk_forward_outcome strategy s capital quotes now (fst p) (fst row) (snd row)))"
proof (cases "summaries = []")
  case False
  have ok: "table_ok env (hx_rows h)" by (rule history_reachable_ok [OF assms(1)])
  obtain m where "replay_quotes strategy s capital now quotes k = (Inr summaries, m)"
    using replay_miss [OF assms(3,2)] False unfolding assms(4) backfill_span_def by metis
  then obtain out where out: "summaries = map (summary_of (mf_strategy_id (st_manifest strategy)) s) out" "nonempty_rows out"
      and walked: "\<And>key row. outcome_in out key row \<Longrightarrow> walked strategy s capital (series_of quotes) (replay_stop strategy quotes now)
        (replay_start strategy s quotes) [] key row" by (rule replay_quotes_rows) (rule that)
  have sorted: "sorted (map mq_observed_at quotes)"
    unfolding assms(4) filter_preferred_quotes_def Let_def by (rule sorted_filter [OF stored_sorted [OF ok]])
  have "walk_forward_outcome strategy s capital quotes now key (fst row) (snd row)"
    if "(key, rows) \<in> set out" "row \<in> set rows" for key rows row
    by (rule walked_outcome [OF sorted]) (rule walked, use that in \<open>auto simp: outcome_in_def\<close>)
  moreover have "distinct (map fst summaries)"
    using out(2) by (simp add: out(1) summary_of_def Let_def case_prod_beta nonempty_rows_def comp_def)
  moreover have "\<exists>g \<in> set out. p = summary_of (mf_strategy_id (st_manifest strategy)) s g" if "p \<in> set summaries" for p
    using that out(1) by auto
  moreover have "snd g \<noteq> []" if "g \<in> set out" for g using that out(2) by (auto simp: nonempty_rows_def)
  ultimately show ?thesis using summary_counts by (metis (no_types, lifting) prod.collapse)
qed simp

text \<open>
  C18: the batched research agrees with the plain one: reading only the rows of its active assets,
  it summarises a replay exactly as the plain research does on a table that holds no other rows.
\<close>

theorem batched_replay_agrees:
  assumes "history_reachable env h" and "hx_cache_key h = None"
    and "active = sort (remdups (map upper (filter (\<lambda>a. strip a \<noteq> []) assets)))" and "active \<noteq> []"
  shows "fst (batched_replay_summaries env n active strategy s capital now (h, k))
    = fst (replay_summaries env n strategy s capital now
        (h\<lparr>hx_rows := filter (\<lambda>r. hr_asset r \<in> set active) (hx_rows h)\<rparr>, k))"
proof -
  let ?rows = "filter (\<lambda>r. hr_asset r \<in> set active) (hx_rows h)"
  have active: "active = asset_codes assets" by (simp add: assms(3) asset_codes_def sorted_unique_def)
  have "filter_preferred_quotes ?rows (stored_quotes ?rows) start end_at
      = filter_preferred_quotes (hx_rows h) (stored_quotes ?rows) start end_at" for start end_at
    unfolding active by (rule filter_preferred_restrict [OF history_reachable_ok [OF assms(1)]])
  then show ?thesis using assms(2,4)
    by (simp add: batched_replay_summaries_def replay_summaries_def Let_def abind_def drawn_in_def keep_replay_def
      split: prod.split sum.split)
qed

section \<open>The policies\<close>

text \<open>
  C15: paper capital is earned.  The incremental policy sizes only a candidate that is not yet
  statistically qualified, has between three and the full target of genuine forward outcomes, passes
  every return, regime and health test and is supported by a qualified replay; the share is the
  complete steps of three outcomes over the target, never more than the share of outcomes that have
  matured, never all, and no smaller number of outcomes earns more.
\<close>

theorem incremental_sizing_earned:
  assumes "ix_eligible (incremental_forward_policy q h r s hs)" and "n = int (aq_sample_count q)"
    and "f = ix_allocation_fraction (incremental_forward_policy q h r s hs)" and "target = se_alpha_min_forward_samples s"
  shows "\<not> aq_statistically_qualified q \<and> 3 \<le> n \<and> n < target
    \<and> f = of_int (n div 3 * 3) / of_int target \<and> 0 < f \<and> f < 1 \<and> f \<le> of_int n / of_int target
    \<and> (\<forall>m \<le> n. forward_evidence_allocation_fraction m target \<le> f)
    \<and> (\<exists>x. aq_mean_realized_net_return q = Some x \<and> aq_required_mean_lower_bound q < x)
    \<and> (\<exists>x. aq_hit_rate q = Some x \<and> 0.55 \<le> x) \<and> 1 \<le> aq_regime_count q \<and> 3 \<le> ah_recent_sample_count h
    \<and> (\<exists>x. ah_recent_mean_net_return h = Some x \<and> hs_min_recent_mean_return hs < x)
    \<and> (\<exists>x. ah_recent_hit_rate h = Some x \<and> hs_min_recent_hit_rate hs \<le> x)
    \<and> (\<exists>x. ah_forecast_capture_ratio_median h = Some x \<and> hs_min_capture_ratio hs \<le> x)
    \<and> (\<exists>x. ah_recent_to_long_run_ratio h = Some x \<and> hs_min_recent_to_long_ratio hs \<le> x)
    \<and> (\<exists>x. ah_max_compounded_drawdown h = Some x \<and> x \<le> hs_max_drawdown hs)
    \<and> int (ah_trailing_loss_streak h) < hs_max_trailing_losses hs
    \<and> (\<exists>x. r = Some x \<and> rs_qualified x)"
proof -
  have e: "incremental_blockers q h r s hs = []" "f = forward_evidence_allocation_fraction n (incremental_target s)"
    using assms by (auto simp: incremental_forward_policy_def Let_def)
  note tests = e(1) [unfolded incremental_blockers_def blockers_none, simplified, unfolded not_less not_le none_or_not unsupported_not]
  have n: "3 \<le> n" "n < incremental_target s" using tests unfolding assms(2) evidence_step_def by auto
  then have target: "incremental_target s = target" by (auto simp: incremental_target_def evidence_step_def assms(4))
  note partial = fraction_partial [of n target, unfolded evidence_step_def, folded e(2) [unfolded target]]
  have small: "3 \<le> n" "n < max 3 target" using n target by auto
  have "\<forall>m \<le> n. forward_evidence_allocation_fraction m target \<le> f"
    unfolding e(2) target by (intro allI impI fraction_mono)
  then show ?thesis using tests n target partial [OF small]
    by (intro conjI; (simp add: evidence_step_def min_hit_rate_def not_less not_le))
qed

section \<open>Witnesses\<close>


theorem trend_no_lookahead_witness:
  "\<exists>cs k. trend_discover (\<lambda>n. ''id'') cx_scan cx_past default_settings 100000 0 = (Inr cs, k)
    \<and> trend_discover (\<lambda>n. ''id'') cx_scan (\<lambda>key. cx_past key @ [cx_quote 7 1]) default_settings 100000 0 = (Inr cs, k)
    \<and> list_all alpha_cand_ok cs"
  unfolding list_all_iff
  by (rule trend_no_lookahead [where t = 0])
    (simp_all add: cx_scan_def cx_quote_def default_settings_def)

theorem backfill_reports_gaps_witness:
  "\<exists>report t reason. ensure_backfilled cx_env Sqlite 260 [''BTC''] cx_now cx_empty = (Inr report, t)
    \<and> br_requested_assets report = [''BTC'']
    \<and> br_errors report = map (\<lambda>a. a @ '':'' @ reason a)
        (filter (\<lambda>a. \<not> sufficient_coverage (coverage_of (hx_rows t) a (Some (950400000000 - days 260)) (Some 950400000000))
           1040 (950400000000 - days 260) 950400000000) (br_requested_assets report))"
proof -
  have codes: "sort (remdups (map upper (filter (\<lambda>a. strip a \<noteq> []) [''BTC'']))) = [''BTC'']" by code_simp
  have start: "950400000000 - days 260 = utc_day_start cx_now - days (max 260 260)" by (simp add: cx_span(1))
  have span: "max 260 260 * 4 = (1040 :: int)" by simp
  have "Sqlite \<noteq> Other_backend" by simp
  from backfill_reports_gaps [OF this start, of cx_env "[''BTC'']" cx_empty, unfolded codes cx_span(1) span]
  show ?thesis by (elim exE conjE) (intro exI conjI; assumption)
qed

lemma cx_reachable: "history_reachable cx_env cx_store"
  using after_backfill [OF empty_store, of cx_env Sqlite 260 "[''BTC'']" cx_now] cx_backfilled by (simp add: cx_empty_def)

theorem history_table_valid_witness:
  "distinct (map hr_quote_id (hx_rows cx_store)) \<and> length (hx_rows cx_store) = 2
    \<and> list_all (\<lambda>r. mq_market_kind (hr_payload r) = SPOT \<and> hr_quote_id r = quote_id cx_env (hr_payload r)) (hx_rows cx_store)
    \<and> (\<exists>added. hx_rows (snd (ensure_backfilled cx_env Postgresql 300 [''eth''] cx_now cx_store)) = hx_rows cx_store @ added
        \<and> hr_asset ` set added \<subseteq> upper ` set [''eth''])"
proof -
  note valid = history_table_valid [OF cx_reachable, of Postgresql 300 "[''eth'']" cx_now]
  have "length (hx_rows cx_store) = 2" by (simp add: cx_store_def)
  moreover have "\<forall>r \<in> set (hx_rows cx_store). mq_market_kind (hr_payload r) = SPOT \<and> hr_quote_id r = quote_id cx_env (hr_payload r)"
    using valid by blast
  ultimately show ?thesis unfolding list_all_iff using valid by (elim conjE) (intro conjI; assumption)
qed

theorem preferred_provider_best_witness:
  "\<exists>r \<in> set (provider_coverage_rows (hx_rows cx_store) [''BTC''] None None). vr_venue r = ''Coinbase''"
proof -
  have "preferred_venue (hx_rows cx_store) ''BTC'' None None = Some ''Coinbase''" by code_simp
  moreover have "upper ''BTC'' = ''BTC''" "strip ''BTC'' \<noteq> []" by code_simp+
  ultimately show ?thesis using preferred_provider_best [OF cx_reachable, of "''BTC''" None None "''Coinbase''"] by blast
qed

theorem coingecko_prices_not_relabelled_witness:
  "\<exists>qs. parse_coingecko_prices cx_env ''ETH'' ''ethereum'' (JObject [(''prices'', JList [JList [JInt 2000000, JInt 6],
      JList [JInt 1000000, JInt 5], JList [JInt 30000000, JInt 7]])]) = Inr qs
    \<and> map mq_mid qs = [5, 7] \<and> sorted (map mq_observed_at qs)"
proof -
  let ?obj = "[(''prices'', JList [JList [JInt 2000000, JInt 6], JList [JInt 1000000, JInt 5], JList [JInt 30000000, JInt 7]])]"
  have "case parse_coingecko_prices cx_env ''ETH'' ''ethereum'' (JObject ?obj) of Inl e \<Rightarrow> False | Inr qs \<Rightarrow> map mq_mid qs = [5, 7]"
    by code_simp
  then obtain qs where qs: "parse_coingecko_prices cx_env ''ETH'' ''ethereum'' (JObject ?obj) = Inr qs" "map mq_mid qs = [5, 7]"
    by (auto split: sum.splits)
  have "sorted (map mq_observed_at qs)" using coingecko_prices_not_relabelled [OF qs(1)] by (elim exE conjE)
  then show ?thesis using qs by (intro exI [of _ qs] conjI)
qed

theorem replay_walks_forward_witness:
  "\<exists>summaries y. replay_summaries cx_env 260 cx_strategy default_settings 1000 cx_now (cx_store, 0) = (Inr summaries, y)
    \<and> length summaries = 1 \<and> list_all (\<lambda>p. \<exists>rows. rs_sample_count (snd p) = length rows
      \<and> list_all (\<lambda>row. walk_forward_outcome cx_strategy default_settings 1000 cx_quotes cx_now (fst p) (fst row) (snd row)) rows) summaries"
proof -
  obtain y where run: "replay_summaries cx_env 260 cx_strategy default_settings 1000 cx_now (cx_store, 0)
      = (Inr (map (summary_of trend_id default_settings) cx_out), y)" using cx_summaries by blast
  have quotes: "cx_quotes = filter_preferred_quotes (hx_rows cx_store) (stored_quotes (hx_rows cx_store))
      (utc_day_start cx_now - days (max 260 260)) (utc_day_start cx_now)" by (simp add: cx_span(1) cx_quotes_read)
  have "length (map (summary_of trend_id default_settings) cx_out) = 1" by (simp add: cx_out_def)
  then show ?thesis unfolding list_all_iff
    using run replay_walks_forward [OF cx_reachable cx_missed(1) run quotes] by blast
qed

theorem batched_replay_agrees_witness:
  "fst (batched_replay_summaries cx_env 260 [''BTC''] cx_strategy default_settings 1000 cx_now (cx_store, 0))
    = Inr (map (summary_of trend_id default_settings) cx_out)"
proof -
  have codes: "[''BTC''] = sort (remdups (map upper (filter (\<lambda>a. strip a \<noteq> []) [''BTC''])))" by code_simp
  have rows: "cx_store\<lparr>hx_rows := filter (\<lambda>r. hr_asset r \<in> set [''BTC'']) (hx_rows cx_store)\<rparr> = cx_store" by code_simp
  show ?thesis
    using batched_replay_agrees [OF cx_reachable cx_missed(1) codes, of 260 cx_strategy default_settings 1000 cx_now 0]
      cx_summaries unfolding rows by auto
qed

text \<open>Seven outcomes that earn six of thirty.\<close>

definition cx_qualification :: alpha_qualification where
  "cx_qualification = \<lparr>aq_strategy_id = trend_id, aq_family = ''directional_time_series'', aq_asset = ''BTC'',
     aq_direction = Alpha_long, aq_sample_count = 7, aq_positive_count = 5, aq_hit_rate = Some (5 / 7),
     aq_hit_rate_ci_lower = None, aq_mean_realized_net_return = Some (1 / 100),
     aq_mean_realized_net_return_ci_lower = None, aq_p10_realized_net_return = None, aq_worst_realized_net_return = None,
     aq_regime_count = 1, aq_regime_means = [(Normal_vol, 1 / 100)], aq_multiple_testing_penalty_return = 0,
     aq_required_mean_lower_bound = 1 / 1000, aq_statistically_qualified = False, aq_blockers = [],
     aq_paper_allocation_authority = False, aq_live_execution_authority = False, aq_paper_only = True\<rparr>"

definition cx_health :: alpha_health where
  "cx_health = \<lparr>ah_strategy_id = trend_id, ah_family = ''directional_time_series'', ah_asset = ''BTC'',
     ah_direction = Alpha_long, ah_sample_count = 7, ah_recent_sample_count = 7, ah_recent_mean_net_return = Some (1 / 100),
     ah_recent_hit_rate = Some (5 / 7), ah_long_run_mean_net_return = Some (1 / 100),
     ah_forecast_capture_ratio_median = Some 1, ah_recent_to_long_run_ratio = Some 1, ah_max_compounded_drawdown = Some (1 / 100),
     ah_trailing_loss_streak = 1, ah_calibration_mae = None, ah_health_score = 1, ah_capital_multiplier = 1,
     ah_healthy_for_paper_allocation = False, ah_blockers = [], ah_live_execution_authority = False, ah_paper_only = True\<rparr>"

definition cx_support :: replay_summary where
  "cx_support = \<lparr>rs_strategy_id = trend_id, rs_asset = ''BTC'', rs_direction = Alpha_long, rs_sample_count = 24,
     rs_positive_count = 20, rs_hit_rate = Some (5 / 6), rs_mean_realized_net_return = Some (1 / 100),
     rs_regime_count = 1, rs_regime_means = [(Normal_vol, 1 / 100)], rs_qualified = True\<rparr>"

theorem incremental_sizing_earned_witness:
  "ix_allocation_fraction (incremental_forward_policy cx_qualification cx_health (Some cx_support) default_settings default_health_settings)
    = 6 / 30"
proof -
  have e: "ix_eligible (incremental_forward_policy cx_qualification cx_health (Some cx_support) default_settings default_health_settings)"
    by code_simp
  have "aq_sample_count cx_qualification = 7" "se_alpha_min_forward_samples default_settings = 30" by code_simp+
  then show ?thesis using incremental_sizing_earned [OF e refl refl refl] by simp
qed

end
