(* ===== verification/Spec2Isabelle.thy ===== *)
theory Spec2Isabelle
  imports Props_Execution Props_Allocation Props_Latency Props_Discovery Props_Ledger
    Props_Certification Props_Conversion Props_Resilient Props_Alpha Props_Cycle
begin

text \<open>
  A verification of the core of the crypto inefficiency engine, the Python package under
  \<open>src/src/inefficiency_engine\<close>.  The engine collects public quotes and order books, detects price
  inefficiencies, qualifies how much capital each could carry after every cost, plans how a paper
  account would be divided among them, keeps that account in an append-only ledger, and certifies
  its own forecasts against what happened later.  Nothing in it trades with money.

  \<^bold>\<open>The parts and how they interact.\<close>  A scan delivers quotes, funding rates and books.  The market
  graph gives every quote a canonical instrument; the detectors turn quotes into opportunities; the
  qualification prices each opportunity against the books and searches for its capacity, with fixed
  latency buffers or with the empirical model of the shadow observations.  The two allocators plan
  over qualified tiers, the unified one also over alpha candidates and over composites of an exchange
  and a chain, under the caps and the portfolio risk overlay.  The portfolio service opens, marks and
  closes positions in the ledger; production runs its resilient variant, which also records what each
  valuation rests on.  The certification service turns a plan into trials and settles them later.  The
  alpha research finds directional candidates, records them as signals, and promotes a candidate only
  on forward evidence; the cycle research adds a slow trend strategy, a backfilled history and a
  walk-forward replay of a strategy over it.

  \<^bold>\<open>Theories and code\<close> (file names without \<open>.py\<close>).
  \<^item> \<open>Prelude\<close>: the Python vocabulary (errors, dicts, sorting, rounding, formats) and the locale
    \<open>guarded_loop\<close>; \<open>Actions\<close>: code that reads and writes a store, with triples that bound what it
    does, an exception included.
  \<^item> \<open>Models\<close>: models, instrument_identity.  \<open>Settings\<close>: config.  \<open>Costs\<close>: costs.
  \<^item> \<open>Execution\<close>, \<open>Qualification\<close>: execution, in two halves; \<open>Capacity\<close>: the laws of the capacity search.
  \<^item> \<open>Selection\<close>: ranking, risk, paper.  \<open>Allocation\<close>: allocation.  \<open>Portfolio_Risk\<close>: portfolio_risk.
    \<open>Unified_Allocation\<close>, \<open>Unified_Correct\<close>: unified_allocation.
  \<^item> \<open>Shadow\<close>: fill_model and the observations of shadow.  \<open>Quantiles\<close>, \<open>Latency\<close>: latency.
  \<^item> \<open>Market_Graph\<close>: market_graph.  \<open>Detectors\<close>: the package detectors.
  \<^item> \<open>Ledger\<close>, \<open>Portfolio_Service\<close>: canonical_paper_portfolio; \<open>Ledger_Correct\<close>, \<open>Cycle_Correct\<close>,
    \<open>Cycle_Loops\<close>, \<open>Cycle_Run\<close>: what its cycle keeps.
  \<^item> \<open>Resilient\<close>: resilient_paper_portfolio, portfolio_integrity; \<open>Resilient_Loops\<close>, \<open>Resilient_Run\<close>,
    \<open>Resilient_Cycle\<close>: what its cycle keeps.
  \<^item> \<open>Certification\<close>, \<open>Certification_Service\<close>: allocation_certification; \<open>Certification_Correct\<close>,
    \<open>Certification_Cycle\<close>: its laws.
  \<^item> \<open>Conversion\<close>, \<open>Conversion_Correct\<close>: conversion_depth.
  \<^item> \<open>Alpha_Statistics\<close>, \<open>Alpha_Factory\<close>, \<open>Alpha_Service\<close>: alpha_factory, expanded_alpha_factory;
    \<open>Alpha_Health\<close>: alpha_risk; \<open>Momentum_Correct\<close>, \<open>Alpha_Correct\<close>: their laws.
  \<^item> \<open>Cycle_Trend\<close>: cycle_trend_strategy.  \<open>Cycle_History\<close>, \<open>Cycle_Backfill\<close>, \<open>Cycle_Replay\<close>:
    cycle_probation, batched_cycle_history, incremental_forward_sizing; \<open>Cycle_Trend_Correct\<close>,
    \<open>History_Correct\<close>, \<open>Replay_Correct\<close>: their laws.
  \<^item> \<open>Fixtures\<close>, \<open>Ledger_Fixtures\<close>, \<open>Cycle_Fixtures\<close>: concrete inputs.  \<open>Props_*\<close>: the properties, each
    numbered and followed by its witness further down.

  \<^bold>\<open>How the code is modelled.\<close>  A class or pydantic model is a record whose fields keep their Python
  names behind a two-letter prefix, an enum a datatype, a dict an association list in insertion
  order (a map where the order is never seen), an exception the left side of a sum.  A validator is
  a function that accepts a record or raises, and a constructor of a model runs it.  Code that
  changes a store is a function from the store to a result and the store after it; what was written
  before an exception stays written.  A table of the database is the list of its rows in insertion
  order; its text columns of times compare as the times do, and a column that holds a payload gives
  back what was written to it.  The hash chains are modelled in full over a hash function.

  \<^bold>\<open>Numbers.\<close>  Floats are exact reals: no rounding, no overflow, no NaN; the tolerances that the code
  adds for rounding are kept.  Python ints are unbounded, as here.  Times are integer microseconds in
  UTC.  A time outside the years 1 to 9999 is a ValueError.  Strings are ASCII.

  \<^bold>\<open>Loops, bounds and fuel.\<close>  Loops over collections recurse on them.  The fill loops, the fetch
  windows and the replay walk terminate by a measure.  The bisection of the capacity search runs at
  most 64 halvings in the code too; \<open>Capacity\<close> shows what it has reached by then.  OKX is read for at
  most 24 pages, as in the code.  No fuel was added anywhere.

  \<^bold>\<open>Parameters.\<close>  SHA-256, uuid4 (a stream of values), the clock, the JSON encodings and
  \<open>isoformat\<close>, the parsing of numbers from text, the replies of the web, the stored evidence that other
  modules write, and the services that are awaited (the collection of a scan, the upstream rows of the
  unified allocator, the allocator of a portfolio cycle).  An awaited service may answer anything or
  raise.  Hypotheses on parameters are named where a property needs one: that uuid4 does not repeat
  itself, that SHA-256 does not collide on the rows compared, that the scan has positive prices.

  \<^bold>\<open>Interfaces.\<close>  \<open>taker_loop\<close>: both fill loops, from which follows what is filled, what remains and at
  which prices.  \<open>size_gate\<close>: what the capacity search needs of a tier evaluation.  \<open>detector\<close>: the
  contract of the four detectors, on which the registry rests.  \<open>guarded_loop\<close>: loops that accept an
  item or skip it under an invariant, used by both allocators and the paper executor.
  \<open>point_in_time\<close>: strategies that see no quote later than the scan, kept by both strategies.

  \<^bold>\<open>What the groups of lemmas show.\<close>
  \<^item> Qualification: a tier that qualifies is filled in full with the hedge reserve on both books and a
    return over the hurdle after every cost; the capacity is the frontier of the sizes that qualify;
    missing, stale or skewed books qualify nothing.
  \<^item> Allocation: a plan is under every cap and risk budget, without two uses of an instrument, and the
    unified allocator always delivers one.
  \<^item> Latency: a model is used only after every gate.
  \<^item> Detection: what is discovered is a hedged pair on quoted instruments above the hurdle.
  \<^item> Portfolio: the account balances after any cycles, completed or aborted, under an unbroken hash chain
    that pins its rows; the resilient cycle values by new quotes only, settles only after the horizon,
    deploys nothing while a valuation is stale, and completes however the allocator ends.
  \<^item> Certification: one outcome at most for a trial, settled exactly from evidence after its horizon.
  \<^item> Conversion: no quote beats its books, and no round trip gains.
  \<^item> Alpha research: outcomes are forward and independent, and promotion passed every gate.
  \<^item> Cycle research: the strategy and the replay see only the past, the backfill ends and says what is
    missing, its table holds each quote once, the best provider is chosen whatever the order of the
    rows, and paper capital is earned in complete steps of outcomes.

  \<^bold>\<open>Not modelled.\<close>  The exchange and provider adapters and the other HTTP clients, whose replies are
  inputs; the web pages, read APIs and projections, which only present what is stored; the
  supervision of processes, threads and memory of the host; SQL, migrations and the storage layer; the
  collectors and their schedules; the pipelines that find routes between exchanges and chains, and the
  further alpha pipelines over stored history, whose rows enter the unified allocator as arbitrary
  inputs.  Of shadow, the loop that waits and collects again is not modelled; of the alpha research,
  only the momentum strategy of the first factory and the trend strategy are.
\<close>

end
